(* ===== verification/Aim_Prelude.thy ===== *)
theory Aim_Prelude
  imports Complex_Main "HOL-Library.Sublist" "HOL-Library.AList"
begin

text \<open>
  The shared vocabulary of the development. Go's \<open>(value, error)\<close> results are values of
  \<open>err + 'a\<close>; the error values are those of \<^verbatim>\<open>pkg/errors\<close>, of the gRPC status package and
  of gorm. \<open>rbind\<close> is the \<^verbatim>\<open>if err != nil { return err }\<close> of the source and \<open>ensure\<close> its
  guard clauses. A database transaction that fails returns \<open>Inl\<close> and so has no new state: the
  caller keeps the old one, which is the rollback. Tables are lists of rows in insertion order, and
  the row operations of gorm are \<open>find\<close>, \<open>filter\<close> and \<open>update_where\<close>.
\<close>

named_theorems res_simps \<open>unfolding of results and guards\<close>
named_theorems table_simps \<open>facts about the row operations on tables\<close>

section \<open>Errors and results\<close>

text \<open>The gRPC status codes.\<close>

datatype grpc_code =
  OK | Canceled | Unknown | OutOfRange | Unimplemented | DataLoss
| InvalidArgument | Unauthenticated | PermissionDenied | NotFound | AlreadyExists
| FailedPrecondition | DeadlineExceeded | ResourceExhausted | Unavailable | Aborted | Internal

text \<open>
  \<open>Biz c m\<close> is a \<open>BizError\<close> with code \<open>c\<close> (its cause, used for logging only, is dropped),
  \<open>Status\<close> a gRPC status error, \<open>RecordNotFound\<close> gorm's sentinel, \<open>Violation\<close> a rejected
  SQL constraint and \<open>Plain\<close> an error made by \<^verbatim>\<open>errors.New\<close> or \<^verbatim>\<open>fmt.Errorf\<close>.
\<close>

datatype err =
  Biz nat string
| Status grpc_code string
| RecordNotFound
| Violation string
| Plain string

definition rbind :: "'e + 'a \<Rightarrow> ('a \<Rightarrow> 'e + 'b) \<Rightarrow> 'e + 'b" where
  "rbind m f = (case m of Inl e \<Rightarrow> Inl e | Inr a \<Rightarrow> f a)"

definition ensure :: "bool \<Rightarrow> 'e \<Rightarrow> 'e + unit" where
  "ensure b e = (if b then Inr () else Inl e)"

definition of_option :: "'e \<Rightarrow> 'a option \<Rightarrow> 'e + 'a" where
  "of_option e x = (case x of None \<Rightarrow> Inl e | Some a \<Rightarrow> Inr a)"

definition map_err :: "('e \<Rightarrow> 'f) \<Rightarrow> 'e + 'a \<Rightarrow> 'f + 'a" where
  "map_err f m = (case m of Inl e \<Rightarrow> Inl (f e) | Inr a \<Rightarrow> Inr a)"

lemma rbind_Inr [simp]: "rbind (Inr a) f = f a"
  by (simp add: rbind_def)

lemma rbind_Inl [simp]: "rbind (Inl e) f = Inl e"
  by (simp add: rbind_def)

lemma rbind_eq_Inr [res_simps]: "rbind m f = Inr b \<longleftrightarrow> (\<exists>a. m = Inr a \<and> f a = Inr b)"
  by (cases m) auto

lemma rbind_eq_Inl [res_simps]:
  "rbind m f = Inl e \<longleftrightarrow> m = Inl e \<or> (\<exists>a. m = Inr a \<and> f a = Inl e)"
  by (cases m) auto

lemma rbindE: "rbind m f = Inr b \<Longrightarrow> (\<And>a. m = Inr a \<Longrightarrow> f a = Inr b \<Longrightarrow> P) \<Longrightarrow> P"
  by (auto simp: rbind_eq_Inr)

lemma rbind_assoc: "rbind (rbind m f) g = rbind m (\<lambda>a. rbind (f a) g)"
  by (cases m) simp_all

lemma rbind_cong [fundef_cong]:
  "m = m' \<Longrightarrow> (\<And>a. m' = Inr a \<Longrightarrow> f a = f' a) \<Longrightarrow> rbind m f = rbind m' f'"
  by (cases m') auto

lemma ensure_True [simp]: "ensure True e = Inr ()"
  by (simp add: ensure_def)

lemma ensure_False [simp]: "ensure False e = Inl e"
  by (simp add: ensure_def)

lemma ensure_eq_Inr [res_simps]: "ensure b e = Inr u \<longleftrightarrow> b"
  by (simp add: ensure_def)

lemma ensure_eq_Inl [res_simps]: "ensure b e = Inl e' \<longleftrightarrow> \<not> b \<and> e' = e"
  by (auto simp: ensure_def)

lemma of_option_eq_Inr [res_simps]: "of_option e x = Inr a \<longleftrightarrow> x = Some a"
  by (simp add: of_option_def split: option.splits)

lemma of_option_simps [simp]: "of_option e (Some a) = Inr a" "of_option e None = Inl e"
  by (simp_all add: of_option_def)

lemma map_err_eq_Inr [res_simps]: "map_err f m = Inr a \<longleftrightarrow> m = Inr a"
  by (simp add: map_err_def split: sum.splits)

lemma map_err_simps [simp]: "map_err f (Inr a) = Inr a" "map_err f (Inl e) = Inl (f e)"
  by (simp_all add: map_err_def)

definition is_ok :: "'e + 'a \<Rightarrow> bool" where
  "is_ok m = (case m of Inl _ \<Rightarrow> False | Inr _ \<Rightarrow> True)"

lemma is_ok_simps [simp]: "is_ok (Inr a)" "\<not> is_ok (Inl e)"
  by (simp_all add: is_ok_def)

lemma is_ok_iff: "is_ok m \<longleftrightarrow> (\<exists>a. m = Inr a)"
  by (cases m) auto

text \<open>A loop that stops at its first error, threading a state.\<close>

fun rfold :: "('a \<Rightarrow> 's \<Rightarrow> 'e + 's) \<Rightarrow> 'a list \<Rightarrow> 's \<Rightarrow> 'e + 's" where
  "rfold f [] s = Inr s"
| "rfold f (x # xs) s = rbind (f x s) (rfold f xs)"

lemma rfold_append: "rfold f (xs @ ys) s = rbind (rfold f xs s) (rfold f ys)"
  by (induction xs arbitrary: s) (auto simp: rbind_assoc intro: rbind_cong)

lemma rfold_invariant:
  assumes "rfold f xs s = Inr t" and "P s"
    and "\<And>x s t. x \<in> set xs \<Longrightarrow> P s \<Longrightarrow> f x s = Inr t \<Longrightarrow> P t"
  shows "P t"
  using assms by (induction xs arbitrary: s) (auto simp: rbind_eq_Inr)

text \<open>A check of every element of a list, in order, returning the first error.\<close>

fun check_all :: "('a \<Rightarrow> 'e + unit) \<Rightarrow> 'a list \<Rightarrow> 'e + unit" where
  "check_all f [] = Inr ()"
| "check_all f (x # xs) = rbind (f x) (\<lambda>_. check_all f xs)"

lemma check_all_eq_Inr [res_simps]:
  "check_all f xs = Inr u \<longleftrightarrow> (\<forall>x\<in>set xs. f x = Inr ())"
  by (induction xs) (auto simp: rbind_eq_Inr)

section \<open>Tables\<close>

definition update_where :: "('r \<Rightarrow> bool) \<Rightarrow> ('r \<Rightarrow> 'r) \<Rightarrow> 'r list \<Rightarrow> 'r list" where
  "update_where P f = map (\<lambda>r. if P r then f r else r)"

text \<open>gorm's \<open>Take\<close>/\<open>First\<close>: the first matching row, or \<open>ErrRecordNotFound\<close>.\<close>

definition take_row :: "('r \<Rightarrow> bool) \<Rightarrow> 'r list \<Rightarrow> err + 'r" where
  "take_row P rs = of_option RecordNotFound (find P rs)"

lemma update_where_Nil [simp]: "update_where P f [] = []"
  by (simp add: update_where_def)

lemma update_where_Cons [simp]:
  "update_where P f (r # rs) = (if P r then f r else r) # update_where P f rs"
  by (simp add: update_where_def)

lemma set_update_where: "set (update_where P f rs) = f ` {r \<in> set rs. P r} \<union> {r \<in> set rs. \<not> P r}"
  by (auto simp: update_where_def)

lemma length_update_where [simp]: "length (update_where P f rs) = length rs"
  by (simp add: update_where_def)

lemma map_update_where [table_simps]:
  "(\<And>r. k (f r) = k r) \<Longrightarrow> map k (update_where P f rs) = map k rs"
  by (simp add: update_where_def)

lemma bex_update_where:
  "(\<And>r. Q (f r) = Q r) \<Longrightarrow> (\<exists>r\<in>set (update_where P f rs). Q r) = (\<exists>r\<in>set rs. Q r)"
  by (induction rs) auto

lemma bex_update:
  "(\<exists>r\<in>set (update_where P f rs). Q r) = (\<exists>r\<in>set rs. if P r then Q (f r) else Q r)"
  by (induction rs) auto

lemma filter_update_where [table_simps]:
  assumes "\<And>r. P r \<Longrightarrow> \<not> Q r" "\<And>r. P r \<Longrightarrow> \<not> Q (f r)"
  shows "filter Q (update_where P f rs) = filter Q rs"
  using assms by (induction rs) auto

lemma find_append [table_simps]:
  "find P (xs @ ys) = (case find P xs of None \<Rightarrow> find P ys | Some x \<Rightarrow> Some x)"
  by (induction xs) auto

lemma find_SomeD: "find P xs = Some x \<Longrightarrow> x \<in> set xs \<and> P x"
  by (induction xs) (auto split: if_splits)

lemma find_None_iff_all: "find P xs = None \<longleftrightarrow> (\<forall>x\<in>set xs. \<not> P x)"
  by (induction xs) auto

lemma find_unique_key:
  assumes "distinct (map k xs)" "x \<in> set xs"
  shows "find (\<lambda>r. k r = k x) xs = Some x"
  using assms by (induction xs) (auto simp: image_iff)

lemma take_row_Inr [res_simps]: "take_row P rs = Inr r \<longleftrightarrow> find P rs = Some r"
  by (simp add: take_row_def of_option_eq_Inr)

lemma take_row_InrD: "take_row P rs = Inr r \<Longrightarrow> r \<in> set rs \<and> P r"
  by (simp add: take_row_Inr find_SomeD)

lemma take_row_Inl: "take_row P rs = Inl e \<longleftrightarrow> (\<forall>r\<in>set rs. \<not> P r) \<and> e = RecordNotFound"
  by (auto simp: take_row_def of_option_def find_None_iff_all split: option.splits
      dest: find_SomeD)

lemma set_subseq: "subseq xs ys \<Longrightarrow> set xs \<subseteq> set ys"
  by (induction rule: list_emb.induct) auto

lemma length_filter_remove:
  assumes "distinct (map k xs)" "m \<in> set xs"
  shows "length (filter (\<lambda>x. k x \<noteq> k m \<and> Q x) xs) = length (filter Q xs) - (if Q m then 1 else 0)"
  using assms
proof (induction xs)
  case (Cons x xs)
  show ?case
  proof (cases "x = m")
    case True
    with Cons.prems(1) have "\<And>y. y \<in> set xs \<Longrightarrow> k y \<noteq> k m" by (auto simp: image_iff)
    then have "filter (\<lambda>x. k x \<noteq> k m \<and> Q x) xs = filter Q xs" by (intro filter_cong) auto
    with True show ?thesis by simp
  next
    case False
    then have m: "m \<in> set xs" "k x \<noteq> k m" using Cons.prems by auto
    then have "Q m \<Longrightarrow> 0 < length (filter Q xs)" by (metis filter_empty_conv length_greater_0_conv)
    with m Cons show ?thesis by auto
  qed
qed simp

lemma count_filter_update_same:
  assumes "\<And>r. Q (f r) = Q r"
  shows "length (filter Q (update_where P f rs)) = length (filter Q rs)"
  using assms by (induction rs) auto

section \<open>Sorting by a key, stable\<close>

text \<open>
  \<open>slices.SortStableFunc\<close> and \<^verbatim>\<open>ORDER BY key\<close> on distinct keys: HOL's \<open>sort_key\<close> is stable
  too. UUID strings are compared as Go compares strings, bytewise.
\<close>

fun str_le :: "string \<Rightarrow> string \<Rightarrow> bool" where
  "str_le [] ys = True"
| "str_le (x # xs) [] = False"
| "str_le (x # xs) (y # ys) =
     (of_char x < (of_char y :: nat) \<or> (x = y \<and> str_le xs ys))"

fun insert_by :: "('a \<Rightarrow> 'a \<Rightarrow> bool) \<Rightarrow> 'a \<Rightarrow> 'a list \<Rightarrow> 'a list" where
  "insert_by le x [] = [x]"
| "insert_by le x (y # ys) = (if le x y then x # y # ys else y # insert_by le x ys)"

definition sort_by :: "('a \<Rightarrow> 'a \<Rightarrow> bool) \<Rightarrow> 'a list \<Rightarrow> 'a list" where
  "sort_by le xs = foldr (insert_by le) xs []"

lemma str_le_refl [simp]: "str_le s s"
  by (induction s) auto

lemma str_le_trans: "str_le a b \<Longrightarrow> str_le b c \<Longrightarrow> str_le a c"
proof (induction a b arbitrary: c rule: str_le.induct)
  case (3 x xs y ys)
  then show ?case by (cases c) auto
qed auto

lemma str_le_antisym: "str_le a b \<Longrightarrow> str_le b a \<Longrightarrow> a = b"
  by (induction a b rule: str_le.induct) (auto elim: str_le.elims)

lemma str_le_total: "str_le a b \<or> str_le b a"
proof (induction a b rule: str_le.induct)
  case (3 x xs y ys)
  have "x = y" if "(of_char x :: nat) = of_char y" using that by simp
  then show ?case using 3 by (auto simp: not_less le_less)
qed auto

lemma set_insert_by [simp]: "set (insert_by le x ys) = insert x (set ys)"
  by (induction ys) auto

lemma set_sort_by [simp]: "set (sort_by le xs) = set xs"
  by (induction xs) (auto simp: sort_by_def)

lemma mset_insert_by: "length (insert_by le x ys) = Suc (length ys)"
  by (induction ys) auto

lemma length_sort_by [simp]: "length (sort_by le xs) = length xs"
  by (induction xs) (auto simp: sort_by_def mset_insert_by)

lemma insert_by_sorted:
  assumes "sorted_wrt le ys" "\<And>a b. le a b \<or> le b a" "\<And>a b c. le a b \<Longrightarrow> le b c \<Longrightarrow> le a c"
  shows "sorted_wrt le (insert_by le x ys)"
  using assms(1)
proof (induction ys)
  case Nil
  then show ?case by simp
next
  case (Cons y ys)
  have "le y x" if "\<not> le x y" using that assms(2) by blast
  with Cons show ?case by (auto intro: assms(3))
qed

lemma sort_by_sorted:
  assumes "\<And>a b. le a b \<or> le b a" "\<And>a b c. le a b \<Longrightarrow> le b c \<Longrightarrow> le a c"
  shows "sorted_wrt le (sort_by le xs)"
proof (induction xs)
  case Nil
  then show ?case by (simp add: sort_by_def)
next
  case (Cons x xs)
  then have "sorted_wrt le (insert_by le x (sort_by le xs))"
    by (rule insert_by_sorted) (use assms in blast)+
  then show ?case by (simp add: sort_by_def)
qed

lemma insert_by_filter:
  assumes "\<And>y. P y \<Longrightarrow> le x y" "P x"
  shows "filter P (insert_by le x ys) = x # filter P ys"
  using assms by (induction ys) auto

lemma insert_by_filter_out: "\<not> P x \<Longrightarrow> filter P (insert_by le x ys) = filter P ys"
  by (induction ys) auto

lemma sort_by_stable:
  assumes "\<And>x y. P x \<Longrightarrow> P y \<Longrightarrow> le x y"
  shows "filter P (sort_by le xs) = filter P xs"
proof (induction xs)
  case Nil
  then show ?case by (simp add: sort_by_def)
next
  case (Cons x xs)
  have "sort_by le (x # xs) = insert_by le x (sort_by le xs)" by (simp add: sort_by_def)
  then show ?case
    using Cons assms by (cases "P x") (simp_all add: insert_by_filter insert_by_filter_out)
qed

section \<open>Wrap-around\<close>

text \<open>The \<open>int64\<close> arithmetic of Go wraps around.\<close>

definition wrap64 :: "int \<Rightarrow> int" where
  "wrap64 x = (x + 2 ^ 63) mod 2 ^ 64 - 2 ^ 63"

lemma wrap64_id: "- (2 ^ 63) \<le> x \<Longrightarrow> x < 2 ^ 63 \<Longrightarrow> wrap64 x = x"
  by (simp add: wrap64_def)

end
