(* ===== verification/Sequence_Pos.thy ===== *)
theory Sequence_Pos
  imports Aim_Prelude
begin

text \<open>
  \<^verbatim>\<open>pkg/sequence/sequence.go\<close>: positions are nonnegative integers that a JavaScript Number holds
  exactly. The locale \<open>seq_alloc\<close> is the contract every allocator of positions in the program
  offers its callers (the per-conversation message sequence, the publication sequence of a
  conversation and the position of a user's inbox stream); its interpretations stand with the
  components that provide them.
\<close>

section \<open>Positions\<close>

definition seq_max :: int where
  "seq_max = 9007199254740991"

definition seq_validate :: "int \<Rightarrow> err + unit" where
  "seq_validate v =
     (if v < 0 \<or> v > seq_max then Inl (Plain ''sequence outside safe integer range'') else Inr ())"

definition seq_next :: "int \<Rightarrow> err + int" where
  "seq_next v = rbind (seq_validate v) (\<lambda>_.
     if v = seq_max then Inl (Plain ''sequence exhausted'') else Inr (v + 1))"

lemma seq_validate_Inr [res_simps]: "seq_validate v = Inr u \<longleftrightarrow> 0 \<le> v \<and> v \<le> seq_max"
  by (auto simp: seq_validate_def)

lemma seq_next_Inr [res_simps]: "seq_next v = Inr n \<longleftrightarrow> 0 \<le> v \<and> v < seq_max \<and> n = v + 1"
  by (auto simp: seq_next_def res_simps)

lemma seq_next_ok: "0 \<le> v \<Longrightarrow> v < seq_max \<Longrightarrow> seq_next v = Inr (v + 1)"
  by (simp add: seq_next_Inr)

section \<open>Decimal lexemes\<close>

definition digit_char :: "nat \<Rightarrow> char" where
  "digit_char d = char_of (48 + d)"

definition is_digit :: "char \<Rightarrow> bool" where
  "is_digit c \<longleftrightarrow> 48 \<le> (of_char c :: nat) \<and> (of_char c :: nat) \<le> 57"

definition digit_val :: "char \<Rightarrow> nat" where
  "digit_val c = of_char c - 48"

text \<open>\<^verbatim>\<open>strconv.FormatInt(v, 10)\<close>.\<close>

fun show_nat :: "nat \<Rightarrow> string" where
  "show_nat n = (if n < 10 then [digit_char n] else show_nat (n div 10) @ [digit_char (n mod 10)])"

declare show_nat.simps [simp del]

definition show_int :: "int \<Rightarrow> string" where
  "show_int v = (if v < 0 then CHR ''-'' # show_nat (nat (- v)) else show_nat (nat v))"

definition digits_val :: "string \<Rightarrow> nat" where
  "digits_val cs = foldl (\<lambda>a c. 10 * a + digit_val c) 0 cs"

text \<open>
  The integer lexemes of JSON: an optional minus, then \<open>0\<close> or a digit string without leading zero.
\<close>

definition is_int_digits :: "string \<Rightarrow> bool" where
  "is_int_digits cs \<longleftrightarrow> cs \<noteq> [] \<and> list_all is_digit cs \<and> (length cs = 1 \<or> hd cs \<noteq> CHR ''0'')"

fun int_of_lexeme :: "string \<Rightarrow> int option" where
  "int_of_lexeme [] = None"
| "int_of_lexeme (c # cs) =
     (if c = CHR ''-'' then (if is_int_digits cs then Some (- int (digits_val cs)) else None)
      else if is_int_digits (c # cs) then Some (int (digits_val (c # cs))) else None)"

definition is_json_space :: "char \<Rightarrow> bool" where
  "is_json_space c \<longleftrightarrow> c \<in> {CHR '' '', CHR 0x09, CHR 0x0A, CHR 0x0D}"

definition trim_json :: "string \<Rightarrow> string" where
  "trim_json cs = rev (dropWhile is_json_space (rev (dropWhile is_json_space cs)))"

text \<open>
  \<open>ParseJSON\<close>: the decoder skips white space around one value, and the value is accepted when it is
  a number whose lexeme \<^verbatim>\<open>strconv.ParseInt\<close> reads as a 64-bit integer in the safe range. Every
  other input (another JSON value, a fraction or exponent, trailing input, malformed JSON) is
  rejected; the decoder's error texts are collapsed into one.
\<close>

definition seq_parse_json :: "string \<Rightarrow> err + int" where
  "seq_parse_json raw =
     (case int_of_lexeme (trim_json raw) of
        None \<Rightarrow> Inl (Plain ''invalid sequence JSON'')
      | Some n \<Rightarrow>
          if n < - (2 ^ 63) \<or> n \<ge> 2 ^ 63 then Inl (Plain ''sequence must be an integer'')
          else rbind (seq_validate n) (\<lambda>_. Inr n))"

lemma of_char_digit: "d < 10 \<Longrightarrow> (of_char (digit_char d) :: nat) = 48 + d"
  by (simp add: digit_char_def)

lemma is_digit_digit_char: "d < 10 \<Longrightarrow> is_digit (digit_char d)"
  by (simp add: is_digit_def of_char_digit)

lemma digit_val_digit_char: "d < 10 \<Longrightarrow> digit_val (digit_char d) = d"
  by (simp add: digit_val_def of_char_digit)

lemma show_nat_nonempty [simp]: "show_nat n \<noteq> []"
  by (subst show_nat.simps) simp

lemma show_nat_digits: "list_all is_digit (show_nat n)"
proof (induction n rule: show_nat.induct)
  case (1 n)
  then show ?case
    by (subst show_nat.simps) (auto simp: is_digit_digit_char)
qed

lemma digits_val_show_nat: "digits_val (show_nat n) = n"
proof (induction n rule: show_nat.induct)
  case (1 n)
  show ?case
  proof (cases "n < 10")
    case True
    then show ?thesis by (subst show_nat.simps) (simp add: digits_val_def digit_val_digit_char)
  next
    case False
    with 1 have "digits_val (show_nat (n div 10)) = n div 10" by simp
    with False show ?thesis
      by (subst show_nat.simps) (simp add: digits_val_def digit_val_digit_char)
  qed
qed

lemma digit_char_zero_iff: "d < 10 \<Longrightarrow> digit_char d = CHR ''0'' \<longleftrightarrow> d = 0"
proof -
  assume "d < 10"
  then have "(of_char (digit_char d) :: nat) = 48 + d" by (rule of_char_digit)
  moreover have "(of_char (CHR ''0'') :: nat) = 48" by simp
  ultimately show ?thesis by (metis add_cancel_right_right char_of_char digit_char_def)
qed

lemma show_nat_hd: "0 < n \<Longrightarrow> hd (show_nat n) \<noteq> CHR ''0''"
proof (induction n rule: show_nat.induct)
  case (1 n)
  show ?case
  proof (cases "n < 10")
    case True
    with 1 show ?thesis by (subst show_nat.simps) (simp add: digit_char_zero_iff)
  next
    case False
    with 1 have "hd (show_nat (n div 10)) \<noteq> CHR ''0''" by simp
    with False show ?thesis by (subst show_nat.simps) simp
  qed
qed

lemma is_int_digits_show_nat: "is_int_digits (show_nat n)"
proof (cases "n = 0")
  case True
  then show ?thesis
    by (simp add: is_int_digits_def show_nat.simps [of 0] is_digit_digit_char)
next
  case False
  then show ?thesis
    by (simp add: is_int_digits_def show_nat_digits show_nat_hd)
qed

lemma is_digit_not_minus: "is_digit c \<Longrightarrow> c \<noteq> CHR ''-''"
  by (auto simp: is_digit_def)

lemma is_digit_not_space: "is_digit c \<Longrightarrow> \<not> is_json_space c"
  by (auto simp: is_digit_def is_json_space_def)

lemma int_of_lexeme_show_int: "int_of_lexeme (show_int v) = Some v"
proof (cases "v < 0")
  case True
  then show ?thesis
    by (simp add: show_int_def is_int_digits_show_nat digits_val_show_nat)
next
  case False
  obtain c cs where s: "show_nat (nat v) = c # cs"
    using show_nat_nonempty [of "nat v"] by (meson neq_Nil_conv)
  have "is_digit c" using show_nat_digits [of "nat v"] s by simp
  then have "c \<noteq> CHR ''-''" by (rule is_digit_not_minus)
  then show ?thesis
    using False is_int_digits_show_nat [of "nat v"] digits_val_show_nat [of "nat v"] s
    by (simp add: show_int_def)
qed

lemma trim_json_id:
  assumes "xs \<noteq> []" "\<not> is_json_space (hd xs)" "\<not> is_json_space (last xs)"
  shows "trim_json xs = xs"
proof -
  have "dropWhile is_json_space xs = xs"
    using assms(1,2) by (cases xs) simp_all
  moreover have "dropWhile is_json_space (rev xs) = rev xs"
    using assms(1,3) by (cases xs rule: rev_cases) simp_all
  ultimately show ?thesis by (simp add: trim_json_def)
qed

lemma show_nat_ends: "\<not> is_json_space (hd (show_nat n))" "\<not> is_json_space (last (show_nat n))"
  using show_nat_digits [of n] hd_in_set [of "show_nat n"] last_in_set [of "show_nat n"]
  by (auto simp: list_all_iff intro!: is_digit_not_space)

lemma minus_not_space: "\<not> is_json_space (CHR ''-'')"
  by (simp add: is_json_space_def)

lemma show_int_no_space: "trim_json (show_int v) = show_int v"
  by (rule trim_json_id) (simp_all add: show_int_def show_nat_ends minus_not_space)

text \<open>Reading back what is written: exactly the safe positions survive.\<close>

lemma seq_parse_json_show_int:
  "seq_parse_json (show_int v) = Inr n \<longleftrightarrow> 0 \<le> v \<and> v \<le> seq_max \<and> n = v"
  by (auto simp: seq_parse_json_def show_int_no_space int_of_lexeme_show_int res_simps seq_max_def)

section \<open>Allocators\<close>

text \<open>
  A caller that allocates for a list of keys, in order, stopping at the first failure.
\<close>

fun run_alloc ::
  "('s \<Rightarrow> 'k \<Rightarrow> err + (int \<times> 's)) \<Rightarrow> 'k list \<Rightarrow> 's \<Rightarrow> err + (('k \<times> int) list \<times> 's)" where
  "run_alloc alloc [] s = Inr ([], s)"
| "run_alloc alloc (k # ks) s =
     rbind (alloc s k) (\<lambda>(n, t). rbind (run_alloc alloc ks t) (\<lambda>(out, u). Inr ((k, n) # out, u)))"

definition values_of :: "'k \<Rightarrow> ('k \<times> int) list \<Rightarrow> int list" where
  "values_of k out = map snd (filter (\<lambda>p. fst p = k) out)"

locale seq_alloc =
  fixes alloc :: "'s \<Rightarrow> 'k \<Rightarrow> err + (int \<times> 's)"
    and cur :: "'s \<Rightarrow> 'k \<Rightarrow> int"
  assumes alloc_step: "alloc s k = Inr (n, t) \<Longrightarrow> n = cur s k + 1 \<and> cur t k = n"
    and alloc_frame: "alloc s k = Inr (n, t) \<Longrightarrow> k' \<noteq> k \<Longrightarrow> cur t k' = cur s k'"
    and alloc_bound: "alloc s k = Inr (n, t) \<Longrightarrow> n \<le> seq_max"
begin

text \<open>Per key, the allocated values are the integers right after the current one, without gaps.\<close>

lemma run_alloc_values:
  "run_alloc alloc ks s = Inr (out, t) \<Longrightarrow>
     values_of k out = [cur s k + 1 .. cur t k] \<and> cur s k \<le> cur t k"
proof (induction ks arbitrary: s out)
  case Nil
  then show ?case by (simp add: values_of_def)
next
  case (Cons j ks)
  then obtain n s1 out1 where a: "alloc s j = Inr (n, s1)"
    and r: "run_alloc alloc ks s1 = Inr (out1, t)" and o: "out = (j, n) # out1"
    by (auto simp: rbind_eq_Inr)
  note IH = Cons.IH [OF r]
  show ?case
  proof (cases "j = k")
    case True
    with a have "n = cur s k + 1" "cur s1 k = n" using alloc_step by blast+
    with IH True o show ?thesis
      by (simp add: values_of_def upto.simps [of "cur s k + 1"])
  next
    case False
    then have "cur s1 k = cur s k" using alloc_frame [OF a, of k] by simp
    with IH False o show ?thesis by (simp add: values_of_def)
  qed
qed

lemma run_alloc_distinct:
  assumes "run_alloc alloc ks s = Inr (out, t)"
  shows "distinct out"
proof -
  have "distinct (values_of k out)" for k
    using run_alloc_values [OF assms, of k] by simp
  moreover have "(\<And>k. distinct (values_of k out)) \<Longrightarrow> distinct out"
  proof (induction out)
    case Nil
    then show ?case by simp
  next
    case (Cons p out)
    have "distinct (values_of k out)" for k
      using Cons.prems [of k] by (simp add: values_of_def split: if_splits)
    moreover have "p \<notin> set out"
    proof
      assume "p \<in> set out"
      then have "snd p \<in> set (values_of (fst p) out)" by (force simp: values_of_def)
      with Cons.prems [of "fst p"] show False by (simp add: values_of_def)
    qed
    ultimately show ?case using Cons.IH by simp
  qed
  ultimately show ?thesis by blast
qed

end

end
