(* ===== verification/Json.thy ===== *)
theory Json
  imports Sequence_Pos
begin

text \<open>
  Text and JSON values as the message service stores them. A Go string is a byte string;
  \<open>runes\<close> is Go's conversion to code points (every invalid byte becomes U+FFFD) and \<open>utf8\<close> the
  conversion back. \<open>json\<close> is what a decoder with \<^verbatim>\<open>UseNumber\<close> produces: numbers keep their lexeme.
  The component's code here is \<open>equalSubmissionJSON\<close>, \<open>sameSubmission\<close>
  (\<^verbatim>\<open>sendMessageLogic.go\<close>) and \<open>MessagePreview\<close> (\<^verbatim>\<open>model/message.go\<close>).
\<close>

section \<open>UTF-8\<close>

type_synonym rune = nat

definition is_cont :: "nat \<Rightarrow> bool" where
  "is_cont b \<longleftrightarrow> 128 \<le> b \<and> b \<le> 191"

text \<open>One decoding step: the rune and the remaining bytes.\<close>

fun dec3 :: "nat list \<Rightarrow> (rune \<times> nat list) option" where
  "dec3 (b0 # b1 # b2 # bs) =
     (let lo = (if b0 = 224 then 160 else 128); hi = (if b0 = 237 then 159 else 191) in
      if 224 \<le> b0 \<and> b0 \<le> 239 \<and> lo \<le> b1 \<and> b1 \<le> hi \<and> is_cont b2
      then Some ((b0 - 224) * 4096 + (b1 - 128) * 64 + (b2 - 128), bs) else None)"
| "dec3 _ = None"

fun dec4 :: "nat list \<Rightarrow> (rune \<times> nat list) option" where
  "dec4 (b0 # b1 # b2 # b3 # bs) =
     (let lo = (if b0 = 240 then 144 else 128); hi = (if b0 = 244 then 143 else 191) in
      if 240 \<le> b0 \<and> b0 \<le> 244 \<and> lo \<le> b1 \<and> b1 \<le> hi \<and> is_cont b2 \<and> is_cont b3
      then Some ((b0 - 240) * 262144 + (b1 - 128) * 4096 + (b2 - 128) * 64 + (b3 - 128), bs)
      else None)"
| "dec4 _ = None"

fun dec2 :: "nat list \<Rightarrow> (rune \<times> nat list) option" where
  "dec2 (b0 # b1 # bs) =
     (if 194 \<le> b0 \<and> b0 \<le> 223 \<and> is_cont b1 then Some ((b0 - 192) * 64 + (b1 - 128), bs) else None)"
| "dec2 _ = None"

definition dec1 :: "nat \<Rightarrow> nat list \<Rightarrow> rune \<times> nat list" where
  "dec1 b bs =
     (if b < 128 then (b, bs)
      else case dec2 (b # bs) of Some r \<Rightarrow> r
        | None \<Rightarrow> (case dec3 (b # bs) of Some r \<Rightarrow> r
        | None \<Rightarrow> (case dec4 (b # bs) of Some r \<Rightarrow> r
        | None \<Rightarrow> (65533, bs))))"

lemma dec2_length: "dec2 xs = Some (r, ys) \<Longrightarrow> length ys < length xs"
  by (cases xs rule: dec2.cases) (auto split: if_splits)

lemma dec3_length: "dec3 xs = Some (r, ys) \<Longrightarrow> length ys < length xs"
  by (cases xs rule: dec3.cases) (auto simp: Let_def split: if_splits)

lemma dec4_length: "dec4 xs = Some (r, ys) \<Longrightarrow> length ys < length xs"
  by (cases xs rule: dec4.cases) (auto simp: Let_def split: if_splits)

lemma dec1_length: "dec1 b bs = (r, ys) \<Longrightarrow> length ys \<le> length bs"
  by (auto simp: dec1_def split: if_splits option.splits
      dest!: dec2_length dec3_length dec4_length)

function byte_runes :: "nat list \<Rightarrow> rune list" where
  "byte_runes [] = []"
| "byte_runes (b # bs) = fst (dec1 b bs) # byte_runes (snd (dec1 b bs))"
  by pat_completeness auto
termination
proof (relation "measure length")
  fix b bs
  show "(snd (dec1 b bs), b # bs) \<in> measure length"
    using dec1_length [of b bs "fst (dec1 b bs)" "snd (dec1 b bs)"] by simp
qed simp

definition runes :: "string \<Rightarrow> rune list" where
  "runes s = byte_runes (map of_char s)"

definition valid_rune :: "rune \<Rightarrow> bool" where
  "valid_rune r \<longleftrightarrow> r < 55296 \<or> 57344 \<le> r \<and> r \<le> 1114111"

definition utf8_bytes :: "rune \<Rightarrow> nat list" where
  "utf8_bytes r0 = (let r = (if valid_rune r0 then r0 else 65533) in
     if r < 128 then [r]
     else if r < 2048 then [192 + r div 64, 128 + r mod 64]
     else if r < 65536 then [224 + r div 4096, 128 + r div 64 mod 64, 128 + r mod 64]
     else [240 + r div 262144, 128 + r div 4096 mod 64, 128 + r div 64 mod 64, 128 + r mod 64])"

definition utf8 :: "rune list \<Rightarrow> string" where
  "utf8 rs = map char_of (concat (map utf8_bytes rs))"

lemma utf8_bytes_lt: "b \<in> set (utf8_bytes r) \<Longrightarrow> b < 256"
  by (auto simp: utf8_bytes_def valid_rune_def Let_def split: if_splits)

text \<open>Decoding the encoding of a valid rune gives it back and stops right after it.\<close>

lemma dec_enc:
  assumes "valid_rune r"
  shows "\<exists>b bs. utf8_bytes r = b # bs \<and> (\<forall>rest. dec1 b (bs @ rest) = (r, rest))"
proof -
  have v: "r < 55296 \<or> 57344 \<le> r \<and> r \<le> 1114111" using assms by (simp add: valid_rune_def)
  consider "r < 128" | "128 \<le> r" "r < 2048" | "2048 \<le> r" "r < 65536" | "65536 \<le> r" by linarith
  then show ?thesis
  proof cases
    case 1
    then have "utf8_bytes r = [r]" using assms by (simp add: utf8_bytes_def)
    with 1 show ?thesis by (simp add: dec1_def)
  next
    case 2
    then have e: "utf8_bytes r = [192 + r div 64, 128 + r mod 64]"
      using assms by (simp add: utf8_bytes_def)
    have "2 \<le> r div 64" "r div 64 < 32" using 2 by (simp_all add: div_less_iff_less_mult le_div_geq
          less_eq_div_iff_mult_less_eq)
    moreover have "r mod 64 \<le> 63" by simp
    moreover have "r div 64 * 64 + r mod 64 = r" by simp
    ultimately have "dec1 (192 + r div 64) ([128 + r mod 64] @ rest) = (r, rest)" for rest
      by (simp add: dec1_def is_cont_def)
    with e show ?thesis by auto
  next
    case 3
    then have e: "utf8_bytes r = [224 + r div 4096, 128 + r div 64 mod 64, 128 + r mod 64]"
      using assms by (simp add: utf8_bytes_def)
    define q where "q = r div 64"
    have q: "r div 4096 = q div 64" by (simp add: q_def div_mult2_eq [symmetric])
    have b: "32 \<le> q" "q < 1024" "q < 864 \<or> 896 \<le> q"
      using 3 v by (auto simp: q_def less_eq_div_iff_mult_less_eq div_less_iff_less_mult)
    have a: "q div 64 < 16" using b by (simp add: div_less_iff_less_mult)
    have m: "q mod 64 \<le> 63" "r mod 64 \<le> 63" by simp_all
    have s: "q div 64 * 64 + q mod 64 = q" "q * 64 + r mod 64 = r" by (simp_all add: q_def)
    have lo: "32 \<le> q mod 64" if "q div 64 = 0" using s(1) b that by simp
    have hi: "q mod 64 < 32" if "q div 64 = 13" using s(1) b m that by simp
    have "q div 64 * 4096 + q mod 64 * 64 + r mod 64 = r" using s by linarith
    then have "dec1 (224 + q div 64) ([128 + q mod 64, 128 + r mod 64] @ rest) = (r, rest)" for rest
      using a m lo hi by (auto simp: dec1_def is_cont_def Let_def)
    with e q q_def show ?thesis by auto
  next
    case 4
    then have e: "utf8_bytes r =
        [240 + r div 262144, 128 + r div 4096 mod 64, 128 + r div 64 mod 64, 128 + r mod 64]"
      using assms by (simp add: utf8_bytes_def)
    define q where "q = r div 64"
    define p where "p = q div 64"
    have q: "r div 4096 = p" "r div 262144 = p div 64"
      by (simp_all add: q_def p_def div_mult2_eq [symmetric])
    have b: "16 \<le> p" "p \<le> 271"
      using 4 v unfolding q(1) [symmetric]
      by (auto simp: less_eq_div_iff_mult_less_eq div_le_mono [of r 1114111 4096, simplified])
    have a: "p div 64 < 5" using b by (simp add: div_less_iff_less_mult)
    have m: "p mod 64 \<le> 63" "q mod 64 \<le> 63" "r mod 64 \<le> 63" by simp_all
    have s: "p div 64 * 64 + p mod 64 = p" "p * 64 + q mod 64 = q" "q * 64 + r mod 64 = r"
      by (simp_all add: q_def p_def)
    have lo: "16 \<le> p mod 64" if "p div 64 = 0" using s(1) b that by simp
    have hi: "p mod 64 < 16" if "p div 64 = 4" using s(1) b m that by simp
    have "p div 64 * 262144 + p mod 64 * 4096 + q mod 64 * 64 + r mod 64 = r" using s by linarith
    then have "dec1 (240 + p div 64) ([128 + p mod 64, 128 + q mod 64, 128 + r mod 64] @ rest) = (r, rest)"
      for rest
      using a m lo hi by (auto simp: dec1_def is_cont_def Let_def)
    with e q q_def show ?thesis by auto
  qed
qed

lemma byte_runes_utf8:
  "list_all valid_rune rs \<Longrightarrow> byte_runes (concat (map utf8_bytes rs) @ rest) = rs @ byte_runes rest"
proof (induction rs)
  case Nil
  then show ?case by simp
next
  case (Cons r rs)
  then obtain b bs where b: "utf8_bytes r = b # bs" "\<And>rest. dec1 b (bs @ rest) = (r, rest)"
    using dec_enc [of r] by auto
  then show ?case using Cons by simp
qed

lemma runes_utf8: "list_all valid_rune rs \<Longrightarrow> runes (utf8 rs) = rs"
proof -
  assume "list_all valid_rune rs"
  moreover have "map of_char (utf8 rs) = concat (map utf8_bytes rs)"
    by (auto simp: utf8_def o_def intro!: map_idI dest!: utf8_bytes_lt)
  ultimately show ?thesis
    using byte_runes_utf8 [of rs "[]"] by (simp add: runes_def)
qed

lemma dec1_valid: "b < 256 \<Longrightarrow> valid_rune (fst (dec1 b bs))"
proof -
  assume "b < 256"
  have "valid_rune r" if "dec2 (b # bs) = Some (r, ys)" for r ys
    using that by (cases "b # bs" rule: dec2.cases) (auto simp: valid_rune_def is_cont_def split: if_splits)
  moreover have "valid_rune r" if "dec3 (b # bs) = Some (r, ys)" for r ys
  proof -
    from that obtain b1 b2 where bs: "bs = b1 # b2 # ys"
      and c: "224 \<le> b" "b \<le> 239" "(if b = 224 then 160 else 128) \<le> b1"
        "b1 \<le> (if b = 237 then 159 else 191)" "is_cont b2"
      and r: "r = (b - 224) * 4096 + (b1 - 128) * 64 + (b2 - 128)"
      by (cases "b # bs" rule: dec3.cases) (auto simp: Let_def split: if_splits)
    from c have x: "b1 - 128 \<le> 63" "b2 - 128 \<le> 63" "128 \<le> b1"
      by (auto simp: is_cont_def split: if_splits)
    show ?thesis
    proof (cases "b \<le> 237")
      case True
      then show ?thesis using c x r by (cases "b = 237") (auto simp: valid_rune_def)
    next
      case False
      then have "14 \<le> b - 224" "b - 224 \<le> 15" using c by auto
      then have "57344 \<le> r" "r \<le> 65535" using x r by linarith+
      then show ?thesis by (simp add: valid_rune_def)
    qed
  qed
  moreover have "valid_rune r" if "dec4 (b # bs) = Some (r, ys)" for r ys
  proof -
    from that obtain b1 b2 b3 where bs: "bs = b1 # b2 # b3 # ys"
      and c: "240 \<le> b" "b \<le> 244" "(if b = 240 then 144 else 128) \<le> b1"
        "b1 \<le> (if b = 244 then 143 else 191)" "is_cont b2" "is_cont b3"
      and r: "r = (b - 240) * 262144 + (b1 - 128) * 4096 + (b2 - 128) * 64 + (b3 - 128)"
      by (cases "b # bs" rule: dec4.cases) (auto simp: Let_def split: if_splits)
    have x: "b1 - 128 \<le> 63" "b2 - 128 \<le> 63" "b3 - 128 \<le> 63"
      using c by (auto simp: is_cont_def split: if_splits)
    consider "b = 240" "16 \<le> b1 - 128" | "1 \<le> b - 240" "b - 240 \<le> 3"
      | "b - 240 = 4" "b1 - 128 \<le> 15"
      using c by (fastforce split: if_splits)
    then have "65536 \<le> r \<and> r \<le> 1114111"
      by cases (use x r in linarith)+
    then show ?thesis by (simp add: valid_rune_def)
  qed
  moreover have "valid_rune 65533" by (simp add: valid_rune_def)
  moreover have "b < 128 \<Longrightarrow> valid_rune b" by (simp add: valid_rune_def)
  ultimately show ?thesis
    by (auto simp: dec1_def split: if_splits option.splits)
qed

lemma dec1_rest: "set (snd (dec1 b bs)) \<subseteq> set bs"
proof -
  have "set ys \<subseteq> set bs" if "dec2 (b # bs) = Some (r, ys)" for r ys
    using that by (cases "b # bs" rule: dec2.cases) (auto split: if_splits)
  moreover have "set ys \<subseteq> set bs" if "dec3 (b # bs) = Some (r, ys)" for r ys
    using that by (cases "b # bs" rule: dec3.cases) (auto simp: Let_def split: if_splits)
  moreover have "set ys \<subseteq> set bs" if "dec4 (b # bs) = Some (r, ys)" for r ys
    using that by (cases "b # bs" rule: dec4.cases) (auto simp: Let_def split: if_splits)
  ultimately show ?thesis
    by (auto simp: dec1_def split: if_splits option.splits)
qed

lemma byte_runes_valid: "\<forall>b\<in>set bs. b < 256 \<Longrightarrow> list_all valid_rune (byte_runes bs)"
proof (induction bs rule: byte_runes.induct)
  case 1
  then show ?case by simp
next
  case (2 b bs)
  have "\<forall>x\<in>set (snd (dec1 b bs)). x < 256" using 2 dec1_rest [of b bs] by auto
  then show ?case using 2 dec1_valid [of b bs] by simp
qed

lemma runes_valid: "list_all valid_rune (runes s)"
  unfolding runes_def
proof (rule byte_runes_valid)
  show "\<forall>b\<in>set (map of_char s). b < (256::nat)"
    by auto
qed

lemma runes_nonempty: "runes s = [] \<longleftrightarrow> s = []"
  by (cases s) (simp_all add: runes_def)


section \<open>JSON values\<close>

datatype json =
  JNull
| JBool bool
| JNum string
| JStr string
| JArr "json list"
| JObj "(string \<times> json) list"

text \<open>\<open>JSONContent\<close>: a Go map from strings, possibly nil, as an association list.\<close>

type_synonym json_map = "(string \<times> json) list"
type_synonym json_content = "json_map option"

text \<open>
  \<open>big.Rat.SetString\<close> on a JSON number lexeme: sign, digits, fraction and exponent, exactly; an
  exponent whose decimal shift exceeds a million is refused unless the mantissa is zero.
\<close>

definition split_at :: "(char \<Rightarrow> bool) \<Rightarrow> string \<Rightarrow> string \<times> string" where
  "split_at P s = (takeWhile (\<lambda>c. \<not> P c) s, dropWhile (\<lambda>c. \<not> P c) s)"

fun exponent_val :: "string \<Rightarrow> int" where
  "exponent_val [] = 0"
| "exponent_val (c # cs) =
     (if c = CHR ''-'' then - int (digits_val cs)
      else if c = CHR ''+'' then int (digits_val cs) else int (digits_val (c # cs)))"

definition pow10_rat :: "int \<Rightarrow> int \<Rightarrow> rat" where
  "pow10_rat m e = (if 0 \<le> e then of_int (m * 10 ^ nat e) else of_int m / of_int (10 ^ nat (- e)))"

definition rat_of_lexeme :: "string \<Rightarrow> rat option" where
  "rat_of_lexeme s =
     (let neg = (s \<noteq> [] \<and> hd s = CHR ''-'');
          body = (if neg then tl s else s);
          (mant, ex) = split_at (\<lambda>c. c = CHR ''e'' \<or> c = CHR ''E'') body;
          (ip, fp) = split_at (\<lambda>c. c = CHR ''.'') mant;
          frac = tl fp;
          m = int (digits_val (ip @ frac));
          e = exponent_val (tl ex) - int (length frac)
      in if m = 0 then Some 0
         else if \<bar>e\<bar> > 1000000 then None
         else Some (pow10_rat (if neg then - m else m) e))"

section \<open>Comparison of submissions\<close>

text \<open>\<open>equalSubmissionJSON\<close>, with its loops over slices and maps written out.\<close>

fun equal_json :: "json \<Rightarrow> json \<Rightarrow> bool"
  and equal_arr :: "json list \<Rightarrow> json list \<Rightarrow> bool"
  and equal_obj :: "json_map \<Rightarrow> json_map \<Rightarrow> bool"
where
  "equal_json JNull r = (r = JNull)"
| "equal_json (JBool b) r = (case r of JBool c \<Rightarrow> b = c | _ \<Rightarrow> False)"
| "equal_json (JStr s) r = (case r of JStr t \<Rightarrow> s = t | _ \<Rightarrow> False)"
| "equal_json (JNum a) r =
     (case r of JNum b \<Rightarrow>
        (case rat_of_lexeme a of None \<Rightarrow> False
         | Some x \<Rightarrow> (case rat_of_lexeme b of None \<Rightarrow> False | Some y \<Rightarrow> x = y))
      | _ \<Rightarrow> False)"
| "equal_json (JArr xs) r =
     (case r of JArr ys \<Rightarrow> length xs = length ys \<and> equal_arr xs ys | _ \<Rightarrow> False)"
| "equal_json (JObj es) r =
     (case r of JObj fs \<Rightarrow> length es = length fs \<and> equal_obj es fs | _ \<Rightarrow> False)"
| "equal_arr [] ys = True"
| "equal_arr (x # xs) [] = False"
| "equal_arr (x # xs) (y # ys) = (equal_json x y \<and> equal_arr xs ys)"
| "equal_obj [] fs = True"
| "equal_obj ((k, v) # es) fs =
     (case map_of fs k of None \<Rightarrow> False | Some w \<Rightarrow> equal_json v w \<and> equal_obj es fs)"

text \<open>
  The encoder of \<^verbatim>\<open>encoding/json\<close> writes the keys of a map in order, so two documents have the same
  encoding when their trees with sorted objects are equal.
\<close>

definition key_le :: "string \<times> 'v \<Rightarrow> string \<times> 'v \<Rightarrow> bool" where
  "key_le p q = str_le (fst p) (fst q)"

fun canon :: "json \<Rightarrow> json" where
  "canon (JArr xs) = JArr (map canon xs)"
| "canon (JObj es) = JObj (sort_by key_le (map (\<lambda>(k, v). (k, canon v)) es))"
| "canon v = v"

text \<open>\<open>sameSubmission\<close>: equal encodings, or equal after decoding.\<close>

definition same_submission :: "json \<Rightarrow> json \<Rightarrow> bool" where
  "same_submission l r = (canon l = canon r \<or> equal_json l r)"

text \<open>
  What a document means: numbers as rationals, objects as finite maps. Well-formed documents have
  distinct keys and numbers within the exponent bound.
\<close>

datatype meaning =
  MNull | MBool bool | MNum "rat option" | MStr string | MArr "meaning list"
| MObj "string \<Rightarrow> meaning option"

fun meaning_of :: "json \<Rightarrow> meaning" where
  "meaning_of JNull = MNull"
| "meaning_of (JBool b) = MBool b"
| "meaning_of (JNum a) = MNum (rat_of_lexeme a)"
| "meaning_of (JStr s) = MStr s"
| "meaning_of (JArr xs) = MArr (map meaning_of xs)"
| "meaning_of (JObj es) = MObj (map_of (map (\<lambda>(k, v). (k, meaning_of v)) es))"

fun wf_json :: "json \<Rightarrow> bool" where
  "wf_json (JNum a) = (rat_of_lexeme a \<noteq> None)"
| "wf_json (JArr xs) = list_all wf_json xs"
| "wf_json (JObj es) = (distinct (map fst es) \<and> list_all (\<lambda>(k, v). wf_json v) es)"
| "wf_json _ = True"

definition same_keys :: "json_map \<Rightarrow> json_map \<Rightarrow> bool" where
  "same_keys es fs \<longleftrightarrow> (\<forall>(k, v)\<in>set es. \<exists>w. map_of fs k = Some w \<and> meaning_of v = meaning_of w)"

lemma map_of_meaning:
  "map_of (map (\<lambda>(k, v). (k, f v)) es) k = map_option f (map_of es k)"
  by (induction es) auto

lemma same_keys_iff:
  assumes "distinct (map fst es)" "distinct (map fst fs)" "length es = length fs"
  shows "same_keys es fs \<longleftrightarrow>
    map_of (map (\<lambda>(k, v). (k, meaning_of v)) es) = map_of (map (\<lambda>(k, v). (k, meaning_of v)) fs)"
    (is "_ \<longleftrightarrow> ?m es = ?m fs")
proof
  assume *: "same_keys es fs"
  then have sub: "fst ` set es \<subseteq> fst ` set fs"
    by (force simp: same_keys_def dest: map_of_SomeD)
  moreover have "card (fst ` set es) = card (fst ` set fs)"
    using assms distinct_card [of "map fst es"] distinct_card [of "map fst fs"] by simp
  ultimately have eq: "fst ` set es = fst ` set fs"
    by (simp add: card_subset_eq)
  show "?m es = ?m fs"
  proof
    fix k
    show "?m es k = ?m fs k"
    proof (cases "map_of es k")
      case None
      then have "map_of fs k = None" using eq by (simp add: map_of_eq_None_iff)
      with None show ?thesis by (simp add: map_of_meaning)
    next
      case (Some v)
      then have "(k, v) \<in> set es" by (rule map_of_SomeD)
      with * obtain w where "map_of fs k = Some w" "meaning_of v = meaning_of w"
        by (auto simp: same_keys_def)
      with Some show ?thesis by (simp add: map_of_meaning)
    qed
  qed
next
  assume *: "?m es = ?m fs"
  show "same_keys es fs"
    unfolding same_keys_def
  proof clarify
    fix k v
    assume "(k, v) \<in> set es"
    with assms(1) have "map_of es k = Some v" by simp
    with fun_cong [OF *, of k] show "\<exists>w. map_of fs k = Some w \<and> meaning_of v = meaning_of w"
      by (cases "map_of fs k") (auto simp: map_of_meaning)
  qed
qed

lemma equal_json_meaning_aux:
  "wf_json l \<Longrightarrow> wf_json r \<Longrightarrow> equal_json l r \<longleftrightarrow> meaning_of l = meaning_of r"
  "list_all wf_json xs \<Longrightarrow> list_all wf_json ys \<Longrightarrow> length xs = length ys \<Longrightarrow>
     equal_arr xs ys \<longleftrightarrow> map meaning_of xs = map meaning_of ys"
  "list_all (\<lambda>(k, v). wf_json v) es \<Longrightarrow> list_all (\<lambda>(k, v). wf_json v) fs \<Longrightarrow>
     equal_obj es fs \<longleftrightarrow> same_keys es fs"
proof (induction l r and xs ys and es fs rule: equal_json_equal_arr_equal_obj.induct)
  case (1 r)
  then show ?case by (cases r) auto
next
  case (2 b r)
  then show ?case by (cases r) auto
next
  case (3 s r)
  then show ?case by (cases r) auto
next
  case (4 a r)
  then show ?case by (cases r) auto
next
  case (5 xs r)
  then show ?case
    by (cases r) (auto dest: map_eq_imp_length_eq)
next
  case (6 es r)
  show ?case
  proof (cases r)
    case (JObj fs)
    have d: "distinct (map fst es)" "distinct (map fst fs)" using 6 JObj by auto
    have len: "length es = length fs"
      if "map_of (map (\<lambda>(k, v). (k, meaning_of v)) es) = map_of (map (\<lambda>(k, v). (k, meaning_of v)) fs)"
    proof -
      have "dom (map_of (map (\<lambda>(k, v). (k, meaning_of v)) es)) = fst ` set es" for es
        by (force simp: dom_map_of_conv_image_fst)
      with that have "fst ` set es = fst ` set fs" by metis
      with d show ?thesis using distinct_card [of "map fst es"] distinct_card [of "map fst fs"] by simp
    qed
    show ?thesis
    proof (cases "length es = length fs")
      case True
      with 6 JObj d same_keys_iff [OF d True] show ?thesis by simp
    next
      case False
      with JObj len show ?thesis by auto
    qed
  qed auto
next
  case (11 k v es fs)
  show ?case
  proof (cases "map_of fs k")
    case None
    then show ?thesis by (auto simp: same_keys_def)
  next
    case (Some w)
    then have "(k, w) \<in> set fs" by (rule map_of_SomeD)
    then have "wf_json w" using "11.prems" by (auto simp: list_all_iff)
    with 11 Some show ?thesis by (auto simp: same_keys_def)
  qed
qed (auto simp: same_keys_def)

lemmas equal_json_meaning = equal_json_meaning_aux(1)

lemma distinct_insert_by: "distinct (map f (insert_by le x ys)) \<longleftrightarrow> f x \<notin> f ` set ys \<and> distinct (map f ys)"
  by (induction ys) auto

lemma distinct_sort_by: "distinct (map f xs) \<Longrightarrow> distinct (map f (sort_by le xs))"
proof (induction xs)
  case Nil
  then show ?case by (simp add: sort_by_def)
next
  case (Cons x xs)
  have "set (foldr (insert_by le) xs []) = set xs"
    using set_sort_by [of le xs] by (simp add: sort_by_def)
  with Cons show ?case by (simp add: sort_by_def distinct_insert_by)
qed

lemma map_of_sort_by:
  assumes "distinct (map fst es)"
  shows "map_of (sort_by le es) = map_of es"
  using map_of_inject_set [OF distinct_sort_by [OF assms, of le] assms] by simp

lemma meaning_of_canon: "wf_json v \<Longrightarrow> meaning_of (canon v) = meaning_of v"
proof (induction v rule: canon.induct)
  case (2 es)
  have d: "distinct (map fst (map (\<lambda>(k, v). (k, canon v)) es))"
    using 2 by (simp add: o_def case_prod_beta')
  show ?case
  proof (rule trans [where s = "MObj (map_option meaning_of \<circ> map_of (map (\<lambda>(k, v). (k, canon v)) es))"])
    show "meaning_of (canon (JObj es)) =
        MObj (map_option meaning_of \<circ> map_of (map (\<lambda>(k, v). (k, canon v)) es))"
      using map_of_sort_by [OF d, of key_le] by (simp add: fun_eq_iff map_of_meaning)
    have "map_option meaning_of (map_option canon (map_of es k)) = map_option meaning_of (map_of es k)" for k
      using 2 by (cases "map_of es k") (auto simp: list_all_iff dest!: map_of_SomeD)
    then show "MObj (map_option meaning_of \<circ> map_of (map (\<lambda>(k, v). (k, canon v)) es)) =
        meaning_of (JObj es)"
      by (simp add: fun_eq_iff map_of_meaning)
  qed
qed (auto simp: list_all_iff)

lemma same_submission_meaning:
  assumes "wf_json l" "wf_json r"
  shows "same_submission l r \<longleftrightarrow> meaning_of l = meaning_of r"
proof -
  have "meaning_of l = meaning_of r" if "canon l = canon r"
    using meaning_of_canon [OF assms(1)] meaning_of_canon [OF assms(2)] that by simp
  then show ?thesis using assms by (auto simp: same_submission_def equal_json_meaning)
qed

section \<open>Previews\<close>

text \<open>The source's Chinese literals, as their UTF-8 bytes.\<close>

definition bytes :: "nat list \<Rightarrow> string" where
  "bytes = map char_of"

definition preview_placeholder :: string where
  "preview_placeholder = bytes [0x5B, 0xE6, 0xB6, 0x88, 0xE6, 0x81, 0xAF, 0x5D]"

definition preview_recalled :: string where
  "preview_recalled = bytes [0x5B, 0xE6, 0xB6, 0x88, 0xE6, 0x81, 0xAF, 0xE5, 0xB7, 0xB2,
     0xE6, 0x92, 0xA4, 0xE5, 0x9B, 0x9E, 0x5D]"

definition truncate_text :: "string \<Rightarrow> string" where
  "truncate_text t =
     (if length (runes t) > 20 then utf8 (take 20 (runes t)) @ ''...'' else t)"

definition content_text :: "json_map \<Rightarrow> string" where
  "content_text c = (case map_of c ''text'' of Some (JStr t) \<Rightarrow> t | _ \<Rightarrow> [])"

definition message_preview :: "int \<Rightarrow> json_content \<Rightarrow> string" where
  "message_preview msg_type content =
     (case content of
        None \<Rightarrow> []
      | Some c \<Rightarrow>
          if msg_type = 1 \<and> content_text c \<noteq> [] then truncate_text (content_text c)
          else preview_placeholder)"

lemma utf8_append: "utf8 (xs @ ys) = utf8 xs @ utf8 ys"
  by (simp add: utf8_def)

lemma utf8_dots: "utf8 [46, 46, 46] = ''...''"
  by (simp add: utf8_def utf8_bytes_def valid_rune_def char_of_def bit_0)

text \<open>A truncated text is the first twenty runes of the original, then three dots.\<close>

lemma runes_truncate_text:
  "runes (truncate_text t) =
     (if length (runes t) > 20 then take 20 (runes t) @ [46, 46, 46] else runes t)"
proof (cases "length (runes t) > 20")
  case True
  have "list_all valid_rune (take 20 (runes t) @ [46, 46, 46])"
    using runes_valid [of t] by (auto simp: list_all_iff valid_rune_def dest: in_set_takeD)
  then have "runes (utf8 (take 20 (runes t) @ [46, 46, 46])) = take 20 (runes t) @ [46, 46, 46]"
    by (rule runes_utf8)
  with True show ?thesis by (simp add: truncate_text_def utf8_append utf8_dots)
next
  case False
  then show ?thesis by (simp add: truncate_text_def)
qed

lemma runes_preview_placeholder: "length (runes preview_placeholder) = 4"
  by (simp add: runes_def preview_placeholder_def bytes_def dec1_def is_cont_def)

lemma message_preview_runes: "length (runes (message_preview ty content)) \<le> 23"
proof -
  have "length (runes (truncate_text t)) \<le> 23" for t
    by (simp add: runes_truncate_text)
  moreover have "runes [] = []" by (simp add: runes_nonempty)
  ultimately show ?thesis
    by (simp add: message_preview_def runes_preview_placeholder split: option.split)
qed

end
