(* ===== verification/Identity.thy ===== *)
theory Identity
  imports Aim_Prelude
begin

text \<open>
  \<^verbatim>\<open>pkg/identity/identity.go\<close>. The UUID library is third-party code, so its operations are the
  fields of \<open>uuid_lib\<close>, an argument of every definition here. The services above use only the
  outcome of the checks: they take the predicates \<open>id_ok lib\<close> and \<open>key_ok lib\<close> as arguments.
\<close>

record 'u uuid_lib =
  uuid_parse :: "string \<Rightarrow> 'u option"
  uuid_nil :: 'u
  uuid_rfc4122 :: "'u \<Rightarrow> bool"
  uuid_version :: "'u \<Rightarrow> nat"
  uuid_string :: "'u \<Rightarrow> string"

definition id_validate :: "'u uuid_lib \<Rightarrow> string \<Rightarrow> err + unit" where
  "id_validate lib value =
     (case uuid_parse lib value of
        None \<Rightarrow> Inl (Plain ''invalid entity identity: expected canonical nonzero UUID'')
      | Some u \<Rightarrow>
          if u = uuid_nil lib \<or> \<not> uuid_rfc4122 lib u \<or> uuid_string lib u \<noteq> value
          then Inl (Plain ''invalid entity identity: expected canonical nonzero UUID'')
          else Inr ())"

definition ascii_lower :: "char \<Rightarrow> char" where
  "ascii_lower c =
     (if 65 \<le> (of_char c :: nat) \<and> (of_char c :: nat) \<le> 90 then char_of ((of_char c :: nat) + 32) else c)"

definition id_normalize :: "'u uuid_lib \<Rightarrow> string \<Rightarrow> err + string" where
  "id_normalize lib value =
     (if length value \<noteq> 36 then Inl (Plain ''invalid entity identity'')
      else let v = map ascii_lower value in
        rbind (id_validate lib v) (\<lambda>_. Inr v))"

definition id_validate_submission_key :: "'u uuid_lib \<Rightarrow> string \<Rightarrow> err + unit" where
  "id_validate_submission_key lib value =
     rbind (id_validate lib value) (\<lambda>_.
       case uuid_parse lib value of
         None \<Rightarrow> Inl (Plain ''invalid client submission key: expected UUIDv4'')
       | Some u \<Rightarrow>
           if uuid_version lib u \<noteq> 4
           then Inl (Plain ''invalid client submission key: expected UUIDv4'')
           else Inr ())"

definition id_ok :: "'u uuid_lib \<Rightarrow> string \<Rightarrow> bool" where
  "id_ok lib v = is_ok (id_validate lib v)"

definition key_ok :: "'u uuid_lib \<Rightarrow> string \<Rightarrow> bool" where
  "key_ok lib v = is_ok (id_validate_submission_key lib v)"

lemma id_ok_iff:
  "id_ok lib v \<longleftrightarrow> (\<exists>u. uuid_parse lib v = Some u \<and> u \<noteq> uuid_nil lib \<and> uuid_rfc4122 lib u \<and>
     uuid_string lib u = v)"
  by (auto simp: id_ok_def id_validate_def split: option.splits)

lemma key_ok_id_ok: "key_ok lib v \<Longrightarrow> id_ok lib v"
  by (auto simp: key_ok_def id_ok_def id_validate_submission_key_def is_ok_iff rbind_eq_Inr)

text \<open>
  Two accepted spellings of one UUID are equal: an accepted string is the library's own rendering.
\<close>

lemma id_ok_canonical:
  "id_ok lib v \<Longrightarrow> id_ok lib w \<Longrightarrow> uuid_parse lib v = uuid_parse lib w \<Longrightarrow> v = w"
  by (auto simp: id_ok_iff)

lemma id_normalize_ok: "id_normalize lib v = Inr w \<Longrightarrow> id_ok lib w \<and> length w = 36"
  by (auto simp: id_normalize_def id_ok_def is_ok_iff rbind_eq_Inr Let_def split: if_splits)

section \<open>A concrete library\<close>

text \<open>
  The hyphenated form of RFC 4122, in either case, on strings: an instance of the library's
  documented behaviour, used to evaluate the model.
\<close>

definition is_hex :: "char \<Rightarrow> bool" where
  "is_hex c = (let n = (of_char c :: nat) in 48 \<le> n \<and> n \<le> 57 \<or> 65 \<le> n \<and> n \<le> 70 \<or> 97 \<le> n \<and> n \<le> 102)"

definition hex_val :: "char \<Rightarrow> nat" where
  "hex_val c = (let n = (of_char c :: nat) in if n \<le> 57 then n - 48 else if n \<le> 70 then n - 55 else n - 87)"

definition is_uuid_text :: "string \<Rightarrow> bool" where
  "is_uuid_text s \<longleftrightarrow> length s = 36 \<and>
     list_all (\<lambda>i. if i \<in> {8, 13, 18, 23} then s ! i = CHR ''-'' else is_hex (s ! i)) [0..<36]"

definition text_uuid_lib :: "string uuid_lib" where
  "text_uuid_lib =
     \<lparr>uuid_parse = (\<lambda>s. if is_uuid_text s then Some (map ascii_lower s) else None),
      uuid_nil = ''00000000-0000-0000-0000-000000000000'',
      uuid_rfc4122 = (\<lambda>u. 8 \<le> hex_val (u ! 19) \<and> hex_val (u ! 19) \<le> 11),
      uuid_version = (\<lambda>u. hex_val (u ! 14)),
      uuid_string = (\<lambda>u. u)\<rparr>"

end
