(* ===== verification/Biz_Errors.thy ===== *)
theory Biz_Errors
  imports Sequence_Pos
begin

text \<open>
  \<^verbatim>\<open>pkg/errors/errors.go\<close>: the business error codes, their gRPC and HTTP renderings, and the
  translation of an error into a gRPC status and back at the gateway. \<open>strconv.Itoa\<close> is
  \<open>show_int\<close>; \<open>atoi\<close> is \<open>strconv.Atoi\<close>.
\<close>

section \<open>Codes\<close>

definition code_unknown :: nat where "code_unknown = 1000"
definition code_invalid_param :: nat where "code_invalid_param = 1001"
definition code_unauthorized :: nat where "code_unauthorized = 1002"
definition code_forbidden :: nat where "code_forbidden = 1003"
definition code_not_found :: nat where "code_not_found = 1004"
definition code_conflict :: nat where "code_conflict = 1005"
definition code_internal :: nat where "code_internal = 1006"
definition code_timeout :: nat where "code_timeout = 1007"
definition code_too_many_requests :: nat where "code_too_many_requests = 1008"
definition code_service_down :: nat where "code_service_down = 1009"
definition code_rpc_error :: nat where "code_rpc_error = 1013"
definition code_bot_not_found :: nat where "code_bot_not_found = 1015"
definition code_bot_forbidden :: nat where "code_bot_forbidden = 1016"
definition code_webhook_invalid :: nat where "code_webhook_invalid = 1017"
definition code_webhook_timeout :: nat where "code_webhook_timeout = 1018"
definition code_incompatible_scope :: nat where "code_incompatible_scope = 1019"
definition code_document_not_ready :: nat where "code_document_not_ready = 1020"
definition code_document_unavailable :: nat where "code_document_unavailable = 1021"
definition code_no_readable_content :: nat where "code_no_readable_content = 1022"
definition code_reading_too_large :: nat where "code_reading_too_large = 1023"

lemmas code_defs = code_unknown_def code_invalid_param_def code_unauthorized_def
  code_forbidden_def code_not_found_def code_conflict_def code_internal_def code_timeout_def
  code_too_many_requests_def code_service_down_def code_rpc_error_def code_bot_not_found_def
  code_bot_forbidden_def code_webhook_invalid_def code_webhook_timeout_def
  code_incompatible_scope_def code_document_not_ready_def code_document_unavailable_def
  code_no_readable_content_def code_reading_too_large_def

section \<open>Renderings\<close>

definition grpc_code_from_code :: "nat \<Rightarrow> grpc_code" where
  "grpc_code_from_code c =
     (if c = code_invalid_param then InvalidArgument
      else if c = code_unauthorized then Unauthenticated
      else if c = code_forbidden then PermissionDenied
      else if c = code_not_found then NotFound
      else if c = code_conflict then AlreadyExists
      else if c \<in> {code_incompatible_scope, code_document_not_ready, code_no_readable_content}
        then FailedPrecondition
      else if c = code_timeout then DeadlineExceeded
      else if c \<in> {code_too_many_requests, code_reading_too_large} then ResourceExhausted
      else if c \<in> {code_service_down, code_rpc_error, code_document_unavailable} then Unavailable
      else if c = code_bot_not_found then NotFound
      else if c = code_bot_forbidden then PermissionDenied
      else if c = code_webhook_invalid then InvalidArgument
      else if c = code_webhook_timeout then DeadlineExceeded
      else Internal)"

definition http_status_from_code :: "nat \<Rightarrow> nat" where
  "http_status_from_code c =
     (if c \<in> {code_invalid_param, code_webhook_invalid} then 400
      else if c = code_unauthorized then 401
      else if c \<in> {code_forbidden, code_bot_forbidden} then 403
      else if c \<in> {code_not_found, code_bot_not_found} then 404
      else if c \<in> {code_conflict, code_incompatible_scope, code_document_not_ready,
          code_no_readable_content} then 409
      else if c \<in> {code_timeout, code_webhook_timeout} then 408
      else if c = code_too_many_requests then 429
      else if c = code_reading_too_large then 413
      else if c \<in> {code_service_down, code_rpc_error, code_document_unavailable} then 503
      else 500)"

fun code_from_grpc_code :: "grpc_code \<Rightarrow> nat" where
  "code_from_grpc_code InvalidArgument = code_invalid_param"
| "code_from_grpc_code Unauthenticated = code_unauthorized"
| "code_from_grpc_code PermissionDenied = code_forbidden"
| "code_from_grpc_code NotFound = code_not_found"
| "code_from_grpc_code AlreadyExists = code_conflict"
| "code_from_grpc_code ResourceExhausted = code_too_many_requests"
| "code_from_grpc_code DeadlineExceeded = code_timeout"
| "code_from_grpc_code Unavailable = code_service_down"
| "code_from_grpc_code _ = code_internal"

section \<open>Translation\<close>

text \<open>A status on the wire: code, message and \<open>ErrorInfo\<close> details (reason, metadata).\<close>

record grpc_status =
  gs_code :: grpc_code
  gs_message :: string
  gs_details :: "(string \<times> (string \<times> string) list) list"

fun is_biz_error :: "err \<Rightarrow> bool" where
  "is_biz_error (Biz _ _) = True"
| "is_biz_error _ = False"

fun is_status :: "err \<Rightarrow> bool" where
  "is_status (Status _ _) = True"
| "is_status _ = False"

fun to_grpc_error :: "err \<Rightarrow> grpc_status" where
  "to_grpc_error (Biz c m) =
     \<lparr>gs_code = grpc_code_from_code c, gs_message = m,
      gs_details = [(''BIZ_ERROR'', [(''biz_code'', show_int (int c))])]\<rparr>"
| "to_grpc_error (Status c m) = \<lparr>gs_code = c, gs_message = m, gs_details = []\<rparr>"
| "to_grpc_error _ =
     \<lparr>gs_code = Internal, gs_message = ''internal server error'', gs_details = []\<rparr>"

definition atoi :: "string \<Rightarrow> int option" where
  "atoi s =
     (let neg = (s \<noteq> [] \<and> hd s = CHR ''-'');
          ds = (if s \<noteq> [] \<and> (hd s = CHR ''-'' \<or> hd s = CHR ''+'') then tl s else s);
          v = (if neg then - int (digits_val ds) else int (digits_val ds))
      in if ds = [] \<or> \<not> list_all is_digit ds \<or> v < - (2 ^ 63) \<or> v \<ge> 2 ^ 63 then None else Some v)"

text \<open>The first detail with the reason \<^verbatim>\<open>BIZ_ERROR\<close> and a readable code wins.\<close>

fun biz_detail :: "(string \<times> (string \<times> string) list) list \<Rightarrow> int option" where
  "biz_detail [] = None"
| "biz_detail ((reason, meta) # ds) =
     (if reason \<noteq> ''BIZ_ERROR'' then biz_detail ds
      else case map_of meta ''biz_code'' of
          None \<Rightarrow> biz_detail ds
        | Some v \<Rightarrow> if v = [] then biz_detail ds
            else (case atoi v of None \<Rightarrow> biz_detail ds | Some n \<Rightarrow> Some n))"

text \<open>
  \<open>FromGRPCStatus\<close>: no error, an error that is no status, or a status.
\<close>

fun from_grpc_status :: "(string + grpc_status) option \<Rightarrow> int \<times> string" where
  "from_grpc_status None = (0, ''ok'')"
| "from_grpc_status (Some (Inl _)) = (int code_internal, ''internal server error'')"
| "from_grpc_status (Some (Inr st)) =
     (case biz_detail (gs_details st) of
        Some n \<Rightarrow> (n, gs_message st)
      | None \<Rightarrow> (int (code_from_grpc_code (gs_code st)), gs_message st))"

lemma atoi_show_nat: "int c < 2 ^ 63 \<Longrightarrow> atoi (show_int (int c)) = Some (int c)"
proof -
  assume b: "int c < 2 ^ 63"
  have h: "is_digit (hd (show_nat c))"
    using show_nat_digits [of c] show_nat_nonempty [of c] by (cases "show_nat c") auto
  then have "hd (show_nat c) \<noteq> CHR ''-''" "hd (show_nat c) \<noteq> CHR ''+''"
    by (auto simp: is_digit_def)
  with b show ?thesis
    by (simp add: atoi_def show_int_def digits_val_show_nat show_nat_digits)
qed

lemma show_int_nonempty: "show_int v \<noteq> []"
  by (simp add: show_int_def)

text \<open>
  C26: a business error crosses the wire: the gateway recovers exactly the service's code and
  message from the status the service returned, whatever gRPC code it was given; a status keeps its
  message; and any other error shows the client nothing but an internal error.
\<close>

theorem grpc_error_roundtrip:
  assumes "\<And>c m. e = Biz c m \<Longrightarrow> int c < 2 ^ 63"
  shows "from_grpc_status (Some (Inr (to_grpc_error e))) =
    (case e of
       Biz c m \<Rightarrow> (int c, m)
     | Status g m \<Rightarrow> (int (code_from_grpc_code g), m)
     | _ \<Rightarrow> (1006, ''internal server error''))"
  using assms by (cases e) (auto simp: atoi_show_nat show_int_nonempty code_internal_def)

theorem grpc_error_roundtrip_witness:
  "from_grpc_status (Some (Inr (to_grpc_error (Biz 1005 ''content conflict'')))) =
     (1005, ''content conflict'')"
  using grpc_error_roundtrip [of "Biz 1005 ''content conflict''"] by simp

text \<open>
  Which codes keep their HTTP status on the way through gRPC and back, as a gateway goes it for a status without
  details: all but four, since \<open>FailedPrecondition\<close> and \<open>ResourceExhausted\<close> each carry codes of different statuses.
\<close>

lemma http_status_agrees:
  "http_status_from_code (code_from_grpc_code (grpc_code_from_code c)) = http_status_from_code c \<longleftrightarrow>
     c \<notin> {code_incompatible_scope, code_document_not_ready, code_no_readable_content, code_reading_too_large}"
  by (simp add: grpc_code_from_code_def http_status_from_code_def code_defs)

end
