(* ===== verification/Msg_Store.thy ===== *)
theory Msg_Store
  imports Json Identity Biz_Errors
begin

text \<open>
  The tables of the messaging domain (\<^verbatim>\<open>message-service/internal/model\<close>) and the repository
  operations that allocate positions and publish changes: \<open>SequenceRepo.NextSeq\<close>,
  \<open>OutboxRepo.Insert\<close>, \<open>ServiceContext.PublishInboxChange\<close> and the row operations shared by the
  message and conversation operations. A row is a record with the columns of the Go struct; times
  are integers in nanoseconds. The conversation row lock serialises the transactions of one
  conversation, so each operation is one atomic function of the whole store. The SQL constraints of
  \<^verbatim>\<open>migrations/postgres\<close> that the inserts rely on are checked by the inserts.
\<close>

section \<open>Rows\<close>

record message =
  m_id :: string
  m_conv :: string
  m_sender :: "string option"
  m_sender_type :: string
  m_sender_name :: string
  m_sender_avatar :: string
  m_binding :: "string option"
  m_requester :: "string option"
  m_raw_payload :: string
  m_client_msg_id :: "string option"
  m_seq :: int
  m_type :: int
  m_content :: json_content
  m_submission :: "json option"
  m_reply_to :: "string option"
  m_status :: int
  m_history :: "json_content list"
  m_edit_count :: int
  m_created :: int
  m_updated :: int

definition status_normal :: int where "status_normal = 1"
definition status_recalled :: int where "status_recalled = 2"
definition status_edited :: int where "status_edited = 3"

definition type_text :: int where "type_text = 1"
definition type_image :: int where "type_image = 2"
definition type_file :: int where "type_file = 3"
definition type_video :: int where "type_video = 4"
definition type_audio :: int where "type_audio = 5"
definition type_location :: int where "type_location = 6"
definition type_system :: int where "type_system = 7"
definition type_custom :: int where "type_custom = 8"
definition type_result :: int where "type_result = 10"

lemmas type_defs = type_text_def type_image_def type_file_def type_video_def type_audio_def
  type_location_def type_system_def type_custom_def type_result_def
lemmas status_defs = status_normal_def status_recalled_def status_edited_def

definition conv_private :: int where "conv_private = 1"
definition conv_group :: int where "conv_group = 2"
definition conv_system :: int where "conv_system = 3"

record conversation =
  c_id :: string
  c_type :: int
  c_name :: string
  c_avatar :: string
  c_owner :: "string option"
  c_announcement :: string
  c_muted_all :: bool
  c_background :: string
  c_max_seq :: int
  c_pub_seq :: int
  c_last_msg :: "string option"
  c_last_preview :: string
  c_member_count :: int
  c_created :: int
  c_updated :: int

record conv_member =
  cm_id :: string
  cm_conv :: string
  cm_user :: "string option"
  cm_type :: string
  cm_role :: int
  cm_alias :: string
  cm_muted :: bool
  cm_mute_until :: int
  cm_joined :: int

record conv_read_seq =
  rs_id :: string
  rs_conv :: string
  rs_user :: string
  rs_last :: int
  rs_at :: int

record conv_settings =
  cs_id :: string
  cs_conv :: string
  cs_user :: string
  cs_muted :: bool
  cs_pinned :: bool

record conv_bot =
  cb_id :: string
  cb_conv :: string
  cb_bot :: string
  cb_added_by :: string
  cb_start_seq :: int
  cb_revoked :: "int option"
  cb_created :: int

section \<open>Changes and the outbox\<close>

text \<open>
  The payload map of a durable change, with the fields the consumers read
  (\<open>event.InboxChangeEvent\<close>) and those the realtime rendering adds. \<open>ch_recipients = None\<close> is an
  absent \<^verbatim>\<open>recipient_ids\<close> key.
\<close>

record change =
  ch_id :: string
  ch_kind :: string
  ch_conv :: string
  ch_recipients :: "string list option"
  ch_user :: "string option"
  ch_last_read :: int
  ch_delete_for_all :: bool
  ch_message :: "string option"
  ch_sender :: "string option"
  ch_sender_type :: string
  ch_sender_name :: string
  ch_sender_avatar :: string
  ch_binding :: "string option"
  ch_requester :: "string option"
  ch_msg_type :: int
  ch_content :: json_content
  ch_raw_payload :: string
  ch_preview :: string
  ch_status :: int
  ch_edit_count :: int
  ch_seq :: int
  ch_pub_seq :: int
  ch_reply_to :: "string option"
  ch_created :: int
  ch_updated :: int

record activity =
  act_id :: string
  act_type :: string
  act_conv :: string
  act_actor :: string
  act_text :: string
  act_seq :: int
  act_data :: json

datatype payload = Change change | BotActivity activity

definition kind_new :: string where "kind_new = ''message.new''"
definition kind_edited :: string where "kind_edited = ''message.edited''"
definition kind_recalled :: string where "kind_recalled = ''message.recalled''"
definition kind_deleted :: string where "kind_deleted = ''message.deleted''"
definition kind_upsert :: string where "kind_upsert = ''conversation.upsert''"
definition kind_removed :: string where "kind_removed = ''conversation.removed''"
definition kind_read :: string where "kind_read = ''read.updated''"

lemmas kind_defs = kind_new_def kind_edited_def kind_recalled_def kind_deleted_def
  kind_upsert_def kind_removed_def kind_read_def

definition is_message_kind :: "string \<Rightarrow> bool" where
  "is_message_kind k \<longleftrightarrow> k \<in> {kind_new, kind_edited, kind_recalled, kind_deleted}"

definition no_change :: change where
  "no_change = \<lparr>ch_id = [], ch_kind = [], ch_conv = [], ch_recipients = None, ch_user = None,
     ch_last_read = 0, ch_delete_for_all = False, ch_message = None, ch_sender = None,
     ch_sender_type = [], ch_sender_name = [], ch_sender_avatar = [],
     ch_binding = None, ch_requester = None, ch_msg_type = 0, ch_content = None,
     ch_raw_payload = [], ch_preview = [], ch_status = 0, ch_edit_count = 0, ch_seq = 0,
     ch_pub_seq = 0, ch_reply_to = None, ch_created = 0, ch_updated = 0\<rparr>"

definition outbox_pending :: int where "outbox_pending = 0"
definition outbox_sent :: int where "outbox_sent = 1"
definition outbox_failed :: int where "outbox_failed = 2"

lemmas outbox_defs = outbox_pending_def outbox_sent_def outbox_failed_def

record outbox_event =
  o_id :: string
  o_conv :: string
  o_pub_seq :: int
  o_topic :: string
  o_key :: string
  o_payload :: payload
  o_status :: int
  o_retry :: int
  o_max_retries :: int
  o_next_retry :: "int option"
  o_last_error :: string
  o_created :: int
  o_dispatched :: "int option"

section \<open>The store\<close>

record msg_db =
  convs :: "string \<rightharpoonup> conversation"
  members :: "conv_member list"
  reads :: "conv_read_seq list"
  settings :: "conv_settings list"
  bindings :: "conv_bot list"
  msgs :: "message list"
  seqs :: "string \<rightharpoonup> int"
  deletions :: "(string \<times> string \<times> string) list"
  outbox :: "outbox_event list"
  blocks :: "(string \<times> string) list"
  next_id :: nat

definition empty_db :: msg_db where
  "empty_db = \<lparr>convs = Map.empty, members = [], reads = [], settings = [], bindings = [],
     msgs = [], seqs = Map.empty, deletions = [], outbox = [], blocks = [], next_id = 0\<rparr>"

text \<open>
  What a request sees besides the store: the identity checks, the clock, the supply of fresh
  identities (\<open>identity.New\<close>), the configured windows (seconds) and the services the code calls
  as clients: the file service (\<open>None\<close> when it is not configured) and the profile names.
\<close>

record file_info =
  f_id :: string
  f_name :: string
  f_size :: int
  f_ext :: string
  f_mime :: string
  f_width :: int
  f_height :: int
  f_duration :: int

record env =
  valid_id :: "string \<Rightarrow> bool"
  valid_key :: "string \<Rightarrow> bool"
  now :: int
  fresh :: "nat \<Rightarrow> string"
  recall_window :: int
  edit_window :: int
  max_members :: int
  file_client :: "(string \<Rightarrow> string \<Rightarrow> err + file_info option) option"
  profile_name :: "string \<Rightarrow> string option"
  json_decode :: "string \<Rightarrow> json option"

definition second :: int where "second = 1000000000"

definition unix :: "int \<Rightarrow> int" where "unix t = t div second"

definition new_id :: "env \<Rightarrow> msg_db \<Rightarrow> string \<times> msg_db" where
  "new_id env db = (fresh env (next_id db), db\<lparr>next_id := Suc (next_id db)\<rparr>)"

definition upd_conv :: "string \<Rightarrow> (conversation \<Rightarrow> conversation) \<Rightarrow> msg_db \<Rightarrow> msg_db" where
  "upd_conv cid f db = db\<lparr>convs := (convs db)(cid := map_option f (convs db cid))\<rparr>"

definition get_conv :: "string \<Rightarrow> msg_db \<Rightarrow> err + conversation" where
  "get_conv cid db = of_option RecordNotFound (convs db cid)"

text \<open>\<open>SequenceRepo.NextSeq\<close>: the upsert that increments below the maximum.\<close>

definition next_seq :: "env \<Rightarrow> string \<Rightarrow> msg_db \<Rightarrow> err + (int \<times> msg_db)" where
  "next_seq env cid db =
     rbind (ensure (valid_id env cid) (Plain ''invalid entity identity'')) (\<lambda>_.
       case seqs db cid of
         None \<Rightarrow> Inr (1, db\<lparr>seqs := (seqs db)(cid \<mapsto> 1)\<rparr>)
       | Some n \<Rightarrow>
           if n < seq_max then Inr (n + 1, db\<lparr>seqs := (seqs db)(cid \<mapsto> n + 1)\<rparr>)
           else Inl (Plain ''conversation sequence exhausted''))"

definition cur_seq :: "msg_db \<Rightarrow> string \<Rightarrow> int" where
  "cur_seq db cid = (case seqs db cid of None \<Rightarrow> 0 | Some n \<Rightarrow> n)"

definition cur_pub :: "msg_db \<Rightarrow> string \<Rightarrow> int" where
  "cur_pub db cid = (case convs db cid of None \<Rightarrow> 0 | Some c \<Rightarrow> c_pub_seq c)"

text \<open>
  The publication sequence of the conversation row: read, \<open>sequence.Next\<close>, written back, in
  \<open>PublishInboxChange\<close> and \<open>publishBotActivity\<close> alike. gorm's \<open>Update\<close> of a model with an
  \<^verbatim>\<open>autoUpdateTime\<close> column also stamps that column, so every publication moves \<^verbatim>\<open>updated_at\<close>.
\<close>

definition next_publication :: "env \<Rightarrow> string \<Rightarrow> msg_db \<Rightarrow> err + (int \<times> msg_db)" where
  "next_publication env cid db =
     rbind (get_conv cid db) (\<lambda>c.
     rbind (seq_next (c_pub_seq c)) (\<lambda>n.
       Inr (n, upd_conv cid (\<lambda>c. c\<lparr>c_pub_seq := n, c_updated := now env\<rparr>) db)))"

text \<open>\<open>OutboxRepo.Insert\<close>, under the primary key and the unique stream position.\<close>

definition insert_outbox :: "outbox_event \<Rightarrow> msg_db \<Rightarrow> err + msg_db" where
  "insert_outbox ev db =
     (if \<exists>e\<in>set (outbox db). o_id e = o_id ev \<or> (o_conv e = o_conv ev \<and> o_pub_seq e = o_pub_seq ev)
      then Inl (Violation ''outbox_events_stream_sequence'')
      else Inr (db\<lparr>outbox := outbox db @ [ev]\<rparr>))"

definition is_human_member :: "string \<Rightarrow> conv_member \<Rightarrow> bool" where
  "is_human_member cid m \<longleftrightarrow> cm_conv m = cid \<and> cm_type m = ''user''"

definition user_of :: "conv_member \<Rightarrow> string" where
  "user_of m = (case cm_user m of None \<Rightarrow> [] | Some u \<Rightarrow> u)"

text \<open>The human members of a conversation, ordered by user.\<close>

definition member_ids :: "string \<Rightarrow> msg_db \<Rightarrow> string list" where
  "member_ids cid db = sort_by str_le (map user_of (filter (is_human_member cid) (members db)))"

definition find_member :: "string \<Rightarrow> string \<Rightarrow> msg_db \<Rightarrow> err + conv_member" where
  "find_member cid uid db =
     take_row (\<lambda>m. is_human_member cid m \<and> cm_user m = Some uid) (members db)"

definition max_retries_default :: int where
  "max_retries_default = 10"

text \<open>
  \<open>PublishInboxChange\<close>: allocate the publication sequence, snapshot the recipients of a message
  change that names none, write the event.
\<close>

definition publish_inbox_change :: "env \<Rightarrow> change \<Rightarrow> msg_db \<Rightarrow> err + msg_db" where
  "publish_inbox_change env ch db =
     rbind (ensure (valid_id env (ch_conv ch)) (Plain ''inbox change requires a conversation'')) (\<lambda>_.
     rbind (next_publication env (ch_conv ch) db) (\<lambda>(n, db1).
       let recipients =
             (if is_message_kind (ch_kind ch) \<and> ch_recipients ch = None
              then Some (member_ids (ch_conv ch) db) else ch_recipients ch);
           (id, db2) = new_id env db1;
           ch' = ch\<lparr>ch_recipients := recipients, ch_id := id, ch_pub_seq := n\<rparr>
       in insert_outbox
            \<lparr>o_id = id, o_conv = ch_conv ch, o_pub_seq = n, o_topic = ''message.created'',
             o_key = ch_conv ch, o_payload = Change ch', o_status = outbox_pending, o_retry = 0,
             o_max_retries = max_retries_default, o_next_retry = None, o_last_error = [],
             o_created = now env, o_dispatched = None\<rparr> db2))"

text \<open>
  Inserting a message row: primary key, \<^verbatim>\<open>uq_messages_conv_seq\<close> and \<^verbatim>\<open>uq_messages_submission\<close>.
\<close>

definition insert_message :: "message \<Rightarrow> msg_db \<Rightarrow> err + msg_db" where
  "insert_message m db =
     (if \<exists>x\<in>set (msgs db). m_id x = m_id m \<or> (m_conv x = m_conv m \<and> m_seq x = m_seq m)
      then Inl (Violation ''uq_messages_conv_seq'')
      else if m_client_msg_id m \<noteq> None \<and>
        (\<exists>x\<in>set (msgs db). m_sender x = m_sender m \<and> m_sender m \<noteq> None \<and> m_conv x = m_conv m \<and>
           m_client_msg_id x = m_client_msg_id m)
      then Inl (Violation ''uq_messages_submission'')
      else Inr (db\<lparr>msgs := msgs db @ [m]\<rparr>))"

text \<open>\<open>ConversationRepo.TouchLastMessage\<close>.\<close>

definition touch_last_message ::
  "env \<Rightarrow> string \<Rightarrow> string \<Rightarrow> int \<Rightarrow> string \<Rightarrow> msg_db \<Rightarrow> err + msg_db" where
  "touch_last_message env cid mid seq preview db =
     (case convs db cid of
        None \<Rightarrow> Inl RecordNotFound
      | Some _ \<Rightarrow> Inr (upd_conv cid (\<lambda>c. c\<lparr>c_last_msg := Some mid, c_last_preview := preview,
          c_max_seq := seq, c_updated := now env\<rparr>) db))"

section \<open>Both sequences are allocators\<close>

lemma next_seq_Inr:
  "next_seq env cid db = Inr (n, db') \<longleftrightarrow>
     valid_id env cid \<and> n = cur_seq db cid + 1 \<and> (seqs db cid = None \<or> cur_seq db cid < seq_max) \<and>
     db' = db\<lparr>seqs := (seqs db)(cid \<mapsto> n)\<rparr>"
  by (auto simp: next_seq_def cur_seq_def res_simps split: option.splits)

lemma next_publication_Inr:
  "next_publication env cid db = Inr (n, db') \<longleftrightarrow>
     (\<exists>c. convs db cid = Some c \<and> 0 \<le> c_pub_seq c \<and> c_pub_seq c < seq_max \<and> n = c_pub_seq c + 1 \<and>
       db' = db\<lparr>convs := (convs db)(cid \<mapsto> c\<lparr>c_pub_seq := n, c_updated := now env\<rparr>)\<rparr>)"
  by (auto simp: next_publication_def get_conv_def upd_conv_def res_simps)

interpretation msg_seq: seq_alloc "\<lambda>db cid. next_seq env cid db" cur_seq
  by unfold_locales (auto simp: next_seq_Inr cur_seq_def seq_max_def split: option.splits)

interpretation pub_seq: seq_alloc "\<lambda>db cid. next_publication env cid db" cur_pub
  by unfold_locales (auto simp: next_publication_Inr cur_pub_def split: option.splits)

section \<open>The invariant of the store\<close>

text \<open>
  Positions stay below the counters that allocate them, are used once, and every identity in the
  store comes from the part of the supply that has been consumed.
\<close>

definition pub_pos :: "outbox_event \<Rightarrow> string \<times> int" where
  "pub_pos e = (o_conv e, o_pub_seq e)"

definition msg_pos :: "message \<Rightarrow> string \<times> int" where
  "msg_pos m = (m_conv m, m_seq m)"

definition used_id :: "env \<Rightarrow> msg_db \<Rightarrow> string \<Rightarrow> bool" where
  "used_id env db i \<longleftrightarrow> (\<forall>n \<ge> next_id db. fresh env n \<noteq> i)"

definition conv_wf :: "msg_db \<Rightarrow> bool" where
  "conv_wf db \<longleftrightarrow> (\<forall>cid c. convs db cid = Some c \<longrightarrow>
     c_id c = cid \<and> 0 \<le> c_pub_seq c \<and> c_pub_seq c \<le> seq_max \<and>
     0 \<le> c_max_seq c \<and> c_max_seq c \<le> cur_seq db cid)"

definition seq_wf :: "msg_db \<Rightarrow> bool" where
  "seq_wf db \<longleftrightarrow> (\<forall>cid n. seqs db cid = Some n \<longrightarrow> 1 \<le> n \<and> n \<le> seq_max)"

definition msgs_wf :: "env \<Rightarrow> msg_db \<Rightarrow> bool" where
  "msgs_wf env db \<longleftrightarrow>
     distinct (map m_id (msgs db)) \<and> distinct (map msg_pos (msgs db)) \<and>
     (\<forall>m\<in>set (msgs db). 1 \<le> m_seq m \<and> m_seq m \<le> cur_seq db (m_conv m) \<and> used_id env db (m_id m))"

definition outbox_wf :: "env \<Rightarrow> msg_db \<Rightarrow> bool" where
  "outbox_wf env db \<longleftrightarrow>
     distinct (map o_id (outbox db)) \<and> distinct (map pub_pos (outbox db)) \<and>
     (\<forall>e\<in>set (outbox db). 1 \<le> o_pub_seq e \<and> used_id env db (o_id e) \<and>
        (\<forall>c. convs db (o_conv e) = Some c \<longrightarrow> o_pub_seq e \<le> c_pub_seq c))"

definition db_inv :: "env \<Rightarrow> msg_db \<Rightarrow> bool" where
  "db_inv env db \<longleftrightarrow> conv_wf db \<and> seq_wf db \<and> msgs_wf env db \<and> outbox_wf env db"

lemmas db_inv_defs = db_inv_def conv_wf_def seq_wf_def msgs_wf_def outbox_wf_def

lemma db_inv_empty: "db_inv env empty_db"
  by (simp add: db_inv_defs empty_db_def)

lemma used_id_mono: "used_id env db i \<Longrightarrow> next_id db \<le> next_id db' \<Longrightarrow> used_id env db' i"
  by (auto simp: used_id_def)

lemma fresh_used: "inj (fresh env) \<Longrightarrow> n < next_id db \<Longrightarrow> used_id env db (fresh env n)"
  by (auto simp: used_id_def dest: injD)

lemma fresh_not_used: "used_id env db i \<Longrightarrow> i \<noteq> fresh env (next_id db)"
  by (auto simp: used_id_def)

text \<open>\<open>db_frame\<close>: a step that touches none of what the invariant speaks about.\<close>

definition same_core :: "msg_db \<Rightarrow> msg_db \<Rightarrow> bool" where
  "same_core db db' \<longleftrightarrow> seqs db' = seqs db \<and> msgs db' = msgs db \<and> outbox db' = outbox db \<and>
     next_id db \<le> next_id db' \<and>
     (\<forall>cid c'. convs db' cid = Some c' \<longrightarrow>
        (\<exists>c. convs db cid = Some c \<and> c_id c' = c_id c \<and> c_pub_seq c' = c_pub_seq c \<and>
             c_max_seq c' = c_max_seq c))"

lemma same_core_inv:
  assumes "same_core db db'" "db_inv env db"
  shows "db_inv env db'"
proof -
  have cs: "cur_seq db' = cur_seq db" using assms(1) by (auto simp: same_core_def cur_seq_def fun_eq_iff)
  have u: "used_id env db i \<Longrightarrow> used_id env db' i" for i
    using assms(1) used_id_mono [of env db i db'] by (simp add: same_core_def)
  have "conv_wf db'"
    unfolding conv_wf_def
  proof (intro allI impI)
    fix cid c' assume "convs db' cid = Some c'"
    then obtain c where c: "convs db cid = Some c" "c_id c' = c_id c" "c_pub_seq c' = c_pub_seq c"
        "c_max_seq c' = c_max_seq c"
      using assms(1) unfolding same_core_def by metis
    then show "c_id c' = cid \<and> 0 \<le> c_pub_seq c' \<and> c_pub_seq c' \<le> seq_max \<and> 0 \<le> c_max_seq c' \<and>
        c_max_seq c' \<le> cur_seq db' cid"
      using assms(2) cs by (simp add: db_inv_def conv_wf_def)
  qed
  moreover have "seq_wf db'" using assms by (simp add: same_core_def db_inv_def seq_wf_def)
  moreover have "msgs_wf env db'"
    using assms cs u by (simp add: same_core_def db_inv_def msgs_wf_def)
  moreover have "outbox_wf env db'"
    unfolding outbox_wf_def
  proof (intro conjI ballI)
    show "distinct (map o_id (outbox db'))" "distinct (map pub_pos (outbox db'))"
      using assms by (simp_all add: same_core_def db_inv_def outbox_wf_def)
    fix e assume "e \<in> set (outbox db')"
    then have e: "e \<in> set (outbox db)" using assms(1) by (simp add: same_core_def)
    then show "1 \<le> o_pub_seq e" "used_id env db' (o_id e)"
      using assms(2) u by (auto simp: db_inv_def outbox_wf_def)
    show "\<forall>c. convs db' (o_conv e) = Some c \<longrightarrow> o_pub_seq e \<le> c_pub_seq c"
    proof (intro allI impI)
      fix c' assume "convs db' (o_conv e) = Some c'"
      then obtain c where "convs db (o_conv e) = Some c" "c_pub_seq c' = c_pub_seq c"
        using assms(1) unfolding same_core_def by metis
      then show "o_pub_seq e \<le> c_pub_seq c'"
        using assms(2) e by (auto simp: db_inv_def outbox_wf_def)
    qed
  qed
  ultimately show ?thesis by (simp add: db_inv_def)
qed

lemma same_core_refl [simp]: "same_core db db"
  by (simp add: same_core_def)

lemma same_core_upd_conv:
  assumes "\<And>c. c_id (f c) = c_id c" "\<And>c. c_pub_seq (f c) = c_pub_seq c"
    "\<And>c. c_max_seq (f c) = c_max_seq c"
  shows "same_core db (upd_conv cid f db)"
  using assms by (auto simp: same_core_def upd_conv_def)

end
