(* ===== verification/Message_View.thy ===== *)
theory Message_View
  imports Msg_Store
begin

text \<open>
  The typed contents of \<^verbatim>\<open>model/message.go\<close> as JSON maps, their best-effort readers
  (\<open>ParseTextContent\<close> and its siblings) and \<open>modelToPbMessage\<close> of
  \<^verbatim>\<open>logic/messageservice/helpers.go\<close>, the one place that turns a row into what a client sees.
  \<open>encoding/json\<close> keeps the fields it could decode and leaves the others at zero; fields are matched
  by their exact key here (a document with case variants of a key is outside the model).
\<close>

section \<open>Typed contents\<close>

definition jint :: "int \<Rightarrow> json" where "jint n = JNum (show_int n)"

text \<open>A nil slice of strings is encoded as \<^verbatim>\<open>null\<close>.\<close>

definition jstrs :: "string list \<Rightarrow> json" where
  "jstrs xs = (if xs = [] then JNull else JArr (map JStr xs))"

definition text_content :: "string \<Rightarrow> string list \<Rightarrow> bool \<Rightarrow> json_map" where
  "text_content t mentions all =
     [(''text'', JStr t), (''mention_user_ids'', jstrs mentions), (''mention_all'', JBool all)]"

definition image_content :: "string \<Rightarrow> string \<Rightarrow> string \<Rightarrow> int \<Rightarrow> int \<Rightarrow> int \<Rightarrow> string \<Rightarrow> json_map" where
  "image_content fid url thumb w h sz fmt =
     [(''file_id'', JStr fid), (''url'', JStr url), (''thumbnail_url'', JStr thumb),
      (''width'', jint w), (''height'', jint h), (''size'', jint sz), (''format'', JStr fmt)]"

definition file_content :: "string \<Rightarrow> string \<Rightarrow> string \<Rightarrow> int \<Rightarrow> string \<Rightarrow> string \<Rightarrow> json_map" where
  "file_content fid url name sz ext mime =
     [(''file_id'', JStr fid), (''url'', JStr url), (''name'', JStr name), (''size'', jint sz),
      (''ext'', JStr ext), (''mime_type'', JStr mime)]"

definition video_content :: "string \<Rightarrow> string \<Rightarrow> string \<Rightarrow> int \<Rightarrow> int \<Rightarrow> int \<Rightarrow> int \<Rightarrow> json_map" where
  "video_content fid url thumb dur w h sz =
     [(''file_id'', JStr fid), (''url'', JStr url), (''thumbnail_url'', JStr thumb),
      (''duration'', jint dur), (''width'', jint w), (''height'', jint h), (''size'', jint sz)]"

definition audio_content :: "string \<Rightarrow> string \<Rightarrow> int \<Rightarrow> int \<Rightarrow> json_map" where
  "audio_content fid url dur sz =
     [(''file_id'', JStr fid), (''url'', JStr url), (''duration'', jint dur), (''size'', jint sz)]"

definition location_content :: "string \<Rightarrow> string \<Rightarrow> string \<Rightarrow> string \<Rightarrow> json_map" where
  "location_content lat long addr name =
     [(''latitude'', JNum lat), (''longitude'', JNum long), (''address'', JStr addr),
      (''name'', JStr name)]"

definition custom_content :: "string \<Rightarrow> string \<Rightarrow> json_map" where
  "custom_content ty data = [(''type'', JStr ty), (''data'', JStr data)]"

definition system_content ::
  "string \<Rightarrow> string \<Rightarrow> string list \<Rightarrow> string option \<Rightarrow> string \<Rightarrow> string \<Rightarrow> json_map" where
  "system_content action detail related actor actor_type payload =
     [(''action'', JStr action), (''detail'', JStr detail), (''related_user_ids'', jstrs related),
      (''actor_id'', (case actor of None \<Rightarrow> JNull | Some a \<Rightarrow> JStr a)),
      (''actor_type'', JStr actor_type), (''payload'', JStr payload)]"

section \<open>Reading them back\<close>

definition get_str :: "json_map \<Rightarrow> string \<Rightarrow> string" where
  "get_str c k = (case map_of c k of Some (JStr s) \<Rightarrow> s | _ \<Rightarrow> [])"

definition get_bool :: "json_map \<Rightarrow> string \<Rightarrow> bool" where
  "get_bool c k = (case map_of c k of Some (JBool b) \<Rightarrow> b | _ \<Rightarrow> False)"

definition fits :: "nat \<Rightarrow> int \<Rightarrow> bool" where
  "fits w n \<longleftrightarrow> - (2 ^ (w - 1)) \<le> n \<and> n < 2 ^ (w - 1)"

definition get_int :: "nat \<Rightarrow> json_map \<Rightarrow> string \<Rightarrow> int" where
  "get_int w c k =
     (case map_of c k of
        Some (JNum l) \<Rightarrow>
          (case int_of_lexeme l of Some n \<Rightarrow> if fits w n then n else 0 | None \<Rightarrow> 0)
      | _ \<Rightarrow> 0)"

definition get_num :: "json_map \<Rightarrow> string \<Rightarrow> string" where
  "get_num c k = (case map_of c k of Some (JNum l) \<Rightarrow> l | _ \<Rightarrow> ''0'')"

definition str_elem :: "json \<Rightarrow> string" where
  "str_elem v = (case v of JStr s \<Rightarrow> s | _ \<Rightarrow> [])"

definition get_strs :: "json_map \<Rightarrow> string \<Rightarrow> string list" where
  "get_strs c k = (case map_of c k of Some (JArr vs) \<Rightarrow> map str_elem vs | _ \<Rightarrow> [])"

text \<open>A pointer field: \<^verbatim>\<open>null\<close> and a missing key leave it nil; a mismatch leaves an allocated zero.\<close>

definition get_opt_str :: "json_map \<Rightarrow> string \<Rightarrow> string option" where
  "get_opt_str c k =
     (case map_of c k of None \<Rightarrow> None | Some JNull \<Rightarrow> None | Some v \<Rightarrow> Some (str_elem v))"

datatype pb_content =
  Pb_Text string "string list" bool
| Pb_Image string string string int int int string
| Pb_File string string string int string string
| Pb_Video string string string int int int int
| Pb_Audio string string int int
| Pb_Location string string string string
| Pb_System string string "string list" "string option" string string
| Pb_Result string string
| Pb_Custom string string

definition parse_text_content :: "json_map \<Rightarrow> pb_content" where
  "parse_text_content c =
     Pb_Text (get_str c ''text'') (get_strs c ''mention_user_ids'') (get_bool c ''mention_all'')"

definition parse_image_content :: "json_map \<Rightarrow> pb_content" where
  "parse_image_content c =
     Pb_Image (get_str c ''file_id'') (get_str c ''url'') (get_str c ''thumbnail_url'')
       (get_int 32 c ''width'') (get_int 32 c ''height'') (get_int 64 c ''size'')
       (get_str c ''format'')"

definition parse_file_content :: "json_map \<Rightarrow> pb_content" where
  "parse_file_content c =
     Pb_File (get_str c ''file_id'') (get_str c ''url'') (get_str c ''name'') (get_int 64 c ''size'')
       (get_str c ''ext'') (get_str c ''mime_type'')"

definition parse_video_content :: "json_map \<Rightarrow> pb_content" where
  "parse_video_content c =
     Pb_Video (get_str c ''file_id'') (get_str c ''url'') (get_str c ''thumbnail_url'')
       (get_int 32 c ''duration'') (get_int 32 c ''width'') (get_int 32 c ''height'')
       (get_int 64 c ''size'')"

definition parse_audio_content :: "json_map \<Rightarrow> pb_content" where
  "parse_audio_content c =
     Pb_Audio (get_str c ''file_id'') (get_str c ''url'') (get_int 32 c ''duration'')
       (get_int 64 c ''size'')"

definition parse_location_content :: "json_map \<Rightarrow> pb_content" where
  "parse_location_content c =
     Pb_Location (get_num c ''latitude'') (get_num c ''longitude'') (get_str c ''address'')
       (get_str c ''name'')"

definition parse_system_content :: "json_map \<Rightarrow> pb_content" where
  "parse_system_content c =
     Pb_System (get_str c ''action'') (get_str c ''detail'') (get_strs c ''related_user_ids'')
       (get_opt_str c ''actor_id'') (get_str c ''actor_type'') (get_str c ''payload'')"

definition parse_custom_content :: "json_map \<Rightarrow> string \<times> string" where
  "parse_custom_content c = (get_str c ''type'', get_str c ''data'')"

section \<open>The client's message\<close>

record pb_message =
  pb_id :: string
  pb_conv :: string
  pb_seq :: int
  pb_sender :: "string option"
  pb_sender_type :: string
  pb_sender_name :: string
  pb_sender_avatar :: string
  pb_binding :: "string option"
  pb_requester :: "string option"
  pb_raw_payload :: string
  pb_type :: int
  pb_status :: int
  pb_reply_to :: "string option"
  pb_edit_count :: int
  pb_created :: int
  pb_updated :: int
  pb_edited :: int
  pb_content :: "pb_content option"

definition pb_content_of :: "int \<Rightarrow> json_map \<Rightarrow> pb_content option" where
  "pb_content_of ty c =
     (if ty = type_text then Some (parse_text_content c)
      else if ty = type_image then Some (parse_image_content c)
      else if ty = type_file then Some (parse_file_content c)
      else if ty = type_video then Some (parse_video_content c)
      else if ty = type_audio then Some (parse_audio_content c)
      else if ty = type_location then Some (parse_location_content c)
      else if ty = type_system then Some (parse_system_content c)
      else if ty = type_result then (case parse_custom_content c of (t, d) \<Rightarrow> Some (Pb_Result t d))
      else if ty = type_custom then (case parse_custom_content c of (t, d) \<Rightarrow> Some (Pb_Custom t d))
      else None)"

definition model_to_pb_message :: "message \<Rightarrow> pb_message" where
  "model_to_pb_message m =
     (let pb = \<lparr>pb_id = m_id m, pb_conv = m_conv m, pb_seq = m_seq m, pb_sender = m_sender m,
            pb_sender_type = m_sender_type m, pb_sender_name = m_sender_name m,
            pb_sender_avatar = m_sender_avatar m, pb_binding = m_binding m,
            pb_requester = m_requester m, pb_raw_payload = m_raw_payload m, pb_type = m_type m,
            pb_status = m_status m, pb_reply_to = m_reply_to m, pb_edit_count = m_edit_count m,
            pb_created = unix (m_created m), pb_updated = unix (m_updated m),
            pb_edited = (if m_edit_count m > 0 then unix (m_updated m) else 0),
            pb_content = None\<rparr>
      in if m_status m = status_recalled then pb\<lparr>pb_raw_payload := []\<rparr>
         else case m_content m of
             None \<Rightarrow> pb
           | Some c \<Rightarrow> pb\<lparr>pb_content := pb_content_of (m_type m) c\<rparr>)"

section \<open>Contents survive storage\<close>

lemma get_int_jint: "map_of c k = Some (jint n) \<Longrightarrow> fits w n \<Longrightarrow> get_int w c k = n"
  by (simp add: get_int_def jint_def int_of_lexeme_show_int)

lemma get_strs_jstrs: "map_of c k = Some (jstrs xs) \<Longrightarrow> get_strs c k = xs"
  by (auto simp: get_strs_def jstrs_def o_def str_elem_def)

lemmas get_simps = get_str_def get_bool_def get_num_def get_opt_str_def str_elem_def

lemma parse_text_roundtrip: "parse_text_content (text_content t ms all) = Pb_Text t ms all"
  using get_strs_jstrs [of "text_content t ms all" "''mention_user_ids''" ms]
  by (simp add: parse_text_content_def text_content_def get_simps)

lemma parse_image_roundtrip:
  assumes "fits 32 w" "fits 32 h" "fits 64 sz"
  shows "parse_image_content (image_content fid url th w h sz fmt) = Pb_Image fid url th w h sz fmt"
  using assms by (simp add: parse_image_content_def image_content_def get_simps get_int_jint)

lemma parse_file_roundtrip:
  assumes "fits 64 sz"
  shows "parse_file_content (file_content fid url name sz ext mime) = Pb_File fid url name sz ext mime"
  using assms by (simp add: parse_file_content_def file_content_def get_simps get_int_jint)

lemma parse_video_roundtrip:
  assumes "fits 32 dur" "fits 32 w" "fits 32 h" "fits 64 sz"
  shows "parse_video_content (video_content fid url th dur w h sz) = Pb_Video fid url th dur w h sz"
  using assms by (simp add: parse_video_content_def video_content_def get_simps get_int_jint)

lemma parse_audio_roundtrip:
  assumes "fits 32 dur" "fits 64 sz"
  shows "parse_audio_content (audio_content fid url dur sz) = Pb_Audio fid url dur sz"
  using assms by (simp add: parse_audio_content_def audio_content_def get_simps get_int_jint)

lemma parse_location_roundtrip:
  "parse_location_content (location_content lat long addr name) = Pb_Location lat long addr name"
  by (simp add: parse_location_content_def location_content_def get_simps)

lemma parse_system_roundtrip:
  "parse_system_content (system_content action detail related actor aty payload) =
     Pb_System action detail related actor aty payload"
  using get_strs_jstrs [of "system_content action detail related actor aty payload" "''related_user_ids''" related]
  by (simp add: parse_system_content_def system_content_def get_simps split: option.split)

lemma parse_custom_roundtrip: "parse_custom_content (custom_content ty data) = (ty, data)"
  by (simp add: parse_custom_content_def custom_content_def get_simps)

lemmas parse_roundtrips = parse_text_roundtrip parse_image_roundtrip parse_file_roundtrip
  parse_video_roundtrip parse_audio_roundtrip parse_location_roundtrip parse_custom_roundtrip

text \<open>
  A recalled message shows no body to any client: whatever its stored content and bot payload,
  the client's message carries neither, and two rows that differ only in them look the same.
\<close>

theorem recalled_message_hides_body:
  "model_to_pb_message (m\<lparr>m_status := status_recalled, m_content := c, m_raw_payload := raw\<rparr>) =
     (model_to_pb_message (m\<lparr>m_status := status_recalled, m_content := None, m_raw_payload := []\<rparr>))
     \<lparr>pb_raw_payload := [], pb_content := None\<rparr>"
  by (simp add: model_to_pb_message_def Let_def)

end
