(* ===== verification/Messages.thy ===== *)
theory Messages
  imports Message_View
begin

text \<open>
  The message operations of \<^verbatim>\<open>message-service/internal/logic/messageservice\<close> that change state:
  sending (\<^verbatim>\<open>sendMessageLogic.go\<close>, \<^verbatim>\<open>sendSystemMessageLogic.go\<close>), editing, recalling and deleting,
  with the helpers of \<^verbatim>\<open>message_changes.go\<close> and \<^verbatim>\<open>caller.go\<close>, and the row operations of
  \<^verbatim>\<open>message_repo.go\<close> and \<open>ConversationRepo.CheckSendPermission\<close> they use. Each operation is a
  function from the store to an error or a response with the new store; an error leaves the caller
  with the store it had, which is the rollback of the transaction.
\<close>

section \<open>Errors\<close>

definition err_not_member :: err where
  "err_not_member = Biz code_forbidden ''not a member of the conversation''"
definition err_sender_muted :: err where
  "err_sender_muted = Biz code_forbidden ''sender is muted in this conversation''"
definition err_content_conflict :: err where
  "err_content_conflict = Biz code_conflict ''content conflict''"
definition err_user_id_missing :: err where
  "err_user_id_missing = Biz code_unauthorized ''missing user-id in metadata''"
definition err_send_as_other_user :: err where
  "err_send_as_other_user = Biz code_forbidden ''cannot send message as another user''"
definition err_blocked_by_member :: err where
  "err_blocked_by_member = Biz code_forbidden ''you have been blocked by a member of this conversation''"
definition err_edit_not_sender :: err where
  "err_edit_not_sender = Biz code_forbidden ''only the sender can edit this message''"
definition err_edit_window_expired :: err where
  "err_edit_window_expired = Biz code_forbidden ''edit window expired''"
definition err_edit_not_text :: err where
  "err_edit_not_text = Biz code_forbidden ''only text messages can be edited''"
definition err_recall_not_sender :: err where
  "err_recall_not_sender = Biz code_forbidden ''only the sender can recall this message''"
definition err_recall_window_expired :: err where
  "err_recall_window_expired = Biz code_forbidden ''recall window expired''"
definition err_delete_not_sender :: err where
  "err_delete_not_sender = Biz code_forbidden ''only the sender can delete this message''"

lemmas err_defs = err_not_member_def err_sender_muted_def err_content_conflict_def
  err_user_id_missing_def err_send_as_other_user_def err_blocked_by_member_def
  err_edit_not_sender_def err_edit_window_expired_def err_edit_not_text_def
  err_recall_not_sender_def err_recall_window_expired_def err_delete_not_sender_def

definition invalid_param :: "string \<Rightarrow> err" where
  "invalid_param m = Biz code_invalid_param m"

section \<open>The caller\<close>

text \<open>
  The values of the metadata key \<^verbatim>\<open>user-id\<close>; a context without metadata has none.
\<close>

definition caller_user_id :: "env \<Rightarrow> string list \<Rightarrow> string" where
  "caller_user_id env md =
     (case md of [v] \<Rightarrow> if valid_id env v then v else [] | _ \<Rightarrow> [])"

definition validate_identities :: "env \<Rightarrow> string list \<Rightarrow> bool" where
  "validate_identities env ids = list_all (valid_id env) ids"

definition require_caller :: "env \<Rightarrow> string list \<Rightarrow> string \<Rightarrow> err + unit" where
  "require_caller env md uid =
     (let caller = caller_user_id env md in
      if caller = [] then Inl err_user_id_missing
      else if caller \<noteq> uid then Inl err_send_as_other_user
      else Inr ())"

lemma require_caller_Inr [res_simps]:
  "require_caller env md uid = Inr u \<longleftrightarrow> caller_user_id env md = uid \<and> uid \<noteq> []"
  by (auto simp: require_caller_def Let_def)

section \<open>Content of a send request\<close>

text \<open>
  The oneof of \<open>SendMessageReq\<close>. Numbers are the integers of the wire; a double is the lexeme
  \<^verbatim>\<open>encoding/json\<close> prints for it.
\<close>

datatype send_content =
  Send_Text string "string list" bool
| Send_Image string string string int int int string
| Send_File string string string int string string
| Send_Video string string string int int int int
| Send_Audio string string int int
| Send_Attachment string int
| Send_Location string string string string
| Send_Custom string string

record send_req =
  sr_conv :: string
  sr_from :: string
  sr_client_msg_id :: string
  sr_reply_to :: "string option"
  sr_type :: int
  sr_content :: "send_content option"

fun extract_send_content :: "send_content option \<Rightarrow> json_content" where
  "extract_send_content None = None"
| "extract_send_content (Some (Send_Text t ms all)) = Some (text_content t ms all)"
| "extract_send_content (Some (Send_Image fid url thumb w h sz fmt)) =
     Some (image_content fid url thumb w h sz fmt)"
| "extract_send_content (Some (Send_File fid url name sz ext mime)) =
     Some (file_content fid url name sz ext mime)"
| "extract_send_content (Some (Send_Video fid url thumb dur w h sz)) =
     Some (video_content fid url thumb dur w h sz)"
| "extract_send_content (Some (Send_Audio fid url dur sz)) =
     Some (audio_content fid url dur sz)"
| "extract_send_content (Some (Send_Attachment fid dur)) =
     Some [(''file_id'', JStr fid), (''duration'', jint dur)]"
| "extract_send_content (Some (Send_Location lat long addr name)) =
     Some (location_content lat long addr name)"
| "extract_send_content (Some (Send_Custom ty data)) = Some (custom_content ty data)"

text \<open>
  \<open>validateSendContent\<close>: the declared type matches the body, and its identities are valid.
\<close>

fun content_matches :: "int \<Rightarrow> send_content option \<Rightarrow> bool \<times> string list" where
  "content_matches ty None = (False, [])"
| "content_matches ty (Some (Send_Text t ms all)) = (ty = type_text, ms)"
| "content_matches ty (Some (Send_Image fid _ _ _ _ _ _)) = (ty = type_image, [fid])"
| "content_matches ty (Some (Send_File fid _ _ _ _ _)) = (ty = type_file, [fid])"
| "content_matches ty (Some (Send_Video fid _ _ _ _ _ _)) = (ty = type_video, [fid])"
| "content_matches ty (Some (Send_Audio fid _ _ _)) = (ty = type_audio, [fid])"
| "content_matches ty (Some (Send_Attachment fid _)) = (ty = 0, [fid])"
| "content_matches ty (Some (Send_Location _ _ _ _)) = (ty = type_location, [])"
| "content_matches ty (Some (Send_Custom _ _)) = (ty = type_custom, [])"

definition validate_send_content :: "env \<Rightarrow> send_req \<Rightarrow> err + unit" where
  "validate_send_content env req =
     (case content_matches (sr_type req) (sr_content req) of
        (valid, ids) \<Rightarrow>
          if \<not> valid \<or> \<not> validate_identities env ids
          then Inl (invalid_param ''invalid message content'') else Inr ())"

section \<open>The fingerprint of a submission\<close>

definition is_file_type :: "int \<Rightarrow> bool" where
  "is_file_type ty \<longleftrightarrow> type_image \<le> ty \<and> ty \<le> type_audio"

definition has_thumbnail :: "int \<Rightarrow> bool" where
  "has_thumbnail ty \<longleftrightarrow> ty = type_image \<or> ty = type_video"

text \<open>Read-time URLs are blanked, both in the fingerprint and in the stored content.\<close>

definition blank_urls :: "int \<Rightarrow> json_map \<Rightarrow> json_map" where
  "blank_urls ty content =
     (let c = AList.update ''url'' (JStr []) content in
      if has_thumbnail ty then AList.update ''thumbnail_url'' (JStr []) c else c)"

fun json_strings :: "json list \<Rightarrow> string list" where
  "json_strings [] = []"
| "json_strings (JStr s # vs) = s # json_strings vs"
| "json_strings (_ # vs) = json_strings vs"

definition mentions_of :: "json option \<Rightarrow> string list" where
  "mentions_of v = (case v of Some (JArr vs) \<Rightarrow> json_strings vs | _ \<Rightarrow> [])"

definition normal_mentions :: "json_map \<Rightarrow> json_map" where
  "normal_mentions content =
     (case map_of content ''mention_user_ids'' of
        None \<Rightarrow> content
      | Some v \<Rightarrow> AList.update ''mention_user_ids''
          (JArr (map JStr (remdups_adj (sort_by str_le (mentions_of (Some v)))))) content)"

definition normal_data :: "env \<Rightarrow> json_map \<Rightarrow> json_map" where
  "normal_data env content =
     (case map_of content ''data'' of
        Some (JStr s) \<Rightarrow>
          (case json_decode env s of
             Some v \<Rightarrow> AList.update ''data'' (JObj [(''json'', v)]) content
           | None \<Rightarrow> content)
      | _ \<Rightarrow> content)"

definition original_submission :: "env \<Rightarrow> int \<Rightarrow> json_map \<Rightarrow> string option \<Rightarrow> json" where
  "original_submission env ty content reply =
     (let semantic = (if is_file_type ty then blank_urls ty content else content);
          semantic = normal_data env (normal_mentions semantic)
      in JObj [(''type'', jint ty), (''content'', JObj semantic),
               (''reply_to_id'', (case reply of None \<Rightarrow> JNull | Some r \<Rightarrow> JStr r))])"

section \<open>Permission to send\<close>

record send_permission =
  sp_type :: int
  sp_is_member :: bool
  sp_muted_all :: bool
  sp_muted :: bool
  sp_mute_until :: int
  sp_others :: "string list"

definition other_members :: "string \<Rightarrow> string \<Rightarrow> msg_db \<Rightarrow> string list" where
  "other_members cid uid db =
     sort_by str_le (List.map_filter cm_user
       (filter (\<lambda>m. is_human_member cid m \<and> cm_user m \<noteq> None \<and> cm_user m \<noteq> Some uid) (members db)))"

definition check_send_permission :: "env \<Rightarrow> string \<Rightarrow> string \<Rightarrow> msg_db \<Rightarrow> err + send_permission" where
  "check_send_permission env cid uid db =
     rbind (ensure (valid_id env uid) (Plain ''invalid entity identity'')) (\<lambda>_.
     rbind (get_conv cid db) (\<lambda>conv.
       let perm = \<lparr>sp_type = c_type conv, sp_is_member = False, sp_muted_all = c_muted_all conv,
             sp_muted = False, sp_mute_until = 0, sp_others = []\<rparr>
       in case find_member cid uid db of
            Inl RecordNotFound \<Rightarrow> Inr perm
          | Inl e \<Rightarrow> Inl e
          | Inr m \<Rightarrow> Inr (perm\<lparr>sp_is_member := True, sp_muted := cm_muted m,
              sp_mute_until := cm_mute_until m,
              sp_others := (if c_type conv = conv_private then other_members cid uid db else [])\<rparr>)))"

definition muted_now :: "env \<Rightarrow> send_permission \<Rightarrow> bool" where
  "muted_now env p \<longleftrightarrow> sp_muted_all p \<or>
     (sp_muted p \<and> (sp_mute_until p = 0 \<or> unix (now env) < sp_mute_until p))"

definition blocked_pair :: "string \<Rightarrow> string list \<Rightarrow> msg_db \<Rightarrow> bool" where
  "blocked_pair uid others db \<longleftrightarrow>
     (\<exists>(u, v)\<in>set (blocks db). (u = uid \<and> v \<in> set others) \<or> (u \<in> set others \<and> v = uid))"

definition may_send :: "env \<Rightarrow> string \<Rightarrow> string \<Rightarrow> msg_db \<Rightarrow> err + unit" where
  "may_send env cid uid db =
     rbind (check_send_permission env cid uid db) (\<lambda>p.
     rbind (ensure (sp_is_member p) err_not_member) (\<lambda>_.
     rbind (ensure (\<not> muted_now env p) err_sender_muted) (\<lambda>_.
       ensure (\<not> (sp_type p = conv_private \<and> sp_others p \<noteq> [] \<and> blocked_pair uid (sp_others p) db))
         err_blocked_by_member)))"


section \<open>Sending\<close>

text \<open>\<open>validateReplyTarget\<close>; an empty user is the internal caller that sees every message.\<close>

definition validate_reply_target :: "string \<Rightarrow> string \<Rightarrow> string option \<Rightarrow> msg_db \<Rightarrow> err + unit" where
  "validate_reply_target cid uid reply db =
     (case reply of
        None \<Rightarrow> Inr ()
      | Some r \<Rightarrow>
          if \<exists>m\<in>set (msgs db). m_id m = r \<and> m_conv m = cid \<and>
               (uid = [] \<or> (uid, cid, r) \<notin> set (deletions db))
          then Inr ()
          else Inl (invalid_param ''reply message is unavailable in this conversation''))"

definition default_user_name :: string where
  "default_user_name = bytes [0xE7, 0x94, 0xA8, 0xE6, 0x88, 0xB7]"

text \<open>\<open>resolveReplySenderName\<close> for a user: a failed or empty lookup yields the default name.\<close>

definition user_sender_name :: "env \<Rightarrow> string \<Rightarrow> string" where
  "user_sender_name env uid =
     (case profile_name env uid of
        Some n \<Rightarrow> if n \<noteq> [] then n else default_user_name
      | None \<Rightarrow> default_user_name)"

definition hydrate_attachment_content :: "file_info \<Rightarrow> int \<Rightarrow> int \<times> json_map" where
  "hydrate_attachment_content f requested =
     (let dur = (if f_duration f = 0 then requested else f_duration f);
          (kind, content) =
            (if prefix ''image/'' (f_mime f)
             then (type_image, image_content (f_id f) [] [] (f_width f) (f_height f) (f_size f) (f_ext f))
             else if prefix ''video/'' (f_mime f)
             then (type_video, video_content (f_id f) [] [] dur (f_width f) (f_height f) (f_size f))
             else if prefix ''audio/'' (f_mime f)
             then (type_audio, audio_content (f_id f) [] dur (f_size f))
             else (type_file, file_content (f_id f) [] (f_name f) (f_size f) (f_ext f) (f_mime f)))
      in (kind, AList.update ''ext'' (JStr (f_ext f))
            (AList.update ''mime_type'' (JStr (f_mime f))
              (AList.update ''name'' (JStr (f_name f)) content))))"

text \<open>
  The file capability of a new submission: an attachment takes its kind and content from the file
  service, a typed file body is stored without its expiring URLs, other bodies need no file.
\<close>

definition resolve_content ::
  "env \<Rightarrow> string \<Rightarrow> send_req \<Rightarrow> json_map \<Rightarrow> err + (int \<times> json_map)" where
  "resolve_content env caller req content =
     (let attachment = (case sr_content req of Some (Send_Attachment _ dur) \<Rightarrow> Some dur | _ \<Rightarrow> None)
      in if attachment = None \<and> \<not> is_file_type (sr_type req) then Inr (sr_type req, content)
         else case file_client env of
             None \<Rightarrow> Inl (Status Unavailable ''file service unavailable'')
           | Some client \<Rightarrow>
               let fid = get_str content ''file_id'' in
               rbind (client fid caller) (\<lambda>download.
                 case attachment of
                   Some dur \<Rightarrow>
                     (case download of
                        Some f \<Rightarrow>
                          if f_id f = fid then Inr (hydrate_attachment_content f dur)
                          else Inl (Status Internal ''invalid attachment response'')
                      | None \<Rightarrow> Inl (Status Internal ''invalid attachment response''))
                 | None \<Rightarrow> Inr (sr_type req, blank_urls (sr_type req) content)))"

definition build_message_created_payload :: "message \<Rightarrow> string \<Rightarrow> change" where
  "build_message_created_payload m sender_name =
     no_change\<lparr>ch_kind := kind_new, ch_message := Some (m_id m), ch_conv := m_conv m,
       ch_sender := m_sender m, ch_sender_type := m_sender_type m,
       ch_sender_avatar := m_sender_avatar m, ch_binding := m_binding m,
       ch_requester := m_requester m, ch_raw_payload := m_raw_payload m, ch_msg_type := m_type m,
       ch_content := m_content m, ch_seq := m_seq m, ch_reply_to := m_reply_to m,
       ch_created := unix (m_created m), ch_status := m_status m, ch_edit_count := m_edit_count m,
       ch_updated := unix (m_updated m), ch_sender_name := sender_name,
       ch_preview := message_preview (m_type m) (m_content m)\<rparr>"

definition persist_message :: "env \<Rightarrow> message \<Rightarrow> string \<Rightarrow> msg_db \<Rightarrow> err + (message \<times> msg_db)" where
  "persist_message env m0 sender_name db =
     rbind (next_seq env (m_conv m0) db) (\<lambda>(n, db1).
       let m = m0\<lparr>m_seq := n, m_sender_name := sender_name\<rparr> in
       rbind (insert_message m db1) (\<lambda>db2.
       rbind (publish_inbox_change env (build_message_created_payload m sender_name) db2) (\<lambda>db3.
       rbind (touch_last_message env (m_conv m) (m_id m) n
                (message_preview (m_type m) (m_content m)) db3) (\<lambda>db4.
         Inr (m, db4)))))"

definition find_submission :: "string \<Rightarrow> string \<Rightarrow> string \<Rightarrow> msg_db \<Rightarrow> message option" where
  "find_submission uid cid key db =
     find (\<lambda>m. m_sender m = Some uid \<and> m_conv m = cid \<and> m_client_msg_id m = Some key) (msgs db)"

text \<open>The stored fingerprint is encoded, so an absent one is \<^verbatim>\<open>null\<close>.\<close>

definition submission_json :: "message \<Rightarrow> json" where
  "submission_json m = (case m_submission m of None \<Rightarrow> JNull | Some j \<Rightarrow> j)"

definition new_message ::
  "env \<Rightarrow> send_req \<Rightarrow> string \<Rightarrow> json \<Rightarrow> int \<Rightarrow> json_map \<Rightarrow> message" where
  "new_message env req mid submission ty content =
     \<lparr>m_id = mid, m_conv = sr_conv req, m_sender = Some (sr_from req), m_sender_type = ''user'',
      m_sender_name = [], m_sender_avatar = [], m_binding = None, m_requester = None,
      m_raw_payload = [], m_client_msg_id = Some (sr_client_msg_id req), m_seq = 0, m_type = ty,
      m_content = Some content, m_submission = Some submission, m_reply_to = sr_reply_to req,
      m_status = status_normal, m_history = [], m_edit_count = 0, m_created = now env,
      m_updated = now env\<rparr>"

definition send_tx ::
  "env \<Rightarrow> string \<Rightarrow> send_req \<Rightarrow> json_map \<Rightarrow> json \<Rightarrow> msg_db \<Rightarrow> err + (message \<times> msg_db)" where
  "send_tx env caller req content submission db =
     rbind (may_send env (sr_conv req) (sr_from req) db) (\<lambda>_.
     case find_submission (sr_from req) (sr_conv req) (sr_client_msg_id req) db of
       Some m \<Rightarrow>
         if same_submission (submission_json m) submission then Inr (m, db)
         else Inl err_content_conflict
     | None \<Rightarrow>
         rbind (resolve_content env caller req content) (\<lambda>(ty, stored).
         rbind (validate_reply_target (sr_conv req) (sr_from req) (sr_reply_to req) db) (\<lambda>_.
           let (mid, db1) = new_id env db in
           persist_message env (new_message env req mid submission ty stored)
             (user_sender_name env (sr_from req)) db1)))"

text \<open>How \<open>SendMessage\<close> reports a failed transaction.\<close>

fun send_error :: "err \<Rightarrow> err" where
  "send_error RecordNotFound = Biz code_not_found ''conversation not found''"
| "send_error (Biz c m) = Biz c m"
| "send_error (Status c m) = Status c m"
| "send_error _ = Biz code_internal ''insert message failed''"

record send_resp =
  rsp_id :: string
  rsp_seq :: int
  rsp_created :: int
  rsp_message :: "pb_message option"
  rsp_file :: "(string \<times> string \<times> string \<times> string \<times> int) option"

text \<open>\<open>FileMetadata\<close>: file id, name, mime type, extension and size of the stored content.\<close>

definition file_metadata :: "json_map \<Rightarrow> string \<times> string \<times> string \<times> string \<times> int" where
  "file_metadata c = (get_str c ''file_id'', get_str c ''name'', get_str c ''mime_type'',
     get_str c ''ext'', get_int 64 c ''size'')"

definition content_map :: "json_content \<Rightarrow> json_map" where
  "content_map c = (case c of None \<Rightarrow> [] | Some m \<Rightarrow> m)"

definition send_response :: "message \<Rightarrow> send_resp" where
  "send_response m =
     \<lparr>rsp_id = m_id m, rsp_seq = m_seq m, rsp_created = unix (m_created m),
      rsp_message = Some (model_to_pb_message m),
      rsp_file = (if is_file_type (m_type m) then Some (file_metadata (content_map (m_content m)))
                  else None)\<rparr>"

definition send_message ::
  "env \<Rightarrow> string list \<Rightarrow> send_req \<Rightarrow> msg_db \<Rightarrow> err + (send_resp \<times> msg_db)" where
  "send_message env md req db =
     (let caller = caller_user_id env md in
      rbind (ensure (caller \<noteq> []) err_user_id_missing) (\<lambda>_.
      rbind (ensure (validate_identities env [sr_conv req, sr_from req])
               (invalid_param ''invalid sending identity'')) (\<lambda>_.
      rbind (ensure (caller = sr_from req) err_send_as_other_user) (\<lambda>_.
      rbind (ensure (valid_key env (sr_client_msg_id req))
               (invalid_param ''client_msg_id must be a UUIDv4'')) (\<lambda>_.
      rbind (ensure (case sr_reply_to req of None \<Rightarrow> True | Some r \<Rightarrow> valid_id env r)
               (invalid_param ''invalid reply identity'')) (\<lambda>_.
      rbind (validate_send_content env req) (\<lambda>_.
        let content = content_map (extract_send_content (sr_content req));
            submission = original_submission env (sr_type req) content (sr_reply_to req)
        in rbind (map_err send_error (send_tx env caller req content submission db)) (\<lambda>(m, db').
             Inr (send_response m, db')))))))))"

section \<open>System messages\<close>

record system_req =
  sy_conv :: string
  sy_action :: string
  sy_detail :: string
  sy_related :: "string list"
  sy_actor :: "string option"
  sy_actor_type :: string
  sy_payload :: string

fun system_error :: "err \<Rightarrow> err" where
  "system_error RecordNotFound = Biz code_not_found ''conversation not found''"
| "system_error (Biz c m) = Biz c m"
| "system_error _ = Biz code_internal ''insert system message failed''"

definition system_message :: "env \<Rightarrow> system_req \<Rightarrow> string \<Rightarrow> message" where
  "system_message env req mid =
     \<lparr>m_id = mid, m_conv = sy_conv req, m_sender = sy_actor req, m_sender_type = ''system'',
      m_sender_name = [], m_sender_avatar = [], m_binding = None, m_requester = None,
      m_raw_payload = [], m_client_msg_id = None, m_seq = 0, m_type = type_system,
      m_content = Some (system_content (sy_action req) (sy_detail req) (sy_related req)
        (sy_actor req) (sy_actor_type req) (sy_payload req)),
      m_submission = None, m_reply_to = None, m_status = status_normal, m_history = [],
      m_edit_count = 0, m_created = now env, m_updated = now env\<rparr>"

definition send_system_message :: "env \<Rightarrow> system_req \<Rightarrow> msg_db \<Rightarrow> err + (send_resp \<times> msg_db)" where
  "send_system_message env req db =
     rbind (ensure (valid_id env (sy_conv req) \<and> validate_identities env (sy_related req) \<and>
                (case sy_actor req of None \<Rightarrow> True | Some a \<Rightarrow> valid_id env a))
              (invalid_param ''invalid system message identity'')) (\<lambda>_.
       let (mid, db1) = new_id env db in
       rbind (map_err system_error
           (rbind (get_conv (sy_conv req) db1) (\<lambda>_.
              persist_message env (system_message env req mid) (sy_actor_type req) db1)))
         (\<lambda>(m, db2). Inr (\<lparr>rsp_id = mid, rsp_seq = m_seq m, rsp_created = unix (now env),
            rsp_message = None, rsp_file = None\<rparr>, db2)))"


section \<open>Changing a message\<close>

definition get_by_id :: "string \<Rightarrow> msg_db \<Rightarrow> err + message" where
  "get_by_id mid db = take_row (\<lambda>m. m_id m = mid) (msgs db)"

definition upd_msg :: "string \<Rightarrow> (message \<Rightarrow> message) \<Rightarrow> msg_db \<Rightarrow> msg_db" where
  "upd_msg mid f db = db\<lparr>msgs := update_where (\<lambda>m. m_id m = mid) f (msgs db)\<rparr>"

definition update_content_with_tx ::
  "env \<Rightarrow> string \<Rightarrow> json_map \<Rightarrow> json_content list \<Rightarrow> int \<Rightarrow> msg_db \<Rightarrow> msg_db" where
  "update_content_with_tx env mid content history count db =
     upd_msg mid (\<lambda>m. m\<lparr>m_content := Some content, m_history := history, m_edit_count := count,
       m_status := status_edited, m_updated := now env\<rparr>) db"

definition update_status_with_tx :: "env \<Rightarrow> string \<Rightarrow> int \<Rightarrow> msg_db \<Rightarrow> msg_db" where
  "update_status_with_tx env mid st db =
     upd_msg mid (\<lambda>m. m\<lparr>m_status := st, m_updated := now env\<rparr>) db"

definition delete_with_tx :: "string \<Rightarrow> msg_db \<Rightarrow> msg_db" where
  "delete_with_tx mid db = db\<lparr>msgs := filter (\<lambda>m. m_id m \<noteq> mid) (msgs db)\<rparr>"

definition insert_personal_deletion :: "string \<Rightarrow> string \<Rightarrow> string \<Rightarrow> msg_db \<Rightarrow> bool \<times> msg_db" where
  "insert_personal_deletion uid cid mid db =
     (if (uid, cid, mid) \<in> set (deletions db) then (False, db)
      else (True, db\<lparr>deletions := deletions db @ [(uid, cid, mid)]\<rparr>))"

definition message_of :: "string \<Rightarrow> string \<Rightarrow> msg_db \<Rightarrow> err + message" where
  "message_of cid mid db = take_row (\<lambda>m. m_id m = mid \<and> m_conv m = cid) (msgs db)"

definition lock_mutable_message :: "env \<Rightarrow> string \<Rightarrow> string \<Rightarrow> string \<Rightarrow> msg_db \<Rightarrow> err + message" where
  "lock_mutable_message env cid mid uid db =
     rbind (check_send_permission env cid uid db) (\<lambda>p.
     rbind (ensure (sp_is_member p) err_not_member) (\<lambda>_.
     rbind (message_of cid mid db) (\<lambda>m.
     rbind (ensure (m_sender m = Some uid)
              (Biz code_forbidden ''only sender can change a message'')) (\<lambda>_.
       Inr m))))"

text \<open>\<^verbatim>\<open>ORDER BY seq DESC LIMIT 1\<close>: sequences are unique within a conversation.\<close>

fun latest_of :: "message list \<Rightarrow> message option" where
  "latest_of [] = None"
| "latest_of (m # ms) =
     (case latest_of ms of
        None \<Rightarrow> Some m
      | Some x \<Rightarrow> if m_seq x \<le> m_seq m then Some m else Some x)"

definition latest_message :: "string \<Rightarrow> msg_db \<Rightarrow> message option" where
  "latest_message cid db = latest_of (filter (\<lambda>m. m_conv m = cid) (msgs db))"

definition tail_preview :: "message \<Rightarrow> string" where
  "tail_preview m =
     (if m_status m = status_recalled then preview_recalled
      else message_preview (m_type m) (m_content m))"

text \<open>The conversation's tail after a change of kind \<open>kind\<close> to its last message.\<close>

definition changed_tail :: "string \<Rightarrow> message \<Rightarrow> msg_db \<Rightarrow> string option \<times> string" where
  "changed_tail kind m db =
     (if kind = kind_recalled then (Some (m_id m), preview_recalled)
      else if kind = kind_deleted then
        (case latest_message (m_conv m) db of
           None \<Rightarrow> (None, [])
         | Some x \<Rightarrow> (Some (m_id x), tail_preview x))
      else (Some (m_id m), message_preview (m_type m) (m_content m)))"

definition change_payload :: "string \<Rightarrow> message \<Rightarrow> change" where
  "change_payload kind m =
     (let p = (build_message_created_payload m [])\<lparr>ch_kind := kind\<rparr>;
          p = (if m_status m = status_recalled
               then p\<lparr>ch_content := Some [], ch_raw_payload := [], ch_preview := preview_recalled\<rparr>
               else p);
          p = (if kind = kind_deleted then p\<lparr>ch_delete_for_all := True\<rparr> else p)
      in p\<lparr>ch_user := m_sender m\<rparr>)"

definition refresh_tail :: "env \<Rightarrow> string \<Rightarrow> message \<Rightarrow> conversation \<Rightarrow> msg_db \<Rightarrow> msg_db" where
  "refresh_tail env kind m conv db =
     (if c_last_msg conv = Some (m_id m) then
        (case changed_tail kind m db of (tail_id, preview) \<Rightarrow>
           upd_conv (m_conv m) (\<lambda>c. c\<lparr>c_last_msg := tail_id, c_last_preview := preview,
             c_updated := now env\<rparr>) db)
      else db)"

definition publish_message_change :: "env \<Rightarrow> string \<Rightarrow> message \<Rightarrow> msg_db \<Rightarrow> err + msg_db" where
  "publish_message_change env kind m db =
     rbind (get_conv (m_conv m) db) (\<lambda>conv.
       publish_inbox_change env (change_payload kind m) (refresh_tail env kind m conv db))"

section \<open>Editing\<close>

record edit_req =
  ed_message :: string
  ed_user :: string
  ed_conv :: "string option"
  ed_text :: "(string \<times> string list \<times> bool) option"

definition opt_valid :: "env \<Rightarrow> string option \<Rightarrow> bool" where
  "opt_valid env c = (case c of None \<Rightarrow> True | Some v \<Rightarrow> valid_id env v)"

definition conv_agrees :: "string option \<Rightarrow> message \<Rightarrow> err + unit" where
  "conv_agrees c m =
     ensure (case c of None \<Rightarrow> True | Some v \<Rightarrow> v = m_conv m)
       (invalid_param ''conversation does not match message'')"

definition expired :: "env \<Rightarrow> int \<Rightarrow> message \<Rightarrow> bool" where
  "expired env window m \<longleftrightarrow> now env - m_created m > window * second"

text \<open>Transactions of the change operations report business errors as they are.\<close>

fun change_error :: "string \<Rightarrow> err \<Rightarrow> err" where
  "change_error msg (Biz c m) = Biz c m"
| "change_error msg _ = Biz code_internal msg"

definition edited_message :: "env \<Rightarrow> json_map \<Rightarrow> message \<Rightarrow> message" where
  "edited_message env content m =
     m\<lparr>m_content := Some content, m_history := m_history m @ [m_content m],
       m_edit_count := m_edit_count m + 1, m_status := status_edited, m_updated := now env\<rparr>"

definition edit_tx :: "env \<Rightarrow> message \<Rightarrow> string \<Rightarrow> json_map \<Rightarrow> msg_db \<Rightarrow> err + msg_db" where
  "edit_tx env m uid content db =
     rbind (lock_mutable_message env (m_conv m) (m_id m) uid db) (\<lambda>cur.
     rbind (ensure (\<not> expired env (edit_window env) cur) err_edit_window_expired) (\<lambda>_.
     rbind (ensure (m_status cur \<noteq> status_recalled)
              (Biz code_forbidden ''recalled message cannot be edited'')) (\<lambda>_.
       let cur' = edited_message env content cur in
       publish_message_change env kind_edited cur'
         (update_content_with_tx env (m_id cur) content (m_history cur') (m_edit_count cur') db))))"

definition edit_message :: "env \<Rightarrow> string list \<Rightarrow> edit_req \<Rightarrow> msg_db \<Rightarrow> err + msg_db" where
  "edit_message env md req db =
     (case ed_text req of
        None \<Rightarrow> Inl (invalid_param ''invalid edit request'')
      | Some (txt, mentions, all) \<Rightarrow>
          rbind (ensure (validate_identities env [ed_message req, ed_user req] \<and>
                     opt_valid env (ed_conv req) \<and> validate_identities env mentions)
                   (invalid_param ''invalid edit request'')) (\<lambda>_.
          rbind (require_caller env md (ed_user req)) (\<lambda>_.
          rbind (map_err (\<lambda>_. Biz code_not_found ''message not found'')
                   (get_by_id (ed_message req) db)) (\<lambda>m.
          rbind (ensure (m_sender m = Some (ed_user req)) err_edit_not_sender) (\<lambda>_.
          rbind (ensure (\<not> expired env (edit_window env) m) err_edit_window_expired) (\<lambda>_.
          rbind (ensure (m_type m = type_text) err_edit_not_text) (\<lambda>_.
          rbind (conv_agrees (ed_conv req) m) (\<lambda>_.
            map_err (change_error ''update content failed'')
              (edit_tx env m (ed_user req) (text_content txt mentions all) db)))))))))"

section \<open>Recalling\<close>

record recall_req =
  rc_message :: string
  rc_user :: string
  rc_conv :: "string option"

definition recall_tx :: "env \<Rightarrow> message \<Rightarrow> string \<Rightarrow> msg_db \<Rightarrow> err + msg_db" where
  "recall_tx env m uid db =
     rbind (lock_mutable_message env (m_conv m) (m_id m) uid db) (\<lambda>cur.
     rbind (ensure (\<not> expired env (recall_window env) cur) err_recall_window_expired) (\<lambda>_.
       if m_status cur = status_recalled then Inr db
       else publish_message_change env kind_recalled
              (cur\<lparr>m_status := status_recalled, m_updated := now env\<rparr>)
              (update_status_with_tx env (m_id cur) status_recalled db)))"

definition recall_message :: "env \<Rightarrow> string list \<Rightarrow> recall_req \<Rightarrow> msg_db \<Rightarrow> err + msg_db" where
  "recall_message env md req db =
     rbind (ensure (validate_identities env [rc_message req, rc_user req] \<and> opt_valid env (rc_conv req))
              (invalid_param ''invalid recall request'')) (\<lambda>_.
     rbind (require_caller env md (rc_user req)) (\<lambda>_.
     rbind (map_err (\<lambda>_. Biz code_not_found ''message not found'')
              (get_by_id (rc_message req) db)) (\<lambda>m.
     rbind (ensure (m_sender m = Some (rc_user req)) err_recall_not_sender) (\<lambda>_.
     rbind (ensure (\<not> expired env (recall_window env) m) err_recall_window_expired) (\<lambda>_.
     rbind (conv_agrees (rc_conv req) m) (\<lambda>_.
       map_err (change_error ''update status failed'') (recall_tx env m (rc_user req) db)))))))"

section \<open>Deleting\<close>

record delete_req =
  de_message :: string
  de_user :: string
  de_conv :: "string option"
  de_for_all :: bool

definition delete_tx :: "env \<Rightarrow> message \<Rightarrow> string \<Rightarrow> bool \<Rightarrow> msg_db \<Rightarrow> err + msg_db" where
  "delete_tx env m uid for_all db =
     (if for_all then
        rbind (lock_mutable_message env (m_conv m) (m_id m) uid db) (\<lambda>cur.
          publish_message_change env kind_deleted cur (delete_with_tx (m_id cur) db))
      else
        rbind (check_send_permission env (m_conv m) uid db) (\<lambda>p.
        rbind (ensure (sp_is_member p) err_not_member) (\<lambda>_.
        rbind (message_of (m_conv m) (m_id m) db) (\<lambda>cur.
          case insert_personal_deletion uid (m_conv cur) (m_id cur) db of
            (inserted, db1) \<Rightarrow>
              if inserted then
                publish_inbox_change env
                  (no_change\<lparr>ch_kind := kind_deleted, ch_conv := m_conv cur,
                     ch_message := Some (m_id cur), ch_user := Some uid,
                     ch_recipients := Some [uid]\<rparr>) db1
              else Inr db1))))"

definition delete_message :: "env \<Rightarrow> string list \<Rightarrow> delete_req \<Rightarrow> msg_db \<Rightarrow> err + msg_db" where
  "delete_message env md req db =
     rbind (ensure (validate_identities env [de_user req, de_message req] \<and> opt_valid env (de_conv req))
              (invalid_param ''invalid deletion request'')) (\<lambda>_.
     rbind (require_caller env md (de_user req)) (\<lambda>_.
     rbind (map_err (\<lambda>_. Biz code_not_found ''message not found'')
              (get_by_id (de_message req) db)) (\<lambda>m.
     rbind (ensure (de_for_all req \<longrightarrow> m_sender m = Some (de_user req)) err_delete_not_sender) (\<lambda>_.
     rbind (conv_agrees (de_conv req) m) (\<lambda>_.
       map_err (change_error ''delete operation failed'')
         (delete_tx env m (de_user req) (de_for_all req) db))))))"

end
