(* ===== verification/Message_Laws.thy ===== *)
theory Message_Laws
  imports Messages
begin

text \<open>
  Exact effects of the building blocks of the message operations, and their preservation of the
  store's invariant \<open>db_inv\<close> and of the consistency of every conversation's tail \<open>tail_inv\<close>.
\<close>

section \<open>Publishing\<close>

text \<open>The event a change becomes, from the store it is published in.\<close>

definition published_change :: "env \<Rightarrow> change \<Rightarrow> msg_db \<Rightarrow> change" where
  "published_change env ch db =
     ch\<lparr>ch_recipients := (if is_message_kind (ch_kind ch) \<and> ch_recipients ch = None
                            then Some (member_ids (ch_conv ch) db) else ch_recipients ch),
        ch_id := fresh env (next_id db), ch_pub_seq := cur_pub db (ch_conv ch) + 1\<rparr>"

definition publication :: "env \<Rightarrow> change \<Rightarrow> msg_db \<Rightarrow> outbox_event" where
  "publication env ch db =
     \<lparr>o_id = fresh env (next_id db), o_conv = ch_conv ch, o_pub_seq = cur_pub db (ch_conv ch) + 1,
      o_topic = ''message.created'', o_key = ch_conv ch, o_payload = Change (published_change env ch db),
      o_status = outbox_pending, o_retry = 0, o_max_retries = max_retries_default,
      o_next_retry = None, o_last_error = [], o_created = now env, o_dispatched = None\<rparr>"

lemma publication_simps [simp]:
  "o_id (publication env ch db) = fresh env (next_id db)"
  "o_conv (publication env ch db) = ch_conv ch"
  "o_key (publication env ch db) = ch_conv ch"
  "o_pub_seq (publication env ch db) = cur_pub db (ch_conv ch) + 1"
  "o_status (publication env ch db) = outbox_pending"
  "o_payload (publication env ch db) = Change (published_change env ch db)"
  by (simp_all add: publication_def)

lemma insert_outbox_Inr [res_simps]:
  "insert_outbox ev db = Inr db' \<longleftrightarrow>
     (\<forall>e\<in>set (outbox db). o_id e \<noteq> o_id ev \<and> pub_pos e \<noteq> pub_pos ev) \<and>
     db' = db\<lparr>outbox := outbox db @ [ev]\<rparr>"
  by (auto simp: insert_outbox_def pub_pos_def)

lemma publish_inbox_change_Inr:
  "publish_inbox_change env ch db = Inr db' \<longleftrightarrow>
     valid_id env (ch_conv ch) \<and>
     (\<exists>c. convs db (ch_conv ch) = Some c \<and> 0 \<le> c_pub_seq c \<and> c_pub_seq c < seq_max \<and>
        (\<forall>e\<in>set (outbox db). o_id e \<noteq> fresh env (next_id db) \<and>
           pub_pos e \<noteq> (ch_conv ch, c_pub_seq c + 1)) \<and>
        db' = db\<lparr>convs := (convs db)(ch_conv ch \<mapsto> c\<lparr>c_pub_seq := c_pub_seq c + 1, c_updated := now env\<rparr>),
                 next_id := Suc (next_id db), outbox := outbox db @ [publication env ch db]\<rparr>)"
  by (auto simp: publish_inbox_change_def next_publication_Inr res_simps new_id_def Let_def
      pub_pos_def publication_def published_change_def cur_pub_def member_ids_def)

lemma publish_Inr_exists:
  "publish_inbox_change env ch db = Inr db' \<Longrightarrow> \<exists>c. convs db (ch_conv ch) = Some c"
  by (auto simp: publish_inbox_change_Inr)

lemma publish_frame:
  assumes "publish_inbox_change env ch db = Inr db'"
  shows "msgs db' = msgs db" "members db' = members db" "reads db' = reads db"
    "settings db' = settings db" "bindings db' = bindings db" "seqs db' = seqs db"
    "deletions db' = deletions db" "blocks db' = blocks db"
    "outbox db' = outbox db @ [publication env ch db]"
  using assms by (auto simp: publish_inbox_change_Inr)

lemma publish_conv:
  assumes "publish_inbox_change env ch db = Inr db'"
  shows "convs db' k = (if k = ch_conv ch then map_option (\<lambda>c. c\<lparr>c_pub_seq := c_pub_seq c + 1, c_updated := now env\<rparr>) (convs db k)
    else convs db k)"
  using assms by (auto simp: publish_inbox_change_Inr)

lemma publish_inv:
  assumes inv: "db_inv env db" and inj: "inj (fresh env)"
    and pub: "publish_inbox_change env ch db = Inr db'"
  shows "db_inv env db'"
proof -
  from pub obtain c where c: "convs db (ch_conv ch) = Some c" "0 \<le> c_pub_seq c" "c_pub_seq c < seq_max"
    and un: "\<forall>e\<in>set (outbox db). o_id e \<noteq> fresh env (next_id db) \<and>
        pub_pos e \<noteq> (ch_conv ch, c_pub_seq c + 1)"
    and db': "db' = db\<lparr>convs := (convs db)(ch_conv ch \<mapsto> c\<lparr>c_pub_seq := c_pub_seq c + 1, c_updated := now env\<rparr>),
        next_id := Suc (next_id db), outbox := outbox db @ [publication env ch db]\<rparr>"
    by (auto simp: publish_inbox_change_Inr)
  have cs: "cur_seq db' = cur_seq db" by (simp add: db' cur_seq_def fun_eq_iff)
  have nid: "next_id db' = Suc (next_id db)" by (simp add: db')
  have u: "used_id env db' i" if "used_id env db i" for i
    using used_id_mono [OF that, of db'] nid by simp
  have cp: "cur_pub db (ch_conv ch) = c_pub_seq c" by (simp add: cur_pub_def c)
  have "conv_wf db'"
    using inv c cs unfolding db_inv_def conv_wf_def by (auto simp: db' cs)
  moreover have "seq_wf db'" using inv by (simp add: db' db_inv_def seq_wf_def)
  moreover have "msgs_wf env db'" using inv cs u by (auto simp: db_inv_def msgs_wf_def db')
  moreover have "outbox_wf env db'"
    unfolding outbox_wf_def
  proof (intro conjI ballI)
    have pos: "pub_pos (publication env ch db) = (ch_conv ch, c_pub_seq c + 1)"
      by (simp add: pub_pos_def cp)
    show "distinct (map o_id (outbox db'))" "distinct (map pub_pos (outbox db'))"
      using inv un pos by (auto simp: db_inv_def outbox_wf_def db')
    fix e assume e: "e \<in> set (outbox db')"
    have "0 \<le> c_pub_seq c" by (rule c)
    have fu: "used_id env db' (fresh env (next_id db))"
      using fresh_used [OF inj] nid by simp
    have old: "1 \<le> o_pub_seq x \<and> used_id env db (o_id x) \<and>
        (\<forall>k. convs db (o_conv x) = Some k \<longrightarrow> o_pub_seq x \<le> c_pub_seq k)"
      if "x \<in> set (outbox db)" for x
      using inv that by (simp add: db_inv_def outbox_wf_def)
    have old': "1 \<le> o_pub_seq x \<and> used_id env db' (o_id x) \<and>
        (\<forall>k. convs db' (o_conv x) = Some k \<longrightarrow> o_pub_seq x \<le> c_pub_seq k)"
      if "x \<in> set (outbox db)" for x
      using old [OF that] u c by (auto simp: db')
    have new: "1 \<le> o_pub_seq x \<and> used_id env db' (o_id x) \<and>
        (\<forall>k. convs db' (o_conv x) = Some k \<longrightarrow> o_pub_seq x \<le> c_pub_seq k)"
      if "x = publication env ch db" for x
      using that fu c cp by (simp add: db')
    have "e \<in> set (outbox db) \<or> e = publication env ch db" using e by (auto simp: db')
    with old' new show "1 \<le> o_pub_seq e" "used_id env db' (o_id e)"
      "\<forall>k. convs db' (o_conv e) = Some k \<longrightarrow> o_pub_seq e \<le> c_pub_seq k"
      by blast+
  qed
  ultimately show ?thesis by (simp add: db_inv_def)
qed

section \<open>Message rows\<close>

lemma insert_message_Inr [res_simps]:
  "insert_message m db = Inr db' \<longleftrightarrow>
     (\<forall>x\<in>set (msgs db). m_id x \<noteq> m_id m \<and> msg_pos x \<noteq> msg_pos m \<and>
        \<not> (m_client_msg_id m \<noteq> None \<and> m_sender m \<noteq> None \<and> m_sender x = m_sender m \<and>
           m_conv x = m_conv m \<and> m_client_msg_id x = m_client_msg_id m)) \<and>
     db' = db\<lparr>msgs := msgs db @ [m]\<rparr>"
  by (auto simp: insert_message_def msg_pos_def)

text \<open>Row updates that keep identity and position keep the invariant.\<close>

lemma map_upd_msg [table_simps]:
  "(\<And>m. k (f m) = k m) \<Longrightarrow> map k (msgs (upd_msg mid f db)) = map k (msgs db)"
  by (simp add: upd_msg_def map_update_where)

lemma upd_msg_frame [simp]:
  "convs (upd_msg mid f db) = convs db" "outbox (upd_msg mid f db) = outbox db"
  "seqs (upd_msg mid f db) = seqs db" "members (upd_msg mid f db) = members db"
  "deletions (upd_msg mid f db) = deletions db" "next_id (upd_msg mid f db) = next_id db"
  "blocks (upd_msg mid f db) = blocks db" "reads (upd_msg mid f db) = reads db"
  "bindings (upd_msg mid f db) = bindings db" "settings (upd_msg mid f db) = settings db"
  by (simp_all add: upd_msg_def)

lemma cur_seq_cong: "seqs db' = seqs db \<Longrightarrow> cur_seq db' = cur_seq db"
  by (simp add: cur_seq_def fun_eq_iff)

lemma upd_msg_inv:
  assumes "db_inv env db" and "\<And>m. m_id (f m) = m_id m" "\<And>m. m_conv (f m) = m_conv m"
    "\<And>m. m_seq (f m) = m_seq m"
  shows "db_inv env (upd_msg mid f db)"
proof -
  have "map msg_pos (msgs (upd_msg mid f db)) = map msg_pos (msgs db)"
    "map m_id (msgs (upd_msg mid f db)) = map m_id (msgs db)"
    using assms by (auto simp: msg_pos_def intro!: map_upd_msg)
  moreover have "\<exists>m'\<in>set (msgs db). m_id m = m_id m' \<and> m_conv m = m_conv m' \<and> m_seq m = m_seq m'"
    if "m \<in> set (msgs (upd_msg mid f db))" for m
    using that assms by (auto simp: upd_msg_def set_update_where)
  ultimately show ?thesis
    using assms(1)
    by (auto simp: db_inv_defs used_id_def cur_seq_cong [of "upd_msg mid f db" db]) metis+
qed

lemma delete_with_tx_inv: "db_inv env db \<Longrightarrow> db_inv env (delete_with_tx mid db)"
  by (auto simp: db_inv_defs used_id_def delete_with_tx_def cur_seq_def distinct_map_filter)

lemma insert_personal_deletion_inv:
  "insert_personal_deletion uid cid mid db = (b, db') \<Longrightarrow> db_inv env db \<Longrightarrow> db_inv env db'"
  by (auto simp: insert_personal_deletion_def db_inv_defs used_id_def cur_seq_def split: if_splits)

section \<open>Persisting\<close>

lemma persist_message_elim:
  assumes "persist_message env m0 nm db = Inr (m, db')"
  obtains c where "valid_id env (m_conv m0)" "convs db (m_conv m0) = Some c"
    "0 \<le> c_pub_seq c" "c_pub_seq c < seq_max"
    "seqs db (m_conv m0) = None \<or> cur_seq db (m_conv m0) < seq_max"
    "m = m0\<lparr>m_seq := cur_seq db (m_conv m0) + 1, m_sender_name := nm\<rparr>"
    "\<forall>x\<in>set (msgs db). m_id x \<noteq> m_id m \<and> msg_pos x \<noteq> msg_pos m \<and>
       \<not> (m_client_msg_id m \<noteq> None \<and> m_sender m \<noteq> None \<and> m_sender x = m_sender m \<and>
          m_conv x = m_conv m \<and> m_client_msg_id x = m_client_msg_id m)"
    "\<forall>e\<in>set (outbox db). o_id e \<noteq> fresh env (next_id db) \<and>
       pub_pos e \<noteq> (m_conv m0, c_pub_seq c + 1)"
    "db' = db\<lparr>seqs := (seqs db)(m_conv m0 \<mapsto> m_seq m), msgs := msgs db @ [m],
       convs := (convs db)(m_conv m0 \<mapsto> c\<lparr>c_pub_seq := c_pub_seq c + 1, c_last_msg := Some (m_id m),
          c_last_preview := message_preview (m_type m) (m_content m), c_max_seq := m_seq m,
          c_updated := now env\<rparr>),
       next_id := Suc (next_id db),
       outbox := outbox db @ [publication env (build_message_created_payload m nm) db]\<rparr>"
proof -
  have conv: "ch_conv (build_message_created_payload x nm) = m_conv x" for x
    by (simp add: build_message_created_payload_def no_change_def)
  have pubeq: "publication env ch (db\<lparr>seqs := s, msgs := ms\<rparr>) = publication env ch db" for ch s ms
    by (simp add: publication_def published_change_def cur_pub_def member_ids_def)
  show thesis
    using assms that
    by (fastforce simp: persist_message_def next_seq_Inr res_simps publish_inbox_change_Inr conv
        pubeq touch_last_message_def upd_conv_def Let_def split: option.splits)
qed


lemma cur_seq_nonneg: "db_inv env db \<Longrightarrow> 0 \<le> cur_seq db k"
proof (cases "seqs db k")
  case (Some n)
  assume "db_inv env db"
  then have "1 \<le> n" using Some by (simp add: db_inv_def seq_wf_def)
  with Some show ?thesis by (simp add: cur_seq_def)
qed (simp add: cur_seq_def)

text \<open>A new row at the next position of its conversation.\<close>

definition append_row :: "message \<Rightarrow> msg_db \<Rightarrow> msg_db" where
  "append_row m db = db\<lparr>seqs := (seqs db)(m_conv m \<mapsto> m_seq m), msgs := msgs db @ [m]\<rparr>"

lemma cur_seq_append_row: "cur_seq (append_row m db) k = (if k = m_conv m then m_seq m else cur_seq db k)"
  by (simp add: append_row_def cur_seq_def)

lemma used_id_append_row: "used_id env (append_row m db) i = used_id env db i"
  by (simp add: used_id_def append_row_def)

lemma append_row_frame:
  "convs (append_row m db) = convs db" "outbox (append_row m db) = outbox db"
  "next_id (append_row m db) = next_id db" "members (append_row m db) = members db"
  "msgs (append_row m db) = msgs db @ [m]"
  "seqs (append_row m db) = (seqs db)(m_conv m \<mapsto> m_seq m)"
  by (simp_all add: append_row_def)

lemma append_row_inv:
  assumes inv: "db_inv env db" and used: "used_id env db (m_id m)"
    and seqm: "m_seq m = cur_seq db (m_conv m) + 1" "m_seq m \<le> seq_max"
    and un: "\<forall>x\<in>set (msgs db). m_id x \<noteq> m_id m \<and> msg_pos x \<noteq> msg_pos m"
  shows "db_inv env (append_row m db)"
proof -
  have mono: "cur_seq db k \<le> cur_seq (append_row m db) k" for k
    by (simp add: cur_seq_append_row seqm)
  have "conv_wf (append_row m db)"
    unfolding conv_wf_def append_row_frame
  proof (intro allI impI)
    fix cid c assume "convs db cid = Some c"
    then have "c_id c = cid \<and> 0 \<le> c_pub_seq c \<and> c_pub_seq c \<le> seq_max \<and> 0 \<le> c_max_seq c \<and>
        c_max_seq c \<le> cur_seq db cid"
      using inv by (simp add: db_inv_def conv_wf_def)
    then show "c_id c = cid \<and> 0 \<le> c_pub_seq c \<and> c_pub_seq c \<le> seq_max \<and> 0 \<le> c_max_seq c \<and>
        c_max_seq c \<le> cur_seq (append_row m db) cid"
      using mono [of cid] by linarith
  qed
  moreover have "seq_wf (append_row m db)"
    using inv seqm cur_seq_nonneg [OF inv, of "m_conv m"]
    by (simp add: db_inv_def seq_wf_def append_row_frame)
  moreover have "msgs_wf env (append_row m db)"
    unfolding msgs_wf_def append_row_frame used_id_append_row
  proof (intro conjI)
    show "distinct (map m_id (msgs db @ [m]))" "distinct (map msg_pos (msgs db @ [m]))"
      using inv un by (auto simp: db_inv_def msgs_wf_def)
    have "1 \<le> m_seq x \<and> m_seq x \<le> cur_seq (append_row m db) (m_conv x) \<and> used_id env db (m_id x)"
      if "x \<in> set (msgs db)" for x
    proof -
      have "1 \<le> m_seq x \<and> m_seq x \<le> cur_seq db (m_conv x) \<and> used_id env db (m_id x)"
        using inv that by (simp add: db_inv_def msgs_wf_def)
      with mono [of "m_conv x"] show ?thesis by linarith
    qed
    moreover have "1 \<le> m_seq m \<and> m_seq m \<le> cur_seq (append_row m db) (m_conv m)"
      using seqm cur_seq_nonneg [OF inv, of "m_conv m"] by (simp add: cur_seq_append_row)
    ultimately show "\<forall>x\<in>set (msgs db @ [m]). 1 \<le> m_seq x \<and>
        m_seq x \<le> cur_seq (append_row m db) (m_conv x) \<and> used_id env db (m_id x)"
      using used by auto
  qed
  moreover have "outbox_wf env (append_row m db)"
    using inv by (simp add: db_inv_def outbox_wf_def append_row_frame used_id_append_row)
  ultimately show ?thesis by (simp add: db_inv_def)
qed

lemma touch_inv:
  assumes inv: "db_inv env db" and touch: "touch_last_message env cid mid (cur_seq db cid) p db = Inr db'"
  shows "db_inv env db'"
proof -
  from touch obtain c where c: "convs db cid = Some c"
    and db': "db' = upd_conv cid (\<lambda>c. c\<lparr>c_last_msg := Some mid, c_last_preview := p,
          c_max_seq := cur_seq db cid, c_updated := now env\<rparr>) db"
    by (auto simp: touch_last_message_def split: option.splits)
  have fr: "seqs db' = seqs db" "msgs db' = msgs db" "outbox db' = outbox db" "next_id db' = next_id db"
    by (simp_all add: db' upd_conv_def)
  have cs: "cur_seq db' = cur_seq db" by (rule cur_seq_cong) (rule fr)
  have u: "used_id env db' i = used_id env db i" for i by (simp add: used_id_def fr)
  have cv: "convs db' k = Some c' \<Longrightarrow> \<exists>x. convs db k = Some x \<and> c_id c' = c_id x \<and>
      c_pub_seq c' = c_pub_seq x \<and> (c_max_seq c' = c_max_seq x \<or> c_max_seq c' = cur_seq db k)" for k c'
    by (auto simp: db' upd_conv_def split: if_splits)
  have "conv_wf db'"
    unfolding conv_wf_def
  proof (intro allI impI)
    fix k c' assume "convs db' k = Some c'"
    then obtain x where x: "convs db k = Some x" "c_id c' = c_id x" "c_pub_seq c' = c_pub_seq x"
        "c_max_seq c' = c_max_seq x \<or> c_max_seq c' = cur_seq db k"
      using cv by blast
    then have "c_id x = k \<and> 0 \<le> c_pub_seq x \<and> c_pub_seq x \<le> seq_max \<and> 0 \<le> c_max_seq x \<and>
        c_max_seq x \<le> cur_seq db k"
      using inv by (simp add: db_inv_def conv_wf_def)
    with x cur_seq_nonneg [OF inv, of k]
    show "c_id c' = k \<and> 0 \<le> c_pub_seq c' \<and> c_pub_seq c' \<le> seq_max \<and> 0 \<le> c_max_seq c' \<and>
        c_max_seq c' \<le> cur_seq db' k"
      unfolding cs by auto
  qed
  moreover have "seq_wf db'" "msgs_wf env db'"
    using inv by (simp_all add: db_inv_def seq_wf_def msgs_wf_def fr cs u)
  moreover have "outbox_wf env db'"
    unfolding outbox_wf_def fr u
  proof (intro conjI ballI allI impI)
    fix e k assume "e \<in> set (outbox db)" "convs db' (o_conv e) = Some k"
    then show "o_pub_seq e \<le> c_pub_seq k"
      using inv cv [of "o_conv e" k] by (auto simp: db_inv_def outbox_wf_def)
  qed (use inv in \<open>simp_all add: db_inv_def outbox_wf_def\<close>)
  ultimately show ?thesis by (simp add: db_inv_def)
qed

lemma persist_steps:
  assumes "persist_message env m0 nm db = Inr (m, db')"
  obtains db1 db2 where
    "m = m0\<lparr>m_seq := cur_seq db (m_conv m0) + 1, m_sender_name := nm\<rparr>" "m_seq m \<le> seq_max"
    "\<forall>x\<in>set (msgs db). m_id x \<noteq> m_id m \<and> msg_pos x \<noteq> msg_pos m"
    "db1 = append_row m db"
    "publish_inbox_change env (build_message_created_payload m nm) db1 = Inr db2"
    "touch_last_message env (m_conv m) (m_id m) (m_seq m)
       (message_preview (m_type m) (m_content m)) db2 = Inr db'"
proof -
  from assms obtain n db1 db2 db3 where
    n: "next_seq env (m_conv m0) db = Inr (n, db1)"
    and ins: "insert_message (m0\<lparr>m_seq := n, m_sender_name := nm\<rparr>) db1 = Inr db2"
    and pub: "publish_inbox_change env (build_message_created_payload (m0\<lparr>m_seq := n, m_sender_name := nm\<rparr>) nm) db2 = Inr db3"
    and touch: "touch_last_message env (m_conv m0) (m_id m0) n (message_preview (m_type m0) (m_content m0)) db3 = Inr db'"
    and m: "m = m0\<lparr>m_seq := n, m_sender_name := nm\<rparr>"
    by (auto simp: persist_message_def rbind_eq_Inr Let_def)
  show thesis
  proof (rule that [OF _ _ _ refl])
    show "m = m0\<lparr>m_seq := cur_seq db (m_conv m0) + 1, m_sender_name := nm\<rparr>"
      using n m by (simp add: next_seq_Inr)
    show "m_seq m \<le> seq_max" using n m msg_seq.alloc_bound by fastforce
    show "\<forall>x\<in>set (msgs db). m_id x \<noteq> m_id m \<and> msg_pos x \<noteq> msg_pos m"
      using ins n m by (auto simp: insert_message_Inr next_seq_Inr)
    have "db2 = append_row m db" using ins n m by (auto simp: insert_message_Inr next_seq_Inr append_row_def)
    with pub m show "publish_inbox_change env (build_message_created_payload m nm) (append_row m db) = Inr db3"
      by simp
    show "touch_last_message env (m_conv m) (m_id m) (m_seq m)
       (message_preview (m_type m) (m_content m)) db3 = Inr db'"
      using touch m by simp
  qed
qed

lemma persist_inv:
  assumes inv: "db_inv env db" and inj: "inj (fresh env)" and used: "used_id env db (m_id m0)"
    and run: "persist_message env m0 nm db = Inr (m, db')"
  shows "db_inv env db'"
  using run
proof (rule persist_steps)
  fix db1 db2
  assume m: "m = m0\<lparr>m_seq := cur_seq db (m_conv m0) + 1, m_sender_name := nm\<rparr>" "m_seq m \<le> seq_max"
    and un: "\<forall>x\<in>set (msgs db). m_id x \<noteq> m_id m \<and> msg_pos x \<noteq> msg_pos m"
    and db1: "db1 = append_row m db"
    and pub: "publish_inbox_change env (build_message_created_payload m nm) db1 = Inr db2"
    and touch: "touch_last_message env (m_conv m) (m_id m) (m_seq m)
       (message_preview (m_type m) (m_content m)) db2 = Inr db'"
  have "db_inv env db1"
    unfolding db1 using inv used m un by (intro append_row_inv) simp_all
  then have inv2: "db_inv env db2" using inj pub by (rule publish_inv)
  have "cur_seq db2 (m_conv m) = m_seq m"
    using publish_frame(6) [OF pub] by (simp add: db1 cur_seq_def append_row_frame)
  with touch have "touch_last_message env (m_conv m) (m_id m) (cur_seq db2 (m_conv m))
      (message_preview (m_type m) (m_content m)) db2 = Inr db'" by simp
  with inv2 show ?thesis by (rule touch_inv)
qed

end
