(* ===== verification/Message_Tail.thy ===== *)
theory Message_Tail
  imports Message_Laws
begin

text \<open>
  The conversation list shows each conversation with its last message: \<open>tail_inv\<close> says that the
  denormalised tail of every conversation row (\<^verbatim>\<open>last_message_id\<close>, \<^verbatim>\<open>last_message_preview\<close>) is the
  message with the highest sequence and its current preview. The building blocks keep it.
\<close>

section \<open>The latest message\<close>

lemma latest_of_None [simp]: "latest_of ms = None \<longleftrightarrow> ms = []"
  by (cases ms) (auto split: option.splits)

lemma latest_of_SomeD: "latest_of ms = Some x \<Longrightarrow> x \<in> set ms \<and> (\<forall>y\<in>set ms. m_seq y \<le> m_seq x)"
proof (induction ms arbitrary: x)
  case (Cons m ms)
  show ?case
  proof (cases "latest_of ms")
    case None
    with Cons.prems show ?thesis by simp
  next
    case (Some z)
    with Cons.IH Cons.prems show ?thesis by (fastforce split: if_splits)
  qed
qed simp

lemma latest_ofI:
  assumes "x \<in> set ms" "\<And>y. y \<in> set ms \<Longrightarrow> y \<noteq> x \<Longrightarrow> m_seq y < m_seq x"
  shows "latest_of ms = Some x"
proof -
  obtain z where z: "latest_of ms = Some z" using assms(1) by (cases "latest_of ms") auto
  then have "z \<in> set ms" "m_seq x \<le> m_seq z" using latest_of_SomeD assms(1) by blast+
  with assms(2) [of z] have "z = x" by force
  with z show ?thesis by simp
qed

lemma latest_of_map:
  assumes "\<And>m. m_seq (g m) = m_seq m"
  shows "latest_of (map g ms) = map_option g (latest_of ms)"
  by (induction ms) (auto simp: assms split: option.splits)

lemma latest_of_append_max:
  assumes "\<And>y. y \<in> set ms \<Longrightarrow> m_seq y < m_seq x"
  shows "latest_of (ms @ [x]) = Some x"
  by (rule latest_ofI) (use assms in auto)

lemma latest_of_filter:
  assumes "latest_of ms = Some x" "P x"
    and "\<And>y. y \<in> set ms \<Longrightarrow> m_seq y = m_seq x \<Longrightarrow> y = x"
  shows "latest_of (filter P ms) = Some x"
proof (rule latest_ofI)
  note D = latest_of_SomeD [OF assms(1)]
  show "x \<in> set (filter P ms)" using D assms(2) by simp
  fix y assume "y \<in> set (filter P ms)" "y \<noteq> x"
  with D assms(3) [of y] show "m_seq y < m_seq x" by force
qed

lemma latest_message_upd:
  assumes "\<And>m. m_seq (f m) = m_seq m" "\<And>m. m_conv (f m) = m_conv m"
  shows "latest_message cid (upd_msg mid f db) =
    map_option (\<lambda>m. if m_id m = mid then f m else m) (latest_message cid db)"
proof -
  have "filter (\<lambda>m. m_conv m = cid) (msgs (upd_msg mid f db)) =
      map (\<lambda>m. if m_id m = mid then f m else m) (filter (\<lambda>m. m_conv m = cid) (msgs db))"
    using assms(2) unfolding upd_msg_def update_where_def by (auto simp: filter_map o_def if_distrib cong: if_cong)
  then show ?thesis
    unfolding latest_message_def using assms(1) by (auto intro!: latest_of_map)
qed

lemma latest_messageD:
  "latest_message cid db = Some x \<Longrightarrow> x \<in> set (msgs db) \<and> m_conv x = cid"
  unfolding latest_message_def by (auto dest: latest_of_SomeD)

lemma latest_message_cong:
  "msgs db' = msgs db \<Longrightarrow> latest_message cid db' = latest_message cid db"
  by (simp add: latest_message_def)

section \<open>The tail invariant\<close>

definition tail_of :: "message option \<Rightarrow> string option \<times> string" where
  "tail_of x = (case x of None \<Rightarrow> (None, []) | Some m \<Rightarrow> (Some (m_id m), tail_preview m))"

definition tail_inv :: "msg_db \<Rightarrow> bool" where
  "tail_inv db \<longleftrightarrow> (\<forall>cid c. convs db cid = Some c \<longrightarrow>
     (c_last_msg c, c_last_preview c) = tail_of (latest_message cid db))"

lemma tail_invD:
  "tail_inv db \<Longrightarrow> convs db cid = Some c \<Longrightarrow>
     (c_last_msg c, c_last_preview c) = tail_of (latest_message cid db)"
  by (simp add: tail_inv_def)

lemma tail_inv_empty: "tail_inv empty_db"
  by (simp add: tail_inv_def empty_db_def)

text \<open>Steps that keep the messages and the tail columns keep the invariant.\<close>

lemma tail_inv_frame:
  assumes "tail_inv db" "msgs db' = msgs db"
    and "\<And>cid c'. convs db' cid = Some c' \<Longrightarrow>
      \<exists>c. convs db cid = Some c \<and> c_last_msg c' = c_last_msg c \<and> c_last_preview c' = c_last_preview c"
  shows "tail_inv db'"
  unfolding tail_inv_def
proof (intro allI impI)
  fix cid c' assume "convs db' cid = Some c'"
  then obtain c where "convs db cid = Some c" "c_last_msg c' = c_last_msg c"
      "c_last_preview c' = c_last_preview c"
    using assms(3) by blast
  with tail_invD [OF assms(1)] show "(c_last_msg c', c_last_preview c') = tail_of (latest_message cid db')"
    by (simp add: latest_message_cong [OF assms(2)])
qed

lemma publish_tail_inv:
  assumes "tail_inv db" "publish_inbox_change env ch db = Inr db'"
  shows "tail_inv db'"
  using assms(1) publish_frame(1) [OF assms(2)]
  by (rule tail_inv_frame) (auto simp: publish_conv [OF assms(2)] split: if_splits)

lemma persist_tail_inv:
  assumes inv: "db_inv env db" and tail: "tail_inv db" and normal: "m_status m0 \<noteq> status_recalled"
    and run: "persist_message env m0 nm db = Inr (m, db')"
  shows "tail_inv db'"
  using run
proof (rule persist_steps)
  fix db1 db2
  assume m: "m = m0\<lparr>m_seq := cur_seq db (m_conv m0) + 1, m_sender_name := nm\<rparr>"
    and db1: "db1 = append_row m db"
    and pub: "publish_inbox_change env (build_message_created_payload m nm) db1 = Inr db2"
    and touch: "touch_last_message env (m_conv m) (m_id m) (m_seq m)
       (message_preview (m_type m) (m_content m)) db2 = Inr db'"
  have conv: "ch_conv (build_message_created_payload m nm) = m_conv m"
    by (simp add: build_message_created_payload_def no_change_def)
  have ms: "msgs db' = msgs db @ [m]"
    using touch publish_frame(1) [OF pub]
    by (auto simp: touch_last_message_def upd_conv_def db1 append_row_def split: option.splits)
  have new: "latest_message (m_conv m) db' = Some m"
    unfolding latest_message_def ms
  proof (simp, rule latest_of_append_max)
    fix y assume "y \<in> set (filter (\<lambda>x. m_conv x = m_conv m) (msgs db))"
    then have "m_seq y \<le> cur_seq db (m_conv m)" using inv by (auto simp: db_inv_def msgs_wf_def)
    then show "m_seq y < m_seq m" by (simp add: m)
  qed
  have old: "latest_message cid db' = latest_message cid db" if "cid \<noteq> m_conv m" for cid
    using that by (simp add: latest_message_def ms)
  have cv: "convs db' k = (if k = m_conv m
      then map_option (\<lambda>c. c\<lparr>c_last_msg := Some (m_id m), c_last_preview := message_preview (m_type m) (m_content m),
          c_max_seq := m_seq m, c_updated := now env\<rparr>) (convs db2 k) else convs db2 k)" for k
    using touch by (auto simp: touch_last_message_def upd_conv_def split: option.splits)
  have cv2: "convs db2 k = convs db k" if "k \<noteq> m_conv m" for k
    using publish_conv [OF pub, of k] that by (simp add: conv db1 append_row_frame)
  have pv: "tail_preview m = message_preview (m_type m) (m_content m)"
    using normal by (simp add: tail_preview_def m)
  show ?thesis
    unfolding tail_inv_def
  proof (intro allI impI)
    fix cid c assume c: "convs db' cid = Some c"
    show "(c_last_msg c, c_last_preview c) = tail_of (latest_message cid db')"
    proof (cases "cid = m_conv m")
      case True
      with c cv [of cid] show ?thesis
        by (cases "convs db2 (m_conv m)") (auto simp: new tail_of_def pv)
    next
      case False
      with c cv [of cid] cv2 [of cid] have "convs db cid = Some c" by simp
      from tail_invD [OF tail this] False show ?thesis by (simp add: old)
    qed
  qed
qed

section \<open>Changes of one message\<close>

lemma refresh_tail_frame [simp]:
  "msgs (refresh_tail env kind m conv db) = msgs db"
  "members (refresh_tail env kind m conv db) = members db"
  "outbox (refresh_tail env kind m conv db) = outbox db"
  "seqs (refresh_tail env kind m conv db) = seqs db"
  "deletions (refresh_tail env kind m conv db) = deletions db"
  "next_id (refresh_tail env kind m conv db) = next_id db"
  by (simp_all add: refresh_tail_def upd_conv_def split: prod.split)

lemma refresh_tail_convs:
  "convs (refresh_tail env kind m conv db) k =
     (if c_last_msg conv = Some (m_id m) \<and> k = m_conv m
      then map_option (\<lambda>c. c\<lparr>c_last_msg := fst (changed_tail kind m db),
             c_last_preview := snd (changed_tail kind m db), c_updated := now env\<rparr>) (convs db k)
      else convs db k)"
  by (simp add: refresh_tail_def upd_conv_def split: prod.split)

lemma refresh_tail_inv: "db_inv env' db \<Longrightarrow> db_inv env' (refresh_tail env kind m conv db)"
  by (rule same_core_inv [of db]) (auto simp: same_core_def refresh_tail_convs split: if_splits)

lemma publish_message_change_Inr:
  "publish_message_change env kind m db = Inr db' \<longleftrightarrow>
     (\<exists>conv. convs db (m_conv m) = Some conv \<and>
        publish_inbox_change env (change_payload kind m) (refresh_tail env kind m conv db) = Inr db')"
  by (auto simp: publish_message_change_def get_conv_def res_simps)

lemma publish_message_change_inv:
  assumes "db_inv env db" "inj (fresh env)" "publish_message_change env kind m db = Inr db'"
  shows "db_inv env db'"
  using assms publish_inv refresh_tail_inv unfolding publish_message_change_Inr by blast

text \<open>
  The tail is right again after a change when the refreshed columns are: for the conversation whose
  last message changed they are recomputed, for the others the latest message is untouched.
\<close>

lemma publish_message_change_tail:
  assumes pub: "publish_message_change env kind m db1 = Inr db'"
    and tail: "tail_inv db" and convs: "convs db1 = convs db"
    and others: "\<And>cid. cid \<noteq> m_conv m \<Longrightarrow> latest_message cid db1 = latest_message cid db"
    and hit: "\<And>x. latest_message (m_conv m) db = Some x \<Longrightarrow> m_id x = m_id m \<Longrightarrow>
       changed_tail kind m db1 = tail_of (latest_message (m_conv m) db1)"
    and miss: "(\<And>x. latest_message (m_conv m) db = Some x \<Longrightarrow> m_id x \<noteq> m_id m) \<Longrightarrow>
       latest_message (m_conv m) db1 = latest_message (m_conv m) db"
  shows "tail_inv db'"
proof -
  from pub obtain conv where conv: "convs db1 (m_conv m) = Some conv"
    and p: "publish_inbox_change env (change_payload kind m) (refresh_tail env kind m conv db1) = Inr db'"
    by (auto simp: publish_message_change_Inr)
  let ?db2 = "refresh_tail env kind m conv db1"
  have lm: "latest_message cid ?db2 = latest_message cid db1" for cid
    by (rule latest_message_cong) simp
  have t: "(c_last_msg conv, c_last_preview conv) = tail_of (latest_message (m_conv m) db)"
    using tail conv convs by (simp add: tail_inv_def)
  have "tail_inv ?db2"
    unfolding tail_inv_def
  proof (intro allI impI)
    fix cid c assume c: "convs ?db2 cid = Some c"
    show "(c_last_msg c, c_last_preview c) = tail_of (latest_message cid ?db2)"
    proof (cases "cid = m_conv m")
      case False
      with c convs have "convs db cid = Some c" by (simp add: refresh_tail_convs)
      with tail_invD [OF tail] others [OF False] show ?thesis by (simp add: lm)
    next
      case cid: True
      show ?thesis
      proof (cases "c_last_msg conv = Some (m_id m)")
        case True
        then obtain x where "latest_message (m_conv m) db = Some x" "m_id x = m_id m"
          using t by (auto simp: tail_of_def split: option.splits)
        with hit have "changed_tail kind m db1 = tail_of (latest_message (m_conv m) db1)" by blast
        with True c cid conv show ?thesis by (auto simp: refresh_tail_convs lm prod_eq_iff)
      next
        case False
        then have "latest_message (m_conv m) db1 = latest_message (m_conv m) db"
          using t by (intro miss) (auto simp: tail_of_def)
        with False c cid conv t lm [of cid] show ?thesis by (auto simp: refresh_tail_convs)
      qed
    qed
  qed
  then show ?thesis using p by (rule publish_tail_inv)
qed


lemma inv_unique_id:
  "db_inv env db \<Longrightarrow> x \<in> set (msgs db) \<Longrightarrow> y \<in> set (msgs db) \<Longrightarrow> m_id x = m_id y \<Longrightarrow> x = y"
  unfolding db_inv_def msgs_wf_def by (meson inj_onD distinct_map)

lemma inv_unique_pos:
  "db_inv env db \<Longrightarrow> x \<in> set (msgs db) \<Longrightarrow> y \<in> set (msgs db) \<Longrightarrow> m_conv x = m_conv y \<Longrightarrow>
     m_seq x = m_seq y \<Longrightarrow> x = y"
  unfolding db_inv_def msgs_wf_def distinct_map
  by (auto simp: msg_pos_def inj_on_def)

lemma update_row_tail:
  assumes inv: "db_inv env db" and tail: "tail_inv db" and cur: "cur \<in> set (msgs db)"
    and f: "\<And>m. m_id (f m) = m_id m" "\<And>m. m_conv (f m) = m_conv m" "\<And>m. m_seq (f m) = m_seq m"
    and kind: "changed_tail kind (f cur) (upd_msg (m_id cur) f db) = (Some (m_id cur), tail_preview (f cur))"
    and pub: "publish_message_change env kind (f cur) (upd_msg (m_id cur) f db) = Inr db'"
  shows "tail_inv db'"
  using pub tail
proof (rule publish_message_change_tail)
  note upd = latest_message_upd [of f, OF f(3) f(2)]
  have other: "m_id x \<noteq> m_id cur" if "latest_message cid db = Some x" "cid \<noteq> m_conv cur" for cid x
    using that latest_messageD [OF that(1)] inv_unique_id [OF inv _ cur, of x] by auto
  show "latest_message cid (upd_msg (m_id cur) f db) = latest_message cid db"
    if "cid \<noteq> m_conv (f cur)" for cid
    using that other [of cid] by (cases "latest_message cid db") (auto simp: upd f)
  show "changed_tail kind (f cur) (upd_msg (m_id cur) f db) =
      tail_of (latest_message (m_conv (f cur)) (upd_msg (m_id cur) f db))"
    if "latest_message (m_conv (f cur)) db = Some x" "m_id x = m_id (f cur)" for x
  proof -
    have "x = cur" using that latest_messageD [OF that(1)] inv_unique_id [OF inv _ cur] f by auto
    with that show ?thesis by (simp add: upd kind tail_of_def f)
  qed
  show "latest_message (m_conv (f cur)) (upd_msg (m_id cur) f db) = latest_message (m_conv (f cur)) db"
    if "\<And>x. latest_message (m_conv (f cur)) db = Some x \<Longrightarrow> m_id x \<noteq> m_id (f cur)"
    using that by (cases "latest_message (m_conv (f cur)) db") (auto simp: upd f)
qed simp

lemma delete_row_tail:
  assumes inv: "db_inv env db" and tail: "tail_inv db" and cur: "cur \<in> set (msgs db)"
    and pub: "publish_message_change env kind_deleted cur (delete_with_tx (m_id cur) db) = Inr db'"
  shows "tail_inv db'"
  using pub tail
proof (rule publish_message_change_tail)
  let ?db1 = "delete_with_tx (m_id cur) db"
  have rows: "filter (\<lambda>m. m_conv m = cid) (msgs ?db1) =
      filter (\<lambda>m. m_id m \<noteq> m_id cur) (filter (\<lambda>m. m_conv m = cid) (msgs db))" for cid
    by (simp add: delete_with_tx_def conj_commute)
  have keep: "latest_message cid ?db1 = latest_message cid db"
    if "\<And>x. latest_message cid db = Some x \<Longrightarrow> m_id x \<noteq> m_id cur" for cid
  proof (cases "latest_message cid db")
    case None
    then show ?thesis by (simp add: latest_message_def rows)
  next
    case (Some x)
    have "latest_of (filter (\<lambda>m. m_id m \<noteq> m_id cur) (filter (\<lambda>m. m_conv m = cid) (msgs db))) = Some x"
    proof (rule latest_of_filter)
      show "latest_of (filter (\<lambda>m. m_conv m = cid) (msgs db)) = Some x"
        using Some by (simp add: latest_message_def)
      show "m_id x \<noteq> m_id cur" using that [OF Some] .
      show "y = x" if "y \<in> set (filter (\<lambda>m. m_conv m = cid) (msgs db))" "m_seq y = m_seq x" for y
        using that latest_messageD [OF Some] inv_unique_pos [OF inv, of y x] by simp
    qed
    with Some show ?thesis by (simp add: latest_message_def rows)
  qed
  show "convs ?db1 = convs db" by (simp add: delete_with_tx_def)
  show "latest_message cid ?db1 = latest_message cid db" if "cid \<noteq> m_conv cur" for cid
    using that latest_messageD [of cid db] inv_unique_id [OF inv _ cur] by (intro keep) blast
  show "changed_tail kind_deleted cur ?db1 = tail_of (latest_message (m_conv cur) ?db1)"
    by (simp add: changed_tail_def kind_defs tail_of_def split: option.split)
  show "latest_message (m_conv cur) ?db1 = latest_message (m_conv cur) db"
    if "\<And>x. latest_message (m_conv cur) db = Some x \<Longrightarrow> m_id x \<noteq> m_id cur"
    using that by (rule keep)
qed

end
