(* ===== verification/Op_System.thy ===== *)
theory Op_System
  imports Aim_Prelude
begin

text \<open>
  What the services have in common: an operation either fails and leaves the store as it was, or
  succeeds with a new store. \<open>run_ops\<close> serves a list of requests in the order the row locks admit
  them. The locale \<open>op_system\<close> is the contract every service offers its clients: each accepted
  operation keeps the invariant of the store; \<open>op_log\<close> adds that it only appends to a log (the
  outbox), so publications are never rewritten by later requests.
\<close>

fun apply_op :: "('op \<Rightarrow> 's \<Rightarrow> 'e + 's) \<Rightarrow> 'op \<Rightarrow> 's \<Rightarrow> 's" where
  "apply_op step op s = (case step op s of Inl _ \<Rightarrow> s | Inr t \<Rightarrow> t)"

fun run_ops :: "('op \<Rightarrow> 's \<Rightarrow> 'e + 's) \<Rightarrow> 'op list \<Rightarrow> 's \<Rightarrow> 's" where
  "run_ops step [] s = s"
| "run_ops step (op # ops) s = run_ops step ops (apply_op step op s)"

lemma run_ops_append: "run_ops step (xs @ ys) s = run_ops step ys (run_ops step xs s)"
  by (induction xs arbitrary: s) auto

locale op_system =
  fixes step :: "'op \<Rightarrow> 's \<Rightarrow> 'e + 's"
    and ok :: "'op \<Rightarrow> bool"
    and inv :: "'s \<Rightarrow> bool"
  assumes step_inv: "ok op \<Longrightarrow> inv s \<Longrightarrow> step op s = Inr t \<Longrightarrow> inv t"
begin

lemma apply_op_inv: "ok op \<Longrightarrow> inv s \<Longrightarrow> inv (apply_op step op s)"
  by (cases "step op s") (auto dest: step_inv)

lemma run_ops_inv: "list_all ok ops \<Longrightarrow> inv s \<Longrightarrow> inv (run_ops step ops s)"
proof (induction ops arbitrary: s)
  case (Cons op ops)
  then have "inv (apply_op step op s)" by (intro apply_op_inv) simp_all
  with Cons show ?case by simp
qed simp

end

locale op_log = op_system step ok inv
  for step :: "'op \<Rightarrow> 's \<Rightarrow> 'e + 's" and ok :: "'op \<Rightarrow> bool" and inv :: "'s \<Rightarrow> bool" +
  fixes log :: "'s \<Rightarrow> 'l list"
  assumes step_log: "ok op \<Longrightarrow> inv s \<Longrightarrow> step op s = Inr t \<Longrightarrow> prefix (log s) (log t)"
begin

lemma apply_op_log: "ok op \<Longrightarrow> inv s \<Longrightarrow> prefix (log s) (log (apply_op step op s))"
  by (cases "step op s") (auto dest: step_log)

lemma run_ops_log: "list_all ok ops \<Longrightarrow> inv s \<Longrightarrow> prefix (log s) (log (run_ops step ops s))"
proof (induction ops arbitrary: s)
  case (Cons op ops)
  then have "prefix (log s) (log (apply_op step op s))" "inv (apply_op step op s)"
    by (auto intro: apply_op_log apply_op_inv simp del: apply_op.simps)
  with Cons show ?case by (auto intro: prefix_order.trans simp del: apply_op.simps)
qed simp

lemma run_ops_log_set: "list_all ok ops \<Longrightarrow> inv s \<Longrightarrow> set (log s) \<subseteq> set (log (run_ops step ops s))"
  using run_ops_log set_mono_prefix by blast

end

end
