(* ===== verification/Message_Ops.thy ===== *)
theory Message_Ops
  imports Message_Tail Op_System
begin

text \<open>
  The message service as a system of operations: every request that changes messages, its
  preservation of the store's invariants, and the laws of sending (who may send, what a send
  stores, idempotence of a submission key).
\<close>

section \<open>The operations\<close>

datatype msg_op =
  Op_Send "string list" send_req
| Op_System system_req
| Op_Edit "string list" edit_req
| Op_Recall "string list" recall_req
| Op_Delete "string list" delete_req

fun run_msg_op :: "env \<times> msg_op \<Rightarrow> msg_db \<Rightarrow> err + msg_db" where
  "run_msg_op (env, Op_Send md r) db = rbind (send_message env md r db) (\<lambda>(_, db'). Inr db')"
| "run_msg_op (env, Op_System r) db = rbind (send_system_message env r db) (\<lambda>(_, db'). Inr db')"
| "run_msg_op (env, Op_Edit md r) db = edit_message env md r db"
| "run_msg_op (env, Op_Recall md r) db = recall_message env md r db"
| "run_msg_op (env, Op_Delete md r) db = delete_message env md r db"

text \<open>Each request has its own clock and configuration; all draw on one supply of identities.\<close>

definition id_supply :: "(nat \<Rightarrow> string) \<Rightarrow> env \<Rightarrow> bool" where
  "id_supply ids env \<longleftrightarrow> fresh env = ids \<and> inj ids"

lemma used_id_supply: "fresh env = fresh env' \<Longrightarrow> used_id env = used_id env'"
  by (simp add: used_id_def fun_eq_iff)

lemma db_inv_supply: "fresh env = fresh env' \<Longrightarrow> db_inv env = db_inv env'"
  by (simp add: db_inv_defs used_id_def fun_eq_iff)

section \<open>Each operation in its parts\<close>

lemma map_err_eq_Inr_iff: "map_err f m = Inr a \<longleftrightarrow> m = Inr a"
  by (rule map_err_eq_Inr)

lemma send_message_Inr:
  "send_message env md req db = Inr (r, db') \<longleftrightarrow>
     caller_user_id env md = sr_from req \<and> sr_from req \<noteq> [] \<and>
     validate_identities env [sr_conv req, sr_from req] \<and>
     valid_key env (sr_client_msg_id req) \<and>
     (case sr_reply_to req of None \<Rightarrow> True | Some x \<Rightarrow> valid_id env x) \<and>
     validate_send_content env req = Inr () \<and>
     (\<exists>m. send_tx env (sr_from req) req (content_map (extract_send_content (sr_content req)))
            (original_submission env (sr_type req)
               (content_map (extract_send_content (sr_content req))) (sr_reply_to req)) db = Inr (m, db') \<and>
          r = send_response m)"
  by (auto simp: send_message_def Let_def rbind_eq_Inr ensure_eq_Inr map_err_eq_Inr)

lemma send_tx_Inr:
  "send_tx env caller req content sub db = Inr (m, db') \<longleftrightarrow>
     may_send env (sr_conv req) (sr_from req) db = Inr () \<and>
     ((find_submission (sr_from req) (sr_conv req) (sr_client_msg_id req) db = Some m \<and>
         same_submission (submission_json m) sub \<and> db' = db) \<or>
      (find_submission (sr_from req) (sr_conv req) (sr_client_msg_id req) db = None \<and>
         (\<exists>ty stored. resolve_content env caller req content = Inr (ty, stored) \<and>
            validate_reply_target (sr_conv req) (sr_from req) (sr_reply_to req) db = Inr () \<and>
            persist_message env (new_message env req (fresh env (next_id db)) sub ty stored)
              (user_sender_name env (sr_from req)) (db\<lparr>next_id := Suc (next_id db)\<rparr>) = Inr (m, db'))))"
  by (auto simp: send_tx_def rbind_eq_Inr new_id_def Let_def split: option.splits if_splits)

lemma next_id_step_inv: "db_inv env db \<Longrightarrow> db_inv env (db\<lparr>next_id := Suc (next_id db)\<rparr>)"
  by (rule same_core_inv [of db]) (auto simp: same_core_def)

lemma fresh_used_step:
  "inj (fresh env) \<Longrightarrow> used_id env (db\<lparr>next_id := Suc (next_id db)\<rparr>) (fresh env (next_id db))"
  by (rule fresh_used) simp_all

lemma tail_next_id: "tail_inv (db\<lparr>next_id := n\<rparr>) \<longleftrightarrow> tail_inv db"
  by (simp add: tail_inv_def latest_message_def)

lemma persist_new_inv:
  assumes "db_inv env db" "tail_inv db" "inj (fresh env)" "m_id m0 = fresh env (next_id db)"
    "m_status m0 = status_normal"
    and run: "persist_message env m0 nm (db\<lparr>next_id := Suc (next_id db)\<rparr>) = Inr (m, db')"
  shows "db_inv env db' \<and> tail_inv db'"
proof
  note inv = next_id_step_inv [OF assms(1)]
  show "db_inv env db'"
    using inv assms(3) _ run by (rule persist_inv) (simp add: assms fresh_used_step)
  show "tail_inv db'"
    using inv _ _ run by (rule persist_tail_inv) (simp_all add: assms tail_next_id status_defs)
qed

lemma send_message_inv:
  assumes "db_inv env db" "tail_inv db" "inj (fresh env)" "send_message env md req db = Inr (r, db')"
  shows "db_inv env db' \<and> tail_inv db'"
proof -
  from assms(4) obtain m content sub where "send_tx env (sr_from req) req content sub db = Inr (m, db')"
    by (auto simp: send_message_Inr)
  then consider "db' = db"
    | ty stored where "persist_message env (new_message env req (fresh env (next_id db)) sub ty stored)
        (user_sender_name env (sr_from req)) (db\<lparr>next_id := Suc (next_id db)\<rparr>) = Inr (m, db')"
    by (auto simp: send_tx_Inr)
  then show ?thesis
  proof cases
    case 1
    with assms show ?thesis by simp
  next
    case 2
    from assms(1-3) _ _ this show ?thesis by (rule persist_new_inv) (simp_all add: new_message_def)
  qed
qed

lemma send_system_message_Inr:
  "send_system_message env req db = Inr (r, db') \<longleftrightarrow>
     valid_id env (sy_conv req) \<and> validate_identities env (sy_related req) \<and>
     (case sy_actor req of None \<Rightarrow> True | Some a \<Rightarrow> valid_id env a) \<and>
     (\<exists>m. persist_message env (system_message env req (fresh env (next_id db)))
            (sy_actor_type req) (db\<lparr>next_id := Suc (next_id db)\<rparr>) = Inr (m, db') \<and>
          convs db (sy_conv req) \<noteq> None \<and>
          r = \<lparr>rsp_id = fresh env (next_id db), rsp_seq = m_seq m, rsp_created = unix (now env),
               rsp_message = None, rsp_file = None\<rparr>)"
  by (auto simp: send_system_message_def new_id_def Let_def rbind_eq_Inr ensure_eq_Inr map_err_eq_Inr
      get_conv_def of_option_eq_Inr)

lemma send_system_message_inv:
  assumes "db_inv env db" "tail_inv db" "inj (fresh env)" "send_system_message env req db = Inr (r, db')"
  shows "db_inv env db' \<and> tail_inv db'"
proof -
  from assms(4) obtain m where "persist_message env (system_message env req (fresh env (next_id db)))
            (sy_actor_type req) (db\<lparr>next_id := Suc (next_id db)\<rparr>) = Inr (m, db')"
    by (auto simp: send_system_message_Inr)
  from assms(1-3) _ _ this show ?thesis by (rule persist_new_inv) (simp_all add: system_message_def)
qed

lemma message_of_Inr: "message_of cid mid db = Inr m \<Longrightarrow> m \<in> set (msgs db) \<and> m_id m = mid \<and> m_conv m = cid"
  unfolding message_of_def by (auto dest: take_row_InrD)

lemma get_by_id_Inr: "get_by_id mid db = Inr m \<Longrightarrow> m \<in> set (msgs db) \<and> m_id m = mid"
  unfolding get_by_id_def by (auto dest: take_row_InrD)

lemma lock_mutable_message_Inr:
  "lock_mutable_message env cid mid uid db = Inr m \<longleftrightarrow>
     (\<exists>p. check_send_permission env cid uid db = Inr p \<and> sp_is_member p) \<and>
     message_of cid mid db = Inr m \<and> m_sender m = Some uid"
  by (auto simp: lock_mutable_message_def rbind_eq_Inr ensure_eq_Inr)

text \<open>
  With unique identities the row locked inside the transaction is the row read before it: the
  checks made on the first read still hold of it.
\<close>

lemma locked_is_read:
  assumes "db_inv env' db" "get_by_id mid db = Inr m" "message_of (m_conv m) (m_id m) db = Inr cur"
  shows "cur = m"
  using assms get_by_id_Inr message_of_Inr inv_unique_id by metis

lemma edit_message_Inr:
  "edit_message env md req db = Inr db' \<longleftrightarrow>
     (\<exists>txt ms all m. ed_text req = Some (txt, ms, all) \<and>
        validate_identities env [ed_message req, ed_user req] \<and> opt_valid env (ed_conv req) \<and>
        validate_identities env ms \<and> caller_user_id env md = ed_user req \<and> ed_user req \<noteq> [] \<and>
        get_by_id (ed_message req) db = Inr m \<and> m_sender m = Some (ed_user req) \<and>
        \<not> expired env (edit_window env) m \<and> m_type m = type_text \<and>
        (case ed_conv req of None \<Rightarrow> True | Some v \<Rightarrow> v = m_conv m) \<and>
        edit_tx env m (ed_user req) (text_content txt ms all) db = Inr db')"
  by (auto simp: edit_message_def rbind_eq_Inr ensure_eq_Inr require_caller_Inr map_err_eq_Inr
      conv_agrees_def split: option.splits)

lemma edit_tx_Inr:
  "edit_tx env m uid content db = Inr db' \<longleftrightarrow>
     (\<exists>cur. lock_mutable_message env (m_conv m) (m_id m) uid db = Inr cur \<and>
        \<not> expired env (edit_window env) cur \<and> m_status cur \<noteq> status_recalled \<and>
        publish_message_change env kind_edited (edited_message env content cur)
          (update_content_with_tx env (m_id cur) content (m_history (edited_message env content cur))
             (m_edit_count (edited_message env content cur)) db) = Inr db')"
  by (auto simp: edit_tx_def rbind_eq_Inr ensure_eq_Inr Let_def)

lemma recall_message_Inr:
  "recall_message env md req db = Inr db' \<longleftrightarrow>
     (\<exists>m. validate_identities env [rc_message req, rc_user req] \<and> opt_valid env (rc_conv req) \<and>
        caller_user_id env md = rc_user req \<and> rc_user req \<noteq> [] \<and>
        get_by_id (rc_message req) db = Inr m \<and> m_sender m = Some (rc_user req) \<and>
        \<not> expired env (recall_window env) m \<and>
        (case rc_conv req of None \<Rightarrow> True | Some v \<Rightarrow> v = m_conv m) \<and>
        recall_tx env m (rc_user req) db = Inr db')"
  by (auto simp: recall_message_def rbind_eq_Inr ensure_eq_Inr require_caller_Inr map_err_eq_Inr
      conv_agrees_def split: option.splits)

lemma recall_tx_Inr:
  "recall_tx env m uid db = Inr db' \<longleftrightarrow>
     (\<exists>cur. lock_mutable_message env (m_conv m) (m_id m) uid db = Inr cur \<and>
        \<not> expired env (recall_window env) cur \<and>
        (if m_status cur = status_recalled then db' = db
         else publish_message_change env kind_recalled
              (cur\<lparr>m_status := status_recalled, m_updated := now env\<rparr>)
              (update_status_with_tx env (m_id cur) status_recalled db) = Inr db'))"
  by (auto simp: recall_tx_def rbind_eq_Inr ensure_eq_Inr)

lemma delete_message_Inr:
  "delete_message env md req db = Inr db' \<longleftrightarrow>
     (\<exists>m. validate_identities env [de_user req, de_message req] \<and> opt_valid env (de_conv req) \<and>
        caller_user_id env md = de_user req \<and> de_user req \<noteq> [] \<and>
        get_by_id (de_message req) db = Inr m \<and> (de_for_all req \<longrightarrow> m_sender m = Some (de_user req)) \<and>
        (case de_conv req of None \<Rightarrow> True | Some v \<Rightarrow> v = m_conv m) \<and>
        delete_tx env m (de_user req) (de_for_all req) db = Inr db')"
  by (auto simp: delete_message_def rbind_eq_Inr ensure_eq_Inr require_caller_Inr map_err_eq_Inr
      conv_agrees_def split: option.splits)

section \<open>The changes keep the invariants\<close>

lemma edit_tx_inv:
  assumes inv: "db_inv env db" and tail: "tail_inv db" and inj: "inj (fresh env)"
    and run: "edit_tx env m uid content db = Inr db'"
  shows "db_inv env db' \<and> tail_inv db'"
proof -
  from run obtain cur where lock: "lock_mutable_message env (m_conv m) (m_id m) uid db = Inr cur"
    and pub: "publish_message_change env kind_edited (edited_message env content cur)
          (update_content_with_tx env (m_id cur) content (m_history (edited_message env content cur))
             (m_edit_count (edited_message env content cur)) db) = Inr db'"
    by (auto simp: edit_tx_Inr)
  have cur: "cur \<in> set (msgs db)"
    using lock message_of_Inr by (auto simp: lock_mutable_message_Inr)
  define f where "f = (\<lambda>x :: message. x\<lparr>m_content := Some content, m_history := m_history (edited_message env content cur),
       m_edit_count := m_edit_count (edited_message env content cur), m_status := status_edited,
       m_updated := now env\<rparr>)"
  have f: "m_id (f x) = m_id x" "m_conv (f x) = m_conv x" "m_seq (f x) = m_seq x" for x
    by (simp_all add: f_def)
  have fcur: "f cur = edited_message env content cur" by (simp add: f_def edited_message_def)
  have pub': "publish_message_change env kind_edited (f cur) (upd_msg (m_id cur) f db) = Inr db'"
    using pub by (simp add: fcur update_content_with_tx_def f_def [symmetric])
  have "db_inv env db'"
    using upd_msg_inv [OF inv f] inj pub' by (rule publish_message_change_inv)
  moreover have "tail_inv db'"
    using inv tail cur f _ pub'
    by (rule update_row_tail) (simp add: changed_tail_def kind_defs tail_preview_def f_def status_defs)
  ultimately show ?thesis ..
qed

lemma recall_tx_inv:
  assumes inv: "db_inv env db" and tail: "tail_inv db" and inj: "inj (fresh env)"
    and run: "recall_tx env m uid db = Inr db'"
  shows "db_inv env db' \<and> tail_inv db'"
proof -
  define f where "f = (\<lambda>x :: message. x\<lparr>m_status := status_recalled, m_updated := now env\<rparr>)"
  have f: "m_id (f x) = m_id x" "m_conv (f x) = m_conv x" "m_seq (f x) = m_seq x" for x
    by (simp_all add: f_def)
  from run obtain cur where lock: "lock_mutable_message env (m_conv m) (m_id m) uid db = Inr cur"
    and rest: "db' = db \<or> publish_message_change env kind_recalled (f cur) (upd_msg (m_id cur) f db) = Inr db'"
    by (auto simp: recall_tx_Inr f_def update_status_with_tx_def split: if_splits)
  have cur: "cur \<in> set (msgs db)"
    using lock message_of_Inr by (auto simp: lock_mutable_message_Inr)
  from rest show ?thesis
  proof
    assume "db' = db"
    with inv tail show ?thesis by simp
  next
    assume pub: "publish_message_change env kind_recalled (f cur) (upd_msg (m_id cur) f db) = Inr db'"
    have "db_inv env db'"
      using upd_msg_inv [OF inv f] inj pub by (rule publish_message_change_inv)
    moreover have "tail_inv db'"
      using inv tail cur f _ pub
      by (rule update_row_tail) (simp add: changed_tail_def kind_defs tail_preview_def f_def)
    ultimately show ?thesis ..
  qed
qed

lemma tombstone_inv:
  assumes "db_inv env db" "tail_inv db" "inj (fresh env)"
    "insert_personal_deletion uid cid mid db = (b, db1)"
    "publish_inbox_change env ch db1 = Inr db'"
  shows "db_inv env db' \<and> tail_inv db'"
proof -
  have "db_inv env db1" using assms(4,1) by (rule insert_personal_deletion_inv)
  moreover have "tail_inv db1"
    using assms(2) by (rule tail_inv_frame)
      (use assms(4) in \<open>auto simp: insert_personal_deletion_def split: if_splits\<close>)
  ultimately show ?thesis using assms(3,5) publish_inv publish_tail_inv by blast
qed

lemma delete_tx_inv:
  assumes inv: "db_inv env db" and tail: "tail_inv db" and inj: "inj (fresh env)"
    and run: "delete_tx env m uid for_all db = Inr db'"
  shows "db_inv env db' \<and> tail_inv db'"
proof (cases for_all)
  case True
  with run obtain cur where lock: "lock_mutable_message env (m_conv m) (m_id m) uid db = Inr cur"
    and pub: "publish_message_change env kind_deleted cur (delete_with_tx (m_id cur) db) = Inr db'"
    by (auto simp: delete_tx_def rbind_eq_Inr)
  have cur: "cur \<in> set (msgs db)"
    using lock message_of_Inr by (auto simp: lock_mutable_message_Inr)
  have "db_inv env db'"
    using delete_with_tx_inv [OF inv] inj pub by (rule publish_message_change_inv)
  moreover have "tail_inv db'" using inv tail cur pub by (rule delete_row_tail)
  ultimately show ?thesis ..
next
  case False
  with run obtain cur :: message where c: "(case insert_personal_deletion uid (m_conv cur) (m_id cur) db of
      (inserted, db1) \<Rightarrow> if inserted then publish_inbox_change env
            (no_change\<lparr>ch_kind := kind_deleted, ch_conv := m_conv cur,
               ch_message := Some (m_id cur), ch_user := Some uid,
               ch_recipients := Some [uid]\<rparr>) db1 else Inr db1) = Inr db'"
    unfolding delete_tx_def if_not_P [OF False] by (elim rbindE) (rule that)
  obtain b db1 where "insert_personal_deletion uid (m_conv cur) (m_id cur) db = (b, db1)"
    by (cases "insert_personal_deletion uid (m_conv cur) (m_id cur) db")
  then show ?thesis
    using c inv tail tombstone_inv [OF inv tail inj]
    by (cases b) (auto simp: insert_personal_deletion_def split: if_splits)
qed

lemma run_msg_op_inv:
  assumes "db_inv env db" "tail_inv db" "inj (fresh env)" "run_msg_op (env, op) db = Inr db'"
  shows "db_inv env db' \<and> tail_inv db'"
proof (cases op)
  case Op_Send
  with assms show ?thesis by (auto simp: rbind_eq_Inr dest: send_message_inv)
next
  case Op_System
  with assms show ?thesis by (auto simp: rbind_eq_Inr dest: send_system_message_inv)
next
  case Op_Edit
  with assms show ?thesis by (auto simp: edit_message_Inr dest: edit_tx_inv)
next
  case Op_Recall
  with assms show ?thesis by (auto simp: recall_message_Inr dest: recall_tx_inv)
next
  case Op_Delete
  with assms show ?thesis by (auto simp: delete_message_Inr dest: delete_tx_inv)
qed

end
