(* ===== verification/Demo.thy ===== *)
theory Demo
  imports Message_Ops
begin

text \<open>
  A concrete store and environment on which the properties with hypotheses are instantiated: a
  private conversation \<open>c1\<close> of users \<open>u1\<close> and \<open>u2\<close> and a group \<open>c2\<close> of \<open>u1\<close> (owner), \<open>u2\<close> (admin)
  and \<open>u3\<close> (member).
\<close>

definition demo_fresh :: "nat \<Rightarrow> string" where
  "demo_fresh n = ''id-'' @ replicate n (CHR ''x'')"

definition demo_env :: env where
  "demo_env = \<lparr>valid_id = (\<lambda>s. s \<noteq> []), valid_key = (\<lambda>s. s \<noteq> []), now = 100 * 1000000000,
     fresh = demo_fresh, recall_window = 120, edit_window = 120, max_members = 500,
     file_client = None, profile_name = (\<lambda>_. None), json_decode = (\<lambda>_. None)\<rparr>"

definition demo_conv :: "string \<Rightarrow> int \<Rightarrow> string option \<Rightarrow> int \<Rightarrow> conversation" where
  "demo_conv cid ty own n =
     \<lparr>c_id = cid, c_type = ty, c_name = ''n'', c_avatar = [], c_owner = own, c_announcement = [],
      c_muted_all = False, c_background = [], c_max_seq = 0, c_pub_seq = 0, c_last_msg = None,
      c_last_preview = [], c_member_count = n, c_created = 0, c_updated = 0\<rparr>"

definition demo_member :: "string \<Rightarrow> string \<Rightarrow> int \<Rightarrow> conv_member" where
  "demo_member cid uid role =
     \<lparr>cm_id = cid @ uid, cm_conv = cid, cm_user = Some uid, cm_type = ''user'', cm_role = role,
      cm_alias = [], cm_muted = False, cm_mute_until = 0, cm_joined = 0\<rparr>"

definition demo_db :: msg_db where
  "demo_db = empty_db\<lparr>
     convs := [''c1'' \<mapsto> demo_conv ''c1'' conv_private None 2,
               ''c2'' \<mapsto> demo_conv ''c2'' conv_group (Some ''u1'') 3],
     members := [demo_member ''c1'' ''u1'' 3, demo_member ''c1'' ''u2'' 3,
                 demo_member ''c2'' ''u1'' 1, demo_member ''c2'' ''u2'' 2, demo_member ''c2'' ''u3'' 3]\<rparr>"

lemma inj_demo_fresh: "inj demo_fresh"
proof (rule injI)
  fix a b assume "demo_fresh a = demo_fresh b"
  then have "length (demo_fresh a) = length (demo_fresh b)" by simp
  then show "a = b" by (simp add: demo_fresh_def)
qed

lemma demo_env_fresh [simp]: "fresh demo_env = demo_fresh"
  by (simp add: demo_env_def)

lemma demo_db_inv: "db_inv demo_env demo_db" "tail_inv demo_db"
  by (auto simp: db_inv_defs tail_inv_def demo_db_def empty_db_def demo_conv_def cur_seq_def
      seq_max_def latest_message_def tail_of_def split: if_splits)

definition demo_text :: "string \<Rightarrow> string \<Rightarrow> send_req" where
  "demo_text key t =
     \<lparr>sr_conv = ''c1'', sr_from = ''u1'', sr_client_msg_id = key, sr_reply_to = None,
      sr_type = type_text, sr_content = Some (Send_Text t [] False)\<rparr>"

text \<open>The result of an operation known to succeed.\<close>

definition result_of :: "'e + 'a \<Rightarrow> 'a" where
  "result_of m = (case m of Inr a \<Rightarrow> a | Inl _ \<Rightarrow> undefined)"

lemma is_ok_result: "is_ok m \<Longrightarrow> m = Inr (result_of m)"
  by (cases m) (simp_all add: result_of_def)

lemma demo_send_ok: "is_ok (send_message demo_env [''u1''] (demo_text ''k1'' ''hello'') demo_db)"
  by code_simp

definition demo_after :: "send_resp \<times> msg_db" where
  "demo_after = result_of (send_message demo_env [''u1''] (demo_text ''k1'' ''hello'') demo_db)"

lemma demo_first:
  "send_message demo_env [''u1''] (demo_text ''k1'' ''hello'') demo_db = Inr (fst demo_after, snd demo_after)"
  unfolding demo_after_def prod.collapse using demo_send_ok by (rule is_ok_result)

end
