(* ===== verification/Message_Props.thy ===== *)
theory Message_Props
  imports Demo
begin

text \<open>
  The properties of the message operations: their invariants over any run of requests, who may
  send, what a send stores and publishes, and the idempotence of a submission key.
\<close>

section \<open>The message service keeps its store consistent\<close>

definition id_env :: "(nat \<Rightarrow> string) \<Rightarrow> env" where
  "id_env ids = demo_env\<lparr>fresh := ids\<rparr>"

definition store_ok :: "(nat \<Rightarrow> string) \<Rightarrow> msg_db \<Rightarrow> bool" where
  "store_ok ids db \<longleftrightarrow> db_inv (id_env ids) db \<and> tail_inv db"

lemma store_ok_env: "store_ok (fresh env) db \<longleftrightarrow> db_inv env db \<and> tail_inv db"
  using db_inv_supply [of "id_env (fresh env)" env] by (simp add: store_ok_def id_env_def)

text \<open>Every accepted request appends at most one publication.\<close>

lemma persist_outbox:
  assumes "persist_message env m0 nm db = Inr (m, db')"
  shows "outbox db' = outbox db @ [publication env (build_message_created_payload m nm) db]"
  using assms by (elim persist_message_elim) simp

lemma publish_message_change_outbox:
  "publish_message_change env kind m db = Inr db' \<Longrightarrow> \<exists>e. outbox db' = outbox db @ [e]"
  by (auto simp: publish_message_change_Inr publish_frame(9))

lemma run_msg_op_outbox:
  assumes "run_msg_op (env, op) db = Inr db'"
  shows "prefix (outbox db) (outbox db')"
proof (cases op)
  case Op_Send
  with assms show ?thesis
    by (auto simp: rbind_eq_Inr send_message_Inr send_tx_Inr dest!: persist_outbox)
next
  case Op_System
  with assms show ?thesis
    by (auto simp: rbind_eq_Inr send_system_message_Inr dest!: persist_outbox)
next
  case Op_Edit
  with assms show ?thesis
    by (auto simp: edit_message_Inr edit_tx_Inr update_content_with_tx_def
        dest!: publish_message_change_outbox)
next
  case Op_Recall
  with assms show ?thesis
    by (auto simp: recall_message_Inr recall_tx_Inr update_status_with_tx_def
        dest!: publish_message_change_outbox split: if_splits)
next
  case (Op_Delete md req)
  with assms show ?thesis
    by (auto simp: delete_message_Inr delete_tx_def rbind_eq_Inr delete_with_tx_def
        insert_personal_deletion_def publish_frame(9) dest!: publish_message_change_outbox split: if_splits)
qed

definition op_supply :: "(nat \<Rightarrow> string) \<Rightarrow> env \<times> msg_op \<Rightarrow> bool" where
  "op_supply ids op \<longleftrightarrow> id_supply ids (fst op)"

interpretation msg_ops: op_log run_msg_op "op_supply ids" "store_ok ids" outbox
proof
  show "store_ok ids t" if "op_supply ids op" "store_ok ids s" "run_msg_op op s = Inr t" for op s t
    using that run_msg_op_inv [of "fst op" s "snd op" t] store_ok_env [of "fst op"]
    by (auto simp: op_supply_def id_supply_def)
  show "prefix (outbox s) (outbox t)" if "run_msg_op op s = Inr t" for op s t
    using that run_msg_op_outbox [of "fst op" "snd op" s t] by simp
qed

text \<open>
  C11: whatever requests clients send (sends, system messages, edits, recalls, deletions, valid or
  not), in whatever order and at whatever times, the store stays consistent: message identities and
  conversation positions are used once and lie below their counters, publication positions are
  used once and lie below the conversation's publication counter, and every conversation's last
  message and preview are those of its message with the highest sequence. Publications already made
  are never withdrawn or reordered.
\<close>

theorem message_requests_keep_store:
  assumes "db_inv env db" "tail_inv db" "inj (fresh env)"
    and "\<forall>(e, op)\<in>set ops. fresh e = fresh env"
  shows "db_inv env (run_ops run_msg_op ops db) \<and> tail_inv (run_ops run_msg_op ops db) \<and>
    prefix (outbox db) (outbox (run_ops run_msg_op ops db))"
proof -
  have "list_all (op_supply (fresh env)) ops"
    using assms(3,4) by (auto simp: list_all_iff op_supply_def id_supply_def)
  moreover have "store_ok (fresh env) db" using assms by (simp add: store_ok_env)
  ultimately show ?thesis
    using msg_ops.run_ops_inv msg_ops.run_ops_log by (metis store_ok_env)
qed

theorem message_requests_keep_store_witness:
  "db_inv demo_env (run_ops run_msg_op [(demo_env, Op_Send [''u1''] (demo_text ''k1'' ''hello''))] demo_db) \<and>
   tail_inv (run_ops run_msg_op [(demo_env, Op_Send [''u1''] (demo_text ''k1'' ''hello''))] demo_db) \<and>
   length (msgs (run_ops run_msg_op [(demo_env, Op_Send [''u1''] (demo_text ''k1'' ''hello''))] demo_db)) = 1"
proof -
  have "length (msgs (run_ops run_msg_op [(demo_env, Op_Send [''u1''] (demo_text ''k1'' ''hello''))] demo_db)) = 1"
    by code_simp
  then show ?thesis
    using message_requests_keep_store [OF demo_db_inv, of "[(demo_env, Op_Send [''u1''] (demo_text ''k1'' ''hello''))]"]
    by (simp add: inj_demo_fresh del: run_ops.simps run_msg_op.simps)
qed

section \<open>Who may send\<close>

definition block_between :: "string \<Rightarrow> string \<Rightarrow> msg_db \<Rightarrow> bool" where
  "block_between u v db \<longleftrightarrow> (u, v) \<in> set (blocks db) \<or> (v, u) \<in> set (blocks db)"

lemma set_other_members:
  "set (other_members cid uid db) =
     {v. v \<noteq> uid \<and> (\<exists>m\<in>set (members db). is_human_member cid m \<and> cm_user m = Some v)}"
  by (force simp: other_members_def List.map_filter_def intro: image_eqI)

lemma find_member_cases:
  "find_member cid uid db = (case find (\<lambda>m. is_human_member cid m \<and> cm_user m = Some uid) (members db) of
     None \<Rightarrow> Inl RecordNotFound | Some m \<Rightarrow> Inr m)"
  by (simp add: find_member_def take_row_def of_option_def)

definition is_muted :: "env \<Rightarrow> conversation \<Rightarrow> conv_member \<Rightarrow> bool" where
  "is_muted env c m \<longleftrightarrow> c_muted_all c \<or>
     (cm_muted m \<and> (cm_mute_until m = 0 \<or> unix (now env) < cm_mute_until m))"

definition human_of :: "string \<Rightarrow> string \<Rightarrow> conv_member \<Rightarrow> bool" where
  "human_of cid uid m \<longleftrightarrow> is_human_member cid m \<and> cm_user m = Some uid"

text \<open>Some other human member stands in a block relation with the user.\<close>

definition blocked_in :: "string \<Rightarrow> string \<Rightarrow> msg_db \<Rightarrow> bool" where
  "blocked_in cid uid db \<longleftrightarrow>
     (\<exists>v. v \<noteq> uid \<and> (\<exists>x\<in>set (members db). human_of cid v x) \<and> block_between uid v db)"

lemma blocked_others:
  "(other_members cid uid db \<noteq> [] \<and> blocked_pair uid (other_members cid uid db) db) \<longleftrightarrow>
     blocked_in cid uid db"
proof -
  have "(others \<noteq> [] \<and> blocked_pair uid others db) \<longleftrightarrow> (\<exists>v\<in>set others. block_between uid v db)" for others
    by (cases others) (auto simp: blocked_pair_def block_between_def)
  then show ?thesis by (auto simp: set_other_members blocked_in_def human_of_def)
qed

text \<open>The decision of the send path, case by case in the order of its checks.\<close>

lemma may_send_eq:
  "may_send env cid uid db =
     (if \<not> valid_id env uid then Inl (Plain ''invalid entity identity'')
      else case convs db cid of
          None \<Rightarrow> Inl RecordNotFound
        | Some c \<Rightarrow>
            (case find (human_of cid uid) (members db) of
               None \<Rightarrow> Inl err_not_member
             | Some m \<Rightarrow>
                 if is_muted env c m then Inl err_sender_muted
                 else if c_type c = conv_private \<and> blocked_in cid uid db then Inl err_blocked_by_member
                 else Inr ()))"
proof (cases "convs db cid")
  case None
  then show ?thesis
    by (simp add: may_send_def check_send_permission_def get_conv_def ensure_def)
next
  case (Some c)
  have h: "human_of cid uid = (\<lambda>m. is_human_member cid m \<and> cm_user m = Some uid)"
    by (simp add: human_of_def fun_eq_iff)
  show ?thesis
  proof (cases "find (human_of cid uid) (members db)")
    case None
    then have "find_member cid uid db = Inl RecordNotFound" by (simp add: find_member_cases h)
    with None Some show ?thesis
      by (simp add: may_send_def check_send_permission_def get_conv_def ensure_def)
  next
    case (Some m)
    then have "find_member cid uid db = Inr m" by (simp add: find_member_cases h)
    with Some \<open>convs db cid = Some c\<close> blocked_others [of cid uid db] show ?thesis
      by (auto simp: may_send_def check_send_permission_def get_conv_def ensure_def muted_now_def is_muted_def)
  qed
qed

lemma may_send_Inr:
  "may_send env cid uid db = Inr () \<longleftrightarrow>
     valid_id env uid \<and>
     (\<exists>c m. convs db cid = Some c \<and> find (human_of cid uid) (members db) = Some m \<and>
        \<not> is_muted env c m \<and> (c_type c = conv_private \<longrightarrow> \<not> blocked_in cid uid db))"
  by (simp add: may_send_eq split: option.split)

definition send_valid :: "env \<Rightarrow> string list \<Rightarrow> send_req \<Rightarrow> bool" where
  "send_valid env md req \<longleftrightarrow>
     caller_user_id env md = sr_from req \<and> sr_from req \<noteq> [] \<and>
     validate_identities env [sr_conv req, sr_from req] \<and> valid_key env (sr_client_msg_id req) \<and>
     (case sr_reply_to req of None \<Rightarrow> True | Some x \<Rightarrow> valid_id env x) \<and>
     validate_send_content env req = Inr ()"

definition request_content :: "send_req \<Rightarrow> json_map" where
  "request_content req = content_map (extract_send_content (sr_content req))"

definition request_submission :: "env \<Rightarrow> send_req \<Rightarrow> json" where
  "request_submission env req =
     original_submission env (sr_type req) (request_content req) (sr_reply_to req)"

lemma send_message_eq:
  "send_valid env md req \<Longrightarrow> send_message env md req db =
     rbind (map_err send_error (send_tx env (sr_from req) req (request_content req)
              (request_submission env req) db)) (\<lambda>(m, db'). Inr (send_response m, db'))"
  by (cases "sr_reply_to req")
    (simp_all add: send_message_def send_valid_def request_content_def request_submission_def Let_def)

lemma send_message_validD:
  "send_message env md req db = Inr (r, db') \<Longrightarrow> send_valid env md req"
  by (auto simp: send_message_Inr send_valid_def)

lemma send_message_txD:
  "send_message env md req db = Inr (r, db') \<Longrightarrow>
     \<exists>m. send_tx env (sr_from req) req (request_content req) (request_submission env req) db = Inr (m, db') \<and>
         r = send_response m"
  by (auto simp: send_message_Inr request_content_def request_submission_def)

lemma send_refused:
  "send_valid env md req \<Longrightarrow> may_send env (sr_conv req) (sr_from req) db = Inl e \<Longrightarrow>
     send_message env md req db = Inl (send_error e)"
  by (simp add: send_message_eq send_tx_def)

text \<open>
  C24: nobody sends where they may not. A successful send proves that its sender is the
  authenticated caller, a human member of an existing conversation, not muted at that time
  (individually or with everyone), and in a private conversation not in a block relation, in either
  direction, with another member.
\<close>

theorem send_needs_permission:
  assumes "send_message env md req db = Inr (r, db')"
  shows "md = [sr_from req] \<and>
    (\<exists>c m. convs db (sr_conv req) = Some c \<and> m \<in> set (members db) \<and>
       human_of (sr_conv req) (sr_from req) m \<and> \<not> is_muted env c m \<and>
       (c_type c = conv_private \<longrightarrow> \<not> blocked_in (sr_conv req) (sr_from req) db))"
proof -
  from assms obtain m where "may_send env (sr_conv req) (sr_from req) db = Inr ()"
    using send_message_txD by (fastforce simp: send_tx_Inr)
  moreover have "md = [sr_from req]"
    using assms by (auto simp: send_message_Inr caller_user_id_def split: list.splits if_splits)
  ultimately show ?thesis by (auto simp: may_send_Inr dest: find_SomeD)
qed

theorem send_needs_permission_witness:
  "\<exists>m. m \<in> set (members demo_db) \<and> human_of ''c1'' ''u1'' m"
  using send_needs_permission [of demo_env "[''u1'']" "demo_text ''k1'' ''hello''" demo_db]
    is_ok_result [OF demo_send_ok]
  by (metis demo_text_def send_req.select_convs(1,2) surj_pair)

text \<open>
  C25: each refusal reports its own reason. A well-formed request of the caller is answered, without
  any effect, with not-found when the conversation does not exist, and with the forbidden errors of
  a non-member, of a muted sender and of a blocked one, in that order of precedence.
\<close>

theorem send_refusals:
  assumes "send_valid env md req"
  shows "(convs db (sr_conv req) = None \<longrightarrow>
        send_message env md req db = Inl (Biz 1004 ''conversation not found'')) \<and>
    (\<forall>c. convs db (sr_conv req) = Some c \<longrightarrow>
       (find (human_of (sr_conv req) (sr_from req)) (members db) = None \<longrightarrow>
          send_message env md req db = Inl err_not_member) \<and>
       (\<forall>m. find (human_of (sr_conv req) (sr_from req)) (members db) = Some m \<longrightarrow>
          (is_muted env c m \<longrightarrow> send_message env md req db = Inl err_sender_muted) \<and>
          (\<not> is_muted env c m \<and> c_type c = conv_private \<and> blocked_in (sr_conv req) (sr_from req) db \<longrightarrow>
             send_message env md req db = Inl err_blocked_by_member)))"
proof -
  have v: "valid_id env (sr_from req)"
    using assms by (simp add: send_valid_def validate_identities_def)
  show ?thesis
    using v send_refused [OF assms, of db] by (simp add: may_send_eq err_defs code_defs)
qed

theorem send_refusals_witness:
  "send_message demo_env [''u1''] (demo_text ''k1'' ''hello'') empty_db =
     Inl (Biz 1004 ''conversation not found'')"
proof -
  have "send_valid demo_env [''u1''] (demo_text ''k1'' ''hello'')" by code_simp
  from send_refusals [OF this, of empty_db] show ?thesis by (simp add: empty_db_def)
qed

section \<open>What a send stores\<close>

text \<open>
  What a request asks to be stored, said without the operations that compute it: the body is the one of the
  request, except that the expiring URLs of a file body are blank; an attachment is what the file service
  says of the file, under the sender's own rights.
\<close>

fun stored_body :: "env \<Rightarrow> send_req \<Rightarrow> send_content option \<Rightarrow> int \<Rightarrow> json_map \<Rightarrow> bool" where
  "stored_body env req None ty body = False"
| "stored_body env req (Some (Send_Attachment fid dur)) ty body =
     (\<exists>client f. file_client env = Some client \<and> client fid (sr_from req) = Inr (Some f) \<and> f_id f = fid \<and>
        (ty, body) = hydrate_attachment_content f dur)"
| "stored_body env req (Some c) ty body =
     (ty = sr_type req \<and> (\<forall>k. map_of body k =
        (if is_file_type ty \<and> (k = ''url'' \<or> (k = ''thumbnail_url'' \<and> has_thumbnail ty)) then Some (JStr [])
         else map_of (content_map (extract_send_content (Some c))) k)))"

lemma blank_urls_lookup:
  "map_of (blank_urls ty content) k =
     (if k = ''url'' \<or> (k = ''thumbnail_url'' \<and> has_thumbnail ty) then Some (JStr []) else map_of content k)"
  by (simp add: blank_urls_def Let_def update_conv')

lemma resolve_content_body:
  assumes "resolve_content env (sr_from req) req (request_content req) = Inr (ty, body)"
    and "validate_send_content env req = Inr ()"
  shows "stored_body env req (sr_content req) ty body"
proof (cases "sr_content req")
  case None
  then show ?thesis using assms(2) by (simp add: validate_send_content_def)
next
  case (Some c)
  note defs = resolve_content_def request_content_def Let_def
  show ?thesis
  proof (cases c)
    case (Send_Attachment fid dur)
    have "get_str (request_content req) ''file_id'' = fid"
      by (simp add: request_content_def Some Send_Attachment get_str_def content_map_def)
    then show ?thesis using assms(1) Some Send_Attachment
      by (auto simp: resolve_content_def Let_def rbind_eq_Inr split: option.splits if_splits)
  qed (use assms(1) Some in \<open>auto simp: defs rbind_eq_Inr blank_urls_lookup split: if_splits option.splits\<close>)
qed

text \<open>The publication of a stored message.\<close>

lemma created_publication:
  fixes m :: message
  assumes "m_content m = Some body"
  shows "\<exists>ch. o_payload (publication env (build_message_created_payload m nm) db) = Change ch \<and> ch_kind ch = kind_new \<and>
    ch_conv ch = m_conv m \<and> ch_message ch = Some (m_id m) \<and> ch_sender ch = m_sender m \<and> ch_sender_name ch = nm \<and>
    ch_seq ch = m_seq m \<and> ch_msg_type ch = m_type m \<and> ch_content ch = Some body \<and> ch_reply_to ch = m_reply_to m \<and>
    ch_recipients ch = Some (member_ids (m_conv m) db)"
  using assms by (simp add: published_change_def build_message_created_payload_def no_change_def is_message_kind_def)

text \<open>
  C20: a new submission is stored and published once, atomically. When no message of the sender in
  the conversation has the submission's key, a successful send appends one message: the sender's, of the
  type and with the body the request asks for, at the position right after the conversation's current one, with a
  fresh identity. It makes that message the tail of its conversation, with its preview, and appends one pending
  publication, at the conversation's next publication position, addressed to its human members at that moment
  and carrying that message. Nothing else changes: no other conversation, no other table. The
  response names that message.
\<close>

theorem send_new_effect:
  assumes "send_message env md req db = Inr (r, db')"
    and "find_submission (sr_from req) (sr_conv req) (sr_client_msg_id req) db = None"
  shows "\<exists>c m ty body e ch. convs db (sr_conv req) = Some c \<and> stored_body env req (sr_content req) ty body \<and>
    m = \<lparr>m_id = fresh env (next_id db), m_conv = sr_conv req, m_sender = Some (sr_from req), m_sender_type = ''user'',
      m_sender_name = user_sender_name env (sr_from req), m_sender_avatar = [], m_binding = None, m_requester = None,
      m_raw_payload = [], m_client_msg_id = Some (sr_client_msg_id req), m_seq = cur_seq db (sr_conv req) + 1,
      m_type = ty, m_content = Some body, m_submission = Some (request_submission env req),
      m_reply_to = sr_reply_to req, m_status = status_normal, m_history = [], m_edit_count = 0,
      m_created = now env, m_updated = now env\<rparr> \<and>
    db' = db\<lparr>seqs := (seqs db)(sr_conv req \<mapsto> m_seq m), msgs := msgs db @ [m],
      convs := (convs db)(sr_conv req \<mapsto> c\<lparr>c_pub_seq := c_pub_seq c + 1, c_last_msg := Some (m_id m),
        c_last_preview := message_preview ty (Some body), c_max_seq := m_seq m, c_updated := now env\<rparr>),
      next_id := next_id db + 2, outbox := outbox db @ [e]\<rparr> \<and>
    o_conv e = sr_conv req \<and> o_pub_seq e = c_pub_seq c + 1 \<and> o_status e = outbox_pending \<and> o_payload e = Change ch \<and>
    ch_kind ch = kind_new \<and> ch_conv ch = sr_conv req \<and> ch_message ch = Some (m_id m) \<and> ch_sender ch = m_sender m \<and>
    ch_sender_name ch = m_sender_name m \<and> ch_seq ch = m_seq m \<and> ch_msg_type ch = ty \<and> ch_content ch = Some body \<and>
    ch_reply_to ch = m_reply_to m \<and> ch_recipients ch = Some (member_ids (sr_conv req) db) \<and> r = send_response m"
proof -
  let ?db0 = "db\<lparr>next_id := Suc (next_id db)\<rparr>" and ?nm = "user_sender_name env (sr_from req)"
  from send_message_txD [OF assms(1)] obtain m ty body where r: "r = send_response m"
    and res: "resolve_content env (sr_from req) req (request_content req) = Inr (ty, body)"
    and p: "persist_message env (new_message env req (fresh env (next_id db)) (request_submission env req) ty body) ?nm ?db0 = Inr (m, db')"
    using assms(2) by (auto simp: send_tx_Inr)
  have b: "stored_body env req (sr_content req) ty body"
    using resolve_content_body [OF res] assms(1) by (auto simp: send_message_Inr)
  have cs: "cur_seq ?db0 = cur_seq db" by (rule cur_seq_cong) simp
  define e where "e = publication env (build_message_created_payload m ?nm) ?db0"
  obtain c where c: "convs db (sr_conv req) = Some c"
    and m: "m = (new_message env req (fresh env (next_id db)) (request_submission env req) ty body)
              \<lparr>m_seq := cur_seq db (sr_conv req) + 1, m_sender_name := ?nm\<rparr>"
    and db': "db' = ?db0\<lparr>seqs := (seqs db)(sr_conv req \<mapsto> m_seq m), msgs := msgs db @ [m],
       convs := (convs db)(sr_conv req \<mapsto> c\<lparr>c_pub_seq := c_pub_seq c + 1, c_last_msg := Some (m_id m),
          c_last_preview := message_preview (m_type m) (m_content m), c_max_seq := m_seq m, c_updated := now env\<rparr>),
       next_id := Suc (Suc (next_id db)), outbox := outbox db @ [e]\<rparr>"
    using p by (elim persist_message_elim) (simp add: new_message_def cs e_def)
  have f: "m_content m = Some body" "m_conv m = sr_conv req" "m_type m = ty" "m_sender_name m = ?nm"
    by (simp_all add: m new_message_def)
  have ids: "member_ids (sr_conv req) ?db0 = member_ids (sr_conv req) db" by (simp add: member_ids_def)
  obtain ch where ch: "o_payload e = Change ch" "ch_kind ch = kind_new" "ch_conv ch = sr_conv req" "ch_message ch = Some (m_id m)"
      "ch_sender ch = m_sender m" "ch_sender_name ch = m_sender_name m" "ch_seq ch = m_seq m" "ch_msg_type ch = ty"
      "ch_content ch = Some body" "ch_reply_to ch = m_reply_to m" "ch_recipients ch = Some (member_ids (sr_conv req) db)"
    using created_publication [OF f(1), of env ?nm ?db0] unfolding e_def f ids by blast
  have o: "o_conv e = sr_conv req" "o_pub_seq e = c_pub_seq c + 1" "o_status e = outbox_pending"
    using c by (simp_all add: e_def build_message_created_payload_def f(2) cur_pub_def)
  have M: "m = \<lparr>m_id = fresh env (next_id db), m_conv = sr_conv req, m_sender = Some (sr_from req), m_sender_type = ''user'',
      m_sender_name = ?nm, m_sender_avatar = [], m_binding = None, m_requester = None,
      m_raw_payload = [], m_client_msg_id = Some (sr_client_msg_id req), m_seq = cur_seq db (sr_conv req) + 1,
      m_type = ty, m_content = Some body, m_submission = Some (request_submission env req),
      m_reply_to = sr_reply_to req, m_status = status_normal, m_history = [], m_edit_count = 0,
      m_created = now env, m_updated = now env\<rparr>"
    by (simp add: m new_message_def)
  have D: "db' = db\<lparr>seqs := (seqs db)(sr_conv req \<mapsto> m_seq m), msgs := msgs db @ [m],
      convs := (convs db)(sr_conv req \<mapsto> c\<lparr>c_pub_seq := c_pub_seq c + 1, c_last_msg := Some (m_id m),
        c_last_preview := message_preview ty (Some body), c_max_seq := m_seq m, c_updated := now env\<rparr>),
      next_id := next_id db + 2, outbox := outbox db @ [e]\<rparr>"
    by (simp add: db' f)
  show ?thesis using c b M D o ch r by - (intro exI conjI, assumption+)
qed

theorem send_new_effect_witness:
  "\<exists>m body e. msgs (snd demo_after) = [m] \<and> m_seq m = 1 \<and> m_sender m = Some ''u1'' \<and> m_type m = type_text \<and>
     m_content m = Some body \<and> map_of body ''text'' = Some (JStr ''hello'') \<and> outbox (snd demo_after) = [e]"
proof -
  let ?req = "demo_text ''k1'' ''hello''"
  have "find_submission ''u1'' ''c1'' ''k1'' demo_db = None" by code_simp
  then have n: "find_submission (sr_from ?req) (sr_conv ?req) (sr_client_msg_id ?req) demo_db = None"
    by (simp add: demo_text_def)
  have s: "msgs demo_db = []" "outbox demo_db = []" "cur_seq demo_db ''c1'' = 0" by code_simp+
  have f: "sr_from ?req = ''u1''" "sr_conv ?req = ''c1''" by (simp_all add: demo_text_def)
  have b: "map_of body ''text'' = Some (JStr ''hello'') \<and> ty = type_text" if "stored_body demo_env ?req (sr_content ?req) ty body" for ty body
    using that by (simp add: demo_text_def text_content_def content_map_def is_file_type_def type_text_def type_image_def)
  show ?thesis using send_new_effect [OF demo_first n]
    apply (elim exE conjE)
    subgoal for c m ty body e ch
      using b [of ty body] by (intro exI [of _ m] exI [of _ body] exI [of _ e]) (simp add: s f)
    done
qed

end
