(* ===== verification/Submission.thy ===== *)
theory Submission
  imports Message_Props
begin

text \<open>
  Submission keys. A client retries a send with the same \<^verbatim>\<open>client_msg_id\<close> until it has an answer;
  the store holds at most one message per sender, conversation and key, and a retry is answered
  from it. \<open>core\<close> is the part of a row no operation rewrites.
\<close>

section \<open>The immutable part of a row\<close>

definition core :: "message \<Rightarrow> message" where
  "core m = m\<lparr>m_content := None, m_history := [], m_edit_count := 0, m_status := 0, m_updated := 0\<rparr>"

definition keyed :: "message \<Rightarrow> bool" where
  "keyed m \<longleftrightarrow> m_sender m \<noteq> None \<and> m_client_msg_id m \<noteq> None"

definition submission_key :: "message \<Rightarrow> string option \<times> string \<times> string option" where
  "submission_key m = (m_sender m, m_conv m, m_client_msg_id m)"

definition sub_keys :: "message list \<Rightarrow> (string option \<times> string \<times> string option) list" where
  "sub_keys ms = map submission_key (filter keyed ms)"

definition sub_inv :: "msg_db \<Rightarrow> bool" where
  "sub_inv db \<longleftrightarrow> distinct (sub_keys (msgs db))"

lemma core_simps [simp]:
  "m_id (core m) = m_id m" "m_conv (core m) = m_conv m" "m_sender (core m) = m_sender m"
  "m_client_msg_id (core m) = m_client_msg_id m" "m_seq (core m) = m_seq m"
  "m_submission (core m) = m_submission m" "m_created (core m) = m_created m"
  "m_type (core m) = m_type m" "m_reply_to (core m) = m_reply_to m"
  by (simp_all add: core_def)

lemma sub_keys_core: "sub_keys (map core ms) = sub_keys ms"
  by (induction ms) (auto simp: sub_keys_def keyed_def submission_key_def)

lemma sub_keys_subseq: "subseq xs ys \<Longrightarrow> subseq (sub_keys xs) (sub_keys ys)"
  by (simp add: sub_keys_def subseq_map subseq_filter)

lemma distinct_subseq: "subseq xs ys \<Longrightarrow> distinct ys \<Longrightarrow> distinct xs"
proof (induction rule: list_emb.induct)
  case (list_emb_Cons2 x y xs ys)
  then show ?case using set_subseq [of xs ys] by auto
qed auto

text \<open>How an operation changes the rows: it appends a keyed-apart row, or only removes or rewrites.\<close>

definition key_free :: "message \<Rightarrow> message list \<Rightarrow> bool" where
  "key_free m ms \<longleftrightarrow> (keyed m \<longrightarrow> submission_key m \<notin> set (sub_keys ms))"

definition rows_step :: "env \<Rightarrow> msg_db \<Rightarrow> msg_db \<Rightarrow> bool" where
  "rows_step env db db' \<longleftrightarrow> next_id db \<le> next_id db' \<and>
     (subseq (map core (msgs db')) (map core (msgs db)) \<or>
      (\<exists>m. msgs db' = msgs db @ [m] \<and> m_id m = fresh env (next_id db) \<and> key_free m (msgs db)))"

lemma rows_step_refl: "rows_step env db db"
  by (simp add: rows_step_def)

lemma rows_step_sub_inv: "rows_step env db db' \<Longrightarrow> sub_inv db \<Longrightarrow> sub_inv db'"
  unfolding rows_step_def sub_inv_def
proof (elim conjE disjE exE)
  assume "subseq (map core (msgs db')) (map core (msgs db))" "distinct (sub_keys (msgs db))"
  then show "distinct (sub_keys (msgs db'))"
    using sub_keys_subseq sub_keys_core distinct_subseq by metis
next
  fix m assume "msgs db' = msgs db @ [m]" "key_free m (msgs db)" "distinct (sub_keys (msgs db))"
  then show "distinct (sub_keys (msgs db'))" by (auto simp: sub_keys_def key_free_def)
qed

text \<open>A used identity keeps naming rows with the same core.\<close>

lemma rows_step_core:
  assumes "rows_step env db db'" "used_id env db i" "\<And>x. x \<in> set (msgs db) \<Longrightarrow> m_id x = i \<Longrightarrow> core x = k"
    and "y \<in> set (msgs db')" "m_id y = i"
  shows "core y = k"
  using assms(1) unfolding rows_step_def
proof (elim conjE disjE exE)
  assume "subseq (map core (msgs db')) (map core (msgs db))"
  then have "set (map core (msgs db')) \<subseteq> set (map core (msgs db))"
    by (rule set_subseq)
  then have "core y \<in> core ` set (msgs db)" using assms(4) by auto
  then obtain x where "x \<in> set (msgs db)" "core x = core y" by force
  with assms(3) [of x] assms(5) core_simps(1) [of x] core_simps(1) [of y] show ?thesis by simp
next
  fix m assume m: "msgs db' = msgs db @ [m]" "m_id m = fresh env (next_id db)"
  then have "y \<noteq> m" using fresh_not_used [OF assms(2)] assms(5) by auto
  with m assms show ?thesis by auto
qed

section \<open>Every operation is a row step\<close>

lemma persist_rows:
  assumes "persist_message env m0 nm (db\<lparr>next_id := Suc (next_id db)\<rparr>) = Inr (m, db')"
  shows "m_id m0 = fresh env (next_id db) \<longrightarrow> rows_step env db db'"
  using assms
  by (elim persist_message_elim)
    (auto simp: rows_step_def key_free_def keyed_def sub_keys_def submission_key_def)

lemma publish_next_id: "publish_inbox_change env ch db = Inr db' \<Longrightarrow> next_id db' = Suc (next_id db)"
  by (auto simp: publish_inbox_change_Inr)

lemma publish_message_change_rows:
  assumes "publish_message_change env kind m db1 = Inr db'" "subseq (map core (msgs db1)) (map core (msgs db))"
    "next_id db1 = next_id db"
  shows "rows_step env db db'"
  using assms publish_frame(1) publish_next_id by (fastforce simp: publish_message_change_Inr rows_step_def)

lemma upd_msg_rows:
  assumes "\<And>m. core (f m) = core m"
  shows "map core (msgs (upd_msg mid f db)) = map core (msgs db)"
  using assms by (rule map_upd_msg)

lemma update_rows:
  assumes "publish_message_change env kind m (upd_msg mid f db) = Inr db'"
  shows "(\<forall>m. core (f m) = core m) \<longrightarrow> rows_step env db db'"
proof
  assume "\<forall>m. core (f m) = core m"
  then have "map core (msgs (upd_msg mid f db)) = map core (msgs db)" by (simp add: upd_msg_rows)
  then show "rows_step env db db'"
    using publish_message_change_rows [OF assms, of db] by simp
qed

lemma run_msg_op_rows:
  assumes "run_msg_op (env, op) db = Inr db'"
  shows "rows_step env db db'"
proof (cases op)
  case Op_Send
  with assms show ?thesis
    by (auto simp: rbind_eq_Inr send_message_Inr send_tx_Inr rows_step_refl new_message_def
        dest!: persist_rows)
next
  case Op_System
  with assms show ?thesis
    by (auto simp: rbind_eq_Inr send_system_message_Inr system_message_def dest!: persist_rows)
next
  case Op_Edit
  with assms show ?thesis
    by (auto simp: edit_message_Inr edit_tx_Inr update_content_with_tx_def core_def
        dest!: update_rows)
next
  case Op_Recall
  with assms show ?thesis
    by (auto simp: recall_message_Inr recall_tx_Inr update_status_with_tx_def core_def
        rows_step_refl dest!: update_rows split: if_splits)
next
  case (Op_Delete md req)
  have "subseq (map core (msgs (delete_with_tx mid db))) (map core (msgs db))" for mid
    by (simp add: delete_with_tx_def subseq_map)
  moreover have "next_id (delete_with_tx mid db) = next_id db" for mid by (simp add: delete_with_tx_def)
  moreover have "rows_step env db d" if "publish_inbox_change env ch (db\<lparr>deletions := x\<rparr>) = Inr d" for ch x d
    using publish_frame(1) [OF that] publish_next_id [OF that] by (simp add: rows_step_def)
  ultimately show ?thesis
    using assms Op_Delete publish_message_change_rows
    by (auto simp: delete_message_Inr delete_tx_def rbind_eq_Inr insert_personal_deletion_def
        rows_step_refl split: if_splits)
qed


section \<open>Retries\<close>

text \<open>
  The row of a used identity keeps its core through any run; the state of the run is the store
  together with that promise.
\<close>

definition row_promise :: "(nat \<Rightarrow> string) \<Rightarrow> string \<Rightarrow> message \<Rightarrow> msg_db \<Rightarrow> bool" where
  "row_promise ids i k db \<longleftrightarrow> store_ok ids db \<and> sub_inv db \<and> used_id (id_env ids) db i \<and>
     (\<forall>x\<in>set (msgs db). m_id x = i \<longrightarrow> core x = k)"

lemma used_id_ids: "fresh env = ids \<Longrightarrow> used_id (id_env ids) db i = used_id env db i"
  by (simp add: used_id_def id_env_def)

lemma row_promise_step:
  assumes op: "id_supply ids env" and p: "row_promise ids i k s" and run: "run_msg_op (env, op) s = Inr t"
  shows "row_promise ids i k t"
proof -
  have f: "fresh env = ids" using op by (simp add: id_supply_def)
  have ps: "store_ok ids s" "sub_inv s" "used_id env s i" "\<And>x. x \<in> set (msgs s) \<Longrightarrow> m_id x = i \<Longrightarrow> core x = k"
    using p by (simp_all add: row_promise_def used_id_ids [OF f])
  have "op_supply ids (env, op)" using op by (simp add: op_supply_def)
  then have st: "store_ok ids t" using ps(1) run by (rule msg_ops.step_inv)
  have rows: "rows_step env s t" using run by (rule run_msg_op_rows)
  then have "next_id s \<le> next_id t" by (simp add: rows_step_def)
  with ps(3) have ut: "used_id env t i" by (rule used_id_mono)
  have "core x = k" if "x \<in> set (msgs t)" "m_id x = i" for x
    using rows ps(3,4) that by (rule rows_step_core)
  then show ?thesis
    using st rows_step_sub_inv [OF rows ps(2)] ut by (simp add: row_promise_def used_id_ids [OF f])
qed

interpretation promised: op_system run_msg_op "op_supply ids" "row_promise ids i k"
proof
  fix op s t
  assume "op_supply ids op" "row_promise ids i k s" "run_msg_op op s = Inr t"
  then show "row_promise ids i k t"
    using row_promise_step [of ids "fst op" i k s "snd op" t] by (simp add: op_supply_def)
qed

lemma sub_keys_unique:
  assumes "distinct (sub_keys ms)" "x \<in> set ms" "y \<in> set ms" "keyed x" "submission_key x = submission_key y"
  shows "x = y"
proof -
  have "keyed y" using assms(4,5) by (auto simp: keyed_def submission_key_def)
  with assms show ?thesis by (auto simp: sub_keys_def distinct_map inj_on_def)
qed

lemma find_submission_core:
  assumes sub: "sub_inv db" and x: "x \<in> set (msgs db)" and k: "m_sender x = Some uid" "m_conv x = cid"
      "m_client_msg_id x = Some key"
  shows "find_submission uid cid key db = Some x"
proof -
  obtain y where y: "find_submission uid cid key db = Some y"
    using x k by (cases "find_submission uid cid key db")
      (auto simp: find_submission_def find_None_iff_all)
  then have yd: "y \<in> set (msgs db)" "m_sender y = Some uid" "m_conv y = cid" "m_client_msg_id y = Some key"
    unfolding find_submission_def by (auto dest: find_SomeD)
  have "x = y"
    using sub x yd(1) unfolding sub_inv_def
    by (rule sub_keys_unique) (simp_all add: keyed_def submission_key_def k yd)
  with y show ?thesis by simp
qed

lemma sent_row:
  assumes "send_message env md req db = Inr (r, db')"
  shows "\<exists>m\<in>set (msgs db'). r = send_response m \<and> m_sender m = Some (sr_from req) \<and>
    m_conv m = sr_conv req \<and> m_client_msg_id m = Some (sr_client_msg_id req) \<and>
    same_submission (submission_json m) (request_submission env req)"
proof -
  obtain m where r: "r = send_response m" and tx: "send_tx env (sr_from req) req (request_content req)
      (request_submission env req) db = Inr (m, db')"
    using send_message_txD [OF assms] by blast
  have refl: "same_submission j j" for j by (simp add: same_submission_def)
  have "m \<in> set (msgs db') \<and> m_sender m = Some (sr_from req) \<and> m_conv m = sr_conv req \<and>
      m_client_msg_id m = Some (sr_client_msg_id req) \<and>
      same_submission (submission_json m) (request_submission env req)"
    using tx unfolding send_tx_Inr
  proof (elim conjE disjE exE)
    assume f: "find_submission (sr_from req) (sr_conv req) (sr_client_msg_id req) db = Some m"
      and s: "same_submission (submission_json m) (request_submission env req)" "db' = db"
    from f have "m \<in> set (msgs db) \<and> m_sender m = Some (sr_from req) \<and> m_conv m = sr_conv req \<and>
        m_client_msg_id m = Some (sr_client_msg_id req)"
      unfolding find_submission_def by (auto dest: find_SomeD)
    with s show ?thesis by simp
  next
    fix ty stored
    assume "persist_message env (new_message env req (fresh env (next_id db))
        (request_submission env req) ty stored) (user_sender_name env (sr_from req))
        (db\<lparr>next_id := Suc (next_id db)\<rparr>) = Inr (m, db')"
    then show ?thesis
      by (elim persist_message_elim) (simp add: new_message_def submission_json_def refl)
  qed
  with r show ?thesis by blast
qed

lemma same_core_submission: "core x = core m \<Longrightarrow> submission_json x = submission_json m"
  unfolding submission_json_def by (metis core_simps(6))

lemma same_submission_self: "canon l = canon r \<Longrightarrow> same_submission l r"
  by (simp add: same_submission_def)

text \<open>
  C6: sending is idempotent. Once a request has succeeded, the same request sent again, after any
  requests by anyone and at any later time, succeeds without changing the store and names the same
  message, with the same position and creation time, provided its sender may still send and the
  message has not been deleted for everyone.
\<close>

theorem send_retry:
  assumes "db_inv env db" "tail_inv db" "sub_inv db" "inj (fresh env)"
    and first: "send_message env md req db = Inr (r, db')"
    and ops: "\<forall>(e, op)\<in>set ops. fresh e = fresh env"
    and later: "db2 = run_ops run_msg_op ops db'"
    and kept: "\<exists>m\<in>set (msgs db2). m_id m = rsp_id r"
    and env': "send_valid env' md req" "json_decode env' = json_decode env"
    and perm: "may_send env' (sr_conv req) (sr_from req) db2 = Inr ()"
  shows "\<exists>r2. send_message env' md req db2 = Inr (r2, db2) \<and>
    rsp_id r2 = rsp_id r \<and> rsp_seq r2 = rsp_seq r \<and> rsp_created r2 = rsp_created r"
proof -
  obtain m where m: "m \<in> set (msgs db')" "r = send_response m" "m_sender m = Some (sr_from req)"
      "m_conv m = sr_conv req" "m_client_msg_id m = Some (sr_client_msg_id req)"
      "same_submission (submission_json m) (request_submission env req)"
    using sent_row [OF first] by blast
  have inv': "db_inv env db'" "tail_inv db'" using send_message_inv [OF assms(1,2,4) first] by auto
  have "rows_step env db db'" using run_msg_op_rows [of env "Op_Send md req" db db'] first by simp
  then have sub': "sub_inv db'" using assms(3) by (rule rows_step_sub_inv)
  have "used_id env db' (m_id m)" using inv'(1) m(1) by (simp add: db_inv_def msgs_wf_def)
  then have "used_id (id_env (fresh env)) db' (m_id m)" by (simp add: used_id_def id_env_def)
  then have start: "row_promise (fresh env) (m_id m) (core m) db'"
    using inv' sub' m(1) inv_unique_id [OF inv'(1)] by (auto simp: row_promise_def store_ok_env)
  have "list_all (op_supply (fresh env)) ops"
    using ops assms(4) by (auto simp: list_all_iff op_supply_def id_supply_def)
  then have fin: "row_promise (fresh env) (m_id m) (core m) db2"
    unfolding later using start by (rule promised.run_ops_inv)
  from kept obtain x where x: "x \<in> set (msgs db2)" "m_id x = m_id m" by (auto simp: m(2) send_response_def)
  then have c: "core x = core m" using fin by (simp add: row_promise_def)
  then have xs: "m_sender x = Some (sr_from req)" "m_conv x = sr_conv req"
      "m_client_msg_id x = Some (sr_client_msg_id req)" "m_seq x = m_seq m" "m_created x = m_created m"
    using m by (metis core_simps)+
  have find: "find_submission (sr_from req) (sr_conv req) (sr_client_msg_id req) db2 = Some x"
    using fin x(1) xs(1-3) by (intro find_submission_core) (simp_all add: row_promise_def)
  have "request_submission env' req = request_submission env req"
    unfolding request_submission_def original_submission_def normal_data_def env'(2) by (rule refl)
  then have same: "same_submission (submission_json x) (request_submission env' req)"
    using m(6) same_core_submission [OF c] by simp
  have "send_message env' md req db2 = Inr (send_response x, db2)"
    using perm find same by (simp add: send_message_eq [OF env'(1)] send_tx_def)
  then show ?thesis using x(2) xs m(2) by (simp add: send_response_def)
qed

lemma sub_inv_demo: "sub_inv demo_db"
  by (simp add: sub_inv_def sub_keys_def demo_db_def empty_db_def)

lemma demo_text_simps:
  "sr_conv (demo_text k t) = ''c1''" "sr_from (demo_text k t) = ''u1''"
  "sr_client_msg_id (demo_text k t) = k"
  by (simp_all add: demo_text_def)

lemma demo_may_send: "may_send demo_env ''c1'' ''u1'' (snd demo_after) = Inr ()"
proof -
  have "is_ok (may_send demo_env ''c1'' ''u1'' (snd demo_after))" by code_simp
  then show ?thesis by (auto simp: is_ok_iff)
qed


theorem send_retry_witness:
  "\<exists>r2. send_message demo_env [''u1''] (demo_text ''k1'' ''hello'') (snd demo_after) = Inr (r2, snd demo_after) \<and>
     rsp_id r2 = rsp_id (fst demo_after)"
proof -
  have inj: "inj (fresh demo_env)" by (simp add: inj_demo_fresh)
  have v: "send_valid demo_env [''u1''] (demo_text ''k1'' ''hello'')" by code_simp
  have k: "\<exists>m\<in>set (msgs (snd demo_after)). m_id m = rsp_id (fst demo_after)" by code_simp
  have "\<forall>(e, op)\<in>set []. fresh e = fresh demo_env" by simp
  from send_retry [OF demo_db_inv sub_inv_demo inj demo_first this run_ops.simps(1) [symmetric] k v refl]
  show ?thesis unfolding demo_text_simps using demo_may_send by blast
qed

text \<open>
  C21: a submission key never stands for two different submissions. When the key already has a
  message and the sender may send, the answer depends only on what the two submissions mean
  (numbers by value, objects regardless of key order): the same meaning returns the stored message,
  another meaning is a conflict, and in neither case is anything stored.
\<close>

theorem send_key_reuse:
  assumes "send_valid env md req" "may_send env (sr_conv req) (sr_from req) db = Inr ()"
    and "find_submission (sr_from req) (sr_conv req) (sr_client_msg_id req) db = Some m"
    and "wf_json (submission_json m)" "wf_json (request_submission env req)"
  shows "send_message env md req db =
    (if meaning_of (submission_json m) = meaning_of (request_submission env req)
     then Inr (send_response m, db) else Inl err_content_conflict)"
  using assms same_submission_meaning [OF assms(4,5)]
  by (simp add: send_message_eq send_tx_def err_content_conflict_def)

theorem send_key_reuse_witness:
  "\<exists>m. find_submission ''u1'' ''c1'' ''k1'' (snd demo_after) = Some m \<and>
     send_message demo_env [''u1''] (demo_text ''k1'' ''other'') (snd demo_after) = Inl err_content_conflict"
proof -
  have v: "send_valid demo_env [''u1''] (demo_text ''k1'' ''other'')" by code_simp
  obtain m where m: "find_submission ''u1'' ''c1'' ''k1'' (snd demo_after) = Some m"
    and sub: "submission_json m = request_submission demo_env (demo_text ''k1'' ''hello'')"
  proof -
    have "(case find_submission ''u1'' ''c1'' ''k1'' (snd demo_after) of None \<Rightarrow> False
        | Some m \<Rightarrow> submission_json m = request_submission demo_env (demo_text ''k1'' ''hello''))"
      by code_simp
    then show thesis using that by (auto split: option.splits)
  qed
  have wf: "wf_json (request_submission demo_env (demo_text ''k1'' ''hello''))"
    "wf_json (request_submission demo_env (demo_text ''k1'' ''other''))"
    by code_simp+
  have "request_submission demo_env (demo_text ''k1'' t) =
      JObj [(''type'', jint 1), (''content'', JObj [(''text'', JStr t), (''mention_user_ids'', JArr []),
        (''mention_all'', JBool False)]), (''reply_to_id'', JNull)]" for t
    by (simp add: request_submission_def request_content_def demo_text_def original_submission_def
        text_content_def content_map_def normal_mentions_def normal_data_def is_file_type_def type_defs
        jstrs_def mentions_of_def sort_by_def)
  then have ne: "meaning_of (request_submission demo_env (demo_text ''k1'' ''hello'')) \<noteq>
      meaning_of (request_submission demo_env (demo_text ''k1'' ''other''))"
    by (auto simp: fun_eq_iff dest!: spec [of _ "''content''"] spec [of _ "''text''"])
  have "send_message demo_env [''u1''] (demo_text ''k1'' ''other'') (snd demo_after) =
      (if meaning_of (submission_json m) = meaning_of (request_submission demo_env (demo_text ''k1'' ''other''))
       then Inr (send_response m, snd demo_after) else Inl err_content_conflict)"
    using v _ _ _ wf(2)
    by (rule send_key_reuse) (simp_all only: demo_text_simps demo_may_send m sub wf)
  with ne m show ?thesis by (simp only: sub) simp
qed

end
