(* ===== verification/Conversations.thy ===== *)
theory Conversations
  imports Messages
begin

text \<open>
  The conversation service (\<^verbatim>\<open>logic/conversationservice\<close>) over the repository operations of
  \<^verbatim>\<open>repo/conversation_repo.go\<close>. An operation returns the system messages it emits after its
  transaction has committed and the new store; the emitted messages are sent by
  \<open>send_system_message\<close> in transactions of their own, so they are part of the result and not of the
  store. The status table of the bots, which belongs to another service, is a parameter.
\<close>

section \<open>Callers and roles\<close>

text \<open>The user of the request context and the values of the \<^verbatim>\<open>user-id\<close> metadata key.\<close>

record caller =
  ctx_user :: string
  md_user :: "string list"

definition err_unauthorized :: err where "err_unauthorized = Biz code_unauthorized ''unauthorized''"
definition err_forbidden :: err where "err_forbidden = Biz code_forbidden ''forbidden''"
definition err_internal :: err where "err_internal = Biz code_internal ''internal server error''"
definition err_conv_param :: err where "err_conv_param = Biz code_invalid_param ''invalid parameter''"
definition err_conv_type :: err where "err_conv_type = Biz code_invalid_param ''invalid conversation type''"
definition err_conv_not_found :: err where "err_conv_not_found = Biz code_not_found ''conversation not found''"
definition err_member_not_found :: err where "err_member_not_found = Biz code_not_found ''member not found''"
definition err_conv_max_members :: err where
  "err_conv_max_members = Biz code_forbidden ''conversation has reached maximum members''"
definition err_member_add_failed :: err where "err_member_add_failed = Biz code_internal ''add member failed''"
definition err_insufficient_perm :: err where "err_insufficient_perm = Biz code_forbidden ''insufficient permissions''"
definition err_not_conv_member :: err where "err_not_conv_member = Biz code_forbidden ''not a member of the conversation''"

definition current_user :: "env \<Rightarrow> caller \<Rightarrow> err + string" where
  "current_user env c =
     (let u = (if ctx_user c = [] then (case md_user c of [v] \<Rightarrow> v | _ \<Rightarrow> []) else ctx_user c) in
      if valid_id env u then Inr u else Inl err_unauthorized)"

definition validate_request :: "env \<Rightarrow> caller \<Rightarrow> string \<Rightarrow> string list \<Rightarrow> err + unit" where
  "validate_request env c uid ids =
     (if \<not> valid_id env uid \<or> \<not> list_all (valid_id env) ids then Inl err_conv_param
      else rbind (current_user env c) (\<lambda>caller. ensure (caller = uid) err_forbidden))"

definition owner_role :: int where "owner_role = 1"
definition admin_role :: int where "admin_role = 2"
definition member_role :: int where "member_role = 3"

lemmas role_defs = owner_role_def admin_role_def member_role_def

definition require_role :: "string \<Rightarrow> string \<Rightarrow> int \<Rightarrow> msg_db \<Rightarrow> err + unit" where
  "require_role cid uid min_role db =
     rbind (if min_role \<le> admin_role
            then rbind (get_conv cid db) (\<lambda>c. ensure (c_type c \<noteq> conv_system) err_forbidden)
            else Inr ()) (\<lambda>_.
     case find_member cid uid db of
       Inl _ \<Rightarrow> Inl err_not_conv_member
     | Inr m \<Rightarrow> ensure (cm_type m = ''user'' \<and> cm_user m \<noteq> None \<and> cm_role m \<le> min_role) err_insufficient_perm)"

definition verify_target_not_higher :: "string \<Rightarrow> string \<Rightarrow> string \<Rightarrow> msg_db \<Rightarrow> err + unit" where
  "verify_target_not_higher cid target operator db =
     (case find_member cid target db of
        Inl _ \<Rightarrow> Inl (Biz code_forbidden ''target is not a member of the conversation'')
      | Inr t \<Rightarrow>
          case find_member cid operator db of
            Inl _ \<Rightarrow> Inl (Biz code_forbidden ''operator is not a member of the conversation'')
          | Inr p \<Rightarrow> ensure (cm_role p < cm_role t)
              (Biz code_forbidden ''cannot operate on member with equal or higher role''))"

section \<open>Locked conversations and their publications\<close>

definition with_locked_conversation ::
  "env \<Rightarrow> string \<Rightarrow> (conversation \<Rightarrow> msg_db \<Rightarrow> err + 'a) \<Rightarrow> msg_db \<Rightarrow> err + 'a" where
  "with_locked_conversation env cid f db =
     (if \<not> valid_id env cid then Inl err_conv_param
      else rbind (get_conv cid db) (\<lambda>c. f c db))"

definition conversation_change :: "string \<Rightarrow> string \<Rightarrow> string list \<Rightarrow> change" where
  "conversation_change kind cid users = no_change\<lparr>ch_kind := kind, ch_conv := cid, ch_recipients := Some users\<rparr>"

text \<open>\<open>None\<close> recipients are every current human member.\<close>

definition publish_conversation_change ::
  "env \<Rightarrow> string \<Rightarrow> string list option \<Rightarrow> string list \<Rightarrow> msg_db \<Rightarrow> err + msg_db" where
  "publish_conversation_change env cid recipients removed db =
     (let users = (case recipients of None \<Rightarrow> member_ids cid db | Some us \<Rightarrow> us) in
      rbind (if users \<noteq> [] then publish_inbox_change env (conversation_change kind_upsert cid users) db
             else Inr db) (\<lambda>db1.
      if removed \<noteq> [] then publish_inbox_change env (conversation_change kind_removed cid removed) db1
      else Inr db1))"

text \<open>
  \<open>publishBotActivity\<close> allocates a message position for the activity, so that it shares the clock of
  the messages, and publishes it on the bots' topic.
\<close>

definition publish_bot_activity ::
  "env \<Rightarrow> string \<Rightarrow> string \<Rightarrow> string \<Rightarrow> string \<Rightarrow> json \<Rightarrow> msg_db \<Rightarrow> err + msg_db" where
  "publish_bot_activity env cid ty actor text data db =
     rbind (next_seq env cid db) (\<lambda>(seq, db1).
     rbind (next_publication env cid db1) (\<lambda>(n, db2).
       let (id, db3) = new_id env db2;
           db4 = upd_conv cid (\<lambda>c. c\<lparr>c_max_seq := seq\<rparr>) db3
       in insert_outbox
            \<lparr>o_id = id, o_conv = cid, o_pub_seq = n, o_topic = ''conversation.bot.added'', o_key = cid,
             o_payload = BotActivity \<lparr>act_id = id, act_type = ty, act_conv = cid, act_actor = actor,
               act_text = text, act_seq = seq, act_data = data\<rparr>,
             o_status = outbox_pending, o_retry = 0, o_max_retries = max_retries_default,
             o_next_retry = None, o_last_error = [], o_created = now env, o_dispatched = None\<rparr> db4))"

definition activity_member_joined :: string where "activity_member_joined = ''member.joined''"
definition activity_member_left :: string where "activity_member_left = ''member.left''"
definition activity_business :: string where "activity_business = ''business.activity''"

section \<open>Emitted system messages\<close>

text \<open>\<^verbatim>\<open>encoding/json\<close> on a string of UTF-8 bytes.\<close>

definition hex_digit :: "nat \<Rightarrow> char" where
  "hex_digit n = (if n < 10 then char_of (48 + n) else char_of (87 + n))"

definition unicode_escape :: "char \<Rightarrow> string" where
  "unicode_escape c = (let n = of_char c in
     [CHR 0x5C, CHR ''u'', CHR ''0'', CHR ''0'', hex_digit (n div 16), hex_digit (n mod 16)])"

fun escape_byte :: "char \<Rightarrow> string" where
  "escape_byte c =
     (if c = CHR 0x22 then [CHR 0x5C, CHR 0x22]
      else if c = CHR 0x5C then [CHR 0x5C, CHR 0x5C]
      else if c = CHR 0x08 then [CHR 0x5C, CHR ''b'']
      else if c = CHR 0x0C then [CHR 0x5C, CHR ''f'']
      else if c = CHR 0x0A then [CHR 0x5C, CHR ''n'']
      else if c = CHR 0x0D then [CHR 0x5C, CHR ''r'']
      else if c = CHR 0x09 then [CHR 0x5C, CHR ''t'']
      else if of_char c < (32::nat) \<or> c \<in> {CHR ''<'', CHR ''>'', CHR ''&''} then unicode_escape c
      else [c])"

fun json_escape :: "string \<Rightarrow> string" where
  "json_escape (a # b # c # s) =
     (if a = CHR 0xE2 \<and> b = CHR 0x80 \<and> c = CHR 0xA8 then [CHR 0x5C] @ ''u2028'' @ json_escape s
      else if a = CHR 0xE2 \<and> b = CHR 0x80 \<and> c = CHR 0xA9 then [CHR 0x5C] @ ''u2029'' @ json_escape s
      else escape_byte a @ json_escape (b # c # s))"
| "json_escape s = concat (map escape_byte s)"

definition json_quote :: "string \<Rightarrow> string" where
  "json_quote s = [CHR 0x22] @ json_escape s @ [CHR 0x22]"

definition json_pairs :: "(string \<times> string) list \<Rightarrow> string" where
  "json_pairs kvs = ''{'' @ foldr (\<lambda>(k, v) rest. json_quote k @ '':'' @ json_quote v @
     (if rest = ''}'' then rest else '','' @ rest)) kvs ''}''"

definition emit_system_message :: "string \<Rightarrow> string \<Rightarrow> string \<Rightarrow> string \<Rightarrow> string list \<Rightarrow> system_req" where
  "emit_system_message cid operator action detail related =
     \<lparr>sy_conv = cid, sy_action = action, sy_detail = detail, sy_related = related, sy_actor = Some operator,
      sy_actor_type = ''user'', sy_payload = json_pairs [(''action'', action), (''operator'', operator)]\<rparr>"

section \<open>Inserting rows\<close>

definition insert_conversation :: "conversation \<Rightarrow> msg_db \<Rightarrow> err + msg_db" where
  "insert_conversation c db =
     (if convs db (c_id c) \<noteq> None then Inl (Violation ''conversations_pkey'')
      else Inr (db\<lparr>convs := (convs db)(c_id c \<mapsto> c)\<rparr>))"

text \<open>A batch of members, under the primary key and the unique pair of conversation and user.\<close>

definition member_key :: "conv_member \<Rightarrow> string \<times> string option" where
  "member_key m = (cm_conv m, cm_user m)"

definition insert_members :: "conv_member list \<Rightarrow> msg_db \<Rightarrow> err + msg_db" where
  "insert_members ms db =
     (let all = members db @ ms in
      if distinct (map cm_id all) \<and> distinct (map member_key all) then Inr (db\<lparr>members := all\<rparr>)
      else Inl (Violation ''idx_conv_members_pair''))"

definition new_member :: "env \<Rightarrow> string \<Rightarrow> string \<Rightarrow> int \<Rightarrow> string \<Rightarrow> conv_member" where
  "new_member env cid uid role mid = \<lparr>cm_id = mid, cm_conv = cid, cm_user = Some uid, cm_type = ''user'',
     cm_role = role, cm_alias = [], cm_muted = False, cm_mute_until = 0, cm_joined = now env\<rparr>"

text \<open>Rows for a list of users, each with an identity of its own.\<close>

fun new_members :: "env \<Rightarrow> string \<Rightarrow> (string \<times> int) list \<Rightarrow> msg_db \<Rightarrow> conv_member list \<times> msg_db" where
  "new_members env cid [] db = ([], db)"
| "new_members env cid ((uid, role) # us) db =
     (let (mid, db1) = new_id env db; (ms, db2) = new_members env cid us db1
      in (new_member env cid uid role mid # ms, db2))"

section \<open>Adding members\<close>

definition err_member_limit :: err where "err_member_limit = Plain ''conversation member limit reached''"

definition human_key :: "env \<Rightarrow> conv_member \<Rightarrow> err + string" where
  "human_key env m =
     (case cm_user m of
        None \<Rightarrow> Inl (Plain ''conversation member requires a human user identity'')
      | Some u \<Rightarrow>
          if cm_type m \<noteq> ''user'' then Inl (Plain ''conversation member requires a human user identity'')
          else if valid_id env u then Inr u else Inl (Plain ''invalid entity identity''))"

text \<open>
  The candidates that are new, in order, and the users that are not; \<open>seen\<close> are the users already
  in the conversation or earlier in the batch.
\<close>

fun split_members ::
  "env \<Rightarrow> string \<Rightarrow> string list \<Rightarrow> conv_member list \<Rightarrow> err + (conv_member list \<times> string list)" where
  "split_members env cid seen [] = Inr ([], [])"
| "split_members env cid seen (m # ms) =
     (if cm_conv m \<noteq> cid then Inl (Plain ''member belongs to another conversation'')
      else rbind (human_key env m) (\<lambda>u.
        if u \<in> set seen
        then rbind (split_members env cid seen ms) (\<lambda>(pending, failed). Inr (pending, u # failed))
        else rbind (split_members env cid (u # seen) ms) (\<lambda>(pending, failed). Inr (m # pending, failed))))"

definition add_members_within_limit ::
  "env \<Rightarrow> string \<Rightarrow> conv_member list \<Rightarrow> msg_db \<Rightarrow> err + (string list \<times> string list \<times> msg_db)" where
  "add_members_within_limit env cid ms db =
     (if ms = [] then Inr ([], [], db)
      else rbind (get_conv cid db) (\<lambda>_.
        let current = filter (is_human_member cid) (members db) in
        rbind (check_all (\<lambda>m. rbind (human_key env m) (\<lambda>_. Inr ())) current) (\<lambda>_.
        rbind (split_members env cid (map user_of current) ms) (\<lambda>(pending, failed).
          if pending = [] then Inr ([], failed, db)
          else if int (length current + length pending) > max_members env then Inl err_member_limit
          else rbind (insert_members pending db) (\<lambda>db1.
            Inr (map user_of pending, failed,
                 upd_conv cid (\<lambda>c. c\<lparr>c_member_count := c_member_count c + int (length pending),
                   c_updated := now env\<rparr>) db1))))))"

text \<open>The activity of each user that joined, then one conversation change.\<close>

definition member_data :: "conv_member \<Rightarrow> json" where
  "member_data m = JObj [(''user_id'', JStr (user_of m)), (''member_id'', JStr (cm_id m))]"

definition joined_activity :: "env \<Rightarrow> string \<Rightarrow> string \<Rightarrow> string \<Rightarrow> msg_db \<Rightarrow> err + msg_db" where
  "joined_activity env cid operator uid db =
     rbind (find_member cid uid db) (\<lambda>m.
       publish_bot_activity env cid activity_member_joined operator ''Member joined''
         (JObj [(''user_id'', JStr uid), (''member_id'', JStr (cm_id m))]) db)"

definition joined_detail :: string where
  "joined_detail = bytes [0xE6, 0x88, 0x90, 0xE5, 0x91, 0x98, 0xE5, 0x8A, 0xA0, 0xE5, 0x85, 0xA5,
     0xE4, 0xBA, 0x86, 0xE7, 0xBE, 0xA4, 0xE8, 0x81, 0x8A]"

fun add_error :: "err \<Rightarrow> err" where
  "add_error e = (if e = err_member_limit then err_conv_max_members else e)"

definition add_members ::
  "env \<Rightarrow> caller \<Rightarrow> string \<Rightarrow> string \<Rightarrow> string list \<Rightarrow> msg_db \<Rightarrow>
     err + ((string list \<times> string list) \<times> system_req list \<times> msg_db)" where
  "add_members env c operator cid users db =
     rbind (validate_request env c operator [cid]) (\<lambda>_.
     rbind (validate_request env c operator users) (\<lambda>_.
       let (ms, db0) = new_members env cid (map (\<lambda>u. (u, member_role)) users) db in
       rbind (map_err add_error (with_locked_conversation env cid (\<lambda>conv db.
           rbind (require_role cid operator admin_role db) (\<lambda>_.
           rbind (add_members_within_limit env cid ms db) (\<lambda>(added, failed, db1).
             if added = [] then Inr (added, failed, db1)
             else rbind (rfold (joined_activity env cid operator) added db1) (\<lambda>db2.
                  rbind (publish_conversation_change env cid None [] db2) (\<lambda>db3.
                    Inr (added, failed, db3)))))) db0)) (\<lambda>(added, failed, db').
         Inr ((added, failed),
           if added = [] then [] else [emit_system_message cid operator ''member.joined'' joined_detail added],
           db'))))"

end
