(* ===== verification/Conversation_Admin.thy ===== *)
theory Conversation_Admin
  imports Conversations
begin

text \<open>
  The remaining state-changing operations of the conversation service: leaving and removal, roles and
  ownership, mutes, settings, announcements, read positions, deletion and creation.
\<close>

type_synonym conv_result = "err + (system_req list \<times> msg_db)"

section \<open>Row operations\<close>

definition remove_member :: "string \<Rightarrow> string \<Rightarrow> msg_db \<Rightarrow> msg_db" where
  "remove_member cid uid db =
     db\<lparr>members := filter (\<lambda>m. \<not> (cm_conv m = cid \<and> cm_user m = Some uid)) (members db)\<rparr>"

definition upd_members :: "string \<Rightarrow> string \<Rightarrow> (conv_member \<Rightarrow> conv_member) \<Rightarrow> msg_db \<Rightarrow> msg_db" where
  "upd_members cid uid f db =
     db\<lparr>members := update_where (\<lambda>m. cm_conv m = cid \<and> cm_user m = Some uid) f (members db)\<rparr>"

definition increment_member_count :: "env \<Rightarrow> string \<Rightarrow> int \<Rightarrow> msg_db \<Rightarrow> msg_db" where
  "increment_member_count env cid n =
     upd_conv cid (\<lambda>c. c\<lparr>c_member_count := c_member_count c + n, c_updated := now env\<rparr>)"

section \<open>Removing members\<close>

text \<open>The member rows to remove; leaving needs no role, removing another needs a higher one.\<close>

fun removal_targets ::
  "string \<Rightarrow> string \<Rightarrow> string list \<Rightarrow> string list \<Rightarrow> msg_db \<Rightarrow> err + conv_member list" where
  "removal_targets cid operator seen [] db = Inr []"
| "removal_targets cid operator seen (u # us) db =
     (if u \<in> set seen then removal_targets cid operator seen us db
      else rbind (if u \<noteq> operator
                  then rbind (require_role cid operator admin_role db) (\<lambda>_.
                       verify_target_not_higher cid u operator db)
                  else Inr ()) (\<lambda>_.
           rbind (find_member cid u db) (\<lambda>m.
           rbind (removal_targets cid operator (u # seen) us db) (\<lambda>ms. Inr (m # ms)))))"

definition remove_one :: "env \<Rightarrow> string \<Rightarrow> string \<Rightarrow> conv_member \<Rightarrow> msg_db \<Rightarrow> err + msg_db" where
  "remove_one env cid operator m db =
     (let db1 = remove_member cid (user_of m) db in
      if cm_type m = ''user''
      then publish_bot_activity env cid activity_member_left operator ''Member left'' (member_data m) db1
      else Inr db1)"

definition left_detail :: string where
  "left_detail = bytes [0xE6, 0x88, 0x90, 0xE5, 0x91, 0x98, 0xE9, 0x80, 0x80, 0xE5, 0x87, 0xBA,
     0xE4, 0xBA, 0x86, 0xE7, 0xBE, 0xA4, 0xE8, 0x81, 0x8A]"

definition left_self_detail :: string where
  "left_self_detail = bytes [0xE9, 0x80, 0x80, 0xE5, 0x87, 0xBA, 0xE4, 0xBA, 0x86, 0xE7, 0xBE, 0xA4,
     0xE8, 0x81, 0x8A]"

definition remove_members ::
  "env \<Rightarrow> caller \<Rightarrow> string \<Rightarrow> string \<Rightarrow> string list \<Rightarrow> msg_db \<Rightarrow> conv_result" where
  "remove_members env c operator cid users db =
     rbind (validate_request env c operator [cid]) (\<lambda>_.
     rbind (validate_request env c operator users) (\<lambda>_.
     rbind (with_locked_conversation env cid (\<lambda>conv db.
         rbind (ensure (c_type conv \<noteq> conv_system) err_forbidden) (\<lambda>_.
         rbind (require_role cid operator member_role db) (\<lambda>_.
         rbind (removal_targets cid operator [] users db) (\<lambda>ms.
         let removed = map user_of (filter (\<lambda>m. cm_type m = ''user'') ms) in
         rbind (rfold (remove_one env cid operator) ms db) (\<lambda>db1.
         rbind (publish_conversation_change env cid None removed
                  (increment_member_count env cid (- int (length ms)) db1)) (\<lambda>db2.
           Inr (removed, db2))))))) db) (\<lambda>(removed, db').
       Inr (map (\<lambda>u. emit_system_message cid u ''member.left''
              (if u = operator then left_self_detail else left_detail) [u]) removed, db'))))"

section \<open>Roles and ownership\<close>

definition transfer_detail :: string where
  "transfer_detail = bytes [0xE8, 0xBD, 0xAC, 0xE8, 0xAE, 0xA9, 0xE4, 0xBA, 0x86, 0xE7, 0xBE, 0xA4,
     0xE4, 0xB8, 0xBB, 0xE8, 0xBA, 0xAB, 0xE4, 0xBB, 0xBD]"

definition update_conversation_owner :: "env \<Rightarrow> string \<Rightarrow> string \<Rightarrow> msg_db \<Rightarrow> msg_db" where
  "update_conversation_owner env cid uid = upd_conv cid (\<lambda>c. c\<lparr>c_owner := Some uid, c_updated := now env\<rparr>)"

definition update_member_role :: "string \<Rightarrow> string \<Rightarrow> int \<Rightarrow> msg_db \<Rightarrow> msg_db" where
  "update_member_role cid uid role = upd_members cid uid (\<lambda>m. m\<lparr>cm_role := role\<rparr>)"

definition transfer_owner :: "env \<Rightarrow> caller \<Rightarrow> string \<Rightarrow> string \<Rightarrow> string \<Rightarrow> msg_db \<Rightarrow> conv_result" where
  "transfer_owner env c operator cid new_owner db =
     rbind (validate_request env c operator [cid, new_owner]) (\<lambda>_.
     rbind (with_locked_conversation env cid (\<lambda>conv db.
         rbind (require_role cid operator owner_role db) (\<lambda>_.
         rbind (find_member cid new_owner db) (\<lambda>t.
         rbind (ensure (cm_type t = ''user'' \<and> cm_user t \<noteq> None) err_conv_param) (\<lambda>_.
           if new_owner = operator then Inr db
           else publish_conversation_change env cid None []
             (update_member_role cid operator member_role
               (update_member_role cid new_owner owner_role
                 (update_conversation_owner env cid new_owner db))))))) db) (\<lambda>db'.
       Inr ([emit_system_message cid operator ''conversation.owner.transferred'' transfer_detail [new_owner]], db')))"

definition err_ownership :: err where
  "err_ownership = Biz code_forbidden ''ownership changes require transfer owner''"

definition changed_role :: "string \<Rightarrow> string \<Rightarrow> int option \<Rightarrow> conv_member \<Rightarrow> msg_db \<Rightarrow> err + conv_member" where
  "changed_role cid operator role m db =
     (case role of
        None \<Rightarrow> Inr m
      | Some r \<Rightarrow>
          rbind (require_role cid operator owner_role db) (\<lambda>_.
          if cm_role m = owner_role \<or> r < admin_role \<or> r > member_role then Inl err_ownership
          else Inr (m\<lparr>cm_role := r\<rparr>)))"

definition changed_alias ::
  "string \<Rightarrow> string \<Rightarrow> string \<Rightarrow> string option \<Rightarrow> conv_member \<Rightarrow> msg_db \<Rightarrow> err + conv_member" where
  "changed_alias cid operator uid alias m db =
     (case alias of
        None \<Rightarrow> Inr m
      | Some a \<Rightarrow>
          rbind (if uid \<noteq> operator
                 then rbind (require_role cid operator admin_role db) (\<lambda>_.
                      verify_target_not_higher cid uid operator db)
                 else Inr ()) (\<lambda>_. Inr (m\<lparr>cm_alias := a\<rparr>)))"

definition update_member ::
  "env \<Rightarrow> caller \<Rightarrow> string \<Rightarrow> string \<Rightarrow> string \<Rightarrow> int option \<Rightarrow> string option \<Rightarrow> msg_db \<Rightarrow> conv_result" where
  "update_member env c operator cid uid role alias db =
     rbind (validate_request env c operator [cid, uid]) (\<lambda>_.
     rbind (with_locked_conversation env cid (\<lambda>conv db.
         rbind (ensure (c_type conv \<noteq> conv_system) err_forbidden) (\<lambda>_.
         rbind (require_role cid operator member_role db) (\<lambda>_.
         rbind (map_err (\<lambda>_. err_member_not_found) (find_member cid uid db)) (\<lambda>m.
         rbind (changed_role cid operator role m db) (\<lambda>m1.
         rbind (changed_alias cid operator uid alias m1 db) (\<lambda>m2.
           publish_conversation_change env cid None []
             (upd_members cid uid (\<lambda>x. x\<lparr>cm_role := cm_role m2, cm_alias := cm_alias m2\<rparr>) db))))))) db) (\<lambda>db'.
       Inr ([], db')))"

section \<open>Mutes\<close>

definition mute_detail :: "int \<Rightarrow> string" where
  "mute_detail d = bytes [0xE8, 0xA2, 0xAB, 0xE7, 0xA6, 0x81, 0xE8, 0xA8, 0x80] @
     (if d > 0 then '' '' @ show_int d @ '' '' @ bytes [0xE7, 0xA7, 0x92] else [])"

definition unmute_detail :: string where
  "unmute_detail = bytes [0xE8, 0xA2, 0xAB, 0xE5, 0x8F, 0x96, 0xE6, 0xB6, 0x88, 0xE7, 0xA6, 0x81,
     0xE8, 0xA8, 0x80]"

definition repo_mute_member :: "string \<Rightarrow> string \<Rightarrow> int \<Rightarrow> msg_db \<Rightarrow> msg_db" where
  "repo_mute_member cid uid t = upd_members cid uid (\<lambda>m. m\<lparr>cm_muted := True, cm_mute_until := t\<rparr>)"

definition repo_unmute_member :: "string \<Rightarrow> string \<Rightarrow> msg_db \<Rightarrow> msg_db" where
  "repo_unmute_member cid uid = upd_members cid uid (\<lambda>m. m\<lparr>cm_muted := False, cm_mute_until := 0\<rparr>)"

definition mute_member :: "env \<Rightarrow> caller \<Rightarrow> string \<Rightarrow> string \<Rightarrow> string \<Rightarrow> int \<Rightarrow> msg_db \<Rightarrow> conv_result" where
  "mute_member env c operator cid uid duration db =
     rbind (validate_request env c operator [cid, uid]) (\<lambda>_.
     rbind (with_locked_conversation env cid (\<lambda>conv db.
         rbind (require_role cid operator admin_role db) (\<lambda>_.
         rbind (verify_target_not_higher cid uid operator db) (\<lambda>_.
           publish_conversation_change env cid None []
             (repo_mute_member cid uid (if duration > 0 then wrap64 (unix (now env) + duration) else 0) db)))) db) (\<lambda>db'.
       Inr ([emit_system_message cid operator ''member.muted'' (mute_detail duration) [uid]], db')))"

definition unmute_member :: "env \<Rightarrow> caller \<Rightarrow> string \<Rightarrow> string \<Rightarrow> string \<Rightarrow> msg_db \<Rightarrow> conv_result" where
  "unmute_member env c operator cid uid db =
     rbind (validate_request env c operator [cid, uid]) (\<lambda>_.
     rbind (with_locked_conversation env cid (\<lambda>conv db.
         rbind (require_role cid operator admin_role db) (\<lambda>_.
         rbind (verify_target_not_higher cid uid operator db) (\<lambda>_.
           publish_conversation_change env cid None [] (repo_unmute_member cid uid db)))) db) (\<lambda>db'.
       Inr ([emit_system_message cid operator ''member.unmuted'' unmute_detail [uid]], db')))"

definition update_conversation_muted_all :: "env \<Rightarrow> string \<Rightarrow> bool \<Rightarrow> msg_db \<Rightarrow> msg_db" where
  "update_conversation_muted_all env cid b = upd_conv cid (\<lambda>c. c\<lparr>c_muted_all := b, c_updated := now env\<rparr>)"

definition muted_all_detail :: string where
  "muted_all_detail = bytes [0xE5, 0xBC, 0x80, 0xE5, 0x90, 0xAF, 0xE4, 0xBA, 0x86, 0xE5, 0x85, 0xA8,
     0xE5, 0x91, 0x98, 0xE7, 0xA6, 0x81, 0xE8, 0xA8, 0x80]"

definition unmuted_all_detail :: string where
  "unmuted_all_detail = bytes [0xE5, 0x85, 0xB3, 0xE9, 0x97, 0xAD, 0xE4, 0xBA, 0x86, 0xE5, 0x85, 0xA8,
     0xE5, 0x91, 0x98, 0xE7, 0xA6, 0x81, 0xE8, 0xA8, 0x80]"

text \<open>The shape of an administrator's change of one conversation.\<close>

definition admin_change ::
  "env \<Rightarrow> caller \<Rightarrow> string \<Rightarrow> string \<Rightarrow> (msg_db \<Rightarrow> msg_db) \<Rightarrow> msg_db \<Rightarrow> err + msg_db" where
  "admin_change env c operator cid f db =
     rbind (validate_request env c operator [cid]) (\<lambda>_.
       with_locked_conversation env cid (\<lambda>conv db.
         rbind (require_role cid operator admin_role db) (\<lambda>_.
           publish_conversation_change env cid None [] (f db))) db)"

definition mute_all :: "env \<Rightarrow> caller \<Rightarrow> string \<Rightarrow> string \<Rightarrow> msg_db \<Rightarrow> conv_result" where
  "mute_all env c operator cid db =
     rbind (admin_change env c operator cid (update_conversation_muted_all env cid True) db) (\<lambda>db'.
       Inr ([emit_system_message cid operator ''conversation.muted_all'' muted_all_detail []], db'))"

definition unmute_all :: "env \<Rightarrow> caller \<Rightarrow> string \<Rightarrow> string \<Rightarrow> msg_db \<Rightarrow> conv_result" where
  "unmute_all env c operator cid db =
     rbind (admin_change env c operator cid (update_conversation_muted_all env cid False) db) (\<lambda>db'.
       Inr ([emit_system_message cid operator ''conversation.unmuted_all'' unmuted_all_detail []], db'))"

section \<open>Conversation attributes\<close>

definition set_opt :: "'a option \<Rightarrow> 'a \<Rightarrow> 'a" where
  "set_opt x old = (case x of None \<Rightarrow> old | Some v \<Rightarrow> v)"

definition repo_update_conversation ::
  "env \<Rightarrow> string \<Rightarrow> string \<Rightarrow> string \<Rightarrow> string \<Rightarrow> msg_db \<Rightarrow> msg_db" where
  "repo_update_conversation env cid name avatar background = upd_conv cid (\<lambda>c.
     c\<lparr>c_name := name, c_avatar := avatar, c_background := background, c_updated := now env\<rparr>)"

fun update_conversation_error :: "err \<Rightarrow> err" where
  "update_conversation_error RecordNotFound = err_conv_not_found"
| "update_conversation_error e = e"

definition update_conversation ::
  "env \<Rightarrow> caller \<Rightarrow> string \<Rightarrow> string \<Rightarrow> string option \<Rightarrow> string option \<Rightarrow> string option \<Rightarrow> msg_db \<Rightarrow> conv_result" where
  "update_conversation env c uid cid name avatar background db =
     rbind (validate_request env c uid [cid]) (\<lambda>_.
     rbind (map_err update_conversation_error (with_locked_conversation env cid (\<lambda>conv db.
         rbind (ensure (c_type conv = conv_group)
                  (Biz code_forbidden ''only group conversations can be updated'')) (\<lambda>_.
         rbind (require_role cid uid admin_role db) (\<lambda>_.
           publish_conversation_change env cid None []
             (repo_update_conversation env cid (set_opt name (c_name conv)) (set_opt avatar (c_avatar conv))
                (set_opt background (c_background conv)) db)))) db)) (\<lambda>db'.
       Inr ([], db')))"

definition update_conversation_announcement :: "env \<Rightarrow> string \<Rightarrow> string \<Rightarrow> msg_db \<Rightarrow> msg_db" where
  "update_conversation_announcement env cid text =
     upd_conv cid (\<lambda>c. c\<lparr>c_announcement := text, c_updated := now env\<rparr>)"

definition announcement_deleted_detail :: string where
  "announcement_deleted_detail = bytes [0xE7, 0xBE, 0xA4, 0xE5, 0x85, 0xAC, 0xE5, 0x91, 0x8A,
     0xE5, 0xB7, 0xB2, 0xE5, 0x88, 0xA0, 0xE9, 0x99, 0xA4]"

definition announcement_message :: "string \<Rightarrow> string \<Rightarrow> string \<Rightarrow> string \<Rightarrow> string \<Rightarrow> system_req" where
  "announcement_message cid operator action content old =
     \<lparr>sy_conv = cid, sy_action = action,
      sy_detail = (if action = ''announcement.deleted'' then announcement_deleted_detail else content),
      sy_related = [], sy_actor = Some operator, sy_actor_type = ''user'',
      sy_payload = json_pairs [(''content'', content), (''old_content'', old)]\<rparr>"

definition set_announcement :: "env \<Rightarrow> caller \<Rightarrow> string \<Rightarrow> string \<Rightarrow> string \<Rightarrow> msg_db \<Rightarrow> conv_result" where
  "set_announcement env c operator cid content db =
     rbind (validate_request env c operator [cid]) (\<lambda>_.
     rbind (with_locked_conversation env cid (\<lambda>conv db.
         rbind (require_role cid operator admin_role db) (\<lambda>_.
           let db1 = update_conversation_announcement env cid content db in
           if length content > 32768 then Inl err_conv_param
           else rbind (publish_bot_activity env cid activity_business operator content
                         (JObj [(''business_type'', JStr ''conversation.announcement.updated'')]) db1) (\<lambda>db2.
                rbind (publish_conversation_change env cid None [] db2) (\<lambda>db3.
                  Inr (c_announcement conv, db3))))) db) (\<lambda>(old, db').
       Inr ([announcement_message cid operator ''announcement.updated'' content old], db')))"

definition delete_announcement :: "env \<Rightarrow> caller \<Rightarrow> string \<Rightarrow> string \<Rightarrow> msg_db \<Rightarrow> conv_result" where
  "delete_announcement env c operator cid db =
     rbind (validate_request env c operator [cid]) (\<lambda>_.
     rbind (with_locked_conversation env cid (\<lambda>conv db.
         rbind (require_role cid operator admin_role db) (\<lambda>_.
         rbind (publish_conversation_change env cid None []
                  (update_conversation_announcement env cid [] db)) (\<lambda>db1.
           Inr (c_announcement conv, db1)))) db) (\<lambda>(old, db').
       Inr ([announcement_message cid operator ''announcement.deleted'' [] old], db')))"

section \<open>Private settings and read positions\<close>

definition find_settings :: "string \<Rightarrow> string \<Rightarrow> msg_db \<Rightarrow> conv_settings option" where
  "find_settings cid uid db = find (\<lambda>s. cs_conv s = cid \<and> cs_user s = uid) (settings db)"

definition upsert_settings :: "conv_settings \<Rightarrow> msg_db \<Rightarrow> msg_db" where
  "upsert_settings s db =
     (case find_settings (cs_conv s) (cs_user s) db of
        None \<Rightarrow> db\<lparr>settings := settings db @ [s]\<rparr>
      | Some _ \<Rightarrow> db\<lparr>settings := update_where (\<lambda>x. cs_conv x = cs_conv s \<and> cs_user x = cs_user s)
          (\<lambda>x. x\<lparr>cs_muted := cs_muted s, cs_pinned := cs_pinned s\<rparr>) (settings db)\<rparr>)"

definition update_settings ::
  "env \<Rightarrow> caller \<Rightarrow> string \<Rightarrow> string \<Rightarrow> bool option \<Rightarrow> bool option \<Rightarrow> msg_db \<Rightarrow> conv_result" where
  "update_settings env c uid cid muted pinned db =
     rbind (validate_request env c uid [cid]) (\<lambda>_.
     rbind (with_locked_conversation env cid (\<lambda>conv db.
         rbind (require_role cid uid member_role db) (\<lambda>_.
           let (s, db1) = (case find_settings cid uid db of
                   Some s \<Rightarrow> (s, db)
                 | None \<Rightarrow> let (sid, db1) = new_id env db in
                     (\<lparr>cs_id = sid, cs_conv = cid, cs_user = uid, cs_muted = False, cs_pinned = False\<rparr>, db1));
               s' = s\<lparr>cs_muted := set_opt muted (cs_muted s), cs_pinned := set_opt pinned (cs_pinned s)\<rparr>
           in publish_conversation_change env cid (Some [uid]) [] (upsert_settings s' db1))) db) (\<lambda>db'.
       Inr ([], db')))"

definition find_read :: "string \<Rightarrow> string \<Rightarrow> msg_db \<Rightarrow> conv_read_seq option" where
  "find_read cid uid db = find (\<lambda>r. rs_conv r = cid \<and> rs_user r = uid) (reads db)"

definition upsert_read_seq ::
  "env \<Rightarrow> string \<Rightarrow> string \<Rightarrow> int \<Rightarrow> string \<Rightarrow> msg_db \<Rightarrow> err + (int \<times> bool \<times> msg_db)" where
  "upsert_read_seq env cid uid seq rid db =
     rbind (seq_validate seq) (\<lambda>_.
     rbind (get_conv cid db) (\<lambda>c.
     if \<not> (\<exists>m\<in>set (members db). cm_conv m = cid \<and> cm_user m = Some uid) then Inl RecordNotFound
     else let n = min (max seq 0) (c_max_seq c) in
       case find_read cid uid db of
         None \<Rightarrow> Inr (n, n > 0, db\<lparr>reads := reads db @
             [\<lparr>rs_id = rid, rs_conv = cid, rs_user = uid, rs_last = n, rs_at = now env\<rparr>]\<rparr>)
       | Some r \<Rightarrow>
           if rs_last r < n
           then Inr (n, n > 0, db\<lparr>reads := update_where (\<lambda>x. rs_conv x = cid \<and> rs_user x = uid)
                  (\<lambda>x. x\<lparr>rs_last := n, rs_at := now env\<rparr>) (reads db)\<rparr>)
           else Inr (rs_last r, False, db)))"

fun read_error :: "err \<Rightarrow> err" where
  "read_error RecordNotFound = err_not_conv_member"
| "read_error e = e"

definition mark_as_read :: "env \<Rightarrow> caller \<Rightarrow> string \<Rightarrow> string \<Rightarrow> int \<Rightarrow> msg_db \<Rightarrow> conv_result" where
  "mark_as_read env c uid cid seq db =
     rbind (validate_request env c uid [cid]) (\<lambda>_.
     rbind (map_err (\<lambda>_. err_conv_param) (seq_validate seq)) (\<lambda>_.
     rbind (current_user env c) (\<lambda>user.
     rbind (map_err read_error (
         let (rid, db1) = new_id env db in
         rbind (upsert_read_seq env cid user seq rid db1) (\<lambda>(n, advanced, db2).
           if advanced
           then publish_inbox_change env (no_change\<lparr>ch_kind := kind_read, ch_conv := cid,
                  ch_user := Some user, ch_last_read := n\<rparr>) db2
           else Inr db2))) (\<lambda>db'.
       Inr ([], db')))))"

section \<open>Deleting a conversation\<close>

definition delete_conversation_row :: "string \<Rightarrow> msg_db \<Rightarrow> msg_db" where
  "delete_conversation_row cid db = db\<lparr>convs := (convs db)(cid := None)\<rparr>"

definition delete_children :: "env \<Rightarrow> string \<Rightarrow> msg_db \<Rightarrow> msg_db" where
  "delete_children env cid db =
     db\<lparr>bindings := update_where (\<lambda>b. cb_conv b = cid \<and> cb_revoked b = None)
          (\<lambda>b. b\<lparr>cb_revoked := Some (now env)\<rparr>) (bindings db),
        members := filter (\<lambda>m. cm_conv m \<noteq> cid) (members db),
        settings := filter (\<lambda>s. cs_conv s \<noteq> cid) (settings db),
        reads := filter (\<lambda>r. rs_conv r \<noteq> cid) (reads db)\<rparr>"

definition delete_conversation :: "env \<Rightarrow> caller \<Rightarrow> string \<Rightarrow> string \<Rightarrow> msg_db \<Rightarrow> conv_result" where
  "delete_conversation env c uid cid db =
     rbind (validate_request env c uid [cid]) (\<lambda>_.
     rbind (with_locked_conversation env cid (\<lambda>conv db.
         rbind (require_role cid uid owner_role db) (\<lambda>_.
         rbind (publish_conversation_change env cid (Some []) (member_ids cid db) (delete_children env cid db)) (\<lambda>db1.
           Inr (delete_conversation_row cid db1)))) db) (\<lambda>db'.
       Inr ([], db')))"

section \<open>Creating a conversation\<close>

record create_req =
  cr_creator :: string
  cr_type :: int
  cr_name :: "string option"
  cr_avatar :: "string option"
  cr_peer :: "string option"
  cr_bot :: "string option"
  cr_members :: "string list"

definition first_conv :: "string list \<Rightarrow> err + string" where
  "first_conv ids = (case sort_by str_le ids of [] \<Rightarrow> Inl RecordNotFound | i # _ \<Rightarrow> Inr i)"

definition is_private_conv :: "string \<Rightarrow> msg_db \<Rightarrow> bool" where
  "is_private_conv cid db = (case convs db cid of None \<Rightarrow> False | Some c \<Rightarrow> c_type c = conv_private)"

text \<open>\<open>FindPrivateConv\<close> and \<open>FindPrivateBotConv\<close>: the joins, and \<open>First\<close> by primary key.\<close>

definition find_private_conv :: "string \<Rightarrow> string \<Rightarrow> msg_db \<Rightarrow> err + string" where
  "find_private_conv u v db =
     first_conv (map cm_conv (filter (\<lambda>m. cm_user m = Some u \<and> is_private_conv (cm_conv m) db \<and>
       (\<exists>x\<in>set (members db). cm_conv x = cm_conv m \<and> cm_user x = Some v)) (members db)))"

definition find_private_bot_conv :: "string \<Rightarrow> string \<Rightarrow> msg_db \<Rightarrow> err + string" where
  "find_private_bot_conv u b db =
     first_conv (map cm_conv (filter (\<lambda>m. cm_type m = ''user'' \<and> cm_user m = Some u \<and>
       is_private_conv (cm_conv m) db \<and>
       (\<exists>x\<in>set (bindings db). cb_conv x = cm_conv m \<and> cb_bot x = b \<and> cb_revoked x = None)) (members db)))"

definition find_private :: "create_req \<Rightarrow> msg_db \<Rightarrow> err + string" where
  "find_private req db =
     (case cr_bot req of
        Some b \<Rightarrow> find_private_bot_conv (cr_creator req) b db
      | None \<Rightarrow> (case cr_peer req of
            Some p \<Rightarrow> find_private_conv (cr_creator req) p db
          | None \<Rightarrow> Inl RecordNotFound))"

definition check_create :: "env \<Rightarrow> (string \<Rightarrow> string option) \<Rightarrow> caller \<Rightarrow> create_req \<Rightarrow> err + unit" where
  "check_create env bot_status c req =
     rbind (validate_request env c (cr_creator req) (cr_members req)) (\<lambda>_.
     rbind (ensure (opt_valid env (cr_peer req)) err_conv_param) (\<lambda>_.
     rbind (ensure (opt_valid env (cr_bot req)) err_conv_param) (\<lambda>_.
     rbind (case cr_bot req of
              None \<Rightarrow> Inr ()
            | Some b \<Rightarrow> (case bot_status b of
                  None \<Rightarrow> Inl err_member_add_failed
                | Some s \<Rightarrow> ensure (s = ''active'') err_insufficient_perm)) (\<lambda>_.
       if cr_type req = conv_private then
         ensure (\<not> ((cr_peer req = None) = (cr_bot req = None) \<or> cr_peer req = Some (cr_creator req) \<or>
                    cr_members req \<noteq> [])) err_conv_param
       else if cr_type req = conv_group then
         ensure (cr_bot req = None \<and> cr_peer req = None) err_conv_param
       else Inl err_conv_type))))"

text \<open>The creator as owner, the peer and the members once each, in the order of the request.\<close>

definition create_roles :: "create_req \<Rightarrow> (string \<times> int) list" where
  "create_roles req =
     (cr_creator req, owner_role) #
     map (\<lambda>u. (u, member_role)) (filter (\<lambda>u. u \<noteq> cr_creator req)
       (rev (remdups (rev ((case cr_peer req of None \<Rightarrow> [] | Some p \<Rightarrow> [p]) @ cr_members req)))))"

definition create_row :: "env \<Rightarrow> create_req \<Rightarrow> string \<Rightarrow> int \<Rightarrow> conversation" where
  "create_row env req cid n =
     \<lparr>c_id = cid, c_type = cr_type req, c_name = set_opt (cr_name req) [],
      c_avatar = set_opt (cr_avatar req) [], c_owner = Some (cr_creator req), c_announcement = [],
      c_muted_all = False, c_background = [], c_max_seq = 0, c_pub_seq = 0, c_last_msg = None,
      c_last_preview = [], c_member_count = n, c_created = now env, c_updated = now env\<rparr>"

definition insert_binding :: "conv_bot \<Rightarrow> msg_db \<Rightarrow> err + msg_db" where
  "insert_binding b db =
     (if \<exists>x\<in>set (bindings db). cb_id x = cb_id b \<or>
        (cb_conv x = cb_conv b \<and> cb_bot x = cb_bot b \<and> cb_revoked x = None \<and> cb_revoked b = None)
      then Inl (Violation ''idx_conv_bots_active_pair'')
      else Inr (db\<lparr>bindings := bindings db @ [b]\<rparr>))"

definition create_tx ::
  "env \<Rightarrow> create_req \<Rightarrow> conversation \<Rightarrow> conv_member list \<Rightarrow> conv_bot option \<Rightarrow> msg_db \<Rightarrow> err + (string \<times> msg_db)" where
  "create_tx env req conv ms cb db =
     rbind (if cr_type req = conv_private then
              (case find_private req db of
                 Inr i \<Rightarrow> Inr (Some i)
               | Inl RecordNotFound \<Rightarrow> Inr None
               | Inl e \<Rightarrow> Inl e)
            else Inr None) (\<lambda>existing.
     case existing of
       Some i \<Rightarrow> Inr (i, db)
     | None \<Rightarrow>
         rbind (ensure (\<not> (max_members env > 0 \<and> int (length ms) > max_members env)) err_conv_max_members) (\<lambda>_.
         rbind (insert_conversation conv db) (\<lambda>db1.
         rbind (insert_members ms db1) (\<lambda>db2.
         rbind (case cb of None \<Rightarrow> Inr db2 | Some b \<Rightarrow> insert_binding b db2) (\<lambda>db3.
         rbind (publish_conversation_change env (c_id conv) None [] db3) (\<lambda>db4.
           Inr (c_id conv, db4)))))))"

text \<open>
  \<open>CreateConversation\<close> up to the commit; the conversation it then reads back for its response is the
  one of the returned identity.
\<close>

definition create_conversation ::
  "env \<Rightarrow> (string \<Rightarrow> string option) \<Rightarrow> caller \<Rightarrow> create_req \<Rightarrow> msg_db \<Rightarrow> err + (string \<times> msg_db)" where
  "create_conversation env bot_status c req db =
     rbind (check_create env bot_status c req) (\<lambda>_.
     case (if cr_type req = conv_private then find_private req db else Inl RecordNotFound) of
       Inr i \<Rightarrow> Inr (i, db)
     | Inl e \<Rightarrow>
         if e \<noteq> RecordNotFound then Inl e
         else
           let (cid, db1) = new_id env db;
               (ms, db2) = new_members env cid (create_roles req) db1;
               (cb, db3) = (case cr_bot req of
                   None \<Rightarrow> (None, db2)
                 | Some b \<Rightarrow> let (bid, db3) = new_id env db2 in
                     (Some \<lparr>cb_id = bid, cb_conv = cid, cb_bot = b, cb_added_by = cr_creator req,
                        cb_start_seq = 0, cb_revoked = None, cb_created = now env\<rparr>, db3))
           in create_tx env req (create_row env req cid (int (length ms))) ms cb db3)"

end
