(* ===== verification/Conversation_Laws.thy ===== *)
theory Conversation_Laws
  imports Conversation_Admin Message_Ops
begin

text \<open>
  The invariant of conversations and members: a member row belongs to an existing conversation and
  is its user's only one, the member count counts the rows, only the recorded owner has the owner's
  role, read positions lie between zero and the conversation's last position, and every identity
  named in the store comes from the consumed part of the supply. \<open>conv_frame\<close> is what every step
  that leaves the member tables alone does to a store, publications and message changes included.
\<close>

section \<open>The invariant\<close>

definition read_pair :: "conv_read_seq \<Rightarrow> string \<times> string" where
  "read_pair r = (rs_conv r, rs_user r)"

definition setting_pair :: "conv_settings \<Rightarrow> string \<times> string" where
  "setting_pair s = (cs_conv s, cs_user s)"

definition member_ok :: "env \<Rightarrow> msg_db \<Rightarrow> conv_member \<Rightarrow> bool" where
  "member_ok env db m \<longleftrightarrow> cm_type m = ''user'' \<and> cm_user m \<noteq> None \<and>
     convs db (cm_conv m) \<noteq> None \<and> cm_role m \<in> {owner_role, admin_role, member_role} \<and>
     used_id env db (cm_id m) \<and>
     (cm_role m = owner_role \<longrightarrow> (\<forall>c. convs db (cm_conv m) = Some c \<longrightarrow> c_owner c = cm_user m))"

definition members_ok :: "env \<Rightarrow> msg_db \<Rightarrow> bool" where
  "members_ok env db \<longleftrightarrow> distinct (map cm_id (members db)) \<and> distinct (map member_key (members db)) \<and>
     (\<forall>m\<in>set (members db). member_ok env db m)"

definition reads_ok :: "msg_db \<Rightarrow> bool" where
  "reads_ok db \<longleftrightarrow> distinct (map read_pair (reads db)) \<and>
     (\<forall>r\<in>set (reads db). \<exists>c. convs db (rs_conv r) = Some c \<and> 0 \<le> rs_last r \<and> rs_last r \<le> c_max_seq c)"

definition settings_ok :: "msg_db \<Rightarrow> bool" where
  "settings_ok db \<longleftrightarrow> distinct (map setting_pair (settings db)) \<and>
     (\<forall>s\<in>set (settings db). convs db (cs_conv s) \<noteq> None)"

definition ids_ok :: "env \<Rightarrow> msg_db \<Rightarrow> bool" where
  "ids_ok env db \<longleftrightarrow> (\<forall>cid. convs db cid \<noteq> None \<longrightarrow> used_id env db cid) \<and>
     (\<forall>e\<in>set (outbox db). used_id env db (o_conv e)) \<and>
     (\<forall>m\<in>set (msgs db). used_id env db (m_conv m))"

definition conv_core :: "env \<Rightarrow> msg_db \<Rightarrow> bool" where
  "conv_core env db \<longleftrightarrow> members_ok env db \<and> reads_ok db \<and> settings_ok db \<and> ids_ok env db"

definition human_count :: "string \<Rightarrow> msg_db \<Rightarrow> int" where
  "human_count cid db = int (length (filter (is_human_member cid) (members db)))"

text \<open>Inside a transaction the count of one conversation may be off by the rows already changed.\<close>

definition counts_off :: "string \<Rightarrow> int \<Rightarrow> msg_db \<Rightarrow> bool" where
  "counts_off cid n db \<longleftrightarrow> (\<forall>k c. convs db k = Some c \<longrightarrow>
     c_member_count c = human_count k db + (if k = cid then n else 0))"

definition counts_ok :: "msg_db \<Rightarrow> bool" where
  "counts_ok db \<longleftrightarrow> (\<forall>k c. convs db k = Some c \<longrightarrow> c_member_count c = human_count k db)"

definition conv_inv :: "env \<Rightarrow> msg_db \<Rightarrow> bool" where
  "conv_inv env db \<longleftrightarrow> conv_core env db \<and> counts_ok db"

lemma counts_off_zero: "counts_off cid 0 db \<longleftrightarrow> counts_ok db"
  by (simp add: counts_off_def counts_ok_def)

lemma conv_inv_empty: "conv_inv env empty_db"
  by (simp add: conv_inv_def conv_core_def members_ok_def reads_ok_def settings_ok_def ids_ok_def
      counts_ok_def empty_db_def)

section \<open>Steps that leave the member tables alone\<close>

definition conv_step :: "conversation \<Rightarrow> conversation \<Rightarrow> bool" where
  "conv_step c c' \<longleftrightarrow> c_owner c' = c_owner c \<and> c_type c' = c_type c \<and>
     c_member_count c' = c_member_count c \<and> c_max_seq c \<le> c_max_seq c'"

definition conv_frame :: "msg_db \<Rightarrow> msg_db \<Rightarrow> bool" where
  "conv_frame db db' \<longleftrightarrow> members db' = members db \<and> reads db' = reads db \<and> settings db' = settings db \<and>
     bindings db' = bindings db \<and> next_id db \<le> next_id db' \<and>
     (\<forall>k. rel_option conv_step (convs db k) (convs db' k)) \<and>
     (\<forall>e\<in>set (outbox db'). e \<in> set (outbox db) \<or> convs db (o_conv e) \<noteq> None) \<and>
     (\<forall>m\<in>set (msgs db'). m_conv m \<in> m_conv ` set (msgs db) \<or> convs db (m_conv m) \<noteq> None)"

lemma conv_step_refl [simp]: "conv_step c c"
  by (simp add: conv_step_def)

lemma rel_conv_refl [simp]: "rel_option conv_step x x"
  by (cases x) simp_all

lemma conv_step_trans: "conv_step a b \<Longrightarrow> conv_step b c \<Longrightarrow> conv_step a c"
  by (simp add: conv_step_def)

lemma conv_frame_refl [simp]: "conv_frame db db"
  by (simp add: conv_frame_def)

lemma conv_frame_dom: "conv_frame db db' \<Longrightarrow> (convs db' k = None) = (convs db k = None)"
  unfolding conv_frame_def by (metis option.rel_sel)

lemma conv_frame_Some:
  "conv_frame db db' \<Longrightarrow> convs db' k = Some c' \<Longrightarrow> \<exists>c. convs db k = Some c \<and> conv_step c c'"
  unfolding conv_frame_def by (metis option_rel_Some2)

lemma conv_frame_Some1:
  "conv_frame db db' \<Longrightarrow> convs db k = Some c \<Longrightarrow> \<exists>c'. convs db' k = Some c' \<and> conv_step c c'"
  unfolding conv_frame_def by (metis option_rel_Some1)

lemma conv_frame_trans:
  assumes "conv_frame a b" "conv_frame b c"
  shows "conv_frame a c"
proof -
  have "rel_option conv_step (convs a k) (convs c k)" for k
  proof -
    have "rel_option conv_step (convs a k) (convs b k)" "rel_option conv_step (convs b k) (convs c k)"
      using assms by (simp_all add: conv_frame_def)
    then show ?thesis
      by (cases "convs a k"; cases "convs b k"; cases "convs c k") (auto intro: conv_step_trans)
  qed
  moreover have "\<forall>e\<in>set (outbox c). e \<in> set (outbox a) \<or> convs a (o_conv e) \<noteq> None"
  proof
    fix e assume "e \<in> set (outbox c)"
    with assms(2) have "e \<in> set (outbox b) \<or> convs b (o_conv e) \<noteq> None" by (simp add: conv_frame_def)
    then show "e \<in> set (outbox a) \<or> convs a (o_conv e) \<noteq> None"
      using assms(1) conv_frame_dom [OF assms(1), of "o_conv e"] by (auto simp: conv_frame_def)
  qed
  moreover have "\<forall>m\<in>set (msgs c). m_conv m \<in> m_conv ` set (msgs a) \<or> convs a (m_conv m) \<noteq> None"
  proof
    fix m assume "m \<in> set (msgs c)"
    with assms(2) have "m_conv m \<in> m_conv ` set (msgs b) \<or> convs b (m_conv m) \<noteq> None"
      by (simp add: conv_frame_def)
    then show "m_conv m \<in> m_conv ` set (msgs a) \<or> convs a (m_conv m) \<noteq> None"
      using assms(1) conv_frame_dom [OF assms(1), of "m_conv m"] by (auto simp: conv_frame_def)
  qed
  moreover have "members c = members a" "reads c = reads a" "settings c = settings a"
    "bindings c = bindings a" "next_id a \<le> next_id c"
    using assms unfolding conv_frame_def by simp_all
  ultimately show ?thesis unfolding conv_frame_def by blast
qed

lemma conv_frame_core:
  assumes fr: "conv_frame db db'" and core: "conv_core env db"
  shows "conv_core env db'"
proof -
  have u: "used_id env db i \<Longrightarrow> used_id env db' i" for i
    using fr by (auto simp: conv_frame_def intro: used_id_mono)
  have same: "members db' = members db" "reads db' = reads db" "settings db' = settings db"
    using fr by (simp_all add: conv_frame_def)
  have "member_ok env db' m" if "member_ok env db m" for m
    using that u conv_frame_dom [OF fr] conv_frame_Some [OF fr]
    unfolding member_ok_def conv_step_def by metis
  then have "members_ok env db'" using core by (simp add: conv_core_def members_ok_def same)
  moreover have "reads_ok db'"
    using core conv_frame_Some1 [OF fr] unfolding conv_core_def reads_ok_def same conv_step_def
    by (metis order_trans)
  moreover have "settings_ok db'"
    using core conv_frame_dom [OF fr] unfolding conv_core_def settings_ok_def same by metis
  moreover have "ids_ok env db'"
    unfolding ids_ok_def
  proof (intro conjI allI impI ballI)
    fix cid assume "convs db' cid \<noteq> None"
    then show "used_id env db' cid"
      using core u conv_frame_dom [OF fr] by (simp add: conv_core_def ids_ok_def)
  next
    fix e assume "e \<in> set (outbox db')"
    then show "used_id env db' (o_conv e)"
      using core u fr by (auto simp: conv_core_def ids_ok_def conv_frame_def)
  next
    fix m assume "m \<in> set (msgs db')"
    then have "m_conv m \<in> m_conv ` set (msgs db) \<or> convs db (m_conv m) \<noteq> None"
      using fr by (simp add: conv_frame_def)
    then show "used_id env db' (m_conv m)"
      using core u by (auto simp: conv_core_def ids_ok_def)
  qed
  ultimately show ?thesis by (simp add: conv_core_def)
qed

lemma conv_frame_counts:
  assumes fr: "conv_frame db db'" and cnt: "counts_off cid n db"
  shows "counts_off cid n db'"
  unfolding counts_off_def
proof (intro allI impI)
  fix k c' assume "convs db' k = Some c'"
  from conv_frame_Some [OF fr this] obtain c where c: "convs db k = Some c" "conv_step c c'" by blast
  have "human_count k db' = human_count k db" using fr by (simp add: conv_frame_def human_count_def)
  with c cnt show "c_member_count c' = human_count k db' + (if k = cid then n else 0)"
    by (simp add: counts_off_def conv_step_def)
qed

lemma conv_frame_inv: "conv_frame db db' \<Longrightarrow> conv_inv env db \<Longrightarrow> conv_inv env db'"
  using conv_frame_counts [of db db' _ 0] conv_frame_core
  by (simp add: conv_inv_def counts_off_zero)

section \<open>The steps\<close>

lemma upd_conv_frame:
  assumes "\<And>c. convs db cid = Some c \<Longrightarrow> conv_step c (f c)"
  shows "conv_frame db (upd_conv cid f db)"
proof -
  have "rel_option conv_step (convs db k) (convs (upd_conv cid f db) k)" for k
    using assms by (cases "convs db k") (auto simp: upd_conv_def)
  then show ?thesis by (auto simp: conv_frame_def upd_conv_def)
qed

lemma publish_conv_frame:
  assumes run: "publish_inbox_change env ch db = Inr db'"
  shows "conv_frame db db'"
proof -
  have "rel_option conv_step (convs db k) (convs db' k)" for k
    by (cases "convs db k") (auto simp: publish_conv [OF run] conv_step_def)
  moreover have "next_id db \<le> next_id db'" using run by (auto simp: publish_inbox_change_Inr)
  moreover have "convs db (ch_conv ch) \<noteq> None" using publish_Inr_exists [OF run] by blast
  ultimately show ?thesis by (auto simp: conv_frame_def publish_frame [OF run])
qed

lemma upd_msg_conv_frame:
  "(\<And>m. m_conv (f m) = m_conv m) \<Longrightarrow> conv_frame db (upd_msg mid f db)"
  by (auto simp: conv_frame_def upd_msg_def set_update_where)

lemma delete_conv_frame: "conv_frame db (delete_with_tx mid db)"
  by (auto simp: conv_frame_def delete_with_tx_def)

lemma deletion_conv_frame: "insert_personal_deletion uid cid mid db = (b, db') \<Longrightarrow> conv_frame db db'"
  by (auto simp: insert_personal_deletion_def conv_frame_def split: if_splits)

lemma next_id_conv_frame: "next_id db \<le> n \<Longrightarrow> conv_frame db (db\<lparr>next_id := n\<rparr>)"
  by (auto simp: conv_frame_def)

lemma refresh_conv_frame: "conv_frame db (refresh_tail env kind m c db)"
  by (auto simp: refresh_tail_def split: prod.split intro!: upd_conv_frame) (simp_all add: conv_step_def)

lemma change_conv_frame: "publish_message_change env kind m db = Inr db' \<Longrightarrow> conv_frame db db'"
  unfolding publish_message_change_Inr
  using refresh_conv_frame publish_conv_frame conv_frame_trans by blast

lemma touch_conv_frame:
  assumes "touch_last_message env cid mid n p db = Inr db'" "\<And>c. convs db cid = Some c \<Longrightarrow> c_max_seq c \<le> n"
  shows "conv_frame db db'"
proof -
  from assms(1) have "db' = upd_conv cid (\<lambda>c. c\<lparr>c_last_msg := Some mid, c_last_preview := p,
      c_max_seq := n, c_updated := now env\<rparr>) db"
    by (auto simp: touch_last_message_def split: option.splits)
  then show ?thesis using assms(2) by (auto simp: conv_step_def intro!: upd_conv_frame)
qed

lemma append_row_conv_frame: "convs db (m_conv m) \<noteq> None \<Longrightarrow> conv_frame db (append_row m db)"
  by (auto simp: conv_frame_def append_row_def)

lemma max_seq_le: "db_inv env db \<Longrightarrow> convs db cid = Some c \<Longrightarrow> c_max_seq c \<le> cur_seq db cid"
  by (simp add: db_inv_def conv_wf_def)

lemma persist_conv_frame:
  assumes inv: "db_inv env db" and run: "persist_message env m0 nm db = Inr (m, db')"
  shows "conv_frame db db'"
  using run
proof (rule persist_steps)
  fix db1 db2
  assume m: "m = m0\<lparr>m_seq := cur_seq db (m_conv m0) + 1, m_sender_name := nm\<rparr>"
    and db1: "db1 = append_row m db"
    and pub: "publish_inbox_change env (build_message_created_payload m nm) db1 = Inr db2"
    and touch: "touch_last_message env (m_conv m) (m_id m) (m_seq m)
       (message_preview (m_type m) (m_content m)) db2 = Inr db'"
  have conv: "ch_conv (build_message_created_payload m nm) = m_conv m"
    by (simp add: build_message_created_payload_def no_change_def)
  have "convs db (m_conv m) \<noteq> None"
    using publish_Inr_exists [OF pub] by (simp add: conv db1 append_row_frame)
  then have "conv_frame db db1" unfolding db1 by (rule append_row_conv_frame)
  moreover note publish_conv_frame [OF pub]
  moreover have "conv_frame db2 db'"
    using touch
  proof (rule touch_conv_frame)
    fix c assume "convs db2 (m_conv m) = Some c"
    then obtain x where "convs db (m_conv m) = Some x" "c_max_seq c = c_max_seq x"
      by (auto simp: publish_conv [OF pub] conv db1 append_row_frame)
    then show "c_max_seq c \<le> m_seq m" using max_seq_le [OF inv, of "m_conv m" x] by (simp add: m)
  qed
  ultimately show ?thesis using conv_frame_trans by blast
qed

text \<open>The activity of a bot consumes a position and publishes; it stores no message.\<close>

definition activity_event :: "env \<Rightarrow> string \<Rightarrow> string \<Rightarrow> string \<Rightarrow> string \<Rightarrow> json \<Rightarrow> msg_db \<Rightarrow> outbox_event" where
  "activity_event env cid ty actor text data db =
     \<lparr>o_id = fresh env (next_id db), o_conv = cid, o_pub_seq = cur_pub db cid + 1,
      o_topic = ''conversation.bot.added'', o_key = cid,
      o_payload = BotActivity \<lparr>act_id = fresh env (next_id db), act_type = ty, act_conv = cid,
        act_actor = actor, act_text = text, act_seq = cur_seq db cid + 1, act_data = data\<rparr>,
      o_status = outbox_pending, o_retry = 0, o_max_retries = max_retries_default,
      o_next_retry = None, o_last_error = [], o_created = now env, o_dispatched = None\<rparr>"

lemma activity_event_simps [simp]:
  "o_id (activity_event env cid ty actor text data db) = fresh env (next_id db)"
  "o_conv (activity_event env cid ty actor text data db) = cid"
  "o_pub_seq (activity_event env cid ty actor text data db) = cur_pub db cid + 1"
  by (simp_all add: activity_event_def)

lemma publish_bot_activity_Inr:
  "publish_bot_activity env cid ty actor text data db = Inr db' \<longleftrightarrow>
     valid_id env cid \<and> (seqs db cid = None \<or> cur_seq db cid < seq_max) \<and>
     (\<exists>c. convs db cid = Some c \<and> 0 \<le> c_pub_seq c \<and> c_pub_seq c < seq_max \<and>
        (\<forall>e\<in>set (outbox db). o_id e \<noteq> fresh env (next_id db) \<and> pub_pos e \<noteq> (cid, c_pub_seq c + 1)) \<and>
        db' = db\<lparr>seqs := (seqs db)(cid \<mapsto> cur_seq db cid + 1),
          convs := (convs db)(cid \<mapsto> c\<lparr>c_pub_seq := c_pub_seq c + 1, c_updated := now env,
            c_max_seq := cur_seq db cid + 1\<rparr>),
          next_id := Suc (next_id db), outbox := outbox db @ [activity_event env cid ty actor text data db]\<rparr>)"
proof (cases "convs db cid")
  case None
  then show ?thesis by (auto simp: publish_bot_activity_def next_seq_Inr next_publication_Inr res_simps)
next
  case (Some c)
  then have "cur_pub db cid = c_pub_seq c" by (simp add: cur_pub_def)
  with Some show ?thesis
    by (auto simp: publish_bot_activity_def next_seq_Inr next_publication_Inr res_simps new_id_def Let_def
        upd_conv_def activity_event_def pub_pos_def)
qed

lemma publish_bot_activity_frame:
  assumes "publish_bot_activity env cid ty actor text data db = Inr db'"
  shows "msgs db' = msgs db" "members db' = members db" "reads db' = reads db" "settings db' = settings db"
    "bindings db' = bindings db" "blocks db' = blocks db" "deletions db' = deletions db"
    "outbox db' = outbox db @ [activity_event env cid ty actor text data db]"
    "next_id db' = Suc (next_id db)" "seqs db' = (seqs db)(cid \<mapsto> cur_seq db cid + 1)"
    "convs db cid \<noteq> None"
  using assms by (auto simp: publish_bot_activity_Inr)

lemma publish_bot_activity_conv:
  assumes "publish_bot_activity env cid ty actor text data db = Inr db'"
  shows "convs db' k = (if k = cid then map_option (\<lambda>c. c\<lparr>c_pub_seq := c_pub_seq c + 1, c_updated := now env,
      c_max_seq := cur_seq db cid + 1\<rparr>) (convs db k) else convs db k)"
  using assms by (auto simp: publish_bot_activity_Inr)

lemma activity_conv_frame:
  assumes inv: "db_inv env' db" and run: "publish_bot_activity env cid ty actor text data db = Inr db'"
  shows "conv_frame db db'"
proof -
  note fr = publish_bot_activity_frame [OF run]
  have "rel_option conv_step (convs db k) (convs db' k)" for k
    using max_seq_le [OF inv, of k]
    by (cases "convs db k") (auto simp: publish_bot_activity_conv [OF run] conv_step_def)
  then show ?thesis using fr(11) by (auto simp: conv_frame_def fr(1-10))
qed

lemma activity_tail_inv:
  assumes "tail_inv db" "publish_bot_activity env cid ty actor text data db = Inr db'"
  shows "tail_inv db'"
  using assms(1) publish_bot_activity_frame(1) [OF assms(2)]
  by (rule tail_inv_frame) (auto simp: publish_bot_activity_conv [OF assms(2)] split: if_splits)

lemma activity_inv:
  assumes inv: "db_inv env db" and inj: "inj (fresh env)"
    and run: "publish_bot_activity env cid ty actor text data db = Inr db'"
  shows "db_inv env db'"
proof -
  note fr = publish_bot_activity_frame [OF run] and cv = publish_bot_activity_conv [OF run]
  obtain c where c: "convs db cid = Some c" "0 \<le> c_pub_seq c" "c_pub_seq c < seq_max"
    "seqs db cid = None \<or> cur_seq db cid < seq_max"
    and un: "\<forall>e\<in>set (outbox db). o_id e \<noteq> fresh env (next_id db) \<and> pub_pos e \<noteq> (cid, c_pub_seq c + 1)"
    using run by (auto simp: publish_bot_activity_Inr)
  have cs: "cur_seq db' k = (if k = cid then cur_seq db cid + 1 else cur_seq db k)" for k
    by (simp add: cur_seq_def fr(10))
  have u: "used_id env db i \<Longrightarrow> used_id env db' i" for i
    using used_id_mono [of env db i db'] fr(9) by simp
  have "conv_wf db'"
    using inv c cur_seq_nonneg [OF inv, of cid] by (auto simp: db_inv_def conv_wf_def cv cs)
  moreover have "seq_wf db'"
    using inv c(4) cur_seq_nonneg [OF inv, of cid]
    by (auto simp: db_inv_def seq_wf_def fr(10) cur_seq_def seq_max_def split: option.splits)
  moreover have "msgs_wf env db'"
    using inv u by (auto simp: db_inv_def msgs_wf_def fr(1) cs)
  moreover have "outbox_wf env db'"
    unfolding outbox_wf_def
  proof (intro conjI ballI)
    have pos: "pub_pos (activity_event env cid ty actor text data db) = (cid, c_pub_seq c + 1)"
      by (simp add: pub_pos_def cur_pub_def c(1))
    show "distinct (map o_id (outbox db'))" "distinct (map pub_pos (outbox db'))"
      using inv un pos by (auto simp: db_inv_def outbox_wf_def fr(8))
    have fu: "used_id env db' (fresh env (next_id db))" using fresh_used [OF inj] fr(9) by simp
    fix e assume "e \<in> set (outbox db')"
    then consider "e \<in> set (outbox db)" | "e = activity_event env cid ty actor text data db"
      by (auto simp: fr(8))
    then have "1 \<le> o_pub_seq e \<and> used_id env db' (o_id e) \<and>
        (\<forall>k. convs db' (o_conv e) = Some k \<longrightarrow> o_pub_seq e \<le> c_pub_seq k)"
    proof cases
      case 1
      then have "1 \<le> o_pub_seq e \<and> used_id env db (o_id e) \<and>
          (\<forall>k. convs db (o_conv e) = Some k \<longrightarrow> o_pub_seq e \<le> c_pub_seq k)"
        using inv by (simp add: db_inv_def outbox_wf_def)
      then show ?thesis using u c(1) by (auto simp: cv)
    next
      case 2
      then show ?thesis using c fu by (simp add: cv cur_pub_def)
    qed
    then show "1 \<le> o_pub_seq e" "used_id env db' (o_id e)"
      "\<forall>k. convs db' (o_conv e) = Some k \<longrightarrow> o_pub_seq e \<le> c_pub_seq k"
      by blast+
  qed
  ultimately show ?thesis by (simp add: db_inv_def)
qed

end
