(* ===== verification/Conversation_Steps.thy ===== *)
theory Conversation_Steps
  imports Conversation_Laws
begin

text \<open>
  What each building block of the conversation operations keeps: \<open>store\<close> collects the invariants of
  messages, tails and members, and \<open>counts_off\<close> follows the member count through a transaction.
\<close>

section \<open>The store\<close>

definition store :: "env \<Rightarrow> msg_db \<Rightarrow> bool" where
  "store env db \<longleftrightarrow> db_inv env db \<and> tail_inv db \<and> conv_core env db"

named_theorems keeps \<open>steps that keep the store\<close>

lemma store_frame:
  assumes "store env db" "conv_frame db db'" "db_inv env db'" "tail_inv db'"
  shows "store env db'"
  using assms conv_frame_core by (simp add: store_def)

lemma publish_keeps:
  assumes "store env db" "inj (fresh env)" "publish_inbox_change env ch db = Inr db'"
  shows "store env db' \<and> conv_frame db db'"
  using assms publish_inv publish_tail_inv publish_conv_frame store_frame unfolding store_def by blast

lemma activity_keeps:
  assumes "store env db" "inj (fresh env)" "publish_bot_activity env cid ty actor text data db = Inr db'"
  shows "store env db' \<and> conv_frame db db'"
proof -
  have "conv_frame db db'" using activity_conv_frame [of env db] assms by (simp add: store_def)
  then show ?thesis
    using assms activity_inv activity_tail_inv store_frame unfolding store_def by blast
qed

lemma publish_conversation_change_Inr:
  "publish_conversation_change env cid rcp removed db = Inr db' \<longleftrightarrow>
     (\<exists>db1. (let us = (case rcp of None \<Rightarrow> member_ids cid db | Some us \<Rightarrow> us) in
         if us = [] then db1 = db
         else publish_inbox_change env (conversation_change kind_upsert cid us) db = Inr db1) \<and>
       (if removed = [] then db' = db1
        else publish_inbox_change env (conversation_change kind_removed cid removed) db1 = Inr db'))"
  by (auto simp: publish_conversation_change_def Let_def rbind_eq_Inr)

lemma conversation_change_keeps:
  assumes "store env db" "inj (fresh env)" "publish_conversation_change env cid rcp removed db = Inr db'"
  shows "store env db' \<and> conv_frame db db'"
proof -
  from assms(3) obtain db1 where
    one: "db1 = db \<or> (\<exists>us. publish_inbox_change env (conversation_change kind_upsert cid us) db = Inr db1)"
    and two: "db' = db1 \<or> publish_inbox_change env (conversation_change kind_removed cid removed) db1 = Inr db'"
    by (auto simp: publish_conversation_change_Inr Let_def split: if_splits)
  from one assms(1,2) have 1: "store env db1 \<and> conv_frame db db1"
    by (auto dest: publish_keeps)
  with two assms(2) have "store env db' \<and> conv_frame db1 db'"
    by (auto dest: publish_keeps)
  with 1 conv_frame_trans show ?thesis by blast
qed

section \<open>Attributes of a conversation\<close>

lemma attribute_keeps:
  assumes st: "store env db"
    and f: "\<And>c. c_id (f c) = c_id c" "\<And>c. c_pub_seq (f c) = c_pub_seq c" "\<And>c. c_max_seq (f c) = c_max_seq c"
      "\<And>c. c_owner (f c) = c_owner c" "\<And>c. c_type (f c) = c_type c" "\<And>c. c_member_count (f c) = c_member_count c"
      "\<And>c. c_last_msg (f c) = c_last_msg c" "\<And>c. c_last_preview (f c) = c_last_preview c"
  shows "store env (upd_conv cid f db) \<and> conv_frame db (upd_conv cid f db)"
proof -
  have fr: "conv_frame db (upd_conv cid f db)" by (rule upd_conv_frame) (simp add: conv_step_def f)
  have "db_inv env (upd_conv cid f db)"
    using same_core_upd_conv [of f db cid, OF f(1,2,3)] st same_core_inv by (auto simp: store_def)
  moreover have "tail_inv (upd_conv cid f db)"
  proof (rule tail_inv_frame)
    show "tail_inv db" using st by (simp add: store_def)
    show "msgs (upd_conv cid f db) = msgs db" by (simp add: upd_conv_def)
    show "\<exists>c. convs db k = Some c \<and> c_last_msg c' = c_last_msg c \<and> c_last_preview c' = c_last_preview c"
      if "convs (upd_conv cid f db) k = Some c'" for k c'
      using that f(7,8) by (cases "k = cid") (auto simp: upd_conv_def)
  qed
  ultimately show ?thesis using store_frame [OF st fr] fr by blast
qed

section \<open>Steps that touch the member tables only\<close>

lemma rows_only:
  assumes "db_inv env db" "tail_inv db" "ids_ok env db"
    "convs db' = convs db" "msgs db' = msgs db" "outbox db' = outbox db" "seqs db' = seqs db"
    "next_id db \<le> next_id db'"
  shows "db_inv env db' \<and> tail_inv db' \<and> ids_ok env db'"
proof -
  have "same_core db db'" using assms by (simp add: same_core_def)
  then have "db_inv env db'" using assms(1) by (rule same_core_inv)
  moreover have "tail_inv db'" using assms(2) by (rule tail_inv_frame) (simp_all add: assms)
  moreover have "ids_ok env db'"
    using assms used_id_mono [OF _ assms(8)] unfolding ids_ok_def by simp
  ultimately show ?thesis by blast
qed

text \<open>The conversation rows and identities a member row depends on.\<close>

lemma member_ok_cong:
  assumes "member_ok env db m" "convs db' = convs db" "next_id db \<le> next_id db'"
  shows "member_ok env db' m"
  using assms used_id_mono unfolding member_ok_def by metis

lemma member_ok_members [simp]: "member_ok env (db\<lparr>members := ms\<rparr>) m = member_ok env db m"
  by (simp add: member_ok_def used_id_def)

lemma store_members:
  assumes st: "store env db" and db': "db' = db\<lparr>members := ms, next_id := n\<rparr>" and n: "next_id db \<le> n"
    and ms: "distinct (map cm_id ms)" "distinct (map member_key ms)"
      "\<And>m. m \<in> set ms \<Longrightarrow> member_ok env db' m"
  shows "store env db'"
proof -
  have "db_inv env db' \<and> tail_inv db' \<and> ids_ok env db'"
    by (rule rows_only [of env db]) (use st n in \<open>simp_all add: store_def conv_core_def db'\<close>)
  then show ?thesis
    using st ms by (simp add: store_def conv_core_def members_ok_def reads_ok_def settings_ok_def db')
qed

lemma store_membersD:
  assumes "store env db"
  shows "distinct (map cm_id (members db))" "distinct (map member_key (members db))"
    "m \<in> set (members db) \<Longrightarrow> member_ok env db m"
  using assms by (simp_all add: store_def conv_core_def members_ok_def)

lemma filter_members_keeps:
  assumes "store env db"
  shows "store env (db\<lparr>members := filter P (members db)\<rparr>)"
  by (rule store_members [OF assms, where n = "next_id db" and ms = "filter P (members db)"])
    (use store_membersD [OF assms] in \<open>auto simp: distinct_map_filter intro: member_ok_cong\<close>)

lemma upd_members_keeps:
  assumes st: "store env db"
    and f: "\<And>m. cm_id (f m) = cm_id m" "\<And>m. member_key (f m) = member_key m"
    and ok: "\<And>m. m \<in> set (members db) \<Longrightarrow> cm_conv m = cid \<Longrightarrow> cm_user m = Some uid \<Longrightarrow> member_ok env db (f m)"
  shows "store env (upd_members cid uid f db)"
  unfolding upd_members_def
  by (rule store_members [OF st, where n = "next_id db" and
        ms = "update_where (\<lambda>m. cm_conv m = cid \<and> cm_user m = Some uid) f (members db)"])
    (use store_membersD [OF st] ok in \<open>auto simp: f map_update_where set_update_where intro: member_ok_cong\<close>)

section \<open>The counts\<close>

lemma human_count_update:
  "(\<And>m. cm_conv (f m) = cm_conv m) \<Longrightarrow> (\<And>m. cm_type (f m) = cm_type m) \<Longrightarrow>
     human_count k (upd_members cid uid f db) = human_count k db"
  by (simp add: human_count_def upd_members_def is_human_member_def count_filter_update_same)

lemma counts_upd_members:
  assumes "\<And>m. cm_conv (f m) = cm_conv m" "\<And>m. cm_type (f m) = cm_type m" "counts_off c n db"
  shows "counts_off c n (upd_members cid uid f db)"
  using assms(3) human_count_update [of f, OF assms(1,2)]
  by (simp add: counts_off_def upd_members_def)

lemma counts_cong:
  "counts_off c n db \<Longrightarrow> convs db' = convs db \<Longrightarrow> members db' = members db \<Longrightarrow> counts_off c n db'"
  by (simp add: counts_off_def human_count_def)

end
