(* ===== verification/Conversation_Ops.thy ===== *)
theory Conversation_Ops
  imports Conversation_Steps
begin

text \<open>
  Every conversation operation keeps the store and the member counts. The operations as requests are
  \<open>conv_op\<close>, run by \<open>run_conv_op\<close>.
\<close>

section \<open>Results of the guards\<close>

lemma validate_request_Inr:
  "validate_request env c uid ids = Inr u \<longleftrightarrow>
     valid_id env uid \<and> list_all (valid_id env) ids \<and> current_user env c = Inr uid"
  by (auto simp: validate_request_def rbind_eq_Inr ensure_eq_Inr)

lemma with_locked_Inr:
  "with_locked_conversation env cid f db = Inr r \<longleftrightarrow>
     valid_id env cid \<and> (\<exists>c. convs db cid = Some c \<and> f c db = Inr r)"
  by (auto simp: with_locked_conversation_def rbind_eq_Inr get_conv_def of_option_eq_Inr)

lemma find_member_Inr:
  "find_member cid uid db = Inr m \<Longrightarrow>
     m \<in> set (members db) \<and> cm_conv m = cid \<and> cm_type m = ''user'' \<and> cm_user m = Some uid"
  unfolding find_member_def by (drule take_row_InrD) (auto simp: is_human_member_def)

lemma require_role_Inr:
  "require_role cid uid min_role db = Inr u \<longleftrightarrow>
     (\<exists>m. find_member cid uid db = Inr m \<and> cm_role m \<le> min_role) \<and>
     (min_role \<le> admin_role \<longrightarrow> (\<exists>c. convs db cid = Some c \<and> c_type c \<noteq> conv_system))"
  using find_member_Inr [of cid uid db]
  by (auto simp: require_role_def rbind_eq_Inr ensure_eq_Inr get_conv_def of_option_eq_Inr split: sum.splits)

lemma verify_target_Inr:
  "verify_target_not_higher cid target operator db = Inr u \<longleftrightarrow>
     (\<exists>t p. find_member cid target db = Inr t \<and> find_member cid operator db = Inr p \<and> cm_role p < cm_role t)"
  by (auto simp: verify_target_not_higher_def ensure_eq_Inr split: sum.splits)

section \<open>Adding members\<close>

lemma new_members_eq:
  "new_members env cid us db =
     (map (\<lambda>(n, u, r). new_member env cid u r (fresh env n)) (enumerate (next_id db) us),
      db\<lparr>next_id := next_id db + length us\<rparr>)"
  by (induction us arbitrary: db) (auto simp: new_id_def)

lemma new_members_set:
  assumes "m \<in> set (fst (new_members env cid us db))"
  shows "\<exists>u r n. (u, r) \<in> set us \<and> n < next_id db + length us \<and> m = new_member env cid u r (fresh env n)"
proof -
  from assms obtain n u r where m: "(n, u, r) \<in> set (enumerate (next_id db) us)"
      "m = new_member env cid u r (fresh env n)"
    by (auto simp: new_members_eq)
  then have n: "next_id db \<le> n" "n < length us + next_id db" "us ! (n - next_id db) = (u, r)"
    by (auto simp: in_set_enumerate_eq)
  then have "(u, r) \<in> set us" by (metis add.commute less_diff_conv2 nth_mem)
  moreover have "n < next_id db + length us" using n by simp
  ultimately show ?thesis using m(2) by blast
qed

lemma split_members_subseq:
  "split_members env cid seen ms = Inr (pending, failed) \<Longrightarrow> subseq pending ms \<and> (\<forall>m\<in>set pending. cm_conv m = cid)"
proof (induction ms arbitrary: seen pending failed)
  case (Cons m ms)
  from Cons.prems obtain u where u: "human_key env m = Inr u" and cid: "cm_conv m = cid"
    by (auto simp: rbind_eq_Inr split: if_splits)
  show ?case
  proof (cases "u \<in> set seen")
    case True
    with Cons.prems u cid obtain failed' where "split_members env cid seen ms = Inr (pending, failed')"
      by (auto simp: rbind_eq_Inr)
    from Cons.IH [OF this] show ?thesis by blast
  next
    case False
    with Cons.prems u cid obtain pending' failed' where p: "pending = m # pending'"
        "split_members env cid (u # seen) ms = Inr (pending', failed')"
      by (auto simp: rbind_eq_Inr)
    from Cons.IH [OF p(2)] cid show ?thesis unfolding p(1) by auto
  qed
qed simp

lemma insert_members_Inr:
  "insert_members ms db = Inr db' \<longleftrightarrow>
     distinct (map cm_id (members db @ ms)) \<and> distinct (map member_key (members db @ ms)) \<and>
     db' = db\<lparr>members := members db @ ms\<rparr>"
  by (auto simp: insert_members_def Let_def)

lemma insert_members_keeps:
  assumes st: "store env db" and run: "insert_members ms db = Inr db'"
    and ok: "\<And>m. m \<in> set ms \<Longrightarrow> member_ok env db m"
  shows "store env db'"
  by (rule store_members [OF st, where n = "next_id db" and ms = "members db @ ms"])
    (use run ok store_membersD [OF st] in \<open>auto simp: insert_members_Inr simp del: distinct_append map_append\<close>)

lemma human_count_append:
  "\<forall>m\<in>set ms. cm_conv m = cid \<and> cm_type m = ''user'' \<Longrightarrow>
     human_count k (db\<lparr>members := members db @ ms\<rparr>) = human_count k db + (if k = cid then int (length ms) else 0)"
  by (auto simp: human_count_def is_human_member_def filter_True)

text \<open>The part of the store an addition may change.\<close>

lemma add_within_limit_Inr:
  assumes "add_members_within_limit env cid ms db = Inr (added, failed, db')"
  shows "(added = [] \<and> db' = db) \<or>
    (\<exists>pending. subseq pending ms \<and> (\<forall>m\<in>set pending. cm_conv m = cid) \<and> pending \<noteq> [] \<and> added = map user_of pending \<and>
       int (length (filter (is_human_member cid) (members db)) + length pending) \<le> max_members env \<and>
       insert_members pending db = Inr (db\<lparr>members := members db @ pending\<rparr>) \<and>
       db' = upd_conv cid (\<lambda>c. c\<lparr>c_member_count := c_member_count c + int (length pending), c_updated := now env\<rparr>)
         (db\<lparr>members := members db @ pending\<rparr>))"
  using assms
  by (auto simp: add_members_within_limit_def rbind_eq_Inr Let_def insert_members_Inr not_less
      dest!: split_members_subseq split: if_splits)

lemma count_update_keeps:
  assumes st: "store env db" and cnt: "counts_off cid d db"
  shows "store env (upd_conv cid (\<lambda>c. c\<lparr>c_member_count := c_member_count c + n, c_updated := t\<rparr>) db)"
    "counts_off cid (d + n) (upd_conv cid (\<lambda>c. c\<lparr>c_member_count := c_member_count c + n, c_updated := t\<rparr>) db)"
proof -
  let ?f = "\<lambda>c :: conversation. c\<lparr>c_member_count := c_member_count c + n, c_updated := t\<rparr>"
  have sc: "same_core db (upd_conv cid ?f db)" by (rule same_core_upd_conv) simp_all
  have "db_inv env (upd_conv cid ?f db)" using same_core_inv [OF sc] st by (simp add: store_def)
  moreover have "tail_inv (upd_conv cid ?f db)"
  proof (rule tail_inv_frame)
    show "tail_inv db" using st by (simp add: store_def)
    show "msgs (upd_conv cid ?f db) = msgs db" by (simp add: upd_conv_def)
    show "\<exists>c. convs db k = Some c \<and> c_last_msg c' = c_last_msg c \<and> c_last_preview c' = c_last_preview c"
      if "convs (upd_conv cid ?f db) k = Some c'" for k c'
      using that by (cases "k = cid") (auto simp: upd_conv_def)
  qed
  moreover have cv: "convs (upd_conv cid ?f db) k = (if k = cid then map_option ?f (convs db k) else convs db k)" for k
    by (simp add: upd_conv_def)
  have rest: "members (upd_conv cid ?f db) = members db" "reads (upd_conv cid ?f db) = reads db"
    "settings (upd_conv cid ?f db) = settings db" "outbox (upd_conv cid ?f db) = outbox db"
    "msgs (upd_conv cid ?f db) = msgs db" "next_id (upd_conv cid ?f db) = next_id db"
    by (simp_all add: upd_conv_def)
  have u: "used_id env (upd_conv cid ?f db) = used_id env db" by (simp add: used_id_def fun_eq_iff rest)
  have core: "conv_core env db" using st by (simp add: store_def)
  have "members_ok env (upd_conv cid ?f db)"
    using core by (auto simp: conv_core_def members_ok_def member_ok_def rest u cv split: if_splits)
  moreover have "reads_ok (upd_conv cid ?f db)"
    using core unfolding conv_core_def reads_ok_def rest by (auto simp: cv)
  moreover have "settings_ok (upd_conv cid ?f db)" "ids_ok env (upd_conv cid ?f db)"
    using core by (auto simp: conv_core_def settings_ok_def ids_ok_def rest u cv split: if_splits)
  ultimately show "store env (upd_conv cid ?f db)" by (simp add: store_def conv_core_def)
  show "counts_off cid (d + n) (upd_conv cid ?f db)"
    using cnt by (auto simp: counts_off_def human_count_def rest cv split: if_splits)
qed

text \<open>\<open>kept\<close>: the store and the counts hold, from an earlier store whose members are unchanged.\<close>

definition kept :: "env \<Rightarrow> string \<Rightarrow> int \<Rightarrow> msg_db \<Rightarrow> bool" where
  "kept env cid n db \<longleftrightarrow> store env db \<and> counts_off cid n db"

lemma kept_frame: "store env db' \<and> conv_frame db db' \<Longrightarrow> kept env cid n db \<Longrightarrow> kept env cid n db'"
  using conv_frame_counts by (auto simp: kept_def)

lemma kept_zero: "kept env cid 0 db \<longleftrightarrow> store env db \<and> counts_ok db"
  by (simp add: kept_def counts_off_zero)

lemma kept_activity:
  "publish_bot_activity env c ty actor text data db = Inr db' \<Longrightarrow> inj (fresh env) \<Longrightarrow> kept env cid n db \<Longrightarrow> kept env cid n db'"
  using activity_keeps kept_frame by (metis kept_def)

lemma kept_change:
  "publish_conversation_change env c rcp removed db = Inr db' \<Longrightarrow> inj (fresh env) \<Longrightarrow> kept env cid n db \<Longrightarrow> kept env cid n db'"
  using conversation_change_keeps kept_frame by (metis kept_def)

lemma kept_publish:
  "publish_inbox_change env ch db = Inr db' \<Longrightarrow> inj (fresh env) \<Longrightarrow> kept env cid n db \<Longrightarrow> kept env cid n db'"
  using publish_keeps kept_frame by (metis kept_def)

lemma kept_next_id: "kept env cid n db \<Longrightarrow> next_id db \<le> k \<Longrightarrow> kept env cid n (db\<lparr>next_id := k\<rparr>)"
proof -
  assume a: "kept env cid n db" "next_id db \<le> k"
  have fr: "conv_frame db (db\<lparr>next_id := k\<rparr>)" using a(2) by (rule next_id_conv_frame)
  have "db_inv env (db\<lparr>next_id := k\<rparr>) \<and> tail_inv (db\<lparr>next_id := k\<rparr>) \<and> ids_ok env (db\<lparr>next_id := k\<rparr>)"
    by (rule rows_only [of env db]) (use a in \<open>simp_all add: kept_def store_def conv_core_def\<close>)
  then show ?thesis using a(1) fr store_frame kept_frame by (metis kept_def)
qed

lemma kept_attribute:
  assumes "kept env k n db"
    and "\<And>c. c_id (f c) = c_id c" "\<And>c. c_pub_seq (f c) = c_pub_seq c" "\<And>c. c_max_seq (f c) = c_max_seq c"
      "\<And>c. c_owner (f c) = c_owner c" "\<And>c. c_type (f c) = c_type c" "\<And>c. c_member_count (f c) = c_member_count c"
      "\<And>c. c_last_msg (f c) = c_last_msg c" "\<And>c. c_last_preview (f c) = c_last_preview c"
  shows "kept env k n (upd_conv cid f db)"
proof -
  have "store env db" using assms(1) by (simp add: kept_def)
  from attribute_keeps [of env db f cid, OF this assms(2-9)] assms(1) show ?thesis by (rule kept_frame)
qed

lemmas kept_steps = kept_activity kept_change kept_publish kept_next_id

lemma add_members_Inr:
  assumes run: "add_members env c operator cid users db = Inr (r, sys, db')"
    and nm: "new_members env cid (map (\<lambda>u. (u, member_role)) users) db = (ms, db0)"
  obtains added failed db1 conv where "convs db0 cid = Some conv" "r = (added, failed)"
    "require_role cid operator admin_role db0 = Inr ()" "valid_id env operator" "current_user env c = Inr operator"
    "add_members_within_limit env cid ms db0 = Inr (added, failed, db1)"
    "if added = [] then db' = db1
      else \<exists>db2. rfold (joined_activity env cid operator) added db1 = Inr db2 \<and>
        publish_conversation_change env cid None [] db2 = Inr db'"
proof -
  from run have "\<exists>added failed. validate_request env c operator [cid] = Inr () \<and> r = (added, failed) \<and>
    with_locked_conversation env cid (\<lambda>conv db.
           rbind (require_role cid operator admin_role db) (\<lambda>_.
           rbind (add_members_within_limit env cid ms db) (\<lambda>(added, failed, db1).
             if added = [] then Inr (added, failed, db1)
             else rbind (rfold (joined_activity env cid operator) added db1) (\<lambda>db2.
                  rbind (publish_conversation_change env cid None [] db2) (\<lambda>db3.
                    Inr (added, failed, db3)))))) db0 = Inr (added, failed, db')"
    unfolding add_members_def nm by (force simp: rbind_eq_Inr map_err_eq_Inr)
  then obtain added failed where v: "validate_request env c operator [cid] = Inr ()" "r = (added, failed)"
    and go: "with_locked_conversation env cid (\<lambda>conv db.
           rbind (require_role cid operator admin_role db) (\<lambda>_.
           rbind (add_members_within_limit env cid ms db) (\<lambda>(added, failed, db1).
             if added = [] then Inr (added, failed, db1)
             else rbind (rfold (joined_activity env cid operator) added db1) (\<lambda>db2.
                  rbind (publish_conversation_change env cid None [] db2) (\<lambda>db3.
                    Inr (added, failed, db3)))))) db0 = Inr (added, failed, db')"
    by blast
  from go obtain conv db1 where "convs db0 cid = Some conv" "require_role cid operator admin_role db0 = Inr ()"
      "add_members_within_limit env cid ms db0 = Inr (added, failed, db1)"
      "if added = [] then db' = db1
      else \<exists>db2. rfold (joined_activity env cid operator) added db1 = Inr db2 \<and>
        publish_conversation_change env cid None [] db2 = Inr db'"
    unfolding with_locked_Inr by (force simp: rbind_eq_Inr split: if_splits)
  with v show thesis by (intro that) (auto simp: validate_request_Inr)
qed

lemma add_within_limit_keeps:
  assumes run: "add_members_within_limit env cid ms db = Inr (added, failed, db')"
    and kp: "kept env cid 0 db" and conv: "convs db cid \<noteq> None"
    and new: "\<And>m. m \<in> set ms \<Longrightarrow> \<exists>u i. m = new_member env cid u member_role i \<and> used_id env db i"
  shows "kept env cid 0 db'"
  using add_within_limit_Inr [OF run]
proof (elim disjE exE conjE)
  assume "db' = db"
  with kp show ?thesis by simp
next
  fix pending
  let ?db1 = "db\<lparr>members := members db @ pending\<rparr>"
  assume p: "subseq pending ms" "insert_members pending db = Inr ?db1"
    "db' = upd_conv cid (\<lambda>c. c\<lparr>c_member_count := c_member_count c + int (length pending), c_updated := now env\<rparr>) ?db1"
  have new': "\<exists>u i. m = new_member env cid u member_role i \<and> used_id env db i" if "m \<in> set pending" for m
    using new set_subseq [OF p(1)] that by blast
  have ok: "member_ok env db m" if "m \<in> set pending" for m
    using new' [OF that] conv by (auto simp: member_ok_def new_member_def role_defs)
  have st: "store env db" using kp by (simp add: kept_def)
  have st1: "store env ?db1" by (rule insert_members_keeps [OF st p(2) ok])
  have cnt1: "counts_off cid (- int (length pending)) ?db1"
  proof -
    have "\<forall>m\<in>set pending. cm_conv m = cid \<and> cm_type m = ''user''"
    proof
      fix m assume "m \<in> set pending"
      from new' [OF this] show "cm_conv m = cid \<and> cm_type m = ''user''" by (auto simp: new_member_def)
    qed
    from human_count_append [OF this, of _ db] kp show ?thesis by (simp add: kept_def counts_off_def)
  qed
  show ?thesis
    unfolding p(3) kept_def using count_update_keeps [OF st1 cnt1, where n = "int (length pending)" and t = "now env"] by simp
qed

lemma joined_keeps:
  "rfold (joined_activity env cid operator) us db = Inr db' \<Longrightarrow> inj (fresh env) \<Longrightarrow> kept env cid n db \<Longrightarrow> kept env cid n db'"
  by (erule rfold_invariant) (auto simp: joined_activity_def rbind_eq_Inr intro: kept_activity)

lemma new_members_used:
  assumes "m \<in> set (fst (new_members env cid us db))" "inj (fresh env)"
  shows "\<exists>u r i. (u, r) \<in> set us \<and> m = new_member env cid u r i \<and>
    used_id env (snd (new_members env cid us db)) i"
proof -
  from new_members_set [OF assms(1)] obtain u r n where u: "(u, r) \<in> set us" "n < next_id db + length us"
      "m = new_member env cid u r (fresh env n)" by blast
  have "used_id env (snd (new_members env cid us db)) (fresh env n)"
    by (rule fresh_used [OF assms(2)]) (use u(2) in \<open>simp add: new_members_eq\<close>)
  with u show ?thesis by blast
qed

lemma add_members_keeps:
  assumes run: "add_members env c operator cid users db = Inr (r, sys, db')"
    and kp: "kept env cid 0 db" and inj: "inj (fresh env)"
  shows "kept env cid 0 db'"
proof -
  let ?us = "map (\<lambda>u. (u, member_role)) users"
  obtain ms db0 where nm: "new_members env cid ?us db = (ms, db0)" by (cases "new_members env cid ?us db")
  from add_members_Inr [OF run nm] obtain added failed db1 conv where conv: "convs db0 cid = Some conv"
    and lim: "add_members_within_limit env cid ms db0 = Inr (added, failed, db1)"
    and rest: "if added = [] then db' = db1
      else \<exists>db2. rfold (joined_activity env cid operator) added db1 = Inr db2 \<and>
        publish_conversation_change env cid None [] db2 = Inr db'"
    by metis
  have "kept env cid 0 db0" using kp nm kept_next_id [of env cid 0 db] by (auto simp: new_members_eq)
  moreover have "\<exists>u i. m = new_member env cid u member_role i \<and> used_id env db0 i" if "m \<in> set ms" for m
    using new_members_used [of m env cid ?us db] that nm inj by auto
  ultimately have kp1: "kept env cid 0 db1" using lim conv by (intro add_within_limit_keeps [OF lim]) auto
  show ?thesis
  proof (cases "added = []")
    case True
    with rest kp1 show ?thesis by simp
  next
    case False
    with rest kp1 inj show ?thesis by (auto intro: joined_keeps kept_change)
  qed
qed

section \<open>Removing members\<close>

lemma removal_targets_Inr:
  assumes "removal_targets cid operator seen us db = Inr ms" "m \<in> set ms"
  shows "m \<in> set (members db) \<and> cm_conv m = cid \<and> cm_type m = ''user'' \<and>
    (\<exists>u\<in>set us. u \<notin> set seen \<and> cm_user m = Some u)"
  using assms
proof (induction us arbitrary: seen ms)
  case (Cons u us)
  show ?case
  proof (cases "u \<in> set seen")
    case True
    with Cons.prems Cons.IH [of seen ms] show ?thesis by auto
  next
    case False
    with Cons.prems(1) obtain x ms' where x: "find_member cid u db = Inr x" "ms = x # ms'"
        "removal_targets cid operator (u # seen) us db = Inr ms'"
      by (auto simp: rbind_eq_Inr split: if_splits)
    show ?thesis
    proof (cases "m = x")
      case True
      with find_member_Inr [OF x(1)] False show ?thesis by auto
    next
      case m: False
      with Cons.prems(2) x(2) have "m \<in> set ms'" by simp
      from Cons.IH [OF x(3) this] show ?thesis by auto
    qed
  qed
qed simp

lemma removal_targets_distinct:
  "removal_targets cid operator seen us db = Inr ms \<Longrightarrow> distinct (map cm_user ms)"
proof (induction us arbitrary: seen ms)
  case (Cons u us)
  show ?case
  proof (cases "u \<in> set seen")
    case True
    with Cons show ?thesis by auto
  next
    case False
    with Cons.prems obtain x ms' where x: "find_member cid u db = Inr x" "ms = x # ms'"
        "removal_targets cid operator (u # seen) us db = Inr ms'"
      by (auto simp: rbind_eq_Inr split: if_splits)
    have "Some u \<notin> cm_user ` set ms'"
      using removal_targets_Inr [OF x(3)] by fastforce
    with find_member_Inr [OF x(1)] Cons.IH [OF x(3)] show ?thesis unfolding x(2) by simp
  qed
qed simp

lemma remove_member_count:
  assumes st: "store env db" and m: "m \<in> set (members db)" "cm_conv m = cid" "cm_type m = ''user''" "cm_user m = Some u"
  shows "human_count k (remove_member cid u db) = human_count k db - (if k = cid then 1 else 0)"
proof -
  have eq: "filter (is_human_member k) (members (remove_member cid u db)) =
      filter (\<lambda>x. member_key x \<noteq> member_key m \<and> is_human_member k x) (members db)"
    by (simp add: remove_member_def member_key_def m)
  have Q: "is_human_member k m \<longleftrightarrow> k = cid" using m by (auto simp: is_human_member_def)
  have "k = cid \<Longrightarrow> m \<in> set (filter (is_human_member k) (members db))" using m(1) Q by simp
  then have "k = cid \<Longrightarrow> 1 \<le> length (filter (is_human_member k) (members db))"
    by (metis One_nat_def Suc_leI length_pos_if_in_set)
  then show ?thesis
    unfolding human_count_def eq length_filter_remove [OF store_membersD(2) [OF st] m(1)] by (auto simp: Q)
qed

lemma kept_remove:
  assumes kp: "kept env cid n db" and m: "m \<in> set (members db)" "cm_conv m = cid" "cm_type m = ''user''" "cm_user m = Some u"
  shows "kept env cid (n + 1) (remove_member cid u db)"
proof -
  have st: "store env db" using kp by (simp add: kept_def)
  have "store env (remove_member cid u db)"
    unfolding remove_member_def by (rule filter_members_keeps [OF st])
  moreover have "counts_off cid (n + 1) (remove_member cid u db)"
    using kp remove_member_count [OF st m] by (auto simp: kept_def counts_off_def remove_member_def)
  ultimately show ?thesis by (simp add: kept_def)
qed

text \<open>The rows still to be removed are there, and are for different users.\<close>

lemma remove_all_keeps:
  assumes "rfold (remove_one env cid operator) ms db = Inr db'" "kept env cid n db" "inj (fresh env)"
    "\<forall>m\<in>set ms. m \<in> set (members db) \<and> cm_conv m = cid \<and> cm_type m = ''user'' \<and> cm_user m \<noteq> None"
    "distinct (map cm_user ms)"
  shows "kept env cid (n + int (length ms)) db' \<and>
    members db' = filter (\<lambda>x. \<not> (cm_conv x = cid \<and> cm_user x \<in> cm_user ` set ms)) (members db)"
  using assms
proof (induction ms arbitrary: db n)
  case (Cons m ms)
  from Cons.prems(4) obtain u where u: "cm_user m = Some u" "m \<in> set (members db)" "cm_conv m = cid" "cm_type m = ''user''"
    by auto
  then have um: "user_of m = u" by (simp add: user_of_def)
  from Cons.prems(1) obtain d where d:
      "publish_bot_activity env cid activity_member_left operator ''Member left'' (member_data m) (remove_member cid u db) = Inr d"
      "rfold (remove_one env cid operator) ms d = Inr db'"
    unfolding rfold.simps rbind_eq_Inr by (auto simp: remove_one_def [of _ _ _ m] u um)
  have k1: "kept env cid (n + 1) (remove_member cid u db)"
    using Cons.prems(2) u(2,3,4,1) by (rule kept_remove)
  have kd: "kept env cid (n + 1) d" using d(1) Cons.prems(3) k1 by (rule kept_activity)
  have md: "members d = members (remove_member cid u db)" by (rule publish_bot_activity_frame(2) [OF d(1)])
  have "cm_user x \<noteq> Some u" if "x \<in> set ms" for x
  proof -
    have "cm_user x \<in> set (map cm_user ms)" using that by simp
    moreover have "Some u \<notin> set (map cm_user ms)" using Cons.prems(5) u(1) by simp
    ultimately show ?thesis by metis
  qed
  then have pre: "\<forall>x\<in>set ms. x \<in> set (members d) \<and> cm_conv x = cid \<and> cm_type x = ''user'' \<and> cm_user x \<noteq> None"
    using Cons.prems(4) by (simp add: md remove_member_def)
  have "kept env cid (n + 1 + int (length ms)) db' \<and>
    members db' = filter (\<lambda>x. \<not> (cm_conv x = cid \<and> cm_user x \<in> cm_user ` set ms)) (members d)"
    using Cons.prems(5) by (intro Cons.IH [OF d(2) kd Cons.prems(3) pre]) simp
  then show ?case
    by (auto simp: md remove_member_def u(1) add.assoc intro!: filter_cong)
qed simp

lemma kept_count:
  "kept env cid d db \<Longrightarrow>
     kept env cid (d + n) (upd_conv cid (\<lambda>c. c\<lparr>c_member_count := c_member_count c + n, c_updated := t\<rparr>) db)"
  unfolding kept_def using count_update_keeps by blast

lemma remove_members_Inr:
  assumes run: "remove_members env c operator cid users db = Inr (sys, db')"
  obtains ms db1 conv where "valid_id env operator" "current_user env c = Inr operator"
    "convs db cid = Some conv" "c_type conv \<noteq> conv_system" "require_role cid operator member_role db = Inr ()"
    "removal_targets cid operator [] users db = Inr ms"
    "rfold (remove_one env cid operator) ms db = Inr db1"
    "publish_conversation_change env cid None (map user_of (filter (\<lambda>m. cm_type m = ''user'') ms))
       (increment_member_count env cid (- int (length ms)) db1) = Inr db'"
  using run that unfolding remove_members_def
  by (fastforce simp: rbind_eq_Inr ensure_eq_Inr with_locked_Inr validate_request_Inr Let_def)

lemma remove_members_keeps:
  assumes run: "remove_members env c operator cid users db = Inr (sys, db')"
    and kp: "kept env cid 0 db" and inj: "inj (fresh env)"
  shows "kept env cid 0 db'"
proof -
  from run obtain ms db1 where ms: "removal_targets cid operator [] users db = Inr ms"
    "rfold (remove_one env cid operator) ms db = Inr db1"
    and pub: "publish_conversation_change env cid None (map user_of (filter (\<lambda>m. cm_type m = ''user'') ms))
       (increment_member_count env cid (- int (length ms)) db1) = Inr db'"
    by (rule remove_members_Inr)
  have "kept env cid (0 + int (length ms)) db1"
    using remove_all_keeps [OF ms(2) kp inj] removal_targets_Inr [OF ms(1)] removal_targets_distinct [OF ms(1)] by auto
  from kept_count [OF this, of "- int (length ms)"]
  have "kept env cid 0 (increment_member_count env cid (- int (length ms)) db1)"
    by (simp add: increment_member_count_def)
  with pub inj show ?thesis by (rule kept_change)
qed

section \<open>Roles and mutes\<close>

lemma kept_upd_members:
  assumes kp: "kept env k n db" and f: "\<And>m. cm_id (f m) = cm_id m" "\<And>m. cm_conv (f m) = cm_conv m"
      "\<And>m. cm_user (f m) = cm_user m" "\<And>m. cm_type (f m) = cm_type m"
    and ok: "\<And>m. m \<in> set (members db) \<Longrightarrow> cm_conv m = cid \<Longrightarrow> cm_user m = Some uid \<Longrightarrow> member_ok env db m \<Longrightarrow>
      member_ok env db (f m)"
  shows "kept env k n (upd_members cid uid f db)"
proof -
  have st: "store env db" using kp by (simp add: kept_def)
  have "store env (upd_members cid uid f db)"
    by (rule upd_members_keeps [OF st]) (use f ok store_membersD(3) [OF st] in \<open>auto simp: member_key_def\<close>)
  moreover have "counts_off k n (upd_members cid uid f db)"
    using kp f by (intro counts_upd_members) (simp_all add: kept_def)
  ultimately show ?thesis by (simp add: kept_def)
qed

lemma kept_same_role:
  assumes "kept env k n db" "\<And>m. cm_id (f m) = cm_id m" "\<And>m. cm_conv (f m) = cm_conv m"
      "\<And>m. cm_user (f m) = cm_user m" "\<And>m. cm_type (f m) = cm_type m" "\<And>m. cm_role (f m) = cm_role m"
  shows "kept env k n (upd_members cid uid f db)"
  by (rule kept_upd_members [OF assms(1-5)]) (simp add: member_ok_def assms)

lemma kept_demote:
  assumes "kept env k n db" "r = admin_role \<or> r = member_role"
  shows "kept env k n (upd_members cid uid (\<lambda>m. m\<lparr>cm_role := r\<rparr>) db)"
  by (rule kept_upd_members [OF assms(1)]) (use assms(2) in \<open>auto simp: member_ok_def role_defs\<close>)

text \<open>
  Changing the owner: the new owner is recorded, takes the role, and the old one gives it up. The
  three updates together keep the owner's role with the recorded owner.
\<close>

lemma store_new_owner:
  assumes st: "store env db" and conv: "convs db cid = Some c"
    and new: "t \<in> set (members db)" "cm_conv t = cid" "cm_user t = Some new"
    and old: "\<And>m. m \<in> set (members db) \<Longrightarrow> cm_conv m = cid \<Longrightarrow> cm_role m = owner_role \<Longrightarrow> cm_user m = Some operator"
    and ne: "new \<noteq> operator"
  defines "ms \<equiv> update_where (\<lambda>m. cm_conv m = cid \<and> cm_user m = Some operator) (\<lambda>m. m\<lparr>cm_role := member_role\<rparr>)
      (update_where (\<lambda>m. cm_conv m = cid \<and> cm_user m = Some new) (\<lambda>m. m\<lparr>cm_role := owner_role\<rparr>) (members db))"
  shows "store env (db\<lparr>convs := (convs db)(cid \<mapsto> c\<lparr>c_owner := Some new, c_updated := t'\<rparr>), members := ms\<rparr>)"
proof -
  let ?db = "db\<lparr>convs := (convs db)(cid \<mapsto> c\<lparr>c_owner := Some new, c_updated := t'\<rparr>), members := ms\<rparr>"
  have sc: "same_core db ?db" using conv by (auto simp: same_core_def)
  have "db_inv env ?db" using same_core_inv [OF sc] st by (simp add: store_def)
  moreover have "tail_inv ?db"
  proof (rule tail_inv_frame)
    show "tail_inv db" using st by (simp add: store_def)
    show "\<exists>c. convs db k = Some c \<and> c_last_msg c' = c_last_msg c \<and> c_last_preview c' = c_last_preview c"
      if "convs ?db k = Some c'" for k c'
      using that conv by (auto split: if_splits)
  qed simp
  moreover have "members_ok env ?db"
    unfolding members_ok_def
  proof (intro conjI ballI)
    show "distinct (map cm_id (members ?db))" "distinct (map member_key (members ?db))"
      using store_membersD [OF st] by (simp_all add: ms_def map_update_where member_key_def)
    fix m assume "m \<in> set (members ?db)"
    then have "m \<in> set ms" by simp
    then obtain x where x: "x \<in> set (members db)"
      and m: "m = (let y = (if cm_conv x = cid \<and> cm_user x = Some new then x\<lparr>cm_role := owner_role\<rparr> else x) in
        if cm_conv y = cid \<and> cm_user y = Some operator then y\<lparr>cm_role := member_role\<rparr> else y)"
      unfolding ms_def update_where_def set_map Let_def by blast
    have ok: "member_ok env db x" using store_membersD(3) [OF st x] .
    consider "cm_conv x = cid" "cm_user x = Some new" | "cm_conv x = cid" "cm_user x = Some operator"
      | "cm_conv x = cid" "cm_user x \<noteq> Some new" "cm_user x \<noteq> Some operator" | "cm_conv x \<noteq> cid"
      by blast
    then show "member_ok env ?db m"
    proof cases
      case 3
      with old [OF x] ok show ?thesis by (auto simp: m Let_def member_ok_def used_id_def)
    qed (use ok ne in \<open>auto simp: m Let_def member_ok_def role_defs used_id_def\<close>)
  qed
  moreover have "reads_ok ?db"
    unfolding reads_ok_def
  proof (intro conjI ballI)
    show "distinct (map read_pair (reads ?db))" using st by (simp add: store_def conv_core_def reads_ok_def)
    fix r assume "r \<in> set (reads ?db)"
    then obtain x where "convs db (rs_conv r) = Some x" "0 \<le> rs_last r" "rs_last r \<le> c_max_seq x"
      using st by (auto simp: store_def conv_core_def reads_ok_def)
    with conv show "\<exists>c'. convs ?db (rs_conv r) = Some c' \<and> 0 \<le> rs_last r \<and> rs_last r \<le> c_max_seq c'" by auto
  qed
  moreover have "settings_ok ?db"
    using st by (simp add: store_def conv_core_def settings_ok_def)
  moreover have "ids_ok env ?db"
    using st conv by (simp add: store_def conv_core_def ids_ok_def used_id_def)
  ultimately show ?thesis by (simp add: store_def conv_core_def)
qed

end
