(* ===== verification/Conversation_Inv.thy ===== *)
theory Conversation_Inv
  imports Conversation_Ops
begin

text \<open>
  The remaining operations keep the store: ownership, attributes, settings, read positions, deletion
  and creation; together, any run of conversation requests does.
\<close>

section \<open>Ownership\<close>

lemma role_one: "member_ok env db m \<Longrightarrow> cm_role m \<le> owner_role \<longleftrightarrow> cm_role m = owner_role"
  by (auto simp: member_ok_def role_defs)

lemma only_owner:
  assumes st: "store env db" and m: "m \<in> set (members db)" "cm_conv m = cid" "cm_role m = owner_role"
    and c: "convs db cid = Some c"
  shows "c_owner c = cm_user m"
  using store_membersD(3) [OF st m(1)] m c by (auto simp: member_ok_def)

definition new_owner_db :: "env \<Rightarrow> string \<Rightarrow> string \<Rightarrow> string \<Rightarrow> msg_db \<Rightarrow> msg_db" where
  "new_owner_db env cid new operator db =
     update_member_role cid operator member_role (update_member_role cid new owner_role
       (update_conversation_owner env cid new db))"

lemma transfer_owner_Inr:
  assumes run: "transfer_owner env c operator cid new db = Inr (sys, db')"
  obtains conv m t where "valid_id env operator" "current_user env c = Inr operator"
    "convs db cid = Some conv" "c_type conv \<noteq> conv_system" "find_member cid operator db = Inr m" "cm_role m \<le> owner_role"
    "find_member cid new db = Inr t"
    "if new = operator then db' = db
     else publish_conversation_change env cid None [] (new_owner_db env cid new operator db) = Inr db'"
  using run that unfolding transfer_owner_def new_owner_db_def
  by (fastforce simp: rbind_eq_Inr ensure_eq_Inr with_locked_Inr validate_request_Inr require_role_Inr role_defs
      split: if_splits)

lemma kept_new_owner:
  assumes kp: "kept env k n db" and conv: "convs db cid = Some conv"
    and m: "find_member cid operator db = Inr m" "cm_role m \<le> owner_role"
    and t: "find_member cid new db = Inr t" and ne: "new \<noteq> operator"
  shows "kept env k n (new_owner_db env cid new operator db)"
proof -
  have st: "store env db" using kp by (simp add: kept_def)
  note m' = find_member_Inr [OF m(1)] and t' = find_member_Inr [OF t]
  have "cm_role m = owner_role" using role_one store_membersD(3) [OF st, of m] m' m(2) by blast
  then have own: "c_owner conv = Some operator" using only_owner [OF st, of m cid conv] m' conv by simp
  have old: "cm_user x = Some operator" if "x \<in> set (members db)" "cm_conv x = cid" "cm_role x = owner_role" for x
    using only_owner [OF st that conv] own by simp
  have "store env (new_owner_db env cid new operator db)"
    using store_new_owner [OF st conv, of t new operator "now env"] t' old ne conv
    by (simp add: new_owner_db_def update_member_role_def upd_members_def update_conversation_owner_def upd_conv_def)
  moreover have "counts_off k n (new_owner_db env cid new operator db)"
    unfolding new_owner_db_def update_member_role_def
  proof (intro counts_upd_members)
    show "counts_off k n (update_conversation_owner env cid new db)"
      using kp conv by (auto simp: kept_def counts_off_def update_conversation_owner_def upd_conv_def human_count_def)
  qed simp_all
  ultimately show ?thesis by (simp add: kept_def)
qed

lemma transfer_owner_keeps:
  assumes run: "transfer_owner env c operator cid new db = Inr (sys, db')"
    and kp: "kept env k n db" and inj: "inj (fresh env)"
  shows "kept env k n db'"
  using run
proof (rule transfer_owner_Inr)
  fix conv m t
  assume a: "convs db cid = Some conv" "find_member cid operator db = Inr m" "cm_role m \<le> owner_role"
    "find_member cid new db = Inr t"
    and rest: "if new = operator then db' = db
     else publish_conversation_change env cid None [] (new_owner_db env cid new operator db) = Inr db'"
  show ?thesis
  proof (cases "new = operator")
    case True
    with rest kp show ?thesis by simp
  next
    case False
    with rest have "publish_conversation_change env cid None [] (new_owner_db env cid new operator db) = Inr db'" by simp
    then show ?thesis using inj kept_new_owner [OF kp a False] by (rule kept_change)
  qed
qed

section \<open>Members\<close>

lemma update_member_Inr:
  assumes run: "update_member env c operator cid uid role alias db = Inr (sys, db')"
  obtains conv m m1 m2 where "valid_id env operator" "current_user env c = Inr operator"
    "convs db cid = Some conv" "c_type conv \<noteq> conv_system" "require_role cid operator member_role db = Inr ()"
    "find_member cid uid db = Inr m" "changed_role cid operator role m db = Inr m1"
    "changed_alias cid operator uid alias m1 db = Inr m2"
    "publish_conversation_change env cid None []
       (upd_members cid uid (\<lambda>x. x\<lparr>cm_role := cm_role m2, cm_alias := cm_alias m2\<rparr>) db) = Inr db'"
  using run that unfolding update_member_def
  by (fastforce simp: rbind_eq_Inr ensure_eq_Inr with_locked_Inr validate_request_Inr map_err_eq_Inr)

lemma changed_role_Inr:
  "changed_role cid operator role m db = Inr m1 \<Longrightarrow>
     (role = None \<and> m1 = m) \<or>
     (\<exists>r. role = Some r \<and> require_role cid operator owner_role db = Inr () \<and> cm_role m \<noteq> owner_role \<and>
        admin_role \<le> r \<and> r \<le> member_role \<and> m1 = m\<lparr>cm_role := r\<rparr>)"
  by (auto simp: changed_role_def rbind_eq_Inr split: option.splits if_splits)

lemma changed_alias_Inr:
  "changed_alias cid operator uid alias m db = Inr m' \<Longrightarrow>
     (alias = None \<and> m' = m) \<or> (\<exists>a. alias = Some a \<and> m' = m\<lparr>cm_alias := a\<rparr> \<and>
       (uid \<noteq> operator \<longrightarrow> require_role cid operator admin_role db = Inr () \<and>
          verify_target_not_higher cid uid operator db = Inr ()))"
  by (auto simp: changed_alias_def rbind_eq_Inr split: option.splits if_splits)

lemma member_row_unique:
  assumes "store env db" "x \<in> set (members db)" "y \<in> set (members db)" "cm_conv x = cm_conv y" "cm_user x = cm_user y"
  shows "x = y"
  using store_membersD(2) [OF assms(1)] assms(2-) by (auto simp: distinct_map member_key_def inj_on_def)

lemma update_member_keeps:
  assumes run: "update_member env c operator cid uid role alias db = Inr (sys, db')"
    and kp: "kept env k n db" and inj: "inj (fresh env)"
  shows "kept env k n db'"
  using run
proof (rule update_member_Inr)
  fix conv m m1 m2
  assume m: "find_member cid uid db = Inr m" "changed_role cid operator role m db = Inr m1"
    "changed_alias cid operator uid alias m1 db = Inr m2"
    and pub: "publish_conversation_change env cid None []
       (upd_members cid uid (\<lambda>x. x\<lparr>cm_role := cm_role m2, cm_alias := cm_alias m2\<rparr>) db) = Inr db'"
  have st: "store env db" using kp by (simp add: kept_def)
  note m' = find_member_Inr [OF m(1)]
  have r2: "cm_role m2 = cm_role m1" using changed_alias_Inr [OF m(3)] by auto
  have r1: "cm_role m1 = cm_role m \<or> cm_role m1 = admin_role \<or> cm_role m1 = member_role"
    using changed_role_Inr [OF m(2)] by (auto simp: role_defs)
  have "kept env k n (upd_members cid uid (\<lambda>x. x\<lparr>cm_role := cm_role m2, cm_alias := cm_alias m2\<rparr>) db)"
  proof (rule kept_upd_members [OF kp])
    fix x assume x: "x \<in> set (members db)" "cm_conv x = cid" "cm_user x = Some uid" "member_ok env db x"
    then have "x = m" using m' member_row_unique [OF st, of x m] by simp
    with x(4) r1 r2 show "member_ok env db (x\<lparr>cm_role := cm_role m2, cm_alias := cm_alias m2\<rparr>)"
      by (auto simp: member_ok_def role_defs)
  qed simp_all
  with pub inj show ?thesis by (rule kept_change)
qed

lemma mute_member_Inr:
  assumes run: "mute_member env c operator cid uid d db = Inr (sys, db')"
  shows "valid_id env operator \<and> current_user env c = Inr operator \<and> require_role cid operator admin_role db = Inr () \<and>
    verify_target_not_higher cid uid operator db = Inr () \<and>
    publish_conversation_change env cid None []
      (repo_mute_member cid uid (if d > 0 then wrap64 (unix (now env) + d) else 0) db) = Inr db'"
  using run unfolding mute_member_def
  by (fastforce simp: rbind_eq_Inr with_locked_Inr validate_request_Inr)

lemma unmute_member_Inr:
  assumes run: "unmute_member env c operator cid uid db = Inr (sys, db')"
  shows "valid_id env operator \<and> current_user env c = Inr operator \<and> require_role cid operator admin_role db = Inr () \<and>
    verify_target_not_higher cid uid operator db = Inr () \<and>
    publish_conversation_change env cid None [] (repo_unmute_member cid uid db) = Inr db'"
  using run unfolding unmute_member_def
  by (fastforce simp: rbind_eq_Inr with_locked_Inr validate_request_Inr)

lemma mute_member_keeps:
  assumes run: "mute_member env c operator cid uid d db = Inr (sys, db')" and kp: "kept env k n db" and inj: "inj (fresh env)"
  shows "kept env k n db'"
  using mute_member_Inr [OF run, THEN conjunct2, THEN conjunct2, THEN conjunct2, THEN conjunct2] inj
  by (rule kept_change) (simp add: repo_mute_member_def kept_same_role [OF kp])

lemma unmute_member_keeps:
  assumes run: "unmute_member env c operator cid uid db = Inr (sys, db')" and kp: "kept env k n db" and inj: "inj (fresh env)"
  shows "kept env k n db'"
  using unmute_member_Inr [OF run, THEN conjunct2, THEN conjunct2, THEN conjunct2, THEN conjunct2] inj
  by (rule kept_change) (simp add: repo_unmute_member_def kept_same_role [OF kp])

section \<open>Attributes\<close>

lemma admin_change_Inr:
  "admin_change env c operator cid f db = Inr db' \<longleftrightarrow>
     valid_id env operator \<and> valid_id env cid \<and> current_user env c = Inr operator \<and> convs db cid \<noteq> None \<and>
     require_role cid operator admin_role db = Inr () \<and>
     publish_conversation_change env cid None [] (f db) = Inr db'"
  by (auto simp: admin_change_def rbind_eq_Inr with_locked_Inr validate_request_Inr)

lemma mute_all_Inr:
  "mute_all env c operator cid db = Inr (sys, db') \<Longrightarrow>
     admin_change env c operator cid (update_conversation_muted_all env cid True) db = Inr db'"
  by (auto simp: mute_all_def rbind_eq_Inr)

lemma unmute_all_Inr:
  "unmute_all env c operator cid db = Inr (sys, db') \<Longrightarrow>
     admin_change env c operator cid (update_conversation_muted_all env cid False) db = Inr db'"
  by (auto simp: unmute_all_def rbind_eq_Inr)

lemma kept_muted_all: "kept env k n db \<Longrightarrow> kept env k n (update_conversation_muted_all env cid b db)"
  unfolding update_conversation_muted_all_def by (erule kept_attribute) simp_all

lemma kept_announcement: "kept env k n db \<Longrightarrow> kept env k n (update_conversation_announcement env cid text db)"
  unfolding update_conversation_announcement_def by (erule kept_attribute) simp_all

lemma kept_update_conversation: "kept env k n db \<Longrightarrow> kept env k n (repo_update_conversation env cid a b d db)"
  unfolding repo_update_conversation_def by (erule kept_attribute) simp_all

lemma mute_all_keeps:
  "mute_all env c operator cid db = Inr (sys, db') \<Longrightarrow> kept env k n db \<Longrightarrow> inj (fresh env) \<Longrightarrow> kept env k n db'"
  by (drule mute_all_Inr) (auto simp: admin_change_Inr intro: kept_change kept_muted_all)

lemma unmute_all_keeps:
  "unmute_all env c operator cid db = Inr (sys, db') \<Longrightarrow> kept env k n db \<Longrightarrow> inj (fresh env) \<Longrightarrow> kept env k n db'"
  by (drule unmute_all_Inr) (auto simp: admin_change_Inr intro: kept_change kept_muted_all)

lemma update_conversation_Inr:
  "update_conversation env c uid cid nm av bg db = Inr (sys, db') \<Longrightarrow>
     \<exists>conv. convs db cid = Some conv \<and> c_type conv = conv_group \<and> current_user env c = Inr uid \<and>
       require_role cid uid admin_role db = Inr () \<and>
       publish_conversation_change env cid None []
         (repo_update_conversation env cid (set_opt nm (c_name conv)) (set_opt av (c_avatar conv))
            (set_opt bg (c_background conv)) db) = Inr db'"
  unfolding update_conversation_def
  by (fastforce simp: rbind_eq_Inr ensure_eq_Inr with_locked_Inr validate_request_Inr map_err_eq_Inr)

lemma update_conversation_keeps:
  "update_conversation env c uid cid nm av bg db = Inr (sys, db') \<Longrightarrow> kept env k n db \<Longrightarrow> inj (fresh env) \<Longrightarrow> kept env k n db'"
  by (drule update_conversation_Inr) (auto intro: kept_change kept_update_conversation)

lemma set_announcement_Inr:
  "set_announcement env c operator cid content db = Inr (sys, db') \<Longrightarrow>
     \<exists>db2. current_user env c = Inr operator \<and> require_role cid operator admin_role db = Inr () \<and>
       length content \<le> 32768 \<and>
       publish_bot_activity env cid activity_business operator content
         (JObj [(''business_type'', JStr ''conversation.announcement.updated'')])
         (update_conversation_announcement env cid content db) = Inr db2 \<and>
       publish_conversation_change env cid None [] db2 = Inr db'"
  unfolding set_announcement_def
  by (fastforce simp: rbind_eq_Inr with_locked_Inr validate_request_Inr Let_def split: if_splits)

lemma set_announcement_keeps:
  "set_announcement env c operator cid content db = Inr (sys, db') \<Longrightarrow> kept env k n db \<Longrightarrow> inj (fresh env) \<Longrightarrow> kept env k n db'"
  by (drule set_announcement_Inr) (elim exE conjE, rule kept_change, assumption, assumption, rule kept_activity,
    assumption, assumption, erule kept_announcement)

lemma delete_announcement_Inr:
  "delete_announcement env c operator cid db = Inr (sys, db') \<Longrightarrow>
     current_user env c = Inr operator \<and> require_role cid operator admin_role db = Inr () \<and>
     publish_conversation_change env cid None [] (update_conversation_announcement env cid [] db) = Inr db'"
  unfolding delete_announcement_def
  by (fastforce simp: rbind_eq_Inr with_locked_Inr validate_request_Inr)

lemma delete_announcement_keeps:
  "delete_announcement env c operator cid db = Inr (sys, db') \<Longrightarrow> kept env k n db \<Longrightarrow> inj (fresh env) \<Longrightarrow> kept env k n db'"
  by (drule delete_announcement_Inr) (auto intro: kept_change kept_announcement)

section \<open>Settings and read positions\<close>

lemma kept_settings:
  assumes kp: "kept env k n db" and ss: "distinct (map setting_pair ss)" "\<forall>s\<in>set ss. convs db (cs_conv s) \<noteq> None"
  shows "kept env k n (db\<lparr>settings := ss\<rparr>)"
proof -
  have st: "store env db" using kp by (simp add: kept_def)
  have "db_inv env (db\<lparr>settings := ss\<rparr>) \<and> tail_inv (db\<lparr>settings := ss\<rparr>) \<and> ids_ok env (db\<lparr>settings := ss\<rparr>)"
    by (rule rows_only [of env db]) (use st in \<open>simp_all add: store_def conv_core_def\<close>)
  moreover have "members_ok env (db\<lparr>settings := ss\<rparr>)" "reads_ok (db\<lparr>settings := ss\<rparr>)"
    using st by (simp_all add: store_def conv_core_def members_ok_def member_ok_def used_id_def reads_ok_def)
  ultimately show ?thesis
    using kp ss by (simp add: kept_def store_def conv_core_def settings_ok_def counts_off_def human_count_def)
qed

lemma kept_reads:
  assumes kp: "kept env k n db" and rs: "distinct (map read_pair rs)"
    "\<forall>r\<in>set rs. \<exists>c. convs db (rs_conv r) = Some c \<and> 0 \<le> rs_last r \<and> rs_last r \<le> c_max_seq c"
  shows "kept env k n (db\<lparr>reads := rs\<rparr>)"
proof -
  have st: "store env db" using kp by (simp add: kept_def)
  have "db_inv env (db\<lparr>reads := rs\<rparr>) \<and> tail_inv (db\<lparr>reads := rs\<rparr>) \<and> ids_ok env (db\<lparr>reads := rs\<rparr>)"
    by (rule rows_only [of env db]) (use st in \<open>simp_all add: store_def conv_core_def\<close>)
  moreover have "members_ok env (db\<lparr>reads := rs\<rparr>)" "settings_ok (db\<lparr>reads := rs\<rparr>)"
    using st by (simp_all add: store_def conv_core_def members_ok_def member_ok_def used_id_def settings_ok_def)
  ultimately show ?thesis
    using kp rs by (simp add: kept_def store_def conv_core_def reads_ok_def counts_off_def human_count_def)
qed

lemma find_settings_Some: "find_settings cid uid db = Some s \<Longrightarrow> s \<in> set (settings db) \<and> setting_pair s = (cid, uid)"
  unfolding find_settings_def by (auto dest: find_SomeD simp: setting_pair_def)

lemma find_settings_None: "find_settings cid uid db = None \<Longrightarrow> (cid, uid) \<notin> setting_pair ` set (settings db)"
  by (auto simp: find_settings_def find_None_iff_all setting_pair_def)

lemma kept_upsert_settings:
  assumes kp: "kept env k n db" and s: "convs db (cs_conv s) \<noteq> None"
  shows "kept env k n (upsert_settings s db)"
proof -
  have so: "distinct (map setting_pair (settings db))" "\<forall>s\<in>set (settings db). convs db (cs_conv s) \<noteq> None"
    using kp by (simp_all add: kept_def store_def conv_core_def settings_ok_def)
  show ?thesis
  proof (cases "find_settings (cs_conv s) (cs_user s) db")
    case None
    from find_settings_None [OF this] have "setting_pair s \<notin> set (map setting_pair (settings db))"
      by (simp add: setting_pair_def)
    with so s None show ?thesis by (auto simp: upsert_settings_def intro!: kept_settings [OF kp])
  next
    case (Some x)
    with so s show ?thesis
      by (auto simp: upsert_settings_def map_update_where setting_pair_def set_update_where intro!: kept_settings [OF kp])
  qed
qed

lemma update_settings_Inr:
  assumes run: "update_settings env c uid cid muted pinned db = Inr (sys, db')"
  obtains s db1 where "current_user env c = Inr uid" "require_role cid uid member_role db = Inr ()" "convs db cid \<noteq> None"
    "find_settings cid uid db = Some s \<and> db1 = db \<or>
     find_settings cid uid db = None \<and> db1 = db\<lparr>next_id := Suc (next_id db)\<rparr> \<and>
       s = \<lparr>cs_id = fresh env (next_id db), cs_conv = cid, cs_user = uid, cs_muted = False, cs_pinned = False\<rparr>"
    "publish_conversation_change env cid (Some [uid]) []
       (upsert_settings (s\<lparr>cs_muted := set_opt muted (cs_muted s), cs_pinned := set_opt pinned (cs_pinned s)\<rparr>) db1) = Inr db'"
  using run that unfolding update_settings_def
  by (cases "find_settings cid uid db")
    (fastforce simp: rbind_eq_Inr with_locked_Inr validate_request_Inr Let_def new_id_def)+

lemma update_settings_keeps:
  assumes run: "update_settings env c uid cid muted pinned db = Inr (sys, db')" and kp: "kept env k n db" and inj: "inj (fresh env)"
  shows "kept env k n db'"
  using run
proof (rule update_settings_Inr)
  fix s db1
  assume conv: "convs db cid \<noteq> None"
    and s: "find_settings cid uid db = Some s \<and> db1 = db \<or>
     find_settings cid uid db = None \<and> db1 = db\<lparr>next_id := Suc (next_id db)\<rparr> \<and>
       s = \<lparr>cs_id = fresh env (next_id db), cs_conv = cid, cs_user = uid, cs_muted = False, cs_pinned = False\<rparr>"
    and pub: "publish_conversation_change env cid (Some [uid]) []
       (upsert_settings (s\<lparr>cs_muted := set_opt muted (cs_muted s), cs_pinned := set_opt pinned (cs_pinned s)\<rparr>) db1) = Inr db'"
  have "cs_conv s = cid" using s find_settings_Some [of cid uid db s] by (auto simp: setting_pair_def)
  moreover have "convs db1 = convs db" "kept env k n db1" using s kp by (auto intro: kept_next_id)
  ultimately show ?thesis
    using conv by (intro kept_change [OF pub inj] kept_upsert_settings) simp_all
qed

text \<open>What an upsert of a read position does.\<close>

definition read_of :: "string \<Rightarrow> string \<Rightarrow> msg_db \<Rightarrow> int" where
  "read_of cid uid db = (case find_read cid uid db of None \<Rightarrow> 0 | Some r \<Rightarrow> rs_last r)"

lemma find_read_Some: "find_read cid uid db = Some r \<Longrightarrow> r \<in> set (reads db) \<and> read_pair r = (cid, uid)"
  unfolding find_read_def by (auto dest: find_SomeD simp: read_pair_def)

lemma find_read_None: "find_read cid uid db = None \<Longrightarrow> (cid, uid) \<notin> read_pair ` set (reads db)"
  by (auto simp: find_read_def find_None_iff_all read_pair_def)

lemma find_update_where:
  assumes "\<And>x. P x \<Longrightarrow> P (f x)"
  shows "find P (update_where P f xs) = map_option f (find P xs)"
  using assms by (induction xs) auto

lemma upsert_read_seq_Inr:
  assumes run: "upsert_read_seq env cid uid seq rid db = Inr (v, adv, db')"
  shows "\<exists>c rs. convs db cid = Some c \<and> 0 \<le> seq \<and> seq \<le> seq_max \<and>
    (\<exists>m\<in>set (members db). cm_conv m = cid \<and> cm_user m = Some uid) \<and> db' = db\<lparr>reads := rs\<rparr> \<and>
    (let n = min seq (c_max_seq c) in
      (find_read cid uid db = None \<and> v = n \<and> adv = (0 < n) \<and>
         rs = reads db @ [\<lparr>rs_id = rid, rs_conv = cid, rs_user = uid, rs_last = n, rs_at = now env\<rparr>]) \<or>
      (\<exists>r. find_read cid uid db = Some r \<and> rs_last r < n \<and> v = n \<and> adv = (0 < n) \<and>
         rs = update_where (\<lambda>x. rs_conv x = cid \<and> rs_user x = uid) (\<lambda>x. x\<lparr>rs_last := n, rs_at := now env\<rparr>) (reads db)) \<or>
      (\<exists>r. find_read cid uid db = Some r \<and> n \<le> rs_last r \<and> v = rs_last r \<and> \<not> adv \<and> rs = reads db))"
proof -
  from run obtain c where c: "convs db cid = Some c" "0 \<le> seq" "seq \<le> seq_max"
    "\<exists>m\<in>set (members db). cm_conv m = cid \<and> cm_user m = Some uid"
    by (auto simp: upsert_read_seq_def rbind_eq_Inr get_conv_def of_option_eq_Inr seq_validate_Inr split: if_splits)
  then have mx: "max seq 0 = seq" by simp
  have body: "(case find_read cid uid db of
         None \<Rightarrow> Inr (min seq (c_max_seq c), min seq (c_max_seq c) > 0, db\<lparr>reads := reads db @
             [\<lparr>rs_id = rid, rs_conv = cid, rs_user = uid, rs_last = min seq (c_max_seq c), rs_at = now env\<rparr>]\<rparr>)
       | Some r \<Rightarrow>
           if rs_last r < min seq (c_max_seq c)
           then Inr (min seq (c_max_seq c), min seq (c_max_seq c) > 0, db\<lparr>reads := update_where (\<lambda>x. rs_conv x = cid \<and> rs_user x = uid)
                  (\<lambda>x. x\<lparr>rs_last := min seq (c_max_seq c), rs_at := now env\<rparr>) (reads db)\<rparr>)
           else Inr (rs_last r, False, db)) = (Inr (v, adv, db') :: err + _)"
    using run c by (simp add: upsert_read_seq_def rbind_eq_Inr get_conv_def seq_validate_Inr mx Let_def)
  have id: "db = db\<lparr>reads := reads db\<rparr>" by simp
  show ?thesis
  proof (cases "find_read cid uid db")
    case None
    with body c show ?thesis by (auto simp: Let_def)
  next
    case (Some r)
    show ?thesis
    proof (cases "rs_last r < min seq (c_max_seq c)")
      case True
      with body c Some show ?thesis by (auto simp: Let_def simp del: min_less_iff_conj)
    next
      case False
      with body c Some id show ?thesis by (auto simp: Let_def not_less simp del: min_less_iff_conj)
    qed
  qed
qed

end
