(* ===== verification/Conversation_Life.thy ===== *)
theory Conversation_Life
  imports Conversation_Inv
begin

text \<open>
  Read positions, deletion and creation keep the store, and so does every conversation request:
  \<open>conv_op\<close> lists the requests and \<open>conv_req\<close> is their interpretation as a system of operations.
\<close>

section \<open>Read positions\<close>

lemma upsert_read_rows:
  assumes ok: "distinct (map read_pair (reads db))"
      "\<forall>r\<in>set (reads db). \<exists>c. convs db (rs_conv r) = Some c \<and> 0 \<le> rs_last r \<and> rs_last r \<le> c_max_seq c"
    and run: "upsert_read_seq env cid uid seq rid db = Inr (v, adv, db')"
    and pos: "\<forall>c. convs db cid = Some c \<longrightarrow> 0 \<le> c_max_seq c"
  shows "\<exists>rs. db' = db\<lparr>reads := rs\<rparr> \<and> distinct (map read_pair rs) \<and>
    (\<forall>r\<in>set rs. \<exists>c. convs db (rs_conv r) = Some c \<and> 0 \<le> rs_last r \<and> rs_last r \<le> c_max_seq c)"
proof -
  from upsert_read_seq_Inr [OF run] obtain c rs where c: "convs db cid = Some c" "0 \<le> seq" "db' = db\<lparr>reads := rs\<rparr>"
    and rs: "(find_read cid uid db = None \<and>
         rs = reads db @ [\<lparr>rs_id = rid, rs_conv = cid, rs_user = uid, rs_last = min seq (c_max_seq c), rs_at = now env\<rparr>]) \<or>
       rs = update_where (\<lambda>x. rs_conv x = cid \<and> rs_user x = uid) (\<lambda>x. x\<lparr>rs_last := min seq (c_max_seq c), rs_at := now env\<rparr>) (reads db) \<or>
       rs = reads db"
    by (auto simp: Let_def)
  have n: "0 \<le> min seq (c_max_seq c)" "min seq (c_max_seq c) \<le> c_max_seq c" using c pos by simp_all
  have "distinct (map read_pair rs) \<and>
    (\<forall>r\<in>set rs. \<exists>c. convs db (rs_conv r) = Some c \<and> 0 \<le> rs_last r \<and> rs_last r \<le> c_max_seq c)"
    using rs
  proof (elim disjE conjE)
    assume a: "find_read cid uid db = None" "rs = reads db @
      [\<lparr>rs_id = rid, rs_conv = cid, rs_user = uid, rs_last = min seq (c_max_seq c), rs_at = now env\<rparr>]"
    show ?thesis using ok n c(1) find_read_None [OF a(1)] unfolding a(2) by (auto simp: read_pair_def)
  next
    assume a: "rs = update_where (\<lambda>x. rs_conv x = cid \<and> rs_user x = uid)
      (\<lambda>x. x\<lparr>rs_last := min seq (c_max_seq c), rs_at := now env\<rparr>) (reads db)"
    have "map read_pair rs = map read_pair (reads db)" unfolding a by (rule map_update_where) (simp add: read_pair_def)
    moreover have "\<exists>c. convs db (rs_conv r) = Some c \<and> 0 \<le> rs_last r \<and> rs_last r \<le> c_max_seq c" if "r \<in> set rs" for r
      using that ok(2) n c(1) unfolding a set_update_where by auto
    ultimately show ?thesis using ok(1) by simp
  next
    assume "rs = reads db"
    with ok show ?thesis by simp
  qed
  with c(3) show ?thesis by blast
qed

lemma mark_as_read_Inr:
  assumes run: "mark_as_read env c uid cid seq db = Inr (sys, db')"
  obtains v adv db2 where "valid_id env uid" "valid_id env cid" "current_user env c = Inr uid" "sys = []"
    "upsert_read_seq env cid uid seq (fresh env (next_id db)) (db\<lparr>next_id := Suc (next_id db)\<rparr>) = Inr (v, adv, db2)"
    "if adv then publish_inbox_change env (no_change\<lparr>ch_kind := kind_read, ch_conv := cid,
                  ch_user := Some uid, ch_last_read := v\<rparr>) db2 = Inr db' else db' = db2"
proof -
  from run obtain v adv db2 where "validate_request env c uid [cid] = Inr ()" "current_user env c = Inr uid" "sys = []"
    "upsert_read_seq env cid uid seq (fresh env (next_id db)) (db\<lparr>next_id := Suc (next_id db)\<rparr>) = Inr (v, adv, db2)"
    "if adv then publish_inbox_change env (no_change\<lparr>ch_kind := kind_read, ch_conv := cid,
                  ch_user := Some uid, ch_last_read := v\<rparr>) db2 = Inr db' else db' = db2"
    unfolding mark_as_read_def
    by (fastforce simp: rbind_eq_Inr map_err_eq_Inr validate_request_Inr new_id_def split: if_splits)
  then show thesis by (intro that) (auto simp: validate_request_Inr)
qed

lemma mark_as_read_keeps:
  assumes run: "mark_as_read env c uid cid seq db = Inr (sys, db')" and kp: "kept env k n db" and inj: "inj (fresh env)"
  shows "kept env k n db'"
  using run
proof (rule mark_as_read_Inr)
  fix v adv db2
  let ?db1 = "db\<lparr>next_id := Suc (next_id db)\<rparr>"
  assume up: "upsert_read_seq env cid uid seq (fresh env (next_id db)) ?db1 = Inr (v, adv, db2)"
    and pub: "if adv then publish_inbox_change env (no_change\<lparr>ch_kind := kind_read, ch_conv := cid,
                  ch_user := Some uid, ch_last_read := v\<rparr>) db2 = Inr db' else db' = db2"
  have kp1: "kept env k n ?db1" by (rule kept_next_id [OF kp]) simp
  have "reads_ok ?db1" "db_inv env ?db1" using kp1 by (simp_all add: kept_def store_def conv_core_def)
  then obtain rs where "db2 = ?db1\<lparr>reads := rs\<rparr>" "distinct (map read_pair rs)"
    "\<forall>r\<in>set rs. \<exists>c. convs ?db1 (rs_conv r) = Some c \<and> 0 \<le> rs_last r \<and> rs_last r \<le> c_max_seq c"
    using upsert_read_rows [OF _ _ up] unfolding reads_ok_def db_inv_def conv_wf_def by blast
  then have kp2: "kept env k n db2" using kept_reads [OF kp1] by simp
  show ?thesis
  proof (cases adv)
    case True
    with pub have "publish_inbox_change env (no_change\<lparr>ch_kind := kind_read, ch_conv := cid,
                  ch_user := Some uid, ch_last_read := v\<rparr>) db2 = Inr db'" by simp
    then show ?thesis using inj kp2 by (rule kept_publish)
  next
    case False
    with pub kp2 show ?thesis by simp
  qed
qed

section \<open>Deletion\<close>

lemma kept_bindings: "kept env k n db \<Longrightarrow> kept env k n (db\<lparr>bindings := bs\<rparr>)"
proof -
  assume kp: "kept env k n db"
  have fr: "conv_core env (db\<lparr>bindings := bs\<rparr>) \<longleftrightarrow> conv_core env db"
    by (simp add: conv_core_def members_ok_def member_ok_def used_id_def reads_ok_def settings_ok_def ids_ok_def)
  have "db_inv env (db\<lparr>bindings := bs\<rparr>) \<and> tail_inv (db\<lparr>bindings := bs\<rparr>) \<and> ids_ok env (db\<lparr>bindings := bs\<rparr>)"
    by (rule rows_only [of env db]) (use kp in \<open>simp_all add: kept_def store_def conv_core_def\<close>)
  with kp fr show ?thesis by (simp add: kept_def store_def counts_off_def human_count_def)
qed

lemma kept_delete_children:
  assumes kp: "kept env k 0 db" and conv: "convs db cid = Some conv"
  shows "kept env cid (c_member_count conv) (delete_children env cid db)"
proof -
  let ?ms = "filter (\<lambda>m. cm_conv m \<noteq> cid) (members db)"
  let ?db1 = "db\<lparr>members := ?ms\<rparr>"
  have st: "store env db" using kp by (simp add: kept_def)
  have hc: "human_count j ?db1 = (if j = cid then 0 else human_count j db)" for j
  proof (cases "j = cid")
    case True
    then have "filter (is_human_member j) ?ms = []" by (auto simp: is_human_member_def filter_empty_conv)
    then show ?thesis using True by (simp add: human_count_def)
  next
    case False
    then have "filter (is_human_member j) ?ms = filter (is_human_member j) (members db)"
      unfolding filter_filter by (intro filter_cong) (auto simp: is_human_member_def)
    then show ?thesis using False by (simp add: human_count_def)
  qed
  have k1: "kept env cid (c_member_count conv) ?db1"
    using filter_members_keeps [OF st] kp conv by (auto simp: kept_def counts_off_def hc)
  have sd: "distinct (map setting_pair (settings db))" "\<forall>s\<in>set (settings db). convs db (cs_conv s) \<noteq> None"
    using st by (simp_all add: store_def conv_core_def settings_ok_def)
  have k2: "kept env cid (c_member_count conv) (?db1\<lparr>settings := filter (\<lambda>s. cs_conv s \<noteq> cid) (settings db)\<rparr>)"
    using kept_settings [OF k1, where ss = "filter (\<lambda>s. cs_conv s \<noteq> cid) (settings db)"] sd
    by (simp add: distinct_map_filter)
  have rd: "distinct (map read_pair (reads db))"
    "\<forall>r\<in>set (reads db). \<exists>c. convs db (rs_conv r) = Some c \<and> 0 \<le> rs_last r \<and> rs_last r \<le> c_max_seq c"
    using st by (simp_all add: store_def conv_core_def reads_ok_def)
  have k3: "kept env cid (c_member_count conv)
      (?db1\<lparr>settings := filter (\<lambda>s. cs_conv s \<noteq> cid) (settings db), reads := filter (\<lambda>r. rs_conv r \<noteq> cid) (reads db)\<rparr>)"
    using kept_reads [OF k2, where rs = "filter (\<lambda>r. rs_conv r \<noteq> cid) (reads db)"] rd
    by (simp add: distinct_map_filter)
  have eq: "delete_children env cid db =
      (?db1\<lparr>settings := filter (\<lambda>s. cs_conv s \<noteq> cid) (settings db), reads := filter (\<lambda>r. rs_conv r \<noteq> cid) (reads db)\<rparr>)
        \<lparr>bindings := bindings (delete_children env cid db)\<rparr>"
    by (simp add: delete_children_def)
  show ?thesis by (subst eq) (rule kept_bindings [OF k3])
qed

lemma delete_children_gone:
  "m \<in> set (members (delete_children env cid db)) \<Longrightarrow> cm_conv m \<noteq> cid"
  "s \<in> set (settings (delete_children env cid db)) \<Longrightarrow> cs_conv s \<noteq> cid"
  "r \<in> set (reads (delete_children env cid db)) \<Longrightarrow> rs_conv r \<noteq> cid"
  by (auto simp: delete_children_def)

lemma kept_delete_row:
  assumes kp: "kept env cid n db"
    and gone: "\<forall>m\<in>set (members db). cm_conv m \<noteq> cid" "\<forall>s\<in>set (settings db). cs_conv s \<noteq> cid"
      "\<forall>r\<in>set (reads db). rs_conv r \<noteq> cid"
  shows "kept env k 0 (delete_conversation_row cid db)"
proof -
  let ?d = "delete_conversation_row cid db"
  have rows: "members ?d = members db" "settings ?d = settings db" "reads ?d = reads db" "msgs ?d = msgs db"
    "outbox ?d = outbox db" "seqs ?d = seqs db" "next_id ?d = next_id db"
    "\<And>j. convs ?d j = (if j = cid then None else convs db j)"
    by (simp_all add: delete_conversation_row_def)
  have u: "used_id env ?d = used_id env db" by (simp add: used_id_def fun_eq_iff rows)
  have cs: "cur_seq ?d = cur_seq db" by (simp add: cur_seq_def fun_eq_iff rows)
  have st: "store env db" using kp by (simp add: kept_def)
  then have inv: "conv_wf db" "seq_wf db" "msgs_wf env db" "outbox_wf env db" by (simp_all add: store_def db_inv_def)
  have "conv_wf ?d" using inv(1) by (simp add: conv_wf_def rows cs)
  moreover have "seq_wf ?d" using inv(2) by (simp add: seq_wf_def rows)
  moreover have "msgs_wf env ?d" using inv(3) by (simp add: msgs_wf_def rows u cs)
  moreover have "outbox_wf env ?d" using inv(4) by (simp add: outbox_wf_def rows u)
  ultimately have 1: "db_inv env ?d" by (simp add: db_inv_def)
  have "convs ?d j = Some c \<Longrightarrow> convs db j = Some c" for j c by (simp add: rows split: if_splits)
  then have 2: "tail_inv ?d" using tail_inv_frame [of db ?d] st rows(4) by (auto simp: store_def)
  have core: "members_ok env db" "reads_ok db" "settings_ok db" "ids_ok env db"
    using st by (simp_all add: store_def conv_core_def)
  have "members_ok env ?d" using core(1) gone(1) by (simp add: members_ok_def member_ok_def rows u)
  moreover have "reads_ok ?d" using core(2) gone(3) by (simp add: reads_ok_def rows)
  moreover have "settings_ok ?d" using core(3) gone(2) by (simp add: settings_ok_def rows)
  moreover have "ids_ok env ?d" using core(4) by (simp add: ids_ok_def rows u)
  moreover have "counts_off k 0 ?d"
    using kp by (simp add: kept_def counts_off_def human_count_def rows)
  ultimately show ?thesis using 1 2 by (simp add: kept_def store_def conv_core_def)
qed

lemma delete_conversation_Inr:
  assumes run: "delete_conversation env c uid cid db = Inr (sys, db')"
  obtains conv d where "valid_id env uid" "current_user env c = Inr uid" "convs db cid = Some conv"
    "require_role cid uid owner_role db = Inr ()"
    "publish_conversation_change env cid (Some []) (member_ids cid db) (delete_children env cid db) = Inr d"
    "db' = delete_conversation_row cid d" "sys = []"
  using run that unfolding delete_conversation_def
  by (fastforce simp: rbind_eq_Inr with_locked_Inr validate_request_Inr)

lemma delete_conversation_keeps:
  assumes run: "delete_conversation env c uid cid db = Inr (sys, db')" and kp: "kept env k 0 db" and inj: "inj (fresh env)"
  shows "kept env k 0 db'"
  using run
proof (rule delete_conversation_Inr)
  fix conv d
  assume conv: "convs db cid = Some conv" and db': "db' = delete_conversation_row cid d"
    and pub: "publish_conversation_change env cid (Some []) (member_ids cid db) (delete_children env cid db) = Inr d"
  have k1: "kept env cid (c_member_count conv) (delete_children env cid db)" using kp conv by (rule kept_delete_children)
  have "kept env cid (c_member_count conv) d" using pub inj k1 by (rule kept_change)
  moreover have "conv_frame (delete_children env cid db) d"
    using conversation_change_keeps [OF _ inj pub] k1 by (simp add: kept_def)
  then have "members d = members (delete_children env cid db)" "settings d = settings (delete_children env cid db)"
    "reads d = reads (delete_children env cid db)"
    by (simp_all add: conv_frame_def)
  ultimately show ?thesis
    unfolding db' using delete_children_gone by (intro kept_delete_row) auto
qed

end
