(* ===== verification/Conversation_Create.thy ===== *)
theory Conversation_Create
  imports Conversation_Life
begin

text \<open>
  Creation: a new conversation is inserted with its first members, or the private conversation that
  already exists is returned and nothing changes.
\<close>

section \<open>A new conversation row\<close>

lemma kept_insert_conversation:
  assumes kp: "kept env k 0 db" and run: "insert_conversation c db = Inr db'"
    and used: "used_id env db (c_id c)"
    and unnamed: "\<forall>e\<in>set (outbox db). o_conv e \<noteq> c_id c" "\<forall>m\<in>set (msgs db). m_conv m \<noteq> c_id c"
    and row: "c_pub_seq c = 0" "c_max_seq c = 0" "c_last_msg c = None" "c_last_preview c = []"
  shows "kept env (c_id c) (c_member_count c) db' \<and> convs db' (c_id c) = Some c \<and> convs db (c_id c) = None \<and>
    db' = db\<lparr>convs := (convs db)(c_id c \<mapsto> c)\<rparr>"
proof -
  from run have none: "convs db (c_id c) = None" and db': "db' = db\<lparr>convs := (convs db)(c_id c \<mapsto> c)\<rparr>"
    by (auto simp: insert_conversation_def split: if_splits)
  have rows: "members db' = members db" "settings db' = settings db" "reads db' = reads db" "msgs db' = msgs db"
    "outbox db' = outbox db" "seqs db' = seqs db" "next_id db' = next_id db"
    "\<And>j. convs db' j = (if j = c_id c then Some c else convs db j)"
    by (simp_all add: db')
  have u: "used_id env db' = used_id env db" by (simp add: used_id_def fun_eq_iff rows)
  have cs: "cur_seq db' = cur_seq db" by (simp add: cur_seq_def fun_eq_iff rows)
  have st: "store env db" using kp by (simp add: kept_def)
  then have inv: "conv_wf db" "seq_wf db" "msgs_wf env db" "outbox_wf env db" and inv': "db_inv env db"
    by (simp_all add: store_def db_inv_def)
  have "conv_wf db'" using inv(1) row cur_seq_nonneg [OF inv', of "c_id c"] by (simp add: conv_wf_def rows cs seq_max_def)
  moreover have "seq_wf db'" using inv(2) by (simp add: seq_wf_def rows)
  moreover have "msgs_wf env db'" using inv(3) by (simp add: msgs_wf_def rows u cs)
  moreover have "outbox_wf env db'" using inv(4) unnamed(1) by (simp add: outbox_wf_def rows u)
  ultimately have 1: "db_inv env db'" by (simp add: db_inv_def)
  have 2: "tail_inv db'"
    unfolding tail_inv_def
  proof (intro allI impI)
    fix j x assume x: "convs db' j = Some x"
    show "(c_last_msg x, c_last_preview x) = tail_of (latest_message j db')"
    proof (cases "j = c_id c")
      case True
      have "filter (\<lambda>m. m_conv m = j) (msgs db') = []" using unnamed(2) True by (simp add: rows filter_empty_conv)
      with x True row show ?thesis by (simp add: latest_message_def tail_of_def rows)
    next
      case False
      with x have "convs db j = Some x" by (simp add: rows)
      with st tail_invD [of db] show ?thesis by (simp add: store_def latest_message_cong [OF rows(4)])
    qed
  qed
  have core: "members_ok env db" "reads_ok db" "settings_ok db" "ids_ok env db"
    using st by (simp_all add: store_def conv_core_def)
  have other: "cm_conv m \<noteq> c_id c" if "m \<in> set (members db)" for m
    using store_membersD(3) [OF st that] none by (auto simp: member_ok_def)
  have "members_ok env db'" using core(1) other by (simp add: members_ok_def member_ok_def rows u)
  moreover have "reads_ok db'"
    unfolding reads_ok_def rows
  proof (intro conjI ballI)
    show "distinct (map read_pair (reads db))" using core(2) by (simp add: reads_ok_def)
    fix r assume "r \<in> set (reads db)"
    with core(2) obtain x where "convs db (rs_conv r) = Some x" "0 \<le> rs_last r" "rs_last r \<le> c_max_seq x"
      by (auto simp: reads_ok_def)
    with none show "\<exists>x. (if rs_conv r = c_id c then Some c else convs db (rs_conv r)) = Some x \<and> 0 \<le> rs_last r \<and> rs_last r \<le> c_max_seq x"
      by (intro exI [of _ x]) auto
  qed
  moreover have "settings_ok db'" using core(3) by (simp add: settings_ok_def rows)
  moreover have "ids_ok env db'" using core(4) used by (simp add: ids_ok_def rows u)
  moreover have "counts_off (c_id c) (c_member_count c) db'"
  proof -
    have "human_count (c_id c) db = 0" using other by (auto simp: human_count_def is_human_member_def filter_empty_conv)
    then show ?thesis using kp by (simp add: kept_def counts_off_def human_count_def rows)
  qed
  ultimately show ?thesis using 1 2 none db' by (simp add: kept_def store_def conv_core_def)
qed

lemma kept_insert_members:
  assumes kp: "kept env cid n db" and run: "insert_members ms db = Inr db'"
    and ok: "\<And>m. m \<in> set ms \<Longrightarrow> member_ok env db m \<and> cm_conv m = cid"
  shows "kept env cid (n - int (length ms)) db' \<and> members db' = members db @ ms"
proof -
  have db': "db' = db\<lparr>members := members db @ ms\<rparr>" using run by (simp add: insert_members_Inr)
  have st: "store env db" using kp by (simp add: kept_def)
  have "store env db'" by (rule insert_members_keeps [OF st run]) (use ok in blast)
  moreover have "\<forall>m\<in>set ms. cm_conv m = cid \<and> cm_type m = ''user''" using ok by (simp add: member_ok_def)
  from human_count_append [OF this, of _ db] have "counts_off cid (n - int (length ms)) db'"
    using kp by (simp add: kept_def counts_off_def db')
  ultimately show ?thesis by (simp add: kept_def db')
qed

section \<open>The request\<close>

definition existing_private :: "create_req \<Rightarrow> msg_db \<Rightarrow> err + string option" where
  "existing_private req db =
     (if cr_type req = conv_private then
        (case find_private req db of Inr i \<Rightarrow> Inr (Some i) | Inl RecordNotFound \<Rightarrow> Inr None | Inl e \<Rightarrow> Inl e)
      else Inr None)"

lemma existing_private_Some:
  "existing_private req db = Inr (Some i) \<Longrightarrow> cr_type req = conv_private \<and> find_private req db = Inr i"
  unfolding existing_private_def
  by (cases "find_private req db"; cases "projl (find_private req db)") (simp_all split: if_splits)

definition insert_created ::
  "env \<Rightarrow> conversation \<Rightarrow> conv_member list \<Rightarrow> conv_bot option \<Rightarrow> msg_db \<Rightarrow> err + (string \<times> msg_db)" where
  "insert_created env conv ms cb db =
     rbind (ensure (\<not> (max_members env > 0 \<and> int (length ms) > max_members env)) err_conv_max_members) (\<lambda>_.
     rbind (insert_conversation conv db) (\<lambda>db1.
     rbind (insert_members ms db1) (\<lambda>db2.
     rbind (case cb of None \<Rightarrow> Inr db2 | Some b \<Rightarrow> insert_binding b db2) (\<lambda>db3.
     rbind (publish_conversation_change env (c_id conv) None [] db3) (\<lambda>db4.
       Inr (c_id conv, db4))))))"

lemma create_tx_split:
  "create_tx env req conv ms cb db =
     rbind (existing_private req db) (\<lambda>x. case x of Some i \<Rightarrow> Inr (i, db) | None \<Rightarrow> insert_created env conv ms cb db)"
  unfolding create_tx_def existing_private_def insert_created_def by (rule refl)

lemma insert_created_Inr:
  "insert_created env conv ms cb db = Inr (i, db') \<longleftrightarrow>
     (\<exists>db1 db2 db3. i = c_id conv \<and> (max_members env > 0 \<longrightarrow> int (length ms) \<le> max_members env) \<and>
        insert_conversation conv db = Inr db1 \<and> insert_members ms db1 = Inr db2 \<and>
        (case cb of None \<Rightarrow> Inr db2 | Some b \<Rightarrow> insert_binding b db2) = Inr db3 \<and>
        publish_conversation_change env (c_id conv) None [] db3 = Inr db')"
  unfolding insert_created_def rbind_eq_Inr ensure_eq_Inr by (auto simp: not_less)

lemma create_tx_Inr:
  assumes "create_tx env req conv ms cb db = Inr (i, db')"
  obtains "cr_type req = conv_private" "find_private req db = Inr i" "db' = db"
  | db1 db2 db3 where "i = c_id conv" "max_members env > 0 \<Longrightarrow> int (length ms) \<le> max_members env"
      "insert_conversation conv db = Inr db1" "insert_members ms db1 = Inr db2"
      "(case cb of None \<Rightarrow> Inr db2 | Some b \<Rightarrow> insert_binding b db2) = Inr db3"
      "publish_conversation_change env (c_id conv) None [] db3 = Inr db'"
proof -
  from assms obtain x where x: "existing_private req db = Inr x"
    and rest: "(case x of Some i \<Rightarrow> Inr (i, db) | None \<Rightarrow> insert_created env conv ms cb db) = Inr (i, db')"
    unfolding create_tx_split by (rule rbindE)
  show thesis
  proof (cases x)
    case (Some j)
    then have "i = j" "db' = db" using rest by simp_all
    moreover note existing_private_Some [OF x [unfolded Some]]
    ultimately show thesis by (intro that(1)) simp_all
  next
    case None
    have "insert_created env conv ms cb db = Inr (i, db')" using rest unfolding None by simp
    then show thesis
      unfolding insert_created_Inr by (elim exE conjE) (rule that(2), assumption, erule mp, assumption+)
  qed
qed

definition create_rows :: "env \<Rightarrow> create_req \<Rightarrow> msg_db \<Rightarrow> conversation \<times> conv_member list \<times> conv_bot option \<times> msg_db" where
  "create_rows env req db =
     (let (cid, db1) = new_id env db;
          (ms, db2) = new_members env cid (create_roles req) db1;
          (cb, db3) = (case cr_bot req of
              None \<Rightarrow> (None, db2)
            | Some b \<Rightarrow> let (bid, db3) = new_id env db2 in
                (Some \<lparr>cb_id = bid, cb_conv = cid, cb_bot = b, cb_added_by = cr_creator req,
                   cb_start_seq = 0, cb_revoked = None, cb_created = now env\<rparr>, db3))
      in (create_row env req cid (int (length ms)), ms, cb, db3))"

definition existing_first :: "create_req \<Rightarrow> msg_db \<Rightarrow> err + string" where
  "existing_first req db = (if cr_type req = conv_private then find_private req db else Inl RecordNotFound)"

lemma create_conversation_split:
  "create_conversation env bot_status c req db =
     rbind (check_create env bot_status c req) (\<lambda>_.
     case existing_first req db of
       Inr i \<Rightarrow> Inr (i, db)
     | Inl e \<Rightarrow> if e \<noteq> RecordNotFound then Inl e
         else (case create_rows env req db of (conv, ms, cb, db0) \<Rightarrow> create_tx env req conv ms cb db0))"
  unfolding create_conversation_def existing_first_def create_rows_def Let_def
  by (simp only: prod.case_distrib prod.case split: prod.splits)

lemma create_conversation_Inr:
  assumes run: "create_conversation env bot_status c req db = Inr (i, db')"
  obtains "cr_type req = conv_private" "find_private req db = Inr i" "db' = db" "check_create env bot_status c req = Inr ()"
  | conv ms cb db0 where "check_create env bot_status c req = Inr ()"
      "cr_type req = conv_private \<Longrightarrow> find_private req db = Inl RecordNotFound"
      "create_rows env req db = (conv, ms, cb, db0)" "create_tx env req conv ms cb db0 = Inr (i, db')"
proof -
  have chk: "check_create env bot_status c req = Inr ()"
    using run unfolding create_conversation_split rbind_eq_Inr by auto
  have rest: "(case existing_first req db of
       Inr i \<Rightarrow> Inr (i, db)
     | Inl e \<Rightarrow> if e \<noteq> RecordNotFound then Inl e
         else (case create_rows env req db of (conv, ms, cb, db0) \<Rightarrow> create_tx env req conv ms cb db0)) = Inr (i, db')"
    using run unfolding create_conversation_split chk by simp
  show thesis
  proof (cases "existing_first req db")
    case (Inr j)
    then have "i = j" "db' = db" using rest by simp_all
    moreover have "cr_type req = conv_private" "find_private req db = Inr j"
      using Inr unfolding existing_first_def by (simp_all split: if_splits)
    ultimately show thesis using that(1) chk by simp
  next
    case (Inl e)
    obtain conv ms cb db0 where rows: "create_rows env req db = (conv, ms, cb, db0)"
      by (cases "create_rows env req db" rule: prod_cases4)
    have e: "e = RecordNotFound" using rest unfolding Inl by (simp split: if_splits)
    have "create_tx env req conv ms cb db0 = Inr (i, db')" using rest unfolding Inl e rows by simp
    moreover have "find_private req db = Inl RecordNotFound" if "cr_type req = conv_private"
      using Inl that unfolding existing_first_def e by simp
    ultimately show thesis using that(2) [OF chk _ rows] by blast
  qed
qed

lemma create_roles_set:
  "(u, r) \<in> set (create_roles req) \<Longrightarrow> (u = cr_creator req \<and> r = owner_role) \<or> (u \<noteq> cr_creator req \<and> r = member_role)"
  by (auto simp: create_roles_def)

lemma create_rows_frame:
  assumes "create_rows env req db = (conv, ms, cb, db0)"
  shows "\<exists>n. db0 = db\<lparr>next_id := n\<rparr> \<and> next_id db < n \<and>
    ms = fst (new_members env (fresh env (next_id db)) (create_roles req) (db\<lparr>next_id := Suc (next_id db)\<rparr>)) \<and>
    next_id (snd (new_members env (fresh env (next_id db)) (create_roles req) (db\<lparr>next_id := Suc (next_id db)\<rparr>))) \<le> n \<and>
    conv = create_row env req (fresh env (next_id db)) (int (length ms))"
  using assms
  by (cases "cr_bot req") (auto simp: create_rows_def new_id_def Let_def new_members_eq)

lemma create_conversation_keeps:
  assumes run: "create_conversation env bot_status c req db = Inr (i, db')" and kp: "kept env k 0 db" and inj: "inj (fresh env)"
  shows "kept env k 0 db'"
  using run
proof (rule create_conversation_Inr)
  assume "db' = db"
  with kp show ?thesis by simp
next
  fix conv ms cb db0
  assume rows: "create_rows env req db = (conv, ms, cb, db0)" and tx: "create_tx env req conv ms cb db0 = Inr (i, db')"
  let ?cid = "fresh env (next_id db)" and ?db1 = "db\<lparr>next_id := Suc (next_id db)\<rparr>"
  from create_rows_frame [OF rows] obtain n where n: "db0 = db\<lparr>next_id := n\<rparr>" "next_id db < n"
    "ms = fst (new_members env ?cid (create_roles req) ?db1)"
    "next_id (snd (new_members env ?cid (create_roles req) ?db1)) \<le> n"
    "conv = create_row env req ?cid (int (length ms))" by blast
  have kp0: "kept env k 0 db0" unfolding n(1) using kp n(2) by (intro kept_next_id) simp_all
  have cid: "c_id conv = ?cid" by (simp add: n(5) create_row_def)
  have used: "used_id env db0 ?cid" using fresh_used [OF inj] n(1,2) by simp
  have un: "\<not> used_id env db ?cid" by (auto simp: used_id_def)
  have ids: "ids_ok env db" using kp by (simp add: kept_def store_def conv_core_def)
  have unnamed: "\<forall>e\<in>set (outbox db0). o_conv e \<noteq> c_id conv" "\<forall>m\<in>set (msgs db0). m_conv m \<noteq> c_id conv"
    using ids un by (auto simp: ids_ok_def n(1) cid)
  show ?thesis
    using tx
  proof (cases rule: create_tx_Inr)
    case 1
    with kp0 show ?thesis by simp
  next
    case (2 dba dbb dbc)
    have ins: "kept env (c_id conv) (c_member_count conv) dba" "convs dba (c_id conv) = Some conv"
      "dba = db0\<lparr>convs := (convs db0)(c_id conv \<mapsto> conv)\<rparr>"
      using kept_insert_conversation [OF kp0 2(3) _ unnamed] used
      by (simp_all add: cid, simp_all add: n(5) create_row_def)
    have mem: "member_ok env dba m \<and> cm_conv m = c_id conv" if m: "m \<in> set ms" for m
    proof -
      obtain u r j where u: "(u, r) \<in> set (create_roles req)" "m = new_member env ?cid u r j"
        "used_id env (snd (new_members env ?cid (create_roles req) ?db1)) j"
        using new_members_used [OF m [unfolded n(3)] inj] by blast
      have "used_id env dba j" using used_id_mono [OF u(3)] n(4) by (simp add: ins(3) n(1))
      moreover have "convs dba ?cid = Some conv" "c_owner conv = Some (cr_creator req)"
        using ins(2) cid by (simp_all add: n(5) create_row_def)
      ultimately show ?thesis
        using create_roles_set [OF u(1)] cid by (auto simp: member_ok_def u(2) new_member_def role_defs)
    qed
    have "kept env (c_id conv) (c_member_count conv - int (length ms)) dbb"
      using kept_insert_members [OF ins(1) 2(4) mem] by blast
    moreover have "c_member_count conv = int (length ms)" by (simp add: n(5) create_row_def)
    ultimately have kb: "kept env (c_id conv) 0 dbb" by simp
    have "kept env (c_id conv) 0 dbc"
      using 2(5) kb kept_bindings by (auto simp: insert_binding_def split: option.splits if_splits)
    with 2(6) inj have "kept env (c_id conv) 0 db'" by (rule kept_change)
    then show ?thesis by (simp add: kept_zero)
  qed
qed

end
