(* ===== verification/Conversation_Service.thy ===== *)
theory Conversation_Service
  imports Conversation_Create
begin

text \<open>
  The conversation service as a system of operations, and the message and conversation services
  together over one store: \<open>chat_op\<close> is a request to either, and every request keeps the invariants
  of both. The result of a conversation request is its new store; the system messages it emits are
  requests of their own.
\<close>

section \<open>The requests\<close>

datatype conv_op =
  Op_Create create_req
| Op_Add_Members string string "string list"
| Op_Remove_Members string string "string list"
| Op_Transfer_Owner string string string
| Op_Update_Member string string string "int option" "string option"
| Op_Mute_Member string string string int
| Op_Unmute_Member string string string
| Op_Mute_All string string
| Op_Unmute_All string string
| Op_Update_Conversation string string "string option" "string option" "string option"
| Op_Set_Announcement string string string
| Op_Delete_Announcement string string
| Op_Update_Settings string string "bool option" "bool option"
| Op_Mark_As_Read string string int
| Op_Delete_Conversation string string

definition new_store :: "conv_result \<Rightarrow> err + msg_db" where
  "new_store r = rbind r (\<lambda>(_, db). Inr db)"


fun run_conv_op :: "env \<Rightarrow> (string \<Rightarrow> string option) \<Rightarrow> caller \<Rightarrow> conv_op \<Rightarrow> msg_db \<Rightarrow> err + msg_db" where
  "run_conv_op env bots c (Op_Create req) db = rbind (create_conversation env bots c req db) (\<lambda>(_, db'). Inr db')"
| "run_conv_op env bots c (Op_Add_Members u cid us) db =
     rbind (add_members env c u cid us db) (\<lambda>(_, _, db'). Inr db')"
| "run_conv_op env bots c (Op_Remove_Members u cid us) db = new_store (remove_members env c u cid us db)"
| "run_conv_op env bots c (Op_Transfer_Owner u cid v) db = new_store (transfer_owner env c u cid v db)"
| "run_conv_op env bots c (Op_Update_Member u cid v r a) db = new_store (update_member env c u cid v r a db)"
| "run_conv_op env bots c (Op_Mute_Member u cid v d) db = new_store (mute_member env c u cid v d db)"
| "run_conv_op env bots c (Op_Unmute_Member u cid v) db = new_store (unmute_member env c u cid v db)"
| "run_conv_op env bots c (Op_Mute_All u cid) db = new_store (mute_all env c u cid db)"
| "run_conv_op env bots c (Op_Unmute_All u cid) db = new_store (unmute_all env c u cid db)"
| "run_conv_op env bots c (Op_Update_Conversation u cid n a b) db = new_store (update_conversation env c u cid n a b db)"
| "run_conv_op env bots c (Op_Set_Announcement u cid t) db = new_store (set_announcement env c u cid t db)"
| "run_conv_op env bots c (Op_Delete_Announcement u cid) db = new_store (delete_announcement env c u cid db)"
| "run_conv_op env bots c (Op_Update_Settings u cid m p) db = new_store (update_settings env c u cid m p db)"
| "run_conv_op env bots c (Op_Mark_As_Read u cid n) db = new_store (mark_as_read env c u cid n db)"
| "run_conv_op env bots c (Op_Delete_Conversation u cid) db = new_store (delete_conversation env c u cid db)"

lemma new_store_Inr: "new_store r = Inr db \<longleftrightarrow> (\<exists>sys. r = Inr (sys, db))"
  by (auto simp: new_store_def rbind_eq_Inr)

lemma kept_zero_iff: "kept env [] 0 db \<longleftrightarrow> db_inv env db \<and> tail_inv db \<and> conv_inv env db"
  by (auto simp: kept_zero store_def conv_inv_def)

lemma kept_any: "kept env k 0 db \<longleftrightarrow> kept env [] 0 db"
  by (simp add: kept_zero)

lemma run_conv_op_keeps:
  assumes run: "run_conv_op env bots c op db = Inr db'" and kp: "kept env [] 0 db" and inj: "inj (fresh env)"
  shows "kept env [] 0 db'"
proof (cases op)
  case (Op_Create req)
  with run kp inj show ?thesis by (auto simp: rbind_eq_Inr intro: create_conversation_keeps)
next
  case (Op_Add_Members u cid us)
  with run obtain r sys where "add_members env c u cid us db = Inr (r, sys, db')" by (auto simp: rbind_eq_Inr)
  from add_members_keeps [OF this _ inj] kp show ?thesis by (simp add: kept_any [of _ cid])
next
  case (Op_Remove_Members u cid us)
  with run obtain sys where "remove_members env c u cid us db = Inr (sys, db')" by (auto simp: new_store_Inr)
  from remove_members_keeps [OF this _ inj] kp show ?thesis by (simp add: kept_any [of _ cid])
next
  case Op_Transfer_Owner
  with run obtain u cid v sys where "transfer_owner env c u cid v db = Inr (sys, db')" by (auto simp: new_store_Inr)
  then show ?thesis using kp inj by (rule transfer_owner_keeps)
next
  case Op_Update_Member
  with run obtain u cid v r a sys where "update_member env c u cid v r a db = Inr (sys, db')" by (auto simp: new_store_Inr)
  then show ?thesis using kp inj by (rule update_member_keeps)
next
  case Op_Mute_Member
  with run obtain u cid v d sys where "mute_member env c u cid v d db = Inr (sys, db')" by (auto simp: new_store_Inr)
  then show ?thesis using kp inj by (rule mute_member_keeps)
next
  case Op_Unmute_Member
  with run obtain u cid v sys where "unmute_member env c u cid v db = Inr (sys, db')" by (auto simp: new_store_Inr)
  then show ?thesis using kp inj by (rule unmute_member_keeps)
next
  case Op_Mute_All
  with run obtain u cid sys where "mute_all env c u cid db = Inr (sys, db')" by (auto simp: new_store_Inr)
  then show ?thesis using kp inj by (rule mute_all_keeps)
next
  case Op_Unmute_All
  with run obtain u cid sys where "unmute_all env c u cid db = Inr (sys, db')" by (auto simp: new_store_Inr)
  then show ?thesis using kp inj by (rule unmute_all_keeps)
next
  case Op_Update_Conversation
  with run obtain u cid n a b sys where "update_conversation env c u cid n a b db = Inr (sys, db')" by (auto simp: new_store_Inr)
  then show ?thesis using kp inj by (rule update_conversation_keeps)
next
  case Op_Set_Announcement
  with run obtain u cid t sys where "set_announcement env c u cid t db = Inr (sys, db')" by (auto simp: new_store_Inr)
  then show ?thesis using kp inj by (rule set_announcement_keeps)
next
  case Op_Delete_Announcement
  with run obtain u cid sys where "delete_announcement env c u cid db = Inr (sys, db')" by (auto simp: new_store_Inr)
  then show ?thesis using kp inj by (rule delete_announcement_keeps)
next
  case Op_Update_Settings
  with run obtain u cid m p sys where "update_settings env c u cid m p db = Inr (sys, db')" by (auto simp: new_store_Inr)
  then show ?thesis using kp inj by (rule update_settings_keeps)
next
  case Op_Mark_As_Read
  with run obtain u cid n sys where "mark_as_read env c u cid n db = Inr (sys, db')" by (auto simp: new_store_Inr)
  then show ?thesis using kp inj by (rule mark_as_read_keeps)
next
  case Op_Delete_Conversation
  with run obtain u cid sys where "delete_conversation env c u cid db = Inr (sys, db')" by (auto simp: new_store_Inr)
  then show ?thesis using kp inj by (rule delete_conversation_keeps)
qed

section \<open>Message requests leave the members alone\<close>

lemma next_id_frame: "conv_frame db (db\<lparr>next_id := Suc (next_id db)\<rparr>)"
  by (rule next_id_conv_frame) simp

lemma persist_new_frame:
  assumes "db_inv env db" "persist_message env m0 nm (db\<lparr>next_id := Suc (next_id db)\<rparr>) = Inr (m, db')"
  shows "conv_frame db db'"
  using next_id_frame persist_conv_frame [OF next_id_step_inv [OF assms(1)] assms(2)] by (rule conv_frame_trans)

lemma send_message_frame:
  assumes inv: "db_inv env db" and run: "send_message env md req db = Inr (r, db')"
  shows "conv_frame db db'"
proof -
  from run obtain m content sub where "send_tx env (sr_from req) req content sub db = Inr (m, db')"
    by (auto simp: send_message_Inr)
  then consider "db' = db"
    | m0 where "persist_message env m0 (user_sender_name env (sr_from req)) (db\<lparr>next_id := Suc (next_id db)\<rparr>) = Inr (m, db')"
    by (auto simp: send_tx_Inr)
  then show ?thesis by cases (auto intro: persist_new_frame [OF inv])
qed

lemma send_system_message_frame:
  "db_inv env db \<Longrightarrow> send_system_message env req db = Inr (r, db') \<Longrightarrow> conv_frame db db'"
  by (auto simp: send_system_message_Inr intro: persist_new_frame)

lemma upd_change_frame:
  "publish_message_change env kind m (upd_msg mid f db) = Inr db' \<Longrightarrow> (\<And>x. m_conv (f x) = m_conv x) \<Longrightarrow> conv_frame db db'"
  using conv_frame_trans [OF upd_msg_conv_frame change_conv_frame] by blast

lemma edit_tx_frame: "edit_tx env m uid content db = Inr db' \<Longrightarrow> conv_frame db db'"
  unfolding edit_tx_Inr update_content_with_tx_def by (auto dest: upd_change_frame)

lemma recall_tx_frame: "recall_tx env m uid db = Inr db' \<Longrightarrow> conv_frame db db'"
  unfolding recall_tx_Inr update_status_with_tx_def by (auto dest: upd_change_frame split: if_splits)

lemma delete_tx_frame:
  assumes run: "delete_tx env m uid for_all db = Inr db'"
  shows "conv_frame db db'"
proof (cases for_all)
  case True
  with run obtain cur where "publish_message_change env kind_deleted cur (delete_with_tx (m_id cur) db) = Inr db'"
    by (auto simp: delete_tx_def rbind_eq_Inr)
  from conv_frame_trans [OF delete_conv_frame change_conv_frame [OF this]] show ?thesis .
next
  case False
  with run obtain cur :: message where c: "(case insert_personal_deletion uid (m_conv cur) (m_id cur) db of
      (inserted, db1) \<Rightarrow> if inserted then publish_inbox_change env
            (no_change\<lparr>ch_kind := kind_deleted, ch_conv := m_conv cur,
               ch_message := Some (m_id cur), ch_user := Some uid,
               ch_recipients := Some [uid]\<rparr>) db1 else Inr db1) = Inr db'"
    unfolding delete_tx_def if_not_P [OF False] by (elim rbindE) (rule that)
  obtain b db1 where ins: "insert_personal_deletion uid (m_conv cur) (m_id cur) db = (b, db1)"
    by (cases "insert_personal_deletion uid (m_conv cur) (m_id cur) db")
  note fr = deletion_conv_frame [OF ins]
  show ?thesis
  proof (cases b)
    case True
    with c ins have "publish_inbox_change env
            (no_change\<lparr>ch_kind := kind_deleted, ch_conv := m_conv cur,
               ch_message := Some (m_id cur), ch_user := Some uid,
               ch_recipients := Some [uid]\<rparr>) db1 = Inr db'" by simp
    from conv_frame_trans [OF fr publish_conv_frame [OF this]] show ?thesis .
  next
    case False
    with c ins fr show ?thesis by simp
  qed
qed

lemma run_msg_op_frame:
  assumes "db_inv env db" "run_msg_op (env, op) db = Inr db'"
  shows "conv_frame db db'"
proof (cases op)
  case Op_Send
  with assms show ?thesis by (auto simp: rbind_eq_Inr intro: send_message_frame)
next
  case Op_System
  with assms show ?thesis by (auto simp: rbind_eq_Inr intro: send_system_message_frame)
next
  case Op_Edit
  with assms show ?thesis by (auto simp: edit_message_Inr intro: edit_tx_frame)
next
  case Op_Recall
  with assms show ?thesis by (auto simp: recall_message_Inr intro: recall_tx_frame)
next
  case Op_Delete
  with assms show ?thesis by (auto simp: delete_message_Inr intro: delete_tx_frame)
qed

section \<open>Both services over one store\<close>

datatype chat_op =
  Msg_Op env msg_op
| Conv_Op env "string \<Rightarrow> string option" caller conv_op

fun run_chat_op :: "chat_op \<Rightarrow> msg_db \<Rightarrow> err + msg_db" where
  "run_chat_op (Msg_Op env op) db = run_msg_op (env, op) db"
| "run_chat_op (Conv_Op env bots c op) db = run_conv_op env bots c op db"

fun op_env :: "chat_op \<Rightarrow> env" where
  "op_env (Msg_Op env op) = env"
| "op_env (Conv_Op env bots c op) = env"

definition chat_supply :: "(nat \<Rightarrow> string) \<Rightarrow> chat_op \<Rightarrow> bool" where
  "chat_supply ids op \<longleftrightarrow> fresh (op_env op) = ids \<and> inj ids"

definition chat_inv :: "env \<Rightarrow> msg_db \<Rightarrow> bool" where
  "chat_inv env db \<longleftrightarrow> db_inv env db \<and> tail_inv db \<and> conv_inv env db"

lemma conv_inv_supply: "fresh env = fresh env' \<Longrightarrow> conv_inv env = conv_inv env'"
  by (simp add: conv_inv_def conv_core_def members_ok_def member_ok_def ids_ok_def used_id_supply [of env env'] fun_eq_iff)

lemma chat_inv_supply: "fresh env = fresh env' \<Longrightarrow> chat_inv env db = chat_inv env' db"
  by (simp add: chat_inv_def conv_inv_supply [of env env'] db_inv_supply [of env env'])

lemma run_chat_op_inv:
  assumes inv: "chat_inv (op_env op) db" and inj: "inj (fresh (op_env op))" and run: "run_chat_op op db = Inr db'"
  shows "chat_inv (op_env op) db'"
proof (cases op)
  case (Msg_Op env m)
  with inv have i: "db_inv env db" "tail_inv db" "conv_inv env db" by (simp_all add: chat_inv_def)
  have r: "run_msg_op (env, m) db = Inr db'" using run Msg_Op by simp
  have "conv_inv env db'" using run_msg_op_frame [OF i(1) r] i(3) by (rule conv_frame_inv)
  with run_msg_op_inv [OF i(1,2) _ r] inj Msg_Op show ?thesis by (simp add: chat_inv_def)
next
  case (Conv_Op env bots c o')
  with inv have "kept env [] 0 db" by (simp add: kept_zero_iff chat_inv_def)
  with run_conv_op_keeps [of env bots c o' db db'] run inj Conv_Op show ?thesis
    by (simp add: kept_zero_iff chat_inv_def)
qed

end
