(* ===== verification/Conversation_Rank.thy ===== *)
theory Conversation_Rank
  imports Conversation_Service
begin

text \<open>
  What a conversation request does to the member rows: who asked, and what happens to the rows of
  the others. \<open>outranks\<close> is the rank order the service enforces; the owner outranks everybody else
  because only the recorded owner has the owner's role.
\<close>

section \<open>Publications leave the member rows alone\<close>

lemma change_members:
  assumes "publish_conversation_change env cid rcp removed db = Inr db'"
  shows "members db' = members db"
proof -
  from assms obtain db1 where "db1 = db \<or> (\<exists>ch. publish_inbox_change env ch db = Inr db1)"
    "db' = db1 \<or> (\<exists>ch. publish_inbox_change env ch db1 = Inr db')"
    by (auto simp: publish_conversation_change_Inr Let_def split: if_splits)
  then show ?thesis by (auto simp: publish_frame(2))
qed

lemma change_msgs:
  assumes "publish_conversation_change env cid rcp removed db = Inr db'"
  shows "msgs db' = msgs db \<and> blocks db' = blocks db \<and> bindings db' = bindings db"
proof -
  from assms obtain db1 where "db1 = db \<or> (\<exists>ch. publish_inbox_change env ch db = Inr db1)"
    "db' = db1 \<or> (\<exists>ch. publish_inbox_change env ch db1 = Inr db')"
    by (auto simp: publish_conversation_change_Inr Let_def split: if_splits)
  then show ?thesis by (auto simp: publish_frame(1,5,8))
qed

lemma joined_members: "rfold (joined_activity env cid operator) us db = Inr db' \<Longrightarrow> members db' = members db"
  by (rule rfold_invariant [where P = "\<lambda>d. members d = members db"])
    (auto simp: joined_activity_def rbind_eq_Inr publish_bot_activity_frame(2))

lemma add_members_rows:
  assumes run: "add_members env c operator cid users db = Inr (r, sys, db')"
  shows "prefix (members db) (members db')"
proof -
  let ?us = "map (\<lambda>u. (u, member_role)) users"
  obtain ms db0 where nm: "new_members env cid ?us db = (ms, db0)" by (cases "new_members env cid ?us db")
  from add_members_Inr [OF run nm] obtain added failed db1
    where lim: "add_members_within_limit env cid ms db0 = Inr (added, failed, db1)"
    and rest: "if added = [] then db' = db1
      else \<exists>db2. rfold (joined_activity env cid operator) added db1 = Inr db2 \<and>
        publish_conversation_change env cid None [] db2 = Inr db'"
    by metis
  have "members db0 = members db" using nm by (auto simp: new_members_eq)
  moreover have "prefix (members db0) (members db1)"
    using add_within_limit_Inr [OF lim] by (auto simp: upd_conv_def)
  moreover have "members db' = members db1"
    using rest joined_members change_members by (auto split: if_splits)
  ultimately show ?thesis by simp
qed

lemma create_rows_db: "create_rows env req db = (conv, ms, cb, db0) \<Longrightarrow> \<exists>n. db0 = db\<lparr>next_id := n\<rparr>"
  using create_rows_frame by blast

lemma insert_binding_frame:
  "(case cb of None \<Rightarrow> Inr db | Some b \<Rightarrow> insert_binding b db) = Inr db' \<Longrightarrow>
     members db' = members db \<and> convs db' = convs db"
  by (auto simp: insert_binding_def split: option.splits if_splits)

lemma create_conversation_rows:
  assumes run: "create_conversation env bots c req db = Inr (i, db')"
  shows "prefix (members db) (members db')"
  using run
proof (cases rule: create_conversation_Inr)
  case (2 conv ms cb db0)
  note d0 = create_rows_db [OF 2(3)]
  from 2(4) show ?thesis
  proof (cases rule: create_tx_Inr)
    case 1
    with d0 show ?thesis by auto
  next
    case (2 db1 db2 db3)
    then have "members db1 = members db0" by (auto simp: insert_conversation_def split: if_splits)
    moreover have "members db2 = members db1 @ ms" using 2(4) by (simp add: insert_members_Inr)
    moreover have "members db3 = members db2" using insert_binding_frame [OF 2(5)] by simp
    ultimately show ?thesis using d0 change_members [OF 2(6)] by auto
  qed
qed simp

section \<open>The rank order\<close>

definition outranks :: "string \<Rightarrow> string \<Rightarrow> conv_member \<Rightarrow> msg_db \<Rightarrow> bool" where
  "outranks cid u m db \<longleftrightarrow>
     (\<exists>p\<in>set (members db). cm_conv p = cid \<and> cm_type p = ''user'' \<and> cm_user p = Some u \<and> cm_role p < cm_role m)"

lemma outranks_find: "find_member cid u db = Inr p \<Longrightarrow> cm_role p < cm_role m \<Longrightarrow> outranks cid u m db"
  unfolding outranks_def using find_member_Inr by blast

lemma verified_outranks:
  assumes st: "store env db" and ok: "verify_target_not_higher cid v u db = Inr ()"
    and m: "m \<in> set (members db)" "cm_conv m = cid" "cm_user m = Some v"
  shows "outranks cid u m db"
proof -
  from ok obtain t p where t: "find_member cid v db = Inr t" "find_member cid u db = Inr p" "cm_role p < cm_role t"
    by (auto simp: verify_target_Inr)
  have "t = m" using member_row_unique [OF st _ m(1), of t] find_member_Inr [OF t(1)] m by simp
  with t outranks_find show ?thesis by blast
qed

lemma owner_outranks:
  assumes st: "store env db" and own: "require_role cid u owner_role db = Inr ()"
    and m: "m \<in> set (members db)" "cm_conv m = cid" "cm_user m \<noteq> Some u"
  shows "outranks cid u m db"
proof -
  from own obtain p conv where p: "find_member cid u db = Inr p" "cm_role p \<le> owner_role" "convs db cid = Some conv"
    by (auto simp: require_role_Inr role_defs)
  note p' = find_member_Inr [OF p(1)]
  have "member_ok env db p" "member_ok env db m" using store_membersD(3) [OF st] p' m(1) by blast+
  moreover have "cm_role p = owner_role" using role_one [OF \<open>member_ok env db p\<close>] p(2) by simp
  then have "c_owner conv = Some u" using only_owner [OF st _ _ _ p(3), of p] p' by simp
  then have "cm_role m \<noteq> owner_role" using only_owner [OF st m(1,2) _ p(3)] m(3) by auto
  ultimately have "cm_role p < cm_role m" using \<open>cm_role p = owner_role\<close> by (auto simp: member_ok_def role_defs)
  with p(1) show ?thesis by (rule outranks_find)
qed

lemma changed_row:
  assumes "m \<in> set (members db)" "m \<notin> set (members (upd_members cid v f db))"
  shows "cm_conv m = cid \<and> cm_user m = Some v"
proof (rule ccontr)
  assume "\<not> ?thesis"
  with assms show False by (auto simp: upd_members_def set_update_where)
qed

lemma removal_outranks:
  assumes "removal_targets cid u seen us db = Inr ms" "m \<in> set ms" "cm_user m \<noteq> Some u"
  shows "outranks cid u m db"
  using assms
proof (induction us arbitrary: seen ms)
  case (Cons v us)
  show ?case
  proof (cases "v \<in> set seen")
    case True
    with Cons show ?thesis by auto
  next
    case False
    with Cons.prems(1) obtain x ms' where x: "find_member cid v db = Inr x" "ms = x # ms'"
        "removal_targets cid u (v # seen) us db = Inr ms'"
        "v \<noteq> u \<Longrightarrow> verify_target_not_higher cid v u db = Inr ()"
      by (auto simp: rbind_eq_Inr split: if_splits)
    show ?thesis
    proof (cases "m = x")
      case True
      with find_member_Inr [OF x(1)] Cons.prems(3) have "v \<noteq> u" by auto
      from x(4) [OF this] x(1) True show ?thesis by (auto simp: verify_target_Inr intro: outranks_find)
    next
      case False
      with Cons.prems(2) x(2) have "m \<in> set ms'" by simp
      from Cons.IH [OF x(3) this Cons.prems(3)] show ?thesis .
    qed
  qed
qed simp

section \<open>Which rows a request may touch\<close>

definition protected :: "string \<Rightarrow> string \<Rightarrow> msg_db \<Rightarrow> msg_db \<Rightarrow> bool" where
  "protected cid u db db' \<longleftrightarrow> (\<forall>m\<in>set (members db). m \<in> set (members db') \<or>
     (cm_conv m = cid \<and> (cm_user m = Some u \<or> outranks cid u m db)))"

lemma protected_same: "set (members db) \<subseteq> set (members db') \<Longrightarrow> protected cid u db db'"
  by (auto simp: protected_def)

lemma protected_upd:
  assumes st: "store env db" and db': "members db' = members (upd_members cid v f db)"
    and ok: "v = u \<or> verify_target_not_higher cid v u db = Inr () \<or> require_role cid u owner_role db = Inr ()"
  shows "protected cid u db db'"
  unfolding protected_def
proof (intro ballI disjCI)
  fix m assume m: "m \<in> set (members db)" "\<not> (cm_conv m = cid \<and> (cm_user m = Some u \<or> outranks cid u m db))"
  show "m \<in> set (members db')"
  proof (rule ccontr)
    assume "m \<notin> set (members db')"
    then have row: "cm_conv m = cid" "cm_user m = Some v" using changed_row [OF m(1)] db' by metis+
    from ok show False
    proof (elim disjE)
      assume "v = u"
      with row m(2) show False by simp
    next
      assume "verify_target_not_higher cid v u db = Inr ()"
      from verified_outranks [OF st this m(1) row] row m(2) show False by simp
    next
      assume "require_role cid u owner_role db = Inr ()"
      from owner_outranks [OF st this m(1) row(1)] row m(2) show False by auto
    qed
  qed
qed

lemma mute_member_protected:
  "store env db \<Longrightarrow> mute_member env c u cid v d db = Inr (sys, db') \<Longrightarrow> protected cid u db db'"
  by (drule mute_member_Inr) (auto simp: repo_mute_member_def dest!: change_members intro: protected_upd)

lemma unmute_member_protected:
  "store env db \<Longrightarrow> unmute_member env c u cid v db = Inr (sys, db') \<Longrightarrow> protected cid u db db'"
  by (drule unmute_member_Inr) (auto simp: repo_unmute_member_def dest!: change_members intro: protected_upd)

lemma remove_members_rows:
  assumes st: "store env db" and cnt: "counts_ok db" and inj: "inj (fresh env)"
    and run: "remove_members env c u cid users db = Inr (sys, db')"
  obtains ms where "removal_targets cid u [] users db = Inr ms"
    "members db' = filter (\<lambda>x. \<not> (cm_conv x = cid \<and> cm_user x \<in> cm_user ` set ms)) (members db)"
  using run
proof (rule remove_members_Inr)
  fix ms db1
  assume ms: "removal_targets cid u [] users db = Inr ms" "rfold (remove_one env cid u) ms db = Inr db1"
    and pub: "publish_conversation_change env cid None (map user_of (filter (\<lambda>m. cm_type m = ''user'') ms))
       (increment_member_count env cid (- int (length ms)) db1) = Inr db'"
  have kp: "kept env cid 0 db" using st cnt by (simp add: kept_zero)
  have "members db1 = filter (\<lambda>x. \<not> (cm_conv x = cid \<and> cm_user x \<in> cm_user ` set ms)) (members db)"
    using remove_all_keeps [OF ms(2) kp inj] removal_targets_Inr [OF ms(1)] removal_targets_distinct [OF ms(1)] by auto
  moreover have "members db' = members db1"
    using change_members [OF pub] by (simp add: increment_member_count_def upd_conv_def)
  ultimately show thesis using that ms(1) by simp
qed

lemma remove_members_protected:
  assumes st: "store env db" and cnt: "counts_ok db" and inj: "inj (fresh env)"
    and run: "remove_members env c u cid users db = Inr (sys, db')"
  shows "protected cid u db db'"
  using st cnt inj run
proof (rule remove_members_rows)
  fix ms
  assume ms: "removal_targets cid u [] users db = Inr ms"
    "members db' = filter (\<lambda>x. \<not> (cm_conv x = cid \<and> cm_user x \<in> cm_user ` set ms)) (members db)"
  show ?thesis
    unfolding protected_def
  proof (intro ballI disjCI)
    fix m assume m: "m \<in> set (members db)" "\<not> (cm_conv m = cid \<and> (cm_user m = Some u \<or> outranks cid u m db))"
    show "m \<in> set (members db')"
    proof (rule ccontr)
      assume "m \<notin> set (members db')"
      then have out: "cm_conv m = cid \<and> cm_user m \<in> cm_user ` set ms" using m(1) unfolding ms(2) by (simp only: set_filter) blast
      then obtain x where x: "cm_conv m = cid" "x \<in> set ms" "cm_user m = cm_user x" by blast
      note x' = removal_targets_Inr [OF ms(1) x(2)]
      have "x = m" by (rule member_row_unique [OF st]) (use x' x m(1) in simp_all)
      moreover have "cm_user m \<noteq> Some u" "\<not> outranks cid u m db" using m(2) x(1) by simp_all
      ultimately show False using removal_outranks [OF ms(1) x(2)] by simp
    qed
  qed
qed

lemma update_member_protected:
  assumes st: "store env db" and run: "update_member env c u cid v role alias db = Inr (sys, db')"
  shows "protected cid u db db'"
  using run
proof (rule update_member_Inr)
  fix conv m m1 m2
  assume m: "find_member cid v db = Inr m" "changed_role cid u role m db = Inr m1"
    "changed_alias cid u v alias m1 db = Inr m2"
    and pub: "publish_conversation_change env cid None []
       (upd_members cid v (\<lambda>x. x\<lparr>cm_role := cm_role m2, cm_alias := cm_alias m2\<rparr>) db) = Inr db'"
  show ?thesis
  proof (cases "role = None \<and> alias = None")
    case True
    then have "m2 = m" using changed_role_Inr [OF m(2)] changed_alias_Inr [OF m(3)] by simp
    have "x\<lparr>cm_role := cm_role m2, cm_alias := cm_alias m2\<rparr> = x"
      if "x \<in> set (members db)" "cm_conv x = cid" "cm_user x = Some v" for x
      using member_row_unique [OF st that(1), of m] that find_member_Inr [OF m(1)] \<open>m2 = m\<close> by simp
    then have "set (members db) \<subseteq> set (members (upd_members cid v (\<lambda>x. x\<lparr>cm_role := cm_role m2, cm_alias := cm_alias m2\<rparr>) db))"
      by (force simp: upd_members_def set_update_where)
    then show ?thesis using change_members [OF pub] by (simp add: protected_same)
  next
    case False
    then have "v = u \<or> verify_target_not_higher cid v u db = Inr () \<or> require_role cid u owner_role db = Inr ()"
      using changed_role_Inr [OF m(2)] changed_alias_Inr [OF m(3)] by auto
    with st change_members [OF pub] show ?thesis by (rule protected_upd)
  qed
qed

lemma owner_protected:
  assumes st: "store env db" and own: "require_role cid u owner_role db = Inr ()"
    and other: "\<And>m. m \<in> set (members db) \<Longrightarrow> cm_conv m \<noteq> cid \<Longrightarrow> m \<in> set (members db')"
  shows "protected cid u db db'"
  using other owner_outranks [OF st own] by (auto simp: protected_def)

lemma transfer_owner_protected:
  assumes st: "store env db" and run: "transfer_owner env c u cid v db = Inr (sys, db')"
  shows "protected cid u db db'"
  using run
proof (rule transfer_owner_Inr)
  fix conv m t
  assume a: "convs db cid = Some conv" "c_type conv \<noteq> conv_system" "find_member cid u db = Inr m" "cm_role m \<le> owner_role"
    and rest: "if v = u then db' = db
     else publish_conversation_change env cid None [] (new_owner_db env cid v u db) = Inr db'"
  have own: "require_role cid u owner_role db = Inr ()" using a by (auto simp: require_role_Inr)
  show ?thesis
  proof (cases "v = u")
    case True
    with rest show ?thesis by (simp add: protected_same)
  next
    case False
    with rest have "members db' = members (new_owner_db env cid v u db)" by (simp add: change_members)
    then show ?thesis
      using st own by (intro owner_protected)
        (auto simp: new_owner_db_def update_member_role_def upd_members_def update_conversation_owner_def upd_conv_def
          set_update_where)
  qed
qed

lemma delete_conversation_protected:
  assumes st: "store env db" and run: "delete_conversation env c u cid db = Inr (sys, db')"
  shows "protected cid u db db'"
  using run
proof (rule delete_conversation_Inr)
  fix conv d
  assume own: "require_role cid u owner_role db = Inr ()" and db': "db' = delete_conversation_row cid d"
    and pub: "publish_conversation_change env cid (Some []) (member_ids cid db) (delete_children env cid db) = Inr d"
  have "members db' = filter (\<lambda>m. cm_conv m \<noteq> cid) (members db)"
    using change_members [OF pub] by (simp add: db' delete_conversation_row_def delete_children_def)
  with st own show ?thesis by (intro owner_protected) auto
qed

end
