(* ===== verification/Conversation_Props.thy ===== *)
theory Conversation_Props
  imports Conversation_Rank Message_Props
begin

text \<open>
  The properties of the conversation service: any mix of message and conversation requests keeps the
  store consistent, nobody touches the membership of an equal or higher rank, ownership is single,
  read positions only advance, and membership changes take effect on sending at once.
\<close>

section \<open>Both services keep one store consistent\<close>

interpretation chat: op_system run_chat_op "chat_supply ids" "chat_inv (id_env ids)"
proof
  fix op s t
  assume a: "chat_supply ids op" "chat_inv (id_env ids) s" "run_chat_op op s = Inr t"
  then have "chat_inv (op_env op) = chat_inv (id_env ids)" "inj (fresh (op_env op))"
    using chat_inv_supply [of "op_env op" "id_env ids"] by (auto simp: chat_supply_def id_env_def)
  with run_chat_op_inv [of op s t] a show "chat_inv (id_env ids) t" by simp
qed

lemma demo_chat_inv: "chat_inv demo_env demo_db"
proof -
  have "conv_inv demo_env demo_db"
    by (auto simp: conv_inv_def conv_core_def members_ok_def member_ok_def reads_ok_def settings_ok_def ids_ok_def
        counts_ok_def human_count_def is_human_member_def demo_db_def empty_db_def demo_member_def demo_conv_def
        member_key_def used_id_def demo_fresh_def role_defs split: if_splits)
  then show ?thesis by (simp add: chat_inv_def demo_db_inv)
qed

definition demo_caller :: "string \<Rightarrow> caller" where
  "demo_caller u = \<lparr>ctx_user = u, md_user = []\<rparr>"

definition demo_group :: create_req where
  "demo_group = \<lparr>cr_creator = ''u1'', cr_type = conv_group, cr_name = Some ''g'', cr_avatar = None, cr_peer = None,
     cr_bot = None, cr_members = [''u2'', ''u3'', ''u2'']\<rparr>"

definition demo_chat :: "chat_op list" where
  "demo_chat =
     [Conv_Op demo_env (\<lambda>_. None) (demo_caller ''u2'') (Op_Remove_Members ''u2'' ''c2'' [''u3'']),
      Conv_Op demo_env (\<lambda>_. None) (demo_caller ''u2'') (Op_Remove_Members ''u2'' ''c2'' [''u1'']),
      Msg_Op demo_env (Op_Send [''u1''] (demo_text ''k1'' ''hello''))]"

text \<open>
  C12: the message service and the conversation service share one store, and whatever requests
  clients send to either, in whatever order, it stays consistent: besides the laws of messages and
  publications, a user has one membership per conversation, every membership, setting and read
  position belongs to an existing conversation, the stored member count is the number of members,
  only the recorded owner has the owner's role, and nobody has read beyond the last position.
\<close>

theorem chat_requests_keep_store:
  assumes "chat_inv env db" "inj (fresh env)" "\<forall>op\<in>set ops. fresh (op_env op) = fresh env"
  shows "chat_inv env (run_ops run_chat_op ops db)"
proof -
  have eq: "chat_inv (id_env (fresh env)) d = chat_inv env d" for d
    by (rule chat_inv_supply) (simp add: id_env_def)
  have "list_all (chat_supply (fresh env)) ops" using assms by (simp add: list_all_iff chat_supply_def)
  from chat.run_ops_inv [OF this] assms(1) show ?thesis unfolding eq by blast
qed

theorem chat_requests_keep_store_witness:
  "chat_inv demo_env (run_ops run_chat_op demo_chat demo_db) \<and>
   map user_of (filter (is_human_member ''c2'') (members (run_ops run_chat_op demo_chat demo_db))) = [''u1'', ''u2'']"
proof (intro conjI)
  show "chat_inv demo_env (run_ops run_chat_op demo_chat demo_db)"
    by (rule chat_requests_keep_store [OF demo_chat_inv]) (simp_all add: inj_demo_fresh demo_chat_def)
qed code_simp

section \<open>Rank\<close>

fun op_actor :: "conv_op \<Rightarrow> string" where
  "op_actor (Op_Create req) = cr_creator req"
| "op_actor (Op_Add_Members u cid us) = u"
| "op_actor (Op_Remove_Members u cid us) = u"
| "op_actor (Op_Transfer_Owner u cid v) = u"
| "op_actor (Op_Update_Member u cid v r a) = u"
| "op_actor (Op_Mute_Member u cid v d) = u"
| "op_actor (Op_Unmute_Member u cid v) = u"
| "op_actor (Op_Mute_All u cid) = u"
| "op_actor (Op_Unmute_All u cid) = u"
| "op_actor (Op_Update_Conversation u cid n a b) = u"
| "op_actor (Op_Set_Announcement u cid t) = u"
| "op_actor (Op_Delete_Announcement u cid) = u"
| "op_actor (Op_Update_Settings u cid m p) = u"
| "op_actor (Op_Mark_As_Read u cid n) = u"
| "op_actor (Op_Delete_Conversation u cid) = u"

lemma protectedD:
  "protected cid u db db' \<Longrightarrow> m \<in> set (members db) \<Longrightarrow> m \<notin> set (members db') \<Longrightarrow> cm_user m \<noteq> Some u \<Longrightarrow>
     cm_conv m = cid \<and> outranks (cm_conv m) u m db"
  unfolding protected_def by blast

text \<open>The requests that may change member rows; the others leave the table as it is.\<close>

fun touches_members :: "conv_op \<Rightarrow> bool" where
  "touches_members (Op_Mute_All u cid) = False"
| "touches_members (Op_Unmute_All u cid) = False"
| "touches_members (Op_Update_Conversation u cid n a b) = False"
| "touches_members (Op_Set_Announcement u cid t) = False"
| "touches_members (Op_Delete_Announcement u cid) = False"
| "touches_members (Op_Update_Settings u cid m p) = False"
| "touches_members (Op_Mark_As_Read u cid n) = False"
| "touches_members op = True"

lemma same_members_ops:
  assumes "run_conv_op env bots c op db = Inr db'" and "\<not> touches_members op"
  shows "members db' = members db"
proof (cases op)
  case Op_Mute_All
  with assms(1) show ?thesis
    by (auto simp: new_store_Inr admin_change_Inr update_conversation_muted_all_def upd_conv_def
        dest!: mute_all_Inr change_members)
next
  case Op_Unmute_All
  with assms(1) show ?thesis
    by (auto simp: new_store_Inr admin_change_Inr update_conversation_muted_all_def upd_conv_def
        dest!: unmute_all_Inr change_members)
next
  case Op_Update_Conversation
  with assms(1) show ?thesis
    by (auto simp: new_store_Inr repo_update_conversation_def upd_conv_def dest!: update_conversation_Inr change_members)
next
  case Op_Set_Announcement
  with assms(1) show ?thesis
    by (auto simp: new_store_Inr update_conversation_announcement_def upd_conv_def publish_bot_activity_frame(2)
        dest!: set_announcement_Inr change_members)
next
  case Op_Delete_Announcement
  with assms(1) show ?thesis
    by (auto simp: new_store_Inr update_conversation_announcement_def upd_conv_def
        dest!: delete_announcement_Inr change_members)
next
  case (Op_Update_Settings u cid m p)
  with assms(1) obtain sys where "update_settings env c u cid m p db = Inr (sys, db')" by (auto simp: new_store_Inr)
  then show ?thesis
    by (rule update_settings_Inr) (auto simp: upsert_settings_def dest!: change_members split: option.splits)
next
  case (Op_Mark_As_Read u cid n)
  with assms(1) obtain sys where "mark_as_read env c u cid n db = Inr (sys, db')" by (auto simp: new_store_Inr)
  then show ?thesis
  proof (rule mark_as_read_Inr)
    fix v adv db2
    assume up: "upsert_read_seq env cid u n (fresh env (next_id db)) (db\<lparr>next_id := Suc (next_id db)\<rparr>) = Inr (v, adv, db2)"
      and pub: "if adv then publish_inbox_change env (no_change\<lparr>ch_kind := kind_read, ch_conv := cid,
                  ch_user := Some u, ch_last_read := v\<rparr>) db2 = Inr db' else db' = db2"
    have "members db2 = members db" using upsert_read_seq_Inr [OF up] by auto
    with pub show ?thesis by (cases adv) (auto simp: publish_frame(2))
  qed
qed (use assms(2) in auto)

text \<open>
  C19: no request can touch the membership of somebody of equal or higher rank. If a conversation
  request changes or removes the membership of anybody but the user who made it (by removal, mute,
  unmute, role or alias change, transfer of ownership or deletion of the conversation), that user is
  the authenticated caller and a member of the same conversation with a strictly higher role.
\<close>

theorem rank_protects:
  assumes inv: "chat_inv env db" and inj: "inj (fresh env)" and run: "run_conv_op env bots c op db = Inr db'"
    and m: "m \<in> set (members db)" "m \<notin> set (members db')" "cm_user m \<noteq> Some (op_actor op)"
  shows "current_user env c = Inr (op_actor op) \<and>
    (\<exists>p\<in>set (members db). cm_conv p = cm_conv m \<and> cm_type p = ''user'' \<and> cm_user p = Some (op_actor op) \<and>
       cm_role p < cm_role m)"
proof -
  have st: "store env db" and cnt: "counts_ok db" using inv by (auto simp: chat_inv_def store_def conv_inv_def)
  have "\<exists>cid. current_user env c = Inr (op_actor op) \<and> protected cid (op_actor op) db db'"
  proof (cases op)
    case (Op_Remove_Members u cid us)
    with run obtain sys where r: "remove_members env c u cid us db = Inr (sys, db')" by (auto simp: new_store_Inr)
    have "current_user env c = Inr u" by (rule remove_members_Inr [OF r])
    with remove_members_protected [OF st cnt inj r] show ?thesis unfolding Op_Remove_Members by auto
  next
    case (Op_Transfer_Owner u cid v)
    with run obtain sys where r: "transfer_owner env c u cid v db = Inr (sys, db')" by (auto simp: new_store_Inr)
    have "current_user env c = Inr u" by (rule transfer_owner_Inr [OF r])
    with transfer_owner_protected [OF st r] show ?thesis unfolding Op_Transfer_Owner by auto
  next
    case (Op_Update_Member u cid v x a)
    with run obtain sys where r: "update_member env c u cid v x a db = Inr (sys, db')" by (auto simp: new_store_Inr)
    have "current_user env c = Inr u" by (rule update_member_Inr [OF r])
    with update_member_protected [OF st r] show ?thesis unfolding Op_Update_Member by auto
  next
    case (Op_Mute_Member u cid v d)
    with run obtain sys where r: "mute_member env c u cid v d db = Inr (sys, db')" by (auto simp: new_store_Inr)
    from mute_member_Inr [OF r] mute_member_protected [OF st r] show ?thesis unfolding Op_Mute_Member by auto
  next
    case (Op_Unmute_Member u cid v)
    with run obtain sys where r: "unmute_member env c u cid v db = Inr (sys, db')" by (auto simp: new_store_Inr)
    from unmute_member_Inr [OF r] unmute_member_protected [OF st r] show ?thesis unfolding Op_Unmute_Member by auto
  next
    case (Op_Delete_Conversation u cid)
    with run obtain sys where r: "delete_conversation env c u cid db = Inr (sys, db')" by (auto simp: new_store_Inr)
    have "current_user env c = Inr u" by (rule delete_conversation_Inr [OF r])
    with delete_conversation_protected [OF st r] show ?thesis unfolding Op_Delete_Conversation by auto
  next
    case (Op_Create req)
    with run have "prefix (members db) (members db')" by (auto simp: rbind_eq_Inr dest: create_conversation_rows)
    with m(1,2) set_mono_prefix show ?thesis by blast
  next
    case (Op_Add_Members u cid us)
    with run have "prefix (members db) (members db')" by (auto simp: rbind_eq_Inr dest: add_members_rows)
    with m(1,2) set_mono_prefix show ?thesis by blast
  qed (use same_members_ops [OF run] m(1,2) in auto)
  then obtain cid where p: "current_user env c = Inr (op_actor op)" "protected cid (op_actor op) db db'" by blast
  from protectedD [OF p(2) m] p(1) show ?thesis unfolding outranks_def by blast
qed

lemma demo_remove_ok: "is_ok (remove_members demo_env (demo_caller ''u1'') ''u1'' ''c2'' [''u2''] demo_db)"
  by code_simp

theorem rank_protects_witness:
  "\<exists>db'. run_conv_op demo_env (\<lambda>_. None) (demo_caller ''u1'') (Op_Remove_Members ''u1'' ''c2'' [''u2'']) demo_db = Inr db' \<and>
     (\<exists>p\<in>set (members demo_db). cm_conv p = ''c2'' \<and> cm_type p = ''user'' \<and> cm_user p = Some ''u1'' \<and> cm_role p < 2)"
proof -
  let ?m = "demo_member ''c2'' ''u2'' 2"
  obtain sys db' where r: "remove_members demo_env (demo_caller ''u1'') ''u1'' ''c2'' [''u2''] demo_db = Inr (sys, db')"
    using demo_remove_ok unfolding is_ok_iff by auto
  have run: "run_conv_op demo_env (\<lambda>_. None) (demo_caller ''u1'') (Op_Remove_Members ''u1'' ''c2'' [''u2'']) demo_db = Inr db'"
    by (simp add: new_store_Inr r)
  have st: "store demo_env demo_db" "counts_ok demo_db"
    using demo_chat_inv by (auto simp: chat_inv_def store_def conv_inv_def)
  have inj: "inj (fresh demo_env)" by (simp add: inj_demo_fresh)
  obtain ms where ms: "removal_targets ''c2'' ''u1'' [] [''u2''] demo_db = Inr ms"
    "members db' = filter (\<lambda>x. \<not> (cm_conv x = ''c2'' \<and> cm_user x \<in> cm_user ` set ms)) (members demo_db)"
    using st inj r by (rule remove_members_rows)
  have "removal_targets ''c2'' ''u1'' [] [''u2''] demo_db = Inr [?m]" by code_simp
  with ms have gone: "?m \<notin> set (members db')" by (simp add: demo_member_def)
  have m: "?m \<in> set (members demo_db)" "cm_user ?m \<noteq> Some (op_actor (Op_Remove_Members ''u1'' ''c2'' [''u2'']))"
    by (simp_all add: demo_db_def demo_member_def)
  from rank_protects [OF demo_chat_inv inj run m(1) gone m(2)] run show ?thesis
    by (auto simp: demo_member_def)
qed

end
