(* ===== verification/Conversation_Effects.thy ===== *)
theory Conversation_Effects
  imports Conversation_Props
begin

text \<open>
  The effects of single conversation requests: who owns the conversation after a transfer, what a
  read receipt stores and publishes, and when a removal or a mute stops a user from sending.
\<close>

section \<open>Ownership\<close>

lemma chat_store: "chat_inv env db \<Longrightarrow> store env db" "chat_inv env db \<Longrightarrow> counts_ok db"
  by (simp_all add: chat_inv_def store_def conv_inv_def)

lemma chat_kept: "chat_inv env db \<longleftrightarrow> kept env k 0 db"
  by (auto simp: kept_zero chat_inv_def store_def conv_inv_def)

definition owned_by :: "string \<Rightarrow> string \<Rightarrow> msg_db \<Rightarrow> bool" where
  "owned_by cid v db \<longleftrightarrow> (\<exists>c. convs db cid = Some c \<and> c_owner c = Some v) \<and>
     (\<exists>m\<in>set (members db). cm_conv m = cid \<and> cm_user m = Some v \<and> cm_role m = owner_role)"

lemma owner_is_owned:
  assumes st: "store env db" and m: "find_member cid u db = Inr m" "cm_role m \<le> owner_role" and c: "convs db cid = Some conv"
  shows "owned_by cid u db"
proof -
  note m' = find_member_Inr [OF m(1)]
  have "cm_role m = owner_role" using role_one store_membersD(3) [OF st, of m] m' m(2) by blast
  with only_owner [OF st _ _ _ c, of m] m' c show ?thesis by (auto simp: owned_by_def)
qed

lemma conversation_change_frame:
  "kept env k n db \<Longrightarrow> inj (fresh env) \<Longrightarrow> publish_conversation_change env cid rcp removed db = Inr db' \<Longrightarrow> conv_frame db db'"
  unfolding kept_def using conversation_change_keeps by blast

text \<open>
  C36: after a successful transfer of ownership the conversation has exactly one owner, the named
  user: the conversation row records that user, that user's membership has the owner's role and no
  other membership of the conversation does. The request was the previous owner's own.
\<close>

theorem transfer_leaves_one_owner:
  assumes inv: "chat_inv env db" and inj: "inj (fresh env)" and run: "transfer_owner env c u cid v db = Inr (sys, db')"
  shows "current_user env c = Inr u \<and> owned_by cid u db \<and> owned_by cid v db' \<and>
    (\<forall>m\<in>set (members db'). cm_conv m = cid \<longrightarrow> cm_role m = owner_role \<longrightarrow> cm_user m = Some v)"
proof -
  note st = chat_store(1) [OF inv]
  have st': "store env db'"
    using transfer_owner_keeps [OF run, of "[]" 0] inv inj chat_kept [of env db "[]"] by (simp add: kept_def)
  from run show ?thesis
  proof (rule transfer_owner_Inr)
    fix conv m t
    assume cu: "current_user env c = Inr u" and a: "convs db cid = Some conv" "find_member cid u db = Inr m" "cm_role m \<le> owner_role"
      and t: "find_member cid v db = Inr t"
      and rest: "if v = u then db' = db
       else publish_conversation_change env cid None [] (new_owner_db env cid v u db) = Inr db'"
    have own: "owned_by cid u db" using st a(2,3,1) by (rule owner_is_owned)
    have own': "owned_by cid v db'"
    proof (cases "v = u")
      case True
      with rest own show ?thesis by simp
    next
      case False
      with rest have pub: "publish_conversation_change env cid None [] (new_owner_db env cid v u db) = Inr db'" by simp
      have "kept env [] 0 (new_owner_db env cid v u db)"
        using inv a t False by (intro kept_new_owner) (simp_all add: chat_kept [symmetric])
      then have fr: "conv_frame (new_owner_db env cid v u db) db'" using inj pub by (rule conversation_change_frame)
      have "convs (new_owner_db env cid v u db) cid = Some (conv\<lparr>c_owner := Some v, c_updated := now env\<rparr>)"
        using a(1) by (simp add: new_owner_db_def update_member_role_def upd_members_def update_conversation_owner_def upd_conv_def)
      from conv_frame_Some1 [OF fr this] obtain c' where c': "convs db' cid = Some c'" "c_owner c' = Some v"
        by (auto simp: conv_step_def)
      have mem: "members db' = members (new_owner_db env cid v u db)" by (rule change_members [OF pub])
      note t' = find_member_Inr [OF t]
      have "t\<lparr>cm_role := owner_role\<rparr> \<in> set (members db')"
        using t' False unfolding mem
        by (auto simp: new_owner_db_def update_member_role_def upd_members_def update_conversation_owner_def upd_conv_def
            update_where_def intro!: image_eqI [where x = t])
      with c' t' show ?thesis by (auto simp: owned_by_def intro!: bexI [where x = "t\<lparr>cm_role := owner_role\<rparr>"])
    qed
    then obtain c' where c': "convs db' cid = Some c'" "c_owner c' = Some v" by (auto simp: owned_by_def)
    have "\<forall>m\<in>set (members db'). cm_conv m = cid \<longrightarrow> cm_role m = owner_role \<longrightarrow> cm_user m = Some v"
      using only_owner [OF st' _ _ _ c'(1)] c'(2) by auto
    with cu own own' show ?thesis by blast
  qed
qed

lemma demo_transfer_ok: "is_ok (transfer_owner demo_env (demo_caller ''u1'') ''u1'' ''c2'' ''u3'' demo_db)"
  by code_simp

theorem transfer_leaves_one_owner_witness:
  "\<exists>db'. new_store (transfer_owner demo_env (demo_caller ''u1'') ''u1'' ''c2'' ''u3'' demo_db) = Inr db' \<and> owned_by ''c2'' ''u3'' db'"
proof -
  obtain sys db' where r: "transfer_owner demo_env (demo_caller ''u1'') ''u1'' ''c2'' ''u3'' demo_db = Inr (sys, db')"
    using demo_transfer_ok unfolding is_ok_iff by auto
  then have "owned_by ''c2'' ''u3'' db'"
    using transfer_leaves_one_owner [OF demo_chat_inv _ r] by (simp add: inj_demo_fresh)
  with r show ?thesis by (auto simp: new_store_def)
qed

section \<open>Read positions\<close>

lemma read_of_append:
  "find_read cid u db = None \<Longrightarrow>
     read_of k v (db\<lparr>reads := reads db @ [\<lparr>rs_id = rid, rs_conv = cid, rs_user = u, rs_last = n, rs_at = t\<rparr>]\<rparr>) =
       (if (k, v) = (cid, u) then n else read_of k v db)"
  by (auto simp: read_of_def find_read_def find_append split: option.splits)

lemma find_update_other:
  assumes "\<And>x. P x \<Longrightarrow> \<not> Q x" "\<And>x. Q (f x) = Q x"
  shows "find Q (update_where P f xs) = find Q xs"
  using assms by (induction xs) auto

lemma read_of_update:
  assumes "find_read cid u db = Some r"
  shows "read_of k v (db\<lparr>reads := update_where (\<lambda>x. rs_conv x = cid \<and> rs_user x = u) (\<lambda>x. x\<lparr>rs_last := n, rs_at := t\<rparr>) (reads db)\<rparr>) =
       (if (k, v) = (cid, u) then n else read_of k v db)"
proof (cases "(k, v) = (cid, u)")
  case True
  have "find_read cid u (db\<lparr>reads := update_where (\<lambda>x. rs_conv x = cid \<and> rs_user x = u) (\<lambda>x. x\<lparr>rs_last := n, rs_at := t\<rparr>) (reads db)\<rparr>) =
      map_option (\<lambda>x. x\<lparr>rs_last := n, rs_at := t\<rparr>) (find_read cid u db)"
    unfolding find_read_def by (simp add: find_update_where)
  with True assms show ?thesis by (simp add: read_of_def)
next
  case False
  then have "find_read k v (db\<lparr>reads := update_where (\<lambda>x. rs_conv x = cid \<and> rs_user x = u) (\<lambda>x. x\<lparr>rs_last := n, rs_at := t\<rparr>) (reads db)\<rparr>) =
      find_read k v db"
    unfolding find_read_def by (auto intro!: find_update_other)
  with False show ?thesis by (auto simp: read_of_def)
qed

lemma upsert_read_effect:
  assumes run: "upsert_read_seq env cid u seq rid db = Inr (v, adv, db')" and ok: "reads_ok db"
    and c: "convs db cid = Some conv" "0 \<le> c_max_seq conv"
  shows "v = max (read_of cid u db) (min seq (c_max_seq conv)) \<and> (adv \<longleftrightarrow> read_of cid u db < v) \<and>
    read_of k w db' = (if (k, w) = (cid, u) then v else read_of k w db) \<and> outbox db' = outbox db"
proof -
  let ?n = "min seq (c_max_seq conv)"
  from upsert_read_seq_Inr [OF run] c obtain rs where rs: "0 \<le> seq" "db' = db\<lparr>reads := rs\<rparr>"
      "(find_read cid u db = None \<and> v = ?n \<and> adv = (0 < ?n) \<and>
         rs = reads db @ [\<lparr>rs_id = rid, rs_conv = cid, rs_user = u, rs_last = ?n, rs_at = now env\<rparr>]) \<or>
      (\<exists>r. find_read cid u db = Some r \<and> rs_last r < ?n \<and> v = ?n \<and> adv = (0 < ?n) \<and>
         rs = update_where (\<lambda>x. rs_conv x = cid \<and> rs_user x = u) (\<lambda>x. x\<lparr>rs_last := ?n, rs_at := now env\<rparr>) (reads db)) \<or>
      (\<exists>r. find_read cid u db = Some r \<and> ?n \<le> rs_last r \<and> v = rs_last r \<and> \<not> adv \<and> rs = reads db)"
    by (auto simp only: Let_def option.inject)
  have n: "0 \<le> ?n" using rs(1) c(2) by simp
  have nonneg: "0 \<le> rs_last r" if "find_read cid u db = Some r" for r
    using find_read_Some [OF that] ok by (auto simp: reads_ok_def)
  from rs(3) show ?thesis
  proof (elim disjE exE conjE)
    assume a: "find_read cid u db = None" "v = ?n" "adv = (0 < ?n)"
      "rs = reads db @ [\<lparr>rs_id = rid, rs_conv = cid, rs_user = u, rs_last = ?n, rs_at = now env\<rparr>]"
    have "read_of cid u db = 0" using a(1) by (simp add: read_of_def)
    with a n show ?thesis unfolding rs(2) a(4) read_of_append [OF a(1)] by auto
  next
    fix r assume a: "find_read cid u db = Some r" "rs_last r < ?n" "v = ?n" "adv = (0 < ?n)"
      "rs = update_where (\<lambda>x. rs_conv x = cid \<and> rs_user x = u) (\<lambda>x. x\<lparr>rs_last := ?n, rs_at := now env\<rparr>) (reads db)"
    have "read_of cid u db = rs_last r" using a(1) by (simp add: read_of_def)
    with a(2-4) nonneg [OF a(1)] show ?thesis unfolding rs(2) a(5) read_of_update [OF a(1)] by auto
  next
    fix r assume a: "find_read cid u db = Some r" "?n \<le> rs_last r" "v = rs_last r" "\<not> adv" "rs = reads db"
    have "read_of cid u db = rs_last r" using a(1) by (simp add: read_of_def)
    with a show ?thesis unfolding rs(2) by auto
  qed
qed

definition read_event :: "string \<Rightarrow> string \<Rightarrow> int \<Rightarrow> outbox_event \<Rightarrow> bool" where
  "read_event cid u n e \<longleftrightarrow> o_conv e = cid \<and>
     (\<exists>ch. o_payload e = Change ch \<and> ch_kind ch = kind_read \<and> ch_conv ch = cid \<and> ch_user ch = Some u \<and> ch_last_read ch = n)"

text \<open>
  C37: a read receipt moves the reader's position to the larger of the old one and the requested
  one cut off at the conversation's last position, so a position never moves back and never passes
  the end; no other position changes, and the change is published exactly when the position advances.
\<close>

theorem mark_as_read_effect:
  assumes inv: "chat_inv env db" and run: "mark_as_read env c u cid seq db = Inr (sys, db')"
  shows "\<exists>conv. convs db cid = Some conv \<and>
    (let n = max (read_of cid u db) (min seq (c_max_seq conv)) in
      (\<forall>k w. read_of k w db' = (if (k, w) = (cid, u) then n else read_of k w db)) \<and>
      (if read_of cid u db < n then \<exists>e. outbox db' = outbox db @ [e] \<and> read_event cid u n e
       else outbox db' = outbox db))"
  using run
proof (rule mark_as_read_Inr)
  fix v adv db2
  let ?db1 = "db\<lparr>next_id := Suc (next_id db)\<rparr>"
  assume up: "upsert_read_seq env cid u seq (fresh env (next_id db)) ?db1 = Inr (v, adv, db2)"
    and pub: "if adv then publish_inbox_change env (no_change\<lparr>ch_kind := kind_read, ch_conv := cid,
                  ch_user := Some u, ch_last_read := v\<rparr>) db2 = Inr db' else db' = db2"
  obtain conv where conv: "convs db cid = Some conv" using upsert_read_seq_Inr [OF up] by auto
  have "0 \<le> c_max_seq conv" using inv conv by (auto simp: chat_inv_def db_inv_def conv_wf_def)
  moreover have "reads_ok ?db1" using inv by (simp add: chat_inv_def conv_inv_def conv_core_def reads_ok_def)
  ultimately have eff: "v = max (read_of cid u ?db1) (min seq (c_max_seq conv))" "adv \<longleftrightarrow> read_of cid u ?db1 < v"
    "read_of k w db2 = (if (k, w) = (cid, u) then v else read_of k w ?db1)" "outbox db2 = outbox ?db1" for k w
    using upsert_read_effect [OF up] conv by simp_all
  have r1: "read_of k w ?db1 = read_of k w db" for k w by (simp add: read_of_def find_read_def)
  have r2: "read_of k w db' = read_of k w db2" for k w
    using pub by (auto simp: read_of_def find_read_def publish_frame(3) split: if_splits)
  have v: "max (read_of cid u db) (min seq (c_max_seq conv)) = v" using eff(1) by (simp add: r1)
  have out: "if read_of cid u db < v then \<exists>e. outbox db' = outbox db @ [e] \<and> read_event cid u v e
       else outbox db' = outbox db"
  proof (cases adv)
    case True
    with pub have p: "publish_inbox_change env (no_change\<lparr>ch_kind := kind_read, ch_conv := cid,
                  ch_user := Some u, ch_last_read := v\<rparr>) db2 = Inr db'" by simp
    from publish_frame(9) [OF p] True eff(2,4) show ?thesis
      by (simp add: r1 read_event_def publication_def published_change_def no_change_def Let_def)
  next
    case False
    with pub eff(2,4) show ?thesis by (simp add: r1)
  qed
  show ?thesis
    by (rule exI [of _ conv], unfold Let_def v) (use conv out in \<open>simp add: r2 eff(3) r1\<close>)
qed

lemma demo_read_ok: "is_ok (mark_as_read demo_env (demo_caller ''u2'') ''u2'' ''c1'' 7 (snd demo_after))"
  unfolding demo_after_def by code_simp

lemma demo_after_chat: "chat_inv demo_env (snd demo_after)"
proof -
  have "run_chat_op (Msg_Op demo_env (Op_Send [''u1''] (demo_text ''k1'' ''hello''))) demo_db = Inr (snd demo_after)"
    using demo_first by (simp add: case_prod_beta)
  from run_chat_op_inv [OF _ _ this] demo_chat_inv show ?thesis by (simp add: inj_demo_fresh)
qed

theorem mark_as_read_effect_witness:
  "\<exists>db'. new_store (mark_as_read demo_env (demo_caller ''u2'') ''u2'' ''c1'' 7 (snd demo_after)) = Inr db' \<and>
     read_of ''c1'' ''u2'' db' = 1"
proof -
  obtain sys db' where r: "mark_as_read demo_env (demo_caller ''u2'') ''u2'' ''c1'' 7 (snd demo_after) = Inr (sys, db')"
    using demo_read_ok unfolding is_ok_iff by auto
  have m: "map_option c_max_seq (convs (snd demo_after) ''c1'') = Some 1" "read_of ''c1'' ''u2'' (snd demo_after) = 0"
    unfolding demo_after_def by code_simp+
  from mark_as_read_effect [OF demo_after_chat r] m have "read_of ''c1'' ''u2'' db' = 1"
    by (auto simp: Let_def)
  with r show ?thesis by (auto simp: new_store_def)
qed

section \<open>Leaving and muting take effect on sending\<close>

lemma find_map_rows: "find P (map f xs) = map_option f (find (P \<circ> f) xs)"
  by (induction xs) auto

lemma removal_targets_all:
  "removal_targets cid u seen us db = Inr ms \<Longrightarrow> cm_user ` set ms = Some ` (set us - set seen)"
proof (induction us arbitrary: seen ms)
  case (Cons v us)
  show ?case
  proof (cases "v \<in> set seen")
    case True
    with Cons show ?thesis by (auto simp: insert_absorb)
  next
    case False
    with Cons.prems obtain x ms' where x: "find_member cid v db = Inr x" "ms = x # ms'"
        "removal_targets cid u (v # seen) us db = Inr ms'"
      by (auto simp: rbind_eq_Inr split: if_splits)
    have "cm_user x = Some v" using find_member_Inr [OF x(1)] by simp
    with Cons.IH [OF x(3)] False show ?thesis unfolding x(2) by auto
  qed
qed simp

lemma not_member_cannot_send:
  assumes "\<And>m. m \<in> set (members db) \<Longrightarrow> cm_conv m = cid \<Longrightarrow> cm_user m \<noteq> Some v" "sr_conv req = cid" "sr_from req = v"
  shows "\<not> is_ok (send_message env md req db)"
proof
  assume "is_ok (send_message env md req db)"
  then obtain r db' where "send_message env md req db = Inr (r, db')" by (auto simp: is_ok_iff)
  then obtain m where "may_send env cid v db = Inr ()" using send_message_txD assms by (fastforce simp: send_tx_Inr)
  then obtain x where "find (human_of cid v) (members db) = Some x" by (auto simp: may_send_Inr)
  from find_SomeD [OF this] assms(1) [of x] show False by (simp add: human_of_def is_human_member_def)
qed

text \<open>
  C38: removal and leaving take effect at once and touch nobody else. After \<open>RemoveMembers\<close> the
  memberships of the conversation are the old ones without those of the named users, in order and
  unchanged, and as long as a named user is not added again, nothing that user sends to the
  conversation is accepted.
\<close>

theorem removed_members_cannot_send:
  assumes inv: "chat_inv env db" and inj: "inj (fresh env)" and run: "remove_members env c u cid users db = Inr (sys, db')"
  shows "members db' = filter (\<lambda>m. \<not> (cm_conv m = cid \<and> cm_user m \<in> Some ` set users)) (members db) \<and>
    (\<forall>env2 md req. sr_conv req = cid \<longrightarrow> sr_from req \<in> set users \<longrightarrow> \<not> is_ok (send_message env2 md req db'))"
  using chat_store [OF inv] inj run
proof (rule remove_members_rows)
  fix ms
  assume ms: "removal_targets cid u [] users db = Inr ms"
    "members db' = filter (\<lambda>x. \<not> (cm_conv x = cid \<and> cm_user x \<in> cm_user ` set ms)) (members db)"
  have "cm_user ` set ms = Some ` set users" using removal_targets_all [OF ms(1)] by simp
  with ms(2) have rows: "members db' = filter (\<lambda>m. \<not> (cm_conv m = cid \<and> cm_user m \<in> Some ` set users)) (members db)" by simp
  moreover have "\<not> is_ok (send_message env2 md req db')" if "sr_conv req = cid" "sr_from req \<in> set users" for env2 md req
    by (rule not_member_cannot_send [where cid = cid and v = "sr_from req"]) (use that in \<open>auto simp: rows\<close>)
  ultimately show ?thesis by blast
qed

theorem removed_members_cannot_send_witness:
  "\<exists>db'. new_store (remove_members demo_env (demo_caller ''u1'') ''u1'' ''c2'' [''u2''] demo_db) = Inr db' \<and>
     map user_of (members db') = [''u1'', ''u2'', ''u1'', ''u3'']"
proof -
  obtain sys db' where r: "remove_members demo_env (demo_caller ''u1'') ''u1'' ''c2'' [''u2''] demo_db = Inr (sys, db')"
    using demo_remove_ok unfolding is_ok_iff by auto
  from removed_members_cannot_send [OF demo_chat_inv _ r]
  have "members db' = filter (\<lambda>m. \<not> (cm_conv m = ''c2'' \<and> cm_user m \<in> Some ` set [''u2''])) (members demo_db)"
    by (simp add: inj_demo_fresh)
  with r show ?thesis by (auto simp: new_store_def demo_db_def demo_member_def user_of_def)
qed

text \<open>
  A mute lasts exactly as long as asked for. After \<open>MuteMember\<close> the target's membership counts
  as muted, whatever later clock the check uses, exactly while everybody is muted or the mute is
  unlimited (no positive duration) or its seconds have not passed (the sum of clock and duration
  does not overflow); and while it is muted nothing the target sends is accepted.
\<close>

theorem muted_member_cannot_send:
  assumes inv: "chat_inv env db" and inj: "inj (fresh env)" and run: "mute_member env c u cid v d db = Inr (sys, db')"
    and clock: "0 \<le> unix (now env)" "unix (now env) + d < 2 ^ 63"
  shows "\<exists>conv m. convs db' cid = Some conv \<and> find (human_of cid v) (members db') = Some m \<and>
    (\<forall>env2. is_muted env2 conv m \<longleftrightarrow> c_muted_all conv \<or> d \<le> 0 \<or> unix (now env2) < unix (now env) + d) \<and>
    (\<forall>env2 md req. sr_conv req = cid \<longrightarrow> sr_from req = v \<longrightarrow> is_muted env2 conv m \<longrightarrow> \<not> is_ok (send_message env2 md req db'))"
proof -
  let ?t = "if d > 0 then wrap64 (unix (now env) + d) else 0"
  note mm = mute_member_Inr [OF run]
  obtain conv0 where conv0: "convs db cid = Some conv0" using mm by (auto simp: require_role_Inr role_defs)
  obtain x where x: "find_member cid v db = Inr x" using mm by (auto simp: verify_target_Inr)
  have pub: "publish_conversation_change env cid None [] (repo_mute_member cid v ?t db) = Inr db'" using mm by blast
  have mem: "members db' = update_where (\<lambda>m. cm_conv m = cid \<and> cm_user m = Some v)
      (\<lambda>m. m\<lparr>cm_muted := True, cm_mute_until := ?t\<rparr>) (members db)"
    using change_members [OF pub] by (simp add: repo_mute_member_def upd_members_def)
  define g where "g = (\<lambda>m :: conv_member. if cm_conv m = cid \<and> cm_user m = Some v then m\<lparr>cm_muted := True, cm_mute_until := ?t\<rparr> else m)"
  have gh: "human_of cid v \<circ> g = human_of cid v" by (simp add: fun_eq_iff g_def human_of_def is_human_member_def)
  have "members db' = map g (members db)" unfolding mem g_def update_where_def by simp
  then have fnd: "find (human_of cid v) (members db') = map_option g (find (human_of cid v) (members db))"
    by (simp add: find_map_rows gh)
  have fx: "find (human_of cid v) (members db) = Some x"
    using x by (simp add: find_member_def take_row_Inr human_of_def [abs_def])
  have row: "cm_conv x = cid" "cm_user x = Some v" using find_member_Inr [OF x] by simp_all
  have gx: "find (human_of cid v) (members db') = Some (x\<lparr>cm_muted := True, cm_mute_until := ?t\<rparr>)"
    unfolding fnd fx by (simp add: g_def row)
  have t: "d > 0 \<Longrightarrow> ?t = unix (now env) + d \<and> ?t \<noteq> 0" using clock by (simp add: wrap64_id)
  have kp: "kept env [] 0 db" using inv by (simp add: chat_kept [symmetric])
  have "kept env [] 0 (repo_mute_member cid v ?t db)"
    by (simp add: repo_mute_member_def kept_same_role [OF kp])
  then have fr: "conv_frame (repo_mute_member cid v ?t db) db'" using inj pub by (rule conversation_change_frame)
  have "convs (repo_mute_member cid v ?t db) cid = Some conv0" by (simp add: repo_mute_member_def upd_members_def conv0)
  from conv_frame_Some1 [OF fr this] obtain conv where conv: "convs db' cid = Some conv" by blast
  have mut: "is_muted env2 conv (x\<lparr>cm_muted := True, cm_mute_until := ?t\<rparr>) \<longleftrightarrow>
      c_muted_all conv \<or> d \<le> 0 \<or> unix (now env2) < unix (now env) + d" for env2
    using t by (cases "d > 0") (auto simp: is_muted_def)
  have refuse: "\<not> is_ok (send_message env2 md req db')"
    if "sr_conv req = cid" "sr_from req = v" "is_muted env2 conv (x\<lparr>cm_muted := True, cm_mute_until := ?t\<rparr>)" for env2 md req
  proof
    assume "is_ok (send_message env2 md req db')"
    then obtain r d' where "send_message env2 md req db' = Inr (r, d')" by (auto simp: is_ok_iff)
    then have "may_send env2 cid v db' = Inr ()" using send_message_txD that(1,2) by (fastforce simp: send_tx_Inr)
    with gx conv that(3) show False by (simp add: may_send_Inr)
  qed
  show ?thesis
    using conv gx mut refuse by blast
qed

lemma demo_mute_ok: "is_ok (mute_member demo_env (demo_caller ''u2'') ''u2'' ''c2'' ''u3'' 60 demo_db)"
  by code_simp

theorem muted_member_cannot_send_witness:
  "\<exists>db'. new_store (mute_member demo_env (demo_caller ''u2'') ''u2'' ''c2'' ''u3'' 60 demo_db) = Inr db' \<and>
     (\<exists>conv m. convs db' ''c2'' = Some conv \<and> is_muted demo_env conv m)"
proof -
  obtain sys db' where r: "mute_member demo_env (demo_caller ''u2'') ''u2'' ''c2'' ''u3'' 60 demo_db = Inr (sys, db')"
    using demo_mute_ok unfolding is_ok_iff by auto
  have u: "unix (now demo_env) = 100" by (simp add: unix_def demo_env_def second_def)
  from muted_member_cannot_send [OF demo_chat_inv _ r] u
  have "\<exists>conv m. convs db' ''c2'' = Some conv \<and> (\<forall>env2. is_muted env2 conv m \<longleftrightarrow>
      c_muted_all conv \<or> (60 :: int) \<le> 0 \<or> unix (now env2) < unix (now demo_env) + 60)"
    by (simp add: inj_demo_fresh) blast
  then have "\<exists>conv m. convs db' ''c2'' = Some conv \<and> is_muted demo_env conv m"
    by (elim exE conjE) (drule spec [of _ demo_env], auto)
  with r show ?thesis by (auto simp: new_store_def)
qed

end
