(* ===== verification/Conversation_Bounds.thy ===== *)
theory Conversation_Bounds
  imports Conversation_Effects
begin

text \<open>
  Two users share at most one private conversation through \<open>CreateConversation\<close>, and no sequence of
  requests makes a conversation larger than the configured limit.
\<close>

section \<open>The private conversation of two users\<close>

definition has_member :: "string \<Rightarrow> string \<Rightarrow> msg_db \<Rightarrow> bool" where
  "has_member cid u db \<longleftrightarrow> (\<exists>m\<in>set (members db). cm_conv m = cid \<and> cm_user m = Some u)"

definition shared_private :: "string \<Rightarrow> string \<Rightarrow> msg_db \<Rightarrow> string set" where
  "shared_private u v db = {k. is_private_conv k db \<and> has_member k u db \<and> has_member k v db}"

lemma shared_private_sym: "shared_private u v db = shared_private v u db"
  by (auto simp: shared_private_def)

lemma first_conv_Inr: "first_conv ids = Inr i \<longleftrightarrow> i \<in> set ids \<and> (\<forall>j\<in>set ids. str_le i j)"
proof -
  have sorted: "sorted_wrt str_le (sort_by str_le ids)"
    by (rule sort_by_sorted) (use str_le_total str_le_trans in blast)+
  show ?thesis
  proof (cases "sort_by str_le ids")
    case Nil
    then have "ids = []" by (metis length_0_conv length_sort_by)
    then show ?thesis by (simp add: first_conv_def sort_by_def)
  next
    case (Cons x xs)
    then have s: "set ids = insert x (set xs)" by (metis list.simps(15) set_sort_by)
    have "\<forall>j\<in>set xs. str_le x j" using sorted Cons by simp
    then show ?thesis using Cons s str_le_antisym by (auto simp: first_conv_def)
  qed
qed

lemma first_conv_Inl: "first_conv ids = Inl e \<longleftrightarrow> set ids = {} \<and> e = RecordNotFound"
proof (cases "sort_by str_le ids")
  case Nil
  then have "ids = []" by (metis length_0_conv length_sort_by)
  then show ?thesis by (auto simp: first_conv_def sort_by_def)
next
  case (Cons x xs)
  then have "set ids \<noteq> {}" by (metis list.set_intros(1) empty_iff set_sort_by)
  with Cons show ?thesis by (simp add: first_conv_def)
qed

lemma find_private_set:
  "set (map cm_conv (filter (\<lambda>m. cm_user m = Some u \<and> is_private_conv (cm_conv m) db \<and>
       (\<exists>x\<in>set (members db). cm_conv x = cm_conv m \<and> cm_user x = Some v)) (members db))) = shared_private u v db"
  by (force simp: shared_private_def has_member_def)

lemma find_private_conv_Inr:
  "find_private_conv u v db = Inr i \<longleftrightarrow> i \<in> shared_private u v db \<and> (\<forall>j\<in>shared_private u v db. str_le i j)"
  unfolding find_private_conv_def first_conv_Inr find_private_set ..

lemma find_private_conv_Inl: "find_private_conv u v db = Inl e \<longleftrightarrow> shared_private u v db = {} \<and> e = RecordNotFound"
  unfolding find_private_conv_def first_conv_Inl find_private_set ..

lemma private_frame: "conv_frame db db' \<Longrightarrow> is_private_conv k db' \<longleftrightarrow> is_private_conv k db"
  using conv_frame_Some [of db db' k] conv_frame_Some1 [of db db' k] conv_frame_dom [of db db' k]
  by (cases "convs db k") (auto simp: is_private_conv_def conv_step_def)

lemma shared_private_frame: "conv_frame db db' \<Longrightarrow> shared_private u v db' = shared_private u v db"
  using private_frame [of db db'] by (auto simp: shared_private_def has_member_def conv_frame_def)

lemma new_members_has:
  assumes "(u, r) \<in> set us"
  shows "\<exists>m\<in>set (fst (new_members env cid us db)). cm_conv m = cid \<and> cm_user m = Some u"
proof -
  from assms obtain j where "j < length us" "us ! j = (u, r)" by (auto simp: in_set_conv_nth)
  then have "(next_id db + j, u, r) \<in> set (enumerate (next_id db) us)"
    by (simp add: in_set_enumerate_eq)
  then show ?thesis by (force simp: new_members_eq new_member_def)
qed

lemma private_checked:
  assumes "check_create env bots c req = Inr ()" "cr_type req = conv_private" "cr_peer req = Some p"
  shows "cr_bot req = None \<and> p \<noteq> cr_creator req"
  using assms by (auto simp: check_create_def rbind_eq_Inr ensure_eq_Inr split: if_splits option.splits)

text \<open>What a creation that found no private conversation adds.\<close>

lemma created_private:
  assumes inv: "chat_inv env db" and inj: "inj (fresh env)"
    and chk: "check_create env bots c req = Inr ()" "cr_type req = conv_private" "cr_peer req = Some p"
    and none: "find_private req db = Inl RecordNotFound"
    and rows: "create_rows env req db = (conv, ms, cb, db0)" and tx: "create_tx env req conv ms cb db0 = Inr (i, db')"
  shows "shared_private (cr_creator req) p db' = {i}"
proof -
  let ?u = "cr_creator req" and ?cid = "fresh env (next_id db)" and ?db1 = "db\<lparr>next_id := Suc (next_id db)\<rparr>"
  note pc = private_checked [OF chk]
  have empty: "shared_private ?u p db = {}" using none pc chk(3) by (simp add: find_private_def find_private_conv_Inl)
  from create_rows_frame [OF rows] obtain n where n: "db0 = db\<lparr>next_id := n\<rparr>" "next_id db < n"
    "ms = fst (new_members env ?cid (create_roles req) ?db1)" "conv = create_row env req ?cid (int (length ms))" by blast
  have cid: "c_id conv = ?cid" by (simp add: n(4) create_row_def)
  have "find_private req db0 = find_private req db"
    using pc chk(3) by (simp add: find_private_def find_private_conv_def is_private_conv_def n(1))
  with none have nf: "find_private req db0 = Inl RecordNotFound" by simp
  from tx show ?thesis
  proof (cases rule: create_tx_Inr)
    case 1
    with nf show ?thesis by simp
  next
    case (2 dba dbb dbc)
    have ins: "dba = db0\<lparr>convs := (convs db0)(?cid \<mapsto> conv)\<rparr>" "convs db0 ?cid = None"
      using 2(3) by (auto simp: insert_conversation_def cid split: if_splits)
    have bc: "members dbc = members db @ ms" "convs dbc = (convs db)(?cid \<mapsto> conv)"
      using 2(4) insert_binding_frame [OF 2(5)] by (simp_all add: insert_members_Inr ins(1) n(1))
    have convms: "cm_conv m = ?cid" if "m \<in> set ms" for m
      using new_members_set [OF that [unfolded n(3)]] by (auto simp: new_member_def)
    have mem: "members db' = members dbc" by (rule change_members [OF 2(6)])
    have priv: "is_private_conv k db' \<longleftrightarrow> is_private_conv k dbc" for k
    proof -
      obtain d1 where "d1 = dbc \<or> (\<exists>ch. publish_inbox_change env ch dbc = Inr d1)"
        "db' = d1 \<or> (\<exists>ch. publish_inbox_change env ch d1 = Inr db')"
        using 2(6) by (auto simp: publish_conversation_change_Inr Let_def split: if_splits)
      then have "conv_frame dbc d1" "conv_frame d1 db'" by (auto dest: publish_conv_frame)
      then show ?thesis using conv_frame_trans private_frame by blast
    qed
    have "?cid \<in> shared_private ?u p db'"
    proof -
      have r: "(?u, owner_role) \<in> set (create_roles req)" "(p, member_role) \<in> set (create_roles req)"
        using chk(3) pc by (auto simp: create_roles_def)
      have "is_private_conv ?cid dbc" using chk(2) by (simp add: is_private_conv_def bc(2) n(4) create_row_def)
      moreover have "has_member ?cid ?u db'" "has_member ?cid p db'"
        using new_members_has [OF r(1), of env ?cid ?db1] new_members_has [OF r(2), of env ?cid ?db1]
        by (auto simp: has_member_def mem bc(1) n(3))
      ultimately show ?thesis by (simp add: shared_private_def priv)
    qed
    moreover have "k = ?cid" if k: "k \<in> shared_private ?u p db'" for k
    proof (rule ccontr)
      assume ne: "k \<noteq> ?cid"
      have k': "is_private_conv k db'" "has_member k ?u db'" "has_member k p db'"
        using k unfolding shared_private_def by blast+
      have "is_private_conv k dbc" using k'(1) priv by blast
      then have "is_private_conv k db" using ne by (simp add: is_private_conv_def bc(2))
      moreover have old: "has_member k w db" if "has_member k w db'" for w
      proof -
        from that obtain m where m: "m \<in> set (members db @ ms)" "cm_conv m = k" "cm_user m = Some w"
          unfolding has_member_def mem bc(1) by blast
        then have "m \<in> set (members db)" using ne convms [of m] by auto
        with m show ?thesis by (auto simp: has_member_def)
      qed
      ultimately have "k \<in> shared_private ?u p db"
        unfolding shared_private_def using old [OF k'(2)] old [OF k'(3)] by blast
      with empty show False by simp
    qed
    ultimately have "shared_private ?u p db' = {?cid}" by blast
    then show ?thesis using 2(1) cid by simp
  qed
qed

text \<open>
  C39: two users have one private conversation. Once either of them has created it, every later
  well-formed request of either for a private conversation with the other, with any clock and
  configuration, returns that conversation and changes nothing.
\<close>

theorem private_conversation_unique:
  assumes inv: "chat_inv env db" and inj: "inj (fresh env)"
    and run: "create_conversation env bots c req db = Inr (i, db')"
    and req: "cr_type req = conv_private" "cr_peer req = Some p"
    and again: "cr_type req2 = conv_private" "(cr_creator req2, cr_peer req2) \<in> {(cr_creator req, Some p), (p, Some (cr_creator req))}"
      "check_create env2 bots2 c2 req2 = Inr ()"
  shows "is_private_conv i db' \<and> has_member i (cr_creator req) db' \<and> has_member i p db' \<and>
    create_conversation env2 bots2 c2 req2 db' = Inr (i, db')"
proof -
  have i: "find_private_conv (cr_creator req) p db' = Inr i"
    using run
  proof (cases rule: create_conversation_Inr)
    case 1
    with private_checked [OF 1(4) req] req show ?thesis by (simp add: find_private_def)
  next
    case (2 conv ms cb db0)
    from created_private [OF inv inj 2(1) req _ 2(3,4)] 2(2) req(1)
    show ?thesis by (simp add: find_private_conv_Inr)
  qed
  obtain q where q: "cr_peer req2 = Some q" using again(2) by auto
  have "find_private req2 db' = find_private_conv (cr_creator req2) q db'"
    using private_checked [OF again(3,1) q] q by (simp add: find_private_def)
  also have "\<dots> = Inr i"
    using i again(2) q shared_private_sym [of "cr_creator req" p db'] by (auto simp: find_private_conv_Inr)
  finally have "create_conversation env2 bots2 c2 req2 db' = Inr (i, db')"
    using again(1,3) by (simp add: create_conversation_def)
  with i show ?thesis by (auto simp: find_private_conv_Inr shared_private_def)
qed

definition demo_private :: "string \<Rightarrow> string \<Rightarrow> create_req" where
  "demo_private u v = \<lparr>cr_creator = u, cr_type = conv_private, cr_name = None, cr_avatar = None, cr_peer = Some v,
     cr_bot = None, cr_members = []\<rparr>"

lemma demo_private_ok: "is_ok (create_conversation demo_env (\<lambda>_. None) (demo_caller ''u1'') (demo_private ''u1'' ''u3'') demo_db)"
  "check_create demo_env (\<lambda>_. None) (demo_caller ''u3'') (demo_private ''u3'' ''u1'') = Inr ()"
  by code_simp+

theorem private_conversation_unique_witness:
  "\<exists>i db'. create_conversation demo_env (\<lambda>_. None) (demo_caller ''u1'') (demo_private ''u1'' ''u3'') demo_db = Inr (i, db') \<and>
     create_conversation demo_env (\<lambda>_. None) (demo_caller ''u3'') (demo_private ''u3'' ''u1'') db' = Inr (i, db')"
proof -
  obtain i db' where r: "create_conversation demo_env (\<lambda>_. None) (demo_caller ''u1'') (demo_private ''u1'' ''u3'') demo_db = Inr (i, db')"
    using demo_private_ok(1) unfolding is_ok_iff by auto
  from private_conversation_unique [OF demo_chat_inv _ r, of "''u3''" "demo_private ''u3'' ''u1''"] demo_private_ok(2)
  have "create_conversation demo_env (\<lambda>_. None) (demo_caller ''u3'') (demo_private ''u3'' ''u1'') db' = Inr (i, db')"
    by (simp add: inj_demo_fresh) (simp add: demo_private_def)
  with r show ?thesis by blast
qed

section \<open>The member limit\<close>

definition within_limit :: "int \<Rightarrow> msg_db \<Rightarrow> bool" where
  "within_limit n db \<longleftrightarrow> (\<forall>k. human_count k db \<le> n)"

lemma within_same: "members db' = members db \<Longrightarrow> within_limit n db \<Longrightarrow> within_limit n db'"
  by (simp add: within_limit_def human_count_def)

lemma within_subset:
  assumes "within_limit n db" "\<And>k. length (filter (is_human_member k) (members db')) \<le> length (filter (is_human_member k) (members db))"
  shows "within_limit n db'"
  unfolding within_limit_def human_count_def
proof
  fix k
  have "int (length (filter (is_human_member k) (members db'))) \<le> int (length (filter (is_human_member k) (members db)))"
    using assms(2) by simp
  also have "\<dots> \<le> n" using assms(1) by (simp add: within_limit_def human_count_def)
  finally show "int (length (filter (is_human_member k) (members db'))) \<le> n" .
qed

lemma length_filter_filter: "length (filter Q (filter P xs)) \<le> length (filter Q xs)"
  by (induction xs) auto

lemma within_filter: "members db' = filter P (members db) \<Longrightarrow> within_limit n db \<Longrightarrow> within_limit n db'"
  using within_subset [of n db db'] length_filter_filter [of _ P "members db"] by simp

lemma within_upd:
  assumes "within_limit n db" "members db' = members (upd_members cid v f db)"
    "\<And>m. cm_conv (f m) = cm_conv m" "\<And>m. cm_type (f m) = cm_type m"
  shows "within_limit n db'"
  using assms(1)
proof (rule within_subset)
  fix k
  show "length (filter (is_human_member k) (members db')) \<le> length (filter (is_human_member k) (members db))"
    unfolding assms(2) by (simp add: upd_members_def count_filter_update_same is_human_member_def assms(3,4))
qed

lemma within_append:
  assumes "within_limit n db" "members db' = members db @ ms" "\<forall>m\<in>set ms. cm_conv m = cid"
    "int (length (filter (is_human_member cid) (members db)) + length ms) \<le> n"
  shows "within_limit n db'"
  unfolding within_limit_def human_count_def
proof
  fix k
  show "int (length (filter (is_human_member k) (members db'))) \<le> n"
  proof (cases "k = cid")
    case True
    have "length (filter (is_human_member k) (members db')) \<le> length (filter (is_human_member k) (members db)) + length ms"
      by (simp add: assms(2) add_left_mono)
    with assms(4) show ?thesis unfolding True by linarith
  next
    case False
    then have "filter (is_human_member k) ms = []"
      using assms(3) by (auto simp: is_human_member_def filter_empty_conv)
    with assms(1) show ?thesis by (simp add: assms(2) within_limit_def human_count_def)
  qed
qed

lemma add_members_within:
  assumes run: "add_members env c operator cid users db = Inr (r, sys, db')" and w: "within_limit (max_members env) db"
  shows "within_limit (max_members env) db'"
proof -
  let ?us = "map (\<lambda>u. (u, member_role)) users"
  obtain ms db0 where nm: "new_members env cid ?us db = (ms, db0)" by (cases "new_members env cid ?us db")
  from add_members_Inr [OF run nm] obtain added failed db1
    where lim: "add_members_within_limit env cid ms db0 = Inr (added, failed, db1)"
    and rest: "if added = [] then db' = db1
      else \<exists>db2. rfold (joined_activity env cid operator) added db1 = Inr db2 \<and>
        publish_conversation_change env cid None [] db2 = Inr db'"
    by metis
  have m0: "members db0 = members db" using nm by (auto simp: new_members_eq)
  have "within_limit (max_members env) db1"
    using add_within_limit_Inr [OF lim]
  proof (elim disjE exE conjE)
    assume "db1 = db0"
    with m0 w show ?thesis by (simp add: within_same)
  next
    fix pending
    assume p: "\<forall>m\<in>set pending. cm_conv m = cid"
      "int (length (filter (is_human_member cid) (members db0)) + length pending) \<le> max_members env"
      "db1 = upd_conv cid (\<lambda>c. c\<lparr>c_member_count := c_member_count c + int (length pending), c_updated := now env\<rparr>)
         (db0\<lparr>members := members db0 @ pending\<rparr>)"
    have "members db1 = members db @ pending" by (simp add: p(3) upd_conv_def m0)
    with w show ?thesis by (rule within_append) (use p(1,2) m0 in simp_all)
  qed
  moreover have "members db' = members db1"
    using rest joined_members change_members by (auto split: if_splits)
  ultimately show ?thesis by (simp add: within_same)
qed

lemma create_within:
  assumes run: "create_conversation env bots c req db = Inr (i, db')" and st: "store env db"
    and pos: "0 < max_members env" and w: "within_limit (max_members env) db"
  shows "within_limit (max_members env) db'"
  using run
proof (cases rule: create_conversation_Inr)
  case (2 conv ms cb db0)
  let ?cid = "fresh env (next_id db)"
  from create_rows_frame [OF 2(3)] obtain n where n: "db0 = db\<lparr>next_id := n\<rparr>"
    "ms = fst (new_members env ?cid (create_roles req) (db\<lparr>next_id := Suc (next_id db)\<rparr>))"
    "conv = create_row env req ?cid (int (length ms))" by blast
  from 2(4) show ?thesis
  proof (cases rule: create_tx_Inr)
    case 1
    with n(1) w show ?thesis by (simp add: within_same)
  next
    case (2 dba dbb dbc)
    have ins: "dba = db0\<lparr>convs := (convs db0)(?cid \<mapsto> conv)\<rparr>" "convs db0 ?cid = None"
      using 2(3) n(3) by (auto simp: insert_conversation_def create_row_def split: if_splits)
    have mem: "members db' = members db @ ms"
      using 2(4) insert_binding_frame [OF 2(5)] change_members [OF 2(6)] by (simp add: insert_members_Inr ins(1) n(1))
    have "convs db ?cid = None" using ins(2) n(1) by simp
    have "\<not> is_human_member ?cid m" if "m \<in> set (members db)" for m
      using store_membersD(3) [OF st that] \<open>convs db ?cid = None\<close> by (auto simp: is_human_member_def member_ok_def)
    then have none: "filter (is_human_member ?cid) (members db) = []" by (simp add: filter_empty_conv)
    have "\<forall>m\<in>set ms. cm_conv m = ?cid"
    proof
      fix m assume "m \<in> set ms"
      from new_members_set [OF this [unfolded n(2)]] show "cm_conv m = ?cid" by (auto simp: new_member_def)
    qed
    with w mem show ?thesis
      by (rule within_append) (use none 2(2) [OF pos] in simp)
  qed
qed (use w in simp)

lemma remove_members_within:
  assumes "store env db" "counts_ok db" "inj (fresh env)" "remove_members env c u cid us db = Inr (sys, db')" "within_limit n db"
  shows "within_limit n db'"
  using assms(1-4) by (rule remove_members_rows) (rule within_filter [OF _ assms(5)])

lemma transfer_owner_within:
  assumes run: "transfer_owner env c u cid v db = Inr (sys, db')" and w: "within_limit n db"
  shows "within_limit n db'"
  using run
proof (rule transfer_owner_Inr)
  assume rest: "if v = u then db' = db
     else publish_conversation_change env cid None [] (new_owner_db env cid v u db) = Inr db'"
  show ?thesis
  proof (cases "v = u")
    case True
    with rest w show ?thesis by simp
  next
    case False
    have "within_limit n (update_conversation_owner env cid v db)"
      using w by (rule within_same [rotated]) (simp add: update_conversation_owner_def upd_conv_def)
    then have w1: "within_limit n (update_member_role cid v owner_role (update_conversation_owner env cid v db))"
      unfolding update_member_role_def by (rule within_upd [OF _ refl]) simp_all
    have w2: "within_limit n (new_owner_db env cid v u db)"
      unfolding new_owner_db_def update_member_role_def [of cid u]
      by (rule within_upd [OF w1 refl]) simp_all
    have "publish_conversation_change env cid None [] (new_owner_db env cid v u db) = Inr db'" using rest False by simp
    from within_same [OF change_members [OF this] w2] show ?thesis .
  qed
qed

lemma update_member_within:
  assumes run: "update_member env c u cid v r a db = Inr (sys, db')" and w: "within_limit n db"
  shows "within_limit n db'"
  using run
proof (rule update_member_Inr)
  fix m2 :: conv_member
  assume pub: "publish_conversation_change env cid None []
       (upd_members cid v (\<lambda>x. x\<lparr>cm_role := cm_role m2, cm_alias := cm_alias m2\<rparr>) db) = Inr db'"
  show ?thesis by (rule within_upd [OF w change_members [OF pub]]) simp_all
qed

lemma mute_within:
  "mute_member env c u cid v d db = Inr (sys, db') \<Longrightarrow> within_limit n db \<Longrightarrow> within_limit n db'"
  by (drule mute_member_Inr, elim conjE, drule change_members, simp only: repo_mute_member_def, rule within_upd, assumption, assumption) simp_all

lemma unmute_within:
  "unmute_member env c u cid v db = Inr (sys, db') \<Longrightarrow> within_limit n db \<Longrightarrow> within_limit n db'"
  by (drule unmute_member_Inr, elim conjE, drule change_members, simp only: repo_unmute_member_def, rule within_upd, assumption, assumption) simp_all

lemma delete_conversation_within:
  assumes run: "delete_conversation env c u cid db = Inr (sys, db')" and w: "within_limit n db"
  shows "within_limit n db'"
  using run
proof (rule delete_conversation_Inr)
  fix conv d
  assume pub: "publish_conversation_change env cid (Some []) (member_ids cid db) (delete_children env cid db) = Inr d"
    and db': "db' = delete_conversation_row cid d"
  have "members db' = filter (\<lambda>m. cm_conv m \<noteq> cid) (members db)"
    using change_members [OF pub] by (simp add: db' delete_conversation_row_def delete_children_def)
  then show ?thesis using w by (rule within_filter)
qed

lemma run_conv_op_within:
  assumes run: "run_conv_op env bots c op db = Inr db'" and inv: "chat_inv env db" and inj: "inj (fresh env)"
    and pos: "0 < max_members env" and w: "within_limit (max_members env) db"
  shows "within_limit (max_members env) db'"
proof (cases "touches_members op")
  case False
  from within_same [OF same_members_ops [OF run this] w] show ?thesis .
next
  case True
  then show ?thesis
  proof (cases op)
    case (Op_Create req)
    from run [unfolded Op_Create run_conv_op.simps rbind_eq_Inr] obtain i
      where r: "create_conversation env bots c req db = Inr (i, db')" by auto
    from create_within [OF r chat_store(1) [OF inv] pos w] show ?thesis .
  next
    case (Op_Add_Members u cid us)
    from run [unfolded Op_Add_Members run_conv_op.simps rbind_eq_Inr] obtain r sys
      where "add_members env c u cid us db = Inr (r, sys, db')" by auto
    from add_members_within [OF this w] show ?thesis .
  next
    case (Op_Remove_Members u cid us)
    from run [unfolded Op_Remove_Members run_conv_op.simps new_store_Inr] obtain sys
      where "remove_members env c u cid us db = Inr (sys, db')" by blast
    from remove_members_within [OF chat_store [OF inv] inj this w] show ?thesis .
  next
    case (Op_Transfer_Owner u cid v)
    from run [unfolded Op_Transfer_Owner run_conv_op.simps new_store_Inr] w show ?thesis
      by (blast intro: transfer_owner_within)
  next
    case (Op_Update_Member u cid v r a)
    from run [unfolded Op_Update_Member run_conv_op.simps new_store_Inr] w show ?thesis
      by (blast intro: update_member_within)
  next
    case (Op_Mute_Member u cid v d)
    from run [unfolded Op_Mute_Member run_conv_op.simps new_store_Inr] w show ?thesis by (blast intro: mute_within)
  next
    case (Op_Unmute_Member u cid v)
    from run [unfolded Op_Unmute_Member run_conv_op.simps new_store_Inr] w show ?thesis by (blast intro: unmute_within)
  next
    case (Op_Delete_Conversation u cid)
    from run [unfolded Op_Delete_Conversation run_conv_op.simps new_store_Inr] w show ?thesis
      by (blast intro: delete_conversation_within)
  qed simp_all
qed

definition bounded_op :: "(nat \<Rightarrow> string) \<Rightarrow> int \<Rightarrow> chat_op \<Rightarrow> bool" where
  "bounded_op ids n op \<longleftrightarrow> chat_supply ids op \<and> max_members (op_env op) = n \<and> 0 < n"

interpretation bounded: op_system run_chat_op "bounded_op ids n" "\<lambda>db. chat_inv (id_env ids) db \<and> within_limit n db"
proof
  fix op s t
  assume a: "bounded_op ids n op" "chat_inv (id_env ids) s \<and> within_limit n s" "run_chat_op op s = Inr t"
  then have sup: "fresh (op_env op) = ids" "inj ids" "max_members (op_env op) = n" "0 < n"
    by (simp_all add: bounded_op_def chat_supply_def)
  have eq: "chat_inv (op_env op) d = chat_inv (id_env ids) d" for d
    by (rule chat_inv_supply) (simp add: id_env_def sup)
  have "chat_inv (id_env ids) t" using run_chat_op_inv [of op s t] a sup by (simp add: eq)
  moreover have "within_limit n t"
  proof (cases op)
    case (Msg_Op env m)
    with a(2) have "db_inv env s" using eq [of s] by (simp add: chat_inv_def)
    then have "conv_frame s t" using a(3) Msg_Op by (intro run_msg_op_frame [of env s m t]) simp_all
    then have "members t = members s" by (simp add: conv_frame_def)
    with a(2) show ?thesis by (simp add: within_same)
  next
    case (Conv_Op env bots c o')
    with a sup eq [of s] show ?thesis using run_conv_op_within [of env bots c o' s t] by simp
  qed
  ultimately show "chat_inv (id_env ids) t \<and> within_limit n t" by blast
qed

text \<open>
  C40: no conversation outgrows the configured limit. If every conversation of a consistent store has
  at most the limit's members and all requests run under that (positive) limit, then after any
  sequence of message and conversation requests the stored member count of every conversation is
  still at most the limit.
\<close>

theorem member_limit_kept:
  assumes "chat_inv env db" "inj (fresh env)" "0 < max_members env" "within_limit (max_members env) db"
    and "\<forall>op\<in>set ops. fresh (op_env op) = fresh env \<and> max_members (op_env op) = max_members env"
    and "convs (run_ops run_chat_op ops db) cid = Some conv"
  shows "c_member_count conv \<le> max_members env"
proof -
  have eq: "chat_inv (id_env (fresh env)) d = chat_inv env d" for d
    by (rule chat_inv_supply) (simp add: id_env_def)
  have "list_all (bounded_op (fresh env) (max_members env)) ops"
    using assms by (simp add: list_all_iff bounded_op_def chat_supply_def)
  from bounded.run_ops_inv [OF this] assms(1,4)
  have "chat_inv env (run_ops run_chat_op ops db)" "within_limit (max_members env) (run_ops run_chat_op ops db)"
    unfolding eq by blast+
  with assms(6) show ?thesis by (simp add: chat_inv_def conv_inv_def counts_ok_def within_limit_def)
qed

lemma demo_within: "within_limit (max_members demo_env) demo_db"
  unfolding within_limit_def
proof
  fix k
  have "human_count k demo_db \<le> int (length (members demo_db))" by (simp add: human_count_def)
  also have "\<dots> = 5" by (simp add: demo_db_def)
  finally show "human_count k demo_db \<le> max_members demo_env" by (simp add: demo_env_def)
qed

theorem member_limit_kept_witness:
  "\<exists>conv. convs demo_db ''c2'' = Some conv \<and> c_member_count conv \<le> 500 \<and> c_member_count conv = 3"
proof -
  have c: "convs (run_ops run_chat_op [] demo_db) ''c2'' = Some (demo_conv ''c2'' conv_group (Some ''u1'') 3)"
    by (simp add: demo_db_def)
  from member_limit_kept [OF demo_chat_inv _ _ demo_within _ c] have "c_member_count (demo_conv ''c2'' conv_group (Some ''u1'') 3) \<le> 500"
    by (simp add: inj_demo_fresh) (simp add: demo_env_def)
  with c show ?thesis by (simp add: demo_conv_def)
qed

section \<open>Two gaps\<close>

text \<open>
  \<open>RemoveMembers\<close> checks no role when a user removes itself: the owner can leave a group, which then
  has no owner, and neither a transfer nor a deletion can succeed. A mute whose duration overflows the
  clock is no mute.
\<close>

lemma owner_may_leave:
  "case new_store (remove_members demo_env (demo_caller ''u1'') ''u1'' ''c2'' [''u1''] demo_db) of
     Inl _ \<Rightarrow> False
   | Inr db \<Rightarrow> list_all (\<lambda>m. cm_conv m = ''c2'' \<longrightarrow> cm_role m \<noteq> owner_role) (members db) \<and>
       map_option c_owner (convs db ''c2'') = Some (Some ''u1'') \<and>
       \<not> is_ok (transfer_owner demo_env (demo_caller ''u2'') ''u2'' ''c2'' ''u2'' db) \<and>
       \<not> is_ok (delete_conversation demo_env (demo_caller ''u2'') ''u2'' ''c2'' db)"
  by code_simp

lemma muted_row:
  assumes "m \<in> set (members (repo_mute_member cid v t db))" "cm_conv m = cid" "cm_user m = Some v"
  shows "cm_muted m \<and> cm_mute_until m = t"
proof -
  define f where "f = (\<lambda>x :: conv_member. if cm_conv x = cid \<and> cm_user x = Some v then x\<lparr>cm_muted := True, cm_mute_until := t\<rparr> else x)"
  have "members (repo_mute_member cid v t db) = map f (members db)"
    by (simp add: repo_mute_member_def upd_members_def update_where_def f_def)
  then obtain x where "m = f x" using assms(1) by auto
  then have x: "m = (if cm_conv x = cid \<and> cm_user x = Some v then x\<lparr>cm_muted := True, cm_mute_until := t\<rparr> else x)"
    by (simp only: f_def)
  then have "cm_conv x = cid \<and> cm_user x = Some v" using assms(2,3) by (simp split: if_splits)
  with x show ?thesis by simp
qed

lemma wrap64_past:
  assumes "0 < t" "t < 2 ^ 62"
  shows "wrap64 (t + (2 ^ 63 - 1)) = t - 1 - 2 ^ 63"
proof -
  have "t + (2 ^ 63 - 1) + 2 ^ 63 = (t - 1) + 2 ^ 64" by simp
  moreover have "((t - 1) + 2 ^ 64) mod 2 ^ 64 = (t - 1) mod 2 ^ 64" by (rule mod_add_self2)
  moreover have "(t - 1) mod 2 ^ 64 = t - 1" using assms by (intro mod_pos_pos_trivial) simp_all
  ultimately show ?thesis unfolding wrap64_def by presburger
qed

lemma mute_overflow:
  assumes "m \<in> set (members (repo_mute_member cid v (wrap64 (unix (now env) + (2 ^ 63 - 1))) db))"
    "cm_conv m = cid" "cm_user m = Some v" "0 < unix (now env)" "unix (now env) < 2 ^ 62" "\<not> c_muted_all c"
  shows "cm_muted m \<and> \<not> is_muted env c m"
proof -
  have "cm_muted m" "cm_mute_until m = unix (now env) - 1 - 2 ^ 63"
    using muted_row [OF assms(1-3)] wrap64_past [OF assms(4,5)] by simp_all
  moreover have "unix (now env) - 1 - 2 ^ 63 < 0" using assms(5) by simp
  ultimately show ?thesis using assms(4,6) unfolding is_muted_def by linarith
qed

end
