(* ===== verification/Change_Props.thy ===== *)
theory Change_Props
  imports Submission
begin

text \<open>
  The properties of the operations that change an existing message: what an edit, a recall and
  both kinds of deletion do to the rows, whom they tell, and who may ask for them.
\<close>

section \<open>Shared facts\<close>

lemma lock_read:
  assumes "db_inv env' db" "get_by_id mid db = Inr m"
    "lock_mutable_message env (m_conv m) (m_id m) uid db = Inr cur"
  shows "cur = m \<and> m \<in> set (msgs db) \<and> m_id m = mid \<and> m_sender m = Some uid"
proof -
  have "cur = m" using assms by (auto simp: lock_mutable_message_Inr intro: locked_is_read)
  then show ?thesis using assms get_by_id_Inr by (auto simp: lock_mutable_message_Inr)
qed

text \<open>A member is a human member row of the conversation.\<close>

lemma permission_member:
  assumes "check_send_permission env cid uid db = Inr p" "sp_is_member p"
  shows "\<exists>x\<in>set (members db). human_of cid uid x"
proof (cases "find (human_of cid uid) (members db)")
  case None
  then have "find_member cid uid db = Inl RecordNotFound"
    by (simp add: find_member_cases human_of_def [abs_def])
  then show ?thesis using assms by (auto simp: check_send_permission_def rbind_eq_Inr)
next
  case (Some x)
  then show ?thesis using find_SomeD by metis
qed

lemma change_payload_simps [simp]:
  "ch_kind (change_payload kind m) = kind" "ch_conv (change_payload kind m) = m_conv m"
  "ch_message (change_payload kind m) = Some (m_id m)" "ch_recipients (change_payload kind m) = None"
  "ch_user (change_payload kind m) = m_sender m" "ch_seq (change_payload kind m) = m_seq m"
  "ch_content (change_payload kind m) = (if m_status m = status_recalled then Some [] else m_content m)"
  "ch_delete_for_all (change_payload kind m) \<longleftrightarrow> kind = kind_deleted"
  by (simp_all add: change_payload_def Let_def build_message_created_payload_def no_change_def)

text \<open>What the publication of a change leaves: its conversation's row, its event and nothing else.\<close>

definition changed_conv :: "env \<Rightarrow> message \<Rightarrow> string option \<times> string \<Rightarrow> conversation \<Rightarrow> conversation" where
  "changed_conv env m tail c =
     c\<lparr>c_pub_seq := c_pub_seq c + 1,
       c_last_msg := (if c_last_msg c = Some (m_id m) then fst tail else c_last_msg c),
       c_last_preview := (if c_last_msg c = Some (m_id m) then snd tail else c_last_preview c), c_updated := now env\<rparr>"

definition change_event :: "string \<Rightarrow> message \<Rightarrow> string list \<Rightarrow> change \<Rightarrow> bool" where
  "change_event kind m recipients ch \<longleftrightarrow>
     ch_kind ch = kind \<and> ch_conv ch = m_conv m \<and> ch_message ch = Some (m_id m) \<and> ch_user ch = m_sender m \<and>
     ch_seq ch = m_seq m \<and> ch_status ch = m_status m \<and> ch_edit_count ch = m_edit_count m \<and>
     ch_content ch = (if m_status m = status_recalled then Some [] else m_content m) \<and>
     ch_preview ch = (if m_status m = status_recalled then preview_recalled else message_preview (m_type m) (m_content m)) \<and>
     ch_delete_for_all ch = (kind = kind_deleted) \<and> ch_recipients ch = Some recipients"

lemma publish_message_change_exact:
  assumes "publish_message_change env kind m db = Inr db'" "is_message_kind kind"
  obtains c e ch where "convs db (m_conv m) = Some c"
    and "db' = db\<lparr>convs := (convs db)(m_conv m \<mapsto> changed_conv env m (changed_tail kind m db) c),
           next_id := Suc (next_id db), outbox := outbox db @ [e]\<rparr>"
    and "o_conv e = m_conv m" "o_pub_seq e = c_pub_seq c + 1" "o_status e = outbox_pending" "o_payload e = Change ch"
    and "change_event kind m (member_ids (m_conv m) db) ch"
proof -
  from assms(1) obtain c where c: "convs db (m_conv m) = Some c"
    and p: "publish_inbox_change env (change_payload kind m) (refresh_tail env kind m c db) = Inr db'"
    by (auto simp: publish_message_change_Inr)
  define db1 where "db1 = refresh_tail env kind m c db"
  define e where "e = publication env (change_payload kind m) db1"
  obtain c1 where c1: "convs db1 (m_conv m) = Some c1"
    and db': "db' = db1\<lparr>convs := (convs db1)(m_conv m \<mapsto> c1\<lparr>c_pub_seq := c_pub_seq c1 + 1, c_updated := now env\<rparr>),
                 next_id := Suc (next_id db1), outbox := outbox db1 @ [e]\<rparr>"
    using p by (auto simp: publish_inbox_change_Inr db1_def e_def)
  have c1c: "c1\<lparr>c_pub_seq := c_pub_seq c1 + 1, c_updated := now env\<rparr> = changed_conv env m (changed_tail kind m db) c"
    "c_pub_seq c1 = c_pub_seq c"
    using c c1 by (auto simp: db1_def refresh_tail_convs changed_conv_def split: if_splits)
  have rest: "db1\<lparr>convs := f\<rparr> = db\<lparr>convs := f\<rparr>" for f
    by (simp add: db1_def refresh_tail_def upd_conv_def split: prod.split)
  have up: "(convs db1)(m_conv m \<mapsto> x) = (convs db)(m_conv m \<mapsto> x)" for x
    by (auto simp: db1_def refresh_tail_convs fun_eq_iff)
  show ?thesis
  proof (rule that [OF c])
    show "db' = db\<lparr>convs := (convs db)(m_conv m \<mapsto> changed_conv env m (changed_tail kind m db) c),
        next_id := Suc (next_id db), outbox := outbox db @ [e]\<rparr>"
      unfolding db' c1c(1) up rest by (simp add: db1_def)
    show "o_conv e = m_conv m" "o_status e = outbox_pending" by (simp_all add: e_def)
    show "o_pub_seq e = c_pub_seq c + 1" by (simp add: e_def cur_pub_def c1 c1c(2))
    have "member_ids (m_conv m) db1 = member_ids (m_conv m) db" by (simp add: member_ids_def db1_def)
    then show "change_event kind m (member_ids (m_conv m) db) (published_change env (change_payload kind m) db1)"
      using assms(2) by (auto simp: change_event_def published_change_def change_payload_def Let_def
          build_message_created_payload_def no_change_def is_message_kind_def)
    show "o_payload e = Change (published_change env (change_payload kind m) db1)" by (simp add: e_def)
  qed
qed

text \<open>Replacing the row of one message.\<close>

definition replace_row :: "message \<Rightarrow> message list \<Rightarrow> message list" where
  "replace_row m' ms = map (\<lambda>x. if m_id x = m_id m' then m' else x) ms"

lemma upd_msg_replace:
  assumes "db_inv env db" "m \<in> set (msgs db)" "m_id (f m) = m_id m"
  shows "msgs (upd_msg (m_id m) f db) = replace_row (f m) (msgs db)"
  using assms inv_unique_id [OF assms(1)] by (auto simp: upd_msg_def update_where_def replace_row_def)

lemma upd_msg_row:
  assumes "db_inv env db" "m \<in> set (msgs db)" "m_id (f m) = m_id m" "d = upd_msg (m_id m) f db" "m' = f m"
  shows "d = db\<lparr>msgs := replace_row m' (msgs db)\<rparr>"
  using upd_msg_replace [OF assms(1,2), of f] assms(3-5) by (simp add: upd_msg_def)

section \<open>Edits\<close>

text \<open>
  C27: an edit replaces the text and keeps the history. A successful edit was asked for by the
  message's own sender, still a member of its conversation, within the edit window, for a text
  message that is not recalled. It rewrites that row alone: the new content, the old content
  appended to the history, the count incremented, the status edited. It appends one change of
  kind edited with the new row's content to the members of that moment. Of its conversation it counts the
  publication and, when the message was the last one, replaces the preview by the new text's. Nothing
  else changes: no other conversation, and no other table.
\<close>

theorem edit_effect:
  assumes inv: "db_inv env db" and run: "edit_message env md req db = Inr db'"
  shows "\<exists>m m' body mentions all c e ch. m \<in> set (msgs db) \<and> m_id m = ed_message req \<and>
      ed_text req = Some (body, mentions, all) \<and> md = [ed_user req] \<and> m_sender m = Some (ed_user req) \<and>
      (\<exists>x\<in>set (members db). human_of (m_conv m) (ed_user req) x) \<and>
      now env - m_created m \<le> edit_window env * second \<and> m_type m = type_text \<and> m_status m \<noteq> status_recalled \<and>
      m' = m\<lparr>m_content := Some (text_content body mentions all), m_history := m_history m @ [m_content m],
          m_edit_count := m_edit_count m + 1, m_status := status_edited, m_updated := now env\<rparr> \<and>
      convs db (m_conv m) = Some c \<and>
      db' = db\<lparr>msgs := replace_row m' (msgs db),
        convs := (convs db)(m_conv m \<mapsto> changed_conv env m (Some (m_id m), message_preview type_text (m_content m')) c),
        next_id := Suc (next_id db), outbox := outbox db @ [e]\<rparr> \<and>
      o_conv e = m_conv m \<and> o_pub_seq e = c_pub_seq c + 1 \<and> o_status e = outbox_pending \<and> o_payload e = Change ch \<and>
      change_event kind_edited m' (member_ids (m_conv m) db) ch"
proof -
  from run obtain body ms all m where t: "ed_text req = Some (body, ms, all)"
    and caller: "caller_user_id env md = ed_user req" "ed_user req \<noteq> []"
    and m: "get_by_id (ed_message req) db = Inr m" "\<not> expired env (edit_window env) m" "m_type m = type_text"
    and tx: "edit_tx env m (ed_user req) (text_content body ms all) db = Inr db'"
    by (auto simp: edit_message_Inr)
  let ?m' = "edited_message env (text_content body ms all) m"
  from tx obtain cur where lock: "lock_mutable_message env (m_conv m) (m_id m) (ed_user req) db = Inr cur"
    and st: "m_status cur \<noteq> status_recalled"
    and pub: "publish_message_change env kind_edited (edited_message env (text_content body ms all) cur)
          (update_content_with_tx env (m_id cur) (text_content body ms all)
             (m_history (edited_message env (text_content body ms all) cur))
             (m_edit_count (edited_message env (text_content body ms all) cur)) db) = Inr db'"
    by (auto simp: edit_tx_Inr)
  note r = lock_read [OF inv m(1) lock]
  have mem: "\<exists>x\<in>set (members db). human_of (m_conv m) (ed_user req) x"
    using lock permission_member by (auto simp: lock_mutable_message_Inr)
  have e: "m_conv ?m' = m_conv m" "m_id ?m' = m_id m" "m_content ?m' = Some (text_content body ms all)" "m_type ?m' = type_text"
    "?m' = m\<lparr>m_content := Some (text_content body ms all), m_history := m_history m @ [m_content m],
        m_edit_count := m_edit_count m + 1, m_status := status_edited, m_updated := now env\<rparr>"
    using m(3) by (simp_all add: edited_message_def)
  have rows: "update_content_with_tx env (m_id m) (text_content body ms all) (m_history ?m') (m_edit_count ?m') db =
      db\<lparr>msgs := replace_row ?m' (msgs db)\<rparr>"
    by (rule upd_msg_row [OF inv, where f = "\<lambda>x. x\<lparr>m_content := Some (text_content body ms all), m_history := m_history ?m',
        m_edit_count := m_edit_count ?m', m_status := status_edited, m_updated := now env\<rparr>" and m = m])
      (use r in \<open>simp_all add: update_content_with_tx_def edited_message_def\<close>)
  obtain c e ch where c: "convs (db\<lparr>msgs := replace_row ?m' (msgs db)\<rparr>) (m_conv ?m') = Some c"
    and d: "db' = db\<lparr>msgs := replace_row ?m' (msgs db), convs := (convs db)(m_conv m \<mapsto>
          changed_conv env ?m' (changed_tail kind_edited ?m' (db\<lparr>msgs := replace_row ?m' (msgs db)\<rparr>)) c),
        next_id := Suc (next_id db), outbox := outbox db @ [e]\<rparr>"
    and ev: "o_conv e = m_conv m" "o_pub_seq e = c_pub_seq c + 1" "o_status e = outbox_pending" "o_payload e = Change ch"
      "change_event kind_edited ?m' (member_ids (m_conv m) db) ch"
    using publish_message_change_exact [OF pub] r rows e by (auto simp: is_message_kind_def member_ids_def)
  have D: "db' = db\<lparr>msgs := replace_row ?m' (msgs db),
      convs := (convs db)(m_conv m \<mapsto> changed_conv env m (Some (m_id m), message_preview type_text (m_content ?m')) c),
      next_id := Suc (next_id db), outbox := outbox db @ [e]\<rparr>"
    using d by (simp add: changed_tail_def kind_defs e(2,4) changed_conv_def)
  have "md = [ed_user req]" using caller by (auto simp: caller_user_id_def split: list.splits if_splits)
  moreover have "m_status m \<noteq> status_recalled" "now env - m_created m \<le> edit_window env * second"
    using st r m(2) by (simp_all add: expired_def)
  moreover have "convs db (m_conv m) = Some c" using c by (simp add: e(1))
  ultimately show ?thesis using r t mem m(3) e(5) D ev by blast
qed

section \<open>Recalls\<close>

text \<open>
  C28: a recall withdraws the body. A successful recall was asked for by the message's own sender,
  still a member, within the recall window. A message already recalled stays as it is; otherwise
  that row alone becomes recalled (its content is kept in the store for the audit of its history), one
  change of kind recalled is published to the members of that moment, without the body, and where the
  message was the last of its conversation, the text of the conversation's preview is withdrawn too.
  Nothing else changes: no other conversation, and no other table.
\<close>

theorem recall_effect:
  assumes inv: "db_inv env db" and run: "recall_message env md req db = Inr db'"
  shows "\<exists>m. m \<in> set (msgs db) \<and> m_id m = rc_message req \<and> md = [rc_user req] \<and>
      m_sender m = Some (rc_user req) \<and>
      (\<exists>x\<in>set (members db). human_of (m_conv m) (rc_user req) x) \<and>
      now env - m_created m \<le> recall_window env * second \<and>
      (if m_status m = status_recalled then db' = db
       else \<exists>m' c e ch. m' = m\<lparr>m_status := status_recalled, m_updated := now env\<rparr> \<and> convs db (m_conv m) = Some c \<and>
          db' = db\<lparr>msgs := replace_row m' (msgs db),
            convs := (convs db)(m_conv m \<mapsto> changed_conv env m (Some (m_id m), preview_recalled) c),
            next_id := Suc (next_id db), outbox := outbox db @ [e]\<rparr> \<and>
          o_conv e = m_conv m \<and> o_pub_seq e = c_pub_seq c + 1 \<and> o_status e = outbox_pending \<and> o_payload e = Change ch \<and>
          change_event kind_recalled m' (member_ids (m_conv m) db) ch \<and> ch_content ch = Some [])"
proof -
  from run obtain m where caller: "caller_user_id env md = rc_user req" "rc_user req \<noteq> []"
    and m: "get_by_id (rc_message req) db = Inr m" "\<not> expired env (recall_window env) m"
    and tx: "recall_tx env m (rc_user req) db = Inr db'"
    by (auto simp: recall_message_Inr)
  from tx obtain cur where lock: "lock_mutable_message env (m_conv m) (m_id m) (rc_user req) db = Inr cur"
    and rest: "if m_status cur = status_recalled then db' = db
         else publish_message_change env kind_recalled
              (cur\<lparr>m_status := status_recalled, m_updated := now env\<rparr>)
              (update_status_with_tx env (m_id cur) status_recalled db) = Inr db'"
    by (auto simp: recall_tx_Inr)
  note r = lock_read [OF inv m(1) lock]
  let ?m' = "m\<lparr>m_status := status_recalled, m_updated := now env\<rparr>"
  have mem: "\<exists>x\<in>set (members db). human_of (m_conv m) (rc_user req) x"
    using lock permission_member by (auto simp: lock_mutable_message_Inr)
  have md: "md = [rc_user req]"
    using caller by (auto simp: caller_user_id_def split: list.splits if_splits)
  have rows: "update_status_with_tx env (m_id m) status_recalled db = db\<lparr>msgs := replace_row ?m' (msgs db)\<rparr>"
    by (rule upd_msg_row [OF inv, where f = "\<lambda>x. x\<lparr>m_status := status_recalled, m_updated := now env\<rparr>" and m = m])
      (use r in \<open>simp_all add: update_status_with_tx_def\<close>)
  have change: "\<exists>m' c e ch. m' = ?m' \<and> convs db (m_conv m) = Some c \<and>
      db' = db\<lparr>msgs := replace_row m' (msgs db),
        convs := (convs db)(m_conv m \<mapsto> changed_conv env m (Some (m_id m), preview_recalled) c),
        next_id := Suc (next_id db), outbox := outbox db @ [e]\<rparr> \<and>
      o_conv e = m_conv m \<and> o_pub_seq e = c_pub_seq c + 1 \<and> o_status e = outbox_pending \<and> o_payload e = Change ch \<and>
      change_event kind_recalled m' (member_ids (m_conv m) db) ch \<and> ch_content ch = Some []" if live: "m_status m \<noteq> status_recalled"
  proof -
    have pub: "publish_message_change env kind_recalled ?m' (db\<lparr>msgs := replace_row ?m' (msgs db)\<rparr>) = Inr db'"
      using rest r live rows by simp
    obtain c e ch where "convs db (m_conv m) = Some c"
      and "db' = db\<lparr>msgs := replace_row ?m' (msgs db), convs := (convs db)(m_conv m \<mapsto>
            changed_conv env ?m' (changed_tail kind_recalled ?m' (db\<lparr>msgs := replace_row ?m' (msgs db)\<rparr>)) c),
          next_id := Suc (next_id db), outbox := outbox db @ [e]\<rparr>"
      and "o_conv e = m_conv m" "o_pub_seq e = c_pub_seq c + 1" "o_status e = outbox_pending" "o_payload e = Change ch"
        "change_event kind_recalled ?m' (member_ids (m_conv m) db) ch"
      using publish_message_change_exact [OF pub] by (auto simp: is_message_kind_def member_ids_def)
    moreover have "changed_conv env ?m' (changed_tail kind_recalled ?m' d) c = changed_conv env m (Some (m_id m), preview_recalled) c" for d
      by (simp add: changed_tail_def changed_conv_def)
    moreover have "ch_content ch = Some []" using calculation(7) by (simp add: change_event_def)
    ultimately show ?thesis by auto
  qed
  have "now env - m_created m \<le> recall_window env * second" using m(2) by (simp add: expired_def)
  then show ?thesis using r md mem rest change by (intro exI [of _ m]) (cases "m_status m = status_recalled"; simp)
qed

section \<open>Deletions\<close>

text \<open>
  C29: Deleting for everyone removes the sender's own message and nothing else; deleting for oneself
  removes nothing. After a successful deletion for all, asked for by the message's sender, exactly
  that row is gone, the members of that moment are told, and where it was the last message of its conversation
  the latest that remains takes its place. After a personal deletion, which any member may ask for and which
  changes nothing the second time, every message is as before, the pair of user and message is added to the personal
  deletions, and the one change published goes to that user alone and carries no body. In both
  cases nothing else changes: no other conversation, and no other table.
\<close>

theorem delete_effect:
  assumes inv: "db_inv env db" and run: "delete_message env md req db = Inr db'"
  shows "\<exists>m c e ch. m \<in> set (msgs db) \<and> m_id m = de_message req \<and> md = [de_user req] \<and>
      (\<exists>x\<in>set (members db). human_of (m_conv m) (de_user req) x) \<and>
      (if de_for_all req
       then m_sender m = Some (de_user req) \<and> convs db (m_conv m) = Some c \<and>
          db' = db\<lparr>msgs := filter (\<lambda>x. x \<noteq> m) (msgs db), convs := (convs db)(m_conv m \<mapsto> changed_conv env m
              (case latest_of (filter (\<lambda>x. m_conv x = m_conv m \<and> x \<noteq> m) (msgs db)) of
                 None \<Rightarrow> (None, []) | Some x \<Rightarrow> (Some (m_id x), tail_preview x)) c),
            next_id := Suc (next_id db), outbox := outbox db @ [e]\<rparr> \<and>
          o_conv e = m_conv m \<and> o_pub_seq e = c_pub_seq c + 1 \<and> o_status e = outbox_pending \<and> o_payload e = Change ch \<and>
          change_event kind_deleted m (member_ids (m_conv m) db) ch
       else if (de_user req, m_conv m, m_id m) \<in> set (deletions db) then db' = db
       else convs db (m_conv m) = Some c \<and>
          db' = db\<lparr>deletions := deletions db @ [(de_user req, m_conv m, m_id m)],
            convs := (convs db)(m_conv m \<mapsto> c\<lparr>c_pub_seq := c_pub_seq c + 1, c_updated := now env\<rparr>),
            next_id := Suc (next_id db), outbox := outbox db @ [e]\<rparr> \<and>
          o_conv e = m_conv m \<and> o_pub_seq e = c_pub_seq c + 1 \<and> o_status e = outbox_pending \<and> o_payload e = Change ch \<and>
          ch_kind ch = kind_deleted \<and> ch_message ch = Some (m_id m) \<and> \<not> ch_delete_for_all ch \<and> ch_content ch = None \<and>
          ch_recipients ch = Some [de_user req])"
proof -
  from run obtain m where caller: "caller_user_id env md = de_user req" "de_user req \<noteq> []"
    and m: "get_by_id (de_message req) db = Inr m"
    and tx: "delete_tx env m (de_user req) (de_for_all req) db = Inr db'"
    by (auto simp: delete_message_Inr)
  have md: "md = [de_user req]"
    using caller by (auto simp: caller_user_id_def split: list.splits if_splits)
  note g = get_by_id_Inr [OF m]
  show ?thesis
  proof (cases "de_for_all req")
    case True
    with tx obtain cur where lock: "lock_mutable_message env (m_conv m) (m_id m) (de_user req) db = Inr cur"
      and pub0: "publish_message_change env kind_deleted cur (delete_with_tx (m_id cur) db) = Inr db'"
      by (auto simp: delete_tx_def rbind_eq_Inr)
    note r = lock_read [OF inv m lock]
    have mem: "\<exists>x\<in>set (members db). human_of (m_conv m) (de_user req) x"
      using lock permission_member by (auto simp: lock_mutable_message_Inr)
    have rows: "delete_with_tx (m_id m) db = db\<lparr>msgs := filter (\<lambda>x. x \<noteq> m) (msgs db)\<rparr>"
      using r inv_unique_id [OF inv] by (auto simp: delete_with_tx_def intro!: msg_db.fold_congs filter_cong)
    have tail: "changed_tail kind_deleted m (db\<lparr>msgs := filter (\<lambda>x. x \<noteq> m) (msgs db)\<rparr>) =
        (case latest_of (filter (\<lambda>x. m_conv x = m_conv m \<and> x \<noteq> m) (msgs db)) of
           None \<Rightarrow> (None, []) | Some x \<Rightarrow> (Some (m_id x), tail_preview x))"
      by (simp add: changed_tail_def kind_defs latest_message_def conj_commute cong: conj_cong)
    have pub: "publish_message_change env kind_deleted m (db\<lparr>msgs := filter (\<lambda>x. x \<noteq> m) (msgs db)\<rparr>) = Inr db'"
      using pub0 r rows by simp
    obtain c e ch where "convs db (m_conv m) = Some c"
      and "db' = db\<lparr>msgs := filter (\<lambda>x. x \<noteq> m) (msgs db),
          convs := (convs db)(m_conv m \<mapsto> changed_conv env m (changed_tail kind_deleted m (db\<lparr>msgs := filter (\<lambda>x. x \<noteq> m) (msgs db)\<rparr>)) c),
          next_id := Suc (next_id db), outbox := outbox db @ [e]\<rparr>"
      and "o_conv e = m_conv m" "o_pub_seq e = c_pub_seq c + 1" "o_status e = outbox_pending" "o_payload e = Change ch"
        "change_event kind_deleted m (member_ids (m_conv m) db) ch"
      using publish_message_change_exact [OF pub] by (auto simp: is_message_kind_def member_ids_def)
    then show ?thesis unfolding if_P [OF True] tail using r md mem by blast
  next
    case False
    let ?ch = "no_change\<lparr>ch_kind := kind_deleted, ch_conv := m_conv m,
        ch_message := Some (m_id m), ch_user := Some (de_user req), ch_recipients := Some [de_user req]\<rparr>"
    let ?db1 = "db\<lparr>deletions := deletions db @ [(de_user req, m_conv m, m_id m)]\<rparr>"
    from tx obtain p cur where p: "check_send_permission env (m_conv m) (de_user req) db = Inr p" "sp_is_member p"
      and cur: "message_of (m_conv m) (m_id m) db = Inr cur"
      and c: "(case insert_personal_deletion (de_user req) (m_conv cur) (m_id cur) db of (inserted, db1) \<Rightarrow>
          if inserted then publish_inbox_change env (no_change\<lparr>ch_kind := kind_deleted, ch_conv := m_conv cur,
             ch_message := Some (m_id cur), ch_user := Some (de_user req), ch_recipients := Some [de_user req]\<rparr>) db1
          else Inr db1) = Inr db'"
      unfolding delete_tx_def if_not_P [OF False]
      by (elim rbindE) (auto simp: ensure_eq_Inr)
    have "cur = m" using inv m cur by (rule locked_is_read)
    note mem = permission_member [OF p]
    show ?thesis
    proof (cases "(de_user req, m_conv m, m_id m) \<in> set (deletions db)")
      case True
      then have "db' = db" using c \<open>cur = m\<close> by (simp add: insert_personal_deletion_def)
      then show ?thesis using g md mem True False by auto
    next
      case new: False
      then have "publish_inbox_change env ?ch ?db1 = Inr db'"
        using c \<open>cur = m\<close> by (simp add: insert_personal_deletion_def)
      then obtain c e where "convs db (m_conv m) = Some c" "e = publication env ?ch ?db1"
        and "db' = db\<lparr>deletions := deletions db @ [(de_user req, m_conv m, m_id m)],
            convs := (convs db)(m_conv m \<mapsto> c\<lparr>c_pub_seq := c_pub_seq c + 1, c_updated := now env\<rparr>),
            next_id := Suc (next_id db), outbox := outbox db @ [e]\<rparr>"
        by (auto simp: publish_inbox_change_Inr no_change_def)
      moreover have "o_conv e = m_conv m" "o_pub_seq e = c_pub_seq c + 1" "o_status e = outbox_pending"
        using calculation(1,2) by (simp_all add: no_change_def cur_pub_def)
      moreover have "o_payload e = Change (published_change env ?ch ?db1)" using calculation(2) by simp
      moreover have "ch_kind (published_change env ?ch ?db1) = kind_deleted"
        "ch_message (published_change env ?ch ?db1) = Some (m_id m)" "\<not> ch_delete_for_all (published_change env ?ch ?db1)"
        "ch_content (published_change env ?ch ?db1) = None" "ch_recipients (published_change env ?ch ?db1) = Some [de_user req]"
        by (simp_all add: published_change_def no_change_def)
      ultimately show ?thesis
        apply (intro exI [of _ m] exI [of _ c] exI [of _ e] exI [of _ "published_change env ?ch ?db1"])
        unfolding if_not_P [OF False] if_not_P [OF new] using g md mem by blast
    qed
  qed
qed

section \<open>At a concrete message\<close>

lemma demo_after_inv: "db_inv demo_env (snd demo_after)"
  using send_message_inv [OF demo_db_inv _ demo_first] by (simp add: inj_demo_fresh)

definition demo_edit :: edit_req where
  "demo_edit = \<lparr>ed_message = ''id-'', ed_user = ''u1'', ed_conv = Some ''c1'',
     ed_text = Some (''bye'', [], False)\<rparr>"

definition demo_recall :: recall_req where
  "demo_recall = \<lparr>rc_message = ''id-'', rc_user = ''u1'', rc_conv = None\<rparr>"

definition demo_delete :: delete_req where
  "demo_delete = \<lparr>de_message = ''id-'', de_user = ''u2'', de_conv = None, de_for_all = False\<rparr>"

lemma demo_edit_ok: "is_ok (edit_message demo_env [''u1''] demo_edit (snd demo_after))"
  by code_simp

lemma demo_recall_ok: "is_ok (recall_message demo_env [''u1''] demo_recall (snd demo_after))"
  by code_simp

lemma demo_delete_ok: "is_ok (delete_message demo_env [''u2''] demo_delete (snd demo_after))"
  by code_simp

lemma demo_edit_simps: "ed_message demo_edit = ''id-''" "ed_user demo_edit = ''u1''"
  by (simp_all add: demo_edit_def)

lemma demo_recall_simps: "rc_message demo_recall = ''id-''" "rc_user demo_recall = ''u1''"
  by (simp_all add: demo_recall_def)

theorem edit_effect_witness:
  "\<exists>db' (m::message) e. edit_message demo_env [''u1''] demo_edit (snd demo_after) = Inr db' \<and> m_id m = ''id-'' \<and>
     m_sender m = Some ''u1'' \<and> outbox db' = outbox (snd demo_after) @ [e]"
proof -
  note ok = is_ok_result [OF demo_edit_ok]
  let ?s = "result_of (edit_message demo_env [''u1''] demo_edit (snd demo_after))"
  have "\<exists>(m :: message) e. m_id m = ''id-'' \<and> m_sender m = Some ''u1'' \<and> outbox ?s = outbox (snd demo_after) @ [e]"
    using edit_effect [OF demo_after_inv ok] unfolding demo_edit_simps
    apply (elim exE conjE)
    subgoal for m m' body mentions all c e ch
      by (rule exI [of _ m], rule exI [of _ e]) simp
    done
  then show ?thesis using ok by blast
qed

theorem recall_effect_witness:
  "\<exists>m. m \<in> set (msgs (snd demo_after)) \<and> m_id m = ''id-'' \<and> m_sender m = Some ''u1''"
  using recall_effect [OF demo_after_inv is_ok_result [OF demo_recall_ok]]
  unfolding demo_recall_simps by blast

theorem delete_effect_witness:
  "\<exists>db' (m::message). delete_message demo_env [''u2''] demo_delete (snd demo_after) = Inr db' \<and> m_id m = ''id-'' \<and>
     deletions db' = [(''u2'', m_conv m, ''id-'')] \<and> msgs db' = msgs (snd demo_after)"
proof -
  note ok = is_ok_result [OF demo_delete_ok]
  let ?s = "result_of (delete_message demo_env [''u2''] demo_delete (snd demo_after))"
  have d: "de_message demo_delete = ''id-''" "de_user demo_delete = ''u2''" "\<not> de_for_all demo_delete"
    by (simp_all add: demo_delete_def)
  have n: "deletions (snd demo_after) = []" by code_simp
  have "\<exists>m :: message. m_id m = ''id-'' \<and> deletions ?s = [(''u2'', m_conv m, ''id-'')] \<and> msgs ?s = msgs (snd demo_after)"
    using delete_effect [OF demo_after_inv ok] unfolding d if_not_P [OF d(3)] n
    apply (elim exE conjE)
    subgoal for m c e ch
      by (rule exI [of _ m]) (simp add: n)
    done
  then show ?thesis using ok by blast
qed

end
