(* ===== verification/Outbox_Dispatch.thy ===== *)
theory Outbox_Dispatch
  imports Msg_Store
begin

text \<open>
  The outbox dispatcher: \<^verbatim>\<open>repo/outbox_repo.go\<close> and \<^verbatim>\<open>dispatcher/outbox_dispatcher.go\<close>. A batch runs
  in one transaction that locks the rows it fetched; Kafka is outside the transaction, so a batch
  that aborts leaves the outbox as it was and the sends it made. The producers, the outcomes of
  \<open>Send\<close>, the clock and the rows other dispatchers hold locked are the environment \<open>disp_env\<close>,
  indexed by the number of sends attempted so far where it may change within a batch.
\<close>

section \<open>The repository\<close>

record disp_env =
  dv_now :: "nat \<Rightarrow> int"
  dv_locked :: "string \<Rightarrow> bool"
  dv_has_producer :: "string \<Rightarrow> bool"
  dv_send :: "nat \<Rightarrow> outbox_event \<Rightarrow> string option"

text \<open>An older event of the conversation that has not been sent, failed ones included.\<close>

definition blocked_by_older :: "outbox_event list \<Rightarrow> outbox_event \<Rightarrow> bool" where
  "blocked_by_older ob e \<longleftrightarrow>
     (\<exists>x\<in>set ob. o_conv x = o_conv e \<and> o_status x \<noteq> outbox_sent \<and> o_pub_seq x < o_pub_seq e)"

definition is_due :: "int \<Rightarrow> outbox_event \<Rightarrow> bool" where
  "is_due t e \<longleftrightarrow> o_status e = outbox_pending \<and>
     (case o_next_retry e of None \<Rightarrow> True | Some r \<Rightarrow> r \<le> t)"

definition dispatch_le :: "outbox_event \<Rightarrow> outbox_event \<Rightarrow> bool" where
  "dispatch_le x y \<longleftrightarrow> o_created x < o_created y \<or>
     (o_created x = o_created y \<and> o_pub_seq x \<le> o_pub_seq y)"

definition fetch_pending :: "int \<Rightarrow> (string \<Rightarrow> bool) \<Rightarrow> nat \<Rightarrow> outbox_event list \<Rightarrow> outbox_event list" where
  "fetch_pending t locked limit ob =
     take limit (sort_by dispatch_le
       (filter (\<lambda>e. is_due t e \<and> \<not> blocked_by_older ob e \<and> \<not> locked (o_id e)) ob))"

definition mark_sent :: "int \<Rightarrow> string \<Rightarrow> outbox_event list \<Rightarrow> outbox_event list" where
  "mark_sent t i = update_where (\<lambda>e. o_id e = i)
     (\<lambda>e. e\<lparr>o_status := outbox_sent, o_dispatched := Some t\<rparr>)"

definition mark_retry :: "int \<Rightarrow> string \<Rightarrow> string \<Rightarrow> outbox_event list \<Rightarrow> outbox_event list" where
  "mark_retry r msg i = update_where (\<lambda>e. o_id e = i)
     (\<lambda>e. e\<lparr>o_next_retry := Some r, o_last_error := msg, o_retry := o_retry e + 1\<rparr>)"

definition mark_failed :: "string \<Rightarrow> string \<Rightarrow> outbox_event list \<Rightarrow> outbox_event list" where
  "mark_failed msg i = update_where (\<lambda>e. o_id e = i)
     (\<lambda>e. e\<lparr>o_status := outbox_failed, o_last_error := msg, o_retry := o_retry e + 1\<rparr>)"

text \<open>
  gorm leaves \<^verbatim>\<open>LIMIT\<close> out of a Postgres \<^verbatim>\<open>DELETE\<close>; the limit argument has no effect.
\<close>

definition delete_sent_before :: "int \<Rightarrow> outbox_event list \<Rightarrow> outbox_event list" where
  "delete_sent_before t ob =
     filter (\<lambda>e. \<not> (o_status e = outbox_sent \<and>
       (case o_dispatched e of None \<Rightarrow> False | Some d \<Rightarrow> d < t))) ob"

section \<open>The batch\<close>

definition max_backoff :: int where "max_backoff = 60 * second"

text \<open>
  A duration is a 64-bit count of nanoseconds: the product wraps around for large retry counts. The
  power itself is exact as long as it is below two to the 63.
\<close>

definition exponential_backoff :: "nat \<Rightarrow> int" where
  "exponential_backoff n =
     (let d = wrap64 (2 ^ (n - 1) * second) in if d > max_backoff then max_backoff else d)"

record disp_state =
  d_outbox :: "outbox_event list"
  d_log :: "outbox_event list"
  d_calls :: nat

definition dispatch_event :: "disp_env \<Rightarrow> outbox_event \<Rightarrow> disp_state \<Rightarrow> disp_state" where
  "dispatch_event env e d =
     (if \<not> dv_has_producer env (o_topic e) then
        d\<lparr>d_outbox := mark_failed (''no producer for topic '' @ o_topic e) (o_id e) (d_outbox d)\<rparr>
      else let t = dv_now env (Suc (d_calls d)); d1 = d\<lparr>d_calls := Suc (d_calls d)\<rparr> in
        case dv_send env (d_calls d) e of
          Some msg \<Rightarrow>
            if o_retry e + 1 \<ge> o_max_retries e
            then d1\<lparr>d_outbox := mark_failed msg (o_id e) (d_outbox d)\<rparr>
            else d1\<lparr>d_outbox := mark_retry (t + exponential_backoff (nat (o_retry e + 1))) msg
                      (o_id e) (d_outbox d)\<rparr>
        | None \<Rightarrow> d1\<lparr>d_outbox := mark_sent t (o_id e) (d_outbox d), d_log := d_log d @ [e]\<rparr>)"

definition default_batch_size :: nat where "default_batch_size = 100"

text \<open>The outer loop, by the number of events the batch may still dispatch.\<close>

function dispatch_loop :: "disp_env \<Rightarrow> nat \<Rightarrow> disp_state \<Rightarrow> disp_state" where
  "dispatch_loop env n d =
     (if n = 0 then d
      else let evs = fetch_pending (dv_now env (d_calls d)) (dv_locked env) n (d_outbox d) in
        if evs = [] then d
        else dispatch_loop env (n - length evs) (fold (dispatch_event env) evs d))"
  by pat_completeness auto

termination
proof (relation "measure (\<lambda>(env, n, d). n)")
  fix env :: disp_env and n and d :: disp_state and evs
  assume "n \<noteq> 0" "evs = fetch_pending (dv_now env (d_calls d)) (dv_locked env) n (d_outbox d)" "evs \<noteq> []"
  then show "((env, n - length evs, fold (dispatch_event env) evs d), env, n, d) \<in> measure (\<lambda>(env, n, d). n)"
    by (simp add: length_greater_0_conv [symmetric] del: length_greater_0_conv)
qed simp

declare dispatch_loop.simps [simp del]

definition dispatch_batch :: "disp_env \<Rightarrow> disp_state \<Rightarrow> disp_state" where
  "dispatch_batch env d = dispatch_loop env default_batch_size d"

text \<open>A batch that aborts after \<open>k\<close> events: its sends stay, its row changes do not.\<close>

definition dispatch_abort :: "disp_env \<Rightarrow> nat \<Rightarrow> disp_state \<Rightarrow> disp_state" where
  "dispatch_abort env k d =
     (let d' = dispatch_loop env k d in d\<lparr>d_log := d_log d', d_calls := d_calls d'\<rparr>)"

section \<open>Backoff\<close>

lemma pow2_le: "n \<le> 34 \<Longrightarrow> (2::int) ^ (n - 1) \<le> 2 ^ 33"
  by (rule power_increasing) simp_all

text \<open>
  The backoff doubles from one second and is capped at a minute, for every retry count the
  duration can hold: up to the thirty-fourth attempt the delay is the smaller of \<open>2^(n-1)\<close> seconds
  and sixty seconds, so it is never negative and never more than a minute. The default of ten
  attempts is well inside; from the thirty-fifth attempt on the product wraps around.
\<close>

theorem backoff_bounds:
  assumes "1 \<le> n" "n \<le> 34"
  shows "exponential_backoff n = min (2 ^ (n - 1)) 60 * second \<and>
    second \<le> exponential_backoff n \<and> exponential_backoff n \<le> 60 * second"
proof -
  have p: "(1::int) \<le> 2 ^ (n - 1)" "(2::int) ^ (n - 1) \<le> 2 ^ 33"
    using assms pow2_le by simp_all
  then have "2 ^ (n - 1) * second < 2 ^ 63" by (simp add: second_def)
  moreover have "- (2 ^ 63) \<le> 2 ^ (n - 1) * second"
    by (rule order_trans [of _ 0]) (simp_all add: second_def)
  ultimately have w: "wrap64 (2 ^ (n - 1) * second) = 2 ^ (n - 1) * second" by (intro wrap64_id)
  have "exponential_backoff n = min (2 ^ (n - 1)) 60 * second"
    unfolding exponential_backoff_def w by (simp add: Let_def max_backoff_def second_def min_def)
  moreover have "1 \<le> min (2 ^ (n - 1)) (60::int)" "min (2 ^ (n - 1)) (60::int) \<le> 60"
    using p by (auto simp: min_def)
  ultimately show ?thesis by (simp add: second_def)
qed

theorem backoff_bounds_witness: "exponential_backoff 7 = 60 * second \<and> exponential_backoff 35 < 0"
  using backoff_bounds [of 7]
  by (simp add: exponential_backoff_def wrap64_def second_def max_backoff_def)

section \<open>Rows keep their positions\<close>

definition place :: "outbox_event \<Rightarrow> string \<times> string \<times> int" where
  "place e = (o_id e, o_conv e, o_pub_seq e)"

lemma mark_places [table_simps]:
  "map place (mark_sent t i ob) = map place ob"
  "map place (mark_retry r msg i ob) = map place ob"
  "map place (mark_failed msg i ob) = map place ob"
  by (simp_all add: mark_sent_def mark_retry_def mark_failed_def map_update_where place_def)

lemma dispatch_event_places [table_simps]:
  "map place (d_outbox (dispatch_event env e d)) = map place (d_outbox d)"
  by (simp add: dispatch_event_def Let_def table_simps split: option.split)

text \<open>Rows other than the dispatched one are untouched.\<close>

lemma mark_other:
  assumes "x \<in> set ob" "o_id x \<noteq> i"
  shows "x \<in> set (mark_sent t i ob)" "x \<in> set (mark_retry r msg i ob)" "x \<in> set (mark_failed msg i ob)"
  using assms by (auto simp: mark_sent_def mark_retry_def mark_failed_def set_update_where)

lemma dispatch_event_other:
  "x \<in> set (d_outbox d) \<Longrightarrow> o_id x \<noteq> o_id e \<Longrightarrow> x \<in> set (d_outbox (dispatch_event env e d))"
  by (auto simp: dispatch_event_def Let_def mark_other split: option.split)

lemma mark_back:
  assumes "x \<in> set (mark_sent t i ob) \<or> x \<in> set (mark_retry r msg i ob) \<or> x \<in> set (mark_failed msg i ob)"
  shows "x \<in> set ob \<or> o_id x = i"
  using assms by (auto simp: mark_sent_def mark_retry_def mark_failed_def set_update_where)

lemma dispatch_event_back:
  "x \<in> set (d_outbox (dispatch_event env e d)) \<Longrightarrow> x \<in> set (d_outbox d) \<or> o_id x = o_id e"
  using mark_back by (fastforce simp: dispatch_event_def Let_def split: option.splits if_splits)

text \<open>The event is the head of its conversation's queue.\<close>

definition is_head :: "outbox_event list \<Rightarrow> outbox_event \<Rightarrow> bool" where
  "is_head ob e \<longleftrightarrow> e \<in> set ob \<and> o_status e = outbox_pending \<and> \<not> blocked_by_older ob e"

lemma fetch_heads:
  assumes "e \<in> set (fetch_pending t locked n ob)"
  shows "is_head ob e" "is_due t e" "\<not> locked (o_id e)"
  using in_set_takeD [OF assms [unfolded fetch_pending_def]] by (auto simp: is_head_def is_due_def)

lemma fetch_length: "length (fetch_pending t locked n ob) \<le> n"
  by (simp add: fetch_pending_def)

lemma distinct_map_takeI: "distinct (map f xs) \<Longrightarrow> distinct (map f (take n xs))"
  by (simp add: take_map [symmetric])

lemma distinct_map_sort_by: "distinct (map f xs) \<Longrightarrow> distinct (map f (sort_by le xs))"
  by (rule distinct_sort_by)

lemma fetch_distinct:
  assumes "distinct (map o_id ob)"
  shows "distinct (map o_id (fetch_pending t locked n ob))"
  unfolding fetch_pending_def
  by (intro distinct_map_takeI distinct_sort_by) (simp add: assms distinct_map_filter)

lemma heads_apart:
  assumes "distinct (map pub_pos ob)" "is_head ob x" "is_head ob y" "o_conv x = o_conv y"
  shows "x = y"
proof -
  have "x \<in> set ob" "y \<in> set ob" "\<not> o_pub_seq x < o_pub_seq y" "\<not> o_pub_seq y < o_pub_seq x"
    using assms by (auto simp: is_head_def blocked_by_older_def outbox_pending_def outbox_sent_def)
  then have "pub_pos x = pub_pos y" "x \<in> set ob" "y \<in> set ob" using assms(4) by (auto simp: pub_pos_def)
  with assms(1) show ?thesis by (auto simp: distinct_map inj_on_def)
qed

text \<open>Dispatching the head of one conversation leaves the heads of the others.\<close>

lemma head_frame:
  assumes "is_head (d_outbox d) x" "distinct (map o_id (d_outbox d))" "e \<in> set (d_outbox d)"
    "o_conv x \<noteq> o_conv e"
  shows "is_head (d_outbox (dispatch_event env e d)) x"
proof -
  let ?ob' = "d_outbox (dispatch_event env e d)"
  have x: "x \<in> set (d_outbox d)" using assms(1) by (simp add: is_head_def)
  have e1: "o_id x \<noteq> o_id e"
    using assms x by (metis distinct_map inj_onD)
  have "o_conv z \<noteq> o_conv x" if "z \<in> set ?ob'" "o_id z = o_id e" for z
  proof -
    have "place z \<in> set (map place (d_outbox d))"
      using that(1) dispatch_event_places [of env e d] by (metis image_eqI set_map)
    then obtain w where "w \<in> set (d_outbox d)" "place w = place z" by force
    with that(2) have "w = e" using assms(2,3) by (metis distinct_map inj_onD place_def prod.inject)
    with \<open>place w = place z\<close> show ?thesis using assms(4) by (auto simp: place_def)
  qed
  then have "\<not> blocked_by_older ?ob' x"
    using assms(1) dispatch_event_back [of _ env e d] unfolding is_head_def blocked_by_older_def by metis
  then show ?thesis using dispatch_event_other [OF x e1] assms(1) by (simp add: is_head_def)
qed

end
