(* ===== verification/Dispatch_Order.thy ===== *)
theory Dispatch_Order
  imports Outbox_Dispatch
begin

text \<open>
  The order of publication. Delivery to Kafka is at least once: an aborted batch repeats its sends.
  What consumers rely on is that the first delivery of each publication of a conversation comes in
  publication order, and that an event that exhausted its retries stops its conversation.
\<close>

section \<open>First deliveries\<close>

definition firsts :: "'a list \<Rightarrow> 'a list" where
  "firsts xs = rev (remdups (rev xs))"

definition conv_log :: "string \<Rightarrow> outbox_event list \<Rightarrow> int list" where
  "conv_log c lg = map o_pub_seq (filter (\<lambda>e. o_conv e = c) lg)"

lemma set_firsts [simp]: "set (firsts xs) = set xs"
  by (simp add: firsts_def)

lemma firsts_append1: "firsts (xs @ [x]) = (if x \<in> set xs then firsts xs else firsts xs @ [x])"
  by (simp add: firsts_def)

lemma conv_log_append1:
  "conv_log c (lg @ [e]) = conv_log c lg @ (if o_conv e = c then [o_pub_seq e] else [])"
  by (simp add: conv_log_def)

section \<open>The order invariant\<close>

definition places_ok :: "outbox_event list \<Rightarrow> bool" where
  "places_ok ob \<longleftrightarrow> distinct (map o_id ob) \<and> distinct (map pub_pos ob)"

lemma places_ok_cong:
  assumes "map place ob' = map place ob"
  shows "places_ok ob' = places_ok ob"
proof -
  have "map o_id xs = map fst (map place xs)" "map pub_pos xs = map snd (map place xs)" for xs
    by (simp_all add: place_def pub_pos_def)
  then show ?thesis using assms unfolding places_ok_def by metis
qed

definition order_inv :: "outbox_event list \<Rightarrow> outbox_event list \<Rightarrow> bool" where
  "order_inv ob lg \<longleftrightarrow>
     (\<forall>e\<in>set ob. o_status e = outbox_sent \<longrightarrow> o_pub_seq e \<in> set (conv_log (o_conv e) lg)) \<and>
     (\<forall>e\<in>set ob. \<forall>n\<in>set (conv_log (o_conv e) lg). o_pub_seq e < n \<longrightarrow>
        o_pub_seq e \<in> set (conv_log (o_conv e) lg)) \<and>
     (\<forall>c. sorted_wrt (<) (firsts (conv_log c lg)))"

lemma order_inv_unsent:
  assumes "order_inv ob lg" "map place ob' = map place ob"
    "\<And>e. e \<in> set ob' \<Longrightarrow> o_status e = outbox_sent \<Longrightarrow> o_pub_seq e \<in> set (conv_log (o_conv e) lg)"
  shows "order_inv ob' lg"
proof -
  have "o_pub_seq e \<in> set (conv_log (o_conv e) lg)"
    if "e \<in> set ob'" "n \<in> set (conv_log (o_conv e) lg)" "o_pub_seq e < n" for e n
  proof -
    have "place e \<in> set (map place ob)" using that(1) assms(2) by (metis image_eqI set_map)
    then obtain x where "x \<in> set ob" "o_conv x = o_conv e" "o_pub_seq x = o_pub_seq e"
      by (auto simp: place_def)
    with assms(1) that(2,3) show ?thesis unfolding order_inv_def by metis
  qed
  with assms show ?thesis by (auto simp: order_inv_def)
qed

lemma order_inv_log:
  assumes inv: "order_inv ob lg" and head: "is_head ob e"
  shows "order_inv ob (lg @ [e])"
proof -
  let ?c = "o_conv e"
  have e: "e \<in> set ob" using head by (simp add: is_head_def)
  have below: "o_pub_seq x \<in> set (conv_log ?c lg)"
    if "x \<in> set ob" "o_conv x = ?c" "o_pub_seq x < o_pub_seq e" for x
  proof -
    have "o_status x = outbox_sent" using head that by (auto simp: is_head_def blocked_by_older_def)
    with inv that show ?thesis by (auto simp: order_inv_def)
  qed
  have new: "n < o_pub_seq e" if "n \<in> set (conv_log ?c lg)" "o_pub_seq e \<notin> set (conv_log ?c lg)" for n
    using inv e that unfolding order_inv_def by (metis linorder_neqE)
  have "sorted_wrt (<) (firsts (conv_log c (lg @ [e])))" for c
    using inv new by (auto simp: order_inv_def conv_log_append1 firsts_append1 sorted_wrt_append)
  moreover have "o_pub_seq x \<in> set (conv_log (o_conv x) (lg @ [e]))"
    if "x \<in> set ob" "n \<in> set (conv_log (o_conv x) (lg @ [e]))" "o_pub_seq x < n" for x n
    using that inv below by (fastforce simp: order_inv_def conv_log_append1 split: if_splits)
  ultimately show ?thesis
    using inv by (auto simp: order_inv_def conv_log_append1)
qed

lemma mark_sent_status:
  "x \<in> set (mark_sent t i ob) \<Longrightarrow> o_status x = outbox_sent \<Longrightarrow>
     (x \<in> set ob \<and> o_id x \<noteq> i) \<or> (\<exists>y\<in>set ob. o_id y = i \<and> place y = place x)"
  by (auto simp: mark_sent_def set_update_where place_def)

lemma mark_unsent_status:
  "x \<in> set (mark_failed msg i ob) \<Longrightarrow> o_status x = outbox_sent \<Longrightarrow> x \<in> set ob"
  "x \<in> set (mark_retry r msg i ob) \<Longrightarrow> o_status x = outbox_sent \<Longrightarrow> \<exists>y\<in>set ob. place y = place x \<and> o_status y = outbox_sent"
  by (auto simp: mark_failed_def mark_retry_def set_update_where place_def outbox_failed_def outbox_sent_def)

lemma order_mark:
  assumes inv: "order_inv ob lg" and pl: "places_ok ob" and head: "is_head ob e"
  shows "order_inv (mark_failed msg (o_id e) ob) lg" "order_inv (mark_retry r msg (o_id e) ob) lg"
    "order_inv (mark_sent t (o_id e) ob) (lg @ [e])"
proof -
  have sent: "o_pub_seq y \<in> set (conv_log (o_conv y) lg)"
    if "y \<in> set ob" "o_status y = outbox_sent" for y
    using inv that by (simp add: order_inv_def)
  show "order_inv (mark_failed msg (o_id e) ob) lg"
    using inv mark_places(3)
    by (rule order_inv_unsent) (blast dest: mark_unsent_status(1) sent)
  show "order_inv (mark_retry r msg (o_id e) ob) lg"
    using inv mark_places(2)
  proof (rule order_inv_unsent)
    fix x assume "x \<in> set (mark_retry r msg (o_id e) ob)" "o_status x = outbox_sent"
    then obtain y where "y \<in> set ob" "place y = place x" "o_status y = outbox_sent"
      using mark_unsent_status(2) by blast
    with sent [of y] show "o_pub_seq x \<in> set (conv_log (o_conv x) lg)" by (simp add: place_def)
  qed
  show "order_inv (mark_sent t (o_id e) ob) (lg @ [e])"
    using order_inv_log [OF inv head] mark_places(1)
  proof (rule order_inv_unsent)
    fix x assume "x \<in> set (mark_sent t (o_id e) ob)" "o_status x = outbox_sent"
    then consider "x \<in> set ob" | y where "y \<in> set ob" "o_id y = o_id e" "place y = place x"
      using mark_sent_status by blast
    then show "o_pub_seq x \<in> set (conv_log (o_conv x) (lg @ [e]))"
    proof cases
      case 1
      with sent [of x] \<open>o_status x = outbox_sent\<close> show ?thesis by (simp add: conv_log_append1)
    next
      case 2
      have "e \<in> set ob" using head by (simp add: is_head_def)
      with 2 pl have "y = e" by (auto simp: places_ok_def distinct_map inj_on_def)
      with 2 show ?thesis by (simp add: place_def conv_log_append1)
    qed
  qed
qed

definition disp_inv :: "disp_state \<Rightarrow> bool" where
  "disp_inv d \<longleftrightarrow> places_ok (d_outbox d) \<and> order_inv (d_outbox d) (d_log d)"

lemma dispatch_event_inv:
  assumes "disp_inv d" "is_head (d_outbox d) e"
  shows "disp_inv (dispatch_event env e d)"
proof -
  have "places_ok (d_outbox (dispatch_event env e d))"
    using assms(1) places_ok_cong [OF dispatch_event_places] by (simp add: disp_inv_def)
  moreover have "order_inv (d_outbox (dispatch_event env e d)) (d_log (dispatch_event env e d))"
    using assms order_mark [of "d_outbox d" "d_log d" e]
    by (simp add: disp_inv_def dispatch_event_def Let_def split: option.split)
  ultimately show ?thesis by (simp add: disp_inv_def)
qed

text \<open>A batch consists of heads of different conversations.\<close>

definition heads :: "outbox_event list \<Rightarrow> outbox_event list \<Rightarrow> bool" where
  "heads ob evs \<longleftrightarrow> distinct (map o_conv evs) \<and> (\<forall>e\<in>set evs. is_head ob e)"

lemma fetch_heads_apart:
  assumes "places_ok ob"
  shows "heads ob (fetch_pending t locked n ob)"
proof -
  let ?evs = "fetch_pending t locked n ob"
  have "distinct (map o_id ?evs)" using assms fetch_distinct by (simp add: places_ok_def)
  then have "distinct ?evs" by (simp add: distinct_map)
  moreover have "inj_on o_conv (set ?evs)"
    using assms fetch_heads(1) heads_apart by (fastforce simp: inj_on_def places_ok_def)
  ultimately show ?thesis using fetch_heads(1) by (auto simp: heads_def distinct_map)
qed

lemma heads_step:
  assumes "disp_inv d" "heads (d_outbox d) (e # evs)"
  shows "disp_inv (dispatch_event env e d)" "heads (d_outbox (dispatch_event env e d)) evs"
proof -
  have e: "is_head (d_outbox d) e" using assms(2) by (simp add: heads_def)
  with assms(1) show "disp_inv (dispatch_event env e d)" by (rule dispatch_event_inv)
  have "is_head (d_outbox (dispatch_event env e d)) x" if "x \<in> set evs" for x
  proof (rule head_frame)
    show "is_head (d_outbox d) x" using that assms(2) by (simp add: heads_def)
    show "distinct (map o_id (d_outbox d))" using assms(1) by (simp add: disp_inv_def places_ok_def)
    show "e \<in> set (d_outbox d)" using e by (simp add: is_head_def)
    show "o_conv x \<noteq> o_conv e" using that assms(2) unfolding heads_def by (metis distinct.simps(2) image_eqI list.simps(9) set_map)
  qed
  then show "heads (d_outbox (dispatch_event env e d)) evs" using assms(2) by (simp add: heads_def)
qed

lemma fold_dispatch_inv:
  "disp_inv d \<Longrightarrow> heads (d_outbox d) evs \<Longrightarrow> disp_inv (fold (dispatch_event env) evs d)"
  by (induction evs arbitrary: d) (auto dest: heads_step)

lemma dispatch_loop_inv: "disp_inv d \<Longrightarrow> disp_inv (dispatch_loop env n d)"
proof (induction env n d rule: dispatch_loop.induct)
  case (1 env n d)
  let ?evs = "fetch_pending (dv_now env (d_calls d)) (dv_locked env) n (d_outbox d)"
  have "heads (d_outbox d) ?evs" using 1(2) fetch_heads_apart by (simp add: disp_inv_def)
  then have "disp_inv (fold (dispatch_event env) ?evs d)" using 1(2) fold_dispatch_inv by blast
  with 1 show ?case by (subst dispatch_loop.simps) (auto simp: Let_def)
qed

section \<open>Logs and places only grow or stay\<close>

lemma dispatch_event_log: "prefix (d_log d) (d_log (dispatch_event env e d))"
  by (simp add: dispatch_event_def Let_def split: option.split)

lemma fold_dispatch_frame:
  "prefix (d_log d) (d_log (fold (dispatch_event env) evs d)) \<and>
   map place (d_outbox (fold (dispatch_event env) evs d)) = map place (d_outbox d)"
proof (induction evs arbitrary: d)
  case (Cons e evs)
  have "prefix (d_log d) (d_log (dispatch_event env e d))" by (rule dispatch_event_log)
  with Cons [of "dispatch_event env e d"] show ?case
    using dispatch_event_places [of env e d] prefix_order.trans by auto
qed simp

lemma dispatch_loop_frame:
  "prefix (d_log d) (d_log (dispatch_loop env n d)) \<and>
   map place (d_outbox (dispatch_loop env n d)) = map place (d_outbox d)"
proof (induction env n d rule: dispatch_loop.induct)
  case (1 env n d)
  let ?evs = "fetch_pending (dv_now env (d_calls d)) (dv_locked env) n (d_outbox d)"
  note F = fold_dispatch_frame [of d env ?evs]
  show ?case
  proof (cases "n = 0 \<or> ?evs = []")
    case True
    then show ?thesis by (subst (1 2) dispatch_loop.simps) auto
  next
    case False
    then have "dispatch_loop env n d = dispatch_loop env (n - length ?evs) (fold (dispatch_event env) ?evs d)"
      by (subst dispatch_loop.simps) (simp add: Let_def)
    with False 1 F show ?thesis by (auto intro: prefix_order.trans)
  qed
qed

lemma conv_log_mono: "prefix xs ys \<Longrightarrow> set (conv_log c xs) \<subseteq> set (conv_log c ys)"
  by (auto simp: conv_log_def prefix_def)

lemma dispatch_abort_inv:
  assumes "disp_inv d"
  shows "disp_inv (dispatch_abort env k d)"
proof -
  let ?d' = "dispatch_loop env k d"
  have d': "disp_inv ?d'" using assms by (rule dispatch_loop_inv)
  note F = dispatch_loop_frame [of d env k]
  have "order_inv (d_outbox d) (d_log ?d')"
    using d' [unfolded disp_inv_def, THEN conjunct2]
  proof (rule order_inv_unsent)
    show "map place (d_outbox d) = map place (d_outbox ?d')" using F by simp
    fix e assume "e \<in> set (d_outbox d)" "o_status e = outbox_sent"
    then have "o_pub_seq e \<in> set (conv_log (o_conv e) (d_log d))"
      using assms by (simp add: disp_inv_def order_inv_def)
    then show "o_pub_seq e \<in> set (conv_log (o_conv e) (d_log ?d'))"
      using conv_log_mono F by blast
  qed
  then show ?thesis using assms by (simp add: disp_inv_def dispatch_abort_def Let_def)
qed

end
