(* ===== verification/Dispatch_Props.thy ===== *)
theory Dispatch_Props
  imports Dispatch_Order Demo
begin

text \<open>
  Properties of one dispatcher batch: what it may send, how often it tries, and that it makes
  progress when Kafka accepts.
\<close>

section \<open>Induction over a batch\<close>

text \<open>A predicate kept by dispatching any head, and by nothing else, is kept by the loop.\<close>

lemma fold_dispatch_keeps:
  assumes "disp_inv d" "heads (d_outbox d) evs" "P d"
    and "\<And>d e. disp_inv d \<Longrightarrow> P d \<Longrightarrow> is_head (d_outbox d) e \<Longrightarrow> P (dispatch_event env e d)"
  shows "P (fold (dispatch_event env) evs d)"
  using assms(1-3)
proof (induction evs arbitrary: d)
  case (Cons e evs)
  have "is_head (d_outbox d) e" using Cons.prems(2) by (simp add: heads_def)
  then have "P (dispatch_event env e d)" using assms(4) Cons.prems by blast
  with Cons heads_step [OF Cons.prems(1,2)] show ?case by simp
qed simp

lemma dispatch_loop_keeps:
  assumes "disp_inv d" "P d"
    and "\<And>d e. disp_inv d \<Longrightarrow> P d \<Longrightarrow> is_head (d_outbox d) e \<Longrightarrow> P (dispatch_event env e d)"
  shows "P (dispatch_loop env n d)"
  using assms(1,2)
proof (induction n arbitrary: d rule: less_induct)
  case (less n)
  let ?evs = "fetch_pending (dv_now env (d_calls d)) (dv_locked env) n (d_outbox d)"
  have h: "heads (d_outbox d) ?evs" using less.prems fetch_heads_apart by (simp add: disp_inv_def)
  have "P (fold (dispatch_event env) ?evs d)" "disp_inv (fold (dispatch_event env) ?evs d)"
    using fold_dispatch_keeps [of d ?evs P env] h less.prems assms(3) fold_dispatch_inv by blast+
  moreover have "n - length ?evs < n" if "n \<noteq> 0" "?evs \<noteq> []"
    using that by (cases ?evs) simp_all
  ultimately show ?case
    using less by (subst dispatch_loop.simps) (simp add: Let_def)
qed

section \<open>A failed event stops its conversation\<close>

definition blocked_above :: "outbox_event \<Rightarrow> outbox_event list \<Rightarrow> disp_state \<Rightarrow> bool" where
  "blocked_above f lg d \<longleftrightarrow> f \<in> set (d_outbox d) \<and> (\<exists>new. d_log d = lg @ new \<and>
     (\<forall>e\<in>set new. o_conv e = o_conv f \<longrightarrow> o_pub_seq e < o_pub_seq f))"

lemma blocked_above_step:
  assumes "o_status f = outbox_failed" "blocked_above f lg d" "disp_inv d" "is_head (d_outbox d) e"
  shows "blocked_above f lg (dispatch_event env e d)"
proof -
  have f: "f \<in> set (d_outbox d)" using assms(2) by (simp add: blocked_above_def)
  have "f \<noteq> e" using assms(1,4) by (auto simp: is_head_def outbox_failed_def outbox_pending_def)
  moreover have "e \<in> set (d_outbox d)" using assms(4) by (simp add: is_head_def)
  ultimately have ids: "o_id f \<noteq> o_id e" "pub_pos f \<noteq> pub_pos e"
    using f assms(3) by (auto simp: disp_inv_def places_ok_def distinct_map inj_on_def)
  have "o_pub_seq e < o_pub_seq f" if "o_conv e = o_conv f"
  proof -
    have "\<not> o_pub_seq f < o_pub_seq e"
      using assms(1,4) f that
      by (auto simp: is_head_def blocked_by_older_def outbox_failed_def outbox_sent_def)
    with ids(2) that show ?thesis by (auto simp: pub_pos_def)
  qed
  moreover have "d_log (dispatch_event env e d) = d_log d \<or> d_log (dispatch_event env e d) = d_log d @ [e]"
    by (simp add: dispatch_event_def Let_def split: option.split)
  ultimately show ?thesis
    using assms(2) dispatch_event_other [OF f ids(1)] by (auto simp: blocked_above_def)
qed

text \<open>
  C30: an event that exhausted its retries blocks its conversation. While a failed event stays in
  the outbox, no batch sends a later publication of its conversation: everything a batch sends for
  that conversation is older than the failed event, which itself stays as it is.
\<close>

theorem failed_event_blocks:
  assumes "disp_inv d" "f \<in> set (d_outbox d)" "o_status f = outbox_failed"
  shows "f \<in> set (d_outbox (dispatch_batch env d)) \<and>
    (\<exists>new. d_log (dispatch_batch env d) = d_log d @ new \<and>
       (\<forall>e\<in>set new. o_conv e = o_conv f \<longrightarrow> o_pub_seq e < o_pub_seq f))"
proof -
  have "blocked_above f (d_log d) d" using assms(2) by (simp add: blocked_above_def)
  then have "blocked_above f (d_log d) (dispatch_loop env default_batch_size d)"
    by (rule dispatch_loop_keeps [OF assms(1)]) (rule blocked_above_step [OF assms(3)])
  then show ?thesis by (simp add: blocked_above_def dispatch_batch_def)
qed

section \<open>A batch is bounded\<close>

lemma fold_dispatch_calls: "d_calls (fold (dispatch_event env) evs d) \<le> d_calls d + length evs"
proof (induction evs arbitrary: d)
  case (Cons e evs)
  have "d_calls (dispatch_event env e d) \<le> Suc (d_calls d)"
    by (simp add: dispatch_event_def Let_def split: option.split)
  with Cons [of "dispatch_event env e d"] show ?case by simp
qed simp

lemma dispatch_loop_calls: "d_calls (dispatch_loop env n d) \<le> d_calls d + n"
proof (induction env n d rule: dispatch_loop.induct)
  case (1 env n d)
  let ?evs = "fetch_pending (dv_now env (d_calls d)) (dv_locked env) n (d_outbox d)"
  have l: "length ?evs \<le> n" by (rule fetch_length)
  show ?case
  proof (cases "n = 0 \<or> ?evs = []")
    case True
    then show ?thesis by (subst dispatch_loop.simps) auto
  next
    case False
    then have "dispatch_loop env n d = dispatch_loop env (n - length ?evs) (fold (dispatch_event env) ?evs d)"
      by (subst dispatch_loop.simps) (simp add: Let_def)
    with False 1 l fold_dispatch_calls [of env ?evs d] show ?thesis by fastforce
  qed
qed

text \<open>A pending event has tries left, and its backoff is in range.\<close>

definition retries_ok :: "disp_state \<Rightarrow> bool" where
  "retries_ok d \<longleftrightarrow> (\<forall>e\<in>set (d_outbox d). 0 \<le> o_retry e \<and> o_retry e \<le> o_max_retries e \<and>
     (o_status e = outbox_pending \<longrightarrow> o_retry e < o_max_retries e))"

lemma retries_ok_step:
  assumes "disp_inv d" "retries_ok d" "is_head (d_outbox d) e"
  shows "retries_ok (dispatch_event env e d)"
proof -
  have e: "e \<in> set (d_outbox d)" "0 \<le> o_retry e" "o_retry e < o_max_retries e"
    using assms(2,3) by (auto simp: retries_ok_def is_head_def)
  have uniq: "x = e" if "x \<in> set (d_outbox d)" "o_id x = o_id e" for x
    using that e(1) assms(1) by (auto simp: disp_inv_def places_ok_def distinct_map inj_on_def)
  let ?R = "\<lambda>x. 0 \<le> o_retry x \<and> o_retry x \<le> o_max_retries x \<and>
      (o_status x = outbox_pending \<longrightarrow> o_retry x < o_max_retries x)"
  have all: "\<forall>x\<in>set (update_where (\<lambda>x. o_id x = o_id e) g (d_outbox d)). ?R x" if "?R (g e)" for g
    using assms(2) that uniq by (auto simp: retries_ok_def set_update_where)
  have f: "\<forall>x\<in>set (mark_failed msg (o_id e) (d_outbox d)). ?R x" for msg
    unfolding mark_failed_def by (rule all) (use e in \<open>simp add: outbox_defs\<close>)
  have s: "\<forall>x\<in>set (mark_sent u (o_id e) (d_outbox d)). ?R x" for u
    unfolding mark_sent_def by (rule all) (use e in \<open>simp add: outbox_defs\<close>)
  have r: "\<forall>x\<in>set (mark_retry u msg (o_id e) (d_outbox d)). ?R x" if "o_retry e + 1 < o_max_retries e" for u msg
    unfolding mark_retry_def by (rule all) (use e that in simp)
  show ?thesis
    unfolding retries_ok_def dispatch_event_def using f s r by (simp add: Let_def split: option.split)
qed

text \<open>
  C31: a batch attempts at most a hundred sends, and no event is tried more often than its limit: a
  pending event always has a try left, and its count never passes the maximum.
\<close>

theorem batch_bounded:
  assumes "disp_inv d" "retries_ok d"
  shows "retries_ok (dispatch_batch env d) \<and> disp_inv (dispatch_batch env d) \<and>
    d_calls (dispatch_batch env d) \<le> d_calls d + 100"
proof -
  have "retries_ok (dispatch_loop env default_batch_size d)"
    using dispatch_loop_keeps [of d retries_ok env default_batch_size, OF assms] retries_ok_step by blast
  then show ?thesis
    using dispatch_loop_inv [OF assms(1)] dispatch_loop_calls [of env default_batch_size d]
    by (simp add: dispatch_batch_def default_batch_size_def)
qed

section \<open>Progress\<close>

text \<open>Kafka accepts, every topic has a producer, nothing is locked and every retry is due.\<close>

definition smooth :: "disp_env \<Rightarrow> disp_state \<Rightarrow> bool" where
  "smooth env d \<longleftrightarrow> (\<forall>n e. dv_send env n e = None) \<and>
     (\<forall>e\<in>set (d_outbox d). o_status e = outbox_pending \<longrightarrow>
        dv_has_producer env (o_topic e) \<and> \<not> dv_locked env (o_id e) \<and> (\<forall>n. is_due (dv_now env n) e))"

definition pending_count :: "disp_state \<Rightarrow> nat" where
  "pending_count d = length (filter (\<lambda>e. o_status e = outbox_pending) (d_outbox d))"

lemma smooth_dispatch:
  assumes "smooth env d" "is_head (d_outbox d) e"
  shows "d_outbox (dispatch_event env e d) = mark_sent (dv_now env (Suc (d_calls d))) (o_id e) (d_outbox d)"
  using assms by (auto simp: smooth_def is_head_def dispatch_event_def Let_def)

lemma pending_mark_sent:
  "distinct (map o_id ob) \<Longrightarrow> e \<in> set ob \<Longrightarrow> o_status e = outbox_pending \<Longrightarrow>
     length (filter (\<lambda>x. o_status x = outbox_pending) ob) =
     Suc (length (filter (\<lambda>x. o_status x = outbox_pending) (mark_sent t (o_id e) ob)))"
proof (induction ob)
  case (Cons x ob)
  show ?case
  proof (cases "x = e")
    case True
    then have "update_where (\<lambda>y. o_id y = o_id e) f ob = ob" for f
      using Cons.prems(1) by (induction ob) auto
    with True Cons.prems show ?thesis by (simp add: mark_sent_def outbox_defs)
  next
    case False
    with Cons.prems have "o_id x \<noteq> o_id e" by auto
    with False Cons show ?thesis by (simp add: mark_sent_def)
  qed
qed simp

lemma smooth_step:
  assumes "disp_inv d" "smooth env d" "is_head (d_outbox d) e"
  shows "smooth env (dispatch_event env e d)" "pending_count d = Suc (pending_count (dispatch_event env e d))"
proof -
  note out = smooth_dispatch [OF assms(2,3)]
  have "x \<in> set (d_outbox d)" if "x \<in> set (d_outbox (dispatch_event env e d))" "o_status x = outbox_pending" for x
    using that by (auto simp: out mark_sent_def set_update_where outbox_defs)
  then show "smooth env (dispatch_event env e d)" using assms(2) by (auto simp: smooth_def)
  show "pending_count d = Suc (pending_count (dispatch_event env e d))"
    unfolding pending_count_def out
    using assms(1,3) by (intro pending_mark_sent) (auto simp: disp_inv_def places_ok_def is_head_def)
qed

lemma smooth_fold:
  "disp_inv d \<Longrightarrow> smooth env d \<Longrightarrow> heads (d_outbox d) evs \<Longrightarrow>
     smooth env (fold (dispatch_event env) evs d) \<and>
     pending_count d = pending_count (fold (dispatch_event env) evs d) + length evs"
proof (induction evs arbitrary: d)
  case (Cons e evs)
  have "is_head (d_outbox d) e" using Cons.prems(3) by (simp add: heads_def)
  note s = smooth_step [OF Cons.prems(1,2) this]
  show ?case using Cons.IH [of "dispatch_event env e d"] heads_step [OF Cons.prems(1,3)] s by simp
qed simp

definition drained :: "disp_state \<Rightarrow> bool" where
  "drained d \<longleftrightarrow> (\<forall>e\<in>set (d_outbox d). o_status e = outbox_pending \<longrightarrow> blocked_by_older (d_outbox d) e)"

lemma smooth_fetch_empty:
  assumes "smooth env d" "fetch_pending (dv_now env k) (dv_locked env) (Suc n) (d_outbox d) = []"
  shows "drained d"
proof -
  have "set (sort_by dispatch_le (filter (\<lambda>e. is_due (dv_now env k) e \<and> \<not> blocked_by_older (d_outbox d) e \<and>
      \<not> dv_locked env (o_id e)) (d_outbox d))) = {}"
    using assms(2) by (simp add: fetch_pending_def)
  then have "blocked_by_older (d_outbox d) e \<or> dv_locked env (o_id e)"
    if "e \<in> set (d_outbox d)" "is_due (dv_now env k) e" for e
    using that by auto
  with assms(1) show ?thesis unfolding drained_def smooth_def by blast
qed

lemma smooth_loop:
  "disp_inv d \<Longrightarrow> smooth env d \<Longrightarrow> pending_count d \<le> n \<Longrightarrow> drained (dispatch_loop env n d)"
proof (induction n arbitrary: d rule: less_induct)
  case (less n)
  let ?evs = "fetch_pending (dv_now env (d_calls d)) (dv_locked env) n (d_outbox d)"
  have h: "heads (d_outbox d) ?evs" using less.prems fetch_heads_apart by (simp add: disp_inv_def)
  show ?case
  proof (cases "n = 0")
    case True
    then have "filter (\<lambda>e. o_status e = outbox_pending) (d_outbox d) = []"
      using less.prems by (simp add: pending_count_def)
    then have "drained d" by (auto simp: drained_def filter_empty_conv)
    with True show ?thesis by (simp add: dispatch_loop.simps)
  next
    case False
    show ?thesis
    proof (cases "?evs = []")
      case True
      with False less.prems have "drained d" by (cases n) (auto dest: smooth_fetch_empty)
      with True show ?thesis by (simp add: dispatch_loop.simps)
    next
      case evs: False
      let ?d' = "fold (dispatch_event env) ?evs d"
      have "n - length ?evs < n" using evs False by (cases ?evs) simp_all
      moreover have "disp_inv ?d'" "smooth env ?d'" "pending_count ?d' \<le> n - length ?evs"
        using fold_dispatch_inv [OF less.prems(1) h] smooth_fold [OF less.prems(1,2) h] less.prems(3)
        by auto
      ultimately have "drained (dispatch_loop env (n - length ?evs) ?d')" by (rule less.IH)
      with evs False show ?thesis by (subst dispatch_loop.simps) (simp add: Let_def)
    qed
  qed
qed

lemma drained_failed:
  assumes "drained d" "e \<in> set (d_outbox d)" "o_status e = outbox_pending"
  shows "\<exists>f\<in>set (d_outbox d). o_conv f = o_conv e \<and> o_pub_seq f < o_pub_seq e \<and>
    o_status f \<noteq> outbox_pending \<and> o_status f \<noteq> outbox_sent"
proof -
  let ?S = "{x \<in> set (d_outbox d). o_conv x = o_conv e \<and> o_status x = outbox_pending}"
  have "finite (o_pub_seq ` ?S)" by simp
  moreover have "o_pub_seq ` ?S \<noteq> {}" using assms(2,3) by auto
  ultimately have "Min (o_pub_seq ` ?S) \<in> o_pub_seq ` ?S" by (rule Min_in)
  then obtain x where x: "x \<in> ?S" "o_pub_seq x = Min (o_pub_seq ` ?S)" by force
  have least: "o_pub_seq x \<le> o_pub_seq y" if "y \<in> ?S" for y
    using that x(2) by (simp add: Min_le)
  from assms(1) x(1) obtain f where f: "f \<in> set (d_outbox d)" "o_conv f = o_conv x"
      "o_status f \<noteq> outbox_sent" "o_pub_seq f < o_pub_seq x"
    by (auto simp: drained_def blocked_by_older_def)
  have "o_status f \<noteq> outbox_pending" using least [of f] f x(1) by force
  moreover have "o_pub_seq f < o_pub_seq e" using f(4) least [of e] assms(2,3) by simp
  ultimately show ?thesis using f x(1) by auto
qed

text \<open>
  C32: the outbox drains. When Kafka accepts, every topic has a producer, no row is locked and every
  retry is due, one batch sends everything it can: if at most a hundred events were pending, each
  event still pending afterwards stands behind a failed event of its own conversation.
\<close>

theorem batch_drains:
  assumes "disp_inv d" "smooth env d" "pending_count d \<le> 100"
    and "e \<in> set (d_outbox (dispatch_batch env d))" "o_status e = outbox_pending"
  shows "\<exists>f\<in>set (d_outbox (dispatch_batch env d)). o_conv f = o_conv e \<and>
    o_pub_seq f < o_pub_seq e \<and> o_status f \<noteq> outbox_pending \<and> o_status f \<noteq> outbox_sent"
proof -
  have "drained (dispatch_batch env d)"
    unfolding dispatch_batch_def using assms(1,2) by (rule smooth_loop) (simp add: assms(3) default_batch_size_def)
  then show ?thesis using assms(4,5) by (rule drained_failed)
qed

section \<open>At a concrete outbox\<close>

definition demo_event :: "string \<Rightarrow> int \<Rightarrow> int \<Rightarrow> outbox_event" where
  "demo_event i n st = \<lparr>o_id = i, o_conv = ''c1'', o_pub_seq = n, o_topic = ''message.created'',
     o_key = ''c1'', o_payload = Change no_change, o_status = st, o_retry = 0, o_max_retries = 10,
     o_next_retry = None, o_last_error = [], o_created = 0, o_dispatched = None\<rparr>"

definition demo_disp_env :: disp_env where
  "demo_disp_env = \<lparr>dv_now = (\<lambda>_. 0), dv_locked = (\<lambda>_. False), dv_has_producer = (\<lambda>_. True),
     dv_send = (\<lambda>_ _. None)\<rparr>"

definition demo_disp :: disp_state where
  "demo_disp = \<lparr>d_outbox = [demo_event ''e1'' 1 outbox_pending, demo_event ''e2'' 2 outbox_failed,
     demo_event ''e3'' 3 outbox_pending], d_log = [], d_calls = 0\<rparr>"

lemma demo_disp_inv: "disp_inv demo_disp" "retries_ok demo_disp" "smooth demo_disp_env demo_disp"
  by (simp_all add: disp_inv_def demo_disp_def demo_event_def places_ok_def pub_pos_def order_inv_def
      conv_log_def firsts_def outbox_defs retries_ok_def smooth_def demo_disp_env_def is_due_def)

theorem failed_event_blocks_witness:
  "demo_event ''e2'' 2 outbox_failed \<in> set (d_outbox (dispatch_batch demo_disp_env demo_disp))"
proof -
  have "demo_event ''e2'' 2 outbox_failed \<in> set (d_outbox demo_disp)"
    "o_status (demo_event ''e2'' 2 outbox_failed) = outbox_failed"
    by (simp_all add: demo_disp_def demo_event_def)
  from failed_event_blocks [OF demo_disp_inv(1) this] show ?thesis by blast
qed

theorem batch_bounded_witness:
  "retries_ok (dispatch_batch demo_disp_env demo_disp)"
  using batch_bounded [OF demo_disp_inv(1,2)] by blast

theorem batch_drains_witness:
  "\<exists>f\<in>set (d_outbox (dispatch_batch demo_disp_env demo_disp)). o_pub_seq f = 2 \<or> o_pub_seq f = 1"
proof -
  have "\<exists>e\<in>set (d_outbox (dispatch_batch demo_disp_env demo_disp)). o_status e = outbox_pending \<and> o_pub_seq e = 3 \<and>
      o_conv e = ''c1''"
    by code_simp
  then obtain e where e: "e \<in> set (d_outbox (dispatch_batch demo_disp_env demo_disp))"
      "o_status e = outbox_pending" "o_pub_seq e = 3"
    by blast
  have "pending_count demo_disp \<le> 100" by code_simp
  from batch_drains [OF demo_disp_inv(1,3) this e(1,2)] obtain f
    where f: "f \<in> set (d_outbox (dispatch_batch demo_disp_env demo_disp))" "o_pub_seq f < 3"
    using e(3) by auto
  have "\<forall>f\<in>set (d_outbox (dispatch_batch demo_disp_env demo_disp)). o_pub_seq f \<in> {1, 2, 3}" by code_simp
  with f show ?thesis by force
qed

end
