(* ===== verification/Inbox.thy ===== *)
theory Inbox
  imports Msg_Store
begin

text \<open>
  The per-user change stream of \<^verbatim>\<open>repo/inbox_repo.go\<close>: writing a batch of changes (\<open>BatchInsert\<close>),
  reserving a stream (\<open>EnsureStream\<close>), reading a page (\<open>ReadPage\<close>) and retention (\<open>Prune\<close>). The row
  lock of a stream serialises its writers, so each operation is one function of the three tables
  \<^verbatim>\<open>inbox_streams\<close>, \<^verbatim>\<open>inbox_entries\<close> and \<^verbatim>\<open>inbox_applied_changes\<close>. Times are nanoseconds.
\<close>

section \<open>Tables\<close>

record inbox_entry =
  ie_user :: string
  ie_pos :: int
  ie_conv :: string
  ie_message :: "string option"
  ie_kind :: string
  ie_change :: string
  ie_last_read :: int
  ie_created :: int

record inbox_stream =
  st_pos :: int
  st_retained :: int

record applied_change =
  ap_user :: string
  ap_change :: string
  ap_pos :: "int option"
  ap_created :: int

record inbox_db =
  streams :: "string \<rightharpoonup> inbox_stream"
  entries :: "inbox_entry list"
  applied :: "applied_change list"

definition empty_inbox :: inbox_db where
  "empty_inbox = \<lparr>streams = Map.empty, entries = [], applied = []\<rparr>"

section \<open>Writing a batch\<close>

definition check_entry :: "(string \<Rightarrow> bool) \<Rightarrow> inbox_entry \<Rightarrow> err + unit" where
  "check_entry vid e =
     (if \<not> vid (ie_user e) \<or> \<not> vid (ie_conv e) \<or> \<not> vid (ie_change e)
      then Inl (Plain ''inbox entry requires a user, conversation and change'')
      else if \<not> (case ie_message e of None \<Rightarrow> True | Some m \<Rightarrow> vid m)
      then Inl (Plain ''invalid inbox message identity'')
      else if is_message_kind (ie_kind e) then
        (if ie_message e = None then Inl (Plain ''message change requires a message'') else Inr ())
      else if ie_kind e = kind_upsert \<or> ie_kind e = kind_removed then Inr ()
      else if ie_kind e = kind_read then
        map_err (\<lambda>_. Plain ''read sequence outside safe integer range'') (seq_validate (ie_last_read e))
      else Inl (Plain ''unknown inbox kind''))"

definition entry_le :: "inbox_entry \<Rightarrow> inbox_entry \<Rightarrow> bool" where
  "entry_le a b = str_le (ie_user a) (ie_user b)"

definition cur_position :: "inbox_db \<Rightarrow> string \<Rightarrow> int" where
  "cur_position db u = (case streams db u of None \<Rightarrow> 0 | Some s \<Rightarrow> st_pos s)"

definition retained_position :: "inbox_db \<Rightarrow> string \<Rightarrow> int" where
  "retained_position db u = (case streams db u of None \<Rightarrow> 0 | Some s \<Rightarrow> st_retained s)"

text \<open>\<^verbatim>\<open>INSERT ... ON CONFLICT DO NOTHING\<close> of an empty stream.\<close>

definition create_stream :: "string \<Rightarrow> inbox_db \<Rightarrow> inbox_db" where
  "create_stream u db =
     (case streams db u of
        None \<Rightarrow> db\<lparr>streams := (streams db)(u \<mapsto> \<lparr>st_pos = 0, st_retained = 0\<rparr>)\<rparr>
      | Some _ \<Rightarrow> db)"

definition next_position :: "inbox_db \<Rightarrow> string \<Rightarrow> err + (int \<times> inbox_db)" where
  "next_position db u =
     (case streams db u of
        None \<Rightarrow> Inl RecordNotFound
      | Some s \<Rightarrow> rbind (seq_next (st_pos s)) (\<lambda>n.
          Inr (n, db\<lparr>streams := (streams db)(u \<mapsto> s\<lparr>st_pos := n\<rparr>)\<rparr>)))"

definition is_applied :: "string \<Rightarrow> string \<Rightarrow> inbox_db \<Rightarrow> bool" where
  "is_applied u ch db \<longleftrightarrow> (\<exists>a\<in>set (applied db). ap_user a = u \<and> ap_change a = ch)"

definition old_read :: "inbox_entry \<Rightarrow> inbox_db \<Rightarrow> inbox_entry option" where
  "old_read e db =
     find (\<lambda>x. ie_user x = ie_user e \<and> ie_conv x = ie_conv e \<and> ie_kind x = ie_kind e) (entries db)"

definition delete_entry :: "inbox_entry \<Rightarrow> inbox_db \<Rightarrow> inbox_db" where
  "delete_entry old db =
     db\<lparr>entries := filter (\<lambda>x. \<not> (ie_user x = ie_user old \<and> ie_pos x = ie_pos old)) (entries db)\<rparr>"

text \<open>
  The entry's row under its constraints (primary key, unique change, range of the read position),
  and the allocated position recorded with the applied change.
\<close>

definition create_entry :: "inbox_entry \<Rightarrow> inbox_db \<Rightarrow> err + inbox_db" where
  "create_entry e db =
     (if (\<exists>x\<in>set (entries db). ie_user x = ie_user e \<and> (ie_pos x = ie_pos e \<or> ie_change x = ie_change e)) \<or>
         \<not> (0 \<le> ie_last_read e \<and> ie_last_read e \<le> seq_max)
      then Inl (Violation ''inbox_entries'')
      else Inr (db\<lparr>entries := entries db @ [e],
        applied := update_where (\<lambda>a. ap_user a = ie_user e \<and> ap_change a = ie_change e)
          (\<lambda>a. a\<lparr>ap_pos := Some (ie_pos e), ap_created := ie_created e\<rparr>) (applied db)\<rparr>))"

definition append_entry :: "inbox_entry \<Rightarrow> inbox_db \<Rightarrow> err + inbox_db" where
  "append_entry e db =
     rbind (map_err (\<lambda>_. Plain ''inbox position'') (next_position db (ie_user e))) (\<lambda>(n, db1).
       create_entry (e\<lparr>ie_pos := n\<rparr>) db1)"

definition insert_entry :: "int \<Rightarrow> inbox_entry \<Rightarrow> inbox_db \<Rightarrow> err + inbox_db" where
  "insert_entry t e db =
     (if is_applied (ie_user e) (ie_change e) db then Inr db
      else let db1 = db\<lparr>applied := applied db @ [\<lparr>ap_user = ie_user e, ap_change = ie_change e,
                 ap_pos = None, ap_created = t\<rparr>]\<rparr> in
        if ie_kind e = kind_read then
          (case old_read e db1 of
             None \<Rightarrow> append_entry e db1
           | Some old \<Rightarrow>
               if ie_last_read old \<ge> ie_last_read e then Inr db1
               else append_entry e (delete_entry old db1))
        else append_entry e db1)"

definition batch_insert :: "(string \<Rightarrow> bool) \<Rightarrow> int \<Rightarrow> inbox_entry list \<Rightarrow> inbox_db \<Rightarrow> err + inbox_db" where
  "batch_insert vid t es db =
     (if es = [] then Inr db
      else rbind (check_all (check_entry vid) es) (\<lambda>_.
        let sorted = sort_by entry_le es
        in rfold (insert_entry t) sorted (fold create_stream (map ie_user sorted) db)))"

section \<open>Reserving a stream\<close>

definition ensure_stream :: "(string \<Rightarrow> bool) \<Rightarrow> string \<Rightarrow> inbox_db \<Rightarrow> err + inbox_db" where
  "ensure_stream vid u db =
     (if \<not> vid u then Inl (Plain ''invalid entity identity'')
      else if 0 < cur_position db u then Inr db
      else Inr (db\<lparr>streams := (streams db)(u \<mapsto> \<lparr>st_pos = 1, st_retained = 1\<rparr>)\<rparr>))"

section \<open>Reading a page\<close>

definition list_max :: "int list \<Rightarrow> int" where
  "list_max xs = foldr max xs 0"

text \<open>The allocated positions of a user older than a time, of entries and of applied changes.\<close>

definition expired_positions :: "string \<Rightarrow> int \<Rightarrow> inbox_db \<Rightarrow> int list" where
  "expired_positions u cutoff db =
     map ie_pos (filter (\<lambda>e. ie_user e = u \<and> ie_created e < cutoff) (entries db)) @
     List.map_filter (\<lambda>a. if ap_user a = u \<and> ap_created a < cutoff then ap_pos a else None) (applied db)"

definition expired_position :: "string \<Rightarrow> int \<Rightarrow> inbox_db \<Rightarrow> int" where
  "expired_position u cutoff db = list_max (expired_positions u cutoff db)"

definition is_allocated :: "string \<Rightarrow> int \<Rightarrow> inbox_db \<Rightarrow> bool" where
  "is_allocated u p db \<longleftrightarrow> (\<exists>e\<in>set (entries db). ie_user e = u \<and> ie_pos e = p) \<or>
     (\<exists>a\<in>set (applied db). ap_user a = u \<and> ap_pos a = Some p)"

record inbox_page =
  pg_entries :: "inbox_entry list"
  pg_next :: int
  pg_more :: bool
  pg_rebuild :: string

definition rebuild_reason :: "string \<Rightarrow> int \<Rightarrow> int \<Rightarrow> inbox_stream \<Rightarrow> inbox_db \<Rightarrow> string" where
  "rebuild_reason u p cutoff s db =
     (let floor = max (st_retained s) (expired_position u cutoff db) in
      if p = 0 then ''new_device''
      else if p > st_pos s then ''unknown_position''
      else if p < floor then ''expired_position''
      else if p \<noteq> st_pos s \<and> p \<noteq> floor \<and> \<not> is_allocated u p db then ''unknown_position''
      else [])"

definition pos_le :: "inbox_entry \<Rightarrow> inbox_entry \<Rightarrow> bool" where
  "pos_le a b \<longleftrightarrow> ie_pos a \<le> ie_pos b"

definition entries_after :: "string \<Rightarrow> int \<Rightarrow> int \<Rightarrow> inbox_db \<Rightarrow> inbox_entry list" where
  "entries_after u p end_pos db =
     sort_by pos_le (filter (\<lambda>e. ie_user e = u \<and> p < ie_pos e \<and> ie_pos e \<le> end_pos) (entries db))"

definition read_page :: "string \<Rightarrow> int \<Rightarrow> nat \<Rightarrow> int \<Rightarrow> inbox_db \<Rightarrow> err + inbox_page" where
  "read_page u p limit cutoff db =
     rbind (seq_validate p) (\<lambda>_.
     case streams db u of
       None \<Rightarrow> Inl RecordNotFound
     | Some s \<Rightarrow>
         let reason = rebuild_reason u p cutoff s db in
         if reason \<noteq> [] then
           Inr \<lparr>pg_entries = [], pg_next = st_pos s, pg_more = False, pg_rebuild = reason\<rparr>
         else let found = take (limit + 1) (entries_after u p (st_pos s) db) in
           if length found > limit then
             Inr \<lparr>pg_entries = take limit found, pg_next = ie_pos (last (take limit found)),
                  pg_more = True, pg_rebuild = []\<rparr>
           else Inr \<lparr>pg_entries = found, pg_next = st_pos s, pg_more = False, pg_rebuild = []\<rparr>)"

section \<open>Retention\<close>

definition expired_users :: "int \<Rightarrow> inbox_db \<Rightarrow> string list" where
  "expired_users cutoff db =
     sort_by str_le (remdups (map ie_user (filter (\<lambda>e. ie_created e < cutoff) (entries db)) @
       map ap_user (filter (\<lambda>a. ap_pos a \<noteq> None \<and> ap_created a < cutoff) (applied db))))"

definition prune_user :: "int \<Rightarrow> string \<Rightarrow> inbox_db \<Rightarrow> err + (nat \<times> inbox_db)" where
  "prune_user cutoff u db =
     (case streams db u of
        None \<Rightarrow> Inl RecordNotFound
      | Some s \<Rightarrow>
          let boundary = expired_position u cutoff db;
              gone = (\<lambda>e. ie_user e = u \<and> ie_pos e \<le> boundary)
          in if boundary = 0 then Inr (0, db)
             else Inr (length (filter gone (entries db)),
               db\<lparr>entries := filter (\<lambda>e. \<not> gone e) (entries db),
                  streams := (streams db)(u \<mapsto> s\<lparr>st_retained := max (st_retained s) boundary\<rparr>)\<rparr>))"

text \<open>Each user is pruned in a transaction of its own: an error keeps what was done before it.\<close>

fun prune_users :: "int \<Rightarrow> string list \<Rightarrow> inbox_db \<Rightarrow> nat \<times> err option \<times> inbox_db" where
  "prune_users cutoff [] db = (0, None, db)"
| "prune_users cutoff (u # us) db =
     (case prune_user cutoff u db of
        Inl e \<Rightarrow> (0, Some e, db)
      | Inr (n, db1) \<Rightarrow> (case prune_users cutoff us db1 of (k, err, db2) \<Rightarrow> (n + k, err, db2)))"

definition prune :: "int \<Rightarrow> inbox_db \<Rightarrow> nat \<times> err option \<times> inbox_db" where
  "prune cutoff db = prune_users cutoff (expired_users cutoff db) db"

section \<open>The stream is an allocator\<close>

lemma next_position_Inr:
  "next_position db u = Inr (n, db') \<longleftrightarrow>
     (\<exists>s. streams db u = Some s \<and> 0 \<le> st_pos s \<and> st_pos s < seq_max \<and> n = st_pos s + 1 \<and>
        db' = db\<lparr>streams := (streams db)(u \<mapsto> s\<lparr>st_pos := n\<rparr>)\<rparr>)"
  by (auto simp: next_position_def res_simps split: option.splits)

interpretation inbox_seq: seq_alloc next_position cur_position
  by unfold_locales (auto simp: next_position_Inr cur_position_def split: option.splits)

end
