(* ===== verification/Inbox_Laws.thy ===== *)
theory Inbox_Laws
  imports Inbox
begin

text \<open>
  The invariant of the inbox: positions of a stream lie between its retained boundary and its end
  and are used once, every entry is recorded as applied under its position, and a conversation has
  at most one read entry per user.
\<close>

section \<open>The invariant\<close>

definition stream_ok :: "inbox_db \<Rightarrow> bool" where
  "stream_ok db \<longleftrightarrow> (\<forall>u s. streams db u = Some s \<longrightarrow>
     0 \<le> st_retained s \<and> st_retained s \<le> st_pos s \<and> st_pos s \<le> seq_max)"

definition entry_ok :: "inbox_db \<Rightarrow> inbox_entry \<Rightarrow> bool" where
  "entry_ok db e \<longleftrightarrow> streams db (ie_user e) \<noteq> None \<and>
     retained_position db (ie_user e) < ie_pos e \<and> ie_pos e \<le> cur_position db (ie_user e) \<and>
     (\<exists>a\<in>set (applied db). ap_user a = ie_user e \<and> ap_change a = ie_change e \<and> ap_pos a = Some (ie_pos e))"

definition applied_ok :: "inbox_db \<Rightarrow> applied_change \<Rightarrow> bool" where
  "applied_ok db a \<longleftrightarrow> streams db (ap_user a) \<noteq> None \<and>
     (\<forall>p. ap_pos a = Some p \<longrightarrow> 1 \<le> p \<and> p \<le> cur_position db (ap_user a))"

definition place_of :: "inbox_entry \<Rightarrow> string \<times> int" where
  "place_of e = (ie_user e, ie_pos e)"

definition applied_key :: "applied_change \<Rightarrow> string \<times> string" where
  "applied_key a = (ap_user a, ap_change a)"

definition read_key :: "inbox_entry \<Rightarrow> string \<times> string" where
  "read_key e = (ie_user e, ie_conv e)"

definition is_read :: "inbox_entry \<Rightarrow> bool" where
  "is_read e \<longleftrightarrow> ie_kind e = kind_read"

definition inbox_inv :: "inbox_db \<Rightarrow> bool" where
  "inbox_inv db \<longleftrightarrow> stream_ok db \<and> (\<forall>e\<in>set (entries db). entry_ok db e) \<and>
     (\<forall>a\<in>set (applied db). applied_ok db a) \<and>
     distinct (map place_of (entries db)) \<and> distinct (map applied_key (applied db)) \<and>
     distinct (map read_key (filter is_read (entries db)))"

lemma inbox_inv_empty: "inbox_inv empty_inbox"
  by (simp add: inbox_inv_def stream_ok_def empty_inbox_def)

lemma stream_ok_bounds:
  "stream_ok db \<Longrightarrow> 0 \<le> retained_position db u \<and> retained_position db u \<le> cur_position db u"
  by (auto simp: stream_ok_def retained_position_def cur_position_def split: option.split)

section \<open>Streams\<close>

lemma create_stream_cur [simp]:
  "cur_position (create_stream u db) v = cur_position db v"
  "retained_position (create_stream u db) v = retained_position db v"
  "entries (create_stream u db) = entries db" "applied (create_stream u db) = applied db"
  by (auto simp: create_stream_def cur_position_def retained_position_def split: option.split)

lemma create_stream_streams:
  "streams (create_stream u db) v =
     (if v = u \<and> streams db u = None then Some \<lparr>st_pos = 0, st_retained = 0\<rparr> else streams db v)"
  by (auto simp: create_stream_def split: option.split)

lemma seq_max_pos: "0 \<le> seq_max"
  by (simp add: seq_max_def)

lemma create_stream_inv: "inbox_inv db \<Longrightarrow> inbox_inv (create_stream u db)"
  by (auto simp: inbox_inv_def stream_ok_def entry_ok_def applied_ok_def
      create_stream_streams seq_max_pos)

lemma create_streams_inv: "inbox_inv db \<Longrightarrow> inbox_inv (fold create_stream us db)"
  by (induction us arbitrary: db) (simp_all add: create_stream_inv)

lemma create_streams_exist:
  "u \<in> set us \<or> streams db u \<noteq> None \<Longrightarrow> streams (fold create_stream us db) u \<noteq> None"
  by (induction us arbitrary: db) (auto simp: create_stream_streams)

lemma create_streams_frame:
  "entries (fold create_stream us db) = entries db" "applied (fold create_stream us db) = applied db"
  "cur_position (fold create_stream us db) v = cur_position db v"
  "retained_position (fold create_stream us db) v = retained_position db v"
  by (induction us arbitrary: db) simp_all

section \<open>One entry\<close>

definition note_applied :: "int \<Rightarrow> inbox_entry \<Rightarrow> inbox_db \<Rightarrow> inbox_db" where
  "note_applied t e db = db\<lparr>applied := applied db @ [\<lparr>ap_user = ie_user e, ap_change = ie_change e,
     ap_pos = None, ap_created = t\<rparr>]\<rparr>"

lemma insert_entry_cases:
  assumes "insert_entry t e db = Inr db'"
  obtains (known) "is_applied (ie_user e) (ie_change e) db" "db' = db"
  | (stale) old where "\<not> is_applied (ie_user e) (ie_change e) db" "is_read e"
      "old_read e db = Some old" "ie_last_read e \<le> ie_last_read old" "db' = note_applied t e db"
  | (newer) old where "\<not> is_applied (ie_user e) (ie_change e) db" "is_read e"
      "old_read e db = Some old" "ie_last_read old < ie_last_read e"
      "append_entry e (delete_entry old (note_applied t e db)) = Inr db'"
  | (fresh) "\<not> is_applied (ie_user e) (ie_change e) db" "is_read e \<longrightarrow> old_read e db = None"
      "append_entry e (note_applied t e db) = Inr db'"
proof -
  have o: "old_read e (db\<lparr>applied := x\<rparr>) = old_read e db" for x by (simp add: old_read_def)
  show thesis
    using assms that unfolding insert_entry_def note_applied_def is_read_def
    by (auto simp: Let_def o split: if_splits option.splits)
qed

lemma append_entry_Inr:
  "append_entry e db = Inr db' \<longleftrightarrow>
     (\<exists>s. streams db (ie_user e) = Some s \<and> 0 \<le> st_pos s \<and> st_pos s < seq_max \<and>
        (\<forall>x\<in>set (entries db). ie_user x = ie_user e \<longrightarrow> ie_pos x \<noteq> st_pos s + 1 \<and> ie_change x \<noteq> ie_change e) \<and>
        0 \<le> ie_last_read e \<and> ie_last_read e \<le> seq_max \<and>
        db' = db\<lparr>streams := (streams db)(ie_user e \<mapsto> s\<lparr>st_pos := st_pos s + 1\<rparr>),
                 entries := entries db @ [e\<lparr>ie_pos := st_pos s + 1\<rparr>],
                 applied := update_where (\<lambda>a. ap_user a = ie_user e \<and> ap_change a = ie_change e)
                   (\<lambda>a. a\<lparr>ap_pos := Some (st_pos s + 1), ap_created := ie_created e\<rparr>) (applied db)\<rparr>)"
proof (cases "next_position db (ie_user e)")
  case (Inl err)
  then have "\<not> (\<exists>s. streams db (ie_user e) = Some s \<and> 0 \<le> st_pos s \<and> st_pos s < seq_max)"
    by (metis next_position_Inr Inl_Inr_False)
  with Inl show ?thesis by (auto simp: append_entry_def)
next
  case (Inr r)
  then obtain s where "streams db (ie_user e) = Some s" "0 \<le> st_pos s" "st_pos s < seq_max"
      "r = (st_pos s + 1, db\<lparr>streams := (streams db)(ie_user e \<mapsto> s\<lparr>st_pos := st_pos s + 1\<rparr>)\<rparr>)"
    by (cases r) (auto simp: next_position_Inr)
  with Inr show ?thesis by (auto simp: append_entry_def create_entry_def)
qed

lemma note_applied_base:
  assumes "inbox_inv db" "\<not> is_applied (ie_user e) (ie_change e) db" "streams db (ie_user e) \<noteq> None"
  shows "inbox_inv (note_applied t e db)"
proof -
  have c: "cur_position (note_applied t e db) = cur_position db"
    "retained_position (note_applied t e db) = retained_position db"
    by (simp_all add: note_applied_def cur_position_def retained_position_def fun_eq_iff)
  show ?thesis
    using assms unfolding inbox_inv_def
    by (auto simp: note_applied_def stream_ok_def entry_ok_def applied_ok_def c [unfolded note_applied_def]
        applied_key_def is_applied_def)
qed

lemma delete_entry_base: "inbox_inv db \<Longrightarrow> inbox_inv (delete_entry old db)"
proof -
  assume "inbox_inv db"
  moreover have "cur_position (delete_entry old db) = cur_position db"
    "retained_position (delete_entry old db) = retained_position db"
    by (simp_all add: delete_entry_def cur_position_def retained_position_def fun_eq_iff)
  moreover have "distinct (map read_key (filter is_read (filter P xs)))"
    if "distinct (map read_key (filter is_read xs))" for P xs
    using that by (simp add: filter_filter conj_commute distinct_map_filter [of read_key "filter is_read xs" P, simplified])
  ultimately show ?thesis
    by (simp add: inbox_inv_def delete_entry_def stream_ok_def entry_ok_def applied_ok_def distinct_map_filter)
qed

lemma append_entry_base:
  assumes base: "inbox_inv db" and run: "append_entry e db = Inr db'"
    and app: "\<exists>a\<in>set (applied db). ap_user a = ie_user e \<and> ap_change a = ie_change e \<and> ap_pos a = None"
    and rd: "is_read e \<Longrightarrow> read_key e \<notin> set (map read_key (filter is_read (entries db)))"
  shows "inbox_inv db'"
proof -
  let ?u = "ie_user e"
  from run obtain s where s: "streams db ?u = Some s" "0 \<le> st_pos s" "st_pos s < seq_max"
    and un: "\<forall>x\<in>set (entries db). ie_user x = ?u \<longrightarrow> ie_pos x \<noteq> st_pos s + 1 \<and> ie_change x \<noteq> ie_change e"
    and db': "db' = db\<lparr>streams := (streams db)(?u \<mapsto> s\<lparr>st_pos := st_pos s + 1\<rparr>),
                 entries := entries db @ [e\<lparr>ie_pos := st_pos s + 1\<rparr>],
                 applied := update_where (\<lambda>a. ap_user a = ?u \<and> ap_change a = ie_change e)
                   (\<lambda>a. a\<lparr>ap_pos := Some (st_pos s + 1), ap_created := ie_created e\<rparr>) (applied db)\<rparr>"
    by (auto simp: append_entry_Inr)
  have cur: "cur_position db' v = (if v = ?u then st_pos s + 1 else cur_position db v)" for v
    by (simp add: db' cur_position_def)
  have cur_u: "cur_position db ?u = st_pos s" by (simp add: cur_position_def s)
  have ret: "retained_position db' v = retained_position db v" for v
    by (simp add: db' retained_position_def s)
  have rb: "retained_position db ?u \<le> st_pos s"
    using base stream_ok_bounds [of db ?u] cur_u by (simp add: inbox_inv_def)
  then have rs: "st_retained s \<le> st_pos s + 1" by (simp add: retained_position_def s)
  have st: "stream_ok db'" using base s rs by (auto simp: inbox_inv_def stream_ok_def db')
  have keep: "\<exists>a'\<in>set (applied db'). applied_key a' = applied_key a \<and>
      ap_pos a' = (if ap_user a = ?u \<and> ap_change a = ie_change e then Some (st_pos s + 1) else ap_pos a)"
    if "a \<in> set (applied db)" for a
    using that by (intro bexI [of _ "if ap_user a = ?u \<and> ap_change a = ie_change e
        then a\<lparr>ap_pos := Some (st_pos s + 1), ap_created := ie_created e\<rparr> else a"])
      (auto simp: db' set_update_where applied_key_def)
  have origin: "\<exists>a\<in>set (applied db). applied_key a' = applied_key a \<and>
      ap_pos a' = (if ap_user a = ?u \<and> ap_change a = ie_change e then Some (st_pos s + 1) else ap_pos a)"
    if "a' \<in> set (applied db')" for a'
    using that by (auto simp: db' set_update_where applied_key_def)
  have old: "entry_ok db' x" if x: "x \<in> set (entries db)" for x
  proof -
    have ok: "entry_ok db x" using base x by (simp add: inbox_inv_def)
    then obtain a where a: "a \<in> set (applied db)" "ap_user a = ie_user x" "ap_change a = ie_change x"
        "ap_pos a = Some (ie_pos x)"
      by (auto simp: entry_ok_def)
    have "\<not> (ap_user a = ?u \<and> ap_change a = ie_change e)" using un x a by auto
    with keep [OF a(1)] a obtain a' where "a' \<in> set (applied db')" "ap_user a' = ie_user x"
        "ap_change a' = ie_change x" "ap_pos a' = Some (ie_pos x)"
      by (auto simp: applied_key_def)
    then show ?thesis
      using ok cur_u unfolding entry_ok_def ret cur by (auto simp: db')
  qed
  have new: "entry_ok db' (e\<lparr>ie_pos := st_pos s + 1\<rparr>)"
  proof -
    from app obtain a where "a \<in> set (applied db)" "ap_user a = ?u" "ap_change a = ie_change e" by blast
    with keep obtain a' where "a' \<in> set (applied db')" "ap_user a' = ?u" "ap_change a' = ie_change e"
        "ap_pos a' = Some (st_pos s + 1)"
      by (fastforce simp: applied_key_def)
    then show ?thesis using rb unfolding entry_ok_def ret cur by (auto simp: db')
  qed
  have ap: "applied_ok db' a'" if a': "a' \<in> set (applied db')" for a'
  proof -
    obtain a where a: "a \<in> set (applied db)" "applied_key a' = applied_key a"
      "ap_pos a' = (if ap_user a = ?u \<and> ap_change a = ie_change e then Some (st_pos s + 1) else ap_pos a)"
      using origin [OF a'] by blast
    have "applied_ok db a" using base a(1) by (simp add: inbox_inv_def)
    then show ?thesis
      using a(2,3) s cur_u unfolding applied_ok_def cur by (auto simp: db' applied_key_def split: if_splits)
  qed
  have "map applied_key (applied db') = map applied_key (applied db)"
    by (simp add: db' map_update_where applied_key_def)
  moreover have "distinct (map place_of (entries db'))" "distinct (map read_key (filter is_read (entries db')))"
    using base un rd by (auto simp: inbox_inv_def db' place_of_def is_read_def read_key_def)
  ultimately show ?thesis
    using base st old new ap by (auto simp: inbox_inv_def db')
qed

lemma old_read_SomeD:
  "old_read e db = Some old \<Longrightarrow> old \<in> set (entries db) \<and> ie_user old = ie_user e \<and>
     ie_conv old = ie_conv e \<and> ie_kind old = ie_kind e"
  unfolding old_read_def by (auto dest: find_SomeD)

lemma old_read_None:
  "old_read e db = None \<Longrightarrow> is_read e \<Longrightarrow> read_key e \<notin> set (map read_key (filter is_read (entries db)))"
  by (auto simp: old_read_def find_None_iff_all read_key_def is_read_def)

lemma deleted_read_key:
  assumes "distinct (map place_of (entries db))" "distinct (map read_key (filter is_read (entries db)))"
    "old_read e db = Some old" "is_read e"
  shows "read_key e \<notin> set (map read_key (filter is_read (entries (delete_entry old db))))"
proof
  note D = old_read_SomeD [OF assms(3)]
  assume "read_key e \<in> set (map read_key (filter is_read (entries (delete_entry old db))))"
  then obtain x where x: "x \<in> set (entries db)" "is_read x" "read_key x = read_key e"
      "\<not> (ie_user x = ie_user old \<and> ie_pos x = ie_pos old)"
    by (auto simp: delete_entry_def)
  have "x \<in> set (filter is_read (entries db))" "old \<in> set (filter is_read (entries db))"
    "read_key x = read_key old"
    using x D assms(4) by (auto simp: is_read_def read_key_def)
  with assms(2) have "x = old" by (metis distinct_map inj_onD)
  with x(4) show False by simp
qed

lemma insert_entry_inv:
  assumes inv: "inbox_inv db" and st: "streams db (ie_user e) \<noteq> None"
    and run: "insert_entry t e db = Inr db'"
  shows "inbox_inv db'"
  using run
proof (cases rule: insert_entry_cases)
  case known
  with inv show ?thesis by simp
next
  case stale
  with inv st show ?thesis by (auto intro: note_applied_base)
next
  case (newer old)
  let ?db1 = "note_applied t e db"
  have b1: "inbox_inv ?db1" using inv st newer(1) by (simp add: note_applied_base)
  have b2: "inbox_inv (delete_entry old ?db1)" using b1 by (rule delete_entry_base)
  have old1: "old_read e ?db1 = Some old" using newer(3) by (simp add: old_read_def note_applied_def)
  have rk: "read_key e \<notin> set (map read_key (filter is_read (entries (delete_entry old ?db1))))"
    using b1 old1 newer(2) by (intro deleted_read_key) (simp_all add: inbox_inv_def)
  have app: "\<exists>a\<in>set (applied (delete_entry old ?db1)). ap_user a = ie_user e \<and> ap_change a = ie_change e \<and> ap_pos a = None"
    by (simp add: note_applied_def delete_entry_def)
  show ?thesis using b2 newer(5) app rk by (rule append_entry_base)
next
  case fresh
  let ?db1 = "note_applied t e db"
  have b1: "inbox_inv ?db1" using inv st fresh(1) by (simp add: note_applied_base)
  have rk: "is_read e \<Longrightarrow> read_key e \<notin> set (map read_key (filter is_read (entries ?db1)))"
    using fresh(2) old_read_None [of e ?db1] by (simp add: old_read_def note_applied_def)
  have app: "\<exists>a\<in>set (applied ?db1). ap_user a = ie_user e \<and> ap_change a = ie_change e \<and> ap_pos a = None"
    by (simp add: note_applied_def)
  show ?thesis using b1 fresh(3) app rk by (rule append_entry_base)
qed

end
