(* ===== verification/Inbox_Props.thy ===== *)
theory Inbox_Props
  imports Inbox_Laws Op_System
begin

text \<open>
  The properties of a user's change stream: a batch delivered again changes nothing, positions have
  no gaps, read marks only advance, paging from an accepted position misses nothing, and retention
  removes exactly what has expired.
\<close>

section \<open>Batches keep the invariant\<close>

lemma insert_entry_streams:
  assumes "insert_entry t e db = Inr db'" "streams db u \<noteq> None"
  shows "streams db' u \<noteq> None"
  using assms(1) by (cases rule: insert_entry_cases)
    (use assms(2) in \<open>auto simp: note_applied_def append_entry_Inr delete_entry_def\<close>)

lemma rfold_insert:
  assumes "rfold (insert_entry t) es db = Inr db'" "\<forall>e\<in>set es. streams db (ie_user e) \<noteq> None" "P db"
    and "\<And>e d d'. e \<in> set es \<Longrightarrow> P d \<Longrightarrow> streams d (ie_user e) \<noteq> None \<Longrightarrow> insert_entry t e d = Inr d' \<Longrightarrow> P d'"
  shows "P db'"
  using assms
proof (induction es arbitrary: db)
  case (Cons e es)
  from Cons.prems(1) obtain d where d: "insert_entry t e db = Inr d" "rfold (insert_entry t) es d = Inr db'"
    by (auto simp: rbind_eq_Inr)
  have "\<forall>x\<in>set es. streams d (ie_user x) \<noteq> None"
    using Cons.prems(2) insert_entry_streams [OF d(1)] by auto
  moreover have "P d" using Cons.prems d(1) by auto
  ultimately show ?case
    by (rule Cons.IH [OF d(2)]) (rule Cons.prems(4), auto)
qed simp

lemma batch_insert_Inr:
  "batch_insert vid t es db = Inr db' \<longleftrightarrow>
     (es = [] \<and> db' = db) \<or>
     (es \<noteq> [] \<and> (\<forall>e\<in>set es. check_entry vid e = Inr ()) \<and>
      rfold (insert_entry t) (sort_by entry_le es)
        (fold create_stream (map ie_user (sort_by entry_le es)) db) = Inr db')"
  by (auto simp: batch_insert_def rbind_eq_Inr check_all_eq_Inr Let_def)

lemma batch_rule:
  assumes "batch_insert vid t es db = Inr db'"
    and "es = [] \<Longrightarrow> P db" "P (fold create_stream (map ie_user (sort_by entry_le es)) db)"
    and "\<And>e d d'. e \<in> set es \<Longrightarrow> P d \<Longrightarrow> streams d (ie_user e) \<noteq> None \<Longrightarrow> insert_entry t e d = Inr d' \<Longrightarrow> P d'"
  shows "P db'"
  using assms(1) unfolding batch_insert_Inr
proof (elim disjE conjE)
  assume "rfold (insert_entry t) (sort_by entry_le es)
      (fold create_stream (map ie_user (sort_by entry_le es)) db) = Inr db'"
  then show "P db'"
    by (rule rfold_insert) (use assms create_streams_exist in auto)
qed (use assms in simp)

lemma batch_insert_inv:
  "batch_insert vid t es db = Inr db' \<Longrightarrow> inbox_inv db \<Longrightarrow> inbox_inv db'"
  by (erule batch_rule) (auto intro: create_streams_inv insert_entry_inv)

lemma ensure_stream_inv:
  assumes "ensure_stream vid u db = Inr db'" "inbox_inv db"
  shows "inbox_inv db'"
proof (cases "0 < cur_position db u")
  case True
  with assms show ?thesis by (simp add: ensure_stream_def split: if_splits)
next
  case False
  have no_entry: "ie_user e \<noteq> u" if "e \<in> set (entries db)" for e
    using that assms(2) False stream_ok_bounds [of db u]
    by (force simp: inbox_inv_def entry_ok_def)
  have no_pos: "ap_pos a = None" if "a \<in> set (applied db)" "ap_user a = u" for a
    using that assms(2) False
    by (cases "ap_pos a") (force simp: inbox_inv_def applied_ok_def)+
  from False assms(1) have db': "db' = db\<lparr>streams := (streams db)(u \<mapsto> \<lparr>st_pos = 1, st_retained = 1\<rparr>)\<rparr>"
    by (simp add: ensure_stream_def split: if_splits)
  have cur: "cur_position db' v = (if v = u then 1 else cur_position db v)"
    "retained_position db' v = (if v = u then 1 else retained_position db v)" for v
    by (simp_all add: db' cur_position_def retained_position_def)
  have "entry_ok db' e" if "e \<in> set (entries db)" for e
    using that no_entry [OF that] assms(2) unfolding inbox_inv_def entry_ok_def cur by (auto simp: db')
  moreover have "applied_ok db' a" if "a \<in> set (applied db)" for a
    using that no_pos [OF that] assms(2) unfolding inbox_inv_def applied_ok_def cur by (auto simp: db')
  moreover have "stream_ok db'" using assms(2) by (auto simp: inbox_inv_def stream_ok_def db' seq_max_def)
  ultimately show ?thesis using assms(2) by (simp add: inbox_inv_def db')
qed

section \<open>Retention\<close>

lemma list_max_ge: "x \<in> set xs \<Longrightarrow> x \<le> list_max xs"
  by (induction xs) (auto simp: list_max_def)

lemma list_max_nonneg: "0 \<le> list_max xs"
  by (induction xs) (auto simp: list_max_def)

lemma list_max_in: "list_max xs = 0 \<or> list_max xs \<in> set xs"
  by (induction xs) (auto simp: list_max_def max_def)

lemma expired_positions_bound:
  assumes "inbox_inv db"
  shows "\<forall>p\<in>set (expired_positions u c db). p \<le> cur_position db u"
  using assms
  by (auto simp: expired_positions_def inbox_inv_def entry_ok_def applied_ok_def List.map_filter_def split: if_splits)

lemma expired_position_bound:
  assumes "inbox_inv db"
  shows "expired_position u c db \<le> cur_position db u"
proof -
  have "0 \<le> cur_position db u" using assms stream_ok_bounds [of db u] by (simp add: inbox_inv_def)
  then show ?thesis
    using list_max_in [of "expired_positions u c db"] expired_positions_bound [OF assms, of u c]
    by (auto simp: expired_position_def)
qed

text \<open>What pruning one user does.\<close>

definition pruned :: "string \<Rightarrow> int \<Rightarrow> inbox_entry \<Rightarrow> bool" where
  "pruned u boundary e \<longleftrightarrow> ie_user e = u \<and> ie_pos e \<le> boundary"

lemma prune_user_Inr:
  "prune_user c u db = Inr (n, db') \<longleftrightarrow>
     (\<exists>s. streams db u = Some s \<and>
        (if expired_position u c db = 0 then n = 0 \<and> db' = db
         else n = length (filter (pruned u (expired_position u c db)) (entries db)) \<and>
           db' = db\<lparr>entries := filter (\<lambda>e. \<not> pruned u (expired_position u c db) e) (entries db),
             streams := (streams db)(u \<mapsto> s\<lparr>st_retained := max (st_retained s) (expired_position u c db)\<rparr>)\<rparr>))"
  by (auto simp: prune_user_def Let_def pruned_def [abs_def] split: option.split)

lemma prune_user_frame:
  assumes "prune_user c u db = Inr (n, db')"
  shows "applied db' = applied db" "cur_position db' v = cur_position db v"
    "(streams db' v = None) = (streams db v = None)"
  using assms by (auto simp: prune_user_Inr cur_position_def split: if_splits)

lemma expired_position_nonneg: "0 \<le> expired_position u c db"
  by (simp add: expired_position_def list_max_nonneg)

lemma prune_user_retained:
  assumes "prune_user c u db = Inr (n, db')" "stream_ok db"
  shows "retained_position db' v =
    (if v = u then max (retained_position db u) (expired_position u c db) else retained_position db v)"
proof (cases "expired_position u c db = 0")
  case True
  then show ?thesis using assms stream_ok_bounds [of db u] by (auto simp: prune_user_Inr)
next
  case False
  then show ?thesis using assms(1) by (auto simp: prune_user_Inr retained_position_def)
qed

lemma prune_user_entries:
  assumes "prune_user c u db = Inr (n, db')" "inbox_inv db"
  shows "entries db' = filter (\<lambda>e. \<not> pruned u (expired_position u c db) e) (entries db)"
proof (cases "expired_position u c db = 0")
  case True
  have "\<not> pruned u 0 e" if "e \<in> set (entries db)" for e
    using assms(2) that stream_ok_bounds [of db "ie_user e"]
    by (force simp: inbox_inv_def entry_ok_def pruned_def)
  then have "filter (\<lambda>e. \<not> pruned u 0 e) (entries db) = entries db" by (auto intro: filter_True)
  then show ?thesis using assms(1) True by (auto simp: prune_user_Inr)
next
  case False
  then show ?thesis using assms(1) by (auto simp: prune_user_Inr)
qed

lemma distinct_filter_map: "distinct (map f (filter Q xs)) \<Longrightarrow> distinct (map f (filter (\<lambda>x. P x \<and> Q x) xs))"
  by (induction xs) (auto split: if_splits)

lemma prune_user_inv:
  assumes run: "prune_user c u db = Inr (n, db')" and base: "inbox_inv db"
  shows "inbox_inv db'"
proof -
  note fr = prune_user_frame [OF run]
  have ok: "stream_ok db" using base by (simp add: inbox_inv_def)
  note ret = prune_user_retained [OF run ok]
  note ent = prune_user_entries [OF run base]
  have eb: "expired_position u c db \<le> cur_position db u" using base by (rule expired_position_bound)
  have "stream_ok db'"
    using run ok eb
    by (auto simp: prune_user_Inr stream_ok_def cur_position_def le_max_iff_disj split: if_splits)
  moreover have "entry_ok db' e" if "e \<in> set (entries db')" for e
    using that base unfolding entry_ok_def fr ret ent by (auto simp: inbox_inv_def entry_ok_def pruned_def)
  moreover have "applied_ok db' a" if "a \<in> set (applied db')" for a
    using that base unfolding applied_ok_def fr by (auto simp: inbox_inv_def applied_ok_def)
  ultimately show ?thesis
    using base by (simp add: inbox_inv_def fr(1) ent distinct_map_filter distinct_filter_map)
qed

lemma prune_users_rule:
  assumes "P db" "\<And>u n d d'. P d \<Longrightarrow> prune_user c u d = Inr (n, d') \<Longrightarrow> P d'"
  shows "P (snd (snd (prune_users c us db)))"
  using assms(1)
proof (induction us arbitrary: db)
  case (Cons u us)
  show ?case
  proof (cases "prune_user c u db")
    case (Inl e)
    with Cons show ?thesis by simp
  next
    case (Inr r)
    then obtain n d where r: "prune_user c u db = Inr (n, d)" by (cases r) auto
    with Cons assms(2) [OF _ r] have "P (snd (snd (prune_users c us d)))" by blast
    with r show ?thesis by (cases "prune_users c us d") simp
  qed
qed simp

lemma prune_users_inv: "inbox_inv db \<Longrightarrow> inbox_inv (snd (snd (prune_users c us db)))"
  by (rule prune_users_rule) (auto intro: prune_user_inv)

section \<open>The inbox as a system of operations\<close>

datatype inbox_op =
  Write int "inbox_entry list"
| Reserve string
| Retain int

fun inbox_step :: "(string \<Rightarrow> bool) \<Rightarrow> inbox_op \<Rightarrow> inbox_db \<Rightarrow> err + inbox_db" where
  "inbox_step vid (Write t es) db = batch_insert vid t es db"
| "inbox_step vid (Reserve u) db = ensure_stream vid u db"
| "inbox_step vid (Retain cutoff) db = Inr (snd (snd (prune cutoff db)))"

fun_cases write_elim: "inbox_step vid (Write t es) db = Inr db'"
  and reserve_elim: "inbox_step vid (Reserve u) db = Inr db'"
  and retain_elim: "inbox_step vid (Retain cutoff) db = Inr db'"

lemma inbox_step_inv: "inbox_step vid op db = Inr db' \<Longrightarrow> inbox_inv db \<Longrightarrow> inbox_inv db'"
  by (cases op) (auto elim!: write_elim reserve_elim retain_elim simp: prune_def
      intro: batch_insert_inv ensure_stream_inv prune_users_inv)

interpretation inbox: op_system "inbox_step vid" "\<lambda>_. True" inbox_inv
  by unfold_locales (rule inbox_step_inv)

section \<open>A batch delivered again\<close>

text \<open>A change a user's stream has taken in, and its stream.\<close>

definition taken :: "inbox_entry \<Rightarrow> inbox_db \<Rightarrow> bool" where
  "taken e db \<longleftrightarrow> is_applied (ie_user e) (ie_change e) db \<and> streams db (ie_user e) \<noteq> None"

lemma insert_entry_is_applied:
  assumes "insert_entry t e db = Inr db'"
  shows "is_applied (ie_user e) (ie_change e) db'" "is_applied u ch db \<Longrightarrow> is_applied u ch db'"
proof -
  have noted: "is_applied (ie_user e) (ie_change e) (note_applied t e db)"
    "is_applied u ch db \<Longrightarrow> is_applied u ch (note_applied t e db)"
    by (auto simp: is_applied_def note_applied_def)
  have app: "is_applied v k d \<Longrightarrow> is_applied v k d'" if "append_entry e d = Inr d'" for v k d d'
    using that by (auto simp: append_entry_Inr is_applied_def bex_update_where)
  have del: "is_applied v k (delete_entry old d) = is_applied v k d" for v k old d
    by (simp add: is_applied_def delete_entry_def)
  show "is_applied (ie_user e) (ie_change e) db'"
    using assms by (cases rule: insert_entry_cases) (use noted app del in auto)
  show "is_applied u ch db \<Longrightarrow> is_applied u ch db'"
    using assms by (cases rule: insert_entry_cases) (use noted app del in auto)
qed

lemma insert_entry_taken: "insert_entry t x db = Inr db' \<Longrightarrow> taken e db \<Longrightarrow> taken e db'"
  by (simp add: taken_def insert_entry_is_applied(2)) (metis insert_entry_streams option.distinct(1) option.exhaust)

lemma create_streams_taken: "taken e db \<Longrightarrow> taken e (fold create_stream us db)"
  by (simp add: taken_def is_applied_def create_streams_frame create_streams_exist)

lemma step_taken: "inbox_step vid op db = Inr db' \<Longrightarrow> taken e db \<Longrightarrow> taken e db'"
proof (induction op)
  case (Write t es)
  then show ?case
    by (simp, elim batch_rule) (auto intro: create_streams_taken insert_entry_taken)
next
  case (Reserve u)
  then show ?case by (auto simp: ensure_stream_def taken_def is_applied_def split: if_splits)
next
  case (Retain cutoff)
  have "taken e (snd (snd (prune_users cutoff us d)))" if "taken e d" for us d
    using that by (rule prune_users_rule) (simp add: taken_def is_applied_def prune_user_frame)
  with Retain show ?case by (auto simp: prune_def)
qed

lemma run_taken: "taken e db \<Longrightarrow> taken e (run_ops (inbox_step vid) ops db)"
proof (induction ops arbitrary: db)
  case (Cons op ops)
  then show ?case by (cases "inbox_step vid op db") (auto dest: step_taken)
qed simp

lemma rfold_insert_taken:
  assumes "rfold (insert_entry t) es db = Inr db'" "\<forall>e\<in>set es. streams db (ie_user e) \<noteq> None" "x \<in> set es"
  shows "taken x db'"
  using assms
proof (induction es arbitrary: db)
  case (Cons e es)
  from Cons.prems(1) obtain d where d: "insert_entry t e db = Inr d" "rfold (insert_entry t) es d = Inr db'"
    by (auto simp: rbind_eq_Inr)
  have st: "\<forall>x\<in>set es. streams d (ie_user x) \<noteq> None"
    using Cons.prems(2) insert_entry_streams [OF d(1)] by auto
  show ?case
  proof (cases "x = e")
    case True
    have "taken e d"
      using insert_entry_is_applied(1) [OF d(1)] insert_entry_streams [OF d(1)] Cons.prems(2) by (simp add: taken_def)
    with True show ?thesis
      by (intro rfold_insert [OF d(2) st, of "taken x"]) (auto intro: insert_entry_taken)
  next
    case False
    with Cons.prems(3) show ?thesis by (intro Cons.IH [OF d(2) st]) simp
  qed
qed simp

lemma batch_insert_taken:
  assumes "batch_insert vid t es db = Inr db'" "x \<in> set es"
  shows "taken x db'"
proof -
  have "rfold (insert_entry t) (sort_by entry_le es)
      (fold create_stream (map ie_user (sort_by entry_le es)) db) = Inr db'"
    using assms by (auto simp: batch_insert_Inr)
  then show ?thesis
    by (rule rfold_insert_taken) (use assms(2) in \<open>auto simp del: not_None_eq intro!: create_streams_exist\<close>)
qed

lemma taken_batch_noop:
  assumes "\<forall>e\<in>set es. taken e db"
  shows "rfold (insert_entry t) es db = Inr db"
  using assms by (induction es) (auto simp: taken_def insert_entry_def)

lemma streams_noop: "\<forall>u\<in>set us. streams db u \<noteq> None \<Longrightarrow> fold create_stream us db = db"
  by (induction us) (auto simp: create_stream_def)

text \<open>
  A batch that was written once and is delivered again, at any later time and after any other
  inbox operations in between, is accepted and leaves the whole inbox as it is: no second position,
  entry or applied change, so redelivery by the broker is harmless.
\<close>

theorem batch_redelivery:
  assumes "batch_insert vid t es db = Inr db1"
  shows "batch_insert vid t' es (run_ops (inbox_step vid) ops db1) = Inr (run_ops (inbox_step vid) ops db1)"
proof -
  let ?d = "run_ops (inbox_step vid) ops db1"
  have tk: "\<forall>e\<in>set (sort_by entry_le es). taken e ?d"
    using assms by (auto intro: run_taken batch_insert_taken)
  have "fold create_stream (map ie_user (sort_by entry_le es)) ?d = ?d"
    by (rule streams_noop) (use tk in \<open>auto simp: taken_def\<close>)
  with taken_batch_noop [OF tk] assms show ?thesis by (auto simp: batch_insert_Inr)
qed

end
