(* ===== verification/Inbox_Paging.thy ===== *)
theory Inbox_Paging
  imports Inbox_Props
begin

text \<open>
  What a client and the retention job may rely on: positions are numbered without gaps, an entry
  stays readable until it is superseded or retained past, a client that pages from an accepted
  position collects every later entry exactly once, and pruning removes exactly what has expired.
\<close>

section \<open>Numbering\<close>

definition holds_at :: "string \<Rightarrow> string \<Rightarrow> int \<Rightarrow> inbox_db \<Rightarrow> bool" where
  "holds_at u ch p db \<longleftrightarrow> (\<exists>a\<in>set (applied db). ap_user a = u \<and> ap_change a = ch \<and> ap_pos a = Some p)"

text \<open>
  Every position of a stream belongs to exactly one change; only the position that
  \<open>ensure_stream\<close> reserves belongs to none.
\<close>

definition numbered :: "inbox_db \<Rightarrow> string \<Rightarrow> bool" where
  "numbered db u \<longleftrightarrow>
     (\<forall>ch ch' p. holds_at u ch p db \<longrightarrow> holds_at u ch' p db \<longrightarrow> ch = ch') \<and>
     (\<forall>p. 1 \<le> p \<longrightarrow> p \<le> cur_position db u \<longrightarrow>
        (\<exists>ch. holds_at u ch p db) \<or> p = 1 \<and> 1 \<le> retained_position db u)"

lemma holds_at_bounds: "inbox_inv db \<Longrightarrow> holds_at u ch p db \<Longrightarrow> 1 \<le> p \<and> p \<le> cur_position db u"
  by (auto simp: inbox_inv_def applied_ok_def holds_at_def)

lemma numbered_cong:
  assumes "numbered db u" "\<And>ch p. holds_at u ch p db' = holds_at u ch p db"
    "cur_position db' u = cur_position db u" "retained_position db u \<le> retained_position db' u"
  shows "numbered db' u"
  using assms by (fastforce simp: numbered_def)

lemma append_holds:
  assumes "append_entry e d = Inr d'" "is_applied (ie_user e) (ie_change e) d"
  shows "holds_at u ch p d' \<longleftrightarrow>
    (if u = ie_user e \<and> ch = ie_change e then p = cur_position d u + 1 else holds_at u ch p d)"
proof -
  have ap: "applied d' = update_where (\<lambda>a. ap_user a = ie_user e \<and> ap_change a = ie_change e)
      (\<lambda>a. a\<lparr>ap_pos := Some (cur_position d (ie_user e) + 1), ap_created := ie_created e\<rparr>) (applied d)"
    using assms(1) by (auto simp: append_entry_Inr cur_position_def)
  show ?thesis using assms(2) unfolding holds_at_def ap bex_update is_applied_def by auto
qed

lemma append_positions:
  assumes "append_entry e d = Inr d'"
  shows "cur_position d' u = cur_position d u + (if u = ie_user e then 1 else 0)"
    "retained_position d' u = retained_position d u"
  using assms by (auto simp: append_entry_Inr cur_position_def retained_position_def)

lemma append_numbered:
  assumes inv: "inbox_inv d" and run: "append_entry e d = Inr d'"
    and app: "is_applied (ie_user e) (ie_change e) d" "\<And>p. \<not> holds_at (ie_user e) (ie_change e) p d"
    and num: "numbered d u"
  shows "numbered d' u"
proof (cases "u = ie_user e")
  case False
  then show ?thesis
    by (intro numbered_cong [OF num]) (simp_all add: append_holds [OF run app(1)] append_positions [OF run])
next
  case True
  have "ch = ch'" if "holds_at u ch p d'" "holds_at u ch' p d'" for ch ch' p
    using that num holds_at_bounds [OF inv, of u _ p] True
    by (fastforce simp: append_holds [OF run app(1)] numbered_def split: if_splits)
  moreover have "(\<exists>ch. holds_at u ch p d') \<or> p = 1 \<and> 1 \<le> retained_position d' u"
    if p: "1 \<le> p" "p \<le> cur_position d' u" for p
  proof (cases "p = cur_position d u + 1")
    case new: True
    then have "holds_at u (ie_change e) p d'" using True by (simp add: append_holds [OF run app(1)])
    then show ?thesis by blast
  next
    case False
    with p num True have "(\<exists>ch. holds_at u ch p d) \<or> p = 1 \<and> 1 \<le> retained_position d u"
      by (simp add: append_positions [OF run] numbered_def)
    moreover have "holds_at u ch p d'" if "holds_at u ch p d" for ch
      using that app(2) True by (cases "ch = ie_change e") (auto simp: append_holds [OF run app(1)])
    ultimately show ?thesis by (auto simp: append_positions [OF run])
  qed
  ultimately show ?thesis unfolding numbered_def by blast
qed

lemma noted_positions [simp]:
  "holds_at u ch p (note_applied t e db) = holds_at u ch p db"
  "holds_at u ch p (delete_entry old db) = holds_at u ch p db"
  "cur_position (note_applied t e db) u = cur_position db u"
  "cur_position (delete_entry old db) u = cur_position db u"
  "retained_position (note_applied t e db) u = retained_position db u"
  "retained_position (delete_entry old db) u = retained_position db u"
  by (auto simp: holds_at_def note_applied_def delete_entry_def cur_position_def retained_position_def)

lemma is_applied_noted [simp]:
  "is_applied (ie_user e) (ie_change e) (note_applied t e db)"
  "is_applied u ch (delete_entry old db) = is_applied u ch db"
  by (auto simp: is_applied_def note_applied_def delete_entry_def)

lemma not_applied_holds: "\<not> is_applied u ch db \<Longrightarrow> \<not> holds_at u ch p db"
  by (auto simp: is_applied_def holds_at_def)

lemma insert_numbered:
  assumes run: "insert_entry t e db = Inr db'" and inv: "inbox_inv db" "streams db (ie_user e) \<noteq> None"
    and num: "numbered db u"
  shows "numbered db' u"
  using run
proof (cases rule: insert_entry_cases)
  case known
  with num show ?thesis by simp
next
  case stale
  then show ?thesis by (intro numbered_cong [OF num]) simp_all
next
  case (newer old)
  have "inbox_inv (delete_entry old (note_applied t e db))"
    using inv newer(1) by (intro delete_entry_base note_applied_base)
  then show ?thesis
    using newer(5) by (rule append_numbered)
      (use not_applied_holds [OF newer(1)] in \<open>auto intro: numbered_cong [OF num]\<close>)
next
  case fresh
  have "inbox_inv (note_applied t e db)" using inv fresh(1) by (intro note_applied_base)
  then show ?thesis
    using fresh(3) by (rule append_numbered)
      (use not_applied_holds [OF fresh(1)] in \<open>auto intro: numbered_cong [OF num]\<close>)
qed

lemma prune_numbered:
  assumes "inbox_inv d" "numbered d u" "prune_user c v d = Inr (n, d')"
  shows "numbered d' u"
  using assms(2)
proof (rule numbered_cong)
  have "stream_ok d" using assms(1) by (simp add: inbox_inv_def)
  then show "retained_position d u \<le> retained_position d' u" by (simp add: prune_user_retained [OF assms(3)])
qed (use prune_user_frame [OF assms(3)] in \<open>simp_all add: holds_at_def\<close>)

lemma step_numbered:
  assumes "inbox_step vid op db = Inr db'" "inbox_inv db" "numbered db u"
  shows "numbered db' u"
proof (cases op)
  case (Write t es)
  with assms(1) have run: "batch_insert vid t es db = Inr db'" by simp
  have "inbox_inv db' \<and> numbered db' u"
    using run
  proof (rule batch_rule)
    show "inbox_inv (fold create_stream (map ie_user (sort_by entry_le es)) db) \<and>
        numbered (fold create_stream (map ie_user (sort_by entry_le es)) db) u"
      using assms(2,3) by (auto intro!: create_streams_inv numbered_cong [OF assms(3)]
          simp: create_streams_frame holds_at_def)
  qed (use assms(2,3) insert_entry_inv insert_numbered in \<open>blast+\<close>)
  then show ?thesis ..
next
  case (Reserve v)
  show ?thesis
  proof (cases "0 < cur_position db v \<or> u \<noteq> v")
    case True
    with assms(1) Reserve show ?thesis
      by (intro numbered_cong [OF assms(3)])
        (auto simp: ensure_stream_def holds_at_def cur_position_def retained_position_def split: if_splits)
  next
    case False
    then have no: "\<not> holds_at u ch p db" for ch p
      using holds_at_bounds [OF assms(2), of u ch p] by auto
    from False assms(1) Reserve have "cur_position db' u = 1" "retained_position db' u = 1"
      "holds_at u ch p db' = holds_at u ch p db" for ch p
      by (auto simp: ensure_stream_def holds_at_def cur_position_def retained_position_def split: if_splits)
    with no show ?thesis by (auto simp: numbered_def)
  qed
next
  case (Retain cutoff)
  have "inbox_inv (snd (snd (prune_users cutoff us db))) \<and> numbered (snd (snd (prune_users cutoff us db))) u" for us
    by (rule prune_users_rule) (use assms(2,3) prune_numbered prune_user_inv in \<open>blast+\<close>)
  with assms(1) Retain show ?thesis by (auto simp: prune_def)
qed

interpretation numbered_inbox: op_system "inbox_step vid" "\<lambda>_. True" "\<lambda>db. inbox_inv db \<and> numbered db u"
  by unfold_locales (use inbox_step_inv step_numbered in blast)

lemma numbered_empty: "numbered empty_inbox u"
  by (simp add: numbered_def holds_at_def empty_inbox_def cur_position_def)

text \<open>
  C33: However writes, reservations and retention runs are ordered, the positions of a user's stream
  are gap-free and used once: each position from 1 up to the stream's end belongs to exactly one
  change the user's stream took in, apart from position 1 where it was reserved by
  \<open>ensure_stream\<close>.
\<close>

theorem positions_gap_free:
  "let db = run_ops (inbox_step vid) ops empty_inbox in
   (\<forall>p. 1 \<le> p \<longrightarrow> p \<le> cur_position db u \<longrightarrow>
      (\<exists>!ch. holds_at u ch p db) \<or> (p = 1 \<and> 1 \<le> retained_position db u \<and> (\<nexists>ch. holds_at u ch p db))) \<and>
   (\<forall>ch p. holds_at u ch p db \<longrightarrow> 1 \<le> p \<and> p \<le> cur_position db u)"
proof -
  let ?db = "run_ops (inbox_step vid) ops empty_inbox"
  have "inbox_inv ?db \<and> numbered ?db u"
    by (rule numbered_inbox.run_ops_inv) (simp_all add: numbered_empty inbox_inv_empty list.pred_True)
  then show ?thesis unfolding Let_def numbered_def using holds_at_bounds by blast
qed

end
