(* ===== verification/Inbox_Client.thy ===== *)
theory Inbox_Client
  imports Inbox_Paging
begin

text \<open>
  The stream as its client sees it. An entry stays readable until it is retained past or a later
  read mark of its conversation supersedes it, whatever happens in between; a client that pages from
  an accepted position collects every later entry once, in order, and ends at the stream's end.
\<close>

section \<open>Entries survive\<close>

definition superseded :: "inbox_entry \<Rightarrow> inbox_entry \<Rightarrow> bool" where
  "superseded e e' \<longleftrightarrow> is_read e \<and> is_read e' \<and> read_key e' = read_key e \<and>
     ie_last_read e < ie_last_read e' \<and> ie_pos e < ie_pos e'"

definition carried :: "inbox_entry \<Rightarrow> inbox_db \<Rightarrow> bool" where
  "carried e db \<longleftrightarrow> e \<in> set (entries db) \<or> ie_pos e \<le> retained_position db (ie_user e) \<or>
     (\<exists>e'\<in>set (entries db). superseded e e')"

lemma carried_mono:
  assumes "carried e db" "set (entries db) \<subseteq> set (entries db')"
    "retained_position db (ie_user e) \<le> retained_position db' (ie_user e)"
  shows "carried e db'"
  using assms unfolding carried_def by (meson order_trans subsetD)

lemma superseded_trans: "superseded e e' \<Longrightarrow> superseded e' e'' \<Longrightarrow> superseded e e''"
  by (auto simp: superseded_def)

text \<open>Removing an entry that a new one supersedes keeps everything carried.\<close>

lemma carried_replace:
  assumes "carried e db" "retained_position db (ie_user e) \<le> retained_position db' (ie_user e)"
    and "\<And>x. x \<in> set (entries db) \<Longrightarrow> x \<noteq> old \<Longrightarrow> x \<in> set (entries db')"
    and "new \<in> set (entries db')" "superseded old new"
  shows "carried e db'"
proof (cases "e = old \<or> superseded e old")
  case True
  then have "superseded e new" using assms(5) superseded_trans by blast
  with assms(4) show ?thesis by (auto simp: carried_def)
next
  case False
  with assms(1-3) show ?thesis unfolding carried_def by (metis order_trans)
qed

lemma insert_carried:
  assumes run: "insert_entry t x db = Inr db'" and inv: "inbox_inv db" and car: "carried e db"
  shows "carried e db'"
  using run
proof (cases rule: insert_entry_cases)
  case known
  with car show ?thesis by simp
next
  case stale
  then show ?thesis by (intro carried_mono [OF car]) (simp_all, simp add: note_applied_def)
next
  case (newer old)
  note D = old_read_SomeD [OF newer(3)]
  let ?new = "x\<lparr>ie_pos := cur_position db (ie_user x) + 1\<rparr>"
  have ents: "entries db' = entries (delete_entry old db) @ [?new]"
    using newer(5) by (auto simp: append_entry_Inr delete_entry_def note_applied_def cur_position_def)
  have "entry_ok db old" using inv D by (simp add: inbox_inv_def)
  then have "superseded old ?new"
    using newer(2,4) D by (auto simp: superseded_def is_read_def read_key_def entry_ok_def)
  moreover have "y \<in> set (entries db')" if "y \<in> set (entries db)" "y \<noteq> old" for y
  proof -
    have "place_of y \<noteq> place_of old"
      using inv that D by (auto simp: inbox_inv_def distinct_map dest: inj_onD)
    with that show ?thesis by (auto simp: ents delete_entry_def place_of_def)
  qed
  ultimately show ?thesis
    by (intro carried_replace [OF car]) (auto simp: ents append_positions [OF newer(5)])
next
  case fresh
  then have "set (entries db) \<subseteq> set (entries db')"
    by (auto simp: append_entry_Inr note_applied_def)
  then show ?thesis by (intro carried_mono [OF car]) (auto simp: append_positions [OF fresh(3)])
qed

lemma prune_carried:
  assumes run: "prune_user c u d = Inr (n, d')" and inv: "inbox_inv d" and car: "carried e d"
  shows "carried e d'"
proof -
  have st: "stream_ok d" using inv by (simp add: inbox_inv_def)
  note ret = prune_user_retained [OF run st] and ent = prune_user_entries [OF run inv]
  have keep: "x \<in> set (entries d') \<or> ie_pos x \<le> retained_position d' (ie_user x)" if "x \<in> set (entries d)" for x
    using that unfolding ent ret by (auto simp: pruned_def)
  have mono: "retained_position d v \<le> retained_position d' v" for v unfolding ret by simp
  from car consider "e \<in> set (entries d)" | "ie_pos e \<le> retained_position d (ie_user e)"
    | e' where "e' \<in> set (entries d)" "superseded e e'"
    unfolding carried_def by blast
  then show ?thesis
  proof cases
    case 1
    with keep show ?thesis unfolding carried_def by blast
  next
    case 2
    with mono show ?thesis unfolding carried_def by (meson order_trans)
  next
    case 3
    then have u: "ie_user e' = ie_user e" "ie_pos e < ie_pos e'" by (auto simp: superseded_def read_key_def)
    from keep [OF 3(1)] show ?thesis
    proof
      assume "e' \<in> set (entries d')"
      with 3(2) show ?thesis unfolding carried_def by blast
    next
      assume "ie_pos e' \<le> retained_position d' (ie_user e')"
      with u show ?thesis unfolding carried_def by simp
    qed
  qed
qed

lemma step_carried:
  assumes "inbox_step vid op db = Inr db'" "inbox_inv db" "carried e db"
  shows "carried e db'"
proof (cases op)
  case (Write t es)
  with assms(1) have run: "batch_insert vid t es db = Inr db'" by simp
  have "inbox_inv db' \<and> carried e db'"
    using run
  proof (rule batch_rule)
    show "inbox_inv (fold create_stream (map ie_user (sort_by entry_le es)) db) \<and>
        carried e (fold create_stream (map ie_user (sort_by entry_le es)) db)"
      using assms(2) by (auto intro!: create_streams_inv carried_mono [OF assms(3)] simp: create_streams_frame)
  qed (use assms(2,3) insert_entry_inv insert_carried in \<open>blast+\<close>)
  then show ?thesis ..
next
  case (Reserve v)
  have st: "stream_ok db" using assms(2) by (simp add: inbox_inv_def)
  have "entries db' = entries db" "retained_position db (ie_user e) \<le> retained_position db' (ie_user e)"
    using assms(1) Reserve stream_ok_bounds [OF st, of "ie_user e"]
    by (auto simp: ensure_stream_def cur_position_def retained_position_def split: if_splits)
  then show ?thesis by (intro carried_mono [OF assms(3)]) simp_all
next
  case (Retain cutoff)
  have "inbox_inv (snd (snd (prune_users cutoff us db))) \<and> carried e (snd (snd (prune_users cutoff us db)))" for us
    by (rule prune_users_rule) (use assms(2,3) prune_carried prune_user_inv in \<open>blast+\<close>)
  with assms(1) Retain show ?thesis by (auto simp: prune_def)
qed

interpretation carried_inbox: op_system "inbox_step vid" "\<lambda>_. True" "\<lambda>db. inbox_inv db \<and> carried e db"
  by unfold_locales (use inbox_step_inv step_carried in blast)

section \<open>Paging\<close>

text \<open>A client asking for page after page; no answer within the given number of requests is \<open>None\<close>.\<close>

fun catch_up :: "nat \<Rightarrow> string \<Rightarrow> nat \<Rightarrow> int \<Rightarrow> int \<Rightarrow> inbox_db \<Rightarrow> (inbox_entry list \<times> int) option" where
  "catch_up 0 u limit cutoff p db = None"
| "catch_up (Suc k) u limit cutoff p db =
     (case read_page u p limit cutoff db of
        Inl _ \<Rightarrow> None
      | Inr pg \<Rightarrow>
          if pg_rebuild pg \<noteq> [] then None
          else if pg_more pg then
            map_option (\<lambda>(es, n). (pg_entries pg @ es, n)) (catch_up k u limit cutoff (pg_next pg) db)
          else Some (pg_entries pg, pg_next pg))"

lemma map_sorted_unique:
  fixes f :: "'a \<Rightarrow> int"
  assumes "sorted_wrt (\<lambda>a b. f a < f b) xs" "sorted_wrt (\<lambda>a b. f a < f b) ys" "set xs = set ys"
  shows "xs = ys"
  using assms
proof (induction xs arbitrary: ys)
  case (Cons x xs)
  then obtain y zs where ys: "ys = y # zs" by (cases ys) auto
  have "x = y"
  proof (rule ccontr)
    assume "x \<noteq> y"
    with Cons.prems(3) have "x \<in> set zs" "y \<in> set xs" unfolding ys by auto
    with Cons.prems(1,2) show False unfolding ys by fastforce
  qed
  moreover have "set xs = set zs" using Cons.prems \<open>x = y\<close> unfolding ys by force
  ultimately show ?case using Cons ys by auto
qed simp

abbreviation ascending :: "inbox_entry list \<Rightarrow> bool" where
  "ascending \<equiv> sorted_wrt (\<lambda>a b. ie_pos a < ie_pos b)"

lemma set_entries_after:
  "set (entries_after u p q db) = {e \<in> set (entries db). ie_user e = u \<and> p < ie_pos e \<and> ie_pos e \<le> q}"
  by (auto simp: entries_after_def)

lemma entries_after_ascending:
  assumes "inbox_inv db"
  shows "ascending (entries_after u p q db)"
proof -
  let ?xs = "filter (\<lambda>e. ie_user e = u \<and> p < ie_pos e \<and> ie_pos e \<le> q) (entries db)"
  have "distinct (map place_of ?xs)" using assms by (simp add: inbox_inv_def distinct_map_filter)
  then have "distinct (map ie_pos ?xs)"
    by (simp add: distinct_map inj_on_def place_of_def)
  then have d: "distinct (map ie_pos (entries_after u p q db))"
    unfolding entries_after_def by (rule distinct_sort_by)
  have "sorted_wrt pos_le (entries_after u p q db)"
    unfolding entries_after_def by (rule sort_by_sorted) (auto simp: pos_le_def)
  moreover have "sorted_wrt pos_le xs \<Longrightarrow> distinct (map ie_pos xs) \<Longrightarrow> ascending xs" for xs
    by (induction xs) (auto simp: pos_le_def order_le_less)
  ultimately show ?thesis using d by blast
qed

lemma entries_after_split:
  assumes inv: "inbox_inv db" and n: "0 < n" "n < length (entries_after u p e db)"
    and q: "q = ie_pos (last (take n (entries_after u p e db)))"
  shows "entries_after u q e db = drop n (entries_after u p e db)"
    "\<exists>x\<in>set (entries db). ie_user x = u \<and> ie_pos x = q" "p < q" "q \<le> e"
proof -
  let ?es = "entries_after u p e db"
  have asc: "ascending ?es" by (rule entries_after_ascending [OF inv])
  have ne: "take n ?es \<noteq> []" using n by auto
  have l: "last (take n ?es) = ?es ! (n - 1)" using n by (simp add: last_conv_nth [OF ne])
  have mem: "?es ! (n - 1) \<in> set ?es" using n by simp
  then show "\<exists>x\<in>set (entries db). ie_user x = u \<and> ie_pos x = q" "p < q" "q \<le> e"
    unfolding q l by (auto simp: set_entries_after)
  have le: "ie_pos x \<le> q" if "x \<in> set (take n ?es)" for x
  proof -
    from that obtain i where i: "i < n" "x = ?es ! i" using n by (auto simp: in_set_conv_nth)
    then show ?thesis
      using asc n unfolding q l by (cases "i = n - 1") (auto simp: sorted_wrt_iff_nth_less intro: less_imp_le)
  qed
  have gt: "q < ie_pos x" if "x \<in> set (drop n ?es)" for x
  proof -
    have "ascending (take n ?es @ drop n ?es)" using asc by simp
    moreover have "last (take n ?es) \<in> set (take n ?es)" using n by (intro last_in_set) auto
    ultimately show ?thesis using that unfolding q sorted_wrt_append by blast
  qed
  have "set (entries_after u q e db) = set (drop n ?es)"
  proof -
    have "set (entries_after u q e db) = {x \<in> set ?es. q < ie_pos x}"
      using \<open>p < q\<close> by (auto simp: set_entries_after)
    also have "\<dots> = {x \<in> set (take n ?es) \<union> set (drop n ?es). q < ie_pos x}"
      by (metis append_take_drop_id set_append)
    finally show ?thesis using le gt by fastforce
  qed
  then show "entries_after u q e db = drop n ?es"
    by (intro map_sorted_unique [where f = ie_pos]) (use entries_after_ascending [OF inv] asc sorted_wrt_drop in blast)+
qed

text \<open>What makes a position acceptable.\<close>

definition accepted :: "string \<Rightarrow> int \<Rightarrow> int \<Rightarrow> inbox_db \<Rightarrow> bool" where
  "accepted u p cutoff db \<longleftrightarrow> (\<exists>s. streams db u = Some s \<and> rebuild_reason u p cutoff s db = [])"

lemma accepted_iff:
  "accepted u p cutoff db \<longleftrightarrow> streams db u \<noteq> None \<and> p \<noteq> 0 \<and> p \<le> cur_position db u \<and>
     retained_position db u \<le> p \<and> expired_position u cutoff db \<le> p \<and>
     (p = cur_position db u \<or> p = max (retained_position db u) (expired_position u cutoff db) \<or> is_allocated u p db)"
proof (cases "streams db u")
  case None
  then show ?thesis by (simp add: accepted_def)
next
  case (Some s)
  then have "accepted u p cutoff db \<longleftrightarrow> rebuild_reason u p cutoff s db = []" by (simp add: accepted_def)
  then show ?thesis
    using Some by (auto simp: rebuild_reason_def Let_def cur_position_def retained_position_def)
qed

lemma read_page_accepted:
  assumes "accepted u p cutoff db" "0 \<le> p" "p \<le> seq_max"
  shows "read_page u p limit cutoff db =
    (let es = entries_after u p (cur_position db u) db in
     if limit < length es
     then Inr \<lparr>pg_entries = take limit es, pg_next = ie_pos (last (take limit es)), pg_more = True, pg_rebuild = []\<rparr>
     else Inr \<lparr>pg_entries = es, pg_next = cur_position db u, pg_more = False, pg_rebuild = []\<rparr>)"
proof -
  from assms(1) obtain s where s: "streams db u = Some s" "rebuild_reason u p cutoff s db = []"
    by (auto simp: accepted_def)
  then show ?thesis
    using assms(2,3) by (simp add: read_page_def seq_validate_def Let_def cur_position_def min_def)
qed

lemma read_page_starts:
  assumes "read_page u p limit cutoff db = Inr pg" "pg_rebuild pg = []"
  shows "accepted u p cutoff db \<and> 0 \<le> p \<and> p \<le> seq_max"
  using assms
  by (auto simp: read_page_def accepted_def rbind_eq_Inr Let_def seq_validate_def split: option.splits if_splits)

lemma catch_up_collects:
  assumes "inbox_inv db" "0 < limit" "accepted u p cutoff db" "0 \<le> p" "p \<le> seq_max"
    "length (entries_after u p (cur_position db u) db) < k"
  shows "catch_up k u limit cutoff p db =
    Some (entries_after u p (cur_position db u) db, cur_position db u)"
  using assms(3-6)
proof (induction k arbitrary: p)
  case (Suc k)
  let ?es = "entries_after u p (cur_position db u) db"
  show ?case
  proof (cases "limit < length ?es")
    case False
    then show ?thesis using Suc.prems by (simp add: read_page_accepted)
  next
    case True
    let ?q = "ie_pos (last (take limit ?es))"
    note split = entries_after_split [OF assms(1,2) True refl]
    have acc: "accepted u ?q cutoff db"
      using Suc.prems(1) split(2-4) Suc.prems(2) unfolding accepted_iff is_allocated_def by (intro conjI) auto
    have "cur_position db u \<le> seq_max"
      using assms(1) Suc.prems(1) by (auto simp: inbox_inv_def stream_ok_def accepted_def cur_position_def)
    then have "catch_up k u limit cutoff ?q db = Some (drop limit ?es, cur_position db u)"
      using Suc.IH [of ?q] acc split Suc.prems True assms(2) by simp
    then show ?thesis using Suc.prems True by (simp add: read_page_accepted Let_def)
  qed
qed simp

text \<open>
  C1: Nothing is missed. Take any entry of any state of the inbox and any later state, reached by
  further writes, reservations and retention runs. If the server answers the client's position with
  a page and not with a rebuild, and the entry's position is later than the client's, then asking
  page after page ends within as many requests as there are entries, at the end of the stream, and
  yields every later entry once in ascending order; the entry is among them, or it is a read mark
  and a later, higher read mark of the same conversation is among them.
\<close>

theorem paging_misses_nothing:
  assumes inv: "inbox_inv db" and e: "e \<in> set (entries db)"
    and later: "db' = run_ops (inbox_step vid) ops db"
    and page: "read_page (ie_user e) p limit cutoff db' = Inr pg" "pg_rebuild pg = []" "0 < limit"
    and after: "p < ie_pos e"
  shows "\<exists>got. catch_up (Suc (length (entries db'))) (ie_user e) limit cutoff p db' =
       Some (got, cur_position db' (ie_user e)) \<and>
     ascending got \<and>
     set got = {x \<in> set (entries db'). ie_user x = ie_user e \<and> p < ie_pos x} \<and>
     (e \<in> set got \<or> (\<exists>e'\<in>set got. superseded e e'))"
proof -
  let ?u = "ie_user e" and ?got = "entries_after (ie_user e) p (cur_position db' (ie_user e)) db'"
  have "inbox_inv db' \<and> carried e db'"
    unfolding later by (rule carried_inbox.run_ops_inv) (use inv e in \<open>simp_all add: carried_def list.pred_True\<close>)
  then have inv': "inbox_inv db'" and car: "carried e db'" by auto
  note acc = read_page_starts [OF page(1,2)]
  have got: "set ?got = {x \<in> set (entries db'). ie_user x = ?u \<and> p < ie_pos x}"
    using inv' by (auto simp: set_entries_after inbox_inv_def entry_ok_def)
  have "retained_position db' ?u \<le> p" using acc by (simp add: accepted_iff)
  with car after have here: "e \<in> set ?got \<or> (\<exists>e'\<in>set ?got. superseded e e')"
    unfolding carried_def got by (auto simp: superseded_def read_key_def)
  have "length ?got < Suc (length (entries db'))"
    by (simp add: entries_after_def le_imp_less_Suc)
  with inv' page(3) acc have "catch_up (Suc (length (entries db'))) ?u limit cutoff p db' =
      Some (?got, cur_position db' ?u)"
    by (intro catch_up_collects) auto
  with got here entries_after_ascending [OF inv'] show ?thesis by blast
qed

text \<open>A stream of three changes, two of them read marks, and a client at its reserved position.\<close>

definition demo_entry :: "string \<Rightarrow> string \<Rightarrow> int \<Rightarrow> inbox_entry" where
  "demo_entry ch k n = \<lparr>ie_user = ''u1'', ie_pos = 0, ie_conv = ''c1'',
     ie_message = (if k = kind_new then Some ''m1'' else None), ie_kind = k, ie_change = ch,
     ie_last_read = n, ie_created = 50\<rparr>"

definition demo_inbox :: inbox_db where
  "demo_inbox = run_ops (inbox_step (\<lambda>s. s \<noteq> []))
     [Reserve ''u1'', Write 60 [demo_entry ''a'' kind_new 0, demo_entry ''b'' kind_read 1]] empty_inbox"

lemma demo_inbox_inv: "inbox_inv demo_inbox"
  unfolding demo_inbox_def by (rule inbox.run_ops_inv) (simp_all add: inbox_inv_empty list.pred_True)

definition demo_mark :: inbox_entry where
  "demo_mark = (demo_entry ''b'' kind_read 1)\<lparr>ie_pos := 3\<rparr>"

definition demo_later :: inbox_db where
  "demo_later = run_ops (inbox_step (\<lambda>s. s \<noteq> [])) [Write 70 [demo_entry ''c'' kind_read 4]] demo_inbox"

lemma paging_misses_nothing_witness:
  "\<exists>got. catch_up (Suc (length (entries demo_later))) ''u1'' 1 10 1 demo_later = Some (got, 4) \<and>
     (\<exists>e'\<in>set got. superseded demo_mark e')"
proof -
  have e: "demo_mark \<in> set (entries demo_inbox)" by code_simp
  have u: "ie_user demo_mark = ''u1''" "ie_pos demo_mark = 3" by (simp_all add: demo_mark_def demo_entry_def)
  have "is_ok (read_page (ie_user demo_mark) 1 1 10 demo_later)" by code_simp
  then obtain pg where pg: "read_page (ie_user demo_mark) 1 1 10 demo_later = Inr pg" by (auto simp: is_ok_iff)
  have "(case read_page (ie_user demo_mark) 1 1 10 demo_later of Inl _ \<Rightarrow> False | Inr pg \<Rightarrow> pg_rebuild pg = [])" by code_simp
  with pg have reb: "pg_rebuild pg = []" by simp
  have cur: "cur_position demo_later ''u1'' = 4" by code_simp
  have gone: "demo_mark \<notin> set (entries demo_later)" by code_simp
  show ?thesis
    using paging_misses_nothing [OF demo_inbox_inv e demo_later_def pg reb] cur gone unfolding u by auto
qed

end
