(* ===== verification/Inbox_Retention.thy ===== *)
theory Inbox_Retention
  imports Inbox_Client
begin

text \<open>
  Retention removes exactly the entries at or below each user's newest expired position, in one
  pass that always finishes, and sends clients below that position to a rebuild. Read marks of a
  conversation only advance.
\<close>

section \<open>One pass over the users\<close>

lemma expired_positions_frame:
  assumes "prune_user c u db = Inr (n, d)" "inbox_inv db" "v \<noteq> u"
  shows "expired_position v c d = expired_position v c db"
proof -
  have "filter (\<lambda>e. ie_user e = v \<and> ie_created e < c) (entries d) =
      filter (\<lambda>e. ie_user e = v \<and> ie_created e < c) (entries db)"
    unfolding prune_user_entries [OF assms(1,2)] filter_filter
    by (rule filter_cong) (use assms(3) in \<open>auto simp: pruned_def\<close>)
  then show ?thesis by (simp add: expired_position_def expired_positions_def prune_user_frame [OF assms(1)])
qed

definition retained_past :: "string list \<Rightarrow> int \<Rightarrow> inbox_db \<Rightarrow> inbox_entry \<Rightarrow> bool" where
  "retained_past us c db e \<longleftrightarrow> ie_user e \<in> set us \<and> ie_pos e \<le> expired_position (ie_user e) c db"

lemma length_filter_disj:
  "(\<And>x. x \<in> set xs \<Longrightarrow> \<not> (P x \<and> Q x)) \<Longrightarrow>
     length (filter (\<lambda>x. P x \<or> Q x) xs) = length (filter P xs) + length (filter Q xs)"
  by (induction xs) auto

lemma prune_users_exact:
  assumes "distinct us" "\<forall>u\<in>set us. streams db u \<noteq> None" "inbox_inv db"
  shows "\<exists>d. prune_users c us db = (length (filter (retained_past us c db) (entries db)), None, d) \<and>
    entries d = filter (\<lambda>e. \<not> retained_past us c db e) (entries db) \<and>
    (\<forall>v. retained_position d v = (if v \<in> set us then max (retained_position db v) (expired_position v c db)
       else retained_position db v))"
  using assms
proof (induction us arbitrary: db)
  case Nil
  then show ?case by (simp add: retained_past_def)
next
  case (Cons u us)
  from Cons.prems(2) obtain s where s: "streams db u = Some s" by auto
  then obtain n d1 where r: "prune_user c u db = Inr (n, d1)"
    by (cases "prune_user c u db") (auto simp: prune_user_def Let_def split: if_splits)
  note inv = Cons.prems(3)
  have ok: "stream_ok db" using inv by (simp add: inbox_inv_def)
  note ent = prune_user_entries [OF r inv] and ret = prune_user_retained [OF r ok]
  have exp: "v \<noteq> u \<Longrightarrow> expired_position v c d1 = expired_position v c db" for v
    by (rule expired_positions_frame [OF r inv])
  have st: "\<forall>v\<in>set us. streams d1 v \<noteq> None"
    using Cons.prems(2) prune_user_frame(3) [OF r] by (metis list.set_intros(2))
  obtain d where d: "prune_users c us d1 = (length (filter (retained_past us c d1) (entries d1)), None, d)"
    "entries d = filter (\<lambda>e. \<not> retained_past us c d1 e) (entries d1)"
    "\<And>v. retained_position d v = (if v \<in> set us then max (retained_position d1 v) (expired_position v c d1)
       else retained_position d1 v)"
    using Cons.IH [OF _ st prune_user_inv [OF r inv]] Cons.prems(1) by auto
  have past: "retained_past us c d1 e = retained_past us c db e" for e
    using exp Cons.prems(1) unfolding retained_past_def by (metis distinct.simps(2))
  have step: "retained_past (u # us) c db e \<longleftrightarrow> pruned u (expired_position u c db) e \<or> retained_past us c db e" for e
    using Cons.prems(1) by (auto simp: retained_past_def pruned_def)
  have disj: "\<not> (pruned u (expired_position u c db) e \<and> retained_past us c db e)" for e
    using Cons.prems(1) by (auto simp: retained_past_def pruned_def)
  have n: "n = length (filter (pruned u (expired_position u c db)) (entries db))"
  proof (cases "expired_position u c db = 0")
    case True
    have "\<not> pruned u 0 e" if "e \<in> set (entries db)" for e
      using inv that stream_ok_bounds [OF ok, of "ie_user e"] by (force simp: inbox_inv_def entry_ok_def pruned_def)
    then show ?thesis using r True by (auto simp: prune_user_Inr filter_empty_conv)
  next
    case False
    then show ?thesis using r by (auto simp: prune_user_Inr)
  qed
  have "filter (retained_past us c db) (entries d1) = filter (retained_past us c db) (entries db)"
    unfolding ent filter_filter by (rule filter_cong) (use disj in auto)
  then have cnt: "n + length (filter (retained_past us c d1) (entries d1)) =
      length (filter (retained_past (u # us) c db) (entries db))"
    unfolding past [abs_def] step [abs_def] n by (simp add: length_filter_disj disj)
  have "entries d = filter (\<lambda>e. \<not> retained_past (u # us) c db e) (entries db)"
    unfolding d(2) past step ent filter_filter by (rule filter_cong) auto
  moreover have "retained_position d v = (if v \<in> set (u # us) then max (retained_position db v) (expired_position v c db)
       else retained_position db v)" for v
    using Cons.prems(1) unfolding d(3) ret by (auto simp: exp)
  ultimately show ?case using r d(1) cnt by simp
qed

lemma distinct_sorted: "distinct xs \<Longrightarrow> distinct (sort_by le xs)"
  using distinct_sort_by [of "\<lambda>x. x" xs le] by (simp add: list.map_ident)

lemma expired_positions_user: "p \<in> set (expired_positions u c db) \<Longrightarrow> u \<in> set (expired_users c db)"
  by (force simp: expired_users_def expired_positions_def List.map_filter_def image_iff split: if_splits)

lemma expired_users_cover:
  assumes "inbox_inv db"
  shows "distinct (expired_users c db)" "\<forall>u\<in>set (expired_users c db). streams db u \<noteq> None"
    "u \<notin> set (expired_users c db) \<Longrightarrow> expired_position u c db = 0"
proof -
  show "distinct (expired_users c db)"
    unfolding expired_users_def by (rule distinct_sorted) (rule distinct_remdups)
  show "\<forall>u\<in>set (expired_users c db). streams db u \<noteq> None"
    using assms by (auto simp: expired_users_def inbox_inv_def entry_ok_def applied_ok_def)
  assume "u \<notin> set (expired_users c db)"
  then have "expired_positions u c db = []"
    using expired_positions_user [of _ u c db] by (cases "expired_positions u c db") auto
  then show "expired_position u c db = 0" by (simp add: expired_position_def list_max_def)
qed

text \<open>A client below the boundary is sent to a rebuild.\<close>

lemma below_boundary:
  assumes "inbox_inv d" "0 < p" "p < retained_position d u"
  shows "read_page u p limit c d =
    Inr \<lparr>pg_entries = [], pg_next = cur_position d u, pg_more = False, pg_rebuild = ''expired_position''\<rparr>"
proof -
  from assms obtain s where s: "streams d u = Some s" by (cases "streams d u") (auto simp: retained_position_def)
  have "st_retained s \<le> st_pos s" "st_pos s \<le> seq_max"
    using assms(1) s by (auto simp: inbox_inv_def stream_ok_def)
  moreover have "p < st_retained s" using assms(3) s by (simp add: retained_position_def)
  ultimately have "p \<le> st_pos s" "st_pos s \<le> seq_max" "p < st_retained s" by auto
  with s assms(2) show ?thesis
    by (simp add: read_page_def seq_validate_def rebuild_reason_def Let_def cur_position_def)
qed

text \<open>
  C34: A retention pass always finishes: it removes, for every user, exactly the entries at or below
  the newest position of that user allocated before the cutoff, reports how many it removed, raises
  the user's boundary to that position and never lowers it, leaves no expired entry behind, and from
  then on answers a client below the boundary with a rebuild to the stream's end.
\<close>

theorem retention_exact:
  assumes inv: "inbox_inv db"
  shows "\<exists>d. prune cutoff db = (length (entries db) - length (entries d), None, d) \<and>
    entries d = filter (\<lambda>e. expired_position (ie_user e) cutoff db < ie_pos e) (entries db) \<and>
    (\<forall>u. retained_position d u = max (retained_position db u) (expired_position u cutoff db) \<and>
       cur_position d u = cur_position db u) \<and>
    (\<forall>e\<in>set (entries d). cutoff \<le> ie_created e) \<and>
    (\<forall>u p limit c. 0 < p \<longrightarrow> p < expired_position u cutoff db \<longrightarrow>
       read_page u p limit c d =
         Inr \<lparr>pg_entries = [], pg_next = cur_position db u, pg_more = False, pg_rebuild = ''expired_position''\<rparr>)"
proof -
  let ?us = "expired_users cutoff db"
  have ok: "stream_ok db" using inv by (simp add: inbox_inv_def)
  note cov = expired_users_cover [OF inv, where c = cutoff]
  obtain d where d: "prune cutoff db = (length (filter (retained_past ?us cutoff db) (entries db)), None, d)"
    "entries d = filter (\<lambda>e. \<not> retained_past ?us cutoff db e) (entries db)"
    "\<And>v. retained_position d v = (if v \<in> set ?us then max (retained_position db v) (expired_position v cutoff db)
       else retained_position db v)"
    unfolding prune_def using prune_users_exact [OF cov(1,2) inv, of cutoff] by blast
  have pos: "0 < ie_pos e" if "e \<in> set (entries db)" for e
    using inv that stream_ok_bounds [OF ok, of "ie_user e"] by (force simp: inbox_inv_def entry_ok_def)
  have past: "retained_past ?us cutoff db e \<longleftrightarrow> ie_pos e \<le> expired_position (ie_user e) cutoff db"
    if "e \<in> set (entries db)" for e
    using cov(3) [where u = "ie_user e"] pos [OF that] unfolding retained_past_def by (metis not_le)
  have ent: "entries d = filter (\<lambda>e. expired_position (ie_user e) cutoff db < ie_pos e) (entries db)"
    unfolding d(2) by (rule filter_cong) (auto simp: past)
  have ret: "retained_position d u = max (retained_position db u) (expired_position u cutoff db)" for u
    using cov(3) [where u = u] stream_ok_bounds [OF ok, of u] by (simp add: d(3))
  have pd: "d = snd (snd (prune_users cutoff ?us db))" using d(1) by (simp add: prune_def)
  have cur: "cur_position d u = cur_position db u" for u
    unfolding pd by (rule prune_users_rule [where P = "\<lambda>d. cur_position d u = cur_position db u"])
      (simp_all add: prune_user_frame(2))
  have cnt: "length (filter (retained_past ?us cutoff db) (entries db)) = length (entries db) - length (entries d)"
    using sum_length_filter_compl [of "retained_past ?us cutoff db" "entries db"] by (simp add: d(2))
  have fresh: "cutoff \<le> ie_created e" if "e \<in> set (entries d)" for e
  proof (rule ccontr)
    assume "\<not> cutoff \<le> ie_created e"
    with that have "ie_pos e \<in> set (expired_positions (ie_user e) cutoff db)"
      by (auto simp: ent expired_positions_def)
    with that show False using list_max_ge [of "ie_pos e"] by (force simp: ent expired_position_def)
  qed
  have page: "read_page u p limit c d =
      Inr \<lparr>pg_entries = [], pg_next = cur_position db u, pg_more = False, pg_rebuild = ''expired_position''\<rparr>"
    if p: "0 < p" "p < expired_position u cutoff db" for u p limit c
  proof -
    have "inbox_inv d" unfolding pd by (rule prune_users_inv [OF inv])
    moreover have "p < retained_position d u" unfolding ret using p(2) by simp
    ultimately show ?thesis using below_boundary p(1) by (simp add: cur)
  qed
  show ?thesis
    by (intro exI conjI ballI allI impI, rule d(1) [unfolded cnt], rule ent, rule ret, rule cur,
        erule fresh, erule page)
qed


lemma retention_exact_witness:
  "\<exists>d. prune 51 demo_inbox = (2, None, d) \<and> entries d = [] \<and> retained_position d ''u1'' = 3"
proof -
  have "length (entries demo_inbox) = 2" "retained_position demo_inbox ''u1'' = 1"
    "expired_position ''u1'' 51 demo_inbox = 3"
    "list_all (\<lambda>e. ie_user e = ''u1'' \<and> ie_pos e \<le> 3) (entries demo_inbox)"
    by code_simp+
  note facts = this
  obtain d where d: "prune 51 demo_inbox = (length (entries demo_inbox) - length (entries d), None, d)"
      "entries d = filter (\<lambda>e. expired_position (ie_user e) 51 demo_inbox < ie_pos e) (entries demo_inbox)"
      "retained_position d ''u1'' = max (retained_position demo_inbox ''u1'') (expired_position ''u1'' 51 demo_inbox)"
    using retention_exact [OF demo_inbox_inv, of 51] by blast
  have "entries d = []" unfolding d(2) using facts(3,4) by (auto simp: list_all_iff filter_empty_conv)
  with d facts show ?thesis by simp
qed

section \<open>Read marks\<close>














section \<open>The demonstration for the earlier theories\<close>

lemma batch_redelivery_witness:
  "batch_insert (\<lambda>s. s \<noteq> []) 99 [demo_entry ''c'' kind_read 4]
     (run_ops (inbox_step (\<lambda>s. s \<noteq> [])) [Retain 51] demo_later) =
   Inr (run_ops (inbox_step (\<lambda>s. s \<noteq> [])) [Retain 51] demo_later)"
proof (rule batch_redelivery)
  have "is_ok (batch_insert (\<lambda>s. s \<noteq> []) 70 [demo_entry ''c'' kind_read 4] demo_inbox)" by code_simp
  then show "batch_insert (\<lambda>s. s \<noteq> []) 70 [demo_entry ''c'' kind_read 4] demo_inbox = Inr demo_later"
    by (auto simp: demo_later_def is_ok_iff)
qed

lemma positions_gap_free_witness:
  "(\<exists>!ch. holds_at ''u1'' ch 3 demo_inbox)"
proof -
  have "cur_position demo_inbox ''u1'' = 3" by code_simp
  moreover have "\<forall>p. 1 \<le> p \<longrightarrow> p \<le> cur_position demo_inbox ''u1'' \<longrightarrow>
      (\<exists>!ch. holds_at ''u1'' ch p demo_inbox) \<or>
      p = 1 \<and> 1 \<le> retained_position demo_inbox ''u1'' \<and> (\<nexists>ch. holds_at ''u1'' ch p demo_inbox)"
    unfolding demo_inbox_def by (rule positions_gap_free [unfolded Let_def, THEN conjunct1])
  ultimately show ?thesis by (auto dest: spec [of _ 3])
qed

end
