(* ===== verification/Bot_Policy.thy ===== *)
theory Bot_Policy
  imports Message_View Identity
begin

text \<open>
  \<^verbatim>\<open>pkg/botpolicy/settings.go\<close>: the settings of a bot's binding to a conversation, a Go map from
  strings to JSON values, and the response rules stored in them. \<open>prepare_settings\<close> validates what
  an administrator sends, \<open>stamp_settings\<close> writes the authorization and the watermark under the
  conversation lock, \<open>rules_of\<close>, \<open>subscribed\<close> and \<open>rule_matches\<close> are the readers the trigger path
  uses. A number of the map is read as the exact rational of its lexeme: the platform writes only
  integers below 2^53, where a float64 is exact. A nil pointer dereference is the error \<open>nil_deref\<close>.
\<close>

section \<open>Typed decoding\<close>

text \<open>
  \<^verbatim>\<open>encoding/json\<close> into a struct field: a missing key and \<^verbatim>\<open>null\<close> leave the zero value, a value of
  another type is an error.
\<close>

definition field_str :: "json_map \<Rightarrow> string \<Rightarrow> string option" where
  "field_str m k = (case map_of m k of None \<Rightarrow> Some [] | Some JNull \<Rightarrow> Some [] | Some (JStr s) \<Rightarrow> Some s
     | _ \<Rightarrow> None)"

definition field_bool :: "json_map \<Rightarrow> string \<Rightarrow> bool option" where
  "field_bool m k = (case map_of m k of None \<Rightarrow> Some False | Some JNull \<Rightarrow> Some False
     | Some (JBool b) \<Rightarrow> Some b | _ \<Rightarrow> None)"

definition field_int64 :: "json_map \<Rightarrow> string \<Rightarrow> int option" where
  "field_int64 m k = (case map_of m k of None \<Rightarrow> Some 0 | Some JNull \<Rightarrow> Some 0
     | Some (JNum l) \<Rightarrow> (case int_of_lexeme l of Some n \<Rightarrow> if fits 64 n then Some n else None | None \<Rightarrow> None)
     | _ \<Rightarrow> None)"

text \<open>A slice of strings; \<^verbatim>\<open>null\<close> elements leave the empty string.\<close>

fun str_item :: "json \<Rightarrow> string option" where
  "str_item JNull = Some []"
| "str_item (JStr s) = Some s"
| "str_item _ = None"

fun map_opt :: "('a \<Rightarrow> 'b option) \<Rightarrow> 'a list \<Rightarrow> 'b list option" where
  "map_opt f [] = Some []"
| "map_opt f (x # xs) =
     (case f x of None \<Rightarrow> None | Some y \<Rightarrow> (case map_opt f xs of None \<Rightarrow> None | Some ys \<Rightarrow> Some (y # ys)))"

fun decode_strs :: "json \<Rightarrow> string list option" where
  "decode_strs JNull = Some []"
| "decode_strs (JArr xs) = map_opt str_item xs"
| "decode_strs _ = None"

text \<open>\<^verbatim>\<open>strings.TrimSpace(s) == ""\<close>: every rune is white space.\<close>

definition is_space_rune :: "nat \<Rightarrow> bool" where
  "is_space_rune r \<longleftrightarrow> r \<in> {9, 10, 11, 12, 13, 32, 133, 160, 5760, 8232, 8233, 8239, 8287, 12288} \<or>
     8192 \<le> r \<and> r \<le> 8202"

definition blank :: "string \<Rightarrow> bool" where
  "blank s \<longleftrightarrow> list_all is_space_rune (runes s)"

section \<open>Rules\<close>

record rule =
  rl_id :: string
  rl_enabled :: bool
  rl_activity :: string
  rl_contains :: string
  rl_business :: string
  rl_version :: int
  rl_user :: string
  rl_member :: string
  rl_start :: int

record rule_input =
  ri_id :: string
  ri_enabled :: "bool option"
  ri_activity :: string
  ri_contains :: string
  ri_business :: string

definition message_created :: string where "message_created = ''message.created''"
definition member_joined :: string where "member_joined = ''member.joined''"
definition member_left :: string where "member_left = ''member.left''"
definition business_activity :: string where "business_activity = ''business.activity''"

definition supported :: "string \<Rightarrow> bool" where
  "supported a \<longleftrightarrow> a \<in> set [message_created, member_joined, member_left, business_activity]"

text \<open>The encoding of a stored rule and its decoding.\<close>

definition omit_empty :: "string \<Rightarrow> string \<Rightarrow> json_map" where
  "omit_empty k s = (if s = [] then [] else [(k, JStr s)])"

definition rule_json :: "rule \<Rightarrow> json" where
  "rule_json r = JObj ([(''id'', JStr (rl_id r)), (''enabled'', JBool (rl_enabled r)),
     (''activity_type'', JStr (rl_activity r))] @
     omit_empty ''message_contains'' (rl_contains r) @ omit_empty ''business_type'' (rl_business r) @
     [(''version'', jint (rl_version r)), (''authorization_user_id'', JStr (rl_user r)),
      (''authorization_member_id'', JStr (rl_member r)), (''start_seq'', jint (rl_start r))])"

definition rule_of_map :: "json_map \<Rightarrow> rule option" where
  "rule_of_map m =
     (case (field_str m ''id'', field_bool m ''enabled'', field_str m ''activity_type'',
            field_str m ''message_contains'', field_str m ''business_type'', field_int64 m ''version'',
            field_str m ''authorization_user_id'', field_str m ''authorization_member_id'',
            field_int64 m ''start_seq'') of
        (Some i, Some e, Some a, Some c, Some b, Some v, Some u, Some mb, Some s) \<Rightarrow>
          Some \<lparr>rl_id = i, rl_enabled = e, rl_activity = a, rl_contains = c, rl_business = b,
                rl_version = v, rl_user = u, rl_member = mb, rl_start = s\<rparr>
      | _ \<Rightarrow> None)"

fun rule_of_json :: "json \<Rightarrow> rule option" where
  "rule_of_json JNull = rule_of_map []"
| "rule_of_json (JObj m) = rule_of_map m"
| "rule_of_json _ = None"

fun decode_rules :: "json \<Rightarrow> rule list option" where
  "decode_rules JNull = Some []"
| "decode_rules (JArr xs) = map_opt rule_of_json xs"
| "decode_rules _ = None"

definition input_of_map :: "json_map \<Rightarrow> rule_input option" where
  "input_of_map m =
     (case (field_str m ''id'',
            (case map_of m ''enabled'' of None \<Rightarrow> Some None | Some JNull \<Rightarrow> Some None
             | Some (JBool b) \<Rightarrow> Some (Some b) | _ \<Rightarrow> None),
            field_str m ''activity_type'', field_str m ''message_contains'', field_str m ''business_type'') of
        (Some i, Some e, Some a, Some c, Some b) \<Rightarrow>
          Some \<lparr>ri_id = i, ri_enabled = e, ri_activity = a, ri_contains = c, ri_business = b\<rparr>
      | _ \<Rightarrow> None)"

fun input_of_json :: "json \<Rightarrow> rule_input option" where
  "input_of_json JNull = input_of_map []"
| "input_of_json (JObj m) = input_of_map m"
| "input_of_json _ = None"

fun decode_inputs :: "json \<Rightarrow> rule_input list option" where
  "decode_inputs JNull = Some []"
| "decode_inputs (JArr xs) = map_opt input_of_json xs"
| "decode_inputs _ = None"

section \<open>Validation of submitted settings\<close>

definition input_fields :: "string list" where
  "input_fields = [''id'', ''enabled'', ''activity_type'', ''message_contains'', ''business_type'']"

text \<open>\<^verbatim>\<open>DisallowUnknownFields\<close> refuses any other key.\<close>

fun strict_input :: "json \<Rightarrow> rule_input option" where
  "strict_input (JObj m) = (if \<forall>k\<in>set (map fst m). k \<in> set input_fields then input_of_map m else None)"
| "strict_input v = input_of_json v"

fun check_activities :: "string list \<Rightarrow> json list \<Rightarrow> err + string list" where
  "check_activities subs [] = Inr subs"
| "check_activities subs (v # vs) =
     (case v of
        JStr a \<Rightarrow> if \<not> supported a \<or> a \<in> set subs
                 then Inl (Plain ''unsupported or duplicate activity subscription'')
                 else check_activities (subs @ [a]) vs
      | _ \<Rightarrow> Inl (Plain ''unsupported or duplicate activity subscription''))"

definition bad_condition :: "rule_input \<Rightarrow> bool" where
  "bad_condition r \<longleftrightarrow>
     ri_contains r \<noteq> [] \<and> (ri_activity r \<noteq> message_created \<or> length (ri_contains r) > 1024 \<or> blank (ri_contains r)) \<or>
     ri_business r \<noteq> [] \<and> (ri_activity r \<noteq> business_activity \<or> length (ri_business r) > 128 \<or> blank (ri_business r))"

fun check_rules :: "(string \<Rightarrow> bool) \<Rightarrow> string list \<Rightarrow> string list \<Rightarrow> json list \<Rightarrow> err + unit" where
  "check_rules valid subs ids [] = Inr ()"
| "check_rules valid subs ids (v # vs) =
     (case strict_input v of
        None \<Rightarrow> Inl (Plain ''invalid rule identity, fields or activity type'')
      | Some r \<Rightarrow>
          if ri_enabled r = None \<or> \<not> valid (ri_id r) \<or> ri_id r \<in> set ids \<or> \<not> supported (ri_activity r)
          then Inl (Plain ''invalid rule identity, fields or activity type'')
          else if bad_condition r then Inl (Plain ''invalid rule condition'')
          else if ri_enabled r = Some True \<and> ri_activity r \<notin> set subs
          then Inl (Plain ''enabled rule requires its activity subscription'')
          else check_rules valid subs (ri_id r # ids) vs)"

definition provenance_keys :: "string list" where
  "provenance_keys = [''origin'', ''provenance'', ''requester_id'', ''authorization_user_id'', ''authorization_member_id'']"

definition prepare_settings :: "(string \<Rightarrow> bool) \<Rightarrow> (string \<Rightarrow> json option) \<Rightarrow> string \<Rightarrow> err + json_map" where
  "prepare_settings valid decode raw =
     (if length raw > 65536 then Inl (Plain ''bot settings must be an object'')
      else case decode raw of
        Some (JObj cfg) \<Rightarrow>
          if \<exists>k\<in>set provenance_keys. map_of cfg k \<noteq> None
          then Inl (Plain ''settings cannot supply execution provenance'')
          else
            rbind (case map_of cfg ''enabled'' of
                None \<Rightarrow> Inr () | Some (JBool b) \<Rightarrow> Inr () | Some _ \<Rightarrow> Inl (Plain ''enabled must be boolean'')) (\<lambda>_.
            rbind (case map_of cfg ''activity_types'' of
                None \<Rightarrow> Inr []
              | Some (JArr vs) \<Rightarrow> if length vs > 4 then Inl (Plain ''invalid activity subscriptions'')
                                 else check_activities [] vs
              | Some _ \<Rightarrow> Inl (Plain ''invalid activity subscriptions'')) (\<lambda>subs.
            rbind (case map_of cfg ''response_rules'' of
                None \<Rightarrow> Inr ()
              | Some (JArr vs) \<Rightarrow> if length vs > 32 then Inl (Plain ''invalid response rules'')
                                 else check_rules valid subs [] vs
              | Some _ \<Rightarrow> Inl (Plain ''invalid response rules'')) (\<lambda>_.
            Inr cfg)))
      | _ \<Rightarrow> Inl (Plain ''bot settings must be an object''))"

section \<open>Authorization of a save\<close>

text \<open>\<open>integer\<close>: a value of the map as a position.\<close>

definition integer_of :: "json option \<Rightarrow> int option" where
  "integer_of v =
     (case v of
        Some (JNum l) \<Rightarrow>
          (case rat_of_lexeme l of
             Some q \<Rightarrow> if 0 \<le> q \<and> q \<le> of_int seq_max \<and> of_int \<lfloor>q\<rfloor> = q then Some \<lfloor>q\<rfloor> else None
           | None \<Rightarrow> None)
      | _ \<Rightarrow> None)"

definition nil_deref :: err where
  "nil_deref = Plain ''runtime error: invalid memory address or nil pointer dereference''"

fun stamp_rules :: "int \<Rightarrow> string \<Rightarrow> string \<Rightarrow> int \<Rightarrow> rule_input list \<Rightarrow> err + rule list" where
  "stamp_rules version uid mid start [] = Inr []"
| "stamp_rules version uid mid start (r # rs) =
     (case ri_enabled r of
        None \<Rightarrow> Inl nil_deref
      | Some e \<Rightarrow>
          rbind (stamp_rules version uid mid start rs) (\<lambda>out.
            Inr (\<lparr>rl_id = ri_id r, rl_enabled = e, rl_activity = ri_activity r, rl_contains = ri_contains r,
                  rl_business = ri_business r, rl_version = version, rl_user = uid, rl_member = mid,
                  rl_start = start\<rparr> # out)))"

definition previous_version :: "json_map \<Rightarrow> int" where
  "previous_version previous =
     (case integer_of (map_of previous ''response_rules_version'') of None \<Rightarrow> 0 | Some v \<Rightarrow> v)"

definition stamp_settings ::
  "(string \<Rightarrow> bool) \<Rightarrow> json_map \<Rightarrow> json_map \<Rightarrow> string \<Rightarrow> string \<Rightarrow> int \<Rightarrow> err + json_map" where
  "stamp_settings valid cfg previous uid mid start =
     (if \<not> valid uid \<or> \<not> valid mid \<or> start < 0 \<or> start > seq_max
      then Inl (Plain ''invalid rule authorization'')
      else if previous_version previous \<ge> seq_max then Inl (Plain ''response rule version exhausted'')
      else
        let version = previous_version previous + 1;
            stamped = AList.update ''response_rules_version'' (jint version)
                        (AList.update ''activity_start_seq'' (jint start) cfg)
        in case map_of cfg ''response_rules'' of
             None \<Rightarrow> Inr stamped
           | Some v \<Rightarrow>
               (case decode_inputs v of
                  None \<Rightarrow> Inl (Plain ''json: cannot unmarshal response rules'')
                | Some inputs \<Rightarrow>
                    rbind (stamp_rules version uid mid start inputs) (\<lambda>rs.
                      Inr (AList.update ''response_rules'' (JArr (map rule_json rs)) stamped))))"

section \<open>Readers\<close>

definition stored_rule_ok :: "(string \<Rightarrow> bool) \<Rightarrow> rule \<Rightarrow> bool" where
  "stored_rule_ok valid r \<longleftrightarrow>
     valid (rl_id r) \<and> valid (rl_user r) \<and> valid (rl_member r) \<and> supported (rl_activity r) \<and>
     0 < rl_version r \<and> rl_version r \<le> seq_max \<and> 0 \<le> rl_start r \<and> rl_start r \<le> seq_max"

definition rules_of :: "(string \<Rightarrow> bool) \<Rightarrow> json_map \<Rightarrow> err + rule list" where
  "rules_of valid cfg =
     (case map_of cfg ''response_rules'' of
        None \<Rightarrow> Inr []
      | Some v \<Rightarrow>
          (case decode_rules v of
             None \<Rightarrow> Inl (Plain ''json: cannot unmarshal response rules'')
           | Some rs \<Rightarrow> if \<forall>r\<in>set rs. stored_rule_ok valid r then Inr rs
                        else Inl (Plain ''invalid stored rule authorization'')))"

text \<open>\<^verbatim>\<open>settings["enabled"]\<close> absent or \<open>true\<close>, a test the services repeat.\<close>

definition settings_enabled :: "json_map \<Rightarrow> bool" where
  "settings_enabled cfg \<longleftrightarrow> (case map_of cfg ''enabled'' of None \<Rightarrow> True | Some v \<Rightarrow> v = JBool True)"

definition subscribed :: "json_map \<Rightarrow> string \<Rightarrow> int \<Rightarrow> bool" where
  "subscribed cfg activity sq \<longleftrightarrow>
     settings_enabled cfg \<and>
     (case integer_of (map_of cfg ''activity_start_seq'') of
        None \<Rightarrow> False
      | Some start \<Rightarrow> start < sq \<and>
          (case decode_strs (case map_of cfg ''activity_types'' of None \<Rightarrow> JNull | Some v \<Rightarrow> v) of
             None \<Rightarrow> False
           | Some types \<Rightarrow> supported activity \<and> activity \<in> set types))"

definition rule_matches :: "rule \<Rightarrow> string \<Rightarrow> string \<Rightarrow> string \<Rightarrow> int \<Rightarrow> bool" where
  "rule_matches r activity t business sq \<longleftrightarrow>
     rl_enabled r \<and> rl_activity r = activity \<and> rl_start r < sq \<and>
     (rl_contains r = [] \<or> sublist (rl_contains r) t) \<and> (rl_business r = [] \<or> rl_business r = business)"

end
