(* ===== verification/Bot_Store.thy ===== *)
theory Bot_Store
  imports Bot_Policy Op_System
begin

text \<open>
  The tables the bot service works on: \<^verbatim>\<open>app/bot-service/internal/model\<close> (runs, accepted inputs,
  interactions, the work queue, receipts, model calls, trajectory blocks, actions), the resource
  grants of \<^verbatim>\<open>pkg/resourcegrant\<close> and the rows of the messaging, file and knowledge services that its
  authorization reads. A table is a list of rows; the rows of the messaging tables are those of
  \<^verbatim>\<open>Msg_Store\<close>. A JSON column that the code always decodes into one Go type is stored decoded.
  \<open>run_key\<close> holds the columns acceptance writes and nothing changes afterwards, \<open>run\<close> extends it by
  the columns the engine updates.
\<close>

section \<open>Runs\<close>

record run_origin =
  ro_kind :: string
  ro_rule :: string
  ro_rule_version :: int
  ro_user :: string
  ro_member :: string
  ro_activity :: string
  ro_source :: string
  ro_bot :: string

record activity_envelope =
  ae_id :: string
  ae_type :: string
  ae_conv :: string
  ae_binding :: string
  ae_message :: string
  ae_actor :: string
  ae_text :: string
  ae_seq :: int
  ae_data :: "json option"

record executor_caps =
  ec_input_types :: "string list"
  ec_input :: bool
  ec_stop :: bool
  ec_resume :: bool

record input_source =
  is_version :: int
  is_content :: "string option"
  is_requester :: string
  is_source_message :: "string option"
  is_sender_type :: string
  is_messages :: "string list"
  is_files :: "string list"
  is_history_grant :: "string option"
  is_parent_run :: "string option"
  is_origin :: "run_origin option"

record run_step =
  st_version :: int
  st_stage :: string
  st_created :: int

record knowledge_source =
  ks_id :: string
  ks_doc :: string
  ks_chunk :: string
  ks_content_hash :: string
  ks_document_hash :: string
  ks_metadata_hash :: string

record history_source =
  hs_message :: string
  hs_edit_count :: int
  hs_grant :: string
  hs_seq :: int

record source_version =
  sv_history :: history_source
  sv_knowledge :: knowledge_source
  sv_file :: string
  sv_parent_run :: string
  sv_revision :: int

text \<open>
  The fields of a \<open>Material\<close> that authorization reads (\<open>acceptedMessage\<close>,
  \<open>outputSourceMaterial\<close>); its content travels in \<open>mt_content\<close>.
\<close>

record material =
  mt_kind :: string
  mt_message :: string
  mt_seq :: int
  mt_edit_count :: int
  mt_history_grant :: string
  mt_requester :: string
  mt_parent_run :: string
  mt_file :: string
  mt_knowledge :: string
  mt_shared :: bool
  mt_content :: string
  mt_provenance :: "source_version list"

record tool_ref =
  tr_server :: string
  tr_transport :: string
  tr_url :: string
  tr_name :: string
  tr_definition :: string
  tr_risk :: string
  tr_target :: string
  tr_share :: bool
  tr_convs :: "string list"

text \<open>The part of a frozen execution configuration that authorization reads.\<close>

record exec_config =
  xc_assembly :: string
  xc_system_prompt :: string
  xc_revision :: int
  xc_mode :: string
  xc_callback :: string
  xc_tools :: "tool_ref list"

record run_key =
  r_id :: string
  r_interaction :: string
  r_parent :: "string option"
  r_origin :: "run_origin option"
  r_activity :: "activity_envelope option"
  r_deleg_parent :: "string option"
  r_deleg_root :: "string option"
  r_deleg_depth :: int
  r_source_generation :: int
  r_source_input_version :: int
  r_bot :: string
  r_conv :: string
  r_binding :: string
  r_requester :: string
  r_visibility :: string
  r_personal_user :: "string option"
  r_grants :: "string list"
  r_requester_member :: "string option"
  r_bot_version :: int
  r_binding_version :: int
  r_input_key :: string
  r_input_hash :: string
  r_source_message :: "string option"
  r_reply_to :: "string option"
  r_history_grant :: "string option"
  r_executor :: string
  r_caps :: executor_caps
  r_trigger :: string
  r_config :: exec_config
  r_created :: int

record run = run_key +
  r_children :: "string list"
  r_deleg_input :: int
  r_deleg_output :: int
  r_interaction_status :: string
  r_controller :: string
  r_controller_member :: "string option"
  r_controls :: "string list"
  r_memberships :: "(string \<times> string) list"
  r_stop_status :: string
  r_stream_status :: string
  r_stop_reason :: string
  r_stop_at :: "int option"
  r_revoked :: bool
  r_input_version :: int
  r_applied_input :: int
  r_inputs :: "input_source list"
  r_notice :: string
  r_source_revision :: int
  r_branch_version :: int
  r_provenance :: "source_version list"
  r_invalidated :: bool
  r_version :: int
  r_trajectory :: int
  r_generation :: int
  r_delivery_status :: string
  r_executor_status :: string
  r_sequence :: int
  r_lease :: "int option"
  r_operation :: string
  r_status :: string
  r_stage :: string
  r_waiting :: string
  r_result_text :: string
  r_result_type :: string
  r_result_content :: string
  r_output_status :: string
  r_message :: "string option"
  r_error :: string
  r_sources :: "json list"
  r_materials :: "material list"
  r_steps :: "run_step list"
  r_updated :: int

record run_input =
  in_id :: string
  in_run :: string
  in_version :: int
  in_requester :: string
  in_source_message :: "string option"
  in_edit_count :: int
  in_provenance :: "source_version list"
  in_invalidated :: bool
  in_key :: string
  in_content :: string
  in_hash :: string
  in_materials :: "material list"
  in_sources :: "json list"
  in_created :: int

record interaction =
  ia_id :: string
  ia_bot :: string
  ia_conv :: string
  ia_binding :: string
  ia_requester :: string
  ia_visibility :: string
  ia_personal_user :: "string option"
  ia_status :: string
  ia_closed :: "int option"

record run_receipt =
  rc_id :: string
  rc_run :: string
  rc_key :: string
  rc_hash :: string

text \<open>
  What a trajectory block says: a chat message of a role (its text, a cited material or an accepted
  input: version, requester, sender, source message, content) or another record of the executor.
\<close>

datatype block_body =
  Text_Body string string
| Material_Body material
| Input_Body int string string "string option" string
| Record_Body string

record trajectory_block =
  tb_id :: string
  tb_run :: string
  tb_version :: int
  tb_kind :: string
  tb_block :: block_body
  tb_provenance :: "source_version list"

record model_call =
  mc_id :: string
  mc_run :: string
  mc_status :: string
  mc_completed :: "int option"

text \<open>What leaves the service of a run (\<open>PublicRun\<close>, less the viewer's decorations).\<close>

record public_run =
  pr_id :: string
  pr_interaction :: string
  pr_parent :: "string option"
  pr_origin :: "run_origin option"
  pr_activity :: "activity_envelope option"
  pr_deleg_parent :: "string option"
  pr_deleg_depth :: int
  pr_children :: "string list"
  pr_interaction_status :: string
  pr_visibility :: string
  pr_personal_user :: "string option"
  pr_bot :: string
  pr_conv :: string
  pr_binding :: string
  pr_requester :: string
  pr_controller :: string
  pr_controls :: "string list"
  pr_stop_status :: string
  pr_stream_status :: string
  pr_stop_reason :: string
  pr_input_key :: string
  pr_inputs :: "input_source list"
  pr_notice :: string
  pr_source_message :: "string option"
  pr_input_version :: int
  pr_version :: int
  pr_executor :: string
  pr_caps :: executor_caps
  pr_delivery_status :: string
  pr_executor_status :: string
  pr_lease :: int
  pr_generation :: int
  pr_trigger :: string
  pr_status :: string
  pr_stage :: string
  pr_waiting :: string
  pr_result_text :: string
  pr_result_type :: string
  pr_result_content :: string
  pr_output_status :: string
  pr_message :: "string option"
  pr_error :: string
  pr_sources :: "json_map list"
  pr_steps :: "run_step list"
  pr_created :: int
  pr_updated :: int

text \<open>
  \<open>RunOutbox\<close>, the work queue, with the four payloads \<open>queueRun\<close> writes (\<open>Empty_Payload\<close> is \<^verbatim>\<open>{}\<close>). An
  input travels with the kind of its sender.
\<close>

datatype work_payload =
  Empty_Payload
| Updated_Payload string string public_run
| Stop_Payload string string string string int int string
| Request_Payload public_run int int "(string \<times> run_input) list" string

record work_item =
  w_id :: string
  w_run :: string
  w_kind :: string
  w_version :: int
  w_payload :: work_payload
  w_attempts :: int
  w_available :: int
  w_lease :: "int option"
  w_token :: "string option"
  w_generation :: int
  w_completed :: "int option"
  w_created :: int

section \<open>Rows of authorization\<close>

record bot_row =
  bt_id :: string
  bt_status :: string
  bt_kind :: string
  bt_revision :: int
  bt_mode :: string
  bt_callback :: string
  bt_version :: int
  bt_knowledge :: bool

record binding_row =
  bd_id :: string
  bd_bot :: string
  bd_conv :: string
  bd_settings :: json_map
  bd_revoked :: "int option"
  bd_start_seq :: int
  bd_version :: int

record grant =
  g_id :: string
  g_kind :: string
  g_resource :: string
  g_bot :: string
  g_conv :: string
  g_binding :: string
  g_resource_binding :: "string option"
  g_owner :: string
  g_subject :: string
  g_subject_member :: string
  g_scope :: string
  g_read :: bool
  g_share :: bool
  g_expires :: int
  g_revoked :: "int option"
  g_bot_version :: int
  g_binding_version :: int
  g_created :: int

record history_grant =
  hg_id :: string
  hg_binding :: string
  hg_by :: string
  hg_start :: int
  hg_end :: int

record file_row =
  fl_id :: string
  fl_uploader :: string
  fl_name :: string
  fl_size :: int
  fl_ext :: string
  fl_mime :: string

record knowledge_base =
  kb_id :: string
  kb_owner :: "string option"
  kb_status :: string
  kb_name :: string
  kb_description :: string
  kb_mode :: string

record knowledge_binding =
  kl_id :: string
  kl_kb :: string
  kl_target_type :: string
  kl_target :: string

record knowledge_doc =
  kd_id :: string
  kd_kb :: string
  kd_title :: string
  kd_file_type :: string
  kd_status :: string
  kd_chunks :: int
  kd_content_hash :: string
  kd_metadata :: json

record knowledge_chunk =
  kc_id :: string
  kc_doc :: string
  kc_kb :: string
  kc_parent :: "string option"
  kc_index :: int
  kc_content :: string
  kc_metadata :: json

record tool_policy =
  tp_risk :: string
  tp_target :: string
  tp_share :: bool
  tp_convs :: "string list"

text \<open>
  \<open>ms_policies\<close> is \<^verbatim>\<open>tool_policies\<close> of the decoded advanced configuration, \<open>None\<close> when it cannot be decoded;
  \<open>ms_auth\<close> is the key and the token of \<^verbatim>\<open>AuthConfig\<close>.
\<close>

record mcp_server =
  ms_id :: string
  ms_owner_type :: string
  ms_enabled :: bool
  ms_transport :: string
  ms_url :: string
  ms_policies :: "(string \<times> tool_policy) list option"
  ms_owner :: "string option"
  ms_auth :: "(string \<times> string) option"

record tool_assignment =
  ta_bot :: string
  ta_server :: string
  ta_enabled :: bool

text \<open>
  \<open>ra_tool\<close> is the decoded tool definition of an action and \<open>ra_arguments\<close> its stored parameters, a JSON
  document.
\<close>

record run_action =
  ra_id :: string
  ra_run :: string
  ra_status :: string
  ra_risk :: string
  ra_generation :: int
  ra_claimed :: "int option"
  ra_completed :: "int option"
  ra_result :: string
  ra_source_invalidated :: bool
  ra_tool :: "tool_ref option"
  ra_bot :: string
  ra_binding :: string
  ra_requester :: string
  ra_controller :: string
  ra_controller_member :: string
  ra_server :: string
  ra_tool_name :: string
  ra_definition :: string
  ra_parameters :: string
  ra_arguments :: string
  ra_provenance :: "source_version list"
  ra_target :: string
  ra_key :: string
  ra_input_version :: int
  ra_approver :: string
  ra_grant :: "string option"
  ra_expires :: int
  ra_shared :: "int option"
  ra_shared_owner :: "string option"
  ra_created :: int

text \<open>\<open>ActionGrant\<close>: the standing permission of a tool's owner for one exact call.\<close>

record action_grant =
  ag_id :: string
  ag_bot :: string
  ag_conv :: string
  ag_binding :: string
  ag_owner :: string
  ag_requester :: string
  ag_member :: string
  ag_server :: string
  ag_tool :: string
  ag_definition :: string
  ag_parameters :: string
  ag_bot_version :: int
  ag_binding_version :: int
  ag_expires :: int
  ag_revoked :: "int option"
  ag_created :: int

record output_submission =
  os_bot :: string
  os_binding :: string
  os_key :: string
  os_message :: string

record bot_db =
  b_convs :: "string list"
  b_members :: "conv_member list"
  b_messages :: "message list"
  b_deletions :: "(string \<times> string \<times> string) list"
  b_bindings :: "binding_row list"
  b_history :: "history_grant list"
  b_submissions :: "output_submission list"
  b_bots :: "bot_row list"
  b_file_grants :: "grant list"
  b_kb_grants :: "grant list"
  b_files :: "file_row list"
  b_kbs :: "knowledge_base list"
  b_kb_links :: "knowledge_binding list"
  b_docs :: "knowledge_doc list"
  b_chunks :: "knowledge_chunk list"
  b_servers :: "mcp_server list"
  b_assignments :: "tool_assignment list"
  b_runs :: "run list"
  b_interactions :: "interaction list"
  b_inputs :: "run_input list"
  b_receipts :: "run_receipt list"
  b_blocks :: "trajectory_block list"
  b_calls :: "model_call list"
  b_actions :: "run_action list"
  b_action_grants :: "action_grant list"
  b_work :: "work_item list"
  b_next :: nat

text \<open>The typed result contents (\<^verbatim>\<open>TextContent\<close>, \<^verbatim>\<open>FileContent\<close>, \<^verbatim>\<open>CustomContent\<close>).\<close>

record text_msg =
  tm_text :: string
  tm_mentions :: "string list"
  tm_all :: bool

record file_msg =
  fm_id :: string
  fm_url :: string
  fm_name :: string
  fm_size :: int
  fm_ext :: string
  fm_mime :: string

record custom_msg =
  xm_type :: string
  xm_data :: string

text \<open>
  What a request sees besides the tables. \<open>fingerprint\<close> is the hexadecimal SHA-256 of an encoded
  document (\<open>knowledgeFingerprint\<close>, \<open>hash\<close>), \<open>material_size\<close> the length of the encoded materials, and
  the decoders (\<open>None\<close>: not of that type) and encoders of result contents are those of the protobuf
  JSON runtime behind \<^verbatim>\<open>pkg/protocol\<close>. Of Go's \<^verbatim>\<open>encoding/json\<close>, \<open>json_first\<close> is one \<^verbatim>\<open>Decode\<close> of a
  decoder with \<^verbatim>\<open>UseNumber\<close>: the first value of the text, and whether anything but space follows it;
  \<open>json_any\<close> is \<^verbatim>\<open>Unmarshal\<close> of the whole text into an \<^verbatim>\<open>any\<close>, which reads numbers as \<^verbatim>\<open>float64\<close> and
  fails on one that is none, \<open>json_fields\<close> lists the fields of a text that is one object, duplicates
  included, and \<open>json_encode\<close> is \<^verbatim>\<open>Marshal\<close>. An object decoded into a Go map is listed by its keys.
\<close>

record bot_env = env +
  fingerprint :: "json \<Rightarrow> string"
  material_size :: "material list \<Rightarrow> int"
  decode_text :: "string \<Rightarrow> text_msg option"
  encode_text :: "text_msg \<Rightarrow> string"
  decode_file :: "string \<Rightarrow> file_msg option"
  encode_file :: "file_msg \<Rightarrow> string"
  decode_custom :: "string \<Rightarrow> custom_msg option"
  encode_custom :: "custom_msg \<Rightarrow> string"
  json_first :: "string \<Rightarrow> (json \<times> bool) option"
  json_any :: "string \<Rightarrow> json option"
  json_fields :: "string \<Rightarrow> json_map option"
  json_encode :: "json \<Rightarrow> string"

definition bot_id :: "bot_env \<Rightarrow> bot_db \<Rightarrow> string \<times> bot_db" where
  "bot_id env db = (fresh env (b_next db), db\<lparr>b_next := Suc (b_next db)\<rparr>)"

section \<open>Guards shared by the services\<close>

definition denied :: "string \<Rightarrow> err" where "denied m = Status PermissionDenied m"
definition suspended :: "string \<Rightarrow> err" where "suspended m = Status FailedPrecondition m"
definition superseded_by :: "string \<Rightarrow> err" where "superseded_by m = Status Aborted m"

fun status_code :: "err \<Rightarrow> grpc_code" where
  "status_code (Status c m) = c"
| "status_code _ = Unknown"

text \<open>\<open>lockRunConversation\<close>: the conversation row exists.\<close>

definition lock_run_conversation :: "bot_db \<Rightarrow> string \<Rightarrow> err + unit" where
  "lock_run_conversation db cid = ensure (cid \<in> set (b_convs db)) RecordNotFound"

text \<open>The membership row of a user: \<open>RunMember\<close>.\<close>

definition member_row :: "bot_db \<Rightarrow> string \<Rightarrow> string \<Rightarrow> conv_member option" where
  "member_row db cid uid = find (\<lambda>m. is_human_member cid m \<and> cm_user m = Some uid) (b_members db)"

definition run_member :: "bot_db \<Rightarrow> string \<Rightarrow> string \<Rightarrow> err + (string \<times> int)" where
  "run_member db cid uid =
     (case member_row db cid uid of
        None \<Rightarrow> Inl (denied ''current conversation membership required'')
      | Some m \<Rightarrow> Inr (cm_id m, cm_role m))"

definition terminal_run :: "run \<Rightarrow> bool" where
  "terminal_run r \<longleftrightarrow> r_status r = ''succeeded'' \<or> r_status r = ''failed'' \<or> r_status r = ''stopped''"

definition find_run :: "bot_db \<Rightarrow> string \<Rightarrow> run option" where
  "find_run db i = find (\<lambda>r. r_id r = i) (b_runs db)"

definition get_run :: "bot_db \<Rightarrow> string \<Rightarrow> err + run" where
  "get_run db i = of_option RecordNotFound (find_run db i)"

text \<open>An SQL reference to a live binding or an active bot.\<close>

definition live_binding :: "bot_db \<Rightarrow> string \<Rightarrow> string \<Rightarrow> string \<Rightarrow> binding_row option" where
  "live_binding db bid b0 cid =
     find (\<lambda>b. bd_id b = bid \<and> bd_bot b = b0 \<and> bd_conv b = cid \<and> bd_revoked b = None) (b_bindings db)"

definition active_bot :: "bot_db \<Rightarrow> string \<Rightarrow> bot_row option" where
  "active_bot db i = find (\<lambda>b. bt_id b = i \<and> bt_status b = ''active'') (b_bots db)"

end
