(* ===== verification/Resource_Grants.thy ===== *)
theory Resource_Grants
  imports Bot_Store
begin

text \<open>
  \<^verbatim>\<open>pkg/resourcegrant/grant.go\<close>: grants of files and knowledge bases to a bot's participation in a
  conversation. \<open>check_grant\<close> revalidates a grant against the current rows of its owner, its subject's
  membership, the bot and the binding; \<open>manage_grant\<close> is the owner's create, revoke and list;
  \<open>check_ids\<close> and \<open>for_viewer\<close> are the checks of a whole grant list and of a reader.
  An access carries what a caller claims. The sharing locks of the source only order transactions.
\<close>

record access =
  ac_bot :: string
  ac_conv :: string
  ac_binding :: string
  ac_requester :: string
  ac_visibility :: string
  ac_grants :: "string list"

definition denial :: err where
  "denial = Status PermissionDenied ''resource authorization unavailable''"

definition grant_table :: "bot_db \<Rightarrow> string \<Rightarrow> grant list" where
  "grant_table db kind = (if kind = ''file'' then b_file_grants db else b_kb_grants db)"

definition owner_of :: "bot_db \<Rightarrow> string \<Rightarrow> string \<Rightarrow> err + string" where
  "owner_of db kind i =
     (if kind = ''file''
      then (case find (\<lambda>f. fl_id f = i) (b_files db) of None \<Rightarrow> Inl denial | Some f \<Rightarrow> Inr (fl_uploader f))
      else (case find (\<lambda>k. kb_id k = i \<and> kb_status k = ''active'') (b_kbs db) of
              None \<Rightarrow> Inl denial
            | Some k \<Rightarrow> of_option denial (kb_owner k)))"

text \<open>The knowledge base is bound to the bot or to the conversation.\<close>

definition kb_linked :: "string \<Rightarrow> string \<Rightarrow> string \<Rightarrow> knowledge_binding \<Rightarrow> bool" where
  "kb_linked kb b0 cid l \<longleftrightarrow> kl_kb l = kb \<and>
     (kl_target_type l = ''bot'' \<and> kl_target l = b0 \<or> kl_target_type l = ''conv'' \<and> kl_target l = cid)"

section \<open>Check\<close>

text \<open>The \<^verbatim>\<open>WHERE\<close> clause on the grant rows.\<close>

definition grant_selected :: "bot_env \<Rightarrow> access \<Rightarrow> string \<Rightarrow> grant \<Rightarrow> bool" where
  "grant_selected env a res g \<longleftrightarrow>
     g_id g \<in> set (ac_grants a) \<and> g_resource g = res \<and> g_bot g = ac_bot a \<and> g_conv g = ac_conv a \<and>
     g_binding g = ac_binding a \<and> g_read g \<and> g_revoked g = None \<and> now env < g_expires g"

text \<open>The tests of the loop over the selected grants.\<close>

definition grant_applies ::
  "bot_db \<Rightarrow> access \<Rightarrow> string \<Rightarrow> string \<Rightarrow> bool \<Rightarrow> string \<Rightarrow> binding_row \<Rightarrow> bot_row \<Rightarrow> grant \<Rightarrow> bool" where
  "grant_applies db a kind res sharing owner b bt g \<longleftrightarrow>
     g_owner g = owner \<and> g_binding_version g = bd_version b \<and> g_bot_version g = bt_version bt \<and>
     (kind = ''knowledge'' \<longrightarrow>
        (case g_resource_binding g of None \<Rightarrow> False
         | Some l \<Rightarrow> \<exists>k\<in>set (b_kb_links db). kl_id k = l \<and> kb_linked res (ac_bot a) (ac_conv a) k)) \<and>
     (\<exists>m\<in>set (b_members db). is_human_member (ac_conv a) m \<and> cm_user m = Some (g_subject g) \<and>
        cm_id m = g_subject_member g) \<and>
     \<not> (g_scope g = ''personal'' \<and>
        (ac_visibility a \<noteq> ''personal'' \<or> g_subject g \<noteq> ac_requester a \<or> sharing)) \<and>
     \<not> (sharing \<and> \<not> g_share g)"

definition id_le :: "grant \<Rightarrow> grant \<Rightarrow> bool" where
  "id_le g h = str_le (g_id g) (g_id h)"

definition check_grant :: "bot_env \<Rightarrow> bot_db \<Rightarrow> access \<Rightarrow> string \<Rightarrow> string \<Rightarrow> bool \<Rightarrow> err + grant" where
  "check_grant env db a kind res sharing =
     (if ac_requester a = [] \<and> ac_visibility a \<noteq> ''conversation'' then Inl denial
      else if \<not> list_all (valid_id env) ([ac_bot a, ac_conv a, ac_binding a, res] @
                (if ac_requester a \<noteq> [] then [ac_requester a] else []) @ ac_grants a) then Inl denial
      else if kind \<notin> {''file'', ''knowledge''} \<or> ac_grants a = [] then Inl denial
      else case live_binding db (ac_binding a) (ac_bot a) (ac_conv a) of
        None \<Rightarrow> Inl denial
      | Some b \<Rightarrow>
          if \<not> settings_enabled (bd_settings b) then Inl denial
          else case active_bot db (ac_bot a) of
            None \<Rightarrow> Inl denial
          | Some bt \<Rightarrow>
              if kind = ''knowledge'' \<and> \<not> bt_knowledge bt then Inl denial
              else rbind (owner_of db kind res) (\<lambda>owner.
                of_option denial
                  (find (grant_applies db a kind res sharing owner b bt)
                    (sort_by id_le (filter (grant_selected env a res) (grant_table db kind))))))"

section \<open>Manage\<close>

record grant_request =
  gq_op :: string
  gq_bot :: string
  gq_conv :: string
  gq_kind :: string
  gq_resource :: string
  gq_scope :: string
  gq_read :: bool
  gq_share :: bool
  gq_expires :: int
  gq_grant :: string

datatype grant_result =
  Granted grant
| Revoked string
| Grants "grant list"

definition upd_grants :: "string \<Rightarrow> (grant list \<Rightarrow> grant list) \<Rightarrow> bot_db \<Rightarrow> bot_db" where
  "upd_grants kind f db =
     (if kind = ''file'' then db\<lparr>b_file_grants := f (b_file_grants db)\<rparr>
      else db\<lparr>b_kb_grants := f (b_kb_grants db)\<rparr>)"

text \<open>The insertion, under the primary key and the checks of the table.\<close>

definition insert_grant :: "string \<Rightarrow> grant \<Rightarrow> bot_db \<Rightarrow> err + bot_db" where
  "insert_grant kind g db =
     (if \<exists>h\<in>set (grant_table db kind). g_id h = g_id g then Inl (Violation ''resource_grants_pkey'')
      else Inr (upd_grants kind (\<lambda>gs. gs @ [g]) db))"

definition create_grant ::
  "bot_env \<Rightarrow> string \<Rightarrow> string \<Rightarrow> grant_request \<Rightarrow> bot_db \<Rightarrow> err + (grant_result \<times> bot_db)" where
  "create_grant env user kind q db =
     (if gq_kind q \<noteq> kind \<or> \<not> valid_id env (gq_resource q) \<or> \<not> valid_id env (gq_bot q) \<or> \<not> valid_id env (gq_conv q) \<or>
         gq_scope q \<notin> {''conversation'', ''personal''} \<or> \<not> gq_read q \<or> gq_expires q \<le> unix (now env)
      then Inl (Status InvalidArgument ''invalid resource grant'')
      else if gq_conv q \<notin> set (b_convs db) then Inl denial
      else case owner_of db kind (gq_resource q) of
        Inl _ \<Rightarrow> Inl denial
      | Inr owner \<Rightarrow>
          if owner \<noteq> user then Inl denial
          else case find (\<lambda>b. bd_bot b = gq_bot q \<and> bd_conv b = gq_conv q \<and> bd_revoked b = None) (b_bindings db) of
            None \<Rightarrow> Inl denial
          | Some b \<Rightarrow>
            (case active_bot db (gq_bot q) of
               None \<Rightarrow> Inl denial
             | Some bt \<Rightarrow>
               (case member_row db (gq_conv q) user of
                  None \<Rightarrow> Inl denial
                | Some m \<Rightarrow>
                    let (i, db1) = bot_id env db;
                        g = \<lparr>g_id = i, g_kind = kind, g_resource = gq_resource q, g_bot = gq_bot q, g_conv = gq_conv q,
                              g_binding = bd_id b, g_resource_binding = None, g_owner = owner, g_subject = user,
                              g_subject_member = cm_id m, g_scope = gq_scope q, g_read = gq_read q, g_share = gq_share q,
                              g_expires = gq_expires q * second, g_revoked = None, g_bot_version = bt_version bt,
                              g_binding_version = bd_version b, g_created = now env\<rparr>
                    in rbind (if kind = ''knowledge''
                              then case sort_by (\<lambda>x y. str_le (kl_id x) (kl_id y))
                                       (filter (kb_linked (gq_resource q) (gq_bot q) (gq_conv q)) (b_kb_links db)) of
                                     [] \<Rightarrow> Inl denial
                                   | l # _ \<Rightarrow> Inr (g\<lparr>g_resource_binding := Some (kl_id l)\<rparr>)
                              else Inr g) (\<lambda>g.
                       rbind (insert_grant kind g db1) (\<lambda>db2. Inr (Granted g, db2))))))"

definition revoke_grant ::
  "bot_env \<Rightarrow> string \<Rightarrow> string \<Rightarrow> grant_request \<Rightarrow> bot_db \<Rightarrow> err + (grant_result \<times> bot_db)" where
  "revoke_grant env user kind q db =
     (case find (\<lambda>g. g_id g = gq_grant q \<and> g_owner g = user) (grant_table db kind) of
        None \<Rightarrow> Inl denial
      | Some prior \<Rightarrow>
          rbind (lock_run_conversation db (g_conv prior)) (\<lambda>_.
            Inr (Revoked (g_id prior),
              upd_grants kind (update_where (\<lambda>g. g_id g = g_id prior \<and> g_owner g = user)
                 (\<lambda>g. g\<lparr>g_revoked := Some (now env)\<rparr>)) db)))"

definition list_grants :: "string \<Rightarrow> string \<Rightarrow> grant_request \<Rightarrow> bot_db \<Rightarrow> grant list" where
  "list_grants user kind q db =
     sort_by (\<lambda>g h. g_created h \<le> g_created g)
       (filter (\<lambda>g. g_owner g = user \<and> (gq_bot q \<noteq> [] \<longrightarrow> g_bot g = gq_bot q) \<and>
                    (gq_conv q \<noteq> [] \<longrightarrow> g_conv g = gq_conv q)) (grant_table db kind))"

text \<open>\<open>Manage\<close> on a decoded request (\<open>None\<close>: the body could not be decoded).\<close>

definition manage_grant ::
  "bot_env \<Rightarrow> string \<Rightarrow> string \<Rightarrow> grant_request option \<Rightarrow> bot_db \<Rightarrow> err + (grant_result \<times> bot_db)" where
  "manage_grant env user kind body db =
     (case body of
        None \<Rightarrow> Inl (Status InvalidArgument ''invalid resource authorization'')
      | Some q \<Rightarrow>
          if \<not> valid_id env user then Inl (Status InvalidArgument ''invalid resource authorization'')
          else if gq_op q = ''create'' then create_grant env user kind q db
          else if gq_op q = ''revoke'' then revoke_grant env user kind q db
          else if gq_op q = ''list'' then Inr (Grants (list_grants user kind q db), db)
          else Inl (Status InvalidArgument ''unsupported resource operation''))"

section \<open>Lists of grants and viewers\<close>

definition check_one_id :: "bot_env \<Rightarrow> bot_db \<Rightarrow> access \<Rightarrow> bool \<Rightarrow> string \<Rightarrow> err + unit" where
  "check_one_id env db a sharing i =
     (if \<not> valid_id env i then Inl denial
      else case find (\<lambda>g. g_id g = i) (b_file_grants db) of
        Some g \<Rightarrow> rbind (check_grant env db (a\<lparr>ac_grants := [i]\<rparr>) ''file'' (g_resource g) sharing) (\<lambda>_. Inr ())
      | None \<Rightarrow>
          (case find (\<lambda>g. g_id g = i) (b_kb_grants db) of
             Some g \<Rightarrow> rbind (check_grant env db (a\<lparr>ac_grants := [i]\<rparr>) ''knowledge'' (g_resource g) sharing) (\<lambda>_. Inr ())
           | None \<Rightarrow> Inl denial))"

definition check_ids :: "bot_env \<Rightarrow> bot_db \<Rightarrow> access \<Rightarrow> bool \<Rightarrow> err + unit" where
  "check_ids env db a sharing = check_all (check_one_id env db a sharing) (sort_by str_le (ac_grants a))"

definition viewer_grant :: "bot_env \<Rightarrow> string \<Rightarrow> grant \<Rightarrow> bool" where
  "viewer_grant env res g \<longleftrightarrow>
     g_resource g = res \<and> g_scope g = ''conversation'' \<and> g_read g \<and> g_share g \<and> g_revoked g = None \<and> now env < g_expires g"

definition for_viewer :: "bot_env \<Rightarrow> bot_db \<Rightarrow> string \<Rightarrow> string \<Rightarrow> string \<Rightarrow> err + unit" where
  "for_viewer env db user kind res =
     ensure (\<exists>g\<in>set (filter (viewer_grant env res) (grant_table db kind)).
         member_row db (g_conv g) user \<noteq> None \<and>
         is_ok (check_grant env db \<lparr>ac_bot = g_bot g, ac_conv = g_conv g, ac_binding = g_binding g,
             ac_requester = user, ac_visibility = ''conversation'', ac_grants = [g_id g]\<rparr> kind res True)) denial"

end
