(* ===== verification/Source_Checks.thy ===== *)
theory Source_Checks
  imports Resource_Grants
begin

text \<open>
  The source checks of \<^verbatim>\<open>pkg/resourcegrant\<close> that stand on a single row each: history grants
  (\<^verbatim>\<open>history.go\<close>), the exact accepted version of a knowledge base, a document or a chunk
  (\<^verbatim>\<open>knowledge.go\<close>) and the tools a run was configured with (\<^verbatim>\<open>tools.go\<close>).
\<close>

section \<open>History grants\<close>

definition history_row :: "bot_db \<Rightarrow> access \<Rightarrow> string \<Rightarrow> history_grant option" where
  "history_row db a gid =
     find (\<lambda>g. hg_id g = gid \<and> hg_binding g = ac_binding a \<and>
        (\<exists>b\<in>set (b_bindings db). bd_id b = hg_binding g \<and> bd_conv b = ac_conv a \<and> bd_bot b = ac_bot a \<and>
           bd_revoked b = None \<and> settings_enabled (bd_settings b)) \<and>
        (\<exists>m\<in>set (b_members db). is_human_member (ac_conv a) m \<and> cm_user m = Some (hg_by g)) \<and>
        active_bot db (ac_bot a) \<noteq> None) (b_history db)"

definition check_history_grant :: "bot_env \<Rightarrow> bot_db \<Rightarrow> access \<Rightarrow> string \<Rightarrow> err + history_grant" where
  "check_history_grant env db a gid =
     (if ac_requester a \<noteq> [] \<and> \<not> valid_id env (ac_requester a)
      then Inl (denied ''history requester unavailable'')
      else if \<not> valid_id env gid \<or> \<not> valid_id env (ac_bot a) \<or> \<not> valid_id env (ac_conv a) \<or> \<not> valid_id env (ac_binding a)
      then Inl (denied ''history authorization unavailable'')
      else case history_row db a gid of
        None \<Rightarrow> Inl (denied ''history authorization unavailable'')
      | Some g \<Rightarrow>
          if hg_start g < 1 \<or> hg_end g < hg_start g \<or> \<not> is_ok (seq_validate (hg_end g))
          then Inl (denied ''invalid history authorization range'')
          else Inr g)"

section \<open>Knowledge versions\<close>

definition no_knowledge :: knowledge_source where
  "no_knowledge = \<lparr>ks_id = [], ks_doc = [], ks_chunk = [], ks_content_hash = [], ks_document_hash = [], ks_metadata_hash = []\<rparr>"

definition kb_version :: "bot_env \<Rightarrow> knowledge_base \<Rightarrow> knowledge_source" where
  "kb_version env k = no_knowledge\<lparr>ks_id := kb_id k, ks_metadata_hash := fingerprint env
     (JObj [(''kb_id'', JStr (kb_id k)), (''name'', JStr (kb_name k)), (''description'', JStr (kb_description k)),
            (''mode'', JStr (kb_mode k))])\<rparr>"

definition current_kb :: "bot_env \<Rightarrow> bot_db \<Rightarrow> string \<Rightarrow> err + knowledge_base" where
  "current_kb env db i =
     (if \<not> valid_id env i then Inl (denied ''knowledge metadata unavailable'')
      else of_option (denied ''knowledge metadata unavailable'')
        (find (\<lambda>k. kb_id k = i \<and> kb_status k = ''active'' \<and> kb_mode k = ''rag'') (b_kbs db)))"

definition doc_version :: "bot_env \<Rightarrow> knowledge_doc \<Rightarrow> knowledge_source" where
  "doc_version env d = no_knowledge\<lparr>ks_id := kd_kb d, ks_doc := kd_id d, ks_document_hash := fingerprint env
     (JObj [(''doc_id'', JStr (kd_id d)), (''kb_id'', JStr (kd_kb d)), (''title'', JStr (kd_title d)),
            (''file_type'', JStr (kd_file_type d)), (''status'', JStr (kd_status d)), (''chunk_count'', jint (kd_chunks d))])\<rparr>"

definition current_doc :: "bot_env \<Rightarrow> bot_db \<Rightarrow> string \<Rightarrow> err + knowledge_doc" where
  "current_doc env db i =
     (if \<not> valid_id env i then Inl (denied ''knowledge document metadata unavailable'')
      else of_option (denied ''knowledge document metadata unavailable'')
        (find (\<lambda>d. kd_id d = i \<and>
           (\<exists>k\<in>set (b_kbs db). kb_id k = kd_kb d \<and> kb_status k = ''active'' \<and> kb_mode k = ''rag'')) (b_docs db)))"

text \<open>A chunk joined with its ready document and its active base.\<close>

definition chunk_doc :: "bot_db \<Rightarrow> knowledge_chunk \<Rightarrow> knowledge_doc option" where
  "chunk_doc db c =
     find (\<lambda>d. kd_id d = kc_doc c \<and> kd_kb d = kc_kb c \<and> kd_status d = ''ready'' \<and>
        (\<exists>k\<in>set (b_kbs db). kb_id k = kd_kb d \<and> kb_status k = ''active'')) (b_docs db)"

definition current_chunk :: "bot_env \<Rightarrow> bot_db \<Rightarrow> string \<Rightarrow> err + (knowledge_chunk \<times> knowledge_doc)" where
  "current_chunk env db i =
     (if \<not> valid_id env i then Inl (denied ''knowledge source unavailable'')
      else case find (\<lambda>c. kc_id c = i \<and> chunk_doc db c \<noteq> None) (b_chunks db) of
        None \<Rightarrow> Inl (denied ''knowledge source unavailable'')
      | Some c \<Rightarrow> rbind (of_option (denied ''knowledge source unavailable'') (chunk_doc db c)) (\<lambda>d. Inr (c, d)))"

definition chunk_version :: "bot_env \<Rightarrow> knowledge_chunk \<times> knowledge_doc \<Rightarrow> knowledge_source" where
  "chunk_version env cd = (case cd of (c, d) \<Rightarrow>
     no_knowledge\<lparr>ks_id := kc_kb c, ks_doc := kc_doc c, ks_chunk := kc_id c,
       ks_content_hash := fingerprint env (JObj [(''Content'', JStr (kc_content c)), (''Index'', jint (kc_index c)),
         (''Parent'', case kc_parent c of None \<Rightarrow> JNull | Some p \<Rightarrow> JStr p), (''Metadata'', kc_metadata c)]),
       ks_document_hash := fingerprint env (JObj [(''Hash'', JStr (kd_content_hash d)), (''Title'', JStr (kd_title d)),
         (''Metadata'', kd_metadata d)])\<rparr>)"

definition check_knowledge_source :: "bot_env \<Rightarrow> bot_db \<Rightarrow> knowledge_source \<Rightarrow> err + unit" where
  "check_knowledge_source env db v =
     (if ks_metadata_hash v \<noteq> [] then
        if ks_doc v \<noteq> [] \<or> ks_chunk v \<noteq> [] \<or> ks_content_hash v \<noteq> [] \<or> ks_document_hash v \<noteq> []
        then Inl (denied ''mixed knowledge source kinds'')
        else rbind (current_kb env db (ks_id v)) (\<lambda>k.
          ensure (kb_version env k = v) (denied ''knowledge metadata replaced''))
      else if ks_doc v \<noteq> [] \<and> ks_chunk v = [] \<and> ks_content_hash v = [] \<and> ks_document_hash v \<noteq> [] then
        rbind (current_doc env db (ks_doc v)) (\<lambda>d.
          ensure (doc_version env d = v) (denied ''knowledge document metadata replaced''))
      else if ks_id v = [] \<and> ks_doc v = [] \<and> ks_chunk v = [] then Inr ()
      else rbind (current_chunk env db (ks_chunk v)) (\<lambda>c.
        ensure (chunk_version env c = v) (denied ''knowledge source replaced'')))"

section \<open>Tools\<close>

definition tool_denial :: err where
  "tool_denial = Status PermissionDenied ''current tool capability or sharing scope unavailable''"

definition trusted_tool_policy :: "string \<Rightarrow> (string \<times> tool_policy) list \<Rightarrow> string \<Rightarrow> tool_policy option" where
  "trusted_tool_policy owner_type policies name =
     (case map_of policies name of
        Some p \<Rightarrow> if tp_risk p \<in> {''read'', ''draft'', ''send'', ''modify'', ''delete'', ''pay''} then Some p else None
      | None \<Rightarrow>
          if owner_type = ''platform'' \<and>
             name \<in> {''fetch'', ''fetch_url'', ''read_url'', ''web_search'', ''search'', ''wikipedia_search''}
          then Some \<lparr>tp_risk = ''read'', tp_target = [], tp_share = True, tp_convs = []\<rparr> else None)"

definition knowledge_tools :: "string list" where
  "knowledge_tools = [''search_knowledge'', ''list_knowledge_bases'', ''list_knowledge_documents'', ''read_knowledge_document'']"

definition runtime_tools :: "string list" where
  "runtime_tools = [''ask_for_input'', ''delegate_run'', ''delegation_result''] @ knowledge_tools @ [''read_conversation_history'']"

definition check_runtime_tool :: "bot_db \<Rightarrow> access \<Rightarrow> tool_ref \<Rightarrow> err + unit" where
  "check_runtime_tool db a ref =
     (if tr_name ref \<notin> set runtime_tools then Inl tool_denial
      else rbind (if tr_name ref \<in> set knowledge_tools
                  then case active_bot db (ac_bot a) of
                         None \<Rightarrow> Inl RecordNotFound
                       | Some b \<Rightarrow> ensure (bt_knowledge b \<and> tr_risk ref = ''read'') tool_denial
                  else Inr ()) (\<lambda>_.
        ensure (\<not> (tr_name ref = ''read_conversation_history'' \<and> (tr_risk ref \<noteq> ''read'' \<or> \<not> tr_share ref))) tool_denial))"

definition check_mcp_tool :: "bot_db \<Rightarrow> access \<Rightarrow> tool_ref \<Rightarrow> err + unit" where
  "check_mcp_tool db a ref =
     (case find (\<lambda>s. ms_id s = tr_server ref \<and> ms_enabled s) (b_servers db) of
        None \<Rightarrow> Inl tool_denial
      | Some s \<Rightarrow>
          if \<not> (\<exists>t\<in>set (b_assignments db). ta_bot t = ac_bot a \<and> ta_server t = tr_server ref \<and> ta_enabled t)
          then Inl tool_denial
          else case ms_policies s of
            None \<Rightarrow> Inl tool_denial
          | Some policies \<Rightarrow>
              (case trusted_tool_policy (ms_owner_type s) policies (tr_name ref) of
                 None \<Rightarrow> Inl tool_denial
               | Some p \<Rightarrow>
                   if tp_risk p \<noteq> tr_risk ref \<or> tp_target p \<noteq> tr_target ref \<or> tp_share p \<noteq> tr_share ref \<or>
                      tp_convs p \<noteq> tr_convs ref \<or> ms_transport s \<noteq> tr_transport ref \<or> ms_url s \<noteq> tr_url ref
                   then Inl tool_denial
                   else if ac_visibility a \<noteq> ''personal'' \<and>
                     (\<not> tp_share p \<or> (map_of policies (tr_name ref) \<noteq> None \<and> ac_conv a \<notin> set (tp_convs p)))
                   then Inl tool_denial else Inr ()))"

definition check_tool :: "bot_db \<Rightarrow> access \<Rightarrow> tool_ref \<Rightarrow> err + unit" where
  "check_tool db a ref =
     (if tr_server ref = ''runtime'' then check_runtime_tool db a ref
      else if tr_server ref = ''builtin''
      then ensure (tr_name ref = ''web_search'' \<and> tr_risk ref = ''read'') tool_denial
      else check_mcp_tool db a ref)"

definition check_tool_permissions :: "bot_db \<Rightarrow> access \<Rightarrow> tool_ref list \<Rightarrow> err + unit" where
  "check_tool_permissions db a refs = check_all (check_tool db a) refs"

definition check_run_tool_permissions :: "bot_db \<Rightarrow> access \<Rightarrow> string \<Rightarrow> err + unit" where
  "check_run_tool_permissions db a rid =
     (case find_run db rid of
        None \<Rightarrow> Inl RecordNotFound
      | Some r \<Rightarrow>
          if r_bot r \<noteq> ac_bot a \<or> r_conv r \<noteq> ac_conv a \<or> r_binding r \<noteq> ac_binding a \<or>
             r_requester r \<noteq> ac_requester a \<or> r_visibility r \<noteq> ac_visibility a
          then Inl tool_denial
          else case map_opt ra_tool (sort_by (\<lambda>x y. str_le (ra_id x) (ra_id y))
                 (filter (\<lambda>x. ra_run x = rid \<and> ra_status x = ''succeeded'') (b_actions db))) of
            None \<Rightarrow> Inl tool_denial
          | Some refs \<Rightarrow> check_tool_permissions db a (xc_tools (r_config r) @ refs))"

text \<open>The access a run was accepted with.\<close>

definition run_access :: "run \<Rightarrow> access" where
  "run_access r = \<lparr>ac_bot = r_bot r, ac_conv = r_conv r, ac_binding = r_binding r, ac_requester = r_requester r,
     ac_visibility = r_visibility r, ac_grants = r_grants r\<rparr>"

end
