(* ===== verification/Source_Fence.thy ===== *)
theory Source_Fence
  imports Source_Checks
begin

text \<open>
  \<^verbatim>\<open>pkg/resourcegrant/output_sources.go\<close> and \<open>checkHistory\<close> of \<^verbatim>\<open>history.go\<close>: the traversal
  that rechecks everything a run's output rests on. Its edges (history messages, continuation parents,
  delegated results, delegation origins) are data and may form cycles. \<open>vis\<close> and \<open>hist\<close> are the
  runs and messages the traversal is inside of (\<open>f.visiting\<close>, \<open>f.history\<close>, entered on the way down
  and left on return) and the last argument is \<open>f.checked\<close>, threaded through. The two stacks together
  never exceed \<open>max_source_ancestry\<close>, and that is why the four functions end on every database.
\<close>

definition max_source_ancestry :: nat where
  "max_source_ancestry = 64"

lemma rfold_cong [fundef_cong]:
  "xs = ys \<Longrightarrow> s = t \<Longrightarrow> (\<And>x u. x \<in> set ys \<Longrightarrow> f x u = g x u) \<Longrightarrow> rfold f xs s = rfold g ys t"
proof (induction ys arbitrary: xs s t)
  case (Cons y ys)
  from Cons.prems(3) have "rfold f ys u = rfold g ys u" for u by (intro Cons.IH) simp_all
  with Cons.prems show ?case by (cases "g y t") simp_all
qed simp

section \<open>Checks of one run\<close>

definition load_run :: "bot_env \<Rightarrow> bot_db \<Rightarrow> string \<Rightarrow> string \<Rightarrow> err + run" where
  "load_run env db cid rid =
     (if \<not> valid_id env rid then Inl (denied ''related Run source unavailable'')
      else of_option (denied ''related Run source unavailable'')
        (find (\<lambda>r. r_id r = rid \<and> r_conv r = cid) (b_runs db)))"

definition check_participation :: "bot_db \<Rightarrow> run \<Rightarrow> err + unit" where
  "check_participation db r =
     ensure (\<exists>c\<in>set (b_bindings db). bd_id c = r_binding r \<and> bd_conv c = r_conv r \<and> bd_bot c = r_bot r \<and>
        bd_revoked c = None \<and> bd_version c = r_binding_version r \<and> settings_enabled (bd_settings c) \<and>
        (\<exists>b\<in>set (b_bots db). bt_id b = bd_bot c \<and> bt_status b = ''active'' \<and> bt_version b = r_bot_version r))
       (denied ''related Run participation authorization revoked'')"

definition check_authority :: "bot_env \<Rightarrow> bot_db \<Rightarrow> run \<Rightarrow> err + unit" where
  "check_authority env db r =
     (if r_revoked r \<or> r_invalidated r \<or> r_visibility r \<noteq> ''conversation''
      then Inl (denied ''related Run output authorization revoked'')
      else rbind (check_participation db r) (\<lambda>_.
           rbind (check_ids env db (run_access r) True) (\<lambda>_.
           check_run_tool_permissions db (run_access r) (r_id r))))"

definition consumed :: "run \<Rightarrow> string \<Rightarrow> bool" where
  "consumed r cid \<longleftrightarrow> (\<exists>m\<in>set (r_materials r). mt_kind m = ''delegation_result'' \<and> mt_parent_run m = cid)"

text \<open>The walk of \<open>checkDelegationResult\<close> up the explicit continuations of the consumer.\<close>

definition same_lifecycle :: "run \<Rightarrow> run \<Rightarrow> bool" where
  "same_lifecycle c r \<longleftrightarrow>
     \<not> r_revoked r \<and> r_bot r = r_bot c \<and> r_conv r = r_conv c \<and> r_binding r = r_binding c \<and>
     r_interaction r = r_interaction c \<and> r_visibility r = r_visibility c \<and>
     r_bot_version r = r_bot_version c \<and> r_binding_version r = r_binding_version c"

function fence_continuation ::
  "bot_env \<Rightarrow> bot_db \<Rightarrow> run \<Rightarrow> run \<Rightarrow> run_origin \<Rightarrow> string list \<Rightarrow> run \<Rightarrow> err + unit" where
  "fence_continuation env db consumer child origin seen cur =
     (if r_id cur \<in> set seen \<or> length seen \<ge> max_source_ancestry \<or> \<not> same_lifecycle consumer cur
      then Inl (denied ''delegated result continuation lifecycle revoked'')
      else if r_id cur \<noteq> r_id consumer \<and> \<not> terminal_run cur
      then Inl (denied ''delegated result continuation is not terminal'')
      else rbind (check_participation db cur) (\<lambda>_.
        if r_deleg_parent child = Some (r_id cur) \<and> r_bot cur = ro_bot origin
        then ensure (r_id cur = r_id consumer \<or> consumed cur (r_id child))
               (denied ''continuation has no consumed delegated result'')
        else case r_parent cur of
          None \<Rightarrow> Inl (denied ''delegated result is outside explicit continuation'')
        | Some p \<Rightarrow>
            rbind (load_run env db (r_conv consumer) p)
              (fence_continuation env db consumer child origin (r_id cur # seen))))"
  by pat_completeness auto
termination
  by (relation "measure (\<lambda>(env, db, consumer, child, origin, seen, cur). max_source_ancestry - length seen)") auto

definition fence_delegation_result :: "bot_env \<Rightarrow> bot_db \<Rightarrow> run \<Rightarrow> run \<Rightarrow> err + unit" where
  "fence_delegation_result env db consumer child =
     (case r_origin child of
        None \<Rightarrow> Inl (denied ''delegated result authorization changed'')
      | Some origin \<Rightarrow>
          if r_status child \<noteq> ''succeeded'' \<or> r_revoked child \<or> r_invalidated child \<or> r_conv child \<noteq> r_conv consumer \<or>
             r_visibility child \<noteq> ''conversation'' \<or> r_visibility consumer \<noteq> ''conversation'' \<or>
             ro_kind origin \<noteq> ''delegation'' \<or> r_deleg_parent child \<noteq> Some (ro_source origin)
          then Inl (denied ''delegated result authorization changed'')
          else if \<not> (\<exists>i\<in>set (b_interactions db). ia_id i = r_interaction consumer \<and> ia_bot i = r_bot consumer \<and>
                 ia_conv i = r_conv consumer \<and> ia_binding i = r_binding consumer \<and> ia_status i = ''active'')
          then Inl (denied ''delegated result interaction lifecycle revoked'')
          else fence_continuation env db consumer child origin [] consumer)"

definition material_resources :: "material \<Rightarrow> (string \<times> string) list" where
  "material_resources m = filter (\<lambda>(k, i). i \<noteq> []) [(''file'', mt_file m), (''knowledge'', mt_knowledge m)]"

definition check_resource :: "bot_env \<Rightarrow> bot_db \<Rightarrow> access \<Rightarrow> string \<times> string \<Rightarrow> err + unit" where
  "check_resource env db a res = rbind (check_grant env db a (fst res) (snd res) True) (\<lambda>_. Inr ())"

definition fence_delegation_resources :: "bot_env \<Rightarrow> bot_db \<Rightarrow> run \<Rightarrow> run \<Rightarrow> err + unit" where
  "fence_delegation_resources env db consumer child =
     rbind (if r_result_type child = ''file''
            then case decode_file env (r_result_content child) of
                   None \<Rightarrow> Inl (Plain ''proto: syntax error'')
                 | Some f \<Rightarrow> Inr (if fm_id f = [] then [] else [(''file'', fm_id f)])
            else Inr []) (\<lambda>result.
     check_all (\<lambda>res. check_all (\<lambda>a. check_resource env db a res) [run_access child, run_access consumer])
       (concat (map material_resources (r_materials child)) @ result))"

definition version_resources :: "source_version \<Rightarrow> (string \<times> string) list" where
  "version_resources v = filter (\<lambda>(k, i). i \<noteq> []) [(''file'', sv_file v), (''knowledge'', ks_id (sv_knowledge v))]"

text \<open>The tests on a parent source before the traversal enters it.\<close>

definition fence_parent :: "bot_env \<Rightarrow> bot_db \<Rightarrow> run \<Rightarrow> string list \<Rightarrow> source_version \<Rightarrow> run \<Rightarrow> err + unit" where
  "fence_parent env db r delegated v parent =
     (if r_revoked parent \<or> r_invalidated parent \<or> r_branch_version parent \<noteq> sv_revision v
      then Inl (denied ''parent source authorization changed'')
      else if r_id parent \<in> set delegated
      then rbind (fence_delegation_result env db r parent) (\<lambda>_. fence_delegation_resources env db r parent)
      else ensure (r_bot parent = r_bot r \<and> r_binding parent = r_binding r \<and> r_interaction parent = r_interaction r)
             (denied ''parent source is outside this interaction''))"

definition delegated_results :: "run \<Rightarrow> string list" where
  "delegated_results r = map mt_parent_run (filter (\<lambda>m. mt_kind m = ''delegation_result'') (r_materials r))"

text \<open>A live message that the grantor and the requester can still see.\<close>

definition history_message :: "bot_db \<Rightarrow> access \<Rightarrow> history_grant \<Rightarrow> history_source \<Rightarrow> message option" where
  "history_message db a g s =
     find (\<lambda>m. m_id m = hs_message s \<and> m_conv m = ac_conv a \<and> m_seq m = hs_seq s \<and>
        m_edit_count m = hs_edit_count s \<and> m_status m \<noteq> status_recalled \<and>
        (hg_by g, m_conv m, m_id m) \<notin> set (b_deletions db) \<and>
        (ac_requester a = [] \<or> (ac_requester a, m_conv m, m_id m) \<notin> set (b_deletions db))) (b_messages db)"

text \<open>The run a bot message was published by, if its payload names one.\<close>

definition message_run :: "bot_env \<Rightarrow> message \<Rightarrow> string option" where
  "message_run env m =
     (if m_sender_type m \<noteq> ''bot'' \<or> m_raw_payload m = [] then None
      else case json_decode env (m_raw_payload m) of
        Some (JObj fs) \<Rightarrow>
          (case field_str fs ''run_id'' of Some i \<Rightarrow> if valid_id env i then Some i else None | None \<Rightarrow> None)
      | _ \<Rightarrow> None)"

definition controller_current :: "bot_db \<Rightarrow> run \<Rightarrow> bool" where
  "controller_current db r \<longleftrightarrow>
     (case member_row db (r_conv r) (r_controller r) of
        None \<Rightarrow> False | Some m \<Rightarrow> r_controller_member r = Some (cm_id m))"

section \<open>The traversal\<close>

function fence_run ::
    "bot_env \<Rightarrow> bot_db \<Rightarrow> string list \<Rightarrow> string list \<Rightarrow> run \<Rightarrow> string list \<Rightarrow> err + string list"
  and fence_history ::
    "bot_env \<Rightarrow> bot_db \<Rightarrow> string list \<Rightarrow> string list \<Rightarrow> access \<Rightarrow> history_source \<Rightarrow> string list \<Rightarrow> err + string list"
  and fence_origin ::
    "bot_env \<Rightarrow> bot_db \<Rightarrow> string list \<Rightarrow> string list \<Rightarrow> run \<Rightarrow> nat \<Rightarrow> string list \<Rightarrow> err + string list"
  and fence_delegation_origin ::
    "bot_env \<Rightarrow> bot_db \<Rightarrow> string list \<Rightarrow> string list \<Rightarrow> string \<Rightarrow> string \<Rightarrow> string \<Rightarrow> nat \<Rightarrow> string list \<Rightarrow> err + string list"
where
  "fence_run env db vis hist r checked =
     (if r_id r \<in> set checked then Inr checked
      else if r_id r \<in> set vis \<or> length vis + length hist \<ge> max_source_ancestry
      then Inl (denied ''cyclic or excessive Run output provenance'')
      else
        rbind (check_authority env db r) (\<lambda>_.
        rbind (check_all (\<lambda>i. ensure (valid_id env i) (denied ''invalid delegated result source'')) (delegated_results r)) (\<lambda>_.
        rbind (rfold (\<lambda>v ck.
            rbind (fence_history env db (r_id r # vis) hist (run_access r) (sv_history v) ck) (\<lambda>ck.
            rbind (check_all (check_resource env db (run_access r)) (version_resources v)) (\<lambda>_.
            rbind (check_knowledge_source env db (sv_knowledge v)) (\<lambda>_.
            if sv_parent_run v = [] then Inr ck
            else rbind (load_run env db (r_conv r) (sv_parent_run v)) (\<lambda>parent.
                 rbind (fence_parent env db r (delegated_results r) v parent) (\<lambda>_.
                 fence_run env db (r_id r # vis) hist parent ck)))))) (r_provenance r) checked) (\<lambda>ck1.
        if \<exists>i\<in>set (delegated_results r). i \<notin> sv_parent_run ` set (r_provenance r)
        then Inl (denied ''delegated result provenance unavailable'')
        else
        rbind (rfold (\<lambda>m ck.
            if mt_kind m = ''conversation_history'' then
              if mt_history_grant m = [] \<or> mt_seq m \<le> 0
              then Inl (denied ''history material has no authorization provenance'')
              else fence_history env db (r_id r # vis) hist (run_access r)
                     \<lparr>hs_message = mt_message m, hs_edit_count = mt_edit_count m, hs_grant = mt_history_grant m,
                      hs_seq = mt_seq m\<rparr> ck
            else if mt_history_grant m \<noteq> [] then
              rbind (check_history_grant env db (run_access r) (mt_history_grant m)) (\<lambda>g.
                if mt_seq m < hg_start g \<or> mt_seq m > hg_end g
                then Inl (denied ''history source authorization revoked'') else Inr ck)
            else Inr ck) (r_materials r) ck1) (\<lambda>ck2.
        fence_origin env db (r_id r # vis) hist r 0 (r_id r # ck2))))))"
| "fence_history env db vis hist a src checked =
     (if hs_grant src = [] \<and> hs_seq src = 0 then Inr checked
      else if \<not> valid_id env (hs_message src) \<or> hs_seq src < 1 \<or> \<not> is_ok (seq_validate (hs_seq src)) \<or> hs_edit_count src < 0
      then Inl (denied ''invalid history source'')
      else if hs_message src \<in> set hist \<or> length hist + length vis \<ge> max_source_ancestry
      then Inl (denied ''cyclic or excessive history source ancestry'')
      else
        rbind (check_history_grant env db a (hs_grant src)) (\<lambda>g.
        if hs_seq src < hg_start g \<or> hs_seq src > hg_end g
        then Inl (denied ''history source is outside its grant'')
        else case history_message db a g src of
          None \<Rightarrow> Inl (denied ''history source is no longer current or visible'')
        | Some m \<Rightarrow>
            (case message_run env m of
               None \<Rightarrow> Inr checked
             | Some rid \<Rightarrow>
                 rbind (load_run env db (ac_conv a) rid) (\<lambda>r.
                 if m_sender m \<noteq> Some (r_bot r) \<or> m_binding m \<noteq> Some (r_binding r) \<or> r_conv r \<noteq> ac_conv a \<or>
                    r_visibility r \<noteq> ''conversation'' \<or> r_revoked r \<or> r_invalidated r
                 then Inl (denied ''history result source authorization revoked'')
                 else fence_run env db vis (hs_message src # hist) r checked))))"
| "fence_origin env db vis hist r depth checked =
     (case r_origin r of
        None \<Rightarrow> Inr checked
      | Some origin \<Rightarrow>
          if \<not> valid_id env (ro_user origin) \<or> \<not> valid_id env (ro_member origin) \<or>
             (case member_row db (r_conv r) (ro_user origin) of
                None \<Rightarrow> True
              | Some m \<Rightarrow> cm_id m \<noteq> ro_member origin \<or> (ro_kind origin = ''rule'' \<and> cm_role m > 2))
          then Inl (denied ''delegation source authorizer revoked'')
          else if ro_kind origin = ''delegation''
          then fence_delegation_origin env db vis hist (r_conv r) (ro_source origin) (ro_bot origin) depth checked
          else Inr checked)"
| "fence_delegation_origin env db vis hist cid rid b0 depth checked =
     (if depth \<ge> 3 \<or> \<not> valid_id env rid \<or> \<not> valid_id env b0
      then Inl (denied ''invalid delegation output origin'')
      else
        rbind (load_run env db cid rid) (\<lambda>r.
        if r_bot r \<noteq> b0 then Inl (denied ''delegation source identity changed'')
        else if \<not> controller_current db r then Inl (denied ''delegation source controller lifecycle revoked'')
        else
          rbind (check_authority env db r) (\<lambda>_.
          rbind (fence_origin env db vis hist r (depth + 1) checked) (\<lambda>ck.
          if r_id r \<in> set vis then Inr ck else fence_run env db vis hist r ck))))"
  by pat_completeness auto

termination
proof (relation "measures
    [\<lambda>x. case x of
       Inl (Inl (env, db, vis, hist, r, ck)) \<Rightarrow> max_source_ancestry - (length vis + length hist)
     | Inl (Inr (env, db, vis, hist, a, s, ck)) \<Rightarrow> max_source_ancestry - (length vis + length hist)
     | Inr (Inl (env, db, vis, hist, r, d, ck)) \<Rightarrow> max_source_ancestry - (length vis + length hist)
     | Inr (Inr (env, db, vis, hist, cid, rid, b0, d, ck)) \<Rightarrow> max_source_ancestry - (length vis + length hist),
     \<lambda>x. case x of
       Inl _ \<Rightarrow> 0
     | Inr (Inl (env, db, vis, hist, r, d, ck)) \<Rightarrow> 2 * (4 - d) + 2
     | Inr (Inr (env, db, vis, hist, cid, rid, b0, d, ck)) \<Rightarrow> 2 * (4 - d) + 1]", goal_cases)
qed auto

declare fence_run.simps [simp del] fence_history.simps [simp del] fence_origin.simps [simp del]
  fence_delegation_origin.simps [simp del] fence_continuation.simps [simp del]

text \<open>\<open>CheckHistorySource\<close> and \<open>CheckOutputSources\<close>, the entries of the traversal.\<close>

definition check_history_source :: "bot_env \<Rightarrow> bot_db \<Rightarrow> access \<Rightarrow> history_source \<Rightarrow> err + unit" where
  "check_history_source env db a s =
     (if hs_grant s = [] \<and> hs_seq s = 0 then Inr ()
      else rbind (fence_history env db [] [] a s []) (\<lambda>_. Inr ()))"

definition check_output_sources :: "bot_env \<Rightarrow> bot_db \<Rightarrow> string \<Rightarrow> string \<Rightarrow> string \<Rightarrow> err + unit" where
  "check_output_sources env db cid bid rid =
     rbind (load_run env db cid rid) (\<lambda>r.
       if r_binding r \<noteq> bid then Inl (denied ''Run output binding changed'')
       else rbind (fence_run env db [] [] r []) (\<lambda>_. Inr ()))"

end
