(* ===== verification/Run_Authority.thy ===== *)
theory Run_Authority
  imports Source_Fence
begin

text \<open>
  Who may act on a run, and on what a run may still rely: \<^verbatim>\<open>repo/delegation.go\<close>,
  \<^verbatim>\<open>repo/delegation_authority.go\<close> and the authority half of \<^verbatim>\<open>repo/run_repo.go\<close>. The walks over
  continuation and delegation ancestors stop at the first run they have seen; \<open>run_room\<close> counts the
  runs of the table not yet seen, which every step decreases.
\<close>

definition run_room :: "bot_db \<Rightarrow> string list \<Rightarrow> nat" where
  "run_room db seen = card (r_id ` set (b_runs db) - set seen)"

lemma find_run_SomeD: "find_run db i = Some r \<Longrightarrow> r \<in> set (b_runs db) \<and> r_id r = i"
  unfolding find_run_def by (drule find_SomeD) simp

lemma run_room_step:
  assumes "find_run db p = Some r" and "r_id r \<notin> set seen"
  shows "run_room db (r_id r # seen) < run_room db seen"
proof -
  have "r_id r \<in> r_id ` set (b_runs db) - set seen" using assms find_run_SomeD by fastforce
  then have "card (r_id ` set (b_runs db) - set (r_id r # seen)) < card (r_id ` set (b_runs db) - set seen)"
    by (intro psubset_card_mono) auto
  then show ?thesis by (simp add: run_room_def)
qed

section \<open>The ancestry barrier\<close>

text \<open>The ancestor \<open>LockDelegationTree\<close> follows: the continued run, else the delegation root, else the delegator.\<close>

definition tree_parent :: "run \<Rightarrow> string option" where
  "tree_parent r =
     (case r_parent r of Some p \<Rightarrow> Some p
      | None \<Rightarrow> (case r_deleg_root r of Some p \<Rightarrow> Some p | None \<Rightarrow> r_deleg_parent r))"

definition same_principal :: "run \<Rightarrow> run \<Rightarrow> bool" where
  "same_principal p r \<longleftrightarrow>
     r_visibility p = r_visibility r \<and>
     \<not> (r_visibility p = ''personal'' \<and>
        (r_personal_user p = None \<or> r_personal_user r = None \<or> r_personal_user p \<noteq> r_personal_user r))"

definition tree_step :: "bot_db \<Rightarrow> run \<Rightarrow> run \<Rightarrow> string \<Rightarrow> err + run" where
  "tree_step db r cur p =
     (case find_run db p of
        None \<Rightarrow> Inl (denied ''Run ancestry unavailable'')
      | Some parent \<Rightarrow>
          if r_conv parent \<noteq> r_conv r then Inl (denied ''Run ancestry is outside this conversation'')
          else if r_parent cur \<noteq> None \<and>
            (r_interaction parent \<noteq> r_interaction cur \<or> r_bot parent \<noteq> r_bot cur \<or> r_binding parent \<noteq> r_binding cur \<or>
             \<not> same_principal parent cur)
          then Inl (denied ''parent source is outside this interaction'')
          else Inr parent)"

text \<open>
  The loop of the source, that need not end a priori, and the walk with its variant. The lock it
  takes at the root is an advisory lock of the database and leaves no trace in the tables.
\<close>

partial_function (option) tree_loop :: "bot_db \<Rightarrow> run \<Rightarrow> string list \<Rightarrow> run \<Rightarrow> (err + string) option" where
  "tree_loop db r seen cur =
     (if r_id cur \<in> set seen then Some (Inl (denied ''Run ancestry contains a cycle''))
      else case tree_parent cur of
        None \<Rightarrow> Some (Inr (r_id cur))
      | Some p \<Rightarrow>
          (case tree_step db r cur p of
             Inl e \<Rightarrow> Some (Inl e)
           | Inr parent \<Rightarrow> tree_loop db r (r_id cur # seen) parent))"

lemma tree_step_find: "tree_step db r cur p = Inr parent \<Longrightarrow> find_run db p = Some parent"
  by (auto simp: tree_step_def split: option.splits if_splits)

text \<open>The variant: the unseen rows, plus one while the walk stands on a row that need not be in the table.\<close>

definition walk_room :: "bot_db \<Rightarrow> string list \<Rightarrow> run \<Rightarrow> nat" where
  "walk_room db seen cur = run_room db seen + (if r_id cur \<in> r_id ` set (b_runs db) then 0 else 1)"

lemma walk_room_step:
  assumes "find_run db p = Some parent" and "r_id cur \<notin> set seen"
  shows "walk_room db (r_id cur # seen) parent < walk_room db seen cur"
proof -
  have p: "r_id parent \<in> r_id ` set (b_runs db)" using assms(1) find_run_SomeD by fastforce
  show ?thesis
  proof (cases "r_id cur \<in> r_id ` set (b_runs db)")
    case True
    then have "card (r_id ` set (b_runs db) - set (r_id cur # seen)) < card (r_id ` set (b_runs db) - set seen)"
      using assms(2) by (intro psubset_card_mono) auto
    with True p show ?thesis by (simp add: walk_room_def run_room_def)
  next
    case False
    then have "r_id ` set (b_runs db) - set (r_id cur # seen) = r_id ` set (b_runs db) - set seen" by auto
    with False p show ?thesis by (simp add: walk_room_def run_room_def)
  qed
qed

function tree_walk :: "bot_db \<Rightarrow> run \<Rightarrow> string list \<Rightarrow> run \<Rightarrow> err + string" where
  "tree_walk db r seen cur =
     (if r_id cur \<in> set seen then Inl (denied ''Run ancestry contains a cycle'')
      else case tree_parent cur of
        None \<Rightarrow> Inr (r_id cur)
      | Some p \<Rightarrow> rbind (tree_step db r cur p) (tree_walk db r (r_id cur # seen)))"
  by pat_completeness auto
termination
  by (relation "measure (\<lambda>(db, r, seen, cur). walk_room db seen cur)")
    (auto dest!: tree_step_find intro: walk_room_step)

declare tree_walk.simps [simp del]

definition lock_delegation_tree :: "bot_db \<Rightarrow> run \<Rightarrow> err + unit" where
  "lock_delegation_tree db r = rbind (tree_walk db r [] r) (\<lambda>_. Inr ())"

section \<open>Delegation authority\<close>

text \<open>The current member an origin was authorized by; a rule also needs an administrator.\<close>

definition origin_current :: "bot_db \<Rightarrow> run \<Rightarrow> bool" where
  "origin_current db r \<longleftrightarrow>
     (case r_origin r of
        None \<Rightarrow> True
      | Some o1 \<Rightarrow>
          (case run_member db (r_conv r) (ro_user o1) of
             Inl _ \<Rightarrow> False
           | Inr (mid, role) \<Rightarrow> mid = ro_member o1 \<and> \<not> (ro_kind o1 = ''rule'' \<and> role > 2)))"

definition check_delegation_grant :: "bot_env \<Rightarrow> bot_db \<Rightarrow> run \<Rightarrow> string \<Rightarrow> err + unit" where
  "check_delegation_grant env db parent i =
     (case find (\<lambda>g. g_id g = i) (b_file_grants db) of
        Some g \<Rightarrow> check_resource env db (run_access parent) (''file'', g_resource g)
      | None \<Rightarrow>
          (case find (\<lambda>g. g_id g = i) (b_kb_grants db) of
             Some g \<Rightarrow> check_resource env db (run_access parent) (''knowledge'', g_resource g)
           | None \<Rightarrow> Inl (denied ''target resource grant unavailable'')))"

definition check_delegation_grants :: "bot_env \<Rightarrow> bot_db \<Rightarrow> run \<Rightarrow> run \<Rightarrow> err + unit" where
  "check_delegation_grants env db parent child =
     check_all (check_delegation_grant env db parent) (r_grants child)"

text \<open>One step of \<open>CheckDelegationSource\<close>: the source of a child still authorizes it.\<close>

definition check_source_step :: "bot_env \<Rightarrow> bot_db \<Rightarrow> run \<Rightarrow> run \<Rightarrow> err + unit" where
  "check_source_step env db child src =
     (if \<not> (case r_origin child of
              None \<Rightarrow> False
            | Some o1 \<Rightarrow> ro_kind o1 = ''delegation'' \<and> ro_source o1 = r_id src \<and> r_bot src = ro_bot o1) \<or>
         r_conv src \<noteq> r_conv child \<or> r_visibility src \<noteq> ''conversation'' \<or> r_revoked src
      then Inl (denied ''delegation source authorization revoked'')
      else if \<not> origin_current db src
      then Inl (denied ''delegation source origin authorization revoked'')
      else case live_binding db (r_binding src) (r_bot src) (r_conv src) of
        None \<Rightarrow> Inl (denied ''delegation source binding revoked'')
      | Some b \<Rightarrow>
          if bd_version b \<noteq> r_binding_version src
          then Inl (denied ''delegation source binding authorization revoked'')
          else if \<not> settings_enabled (bd_settings b) then Inl (denied ''delegation source participation revoked'')
          else case active_bot db (r_bot src) of
            None \<Rightarrow> Inl (denied ''delegating Bot authorization revoked'')
          | Some bt \<Rightarrow>
              if bt_version bt \<noteq> r_bot_version src
              then Inl (denied ''delegating Bot authorization revoked'')
              else check_delegation_grants env db src child)"

definition next_source :: "bot_env \<Rightarrow> bot_db \<Rightarrow> string list \<Rightarrow> run \<Rightarrow> string \<Rightarrow> err + run" where
  "next_source env db seen child p =
     (if p \<in> set seen then Inl (denied ''delegation source ancestry is cyclic'')
      else case find_run db p of
        None \<Rightarrow> Inl (denied ''delegation source unavailable'')
      | Some src \<Rightarrow> rbind (check_source_step env db child src) (\<lambda>_. Inr src))"

lemma next_source_find:
  "next_source env db seen child p = Inr src \<Longrightarrow> find_run db p = Some src \<and> r_id src \<notin> set seen"
  by (auto simp: next_source_def rbind_eq_Inr split: if_splits option.splits dest: find_run_SomeD)

partial_function (option) source_loop :: "bot_env \<Rightarrow> bot_db \<Rightarrow> string list \<Rightarrow> run \<Rightarrow> (err + unit) option" where
  "source_loop env db seen child =
     (case r_deleg_parent child of
        None \<Rightarrow> Some (Inr ())
      | Some p \<Rightarrow>
          (case next_source env db seen child p of
             Inl e \<Rightarrow> Some (Inl e)
           | Inr src \<Rightarrow> source_loop env db (r_id src # seen) src))"

function source_walk :: "bot_env \<Rightarrow> bot_db \<Rightarrow> string list \<Rightarrow> run \<Rightarrow> err + unit" where
  "source_walk env db seen child =
     (case r_deleg_parent child of
        None \<Rightarrow> Inr ()
      | Some p \<Rightarrow>
          (case next_source env db seen child p of
             Inl e \<Rightarrow> Inl e
           | Inr src \<Rightarrow> source_walk env db (r_id src # seen) src))"
  by pat_completeness auto
termination
  by (relation "measure (\<lambda>(env, db, seen, child). run_room db seen)")
    (auto dest!: next_source_find intro: run_room_step)

declare source_walk.simps [simp del]

definition check_delegation_source :: "bot_env \<Rightarrow> bot_db \<Rightarrow> run \<Rightarrow> err + unit" where
  "check_delegation_source env db child = source_walk env db [r_id child] child"

section \<open>Permissions of a run\<close>

definition run_controller :: "bot_db \<Rightarrow> run \<Rightarrow> string \<Rightarrow> err + unit" where
  "run_controller db r user =
     (if r_visibility r = ''personal'' \<and> r_personal_user r \<noteq> Some user
      then Inl (denied ''personal Run control is restricted to requester'')
      else rbind (run_member db (r_conv r) user) (\<lambda>(mid, role).
        ensure (role \<le> 2 \<or> (user = r_requester r \<and> r_requester_member r = Some mid) \<or>
                (user = r_controller r \<and> r_controller_member r = Some mid) \<or>
                (case map_of (r_memberships r) user of None \<Rightarrow> [] = mid | Some i \<Rightarrow> i = mid))
          (denied ''Run control requires current requester, controller, grant or administrator'')))"

definition lock_run_permissions :: "bot_env \<Rightarrow> bot_db \<Rightarrow> run \<Rightarrow> err + unit" where
  "lock_run_permissions env db r =
     rbind (check_delegation_source env db r) (\<lambda>_.
     if \<not> origin_current db r then Inl (denied ''origin authorization revoked'')
     else case live_binding db (r_binding r) (r_bot r) (r_conv r) of
       None \<Rightarrow> Inl (denied ''binding revoked'')
     | Some b \<Rightarrow>
         if \<not> settings_enabled (bd_settings b) then Inl (denied ''participation permission revoked'')
         else case active_bot db (r_bot r) of
           None \<Rightarrow> Inl (denied ''Bot unavailable'')
         | Some bt \<Rightarrow>
             if r_revoked r \<or> bt_version bt \<noteq> r_bot_version r \<or> bd_version b \<noteq> r_binding_version r
             then Inl (denied ''captured authorization revoked'')
             else if r_executor r = ''third_party'' \<and>
               (bt_kind bt \<noteq> ''third_party'' \<or> bt_revision bt \<noteq> xc_revision (r_config r) \<or>
                bt_mode bt \<noteq> xc_mode (r_config r) \<or> bt_callback bt \<noteq> xc_callback (r_config r))
             then Inl (denied ''executor authorization or route changed'')
             else check_ids env db (run_access r) (r_visibility r \<noteq> ''personal''))"

end
