(* ===== verification/Run_Sources.thy ===== *)
theory Run_Sources
  imports Run_Authority
begin

text \<open>
  The sources accepted work rests on: \<open>CheckDelegationResult\<close> of
  \<^verbatim>\<open>repo/delegation_authority.go\<close>, \<open>CheckMaterialHistory\<close>, \<open>CheckAcceptedMessages\<close>,
  \<open>CheckRunSources\<close> and \<open>lockRunAuthority\<close> of \<^verbatim>\<open>repo/run_repo.go\<close>, the delegation budgets, and the
  lookups that identify a submission (\<open>txInput\<close>, \<open>txDelegationInput\<close>).
\<close>

section \<open>Delegated results\<close>

definition same_continuation :: "run \<Rightarrow> run \<Rightarrow> bool" where
  "same_continuation c r \<longleftrightarrow>
     \<not> r_revoked r \<and> r_bot r = r_bot c \<and> r_conv r = r_conv c \<and> r_binding r = r_binding c \<and>
     r_interaction r = r_interaction c \<and> r_visibility r = r_visibility c \<and>
     r_bot_version r = r_bot_version c \<and> r_binding_version r = r_binding_version c"

definition continued_run :: "bot_db \<Rightarrow> run \<Rightarrow> err + run" where
  "continued_run db cur =
     (case r_parent cur of
        None \<Rightarrow> Inl (denied ''result is not delegated to this continuation'')
      | Some p \<Rightarrow>
          (case find_run db p of
             None \<Rightarrow> Inl (denied ''continuation ancestor unavailable'')
           | Some parent \<Rightarrow>
               if terminal_run parent then Inr parent
               else Inl (denied ''continuation ancestor is not terminal'')))"

lemma continued_run_find: "continued_run db cur = Inr parent \<Longrightarrow> \<exists>p. find_run db p = Some parent"
  by (auto simp: continued_run_def split: option.splits if_splits)

function continuation_walk ::
  "bot_env \<Rightarrow> bot_db \<Rightarrow> run \<Rightarrow> run \<Rightarrow> run_origin \<Rightarrow> string list \<Rightarrow> run \<Rightarrow> err + unit" where
  "continuation_walk env db consumer child origin seen cur =
     (if r_id cur \<in> set seen then Inl (denied ''continuation ancestry is cyclic'')
      else if \<not> same_continuation consumer cur then Inl (denied ''continuation ancestry authorization changed'')
      else rbind (lock_run_permissions env db cur) (\<lambda>_.
        if r_deleg_parent child = Some (r_id cur) then
          if ro_bot origin \<noteq> r_bot cur then Inl (denied ''delegated result Bot does not match its parent'')
          else ensure (r_id cur = r_id consumer \<or> consumed cur (r_id child))
                 (denied ''ancestor did not consume this delegated result'')
        else rbind (continued_run db cur) (continuation_walk env db consumer child origin (r_id cur # seen))))"
  by pat_completeness auto
termination
  by (relation "measure (\<lambda>(env, db, consumer, child, origin, seen, cur). walk_room db seen cur)")
    (auto dest!: continued_run_find intro: walk_room_step)

declare continuation_walk.simps [simp del]

definition check_delegation_result :: "bot_env \<Rightarrow> bot_db \<Rightarrow> run \<Rightarrow> run \<Rightarrow> err + unit" where
  "check_delegation_result env db consumer child =
     (case r_origin child of
        None \<Rightarrow> Inl (denied ''delegated result is unavailable'')
      | Some origin \<Rightarrow>
          if r_visibility consumer \<noteq> ''conversation'' \<or> r_visibility child \<noteq> ''conversation'' \<or>
             r_conv child \<noteq> r_conv consumer \<or> r_status child \<noteq> ''succeeded'' \<or> r_revoked child \<or>
             r_invalidated child \<or> ro_kind origin \<noteq> ''delegation'' \<or> r_deleg_parent child \<noteq> Some (ro_source origin)
          then Inl (denied ''delegated result is unavailable'')
          else
            rbind (lock_run_permissions env db child) (\<lambda>_.
            rbind (check_run_tool_permissions db (run_access child) (r_id child)) (\<lambda>_.
            case live_binding db (r_binding consumer) (r_bot consumer) (r_conv consumer) of
              None \<Rightarrow> Inl (denied ''delegation consumer binding revoked'')
            | Some b \<Rightarrow>
                if bd_version b \<noteq> r_binding_version consumer
                then Inl (denied ''delegation consumer authorization revoked'')
                else if \<not> settings_enabled (bd_settings b)
                then Inl (denied ''delegation consumer participation revoked'')
                else if \<not> (\<exists>i\<in>set (b_interactions db). ia_id i = r_interaction consumer \<and> ia_bot i = r_bot consumer \<and>
                       ia_conv i = r_conv consumer \<and> ia_binding i = r_binding consumer)
                then Inl (denied ''delegation consumer interaction unavailable'')
                else continuation_walk env db consumer child origin [] consumer)))"

section \<open>Accepted messages\<close>

text \<open>
  \<open>CheckMaterialHistory\<close> counts the rows of a join; the grant's identity is a primary key and so is the
  binding's, and a user has one membership per conversation, so the count is one when a row exists.
\<close>

definition check_material_history :: "bot_db \<Rightarrow> run \<Rightarrow> string \<Rightarrow> int \<Rightarrow> err + unit" where
  "check_material_history db r gid sq =
     (if sq \<le> 0 then Inl (denied ''history source has no accepted sequence'')
      else ensure (\<exists>g\<in>set (b_history db). hg_id g = gid \<and> hg_binding g = r_binding r \<and>
             (\<exists>b\<in>set (b_bindings db). bd_id b = hg_binding g \<and> bd_conv b = r_conv r) \<and>
             member_row db (r_conv r) (hg_by g) \<noteq> None \<and> hg_start g \<le> sq \<and> sq \<le> hg_end g)
           (denied ''history source authorization revoked''))"

definition check_accepted_message :: "bot_db \<Rightarrow> run \<Rightarrow> material \<Rightarrow> err + unit" where
  "check_accepted_message db r m =
     (if mt_message m = [] then Inr ()
      else case find (\<lambda>x. m_id x = mt_message m \<and> m_conv x = r_conv r) (b_messages db) of
        None \<Rightarrow> Inl (denied ''source is no longer visible'')
      | Some x \<Rightarrow>
          if m_status x = status_recalled then Inl (denied ''source is no longer visible'')
          else if m_edit_count x \<noteq> mt_edit_count m \<or> m_seq x \<noteq> mt_seq m
          then Inl (superseded_by ''source version changed during acceptance'')
          else if ((if mt_requester m = [] then r_requester r else mt_requester m), r_conv r, mt_message m)
                    \<in> set (b_deletions db)
          then Inl (denied ''source is no longer visible'')
          else if mt_history_grant m \<noteq> [] then
            rbind (check_material_history db r (mt_history_grant m) (mt_seq m)) (\<lambda>_.
              ensure (\<not> (\<exists>g\<in>set (b_history db). hg_id g = mt_history_grant m \<and>
                         (hg_by g, r_conv r, mt_message m) \<in> set (b_deletions db)))
                (denied ''history source is no longer visible''))
          else Inr ())"

definition check_accepted_messages :: "bot_db \<Rightarrow> run \<Rightarrow> material list \<Rightarrow> err + unit" where
  "check_accepted_messages db r ms = check_all (check_accepted_message db r) ms"

section \<open>Sources of accepted work\<close>

text \<open>The first loop of \<open>CheckRunSources\<close>: the delegated results and the history materials.\<close>

definition live_access :: "run \<Rightarrow> access" where
  "live_access r = (run_access r)\<lparr>ac_visibility := [], ac_grants := []\<rparr>"

definition check_material :: "bot_env \<Rightarrow> bot_db \<Rightarrow> run \<Rightarrow> material \<Rightarrow> err + unit" where
  "check_material env db r m =
     (if mt_kind m = ''delegation_result'' \<and> mt_parent_run m = []
      then Inl (denied ''delegated result has no source'')
      else if mt_kind m = ''conversation_history'' then
        if mt_history_grant m = [] \<or> mt_seq m \<le> 0
        then Inl (denied ''history material has no authorization provenance'')
        else check_history_source env db (live_access r)
          \<lparr>hs_message = mt_message m, hs_edit_count = mt_edit_count m, hs_grant = mt_history_grant m, hs_seq = mt_seq m\<rparr>
      else if mt_history_grant m \<noteq> [] then check_material_history db r (mt_history_grant m) (mt_seq m)
      else Inr ())"

definition check_version :: "bot_env \<Rightarrow> bot_db \<Rightarrow> run \<Rightarrow> source_version \<Rightarrow> err + unit" where
  "check_version env db r v =
     rbind (check_history_source env db (run_access r) (sv_history v)) (\<lambda>_.
     if ks_id (sv_knowledge v) = [] then Inr ()
     else if \<not> (\<exists>b\<in>set (b_bots db). bt_id b = r_bot r \<and> bt_knowledge b)
     then Inl (denied ''knowledge capability revoked'')
     else rbind (check_grant env db (run_access r) ''knowledge'' (ks_id (sv_knowledge v)) (r_visibility r \<noteq> ''personal'')) (\<lambda>_.
          check_knowledge_source env db (sv_knowledge v)))"

definition check_parent_source :: "bot_env \<Rightarrow> bot_db \<Rightarrow> run \<Rightarrow> source_version \<Rightarrow> err + unit" where
  "check_parent_source env db r v =
     (if sv_parent_run v = [] then Inr ()
      else case find_run db (sv_parent_run v) of
        None \<Rightarrow> Inl (denied ''parent source unavailable'')
      | Some parent \<Rightarrow>
          if r_branch_version parent \<noteq> sv_revision v \<or> r_revoked parent
          then Inl (superseded_by ''parent source validity changed'')
          else if r_id parent \<in> set (delegated_results r) then check_delegation_result env db r parent
          else ensure (r_bot parent = r_bot r \<and> r_conv parent = r_conv r \<and> r_binding parent = r_binding r \<and>
                       r_interaction parent = r_interaction r)
                 (denied ''parent source is outside this interaction''))"

definition check_child_result :: "bot_env \<Rightarrow> bot_db \<Rightarrow> run \<Rightarrow> string \<Rightarrow> err + unit" where
  "check_child_result env db r i =
     (case find_run db i of
        None \<Rightarrow> Inl (denied ''delegated result source unavailable'')
      | Some child \<Rightarrow> check_delegation_result env db r child)"

definition by_parent :: "source_version \<Rightarrow> source_version \<Rightarrow> bool" where
  "by_parent v w = str_le (sv_parent_run v) (sv_parent_run w)"

definition check_run_sources :: "bot_env \<Rightarrow> bot_db \<Rightarrow> run \<Rightarrow> err + unit" where
  "check_run_sources env db r =
     rbind (check_all (check_material env db r) (r_materials r)) (\<lambda>_.
     let versions = sort_by by_parent (r_provenance r) in
     rbind (check_all (check_version env db r) versions) (\<lambda>_.
     rbind (check_all (check_parent_source env db r) versions) (\<lambda>_.
     check_all (check_child_result env db r)
       (sort_by str_le (remdups (filter (\<lambda>i. i \<notin> sv_parent_run ` set versions) (delegated_results r)))))))"

definition lock_run_authority :: "bot_env \<Rightarrow> bot_db \<Rightarrow> run \<Rightarrow> bool \<Rightarrow> err + unit" where
  "lock_run_authority env db r controller =
     rbind (lock_run_permissions env db r) (\<lambda>_.
     rbind (check_run_sources env db r) (\<lambda>_.
     if controller \<and> \<not> controller_current db r
     then Inl (suspended ''controller membership lost; explicit takeover required'') else Inr ()))"

section \<open>Delegation budgets\<close>

definition delegation_tokens_max :: int where "delegation_tokens_max = 16384"
definition delegation_bytes_max :: int where "delegation_bytes_max = 262144"

definition tree_tokens :: "bot_db \<Rightarrow> string \<Rightarrow> int" where
  "tree_tokens db rt = sum_list (map r_deleg_output (filter (\<lambda>r. r_deleg_root r = Some rt) (b_runs db)))"

definition tree_bytes :: "bot_db \<Rightarrow> string \<Rightarrow> int" where
  "tree_bytes db rt = sum_list (map r_deleg_input (filter (\<lambda>r. r_deleg_root r = Some rt) (b_runs db)))"

definition tree_count :: "bot_db \<Rightarrow> string \<Rightarrow> int" where
  "tree_count db rt = int (length (filter (\<lambda>r. r_deleg_root r = Some rt) (b_runs db)))"

definition reserve_delegation_output :: "bot_db \<Rightarrow> run \<Rightarrow> int \<Rightarrow> bool \<Rightarrow> err + run" where
  "reserve_delegation_output db r tokens first =
     (case r_deleg_root r of
        None \<Rightarrow> Inr r
      | Some rt \<Rightarrow>
          if first \<and> filter (\<lambda>c. mc_run c = r_id r) (b_calls db) = [] then Inr r
          else if tokens \<le> 0 \<or> wrap64 (tree_tokens db rt + tokens) > delegation_tokens_max
          then Inl (Status ResourceExhausted ''collaboration output reservation exhausted'')
          else Inr (r\<lparr>r_deleg_output := r_deleg_output r + tokens\<rparr>))"

definition reserve_delegation_input :: "bot_db \<Rightarrow> run \<Rightarrow> int \<Rightarrow> err + run" where
  "reserve_delegation_input db r n =
     (case r_deleg_root r of
        None \<Rightarrow> Inr r
      | Some rt \<Rightarrow>
          if n < 0 \<or> wrap64 (tree_bytes db rt + n) > delegation_bytes_max
          then Inl (Status ResourceExhausted ''collaboration input budget exhausted'')
          else Inr (r\<lparr>r_deleg_input := r_deleg_input r + n\<rparr>))"

section \<open>Submission identity\<close>

definition tx_input :: "string \<Rightarrow> string \<Rightarrow> string \<Rightarrow> string \<Rightarrow> run \<Rightarrow> bool" where
  "tx_input b0 binding requester key r \<longleftrightarrow>
     r_bot r = b0 \<and> r_binding r = binding \<and> r_input_key r = key \<and> r_requester r = requester"

definition tx_delegation_input :: "string \<Rightarrow> string \<Rightarrow> string \<Rightarrow> run \<Rightarrow> bool" where
  "tx_delegation_input parent b0 key r \<longleftrightarrow>
     r_bot r = b0 \<and> r_input_key r = key \<and>
     (case r_origin r of None \<Rightarrow> False | Some o1 \<Rightarrow> ro_kind o1 = ''delegation'' \<and> ro_source o1 = parent)"

end
