(* ===== verification/Run_View.thy ===== *)
theory Run_View
  imports Run_Sources
begin

text \<open>
  \<open>Run.Public\<close> of \<^verbatim>\<open>model/run.go\<close>: the projection of a stored run that leaves the service. The
  viewer's decorations (\<^verbatim>\<open>Actions\<close>, \<^verbatim>\<open>CanControl\<close>) are not columns and are not part of it.
\<close>

definition public_keys :: "string list" where
  "public_keys = [''type'', ''kind'', ''role'', ''matched_chunk_id'', ''chunk_index'', ''metadata_json'', ''kb_name'',
     ''kb_id'', ''doc_id'', ''chunk_id'', ''title'', ''message_id'', ''file_id'', ''parent_run_id'', ''requester_id'',
     ''history_grant_id'', ''sender_type'', ''sender_id'', ''tool_name'', ''activity_id'']"

text \<open>The allowlist of a source: the named keys with a string value, and a valid positive position.\<close>

definition public_source :: "json_map \<Rightarrow> json_map" where
  "public_source m =
     concat (map (\<lambda>k. case map_of m k of Some (JStr s) \<Rightarrow> [(k, JStr s)] | _ \<Rightarrow> []) public_keys) @
     (case map_of m ''seq'' of
        Some (JNum l) \<Rightarrow>
          (case int_of_lexeme l of
             Some n \<Rightarrow> if 0 < n \<and> n \<le> seq_max then [(''seq'', jint n)] else []
           | None \<Rightarrow> [])
      | _ \<Rightarrow> [])"

fun source_map :: "json \<Rightarrow> json_map" where
  "source_map (JObj m) = m"
| "source_map _ = []"

definition public_of :: "run \<Rightarrow> public_run" where
  "public_of r =
     \<lparr>pr_id = r_id r, pr_interaction = r_interaction r, pr_parent = r_parent r, pr_origin = r_origin r,
      pr_activity = r_activity r, pr_deleg_parent = r_deleg_parent r, pr_deleg_depth = r_deleg_depth r,
      pr_children = r_children r, pr_interaction_status = r_interaction_status r, pr_visibility = r_visibility r,
      pr_personal_user = r_personal_user r, pr_bot = r_bot r, pr_conv = r_conv r, pr_binding = r_binding r,
      pr_requester = r_requester r, pr_controller = r_controller r, pr_controls = r_controls r,
      pr_stop_status = r_stop_status r, pr_stream_status = r_stream_status r, pr_stop_reason = r_stop_reason r,
      pr_input_key = r_input_key r, pr_inputs = r_inputs r, pr_notice = r_notice r,
      pr_source_message = r_source_message r, pr_input_version = r_input_version r, pr_version = r_version r,
      pr_executor = r_executor r, pr_caps = r_caps r, pr_delivery_status = r_delivery_status r,
      pr_executor_status = r_executor_status r,
      pr_lease = (case r_lease r of None \<Rightarrow> 0 | Some t \<Rightarrow> unix t), pr_generation = r_generation r,
      pr_trigger = r_trigger r, pr_status = r_status r, pr_stage = r_stage r, pr_waiting = r_waiting r,
      pr_result_text = (if r_invalidated r then [] else r_result_text r),
      pr_result_type = (if r_invalidated r then [] else r_result_type r),
      pr_result_content = (if r_invalidated r then [] else r_result_content r),
      pr_output_status = r_output_status r, pr_message = r_message r, pr_error = r_error r,
      pr_sources = map (public_source \<circ> source_map) (r_sources r), pr_steps = r_steps r,
      pr_created = unix (r_created r), pr_updated = unix (r_updated r)\<rparr>"

text \<open>What the conversation is told of an update, and what a stopped executor is told.\<close>

definition update_notice :: "run \<Rightarrow> public_run" where
  "update_notice r = (public_of r)\<lparr>pr_result_text := [], pr_result_type := [], pr_result_content := [],
     pr_waiting := [], pr_error := [], pr_sources := [], pr_activity := None\<rparr>"

definition stop_receipt :: "public_run \<Rightarrow> public_run" where
  "stop_receipt p = p\<lparr>pr_result_text := [], pr_result_type := [], pr_result_content := [], pr_error := [],
     pr_waiting := [], pr_notice := [], pr_activity := None, pr_sources := [], pr_inputs := []\<rparr>"

end
