(* ===== verification/Run_Repo.thy ===== *)
theory Run_Repo
  imports Run_View
begin

text \<open>
  The writes of \<^verbatim>\<open>repo/run_repo.go\<close>: the work queue and its leases, \<open>change_with\<close> (every worker and
  lifecycle mutation), \<open>report\<close> (every executor and user command), the reconciliation of revoked
  sources and the closing of an interaction. A callback of the source (\<^verbatim>\<open>fn\<close>, \<^verbatim>\<open>apply\<close>), which mutates
  a run and may write other rows, is a function from the run and the tables to the new run and tables.
  A transaction that fails leaves the tables as they were. The row a caller read before a transaction
  is an argument (\<^verbatim>\<open>prior\<close>, \<^verbatim>\<open>checked\<close>), so that it may be stale.
\<close>

type_synonym run_step_fn = "run \<Rightarrow> bot_db \<Rightarrow> err + (run \<times> bot_db)"

section \<open>Saving a run\<close>

text \<open>The checks of \<^verbatim>\<open>bot.runs\<close> (migrations 004 to 019).\<close>

definition run_statuses :: "string list" where
  "run_statuses = [''accepted'', ''running'', ''waiting_input'', ''waiting_authorization'', ''stopping'', ''stopped'',
     ''succeeded'', ''failed'']"

definition executor_statuses :: "string list" where
  "executor_statuses = [''pending'', ''accepted'', ''completed'', ''stopped'', ''stop_rejected'', ''lost'']"

definition stop_statuses :: "string list" where
  "stop_statuses = [''none'', ''requested'', ''confirmed'', ''rejected'', ''unknown'']"

definition run_row_ok :: "run \<Rightarrow> bool" where
  "run_row_ok r \<longleftrightarrow>
     r_status r \<in> set run_statuses \<and> r_executor_status r \<in> set executor_statuses \<and>
     r_stop_status r \<in> set stop_statuses \<and> r_stream_status r \<in> {''open'', ''closed''} \<and>
     r_output_status r \<in> {''none'', ''generated'', ''pending'', ''committed'', ''failed''} \<and>
     r_delivery_status r \<in> {''pending'', ''delivered'', ''acknowledged''} \<and>
     r_executor r \<in> {''builtin'', ''third_party''} \<and> r_visibility r \<in> {''conversation'', ''personal''} \<and>
     r_interaction_status r \<in> {''active'', ''closed''} \<and>
     0 < r_version r \<and> 0 < r_input_version r \<and> 0 \<le> r_trajectory r \<and>
     0 \<le> r_applied_input r \<and> r_applied_input r \<le> r_input_version r \<and>
     (case r_origin r of None \<Rightarrow> r_requester r \<noteq> []
      | Some o1 \<Rightarrow> r_requester r = [] \<and> ro_kind o1 \<in> {''rule'', ''delegation''})"

definition put_run :: "run \<Rightarrow> bot_db \<Rightarrow> bot_db" where
  "put_run r db = db\<lparr>b_runs := update_where (\<lambda>x. r_id x = r_id r) (\<lambda>_. r) (b_runs db)\<rparr>"

definition save_run :: "run \<Rightarrow> bot_db \<Rightarrow> err + bot_db" where
  "save_run r db = (if run_row_ok r then Inr (put_run r db) else Inl (Violation ''runs_check''))"

section \<open>The work queue\<close>

definition sender_kind :: "run \<Rightarrow> run_input \<Rightarrow> string" where
  "sender_kind r i =
     (if in_requester i \<noteq> [] then ''user''
      else case r_origin r of
        None \<Rightarrow> ''user''
      | Some o1 \<Rightarrow> if ro_kind o1 = ''delegation'' then ''bot'' else ro_kind o1)"

definition inputs_of :: "bot_db \<Rightarrow> string \<Rightarrow> run_input list" where
  "inputs_of db rid = sort_by (\<lambda>x y. in_version x \<le> in_version y) (filter (\<lambda>i. in_run i = rid) (b_inputs db))"

definition work_payload_of :: "bot_db \<Rightarrow> run \<Rightarrow> string \<Rightarrow> work_payload" where
  "work_payload_of db r kind =
     (if kind = ''updated'' then Updated_Payload (r_conv r) (r_bot r) (update_notice r)
      else if kind = ''deliver'' then
        if r_operation r = ''stop''
        then Stop_Payload (r_id r) (r_bot r) (r_conv r) (r_binding r) (r_generation r) (r_input_version r) (r_stop_reason r)
        else Request_Payload (public_of r) (r_generation r) (r_input_version r)
               (map (\<lambda>i. (sender_kind r i, i)) (inputs_of db (r_id r))) (r_operation r)
      else Empty_Payload)"

text \<open>The insert of the queue does nothing on a conflict of \<^verbatim>\<open>(run_id, kind, version)\<close> or of the key.\<close>

definition put_work :: "work_item \<Rightarrow> bot_db \<Rightarrow> bot_db" where
  "put_work w db =
     (if \<exists>x\<in>set (b_work db). w_id x = w_id w \<or> (w_run x = w_run w \<and> w_kind x = w_kind w \<and> w_version x = w_version w)
      then db else db\<lparr>b_work := b_work db @ [w]\<rparr>)"

definition queue_run :: "bot_env \<Rightarrow> run \<Rightarrow> string \<Rightarrow> bot_db \<Rightarrow> bot_db" where
  "queue_run env r kind db =
     (if kind = ''updated'' \<and> r_visibility r = ''personal'' then db
      else let (i, db1) = bot_id env db in
        put_work \<lparr>w_id = i, w_run = r_id r, w_kind = kind, w_version = r_version r,
          w_payload = work_payload_of db r kind, w_attempts = 0, w_available = now env, w_lease = None,
          w_token = None, w_generation = 0, w_completed = None, w_created = now env\<rparr> db1)"

text \<open>Queueing for the version the enclosing change will store.\<close>

definition queue_next :: "bot_env \<Rightarrow> run \<Rightarrow> string \<Rightarrow> bot_db \<Rightarrow> bot_db" where
  "queue_next env r kind db = queue_run env (r\<lparr>r_version := r_version r + 1\<rparr>) kind db"

definition live_lease :: "bot_env \<Rightarrow> work_item \<Rightarrow> bool" where
  "live_lease env w \<longleftrightarrow> w_completed w = None \<and> (case w_lease w of None \<Rightarrow> False | Some t \<Rightarrow> now env < t)"

definition minute :: int where "minute = 60 * second"

section \<open>Leases\<close>

text \<open>\<open>eligible\<close> of \<open>Claim\<close>.\<close>

definition eligible :: "bot_env \<Rightarrow> bot_db \<Rightarrow> string list \<Rightarrow> work_item \<Rightarrow> bool" where
  "eligible env db kinds w \<longleftrightarrow>
     w_kind w \<in> set kinds \<and> w_completed w = None \<and> w_available w \<le> now env \<and>
     (case w_lease w of None \<Rightarrow> True | Some t \<Rightarrow> t \<le> now env) \<and>
     (w_kind w = ''execute'' \<longrightarrow>
       \<not> (\<exists>x\<in>set (b_work db). w_run x = w_run w \<and> w_id x \<noteq> w_id w \<and> w_kind x = ''execute'' \<and>
            live_lease env x))"

definition older :: "work_item \<Rightarrow> work_item \<Rightarrow> bool" where
  "older v w \<longleftrightarrow> w_created v < w_created w \<or> (w_created v = w_created w \<and> str_le (w_id v) (w_id w))"

definition put_item :: "work_item \<Rightarrow> bot_db \<Rightarrow> bot_db" where
  "put_item w db = db\<lparr>b_work := update_where (\<lambda>x. w_id x = w_id w) (\<lambda>_. w) (b_work db)\<rparr>"

text \<open>The run of a claimed \<^verbatim>\<open>execute\<close> item, behind the barriers.\<close>

definition claimed_run :: "bot_db \<Rightarrow> work_item \<Rightarrow> err + run" where
  "claimed_run db w =
     rbind (get_run db (w_run w)) (\<lambda>r.
     rbind (lock_run_conversation db (r_conv r)) (\<lambda>_.
     rbind (lock_delegation_tree db r) (\<lambda>_. Inr r)))"

definition executable :: "run \<Rightarrow> bool" where
  "executable r \<longleftrightarrow> r_status r = ''accepted'' \<or> r_status r = ''running'' \<or> r_status r = ''stopping''"

text \<open>A claim of executable work starts a new generation of the run.\<close>

definition begin_generation :: "bot_env \<Rightarrow> run \<Rightarrow> run" where
  "begin_generation env r =
     r\<lparr>r_generation := r_generation r + 1, r_version := r_version r + 1, r_updated := now env,
       r_executor_status :=
         (if r_executor_status r \<noteq> ''lost'' \<and> (r_status r = ''accepted'' \<or> r_status r = ''running'')
          then ''accepted'' else r_executor_status r)\<rparr>"

definition claim :: "bot_env \<Rightarrow> string list \<Rightarrow> bot_db \<Rightarrow> err + (work_item \<times> bot_db)" where
  "claim env kinds db =
     (case sort_by older (filter (eligible env db kinds) (b_work db)) of
        [] \<Rightarrow> Inl RecordNotFound
      | w # _ \<Rightarrow>
          let (token, db0) = bot_id env db;
              leased = w\<lparr>w_token := Some token, w_lease := Some (now env + minute), w_attempts := w_attempts w + 1\<rparr>
          in if w_kind w = ''execute'' then
               rbind (claimed_run db w) (\<lambda>r.
                 if executable r then
                   let r' = begin_generation env r; leased' = leased\<lparr>w_generation := r_generation r'\<rparr>
                   in rbind (save_run r' db0) (\<lambda>db1.
                        Inr (leased', put_item leased' (queue_run env r' ''updated'' db1)))
                 else Inr (leased, put_item leased db0))
             else Inr (leased, put_item leased db0))"

text \<open>The three ways a worker gives its lease back or keeps it: the row must still carry its token.\<close>

definition owned :: "work_item \<Rightarrow> work_item \<Rightarrow> bool" where
  "owned item w \<longleftrightarrow> w_id w = w_id item \<and> w_token item \<noteq> None \<and> w_token w = w_token item"

definition renew :: "bot_env \<Rightarrow> work_item \<Rightarrow> bot_db \<Rightarrow> err + bot_db" where
  "renew env item db =
     (if \<exists>w\<in>set (b_work db). owned item w \<and> live_lease env w
      then Inr (db\<lparr>b_work := update_where (\<lambda>w. owned item w \<and> live_lease env w)
             (\<lambda>w. w\<lparr>w_lease := Some (now env + minute)\<rparr>) (b_work db)\<rparr>)
      else Inl (Status Aborted ''outbox lease lost''))"

definition complete_work :: "bot_env \<Rightarrow> work_item \<Rightarrow> bot_db \<Rightarrow> bot_db" where
  "complete_work env item db =
     db\<lparr>b_work := update_where (owned item)
       (\<lambda>w. w\<lparr>w_completed := Some (now env), w_lease := None, w_token := None\<rparr>) (b_work db)\<rparr>"

definition retry_work :: "bot_env \<Rightarrow> work_item \<Rightarrow> bot_db \<Rightarrow> bot_db" where
  "retry_work env item db =
     db\<lparr>b_work := update_where (owned item)
       (\<lambda>w. w\<lparr>w_available := now env + min (w_attempts item) 30 * second, w_lease := None, w_token := None\<rparr>)
       (b_work db)\<rparr>"

text \<open>\<open>CheckExecutionLease\<close>; generation zero is the platform itself.\<close>

definition check_execution_lease :: "bot_env \<Rightarrow> bot_db \<Rightarrow> run \<Rightarrow> int \<Rightarrow> err + unit" where
  "check_execution_lease env db r gen =
     (if gen = 0 then Inr ()
      else if gen \<noteq> r_generation r \<or> gen < 1 then Inl (superseded_by ''execution lease superseded'')
      else if r_executor r = ''third_party'' then
        ensure (\<exists>x\<in>set (b_runs db). r_id x = r_id r \<and> r_generation x = gen \<and>
            (case r_lease x of None \<Rightarrow> False | Some t \<Rightarrow> now env < t))
          (superseded_by ''execution lease expired or lost'')
      else
        ensure ((\<exists>x\<in>set (b_runs db). r_id x = r_id r \<and> r_generation x = gen) \<and>
            (\<exists>w\<in>set (b_work db). w_run w = r_id r \<and> w_kind w = ''execute'' \<and> w_generation w = gen \<and>
               live_lease env w))
          (superseded_by ''execution lease expired or lost''))"

section \<open>Changes of a run\<close>

text \<open>The end of every accepted change: the next version, the closed stream, the step, the notice.\<close>

definition finish_run :: "bot_env \<Rightarrow> string \<Rightarrow> run \<Rightarrow> run" where
  "finish_run env before r =
     (let r1 = r\<lparr>r_version := r_version r + 1, r_updated := now env\<rparr>;
          r2 = (if terminal_run r1 then r1\<lparr>r_stream_status := ''closed''\<rparr> else r1)
      in if r_stage r2 \<noteq> before
         then r2\<lparr>r_steps := r_steps r2 @ [\<lparr>st_version = r_version r2, st_stage = r_stage r2, st_created = unix (now env)\<rparr>]\<rparr>
         else r2)"

definition commit_run :: "bot_env \<Rightarrow> string \<Rightarrow> run \<Rightarrow> bot_db \<Rightarrow> err + (run \<times> bot_db)" where
  "commit_run env before r db =
     (let r' = finish_run env before r in
      rbind (save_run r' db) (\<lambda>db'. Inr (r', queue_run env r' ''updated'' db')))"

definition change_with ::
  "bot_env \<Rightarrow> run \<Rightarrow> int \<Rightarrow> bool \<Rightarrow> bool \<Rightarrow> run_step_fn \<Rightarrow> bot_db \<Rightarrow> err + (run \<times> bot_db)" where
  "change_with env prior gen execution facts fn db =
     rbind (lock_run_conversation db (r_conv prior)) (\<lambda>_.
     rbind (lock_delegation_tree db prior) (\<lambda>_.
     rbind (get_run db (r_id prior)) (\<lambda>r.
     rbind (check_execution_lease env db r gen) (\<lambda>_.
     if terminal_run r \<and> \<not> facts then Inl (suspended ''run is terminal'')
     else if execution \<and> (r_status r = ''stopping'' \<or> r_status r = ''waiting_authorization'')
     then Inl (suspended ''Run execution is suspended'')
     else
       rbind (if execution then lock_run_authority env db r True else Inr ()) (\<lambda>_.
       rbind (fn r db) (\<lambda>(r1, db1).
       if terminal_run r \<and> (r_status r1 \<noteq> r_status r \<or> r_stage r1 \<noteq> r_stage r)
       then Inl (suspended ''action facts cannot change terminal Run lifecycle'')
       else commit_run env (r_stage r) r1 db1))))))"

definition change_run :: "bot_env \<Rightarrow> run \<Rightarrow> int \<Rightarrow> run_step_fn \<Rightarrow> bot_db \<Rightarrow> err + (run \<times> bot_db)" where
  "change_run env prior gen fn db = change_with env prior gen True False fn db"

definition change_lifecycle :: "bot_env \<Rightarrow> run \<Rightarrow> int \<Rightarrow> run_step_fn \<Rightarrow> bot_db \<Rightarrow> err + (run \<times> bot_db)" where
  "change_lifecycle env prior gen fn db = change_with env prior gen False False fn db"

definition change_action_facts :: "bot_env \<Rightarrow> run \<Rightarrow> run_step_fn \<Rightarrow> bot_db \<Rightarrow> err + (run \<times> bot_db)" where
  "change_action_facts env prior fn db = change_with env prior 0 False True fn db"

text \<open>\<open>AppendRunBlock\<close>: the system prompt depends on no source.\<close>

fun block_role :: "block_body \<Rightarrow> string" where
  "block_role (Text_Body role content) = role"
| "block_role (Record_Body content) = []"
| "block_role _ = ''user''"

definition append_run_block ::
  "bot_env \<Rightarrow> run \<Rightarrow> string \<Rightarrow> block_body \<Rightarrow> bot_db \<Rightarrow> run \<times> bot_db" where
  "append_run_block env r kind body db =
     (let (i, db1) = bot_id env db; r' = r\<lparr>r_trajectory := r_trajectory r + 1\<rparr>
      in (r', db1\<lparr>b_blocks := b_blocks db1 @ [\<lparr>tb_id = i, tb_run = r_id r, tb_version = r_trajectory r',
            tb_kind = kind, tb_block = body,
            tb_provenance = (if kind = ''message'' \<and> block_role body = ''system'' then [] else r_provenance r)\<rparr>]\<rparr>))"

definition reconcile_authorizations ::
  "bot_env \<Rightarrow> run \<Rightarrow> int \<Rightarrow> run_step_fn \<Rightarrow> bot_db \<Rightarrow> err + (run \<times> bot_db)" where
  "reconcile_authorizations env prior version apply_fn db =
     rbind (lock_run_conversation db (r_conv prior)) (\<lambda>_.
     rbind (lock_delegation_tree db prior) (\<lambda>_.
     rbind (get_run db (r_id prior)) (\<lambda>r.
     if r_version r \<noteq> version then Inl (superseded_by ''Run changed during source reconciliation'')
     else rbind (apply_fn r db) (\<lambda>(r1, db1).
       let r' = r1\<lparr>r_version := r_version r1 + 1, r_updated := now env\<rparr>
       in rbind (save_run r' db1) (\<lambda>db2. Inr (r', queue_run env r' ''updated'' db2))))))"

section \<open>Commands\<close>

record report_authority =
  au_user :: string
  au_control :: bool
  au_stop_confirmation :: bool
  au_stop_tree :: bool
  au_generation :: int
  au_input_version :: int
  au_unclaimed :: bool

definition run_changed :: err where
  "run_changed = Plain ''Run changed during authorization''"

definition find_receipt :: "bot_db \<Rightarrow> string \<Rightarrow> string \<Rightarrow> run_receipt option" where
  "find_receipt db rid key = find (\<lambda>x. rc_run x = rid \<and> rc_key x = key) (b_receipts db)"

definition put_receipt :: "bot_env \<Rightarrow> string \<Rightarrow> string \<Rightarrow> string \<Rightarrow> bot_db \<Rightarrow> err + bot_db" where
  "put_receipt env rid key digest db =
     (let (i, db1) = bot_id env db in
      if \<exists>x\<in>set (b_receipts db1). rc_id x = i \<or> (rc_run x = rid \<and> rc_key x = key)
      then Inl (Violation ''run_receipts_run_id_update_key_key'')
      else Inr (db1\<lparr>b_receipts := b_receipts db1 @ [\<lparr>rc_id = i, rc_run = rid, rc_key = key, rc_hash = digest\<rparr>]\<rparr>))"

text \<open>The authority of a command, checked on the locked row.\<close>

definition report_allowed :: "bot_env \<Rightarrow> report_authority \<Rightarrow> run \<Rightarrow> bot_db \<Rightarrow> err + unit" where
  "report_allowed env au r db =
     rbind (if au_stop_confirmation au then Inr () else lock_run_authority env db r (au_user au = [])) (\<lambda>_.
     rbind (if au_user au = [] then Inr ()
            else if r_visibility r = ''personal'' \<and> r_personal_user r \<noteq> Some (au_user au)
            then Inl (denied ''personal Run inaccessible'')
            else if au_control au then run_controller db r (au_user au)
            else rbind (run_member db (r_conv r) (au_user au)) (\<lambda>_. Inr ())) (\<lambda>_.
     ensure (\<not> (au_generation au > 0 \<and>
               (r_generation r \<noteq> au_generation au \<or> r_input_version r \<noteq> au_input_version au)))
       (superseded_by ''stale executor generation or input version'')))"

definition lease_needed :: "report_authority \<Rightarrow> bool \<Rightarrow> run \<Rightarrow> bool" where
  "lease_needed au known r \<longleftrightarrow>
     au_generation au > 0 \<and> \<not> au_stop_confirmation au \<and> \<not> (known \<and> terminal_run r) \<and>
     \<not> (au_unclaimed au \<and> r_executor_status r = ''pending'' \<and> r_lease r = None)"

definition report_once ::
  "bot_env \<Rightarrow> run \<Rightarrow> string \<Rightarrow> string \<Rightarrow> report_authority \<Rightarrow> run_step_fn \<Rightarrow> bot_db \<Rightarrow> err + (public_run \<times> bot_db)" where
  "report_once env checked key digest au apply_fn db =
     rbind (lock_run_conversation db (r_conv checked)) (\<lambda>_.
     rbind (lock_delegation_tree db checked) (\<lambda>_.
     case find_run db (r_id checked) of
       None \<Rightarrow> Inl (Status NotFound ''Run not found'')
     | Some r \<Rightarrow>
       (case find (\<lambda>i. ia_id i = r_interaction r) (b_interactions db) of
          None \<Rightarrow> Inl RecordNotFound
        | Some ia \<Rightarrow>
          if r_version r \<noteq> r_version checked then Inl run_changed
          else rbind (report_allowed env au r db) (\<lambda>_.
            let prior = find_receipt db (r_id checked) key in
            rbind (if lease_needed au (prior \<noteq> None) r then check_execution_lease env db r (au_generation au) else Inr ()) (\<lambda>_.
            case prior of
              Some p \<Rightarrow>
                if rc_hash p \<noteq> digest then Inl (Status AlreadyExists ''update key has different content'')
                else Inr (public_of r, db)
            | None \<Rightarrow>
                if ia_status ia \<noteq> ''active'' then Inl (suspended ''interaction is closed'')
                else if terminal_run r \<and> \<not> au_stop_tree au
                then Inl (suspended ''Run no longer accepts updates'')
                else rbind (apply_fn r db) (\<lambda>(r1, db1).
                  if r_stage r = ''pending_action'' \<and> r_stage r1 \<noteq> ''pending_action'' \<and>
                     r_status r1 \<noteq> ''stopping'' \<and> r_status r1 \<noteq> ''stopped''
                  then Inl (suspended ''concrete action authorization required'')
                  else rbind (commit_run env (r_stage r) r1 db1) (\<lambda>(r2, db2).
                       rbind (put_receipt env (r_id checked) key digest db2) (\<lambda>db3.
                       Inr (public_of r2, db3))))))))) "

text \<open>
  The loop of \<open>Report\<close>: each round reads the run (in a state that may be older than the one its
  transaction meets), authorizes it and tries; only a changed version starts another round. The rounds
  given are the states met; when they are used up the caller's context has been cancelled.
\<close>

fun report ::
  "bot_env \<Rightarrow> string \<Rightarrow> string \<Rightarrow> string \<Rightarrow> report_authority \<Rightarrow> (bot_db \<Rightarrow> run \<Rightarrow> err + run) \<Rightarrow> run_step_fn \<Rightarrow>
   (bot_db \<times> bot_db) list \<Rightarrow> err + (public_run \<times> bot_db)" where
  "report env i key digest au authorize apply_fn [] = Inl (Status Canceled ''context canceled'')"
| "report env i key digest au authorize apply_fn ((seen, db) # rounds) =
     (case find_run seen i of
        None \<Rightarrow> Inl (Status NotFound ''Run not found'')
      | Some r \<Rightarrow>
          (case authorize seen r of
             Inl e \<Rightarrow> Inl e
           | Inr checked \<Rightarrow>
               (case report_once env checked key digest au apply_fn db of
                  Inl e \<Rightarrow> if e = run_changed then report env i key digest au authorize apply_fn rounds else Inl e
                | Inr res \<Rightarrow> Inr res)))"

section \<open>Closing an interaction\<close>

definition close_one :: "bot_env \<Rightarrow> run \<Rightarrow> bot_db \<Rightarrow> err + bot_db" where
  "close_one env r db =
     (let r' = r\<lparr>r_interaction_status := ''closed'', r_updated := now env, r_version := r_version r + 1\<rparr>
      in rbind (save_run r' db) (\<lambda>db1. Inr (queue_run env r' ''updated'' db1)))"

definition interaction_runs :: "bot_db \<Rightarrow> string \<Rightarrow> run list" where
  "interaction_runs db ia =
     sort_by (\<lambda>x y. str_le (r_id x) (r_id y)) (filter (\<lambda>r. r_interaction r = ia) (b_runs db))"

definition close_interaction ::
  "bot_env \<Rightarrow> run \<Rightarrow> string \<Rightarrow> string \<Rightarrow> string \<Rightarrow> bot_db \<Rightarrow> err + (public_run \<times> bot_db)" where
  "close_interaction env checked key digest user db =
     rbind (lock_run_conversation db (r_conv checked)) (\<lambda>_.
     case find_run db (r_id checked) of
       None \<Rightarrow> Inl (Status NotFound ''Run not found'')
     | Some target \<Rightarrow>
       rbind (lock_delegation_tree db target) (\<lambda>_.
       case find (\<lambda>i. ia_id i = r_interaction target) (b_interactions db) of
         None \<Rightarrow> Inl RecordNotFound
       | Some ia \<Rightarrow>
         if r_version target \<noteq> r_version checked then Inl (superseded_by ''Run changed during authorization'')
         else
           rbind (run_controller db target user) (\<lambda>_.
           rbind (lock_run_authority env db target False) (\<lambda>_.
           case find_receipt db (r_id checked) key of
             Some p \<Rightarrow>
               if rc_hash p \<noteq> digest then Inl (Status AlreadyExists ''update key has different content'')
               else Inr (public_of target, db)
           | None \<Rightarrow>
               if \<exists>r\<in>set (interaction_runs db (ia_id ia)). \<not> terminal_run r
               then Inl (suspended ''finish every active Run before closing the interaction'')
               else
                 rbind (if ia_status ia \<noteq> ''closed''
                        then rfold (close_one env) (interaction_runs db (ia_id ia))
                               (db\<lparr>b_interactions := update_where (\<lambda>i. ia_id i = ia_id ia)
                                   (\<lambda>i. i\<lparr>ia_status := ''closed'', ia_closed := Some (now env)\<rparr>) (b_interactions db)\<rparr>)
                        else Inr db) (\<lambda>db1.
                 rbind (get_run db1 (r_id checked)) (\<lambda>final.
                 rbind (put_receipt env (r_id checked) key digest db1) (\<lambda>db2.
                 Inr (public_of final, db2))))))))"

end
