(* ===== verification/Run_Accept.thy ===== *)
theory Run_Accept
  imports Run_Repo
begin

text \<open>
  \<open>RunRepo.Accept\<close> and \<open>acceptDelegation\<close>: a submission becomes a run, its first input, its
  interaction and its queue items in one transaction, or is answered by the run an earlier submission
  with its key made. The candidate run arrives complete from the service (\<open>Service.Accept\<close> collects its
  materials over RPC); a delegated candidate gets its root and depth here.
\<close>

section \<open>Delegation\<close>

definition diverges :: err where
  "diverges = Plain ''the walk does not end''"

text \<open>
  The loop over the delegating ancestors has no guard of its own. It is bounded here by the number of
  runs; the authority of the parent, checked before it, rules out a cyclic ancestry.
\<close>

fun repeats_ancestor :: "nat \<Rightarrow> bot_db \<Rightarrow> string \<Rightarrow> run \<Rightarrow> err + unit" where
  "repeats_ancestor 0 db b0 cur = Inl diverges"
| "repeats_ancestor (Suc n) db b0 cur =
     (if r_bot cur = b0
      then Inl (Status ResourceExhausted ''delegation cycle would repeat an ancestor Bot'')
      else case r_deleg_parent cur of
        None \<Rightarrow> Inr ()
      | Some p \<Rightarrow> rbind (get_run db p) (repeats_ancestor n db b0))"

definition delegation_depth_max :: int where "delegation_depth_max = 3"
definition delegation_count_max :: int where "delegation_count_max = 8"

text \<open>The resource of a delegated material: the file, else the knowledge base.\<close>

definition delegated_resource :: "material \<Rightarrow> (string \<times> string) option" where
  "delegated_resource m =
     (if mt_file m \<noteq> [] then Some (''file'', mt_file m)
      else if mt_knowledge m \<noteq> [] then Some (''knowledge'', mt_knowledge m) else None)"

definition check_delegated_material :: "bot_env \<Rightarrow> bot_db \<Rightarrow> run \<Rightarrow> material \<Rightarrow> err + unit" where
  "check_delegated_material env db parent m =
     (case delegated_resource m of None \<Rightarrow> Inr () | Some res \<Rightarrow> check_resource env db (run_access parent) res)"

text \<open>The delegating run still is what the request says, and still runs.\<close>

definition delegator_ready :: "bot_env \<Rightarrow> bot_db \<Rightarrow> run \<Rightarrow> run \<Rightarrow> run_origin \<Rightarrow> err + unit" where
  "delegator_ready env db parent child origin =
     (if r_conv parent \<noteq> r_conv child \<or> r_visibility parent \<noteq> ''conversation'' \<or> r_bot parent \<noteq> ro_bot origin \<or>
         r_generation parent \<noteq> r_source_generation child \<or> r_input_version parent \<noteq> r_source_input_version child
      then Inl (denied ''delegation source identity changed'')
      else if terminal_run parent \<or> r_status parent = ''stopping'' \<or> r_status parent = ''waiting_authorization'' \<or>
        r_stop_status parent \<noteq> ''none'' \<or> r_controller parent \<noteq> r_controller child \<or>
        r_controller_member parent \<noteq> Some (ro_member origin)
      then Inl (suspended ''delegation source suspended'')
      else if r_executor parent = ''third_party'' \<and> r_executor_status parent \<noteq> ''accepted'' \<and>
        r_executor_status parent \<noteq> ''stop_rejected''
      then Inl (denied ''current executor claim required'')
      else rbind (check_execution_lease env db parent (r_source_generation child)) (\<lambda>_.
           lock_run_authority env db parent True))"

definition within_budget :: "bot_db \<Rightarrow> string \<Rightarrow> run \<Rightarrow> bool" where
  "within_budget db rt child \<longleftrightarrow>
     r_deleg_depth child \<le> delegation_depth_max \<and> tree_count db rt < delegation_count_max \<and>
     wrap64 (tree_bytes db rt + r_deleg_input child) \<le> delegation_bytes_max \<and>
     wrap64 (tree_tokens db rt + r_deleg_output child) \<le> delegation_tokens_max"

definition accept_delegation :: "bot_env \<Rightarrow> run \<Rightarrow> string \<Rightarrow> bot_db \<Rightarrow> err + (run \<times> bot_db)" where
  "accept_delegation env child pid db =
     (case find_run db pid of
        None \<Rightarrow> Inl (denied ''delegation source unavailable'')
      | Some parent \<Rightarrow>
        (case r_origin child of
           None \<Rightarrow> Inl nil_deref
         | Some origin \<Rightarrow>
           rbind (delegator_ready env db parent child origin) (\<lambda>_.
           let rt = (case r_deleg_root parent of None \<Rightarrow> r_id parent | Some i \<Rightarrow> i) in
           rbind (get_run db rt) (\<lambda>top.
           if r_status top = ''stopping'' \<or> r_stop_status top \<noteq> ''none'' \<or> r_stop_reason top = ''user_requested''
           then Inl (suspended ''collaboration stopping'')
           else
             let child' = child\<lparr>r_deleg_root := Some rt, r_deleg_depth := r_deleg_depth parent + 1\<rparr> in
             rbind (repeats_ancestor (Suc (length (b_runs db))) db (r_bot child) parent) (\<lambda>_.
             if \<not> within_budget db rt child'
             then Inl (Status ResourceExhausted ''delegation budget exhausted'')
             else
               rbind (check_delegation_grants env db parent child') (\<lambda>_.
               rbind (check_all (check_delegated_material env db parent) (r_materials child')) (\<lambda>_.
               let parent' = parent\<lparr>r_children := r_children parent @ [r_id child], r_version := r_version parent + 1,
                                   r_updated := now env\<rparr>
               in rbind (save_run parent' db) (\<lambda>db1.
                  Inr (child', queue_run env parent' ''updated'' db1))))))))) "

section \<open>Acceptance\<close>

definition is_delegated :: "run \<Rightarrow> bool" where
  "is_delegated r \<longleftrightarrow> (case r_origin r of None \<Rightarrow> False | Some o1 \<Rightarrow> ro_kind o1 = ''delegation'')"

text \<open>The run that an earlier submission with the same identity made.\<close>

definition prior_submission :: "bot_db \<Rightarrow> run \<Rightarrow> run option" where
  "prior_submission db r =
     (case r_origin r of
        Some o1 \<Rightarrow>
          if ro_kind o1 = ''delegation''
          then find (tx_delegation_input (ro_source o1) (r_bot r) (r_input_key r)) (b_runs db)
          else find (tx_input (r_bot r) (r_binding r) (r_requester r) (r_input_key r)) (b_runs db)
      | None \<Rightarrow> find (tx_input (r_bot r) (r_binding r) (r_requester r) (r_input_key r)) (b_runs db))"

definition replay_submission :: "bot_env \<Rightarrow> run \<Rightarrow> run \<Rightarrow> bot_db \<Rightarrow> err + run" where
  "replay_submission env r prior db =
     (if r_input_hash prior \<noteq> r_input_hash r
      then Inl (Status AlreadyExists ''submission key has different content'')
      else if is_delegated r \<and> r_binding prior \<noteq> r_binding r
      then Inl (denied ''delegation target binding is stale'')
      else
        rbind (if r_origin prior = None
               then rbind (run_member db (r_conv prior) (r_requester prior)) (\<lambda>(mid, role).
                    ensure (r_requester_member prior = Some mid) (denied ''submission belongs to earlier membership''))
               else Inr ()) (\<lambda>_.
        rbind (lock_delegation_tree db prior) (\<lambda>_.
        rbind (lock_run_authority env db prior False) (\<lambda>_. Inr prior))))"

definition rule_allows :: "json_map \<Rightarrow> run \<Rightarrow> run_origin \<Rightarrow> rule \<Rightarrow> bool" where
  "rule_allows cfg r o1 rl \<longleftrightarrow>
     rl_id rl = ro_rule o1 \<and> rl_enabled rl \<and> rl_version rl = ro_rule_version o1 \<and> rl_user rl = ro_user o1 \<and>
     rl_member rl = ro_member o1 \<and>
     (case r_activity r of None \<Rightarrow> False | Some a \<Rightarrow> subscribed cfg (ae_type a) (ae_seq a))"

definition check_rule_origin :: "bot_env \<Rightarrow> bot_db \<Rightarrow> run \<Rightarrow> err + unit" where
  "check_rule_origin env db r =
     (case r_origin r of
        None \<Rightarrow> Inr ()
      | Some o1 \<Rightarrow>
          if ro_kind o1 \<noteq> ''rule'' then Inr ()
          else rbind (take_row (\<lambda>b. bd_id b = r_binding r) (b_bindings db)) (\<lambda>b.
               rbind (rules_of (valid_id env) (bd_settings b)) (\<lambda>rs.
               ensure (\<exists>rl\<in>set rs. rule_allows (bd_settings b) r o1 rl)
                 (denied ''rule authorization changed during acceptance''))))"

definition check_continuation :: "bot_env \<Rightarrow> bot_db \<Rightarrow> run \<Rightarrow> err + unit" where
  "check_continuation env db r =
     (case r_parent r of
        None \<Rightarrow> Inr ()
      | Some p \<Rightarrow>
          (case find (\<lambda>i. ia_id i = r_interaction r \<and> ia_bot i = r_bot r \<and> ia_conv i = r_conv r \<and> ia_binding i = r_binding r)
                  (b_interactions db) of
             None \<Rightarrow> Inl (denied ''parent interaction is unavailable'')
           | Some ia \<Rightarrow>
               if ia_status ia \<noteq> ''active'' then Inl (suspended ''interaction is closed; start a new request'')
               else (case find (\<lambda>x. r_id x = p \<and> r_interaction x = r_interaction r \<and> r_bot x = r_bot r \<and>
                             r_conv x = r_conv r \<and> r_binding x = r_binding r) (b_runs db) of
                 None \<Rightarrow> Inl (denied ''parent Run is unavailable'')
               | Some parent \<Rightarrow>
                   if \<not> same_principal parent r then Inl (denied ''private interaction cannot transfer'')
                   else if \<not> terminal_run parent then Inl (suspended ''continuation requires a terminal parent Run'')
                   else lock_run_authority env db parent False)))"

text \<open>The foreign keys, the keys and the checks of the insert.\<close>

definition references_ok :: "bot_db \<Rightarrow> run \<Rightarrow> bool" where
  "references_ok db r \<longleftrightarrow>
     (\<forall>p\<in>set_option (r_parent r) \<union> set_option (r_deleg_parent r) \<union> set_option (r_deleg_root r). find_run db p \<noteq> None) \<and>
     (\<exists>i\<in>set (b_interactions db). ia_id i = r_interaction r)"

definition insert_run :: "run \<Rightarrow> bot_db \<Rightarrow> err + bot_db" where
  "insert_run r db =
     (if \<not> run_row_ok r \<or> find_run db (r_id r) \<noteq> None \<or>
         find (tx_input (r_bot r) (r_binding r) (r_requester r) (r_input_key r)) (b_runs db) \<noteq> None \<or>
         \<not> references_ok db r
      then Inl (Violation ''runs_insert'')
      else Inr (db\<lparr>b_runs := b_runs db @ [r]\<rparr>))"

definition insert_interaction :: "bot_env \<Rightarrow> run \<Rightarrow> bot_db \<Rightarrow> err + bot_db" where
  "insert_interaction env r db =
     (if \<exists>i\<in>set (b_interactions db). ia_id i = r_interaction r then Inl (Violation ''interactions_pkey'')
      else Inr (db\<lparr>b_interactions := b_interactions db @
             [\<lparr>ia_id = r_interaction r, ia_bot = r_bot r, ia_conv = r_conv r, ia_binding = r_binding r,
               ia_requester = r_requester r, ia_visibility = r_visibility r, ia_personal_user = r_personal_user r,
               ia_status = ''active'', ia_closed = None\<rparr>]\<rparr>))"

definition accepted_edit_count :: "string option \<Rightarrow> material list \<Rightarrow> int" where
  "accepted_edit_count src ms =
     foldl (\<lambda>n m. if Some (mt_message m) = src then mt_edit_count m else n) 0 ms"

definition insert_input :: "run_input \<Rightarrow> bot_db \<Rightarrow> err + bot_db" where
  "insert_input i db =
     (if \<exists>x\<in>set (b_inputs db). in_id x = in_id i \<or> (in_run x = in_run i \<and> in_version x = in_version i)
      then Inl (Violation ''run_inputs_run_id_version_key'')
      else Inr (db\<lparr>b_inputs := b_inputs db @ [i]\<rparr>))"

text \<open>The rows of a new run.\<close>

definition store_run :: "bot_env \<Rightarrow> run \<Rightarrow> string \<Rightarrow> bot_db \<Rightarrow> err + bot_db" where
  "store_run env r input db =
     rbind (if r_parent r = None then insert_interaction env r db else Inr db) (\<lambda>db1.
     rbind (insert_run r db1) (\<lambda>db2.
     let (i, db3) = bot_id env db2 in
     rbind (insert_input \<lparr>in_id = i, in_run = r_id r, in_version = 1, in_requester = r_requester r,
         in_source_message = r_source_message r,
         in_edit_count = accepted_edit_count (r_source_message r) (r_materials r), in_provenance = r_provenance r,
         in_invalidated = False, in_key = r_input_key r, in_content = input, in_hash = r_input_hash r,
         in_materials = r_materials r, in_sources = r_sources r, in_created = now env\<rparr> db3) (\<lambda>db4.
     Inr (queue_run env r ''updated''
       (queue_run env r (if r_executor r = ''third_party'' then ''deliver'' else ''execute'') db4)))))"

definition accept_run :: "bot_env \<Rightarrow> run \<Rightarrow> string \<Rightarrow> material list \<Rightarrow> bot_db \<Rightarrow> err + (run \<times> bot_db)" where
  "accept_run env r input fresh_materials db =
     rbind (lock_run_conversation db (r_conv r)) (\<lambda>_.
     case prior_submission db r of
       Some prior \<Rightarrow> rbind (replay_submission env r prior db) (\<lambda>p. Inr (p, db))
     | None \<Rightarrow>
         rbind (lock_delegation_tree db r) (\<lambda>_.
         rbind (lock_run_authority env db r True) (\<lambda>_.
         rbind (check_rule_origin env db r) (\<lambda>_.
         rbind (case r_deleg_parent r of None \<Rightarrow> Inr (r, db) | Some p \<Rightarrow> accept_delegation env r p db) (\<lambda>(r1, db1).
         rbind (check_accepted_messages db1 r1 fresh_materials) (\<lambda>_.
         rbind (check_continuation env db1 r1) (\<lambda>_.
         rbind (of_option RecordNotFound (live_binding db1 (r_binding r1) (r_bot r1) (r_conv r1))) (\<lambda>_.
         rbind (of_option RecordNotFound (active_bot db1 (r_bot r1))) (\<lambda>_.
         rbind (store_run env r1 input db1) (\<lambda>db2.
         Inr (r1, db2)))))))))))"

end
