(* ===== verification/Run_Executor.thy ===== *)
theory Run_Executor
  imports Run_Accept
begin

text \<open>
  \<^verbatim>\<open>run/executor.go\<close>: what a third-party executor may report. \<open>decode_update\<close> validates a report
  before anything is read, \<open>executor_authorize\<close> checks it against the run the round read and
  \<open>executor_apply\<close> is the transition of the run. \<open>request_run_stop\<close> (\<^verbatim>\<open>run/authority.go\<close>) and
  \<open>request_delegated_stops\<close> (\<^verbatim>\<open>run/delegation.go\<close>) are shared with the user commands.
\<close>

section \<open>Decoding a report\<close>

record executor_update =
  eu_type :: string
  eu_run :: string
  eu_generation :: int
  eu_input_version :: int
  eu_sequence :: int
  eu_key :: string
  eu_operation :: string
  eu_status :: string
  eu_stage :: string
  eu_result :: string
  eu_waiting :: string
  eu_msg_type :: string
  eu_content :: string

definition invalid_argument :: "string \<Rightarrow> err" where
  "invalid_argument m = Status InvalidArgument m"

definition normalize_text :: "bot_env \<Rightarrow> executor_update \<Rightarrow> err + executor_update" where
  "normalize_text env u =
     rbind (if eu_content u = [] then Inr \<lparr>tm_text = [], tm_mentions = [], tm_all = False\<rparr>
            else of_option (invalid_argument ''invalid text result'') (decode_text env (eu_content u))) (\<lambda>c0.
     let c = (if tm_text c0 = [] then c0\<lparr>tm_text := eu_result u\<rparr> else c0) in
     if blank (tm_text c) \<or> length (tm_text c) > 262144 then Inl (invalid_argument ''empty or oversized result'')
     else if eu_result u \<noteq> [] \<and> eu_result u \<noteq> tm_text c then Inl (invalid_argument ''result text differs from content'')
     else Inr (u\<lparr>eu_result := tm_text c, eu_content := encode_text env c\<rparr>))"

definition normalize_result :: "bot_env \<Rightarrow> executor_update \<Rightarrow> err + executor_update" where
  "normalize_result env u0 =
     (let u = (if eu_msg_type u0 = [] then u0\<lparr>eu_msg_type := ''text''\<rparr> else u0) in
      if eu_msg_type u = ''text'' then normalize_text env u
      else if eu_msg_type u = ''file'' then
        rbind (of_option (invalid_argument ''invalid file result'') (decode_file env (eu_content u))) (\<lambda>f.
        if \<not> valid_id env (fm_id f) then Inl (invalid_argument ''invalid file identity'')
        else Inr (u\<lparr>eu_content := encode_file env f\<rparr>))
      else if eu_msg_type u = ''result'' then
        rbind (of_option (invalid_argument ''invalid typed result'') (decode_custom env (eu_content u))) (\<lambda>c.
        if blank (xm_type c) \<or> json_decode env (xm_data c) = None
        then Inl (invalid_argument ''typed result requires a type and valid JSON data'')
        else Inr (u\<lparr>eu_content := encode_custom env c\<rparr>))
      else Inl (invalid_argument ''unsupported result type''))"

text \<open>A report that carries no business content.\<close>

definition no_business :: "executor_update \<Rightarrow> bool" where
  "no_business u \<longleftrightarrow> eu_sequence u = 0 \<and> eu_stage u = [] \<and> eu_result u = [] \<and> eu_msg_type u = [] \<and> eu_content u = []"

definition update_statuses :: "string list" where
  "update_statuses = [''running'', ''waiting_input'', ''stopped'', ''stop_rejected'', ''failed'', ''completed'']"

definition decode_run_update :: "bot_env \<Rightarrow> executor_update \<Rightarrow> err + executor_update" where
  "decode_run_update env u =
     (if eu_sequence u < 1 then Inl (invalid_argument ''updates require positive sequence'')
      else if eu_status u \<notin> set update_statuses then Inl (invalid_argument ''invalid executor status'')
      else if eu_status u \<noteq> ''completed'' \<and> (eu_result u \<noteq> [] \<or> eu_msg_type u \<noteq> [] \<or> eu_content u \<noteq> [])
      then Inl (invalid_argument ''result requires completion'')
      else if (eu_status u = ''stopped'' \<or> eu_status u = ''stop_rejected'') \<and> eu_stage u \<noteq> [] \<and> eu_stage u \<noteq> eu_status u
      then Inl (invalid_argument ''stop confirmation cannot contain material stage text'')
      else if eu_status u = ''completed'' then normalize_result env u
      else Inr u)"

text \<open>
  \<open>decodeUpdate\<close>. The strict JSON decoder is an argument: it yields the update and whether other
  content follows it.
\<close>

definition decode_update ::
  "bot_env \<Rightarrow> (string \<Rightarrow> (executor_update \<times> bool) option) \<Rightarrow> string \<Rightarrow> err + executor_update" where
  "decode_update env parse body =
     (if length body > 524288 then Inl (invalid_argument ''executor update too large'')
      else case parse body of
        None \<Rightarrow> Inl (invalid_argument ''invalid executor update'')
      | Some (u, trailing) \<Rightarrow>
          if trailing then Inl (invalid_argument ''trailing update content'')
          else if \<not> valid_id env (eu_run u) \<or> eu_generation u < 1 \<or> eu_input_version u < 1 \<or> eu_sequence u < 0 \<or>
            eu_key u = [] \<or> length (eu_key u) > 256 \<or> length (eu_stage u) > 128 \<or> length (eu_result u) > 262144
          then Inl (invalid_argument ''invalid executor update fields'')
          else if length (eu_waiting u) > 2048 \<or> (eu_waiting u \<noteq> [] \<and> eu_status u \<noteq> ''waiting_input'')
          then Inl (invalid_argument ''waiting reason requires waiting_input'')
          else if eu_type u \<noteq> ''run.delivery_ack'' \<and> eu_operation u \<noteq> []
          then Inl (invalid_argument ''operation belongs only to delivery acknowledgment'')
          else if eu_type u = ''run.delivery_ack'' then
            (if no_business u \<and> eu_status u = [] then Inr u
             else Inl (invalid_argument ''delivery ACK contains business update''))
          else if eu_type u = ''run.heartbeat'' then
            (if no_business u \<and> eu_status u = [] \<and> eu_waiting u = [] then Inr u
             else Inl (invalid_argument ''heartbeat contains business update''))
          else if eu_type u = ''run.claim'' then
            (if no_business u \<and> eu_status u = ''accepted'' then Inr u else Inl (invalid_argument ''invalid claim''))
          else if eu_type u = ''run.update'' then decode_run_update env u
          else Inl (invalid_argument ''unknown executor update type''))"

definition stop_confirmation :: "executor_update \<Rightarrow> bool" where
  "stop_confirmation u \<longleftrightarrow>
     eu_type u = ''run.update'' \<and> (eu_status u = ''stopped'' \<or> eu_status u = ''stop_rejected'')"

definition is_stop_confirmation ::
  "bot_env \<Rightarrow> (string \<Rightarrow> (executor_update \<times> bool) option) \<Rightarrow> string \<Rightarrow> bool" where
  "is_stop_confirmation env parse body =
     (case decode_update env parse body of Inl _ \<Rightarrow> False | Inr u \<Rightarrow> stop_confirmation u)"

section \<open>Stopping\<close>

definition request_run_stop :: "bot_env \<Rightarrow> string \<Rightarrow> run_step_fn" where
  "request_run_stop env reason r db =
     (if r_executor_status r = ''completed'' then
        let r1 = r\<lparr>r_stream_status := ''closed'', r_stop_reason := ''completed_before_stop''\<rparr>
        in case find (\<lambda>s. os_bot s = r_bot r \<and> os_binding s = r_binding r \<and> os_key s = r_id r @ '':final'') (b_submissions db) of
             Some s \<Rightarrow> Inr (r1\<lparr>r_status := ''succeeded'', r_stage := ''committed'', r_output_status := ''committed'',
                               r_message := Some (os_message s)\<rparr>, db)
           | None \<Rightarrow>
               if r_revoked r
               then Inr (r1\<lparr>r_status := ''failed'', r_stage := ''output_revoked'', r_error := reason,
                            r_output_status := ''failed''\<rparr>, db)
               else Inr (r1, db)
      else if r_stop_status r = ''requested'' \<or> r_stop_status r = ''unknown'' then
        Inr (if reason \<noteq> ''user_requested''
             then r\<lparr>r_stop_reason := reason, r_status := ''stopping'', r_stage := ''stop_requested'', r_waiting := []\<rparr>
             else r, db)
      else if r_executor_status r = ''stopped'' \<and> r_stop_status r = ''confirmed'' then
        Inr (r\<lparr>r_status := ''stopped'', r_stage := ''stopped''\<rparr>, db)
      else
        let r1 = r\<lparr>r_status := ''stopping'', r_stage := ''stop_requested'', r_waiting := [],
                   r_stop_status := ''requested'', r_stream_status := ''closed'', r_stop_reason := reason,
                   r_operation := ''stop'', r_stop_at := Some (now env)\<rparr>
        in if r_executor r = ''third_party''
           then let r2 = r1\<lparr>r_delivery_status := ''pending''\<rparr> in Inr (r2, queue_next env r2 ''deliver'' db)
           else Inr (r1, queue_next env r1 ''execute'' db))"

text \<open>A child of a stopped run, after its own children.\<close>

definition stop_child :: "bot_env \<Rightarrow> run \<Rightarrow> bot_db \<Rightarrow> err + bot_db" where
  "stop_child env child db =
     (if terminal_run child then Inr db
      else rbind (if \<not> ec_stop (r_caps child)
                  then Inr (child\<lparr>r_stop_status := ''rejected'', r_stop_reason := ''parent_requested''\<rparr>, db)
                  else request_run_stop env ''parent_requested'' child db) (\<lambda>(c, db1).
           let c' = c\<lparr>r_version := r_version c + 1, r_updated := now env\<rparr>
           in rbind (save_run c' db1) (\<lambda>db2. Inr (queue_run env c' ''updated'' db2))))"

definition children_of :: "bot_db \<Rightarrow> string \<Rightarrow> run list" where
  "children_of db pid =
     sort_by (\<lambda>x y. str_le (r_id x) (r_id y)) (filter (\<lambda>r. r_deleg_parent r = Some pid) (b_runs db))"

text \<open>
  The recursion over the delegated descendants, bounded by its depth. A run refers to its delegator by
  a foreign key that is never changed, so the depth is below the number of runs.
\<close>

fun request_delegated_stops :: "bot_env \<Rightarrow> nat \<Rightarrow> string \<Rightarrow> bot_db \<Rightarrow> err + bot_db" where
  "request_delegated_stops env 0 pid db = Inl diverges"
| "request_delegated_stops env (Suc n) pid db =
     rfold (\<lambda>child db1.
        rbind (request_delegated_stops env n (r_id child) db1) (stop_child env child)) (children_of db pid) db"

definition stop_tree_depth :: "bot_db \<Rightarrow> nat" where
  "stop_tree_depth db = Suc (length (b_runs db))"

section \<open>Reports of an executor\<close>

text \<open>
  What the service asks of other services while it authorizes a command, each an answer for a run it
  read: the reconciliation of revoked sources, the authorization of its materials (for its own use, and
  for the readers it is shared with), a file permission.
\<close>

record service_checks =
  sc_refresh :: "run \<Rightarrow> err + run"
  sc_authorize :: "run \<Rightarrow> err + unit"
  sc_share :: "run \<Rightarrow> err + unit"
  sc_file :: "run \<Rightarrow> string \<Rightarrow> err + unit"
  sc_member :: "run \<Rightarrow> string \<Rightarrow> err + unit"
  sc_visible :: "run \<Rightarrow> string \<Rightarrow> err + unit"
  sc_state :: "run \<Rightarrow> err + string"

definition executor_authorize ::
  "bot_env \<Rightarrow> service_checks \<Rightarrow> string \<Rightarrow> executor_update \<Rightarrow> bot_db \<Rightarrow> run \<Rightarrow> err + run" where
  "executor_authorize env sc b0 u seen r0 =
     rbind (sc_refresh sc r0) (\<lambda>r.
     if r_bot r \<noteq> b0 \<or> r_executor r \<noteq> ''third_party'' then Inl (denied ''executor does not own this Run'')
     else if r_generation r \<noteq> eu_generation u \<or> r_input_version r \<noteq> eu_input_version u
     then Inl (superseded_by ''stale executor generation or input version'')
     else if stop_confirmation u then
       (if r_stop_status r = ''none'' then Inl (suspended ''stop was not requested'') else Inr r)
     else rbind (sc_authorize sc r) (\<lambda>_.
       if eu_type u = ''run.delivery_ack'' \<and> r_operation r \<noteq> eu_operation u
       then Inl (superseded_by ''delivery acknowledgment belongs to a superseded operation'')
       else if eu_status u = ''completed'' \<and> eu_msg_type u = ''file'' then
         rbind (of_option (Plain ''proto: syntax error'') (decode_file env (eu_content u))) (\<lambda>f.
         rbind (sc_file sc r (fm_id f)) (\<lambda>_. Inr r))
       else Inr r))"

text \<open>The guards of a business update, in the order of the source.\<close>

definition update_guard :: "executor_update \<Rightarrow> run \<Rightarrow> err + unit" where
  "update_guard u r =
     (if \<not> stop_confirmation u \<and> r_executor_status r \<noteq> ''accepted'' \<and> r_executor_status r \<noteq> ''stop_rejected''
      then Inl (suspended ''Run must be claimed'')
      else if eu_sequence u \<noteq> r_sequence r + 1 then Inl (superseded_by ''executor sequence is not continuous'')
      else if r_status r = ''stopping'' \<and> eu_status u \<notin> {''stopped'', ''stop_rejected'', ''failed'', ''completed''}
      then Inl (suspended ''stop request must be acknowledged'')
      else if r_output_status r \<noteq> ''none'' then Inl (suspended ''completion already accepted'')
      else if r_status r = ''waiting_authorization'' \<and> \<not> stop_confirmation u
      then Inl (suspended ''explicit takeover required'')
      else if r_status r = ''waiting_input'' \<and> (eu_status u = ''running'' \<or> eu_status u = ''completed'')
      then Inl (suspended ''waiting Run needs explicit input or resume'')
      else if eu_status u = ''waiting_input'' \<and> \<not> ec_input (r_caps r)
      then Inl (suspended ''executor does not support input'')
      else Inr ())"

definition confirm_stop :: "executor_update \<Rightarrow> run \<Rightarrow> err + run" where
  "confirm_stop u r =
     (if r_stop_status r \<noteq> ''requested'' \<and> r_stop_status r \<noteq> ''unknown'' \<and>
         \<not> (r_stop_status r = ''rejected'' \<and> eu_status u = ''stopped'')
      then Inl (suspended ''stop outcome already recorded'')
      else
        let r1 = r\<lparr>r_stream_status := ''closed''\<rparr> in
        if eu_status u = ''stop_rejected'' then
          let r2 = r1\<lparr>r_stop_status := ''rejected'', r_executor_status := ''stop_rejected'', r_stage := ''stop_rejected''\<rparr>
          in Inr (if \<not> r_revoked r \<and> r_status r \<noteq> ''waiting_authorization'' then r2\<lparr>r_status := ''running''\<rparr> else r2)
        else
          let r2 = r1\<lparr>r_stop_status := ''confirmed'', r_executor_status := ''stopped''\<rparr>
          in Inr (if r_status r \<noteq> ''waiting_authorization''
                  then r2\<lparr>r_status := ''stopped'', r_stage := ''stopped''\<rparr>
                  else r2\<lparr>r_stage := ''awaiting_takeover''\<rparr>))"

text \<open>The accepted file of a completion is the platform's own row, not what the executor says of it.\<close>

definition canonical_file :: "bot_env \<Rightarrow> executor_update \<Rightarrow> run \<Rightarrow> bot_db \<Rightarrow> err + executor_update" where
  "canonical_file env u r db =
     rbind (of_option (Plain ''proto: syntax error'') (decode_file env (eu_content u))) (\<lambda>f.
     rbind (check_grant env db (run_access r) ''file'' (fm_id f) (r_visibility r \<noteq> ''personal'')) (\<lambda>_.
     rbind (of_option (denied ''file is not publicly shareable'') (find (\<lambda>x. fl_id x = fm_id f) (b_files db))) (\<lambda>x.
     Inr (u\<lparr>eu_content := encode_file env \<lparr>fm_id = fl_id x, fm_url = [], fm_name = fl_name x, fm_size = fl_size x,
              fm_ext = fl_ext x, fm_mime = fl_mime x\<rparr>, eu_result := fl_name x\<rparr>))))"

definition complete_update :: "bot_env \<Rightarrow> executor_update \<Rightarrow> run_step_fn" where
  "complete_update env u r db =
     (if r_deleg_root r \<noteq> None \<and> length (eu_result u) + length (eu_content u) > 32768
      then Inl (Status ResourceExhausted ''delegated result exceeds reserved output envelope'')
      else rbind (if eu_msg_type u = ''file'' then canonical_file env u r db else Inr u) (\<lambda>u1.
        let r1 = r\<lparr>r_invalidated := False, r_result_text := eu_result u1, r_result_type := eu_msg_type u1,
                   r_result_content := eu_content u1, r_executor_status := ''completed'', r_status := ''running'',
                   r_output_status := ''pending'', r_stage := ''pending''\<rparr>
        in Inr (r1, queue_next env r1 ''output'' db)))"

definition business_update :: "bot_env \<Rightarrow> executor_update \<Rightarrow> run_step_fn" where
  "business_update env u r db =
     rbind (update_guard u r) (\<lambda>_.
     let r1 = r\<lparr>r_sequence := eu_sequence u\<rparr> in
     if stop_confirmation u then rbind (confirm_stop u r1) (\<lambda>r2. Inr (r2, db))
     else
       let r2 = r1\<lparr>r_stage := (if eu_stage u \<noteq> [] then eu_stage u else eu_status u)\<rparr> in
       if eu_status u = ''completed'' then complete_update env u r2 db
       else Inr (r2\<lparr>r_status := eu_status u, r_waiting := eu_waiting u\<rparr>, db))"

definition executor_apply :: "bot_env \<Rightarrow> executor_update \<Rightarrow> run_step_fn" where
  "executor_apply env u r0 db =
     (let r = (if eu_type u \<noteq> ''run.delivery_ack'' \<and> \<not> stop_confirmation u
               then r0\<lparr>r_lease := Some (now env + minute)\<rparr> else r0) in
      if eu_type u = ''run.delivery_ack'' then Inr (r\<lparr>r_delivery_status := ''acknowledged''\<rparr>, db)
      else if eu_type u = ''run.claim'' then
        if r_executor_status r \<noteq> ''pending'' \<or> r_status r = ''stopping'' \<or> r_status r = ''waiting_authorization''
        then Inl (suspended ''Run already claimed or stopping'')
        else Inr (r\<lparr>r_executor_status := ''accepted'', r_status := ''running'', r_stage := ''running''\<rparr>, db)
      else if eu_type u = ''run.heartbeat'' then
        if r_executor_status r \<noteq> ''accepted'' \<and> r_executor_status r \<noteq> ''stop_rejected''
        then Inl (suspended ''Run must be claimed'') else Inr (r, db)
      else if eu_type u = ''run.update'' then business_update env u r db
      else Inr (r, db))"

definition update_json :: "executor_update \<Rightarrow> json" where
  "update_json u = JObj
     ([(''type'', JStr (eu_type u)), (''run_id'', JStr (eu_run u)), (''generation'', jint (eu_generation u)),
       (''input_version'', jint (eu_input_version u)), (''sequence'', jint (eu_sequence u)),
       (''update_key'', JStr (eu_key u))] @ omit_empty ''operation'' (eu_operation u) @
      [(''status'', JStr (eu_status u)), (''stage'', JStr (eu_stage u)), (''result_text'', JStr (eu_result u))] @
      omit_empty ''waiting_reason'' (eu_waiting u) @
      [(''msg_type'', JStr (eu_msg_type u)), (''content'', JStr (eu_content u))])"

definition executor_authority :: "executor_update \<Rightarrow> report_authority" where
  "executor_authority u =
     \<lparr>au_user = [], au_control = False, au_stop_confirmation = stop_confirmation u, au_stop_tree = False,
      au_generation = eu_generation u, au_input_version = eu_input_version u,
      au_unclaimed = (eu_type u = ''run.claim'' \<or> eu_type u = ''run.delivery_ack'')\<rparr>"

text \<open>\<open>ExecutorUpdate\<close> over the rounds of its report.\<close>

definition report_update ::
  "bot_env \<Rightarrow> service_checks \<Rightarrow> (string \<Rightarrow> (executor_update \<times> bool) option) \<Rightarrow> string \<Rightarrow> string \<Rightarrow>
   (bot_db \<times> bot_db) list \<Rightarrow> err + (public_run \<times> bot_db)" where
  "report_update env sc parse b0 body rounds =
     rbind (decode_update env parse body) (\<lambda>u.
     rbind (report env (eu_run u) (''executor:'' @ eu_key u) (fingerprint env (update_json u)) (executor_authority u)
        (executor_authorize env sc b0 u) (executor_apply env u) rounds) (\<lambda>(p, db).
     Inr (if stop_confirmation u then stop_receipt p else p, db)))"

end
