(* ===== verification/Run_Control.thy ===== *)
theory Run_Control
  imports Run_Executor
begin

text \<open>
  \<open>Control\<close> of \<^verbatim>\<open>run/executor.go\<close>: the commands of the users of a conversation on a run, namely
  further input, stop, resume, takeover, grants of control and the closing of the interaction.
\<close>

record control_command =
  cc_op :: string
  cc_message :: string
  cc_key :: string
  cc_source :: "string option"
  cc_reply_to :: "string option"
  cc_messages :: "string list"
  cc_files :: "string list"
  cc_history_grant :: "string option"
  cc_target :: string

definition control_ops :: "string list" where
  "control_ops = [''input'', ''stop'', ''resume'', ''takeover'', ''grant_control'', ''revoke_control'',
     ''close_interaction'', ''clear_context'']"

definition targeted :: "control_command \<Rightarrow> bool" where
  "targeted c \<longleftrightarrow> cc_op c = ''grant_control'' \<or> cc_op c = ''revoke_control''"

definition has_selection :: "control_command \<Rightarrow> bool" where
  "has_selection c \<longleftrightarrow> cc_source c \<noteq> None \<or> cc_reply_to c \<noteq> None \<or> cc_history_grant c \<noteq> None \<or>
     cc_messages c \<noteq> [] \<or> cc_files c \<noteq> []"

text \<open>\<open>validateMaterialIDs\<close>.\<close>

definition check_id_group :: "bot_env \<Rightarrow> string list \<Rightarrow> err + unit" where
  "check_id_group env ids =
     (if length ids > 100 then Inl (invalid_argument ''too many material references'')
      else ensure (list_all (valid_id env) ids \<and> distinct ids)
             (invalid_argument ''invalid or duplicate material identity''))"

definition validate_material_ids :: "bot_env \<Rightarrow> string list list \<Rightarrow> err + unit" where
  "validate_material_ids env groups = check_all (check_id_group env) groups"

definition check_control :: "bot_env \<Rightarrow> string \<Rightarrow> control_command \<Rightarrow> err + unit" where
  "check_control env i c =
     (if \<not> valid_id env i \<or> cc_key c = [] \<or> length (cc_key c) > 256 \<or> length (cc_message c) > 65536
      then Inl (invalid_argument ''invalid Run command'')
      else if \<exists>s\<in>set_option (cc_source c) \<union> set_option (cc_reply_to c) \<union> set_option (cc_history_grant c). \<not> valid_id env s
      then Inl (invalid_argument ''invalid input source identity'')
      else rbind (validate_material_ids env [cc_messages c, cc_files c]) (\<lambda>_.
        if cc_op c \<notin> set control_ops then Inl (invalid_argument ''unknown Run operation'')
        else if (targeted c \<and> \<not> valid_id env (cc_target c)) \<or> (\<not> targeted c \<and> cc_target c \<noteq> [])
        then Inl (invalid_argument ''only grant/revoke_control accept a current target_user_id'')
        else if cc_op c = ''input'' \<and> blank (cc_message c) then Inl (invalid_argument ''input message required'')
        else if cc_op c \<noteq> ''input'' \<and> (cc_message c \<noteq> [] \<or> has_selection c)
        then Inl (invalid_argument ''control operation does not accept input materials'')
        else Inr ()))"

definition jopt :: "string option \<Rightarrow> json" where
  "jopt x = (case x of None \<Rightarrow> JNull | Some s \<Rightarrow> JStr s)"

definition control_digest :: "bot_env \<Rightarrow> control_command \<Rightarrow> string" where
  "control_digest env c = fingerprint env (JArr (map JStr
     ([cc_op c, cc_message c] @ (if targeted c then [cc_target c] else []) @
      (if has_selection c
       then [fingerprint env (JObj [(''Source'', jopt (cc_source c)), (''Reply'', jopt (cc_reply_to c)),
               (''Grant'', jopt (cc_history_grant c)), (''Messages'', JArr (map JStr (cc_messages c))),
               (''Files'', JArr (map JStr (cc_files c)))])]
       else []))))"

definition control_key :: "string \<Rightarrow> control_command \<Rightarrow> string" where
  "control_key user c = ''control:'' @ user @ '':'' @ cc_key c"

section \<open>Authorization\<close>

text \<open>\<open>sharedMaterials\<close>: nothing the run cites was granted to its controller alone.\<close>

definition shared_materials :: "run \<Rightarrow> bool" where
  "shared_materials r \<longleftrightarrow> r_visibility r \<noteq> ''personal'' \<and>
     (\<forall>m\<in>set (r_materials r). mt_history_grant m = [] \<and> (mt_message m = [] \<or> mt_shared m))"

definition control_authorize ::
  "bot_env \<Rightarrow> service_checks \<Rightarrow> string \<Rightarrow> control_command \<Rightarrow> (run \<Rightarrow> err + unit) \<Rightarrow> bot_db \<Rightarrow> run \<Rightarrow> err + run" where
  "control_authorize env sc user c collect seen r0 =
     rbind (sc_refresh sc r0) (\<lambda>r.
     if r_visibility r = ''personal'' \<and> r_personal_user r \<noteq> Some user
     then Inl (denied ''personal Run belongs to another principal'')
     else if r_visibility r = ''personal'' \<and> (cc_op c = ''grant_control'' \<or> cc_op c = ''takeover'')
     then Inl (denied ''personal Run authority cannot transfer'')
     else
       rbind (sc_member sc r user) (\<lambda>_.
       rbind (if targeted c then rbind (run_member seen (r_conv r) (cc_target c)) (\<lambda>_. Inr ()) else Inr ()) (\<lambda>_.
       rbind (if cc_op c \<noteq> ''input'' then run_controller seen r user else Inr ()) (\<lambda>_.
       rbind (sc_state sc r) (\<lambda>reason.
       if reason \<noteq> [] \<and> reason \<noteq> ''controller_membership_lost'' then Inl (denied reason)
       else
         rbind (if cc_op c = ''input'' \<or> cc_op c = ''resume''
                then rbind (sc_visible sc r user) (\<lambda>_. sc_authorize sc r) else Inr ()) (\<lambda>_.
         rbind (if cc_op c = ''takeover'' then
                  if \<not> shared_materials r
                  then Inl (suspended ''personal source grants cannot transfer with controller'')
                  else rbind (run_member seen (r_conv r) user) (\<lambda>(mid, role).
                       sc_authorize sc (r\<lparr>r_controller := user, r_controller_member := Some mid\<rparr>))
                else Inr ()) (\<lambda>_.
         rbind (if cc_op c = ''input'' \<and> find_receipt seen (r_id r) (control_key user c) = None
                then collect r else Inr ()) (\<lambda>_. Inr r))))))))"

section \<open>The operations\<close>

text \<open>\<open>pendingExternalWrite\<close>: no external write of the run has an unknown outcome.\<close>

definition is_write :: "string \<Rightarrow> bool" where
  "is_write risk \<longleftrightarrow> risk \<noteq> ''read'' \<and> risk \<noteq> ''draft''"

definition pending_external_write :: "bot_db \<Rightarrow> run \<Rightarrow> err + unit" where
  "pending_external_write db r =
     ensure (\<not> (\<exists>a\<in>set (b_actions db). ra_run a = r_id r \<and> ra_status a \<in> {''executing'', ''unknown''} \<and> is_write (ra_risk a)))
       (suspended ''external action requires human outcome reconciliation'')"

definition grant_control :: "control_command \<Rightarrow> run_step_fn" where
  "grant_control c r db =
     rbind (run_member db (r_conv r) (cc_target c)) (\<lambda>(mid, role).
       let r1 = r\<lparr>r_memberships := AList.update (cc_target c) mid (r_memberships r)\<rparr>
       in Inr (if cc_target c \<in> set (r_controls r) then r1
               else r1\<lparr>r_controls := sort_by str_le (r_controls r @ [cc_target c])\<rparr>, db))"

definition revoke_control :: "control_command \<Rightarrow> run_step_fn" where
  "revoke_control c r db =
     rbind (run_member db (r_conv r) (cc_target c)) (\<lambda>_.
       Inr (r\<lparr>r_memberships := AList.delete (cc_target c) (r_memberships r),
              r_controls := filter (\<lambda>i. i \<noteq> cc_target c) (r_controls r)\<rparr>, db))"

text \<open>The model calls still waiting for an answer get another status.\<close>

definition settle_calls :: "bot_env \<Rightarrow> string \<Rightarrow> string \<Rightarrow> bot_db \<Rightarrow> bot_db" where
  "settle_calls env rid st db =
     db\<lparr>b_calls := update_where (\<lambda>c. mc_run c = rid \<and> mc_status c = ''requested'')
       (\<lambda>c. c\<lparr>mc_status := st, mc_completed := Some (now env)\<rparr>) (b_calls db)\<rparr>"

definition take_over :: "bot_env \<Rightarrow> string \<Rightarrow> run_step_fn" where
  "take_over env user r db =
     rbind (run_member db (r_conv r) user) (\<lambda>(mid, role).
     let r1 = r\<lparr>r_controller := user, r_controller_member := Some mid, r_controls := [], r_memberships := []\<rparr> in
     if r_status r1 \<noteq> ''waiting_authorization'' then Inr (r1, db)
     else if r_executor r1 = ''third_party'' \<and> r_stop_status r1 \<noteq> ''confirmed''
     then Inl (suspended ''executor must confirm suspension before shared takeover'')
     else
       let r2 = r1\<lparr>r_stop_status := ''none'', r_stop_reason := [], r_stop_at := None, r_stream_status := ''open'',
                   r_status := ''accepted'', r_stage := ''resuming'', r_waiting := [], r_operation := ''resume''\<rparr>
       in if r_executor r2 = ''builtin''
          then Inr (r2, queue_next env r2 ''execute'' (settle_calls env (r_id r2) ''cancelled'' db))
          else let r3 = r2\<lparr>r_generation := r_generation r2 + 1, r_lease := None, r_sequence := 0,
                           r_executor_status := ''pending'', r_delivery_status := ''pending''\<rparr>
               in Inr (r3, queue_next env r3 ''deliver'' db))"

text \<open>What follows the accepted input or the resumption: wake the executor.\<close>

definition wake_executor :: "bot_env \<Rightarrow> string \<Rightarrow> bool \<Rightarrow> run_step_fn" where
  "wake_executor env operation was_waiting r0 db =
     (let r = r0\<lparr>r_operation := operation\<rparr> in
      if r_executor r = ''builtin'' then
        Inr (r, if was_waiting \<or> operation = ''resume'' then queue_next env r ''execute'' db else db)
      else let r1 = r\<lparr>r_delivery_status := ''pending''\<rparr> in Inr (r1, queue_next env r1 ''deliver'' db))"

text \<open>\<open>materialProvenance\<close>: the versions the materials rest on.\<close>

definition no_version :: source_version where
  "no_version = \<lparr>sv_history = \<lparr>hs_message = [], hs_edit_count = 0, hs_grant = [], hs_seq = 0\<rparr>,
     sv_knowledge = no_knowledge, sv_file = [], sv_parent_run = [], sv_revision = 0\<rparr>"

definition message_version :: "string \<Rightarrow> int \<Rightarrow> source_version" where
  "message_version i n = no_version\<lparr>sv_history := \<lparr>hs_message = i, hs_edit_count = n, hs_grant = [], hs_seq = 0\<rparr>\<rparr>"

definition material_versions :: "material \<Rightarrow> source_version list" where
  "material_versions m =
     (if mt_message m \<noteq> [] then [message_version (mt_message m) (mt_edit_count m)] else []) @
     (if mt_file m \<noteq> [] then [no_version\<lparr>sv_file := mt_file m\<rparr>] else []) @
     (if mt_knowledge m \<noteq> [] \<and>
         \<not> (\<exists>v\<in>set (mt_provenance m). ks_id (sv_knowledge v) = mt_knowledge m \<and>
              (ks_chunk (sv_knowledge v) \<noteq> [] \<or> ks_metadata_hash (sv_knowledge v) \<noteq> []))
      then [no_version\<lparr>sv_knowledge := no_knowledge\<lparr>ks_id := mt_knowledge m\<rparr>\<rparr>] else []) @
     mt_provenance m"

definition material_provenance :: "material list \<Rightarrow> source_version list" where
  "material_provenance ms = concat (map material_versions ms)"

definition take_input ::
  "bot_env \<Rightarrow> string \<Rightarrow> control_command \<Rightarrow> material list \<Rightarrow> json list \<Rightarrow> run_step_fn" where
  "take_input env user c ms sources r0 db =
     (if (r_status r0 \<noteq> ''accepted'' \<and> r_status r0 \<noteq> ''running'' \<and> r_status r0 \<noteq> ''waiting_input'') \<or>
         r_output_status r0 \<noteq> ''none''
      then Inl (suspended ''Run no longer accepts work input'')
      else
        let v = r_input_version r0 + 1;
            r1 = r0\<lparr>r_input_version := v, r_inputs := r_inputs r0 @
                   [\<lparr>is_version = v, is_content = None, is_requester = user, is_source_message = cc_source c,
                     is_sender_type = ''user'', is_messages = cc_messages c, is_files = cc_files c,
                     is_history_grant = cc_history_grant c, is_parent_run = None, is_origin = None\<rparr>]\<rparr>;
            (i, db1) = bot_id env db
        in rbind (reserve_delegation_input db1 r1 (int (length (cc_message c)) + material_size env ms)) (\<lambda>r2.
           rbind (check_accepted_messages db1 r2 ms) (\<lambda>_.
           rbind (insert_input \<lparr>in_id = i, in_run = r_id r2, in_version = v, in_requester = user,
               in_source_message = cc_source c, in_edit_count = accepted_edit_count (cc_source c) ms,
               in_provenance = material_provenance ms, in_invalidated = False, in_key = cc_key c,
               in_content = cc_message c, in_hash = control_digest env c, in_materials = ms, in_sources = sources,
               in_created = now env\<rparr> db1) (\<lambda>db2.
           let r3 = r2\<lparr>r_provenance := r_provenance r2 @ material_provenance ms,
                       r_materials := r_materials r2 @ ms, r_sources := r_sources r2 @ sources\<rparr>;
               r4 = (if r_status r0 = ''waiting_input''
                     then r3\<lparr>r_status := ''running'', r_stage := ''input_received'', r_waiting := []\<rparr> else r3)
           in wake_executor env ''input'' (r_status r0 = ''waiting_input'') r4 db2))))"

definition stop_run :: "bot_env \<Rightarrow> run_step_fn" where
  "stop_run env r db =
     rbind (request_delegated_stops env (stop_tree_depth db) (r_id r) db) (\<lambda>db1.
     if terminal_run r then Inr (r\<lparr>r_stop_reason := ''user_requested''\<rparr>, db1)
     else if \<not> ec_stop (r_caps r)
     then Inr (r\<lparr>r_stop_status := ''rejected'', r_stop_reason := ''user_requested''\<rparr>, db1)
     else request_run_stop env ''user_requested'' r db1)"

definition resume_run :: "bot_env \<Rightarrow> run_step_fn" where
  "resume_run env r db =
     (if r_status r \<noteq> ''waiting_input'' \<and>
         \<not> (r_executor_status r = ''lost'' \<and> (r_status r = ''accepted'' \<or> r_status r = ''running''))
      then Inl (suspended ''only unfinished waiting or lost work may resume'')
      else wake_executor env ''resume'' (r_status r = ''waiting_input'')
        (r\<lparr>r_generation := r_generation r + 1, r_sequence := 0, r_executor_status := ''pending'',
           r_status := ''accepted'', r_stage := ''resuming'', r_waiting := [], r_lease := None,
           r_stream_status := ''open''\<rparr>) db)"

definition control_apply ::
  "bot_env \<Rightarrow> string \<Rightarrow> control_command \<Rightarrow> material list \<Rightarrow> json list \<Rightarrow> run_step_fn" where
  "control_apply env user c ms sources r db =
     rbind (if cc_op c = ''input'' \<or> cc_op c = ''resume'' \<or> cc_op c = ''takeover''
            then pending_external_write db r else Inr ()) (\<lambda>_.
     if cc_op c = ''input'' \<and> r_executor_status r = ''lost''
     then Inl (suspended ''lost executor requires explicit resume'')
     else if (cc_op c = ''input'' \<and> \<not> ec_input (r_caps r)) \<or> (cc_op c = ''resume'' \<and> \<not> ec_resume (r_caps r))
     then Inl (suspended ''executor does not support this operation'')
     else if r_status r = ''stopping'' \<and> cc_op c \<notin> {''stop'', ''grant_control'', ''revoke_control''}
     then Inl (suspended ''Run is stopping'')
     else if (r_output_status r = ''pending'' \<or> r_output_status r = ''generated'') \<and> cc_op c \<noteq> ''stop''
     then Inl (suspended ''Run execution is already complete'')
     else if cc_op c = ''grant_control'' then grant_control c r db
     else if cc_op c = ''revoke_control'' then revoke_control c r db
     else if cc_op c = ''takeover'' then take_over env user r db
     else if cc_op c = ''input'' then take_input env user c ms sources r db
     else if cc_op c = ''stop'' then stop_run env r db
     else if cc_op c = ''resume'' then resume_run env r db
     else wake_executor env (cc_op c) (r_status r = ''waiting_input'') r db)"

definition control_authority :: "string \<Rightarrow> control_command \<Rightarrow> report_authority" where
  "control_authority user c =
     \<lparr>au_user = user, au_control = (cc_op c \<noteq> ''input''), au_stop_confirmation = False,
      au_stop_tree = (cc_op c = ''stop''), au_generation = 0, au_input_version = 0, au_unclaimed = False\<rparr>"

text \<open>
  \<open>Control\<close> over the rounds of its report. The materials of an input, which the authorization of the
  round collected, are given with it. The closing of an interaction has a single round.
\<close>

definition control ::
  "bot_env \<Rightarrow> service_checks \<Rightarrow> string \<Rightarrow> string \<Rightarrow> control_command \<Rightarrow> (run \<Rightarrow> err + unit) \<Rightarrow>
   material list \<Rightarrow> json list \<Rightarrow> (bot_db \<times> bot_db) list \<Rightarrow> err + (public_run \<times> bot_db)" where
  "control env sc i user c collect ms sources rounds =
     rbind (check_control env i c) (\<lambda>_.
     if cc_op c = ''close_interaction'' \<or> cc_op c = ''clear_context'' then
       (case rounds of
          [] \<Rightarrow> Inl (Status Canceled ''context canceled'')
        | (seen, db) # _ \<Rightarrow>
            rbind (get_run seen i) (\<lambda>r.
            rbind (control_authorize env sc user c collect seen r) (\<lambda>checked.
            close_interaction env checked (control_key user c) (control_digest env c) user db)))
     else report env i (control_key user c) (control_digest env c) (control_authority user c)
        (control_authorize env sc user c collect) (control_apply env user c ms sources) rounds)"

end
