(* ===== verification/Run_Worker.thy ===== *)
theory Run_Worker
  imports Run_Control
begin

text \<open>
  The changes a worker and the lifecycle monitor make to a run, each the callback of a \<open>change_with\<close>:
  \<^verbatim>\<open>run/worker.go\<close> (start, inputs, waiting, output, failure), \<^verbatim>\<open>run/authority.go\<close> (lost leases,
  stale controllers, revoked authority, unconfirmed stops), \<^verbatim>\<open>run/delivery.go\<close> and
  \<^verbatim>\<open>run/action_recovery.go\<close>. The model round and the tools themselves are outside the model.
\<close>

section \<open>Execution\<close>

definition append_block :: "bot_env \<Rightarrow> block_body \<Rightarrow> source_version list \<Rightarrow> run \<times> bot_db \<Rightarrow> run \<times> bot_db" where
  "append_block env body provenance s =
     (case s of (r, db) \<Rightarrow>
        (case append_run_block env (r\<lparr>r_provenance := provenance\<rparr>) ''message'' body db of
           (r', db') \<Rightarrow> (r'\<lparr>r_provenance := r_provenance r\<rparr>, db')))"

text \<open>\<open>appendMaterials\<close>: each material with its own provenance, the aggregate restored.\<close>

definition append_materials :: "bot_env \<Rightarrow> material list \<Rightarrow> run \<times> bot_db \<Rightarrow> run \<times> bot_db" where
  "append_materials env ms s =
     fold (\<lambda>m. append_block env (Material_Body m) (material_provenance [m])) ms s"

definition body_sources :: "run_input \<Rightarrow> source_version list" where
  "body_sources i =
     (case in_source_message i of None \<Rightarrow> [] | Some m \<Rightarrow> [message_version m (in_edit_count i)])"

definition append_input :: "bot_env \<Rightarrow> run_input \<Rightarrow> run \<times> bot_db \<Rightarrow> err + (run \<times> bot_db)" where
  "append_input env i s =
     (case s of (r, db) \<Rightarrow>
        if in_version i \<noteq> r_applied_input r + 1
        then Inl (suspended ''accepted input log is not continuous'')
        else if in_invalidated i then Inr (r\<lparr>r_applied_input := in_version i\<rparr>, db)
        else
          (case append_block env (Input_Body (in_version i) (in_requester i) (sender_kind r i) (in_source_message i) (in_content i))
                  (body_sources i) (append_materials env (in_materials i) (r, db)) of
             (r1, db1) \<Rightarrow> Inr (r1\<lparr>r_applied_input := in_version i, r_waiting := []\<rparr>, db1)))"

definition unapplied_inputs :: "bot_db \<Rightarrow> run \<Rightarrow> run_input list" where
  "unapplied_inputs db r =
     filter (\<lambda>i. r_applied_input r < in_version i \<and> in_version i \<le> r_input_version r) (inputs_of db (r_id r))"

definition append_inputs :: "bot_env \<Rightarrow> run_step_fn" where
  "append_inputs env r db =
     (if \<exists>c\<in>set (b_calls db). mc_run c = r_id r \<and> mc_status c = ''requested'' then Inr (r, db)
      else rfold (append_input env) (unapplied_inputs db r) (r, db))"

text \<open>\<open>advance\<close>: the first change of a fresh run, and of one taken up again.\<close>

definition start_run :: "bot_env \<Rightarrow> run_step_fn" where
  "start_run env r db =
     (if r_trajectory r \<noteq> 0 then Inl (superseded_by ''trajectory already initialized'')
      else
        let r1 = r\<lparr>r_status := ''running'', r_stage := ''preparing'', r_delivery_status := ''acknowledged'',
                   r_executor_status := ''accepted''\<rparr>;
            (r2, db2) = append_block env (Text_Body ''system'' (xc_system_prompt (r_config r))) [] (r1, db)
        in append_inputs env r2 db2)"

definition continue_run :: "run_step_fn" where
  "continue_run r db =
     (let r1 = r\<lparr>r_status := ''running'', r_executor_status := ''accepted'', r_stream_status := ''open''\<rparr>
      in Inr (if r_stage r1 = ''executor_lost'' then r1\<lparr>r_stage := ''resuming''\<rparr> else r1, db))"

definition wait_for_input :: "bot_env \<Rightarrow> string \<Rightarrow> string \<Rightarrow> run_step_fn" where
  "wait_for_input env reason content r db =
     Inr (append_run_block env (r\<lparr>r_waiting := reason\<rparr>) ''message'' (Text_Body ''tool'' content) db)"

definition queue_output :: "bot_env \<Rightarrow> run_step_fn" where
  "queue_output env r db =
     (let r1 = r\<lparr>r_stage := ''pending'', r_output_status := ''pending''\<rparr> in Inr (r1, queue_next env r1 ''output'' db))"

definition fail_run :: "bot_env \<Rightarrow> string \<Rightarrow> bool \<Rightarrow> run_step_fn" where
  "fail_run env reason output r db =
     (let r1 = r\<lparr>r_status := ''failed'', r_stage := ''failed'', r_error := reason\<rparr>
      in Inr (if output \<or> r_output_status r = ''generated'' \<or> r_output_status r = ''pending''
              then r1\<lparr>r_output_status := ''failed''\<rparr> else r1,
              settle_calls env (r_id r) ''failed'' db))"

text \<open>
  The last step of a publication: the run committed the message the messaging service made of it, or,
  after the fences of a personal answer (\<open>fence\<close>: the recheck of its sources and actions), its own row.
\<close>

definition commit_output :: "string \<Rightarrow> run_step_fn" where
  "commit_output msg r db =
     Inr (r\<lparr>r_status := ''succeeded'', r_stage := ''committed'', r_output_status := ''committed'',
            r_message := Some msg\<rparr>, db)"

definition commit_personal :: "bot_env \<Rightarrow> (run \<Rightarrow> err + unit) \<Rightarrow> run_step_fn" where
  "commit_personal env fence r db =
     rbind (fence r) (\<lambda>_.
     rbind (check_ids env db (run_access r) False) (\<lambda>_.
     Inr (r\<lparr>r_status := ''succeeded'', r_stage := ''committed'', r_output_status := ''committed''\<rparr>, db)))"

definition confirm_builtin_stop :: "bot_env \<Rightarrow> run_step_fn" where
  "confirm_builtin_stop env r db =
     (if r_status r \<noteq> ''stopping'' then Inr (r, db)
      else
        let r1 = r\<lparr>r_status := ''stopped'', r_stage := ''stopped'', r_stop_status := ''confirmed'',
                   r_stream_status := ''closed'', r_executor_status := ''stopped''\<rparr>
        in Inr (if r_output_status r = ''pending'' \<or> r_output_status r = ''generated''
                then r1\<lparr>r_output_status := ''failed''\<rparr> else r1,
                settle_calls env (r_id r) ''cancelled'' db))"

section \<open>Lifecycle\<close>

definition same_version :: "run \<Rightarrow> string \<Rightarrow> run \<Rightarrow> err + unit" where
  "same_version seen reason r = ensure (r_version r = r_version seen) (superseded_by reason)"

definition lose_executor :: "bot_env \<Rightarrow> run \<Rightarrow> run_step_fn" where
  "lose_executor env seen r db =
     rbind (same_version seen ''Run changed during lease reconciliation'' r) (\<lambda>_.
     case check_execution_lease env db r (r_generation r) of
       Inr _ \<Rightarrow> Inl (superseded_by ''executor renewed during reconciliation'')
     | Inl e \<Rightarrow>
         if status_code e \<noteq> Aborted then Inl e
         else
           let r1 = r\<lparr>r_executor_status := ''lost'', r_stream_status := ''closed''\<rparr>
           in Inr (if r_status r = ''accepted'' \<or> r_status r = ''running'' then r1\<lparr>r_stage := ''executor_lost''\<rparr>
                   else if r_status r = ''stopping'' \<and> r_stop_status r = ''requested''
                   then r1\<lparr>r_stop_status := ''unknown''\<rparr> else r1, db))"

text \<open>Controllers whose membership is no longer the one the grant was made for.\<close>

definition stale_control :: "bot_db \<Rightarrow> run \<Rightarrow> string \<Rightarrow> bool" where
  "stale_control db r user \<longleftrightarrow>
     (case map_of (r_memberships r) user of None \<Rightarrow> False
      | Some i \<Rightarrow> (case run_member db (r_conv r) user of Inl _ \<Rightarrow> i \<noteq> [] | Inr (mid, role) \<Rightarrow> mid \<noteq> i))"

definition drop_controls :: "string list \<Rightarrow> run_step_fn" where
  "drop_controls stale r db =
     (let ms = filter (\<lambda>(u, i). \<not> (u \<in> set stale \<and> stale_control db r u)) (r_memberships r)
      in Inr (r\<lparr>r_memberships := ms, r_controls := filter (\<lambda>u. u \<in> fst ` set ms) (r_controls r)\<rparr>, db))"

definition lose_controller :: "bot_env \<Rightarrow> string \<Rightarrow> run_step_fn" where
  "lose_controller env reason r db =
     (if r_status r = ''stopping'' then Inr (r, db)
      else
        let r1 = r\<lparr>r_status := ''waiting_authorization'', r_stage := ''awaiting_takeover'', r_waiting := reason,
                   r_stream_status := ''closed''\<rparr>
        in if r_executor r = ''builtin''
           then Inr (r1\<lparr>r_generation := r_generation r + 1\<rparr>, settle_calls env (r_id r) ''cancelled'' db)
           else if r_executor r = ''third_party''
           then let r2 = r1\<lparr>r_stop_status := ''requested'', r_operation := ''stop'', r_stop_at := Some (now env),
                            r_stop_reason := reason\<rparr>
                in Inr (r2, queue_next env r2 ''deliver'' db)
           else Inr (r1, db))"

definition apply_authority :: "bot_env \<Rightarrow> run \<Rightarrow> string \<Rightarrow> run_step_fn" where
  "apply_authority env seen reason r db =
     rbind (same_version seen ''Run changed during lifecycle reconciliation'' r) (\<lambda>_.
     if reason = ''controller_membership_lost'' then lose_controller env reason r db
     else request_run_stop env reason (r\<lparr>r_revoked := True\<rparr>) db)"

definition unconfirmed_stop :: "bot_env \<Rightarrow> run_step_fn" where
  "unconfirmed_stop env r db =
     Inr (if r_stop_status r = ''requested'' \<and>
             (case r_stop_at r of None \<Rightarrow> False | Some t \<Rightarrow> now env - t \<ge> 5 * second)
          then r\<lparr>r_stop_status := ''unknown'', r_stage := ''stop_unconfirmed''\<rparr> else r, db)"

section \<open>Delivery and recovery\<close>

definition mark_delivered :: "int \<Rightarrow> int \<Rightarrow> run_step_fn" where
  "mark_delivered gen version r db =
     (if r_generation r \<noteq> gen \<or> r_input_version r \<noteq> version
      then Inl (superseded_by ''input delivery superseded'')
      else Inr (if r_delivery_status r = ''pending'' then r\<lparr>r_delivery_status := ''delivered''\<rparr> else r, db))"

definition undeliverable :: "bot_env \<Rightarrow> int \<Rightarrow> string \<Rightarrow> run_step_fn" where
  "undeliverable env gen reason r db =
     (if r_generation r \<noteq> gen then Inl (superseded_by ''delivery generation superseded'')
      else request_run_stop env reason r db)"

text \<open>
  \<open>recoverActions\<close>: an action whose executor lost its lease is retried only when it cannot have changed
  anything outside; a write becomes a durable unknown.
\<close>

definition orphaned :: "bot_env \<Rightarrow> bot_db \<Rightarrow> run \<Rightarrow> run_action \<Rightarrow> bool" where
  "orphaned env db r a \<longleftrightarrow>
     ra_generation a \<noteq> r_generation r \<or> \<not> is_ok (check_execution_lease env db r (ra_generation a))"

definition unknown_outcome :: string where
  "unknown_outcome = ''{\"status\":\"unknown\",\"error\":\"executor lost before durable outcome receipt; human reconciliation required\"}''"

definition recover_action :: "bot_env \<Rightarrow> bot_db \<Rightarrow> run \<Rightarrow> run_action \<Rightarrow> run_action" where
  "recover_action env db r a =
     (if ra_run a = r_id r \<and> ra_status a = ''executing'' \<and> orphaned env db r a then
        if \<not> is_write (ra_risk a) \<and> \<not> terminal_run r
        then a\<lparr>ra_status := ''approved'', ra_claimed := None, ra_completed := None, ra_result := []\<rparr>
        else a\<lparr>ra_status := ''unknown'',
               ra_result := (if ra_source_invalidated a then ra_result a else unknown_outcome)\<rparr>
      else a)"

definition unknown_write :: "string \<Rightarrow> run_action \<Rightarrow> bool" where
  "unknown_write rid a \<longleftrightarrow> ra_run a = rid \<and> ra_status a = ''unknown'' \<and> is_write (ra_risk a)"

definition actions_unchanged :: err where
  "actions_unchanged = Plain ''action recovery unchanged''"

definition recover_actions :: "bot_env \<Rightarrow> run_step_fn" where
  "recover_actions env r db =
     (let actions = map (recover_action env db r) (b_actions db);
          unknown = (\<exists>a\<in>set actions. unknown_write (r_id r) a);
          park = (unknown \<and> \<not> terminal_run r \<and> r_status r \<noteq> ''stopping'' \<and>
                  (r_status r \<noteq> ''waiting_authorization'' \<or> r_stage r \<noteq> ''action_outcome_unknown'' \<or>
                   r_waiting r \<noteq> ''action_outcome_unknown''))
      in if actions = b_actions db \<and> \<not> park then Inl actions_unchanged
         else Inr (if park
                   then r\<lparr>r_status := ''waiting_authorization'', r_stage := ''action_outcome_unknown'',
                          r_waiting := ''action_outcome_unknown'', r_stream_status := ''closed''\<rparr> else r,
                   db\<lparr>b_actions := actions\<rparr>))"

end
