(* ===== verification/Action_Args.thy ===== *)
theory Action_Args
  imports Run_Worker
begin

text \<open>
  The parameters of a tool call: \<^verbatim>\<open>run/actions.go\<close> (the parameters that may be recorded, and what a
  reader sees of them), \<^verbatim>\<open>run/knowledge_tools.go\<close> and \<^verbatim>\<open>run/reading_tools.go\<close> (the strict decoding of the
  platform's own reading tools). A string of a document may itself hold an encoded document, which the
  functions here follow; \<open>nested\<close> and \<open>nested_any\<close> state what makes that end: a decoded document has fewer
  characters in its strings than its text, as every decoder guarantees.
\<close>

section \<open>Text\<close>

text \<open>
  \<^verbatim>\<open>strings.ToLower\<close> as far as it yields ASCII: two runes beyond ASCII have a lower case in it. No other
  rune matters to \<open>secret_parameter\<close>.
\<close>

definition lower_rune :: "rune \<Rightarrow> rune" where
  "lower_rune r = (if 65 \<le> r \<and> r \<le> 90 then r + 32 else if r = 304 then 105 else if r = 8490 then 107 else r)"

definition normal_key :: "string \<Rightarrow> rune list" where
  "normal_key key = map (\<lambda>r. lower_rune (if r = 45 then 95 else r)) (runes key)"

definition secret_words :: "string list" where
  "secret_words = [''password'', ''secret'', ''token'', ''credential'', ''api_key'']"

definition secret_names :: "string list" where
  "secret_names = [''authorization'', ''cookie'', ''private_key'']"

definition secret_parameter :: "string \<Rightarrow> bool" where
  "secret_parameter key \<longleftrightarrow>
     list_ex (\<lambda>w. sublist (map of_char w) (normal_key key)) secret_words \<or>
     list_ex (\<lambda>w. normal_key key = map of_char w) secret_names"

text \<open>\<^verbatim>\<open>strings.ReplaceAll\<close> of a word that is not empty.\<close>

function replace_all :: "string \<Rightarrow> string \<Rightarrow> string \<Rightarrow> string" where
  "replace_all old new s =
     (if old = [] \<or> s = [] then s
      else if prefix old s then new @ replace_all old new (drop (length old) s)
      else hd s # replace_all old new (tl s))"
  by pat_completeness auto
termination
  by (relation "measure (\<lambda>(old, new, s). length s)") auto

declare replace_all.simps [simp del]

text \<open>\<^verbatim>\<open>utf8.ValidString\<close>.\<close>

definition valid_utf8 :: "string \<Rightarrow> bool" where
  "valid_utf8 s \<longleftrightarrow> utf8 (runes s) = s"

section \<open>Documents inside strings\<close>

fun text_size :: "json \<Rightarrow> nat" where
  "text_size (JStr s) = length (runes s)"
| "text_size (JArr vs) = sum_list (map text_size vs)"
| "text_size (JObj m) = sum_list (map (\<lambda>(k, v). text_size v) m)"
| "text_size _ = 0"

definition nested :: "bot_env \<Rightarrow> string \<Rightarrow> json option" where
  "nested env s =
     (case json_first env s of None \<Rightarrow> None
      | Some (v, rest) \<Rightarrow> if text_size v < length (runes s) then Some v else None)"

definition nested_any :: "bot_env \<Rightarrow> string \<Rightarrow> json option" where
  "nested_any env s =
     (case json_any env s of None \<Rightarrow> None
      | Some v \<Rightarrow> if text_size v < length (runes s) then Some v else None)"

lemma nested_size: "nested env s = Some v \<Longrightarrow> text_size v < length (runes s)"
  by (auto simp: nested_def split: option.splits if_splits)

lemma nested_any_size: "nested_any env s = Some v \<Longrightarrow> text_size v < length (runes s)"
  by (auto simp: nested_any_def split: option.splits if_splits)

lemma item_size: "v \<in> set vs \<Longrightarrow> text_size v \<le> text_size (JArr vs) \<and> size v < size (JArr vs)"
proof
  assume v: "v \<in> set vs"
  show "text_size v \<le> text_size (JArr vs)" using v by (simp add: member_le_sum_list)
  show "size v < size (JArr vs)" using size_list_estimation' [OF v, of "size v" size] by simp
qed

lemma field_size: "(k, v) \<in> set m \<Longrightarrow> text_size v \<le> text_size (JObj m) \<and> size v < size (JObj m)"
proof
  assume v: "(k, v) \<in> set m"
  have "text_size v \<in> set (map (\<lambda>(k, v). text_size v) m)" using v by (force simp: image_iff)
  then show "text_size v \<le> text_size (JObj m)" by (simp add: member_le_sum_list)
  show "size v < size (JObj m)" using v by (induction m) auto
qed

text \<open>The order in which the recursions below descend.\<close>

definition descent :: "((bot_env \<times> json) \<times> bot_env \<times> json) set" where
  "descent = measures [\<lambda>(env, v). text_size v, \<lambda>(env, v). size v]"

lemma descent_wf [intro!, simp]: "wf descent"
  by (simp add: descent_def)

lemma descent_steps [simp]:
  "v \<in> set vs \<Longrightarrow> ((env, v), env, JArr vs) \<in> descent"
  "(k, v) \<in> set m \<Longrightarrow> ((env, v), env, JObj m) \<in> descent"
  "nested env s = Some v \<Longrightarrow> ((env, v), env, JStr s) \<in> descent"
  "nested_any env s = Some v \<Longrightarrow> ((env, v), env, JStr s) \<in> descent"
  using item_size [of v vs] field_size [of k v m] nested_size [of env s v] nested_any_size [of env s v]
  by (auto simp: descent_def le_less)

section \<open>What a reader sees\<close>

definition redacted :: string where "redacted = ''[redacted]''"

text \<open>\<open>redactActionValue\<close> and \<open>redactActionSecret\<close>.\<close>

function redact :: "bot_env \<Rightarrow> json \<Rightarrow> json" where
  "redact env (JObj m) = JObj (map (\<lambda>(k, v). (k, if secret_parameter k then JStr redacted else redact env v)) m)"
| "redact env (JArr vs) = JArr (map (redact env) vs)"
| "redact env (JStr s) = (case nested env s of None \<Rightarrow> JStr s | Some v \<Rightarrow> JStr (json_encode env (redact env v)))"
| "redact env JNull = JNull"
| "redact env (JBool b) = JBool b"
| "redact env (JNum l) = JNum l"
  by pat_completeness auto
termination by (relation descent) auto

function redact_secret :: "string \<Rightarrow> bot_env \<Rightarrow> json \<Rightarrow> json" where
  "redact_secret secret env (JObj m) =
     JObj (map (\<lambda>(k, v). (k, redact_secret secret env v)) (filter (\<lambda>(k, v). \<not> sublist secret k) m))"
| "redact_secret secret env (JArr vs) = JArr (map (redact_secret secret env) vs)"
| "redact_secret secret env (JStr s) =
     (case nested env s of None \<Rightarrow> JStr (replace_all secret redacted s)
      | Some v \<Rightarrow> JStr (json_encode env (redact_secret secret env v)))"
| "redact_secret secret env JNull = JNull"
| "redact_secret secret env (JBool b) = JBool b"
| "redact_secret secret env (JNum l) = JNum l"
  by pat_completeness auto
termination by (relation "inv_image descent snd") auto

section \<open>What may be recorded\<close>

text \<open>\<open>actionValueContainsSecret\<close>, and the closure \<^verbatim>\<open>containsSecret\<close> of \<open>canonicalActionArguments\<close>.\<close>

function value_contains :: "string \<Rightarrow> bot_env \<Rightarrow> json \<Rightarrow> bool" where
  "value_contains secret env (JObj m) \<longleftrightarrow> list_ex (\<lambda>(k, v). sublist secret k \<or> value_contains secret env v) m"
| "value_contains secret env (JArr vs) \<longleftrightarrow> list_ex (value_contains secret env) vs"
| "value_contains secret env (JStr s) \<longleftrightarrow> sublist secret s \<or>
     (case nested_any env s of None \<Rightarrow> False | Some v \<Rightarrow> value_contains secret env v)"
| "value_contains secret env JNull \<longleftrightarrow> False"
| "value_contains secret env (JBool b) \<longleftrightarrow> False"
| "value_contains secret env (JNum l) \<longleftrightarrow> False"
  by pat_completeness auto
termination by (relation "inv_image descent snd") auto

function contains_secret :: "bot_env \<Rightarrow> json \<Rightarrow> bool" where
  "contains_secret env (JObj m) \<longleftrightarrow> list_ex (\<lambda>(k, v). secret_parameter k \<or> contains_secret env v) m"
| "contains_secret env (JArr vs) \<longleftrightarrow> list_ex (contains_secret env) vs"
| "contains_secret env (JStr s) \<longleftrightarrow>
     (case nested_any env s of None \<Rightarrow> False | Some v \<Rightarrow> contains_secret env v)"
| "contains_secret env JNull \<longleftrightarrow> False"
| "contains_secret env (JBool b) \<longleftrightarrow> False"
| "contains_secret env (JNum l) \<longleftrightarrow> False"
  by pat_completeness auto
termination by (relation descent) auto

text \<open>The credentials of a server that are set.\<close>

definition auth_secrets :: "mcp_server \<Rightarrow> string list" where
  "auth_secrets s = (case ms_auth s of None \<Rightarrow> [] | Some (key, token) \<Rightarrow> filter (\<lambda>x. x \<noteq> []) [key, token])"

text \<open>
  \<open>canonicalActionArguments\<close>: the document whose encoding is the canonical text, and its digest.
\<close>

definition canonical_arguments :: "bot_env \<Rightarrow> string \<Rightarrow> mcp_server \<Rightarrow> err + (json \<times> string)" where
  "canonical_arguments env raw server =
     (case json_first env raw of
        Some (JObj m, rest) \<Rightarrow>
          if rest then Inl (invalid_argument ''trailing action parameters'')
          else if contains_secret env (JObj m)
          then Inl (invalid_argument ''credentials must use transient tool configuration'')
          else if list_ex (\<lambda>x. value_contains x env (JObj m)) (auth_secrets server)
          then Inl (invalid_argument ''credentials cannot enter action records'')
          else Inr (JObj m, fingerprint env (JObj m))
      | _ \<Rightarrow> Inl (invalid_argument ''action parameters must be a JSON object''))"

section \<open>The platform's reading tools\<close>

definition read_tools :: "string list" where
  "read_tools = [''search_knowledge'', ''list_knowledge_bases'', ''list_knowledge_documents'', ''read_knowledge_document'',
     ''read_conversation_history'']"

definition is_runtime_read_tool :: "string \<Rightarrow> bool" where
  "is_runtime_read_tool name \<longleftrightarrow> name \<in> set read_tools"

definition result_limit :: nat where "result_limit = 131072"

text \<open>\<open>decodeKnowledgeFields\<close>.\<close>

definition decode_fields :: "bot_env \<Rightarrow> string list \<Rightarrow> string \<Rightarrow> err + json_map" where
  "decode_fields env allowed raw =
     (let invalid = invalid_argument ''invalid knowledge tool arguments'' in
      if length raw > result_limit \<or> \<not> valid_utf8 raw then Inl invalid
      else case json_fields env raw of
        None \<Rightarrow> Inl invalid
      | Some m \<Rightarrow>
          if list_all (\<lambda>(k, v). k \<in> set allowed \<and> v \<noteq> JNull) m \<and> distinct (map fst m) then Inr m else Inl invalid)"

text \<open>A field of a struct read by \<^verbatim>\<open>Unmarshal\<close>: the default when it is absent.\<close>

definition text_field :: "json_map \<Rightarrow> string \<Rightarrow> string option" where
  "text_field m k = (case map_of m k of None \<Rightarrow> Some [] | Some (JStr s) \<Rightarrow> Some s | Some _ \<Rightarrow> None)"

definition int_field :: "nat \<Rightarrow> json_map \<Rightarrow> string \<Rightarrow> int \<Rightarrow> int option" where
  "int_field w m k d =
     (case map_of m k of None \<Rightarrow> Some d
      | Some (JNum l) \<Rightarrow> (case int_of_lexeme l of Some n \<Rightarrow> if fits w n then Some n else None | None \<Rightarrow> None)
      | Some _ \<Rightarrow> None)"

definition strs_field :: "json_map \<Rightarrow> string \<Rightarrow> string list option" where
  "strs_field m k = (case map_of m k of None \<Rightarrow> Some [] | Some v \<Rightarrow> decode_strs v)"

definition bound_field :: "json_map \<Rightarrow> string \<Rightarrow> int option option" where
  "bound_field m k =
     (case map_of m k of None \<Rightarrow> Some None | Some v \<Rightarrow> (case int_field 32 m k 0 of None \<Rightarrow> None | Some n \<Rightarrow> Some (Some n)))"

definition omit_ids :: "string \<Rightarrow> string list \<Rightarrow> json_map" where
  "omit_ids k ids = (if ids = [] then [] else [(k, JArr (map JStr ids))])"

definition omit_bound :: "string \<Rightarrow> int option \<Rightarrow> json_map" where
  "omit_bound k x = (case x of None \<Rightarrow> [] | Some n \<Rightarrow> [(k, jint n)])"

text \<open>\<open>decodeKnowledgeSearch\<close> and the other decoders, each with the encoding of its accepted arguments.\<close>

definition search_arguments :: "bot_env \<Rightarrow> string \<Rightarrow> err + json_map" where
  "search_arguments env raw =
     rbind (decode_fields env [''query'', ''kb_ids'', ''doc_ids'', ''limit''] raw) (\<lambda>m.
     let invalid = invalid_argument ''invalid knowledge search arguments'' in
     case (map_of m ''query'', strs_field m ''kb_ids'', strs_field m ''doc_ids'', int_field 32 m ''limit'' 5) of
       (Some (JStr q), Some kbs, Some docs, Some n) \<Rightarrow>
         if blank q \<or> \<not> valid_utf8 q \<or> length (runes q) > 4096 \<or> n < 1 \<or> n > 50 \<or>
            \<not> is_ok (validate_material_ids env [kbs, docs])
         then Inl invalid
         else Inr ([(''query'', JStr q)] @ omit_ids ''kb_ids'' (sort_by str_le kbs) @ omit_ids ''doc_ids'' (sort_by str_le docs) @
                   [(''limit'', jint n)])
     | _ \<Rightarrow> Inl invalid)"

definition list_arguments :: "bot_env \<Rightarrow> string \<Rightarrow> err + json_map" where
  "list_arguments env raw =
     rbind (decode_fields env [''offset'', ''limit''] raw) (\<lambda>m.
     case (int_field 32 m ''offset'' 0, int_field 32 m ''limit'' 20) of
       (Some off, Some n) \<Rightarrow>
         if off < 0 \<or> n < 1 \<or> n > 100 then Inl (invalid_argument ''invalid knowledge pagination'')
         else Inr [(''offset'', jint off), (''limit'', jint n)]
     | _ \<Rightarrow> Inl (invalid_argument ''invalid knowledge pagination''))"

definition documents_arguments :: "bot_env \<Rightarrow> string \<Rightarrow> err + json_map" where
  "documents_arguments env raw =
     rbind (decode_fields env [''kb_id'', ''title'', ''offset'', ''limit''] raw) (\<lambda>m.
     case (text_field m ''kb_id'', text_field m ''title'', int_field 32 m ''offset'' 0, int_field 32 m ''limit'' 20) of
       (Some kb, Some title, Some off, Some n) \<Rightarrow>
         if \<not> valid_id env kb \<or> \<not> valid_utf8 title \<or> length (runes title) > 256 \<or> off < 0 \<or> n < 1 \<or> n > 100
         then Inl (invalid_argument ''invalid document listing'')
         else Inr ([(''kb_id'', JStr kb)] @ omit_empty ''title'' title @ [(''offset'', jint off), (''limit'', jint n)])
     | _ \<Rightarrow> Inl (invalid_argument ''invalid reading arguments''))"

definition document_arguments :: "bot_env \<Rightarrow> string \<Rightarrow> err + json_map" where
  "document_arguments env raw =
     rbind (decode_fields env [''doc_id'', ''start_index'', ''end_index'', ''offset'', ''limit''] raw) (\<lambda>m.
     case (text_field m ''doc_id'', bound_field m ''start_index'', bound_field m ''end_index'',
           int_field 32 m ''offset'' 0, int_field 32 m ''limit'' 20) of
       (Some doc, Some lo, Some hi, Some off, Some n) \<Rightarrow>
         if \<not> valid_id env doc \<or> off < 0 \<or> n < 1 \<or> n > 100 \<or>
            (case lo of None \<Rightarrow> False | Some a \<Rightarrow> a < 0 \<or> (case hi of None \<Rightarrow> False | Some b \<Rightarrow> b < a)) \<or>
            (case hi of None \<Rightarrow> False | Some b \<Rightarrow> b < 0)
         then Inl (invalid_argument ''invalid parsed document range'')
         else Inr ([(''doc_id'', JStr doc)] @ omit_bound ''start_index'' lo @ omit_bound ''end_index'' hi @
                   [(''offset'', jint off), (''limit'', jint n)])
     | _ \<Rightarrow> Inl (invalid_argument ''invalid reading arguments''))"

definition history_arguments :: "bot_env \<Rightarrow> string \<Rightarrow> err + json_map" where
  "history_arguments env raw =
     rbind (decode_fields env [''cursor'', ''limit''] raw) (\<lambda>m.
     case (int_field 64 m ''cursor'' 0, int_field 32 m ''limit'' 30) of
       (Some c, Some n) \<Rightarrow>
         if \<not> is_ok (seq_validate c) \<or> n < 1 \<or> n > 100 then Inl (invalid_argument ''invalid history pagination'')
         else Inr [(''cursor'', jint c), (''limit'', jint n)]
     | _ \<Rightarrow> Inl (invalid_argument ''invalid reading arguments''))"

definition reading_arguments :: "bot_env \<Rightarrow> string \<Rightarrow> string \<Rightarrow> err + json_map" where
  "reading_arguments env name raw =
     (if name = ''list_knowledge_documents'' then documents_arguments env raw
      else if name = ''read_knowledge_document'' then document_arguments env raw
      else if name = ''read_conversation_history'' then history_arguments env raw
      else if name = ''list_knowledge_bases'' then list_arguments env raw
      else search_arguments env raw)"

text \<open>
  \<open>canonicalToolActionArguments\<close>: invalid arguments of a reading tool survive only as the marker that
  replaced them.
\<close>

definition invalid_marker :: "string \<Rightarrow> json_map \<Rightarrow> bool" where
  "invalid_marker name m \<longleftrightarrow> m = [(''limit'', JNum ''0'')] \<or> (name = ''search_knowledge'' \<and> m = [])"

definition canonical_tool_arguments :: "bot_env \<Rightarrow> string \<Rightarrow> mcp_server \<Rightarrow> tool_ref \<Rightarrow> err + (json \<times> string)" where
  "canonical_tool_arguments env raw server tool =
     (if tr_server tool \<noteq> ''runtime'' \<or> \<not> is_runtime_read_tool (tr_name tool)
      then canonical_arguments env raw server
      else rbind (case reading_arguments env (tr_name tool) raw of
                    Inr m \<Rightarrow> Inr m
                  | Inl e \<Rightarrow>
                      (case decode_fields env [''limit''] raw of
                         Inl _ \<Rightarrow> Inl e
                       | Inr m \<Rightarrow> if invalid_marker (tr_name tool) m then Inr m else Inl e))
             (\<lambda>m. Inr (JObj m, fingerprint env (JObj m))))"

end
