(* ===== verification/Bot_Actions.thy ===== *)
theory Bot_Actions
  imports Action_Args
begin

text \<open>
  The authority a tool call rests on: \<^verbatim>\<open>run/actions.go\<close> and \<^verbatim>\<open>run/action_recovery.go\<close>. An action is the
  record of one exact call. Its status starts at \<open>pending\<close> (a write that needs an approval) or \<open>approved\<close>,
  and each of its uses rechecks the run, the tool, the sources and, for a write, the approval. \<open>action_write\<close>
  names the risks that need one; recovery instead asks \<open>is_write\<close>, whether a call can have changed
  anything outside.
\<close>

section \<open>Rows\<close>

definition action_write :: "string \<Rightarrow> bool" where
  "action_write risk \<longleftrightarrow> risk \<in> {''send'', ''modify'', ''delete'', ''pay''}"

definition find_action :: "bot_db \<Rightarrow> string \<Rightarrow> run_action option" where
  "find_action db i = find (\<lambda>a. ra_id a = i) (b_actions db)"

definition run_action_row :: "bot_db \<Rightarrow> string \<Rightarrow> string \<Rightarrow> run_action option" where
  "run_action_row db i rid = find (\<lambda>a. ra_id a = i \<and> ra_run a = rid) (b_actions db)"

definition submitted_action :: "bot_db \<Rightarrow> string \<Rightarrow> string \<Rightarrow> run_action option" where
  "submitted_action db rid key = find (\<lambda>a. ra_run a = rid \<and> ra_key a = key) (b_actions db)"

definition put_action :: "run_action \<Rightarrow> bot_db \<Rightarrow> bot_db" where
  "put_action a db = db\<lparr>b_actions := update_where (\<lambda>x. ra_id x = ra_id a) (\<lambda>_. a) (b_actions db)\<rparr>"

definition insert_action :: "run_action \<Rightarrow> bot_db \<Rightarrow> err + bot_db" where
  "insert_action a db =
     (if find_action db (ra_id a) \<noteq> None then Inl (Violation ''run_actions_pkey'')
      else if submitted_action db (ra_run a) (ra_key a) \<noteq> None
      then Inl (Violation ''run_actions_run_id_submission_key_key'')
      else Inr (db\<lparr>b_actions := b_actions db @ [a]\<rparr>))"

definition enabled_server :: "bot_db \<Rightarrow> string \<Rightarrow> mcp_server option" where
  "enabled_server db i = find (\<lambda>s. ms_id s = i \<and> ms_enabled s) (b_servers db)"

definition owned_server :: "mcp_server \<Rightarrow> string \<Rightarrow> bool" where
  "owned_server s user \<longleftrightarrow> ms_owner_type s = ''user'' \<and> ms_owner s = Some user"

definition action_owner :: "bot_env \<Rightarrow> bot_db \<Rightarrow> string \<Rightarrow> string \<Rightarrow> bool" where
  "action_owner env db sid user \<longleftrightarrow>
     valid_id env user \<and> valid_id env sid \<and>
     (case enabled_server db sid of None \<Rightarrow> False | Some s \<Rightarrow> owned_server s user)"

section \<open>Fences\<close>

text \<open>\<open>unresolvedWriteAction\<close>.\<close>

definition unresolved_write_action :: "bot_db \<Rightarrow> run \<Rightarrow> err + unit" where
  "unresolved_write_action db r =
     ensure (\<not> (\<exists>a\<in>set (b_actions db). ra_run a = r_id r \<and> ra_status a = ''unknown'' \<and> is_write (ra_risk a)))
       (suspended ''external action requires human outcome reconciliation'')"

definition controller_member :: "bot_db \<Rightarrow> run \<Rightarrow> string \<Rightarrow> bool" where
  "controller_member db r user \<longleftrightarrow>
     (case run_member db (r_conv r) user of Inl _ \<Rightarrow> False | Inr (m, role) \<Rightarrow> r_controller_member r = Some m)"

definition participation_fence :: "bot_env \<Rightarrow> bot_db \<Rightarrow> run \<Rightarrow> err + unit" where
  "participation_fence env db r =
     (if r_revoked r then Inl (denied ''Run authority revoked'')
      else case active_bot db (r_bot r) of
        None \<Rightarrow> Inl (denied ''Bot authority revoked'')
      | Some bt \<Rightarrow>
        (case live_binding db (r_binding r) (r_bot r) (r_conv r) of
           None \<Rightarrow> Inl (denied ''binding revoked'')
         | Some b \<Rightarrow>
             if bt_version bt \<noteq> r_bot_version r \<or> bd_version b \<noteq> r_binding_version r
             then Inl (denied ''participation authority changed'')
             else if \<not> settings_enabled (bd_settings b) then Inl (denied ''participation disabled'')
             else if \<not> controller_member db r (r_controller r) then Inl (denied ''controller membership lost'')
             else rbind (check_ids env db (run_access r) (r_visibility r \<noteq> ''personal'')) (\<lambda>_.
                  check_run_sources env db r)))"

definition authority_fence :: "bot_env \<Rightarrow> bot_db \<Rightarrow> run \<Rightarrow> int \<Rightarrow> int \<Rightarrow> err + unit" where
  "authority_fence env db r gen input =
     (if terminal_run r \<or> r_status r = ''stopping'' \<or> r_revoked r \<or> r_generation r \<noteq> gen \<or> r_input_version r \<noteq> input
      then Inl (superseded_by ''action execution authority superseded'')
      else if r_status r = ''waiting_authorization'' \<and> r_stage r \<noteq> ''pending_action''
      then Inl (suspended ''Run requires explicit takeover'')
      else rbind (unresolved_write_action db r) (\<lambda>_. participation_fence env db r))"

definition action_fence :: "bot_env \<Rightarrow> bot_db \<Rightarrow> run \<Rightarrow> int \<Rightarrow> int \<Rightarrow> err + unit" where
  "action_fence env db r gen input =
     rbind (authority_fence env db r gen input) (\<lambda>_. check_execution_lease env db r gen)"

section \<open>The tool\<close>

text \<open>The zero \<^verbatim>\<open>McpServer\<close>, which stands for the platform's own tools.\<close>

definition no_server :: mcp_server where
  "no_server = \<lparr>ms_id = [], ms_owner_type = [], ms_enabled = False, ms_transport = [], ms_url = [], ms_policies = Some [],
     ms_owner = None, ms_auth = None\<rparr>"

definition current_tool :: "bot_db \<Rightarrow> access \<Rightarrow> tool_ref \<Rightarrow> err + mcp_server" where
  "current_tool db ac tool =
     (if tr_server tool = ''runtime'' then
        if \<not> is_runtime_read_tool (tr_name tool) \<or> tr_risk tool \<noteq> ''read'' \<or> \<not> tr_share tool
        then Inl (denied ''unknown runtime action'')
        else (case active_bot db (ac_bot ac) of
                None \<Rightarrow> Inl (denied ''knowledge capability revoked'')
              | Some bt \<Rightarrow>
                  if tr_name tool \<noteq> ''read_conversation_history'' \<and> \<not> bt_knowledge bt
                  then Inl (denied ''knowledge capability revoked'')
                  else rbind (check_tool_permissions db ac
                         [tool\<lparr>tr_transport := [], tr_url := [], tr_target := [], tr_convs := []\<rparr>]) (\<lambda>_. Inr no_server))
      else if tr_server tool = ''builtin'' then
        if tr_name tool \<noteq> ''web_search'' \<or> tr_risk tool \<noteq> ''read'' then Inl (denied ''unknown builtin risk'')
        else Inr no_server
      else (case enabled_server db (tr_server tool) of
              None \<Rightarrow> Inl (denied ''tool resource revoked'')
            | Some s \<Rightarrow>
                if \<not> (\<exists>t\<in>set (b_assignments db). ta_bot t = ac_bot ac \<and> ta_server t = ms_id s \<and> ta_enabled t)
                then Inl (denied ''tool assignment revoked'')
                else rbind (check_tool_permissions db ac [tool]) (\<lambda>_. Inr s)))"

definition current_action_tool :: "bot_db \<Rightarrow> run \<Rightarrow> tool_ref \<Rightarrow> err + mcp_server" where
  "current_action_tool db r tool = current_tool db (run_access r) tool"

text \<open>
  \<open>actionTool\<close>: the frozen tool of the run, or, for a third-party executor, the one discovered now
  (\<open>discovered\<close>, the answer of the tool servers).
\<close>

definition action_tool ::
  "bot_db \<Rightarrow> (string \<Rightarrow> err + tool_ref list) \<Rightarrow> run \<Rightarrow> string \<Rightarrow> string \<Rightarrow> err + (tool_ref \<times> mcp_server)" where
  "action_tool db discovered r sid name =
     rbind (if r_executor r = ''third_party'' then discovered (r_bot r) else Inr (xc_tools (r_config r))) (\<lambda>tools.
     case find (\<lambda>t. tr_server t = sid \<and> tr_name t = name) tools of
       None \<Rightarrow> Inl (denied ''unknown or unassigned tool'')
     | Some t \<Rightarrow> rbind (current_action_tool db r t) (\<lambda>s. Inr (t, s)))"

section \<open>The scope of an action\<close>

definition principal_matches :: "run_action \<Rightarrow> run \<Rightarrow> bool" where
  "principal_matches a r \<longleftrightarrow> r_controller_member r = Some (ra_controller_member a) \<and> ra_controller a = r_controller r"

definition same_scope :: "run_action \<Rightarrow> run \<Rightarrow> bool" where
  "same_scope a r \<longleftrightarrow> principal_matches a r \<and> ra_run a = r_id r \<and> ra_bot a = r_bot r \<and> ra_binding a = r_binding r \<and>
     ra_requester a = r_requester r \<and> ra_input_version a = r_input_version r"

text \<open>\<open>actionSourcesCurrent\<close>: the sources are those the action was frozen with.\<close>

definition sources_current :: "bot_env \<Rightarrow> bot_db \<Rightarrow> run \<Rightarrow> run_action \<Rightarrow> err + unit" where
  "sources_current env db r a =
     (if ra_source_invalidated a then Inl (denied ''action source is no longer available'')
      else check_run_sources env db (r\<lparr>r_provenance := ra_provenance a\<rparr>))"

definition definition_current :: "bot_env \<Rightarrow> bot_db \<Rightarrow> run \<Rightarrow> run_action \<Rightarrow> err + unit" where
  "definition_current env db r a =
     (case ra_tool a of
        None \<Rightarrow> Inl (denied ''action definition changed'')
      | Some t \<Rightarrow>
          if tr_server t \<noteq> ra_server a \<or> tr_name t \<noteq> ra_tool_name a \<or> tr_definition t \<noteq> ra_definition a \<or> tr_risk t \<noteq> ra_risk a
          then Inl (denied ''action definition changed'')
          else rbind (current_action_tool db r t) (\<lambda>s.
            case canonical_tool_arguments env (ra_arguments a) s t of
              Inl _ \<Rightarrow> Inl (denied ''action parameters changed'')
            | Inr (doc, d) \<Rightarrow> ensure (d = ra_parameters a) (denied ''action parameters changed'')))"

definition current_scope :: "bot_env \<Rightarrow> bot_db \<Rightarrow> run \<Rightarrow> run_action \<Rightarrow> err + unit" where
  "current_scope env db r a =
     rbind (sources_current env db r a) (\<lambda>_.
     if r_revoked r \<or> r_status r = ''stopping'' \<or> \<not> same_scope a r \<or> ra_generation a \<noteq> r_generation r \<or> ra_expires a \<le> now env
     then Inl (denied ''action scope is no longer current'')
     else definition_current env db r a)"

section \<open>Approval\<close>

definition grant_principal :: "bot_db \<Rightarrow> action_grant \<Rightarrow> run \<Rightarrow> bool" where
  "grant_principal db g r \<longleftrightarrow> ag_requester g = r_requester r \<and> r_controller r = ag_requester g \<and>
     (case run_member db (r_conv r) (ag_requester g) of
        Inl _ \<Rightarrow> False | Inr (m, role) \<Rightarrow> m = ag_member g \<and> r_controller_member r = Some m)"

definition live_grant :: "bot_env \<Rightarrow> action_grant \<Rightarrow> bool" where
  "live_grant env g \<longleftrightarrow> ag_revoked g = None \<and> now env < ag_expires g"

text \<open>The call a standing permission is for.\<close>

definition grant_covers :: "action_grant \<Rightarrow> run \<Rightarrow> string \<Rightarrow> string \<Rightarrow> string \<Rightarrow> string \<Rightarrow> bool" where
  "grant_covers g r server tool hash_of params \<longleftrightarrow>
     ag_bot g = r_bot r \<and> ag_binding g = r_binding r \<and> ag_requester g = r_requester r \<and> ag_server g = server \<and>
     ag_tool g = tool \<and> ag_definition g = hash_of \<and> ag_parameters g = params \<and>
     ag_bot_version g = r_bot_version r \<and> ag_binding_version g = r_binding_version r"

text \<open>\<open>actionApprovalCurrent\<close>.\<close>

definition approval_current :: "bot_env \<Rightarrow> bot_db \<Rightarrow> run \<Rightarrow> run_action \<Rightarrow> mcp_server \<Rightarrow> err + unit" where
  "approval_current env db r a s =
     (if ra_expires a \<le> now env \<or> \<not> owned_server s (ra_approver a)
      then Inl (denied ''action approval expired or resource owner changed'')
      else case ra_grant a of
        None \<Rightarrow> Inr ()
      | Some i \<Rightarrow>
          (case find (\<lambda>g. ag_id g = i \<and> live_grant env g) (b_action_grants db) of
             None \<Rightarrow> Inl (denied ''automatic action permission expired or revoked'')
           | Some g \<Rightarrow>
               ensure (grant_principal db g r \<and> ag_conv g = r_conv r \<and> ag_owner g = ra_approver a \<and>
                   grant_covers g r (ra_server a) (ra_tool_name a) (ra_definition a) (ra_parameters a))
                 (denied ''automatic action scope changed'')))"

section \<open>Disclosure\<close>

text \<open>\<open>privateConfirmationSources\<close>: a personal run cites nothing that another user granted.\<close>

definition own_source :: "bot_env \<Rightarrow> bot_db \<Rightarrow> run \<Rightarrow> string \<Rightarrow> err + unit" where
  "own_source env db r i =
     (let own = (\<lambda>kind g. rbind (check_grant env db ((run_access r)\<lparr>ac_grants := [i]\<rparr>) kind (g_resource g) False) (\<lambda>c.
          ensure (g_owner c = r_requester r) (denied ''private action cannot re-share another owner's resource''))) in
      case find (\<lambda>g. g_id g = i) (b_file_grants db) of
        Some g \<Rightarrow> own ''file'' g
      | None \<Rightarrow>
          (case find (\<lambda>g. g_id g = i) (b_kb_grants db) of
             Some g \<Rightarrow> own ''knowledge'' g
           | None \<Rightarrow> Inl (denied ''private confirmation source unavailable'')))"

definition private_confirmation_sources :: "bot_env \<Rightarrow> bot_db \<Rightarrow> run \<Rightarrow> err + unit" where
  "private_confirmation_sources env db r =
     (if r_visibility r \<noteq> ''personal'' \<or> r_personal_user r \<noteq> Some (r_requester r) \<or> r_controller r \<noteq> r_requester r
      then Inl (denied ''private confirmation requester required'')
      else if \<not> controller_member db r (r_requester r) then Inl (denied ''private confirmation principal changed'')
      else check_all (own_source env db r) (sort_by str_le (r_grants r)))"

definition foreign_personal :: "run \<Rightarrow> string \<Rightarrow> bool" where
  "foreign_personal r user \<longleftrightarrow> r_visibility r = ''personal'' \<and> r_personal_user r \<noteq> Some user"

definition shared_with :: "run_action \<Rightarrow> string \<Rightarrow> bool" where
  "shared_with a user \<longleftrightarrow> ra_shared a \<noteq> None \<and> ra_shared_owner a = Some user"

definition disclosure_access :: "bot_env \<Rightarrow> service_checks \<Rightarrow> bot_db \<Rightarrow> run \<Rightarrow> run_action \<Rightarrow> string \<Rightarrow> err + unit" where
  "disclosure_access env sc db r a user =
     rbind (sources_current env db r a) (\<lambda>_.
     rbind (run_member db (r_conv r) user) (\<lambda>_.
     rbind (if foreign_personal r user then
              if \<not> shared_with a user \<or> \<not> action_owner env db (ra_server a) user
              then Inl (denied ''private action confirmation is not shared'')
              else private_confirmation_sources env db r
            else if r_visibility r \<noteq> ''personal'' then sc_visible sc r user else Inr ()) (\<lambda>_.
     rbind (sc_authorize sc r) (\<lambda>_. definition_current env db r a))))"

definition action_disclosure :: "bot_env \<Rightarrow> service_checks \<Rightarrow> bot_db \<Rightarrow> run \<Rightarrow> run_action \<Rightarrow> string \<Rightarrow> err + unit" where
  "action_disclosure env sc db r a user =
     rbind (disclosure_access env sc db r a user) (\<lambda>_. current_scope env db r a)"

end
