(* ===== verification/Action_Calls.thy ===== *)
theory Action_Calls
  imports Bot_Actions
begin

text \<open>
  The transactions of an action (\<^verbatim>\<open>run/actions.go\<close>, \<^verbatim>\<open>run/action_recovery.go\<close>, \<open>acceptKnowledgeOutcome\<close>
  of \<^verbatim>\<open>run/knowledge_tools.go\<close>), each the callback of a change of its run: \<open>prepare_action\<close> records a call,
  \<open>claim_action\<close> starts it, \<open>call_boundary\<close> is its last check before the call leaves the platform,
  \<open>record_outcome\<close> stores the answer, \<open>share_confirmation\<close> and \<open>decide_action\<close> are the users' part.
\<close>

definition minutes :: "int \<Rightarrow> int" where "minutes n = n * minute"

section \<open>Rebinding\<close>

text \<open>
  \<open>rebindAction\<close>: a recorded action joins the current generation of its run, and nothing else of it
  changes except that a permission which ended is taken back.
\<close>

definition completed_read :: "run_action \<Rightarrow> tool_ref \<Rightarrow> bool" where
  "completed_read a tool \<longleftrightarrow> tr_server tool = ''runtime'' \<and> is_runtime_read_tool (tr_name tool) \<and> ra_risk a = ''read'' \<and>
     ra_status a \<in> {''succeeded'', ''failed''}"

definition provenance_current :: "run_action \<Rightarrow> tool_ref \<Rightarrow> run \<Rightarrow> err + unit" where
  "provenance_current a tool r =
     (if completed_read a tool
      then ensure (set (ra_provenance a) \<subseteq> set (r_provenance r)) (denied ''completed knowledge source is outside current work'')
      else ensure (ra_provenance a = r_provenance r) (denied ''action provenance changed''))"

definition same_definition :: "run_action \<Rightarrow> tool_ref \<Rightarrow> string \<Rightarrow> bool" where
  "same_definition a tool digest \<longleftrightarrow> ra_tool a = Some tool \<and> ra_server a = tr_server tool \<and> ra_tool_name a = tr_name tool \<and>
     ra_risk a = tr_risk tool \<and> ra_definition a = tr_definition tool \<and> ra_parameters a = digest"

definition expire_action :: "bot_env \<Rightarrow> run_action \<Rightarrow> run_action" where
  "expire_action env a =
     (if ra_status a \<in> {''pending'', ''approved''} \<and> ra_expires a \<le> now env then a\<lparr>ra_status := ''expired''\<rparr> else a)"

definition withdraw_action :: "bot_env \<Rightarrow> bot_db \<Rightarrow> run \<Rightarrow> mcp_server \<Rightarrow> run_action \<Rightarrow> err + run_action" where
  "withdraw_action env db r s a =
     (if ra_status a = ''approved'' \<and> action_write (ra_risk a) then
        (case approval_current env db r a s of
           Inr _ \<Rightarrow> Inr a
         | Inl e \<Rightarrow> if status_code e \<noteq> PermissionDenied then Inl e else Inr (a\<lparr>ra_status := ''revoked''\<rparr>))
      else Inr a)"

definition park_pending :: "run \<Rightarrow> run" where
  "park_pending r = r\<lparr>r_status := ''waiting_authorization'', r_stage := ''pending_action'',
     r_waiting := ''action_approval_required''\<rparr>"

definition rebind_action ::
  "bot_env \<Rightarrow> run \<Rightarrow> run_action \<Rightarrow> tool_ref \<Rightarrow> mcp_server \<Rightarrow> string \<Rightarrow> bot_db \<Rightarrow> err + (run_action \<times> run \<times> bot_db)" where
  "rebind_action env r a tool s digest db =
     rbind (sources_current env db r a) (\<lambda>_.
     if \<not> same_scope a r then Inl (denied ''action input or principal changed'')
     else rbind (provenance_current a tool r) (\<lambda>_.
       if \<not> same_definition a tool digest
       then Inl (Status AlreadyExists ''action differs from its immutable definition or parameters'')
       else if ra_status a = ''executing'' \<or> ra_status a = ''unknown''
       then Inl (suspended ''action outcome unresolved; action cannot be rebound'')
       else rbind (withdraw_action env db r s (expire_action env a)) (\<lambda>a1.
         case canonical_tool_arguments env (ra_arguments a) s tool of
           Inl _ \<Rightarrow> Inl (denied ''durable action parameters changed'')
         | Inr (doc, stored) \<Rightarrow>
             if stored \<noteq> digest then Inl (denied ''durable action parameters changed'')
             else
               let a2 = a1\<lparr>ra_generation := r_generation r\<rparr>;
                   r1 = (if ra_generation a \<noteq> r_generation r \<and> ra_status a1 = ''pending'' then park_pending r else r)
               in Inr (a2, r1, if a2 = a then db else put_action a2 db))))"

section \<open>Recording a call\<close>

text \<open>The concrete target a call names, an argument of the tool.\<close>

definition action_target :: "tool_ref \<Rightarrow> json \<Rightarrow> err + string" where
  "action_target tool doc =
     (if tr_target tool = [] then Inr []
      else case doc of
        JObj m \<Rightarrow>
          (case map_of m (tr_target tool) of
             Some (JStr t) \<Rightarrow>
               if blank t \<or> length t > 2048 then Inl (invalid_argument ''action requires a bounded concrete string target'')
               else Inr t
           | _ \<Rightarrow> Inl (invalid_argument ''action requires a bounded concrete string target''))
      | _ \<Rightarrow> Inl (invalid_argument ''action requires a bounded concrete string target''))"

definition action_expiry :: "bot_env \<Rightarrow> int \<Rightarrow> err + int" where
  "action_expiry env expires =
     (let latest = now env + minutes 15 in
      if expires = 0 then Inr latest
      else if expires * second \<le> now env \<or> latest < expires * second
      then Inl (invalid_argument ''action request expiry must be within fifteen minutes'')
      else Inr (expires * second))"

definition usable_grant :: "bot_env \<Rightarrow> bot_db \<Rightarrow> run \<Rightarrow> mcp_server \<Rightarrow> run_action \<Rightarrow> action_grant \<Rightarrow> bool" where
  "usable_grant env db r s a g \<longleftrightarrow> r_requester r \<noteq> [] \<and> live_grant env g \<and>
     grant_covers g r (ra_server a) (ra_tool_name a) (ra_definition a) (ra_parameters a) \<and>
     owned_server s (ag_owner g) \<and> grant_principal db g r"

definition first_status :: "bot_env \<Rightarrow> bot_db \<Rightarrow> run \<Rightarrow> mcp_server \<Rightarrow> run_action \<Rightarrow> run_action" where
  "first_status env db r s a =
     (if \<not> action_write (ra_risk a) then a
      else case find (usable_grant env db r s a) (b_action_grants db) of
        None \<Rightarrow> a\<lparr>ra_status := ''pending''\<rparr>
      | Some g \<Rightarrow> a\<lparr>ra_approver := ag_owner g, ra_grant := Some (ag_id g), ra_expires := min (ra_expires a) (ag_expires g)\<rparr>)"

definition new_action ::
  "bot_env \<Rightarrow> run \<Rightarrow> tool_ref \<Rightarrow> json \<Rightarrow> string \<Rightarrow> string \<Rightarrow> string \<Rightarrow> int \<Rightarrow> string \<Rightarrow> string \<Rightarrow> run_action" where
  "new_action env r tool doc digest target key expiry member i =
     \<lparr>ra_id = i, ra_run = r_id r, ra_status = ''approved'', ra_risk = tr_risk tool, ra_generation = r_generation r,
      ra_claimed = None, ra_completed = None, ra_result = [], ra_source_invalidated = False, ra_tool = Some tool,
      ra_bot = r_bot r, ra_binding = r_binding r, ra_requester = r_requester r, ra_controller = r_controller r,
      ra_controller_member = member, ra_server = tr_server tool, ra_tool_name = tr_name tool,
      ra_definition = tr_definition tool, ra_parameters = digest, ra_arguments = json_encode env doc,
      ra_provenance = r_provenance r, ra_target = target, ra_key = key, ra_input_version = r_input_version r,
      ra_approver = [], ra_grant = None, ra_expires = expiry, ra_shared = None, ra_shared_owner = None,
      ra_created = now env\<rparr>"

definition record_action ::
  "bot_env \<Rightarrow> tool_ref \<Rightarrow> mcp_server \<Rightarrow> json \<Rightarrow> string \<Rightarrow> string \<Rightarrow> int \<Rightarrow> run_step_fn" where
  "record_action env tool s doc digest key expires r db =
     (if r_status r = ''waiting_authorization''
      then Inl (suspended ''pending action must be decided before another request'')
      else
        let (i, db1) = bot_id env db in
        rbind (action_target tool doc) (\<lambda>target.
        if action_write (tr_risk tool) \<and> tr_target tool = []
        then Inl (invalid_argument ''write action requires a configured concrete target'')
        else rbind (of_option nil_deref (r_controller_member r)) (\<lambda>member.
          rbind (action_expiry env expires) (\<lambda>expiry.
          let a = first_status env db r s (new_action env r tool doc digest target key expiry member i) in
          rbind (insert_action a db1) (\<lambda>db2.
          Inr (if ra_status a = ''pending'' then park_pending r else r, db2))))))"

definition prepare_action :: "bot_env \<Rightarrow> tool_ref \<Rightarrow> string \<Rightarrow> string \<Rightarrow> int \<Rightarrow> int \<Rightarrow> int \<Rightarrow> run_step_fn" where
  "prepare_action env tool arguments key expires gen input r db =
     rbind (action_fence env db r gen input) (\<lambda>_.
     rbind (current_action_tool db r tool) (\<lambda>s.
     rbind (canonical_tool_arguments env arguments s tool) (\<lambda>(doc, digest).
     case submitted_action db (r_id r) key of
       Some a \<Rightarrow> rbind (rebind_action env r a tool s digest db) (\<lambda>(a1, r1, db1). Inr (r1, db1))
     | None \<Rightarrow> record_action env tool s doc digest key expires r db)))"

section \<open>Calling\<close>

text \<open>
  The claim of \<open>invokeAction\<close>: a stored answer is replayed, an approved call is dispatched, and nothing
  else happens to an action.
\<close>

datatype invocation = Replayed string | Dispatched run_action

definition outcome_text :: "string \<Rightarrow> string \<Rightarrow> string \<Rightarrow> string" where
  "outcome_text st field text = ''{\"status\":\"'' @ st @ ''\",\"'' @ field @ ''\":\"'' @ text @ ''\"}''"

definition start_call :: "bot_env \<Rightarrow> mcp_server \<Rightarrow> run_action \<Rightarrow> run \<Rightarrow> bot_db \<Rightarrow> err + (invocation \<times> run \<times> bot_db)" where
  "start_call env s a r db =
     (if ra_status a = ''succeeded'' \<or> ra_status a = ''failed'' then Inr (Replayed (ra_result a), r, db)
      else if ra_status a = ''executing'' \<or> ra_status a = ''unknown''
      then Inl (suspended ''action outcome unknown; external write will not be replayed'')
      else if ra_status a = ''expired'' then Inl (denied ''action authorization expired'')
      else if ra_status a = ''denied'' \<or> ra_status a = ''revoked''
      then Inr (Replayed (''{\"status\":\"'' @ ra_status a @ ''\"}''), r, db)
      else if ra_status a \<noteq> ''approved'' then Inl (suspended ''concrete action is not approved'')
      else if ra_expires a \<le> now env then Inl (denied ''action authorization expired'')
      else rbind (if action_write (ra_risk a) then approval_current env db r a s else Inr ()) (\<lambda>_.
        let a1 = a\<lparr>ra_status := ''executing'', ra_claimed := Some (now env)\<rparr>
        in Inr (Dispatched a1, r\<lparr>r_stage := ''tool''\<rparr>, put_action a1 db)))"

definition claim_call ::
  "bot_env \<Rightarrow> string \<Rightarrow> tool_ref \<Rightarrow> int \<Rightarrow> int \<Rightarrow> run \<Rightarrow> bot_db \<Rightarrow> err + (invocation \<times> run \<times> bot_db)" where
  "claim_call env i tool gen input r db =
     rbind (action_fence env db r gen input) (\<lambda>_.
     rbind (current_action_tool db r tool) (\<lambda>s.
     rbind (of_option RecordNotFound (find_action db i)) (\<lambda>a.
     rbind (rebind_action env r a tool s (ra_parameters a) db) (\<lambda>(a1, r1, db1).
     start_call env s a1 r1 db1))))"

definition claim_action :: "bot_env \<Rightarrow> string \<Rightarrow> tool_ref \<Rightarrow> int \<Rightarrow> int \<Rightarrow> run_step_fn" where
  "claim_action env i tool gen input r db = map_sum id snd (claim_call env i tool gen input r db)"

text \<open>\<^verbatim>\<open>beforeCall\<close>: the claim is still the one that was made (\<open>a\<close>), and so is everything it rests on.\<close>

definition call_boundary :: "bot_env \<Rightarrow> run_action \<Rightarrow> tool_ref \<Rightarrow> run_step_fn" where
  "call_boundary env a tool r db =
     rbind (action_fence env db r (ra_generation a) (ra_input_version a)) (\<lambda>_.
     rbind (current_action_tool db r tool) (\<lambda>s.
     case find (\<lambda>x. ra_id x = ra_id a \<and> ra_status x = ''executing'') (b_actions db) of
       None \<Rightarrow> Inl (denied ''action execution claim unavailable'')
     | Some live \<Rightarrow>
         rbind (sources_current env db r live) (\<lambda>_.
         if \<not> principal_matches live r \<or> ra_expires live \<le> now env \<or> ra_parameters live \<noteq> ra_parameters a \<or>
            ra_generation live \<noteq> r_generation r \<or> ra_input_version live \<noteq> r_input_version r
         then Inl (denied ''claimed action scope superseded'')
         else rbind (if action_write (ra_risk live) then approval_current env db r live s else Inr ()) (\<lambda>_.
           Inr (r, db)))))"

section \<open>Recording the answer\<close>

record knowledge_outcome =
  ko_result :: string
  ko_failed :: bool
  ko_materials :: "material list"
  ko_sources :: "json list"
  ko_versions :: "source_version list"

text \<open>What \<open>invokeAction\<close> makes of a call: the status it ended with and the text that is kept.\<close>

definition outcome_status :: "run_action \<Rightarrow> bool \<Rightarrow> knowledge_outcome option \<Rightarrow> string" where
  "outcome_status a call_failed outcome =
     (if call_failed then if ra_risk a = ''read'' \<or> ra_risk a = ''draft'' then ''failed'' else ''unknown''
      else case outcome of None \<Rightarrow> ''succeeded'' | Some k \<Rightarrow> if ko_failed k then ''failed'' else ''succeeded'')"

definition outcome_result ::
  "bot_env \<Rightarrow> run_action \<Rightarrow> bool \<Rightarrow> knowledge_outcome option \<Rightarrow> string \<Rightarrow> string" where
  "outcome_result env a call_failed outcome answer =
     (let st = outcome_status a call_failed outcome;
          r0 = (if call_failed then outcome_text st ''error'' ''tool invocation did not produce a confirmed success''
                else case outcome of None \<Rightarrow> answer | Some k \<Rightarrow> ko_result k);
          r1 = (if length r0 > result_limit
                then outcome_text st ''result'' ''omitted: tool result exceeded work budget'' else r0)
      in case outcome of
           Some k \<Rightarrow> r1
         | None \<Rightarrow> (case json_any env r1 of None \<Rightarrow> r1 | Some v \<Rightarrow> json_encode env (redact env v)))"

text \<open>\<open>acceptKnowledgeOutcome\<close>: a reading and its evidence are one fact.\<close>

definition accept_outcome ::
  "bot_env \<Rightarrow> knowledge_outcome option \<Rightarrow> run_action \<Rightarrow> run \<Rightarrow> bot_db \<Rightarrow> err + (run_action \<times> run)" where
  "accept_outcome env outcome a r db =
     (case outcome of
        None \<Rightarrow> Inr (a, r)
      | Some k \<Rightarrow>
          rbind (action_fence env db r (ra_generation a) (ra_input_version a)) (\<lambda>_.
          rbind (of_option (Plain ''json: cannot unmarshal tool definition'') (ra_tool a)) (\<lambda>tool.
          rbind (current_action_tool db r tool) (\<lambda>_.
          let r1 = r\<lparr>r_materials := r_materials r @ ko_materials k, r_sources := r_sources r @ ko_sources k,
                     r_provenance := r_provenance r @ ko_versions k\<rparr>
          in rbind (check_run_sources env db r1) (\<lambda>_.
             Inr (a\<lparr>ra_provenance := r_provenance r1\<rparr>, r1))))))"

definition park_unknown :: "run \<Rightarrow> run" where
  "park_unknown r = r\<lparr>r_status := ''waiting_authorization'', r_stage := ''action_outcome_unknown'',
     r_waiting := ''action_outcome_unknown'', r_stream_status := ''closed''\<rparr>"

definition same_claim :: "run_action \<Rightarrow> run_action \<Rightarrow> bool" where
  "same_claim a live \<longleftrightarrow> ra_status live = ''executing'' \<and> ra_generation live = ra_generation a \<and>
     ra_input_version live = ra_input_version a \<and> ra_parameters live = ra_parameters a \<and> ra_definition live = ra_definition a"

definition record_outcome :: "bot_env \<Rightarrow> run_action \<Rightarrow> string \<Rightarrow> string \<Rightarrow> knowledge_outcome option \<Rightarrow> run_step_fn" where
  "record_outcome env a st result outcome r db =
     rbind (check_execution_lease env db r (ra_generation a)) (\<lambda>_.
     rbind (of_option RecordNotFound (run_action_row db (ra_id a) (r_id r))) (\<lambda>live.
     if \<not> same_claim a live then Inl (superseded_by ''action receipt claim superseded'')
     else
       let live1 = live\<lparr>ra_status := st, ra_completed := Some (now env)\<rparr> in
       rbind (if ra_source_invalidated live then Inr (live1, r)
              else rbind (accept_outcome env outcome live1 r db) (\<lambda>(a1, r1). Inr (a1\<lparr>ra_result := result\<rparr>, r1))) (\<lambda>(a1, r1).
       Inr (if st = ''unknown'' \<and> \<not> terminal_run r \<and> r_status r \<noteq> ''stopping'' then park_unknown r1 else r1,
            put_action a1 db))))"

text \<open>What \<open>invokeAction\<close> answers once the fact is stored (\<open>a\<close> is the row as it is then).\<close>

definition call_answer :: "run_action \<Rightarrow> tool_ref \<Rightarrow> string \<Rightarrow> string \<Rightarrow> err option \<Rightarrow> string \<times> err option" where
  "call_answer a tool st result call_err =
     (if ra_source_invalidated a then ([], Some (denied ''action source is no longer available''))
      else if st = ''unknown'' then (result, Some (suspended ''action outcome unknown; human reconciliation required''))
      else case call_err of
        None \<Rightarrow> (result, None)
      | Some e \<Rightarrow>
          if tr_server tool = ''runtime'' \<and> is_runtime_read_tool (tr_name tool) then ([], Some e)
          else (result, Some (Status Unavailable ''tool invocation failed'')))"

section \<open>The users' part\<close>

definition share_confirmation :: "bot_env \<Rightarrow> string \<Rightarrow> run_action \<Rightarrow> run_step_fn" where
  "share_confirmation env user a r db =
     (if r_personal_user r \<noteq> Some user \<or> r_requester r \<noteq> user
      then Inl (denied ''only private requester may share confirmation'')
      else
        rbind (authority_fence env db r (ra_generation a) (ra_input_version a)) (\<lambda>_.
        rbind (private_confirmation_sources env db r) (\<lambda>_.
        rbind (of_option RecordNotFound (run_action_row db (ra_id a) (r_id r))) (\<lambda>live.
        if ra_status live \<noteq> ''pending'' then Inl (suspended ''only pending confirmation may be shared'')
        else
          rbind (current_scope env db r live) (\<lambda>_.
          rbind (of_option RecordNotFound (enabled_server db (ra_server live))) (\<lambda>s.
          if ms_owner_type s \<noteq> ''user'' \<or> ms_owner s = None
          then Inl (denied ''confirmation requires a tool resource owner'')
          else Inr (r, put_action (live\<lparr>ra_shared := Some (now env), ra_shared_owner := ms_owner s\<rparr>) db)))))))"

record action_request =
  aq_op :: string
  aq_run :: string
  aq_action :: string
  aq_grant :: string
  aq_bot :: string
  aq_conv :: string
  aq_server :: string
  aq_tool :: string
  aq_arguments :: string
  aq_generation :: int
  aq_input_version :: int
  aq_key :: string
  aq_expires :: int

definition decision_ops :: "string list" where
  "decision_ops = [''approve'', ''deny'', ''revoke'']"

definition desired_status :: "string \<Rightarrow> string" where
  "desired_status op =
     (if op = ''approve'' then ''approved'' else if op = ''deny'' then ''denied'' else if op = ''revoke'' then ''revoked'' else [])"

text \<open>A request that repeats the tool and the parameters of an action must repeat them exactly.\<close>

definition same_tool :: "action_request \<Rightarrow> run_action \<Rightarrow> bool" where
  "same_tool q a \<longleftrightarrow> (aq_server q \<noteq> [] \<longrightarrow> aq_server q = ra_server a) \<and> (aq_tool q \<noteq> [] \<longrightarrow> aq_tool q = ra_tool_name a)"

definition same_parameters :: "bot_env \<Rightarrow> action_request \<Rightarrow> run_action \<Rightarrow> mcp_server \<Rightarrow> err + unit" where
  "same_parameters env q a s =
     (if aq_arguments q = [] then Inr ()
      else rbind (canonical_arguments env (aq_arguments q) s) (\<lambda>(doc, d).
        ensure (d = ra_parameters a) (denied ''parameters differ from exact action authorization'')))"

text \<open>\<^verbatim>\<open>actionDecision\<close>'s \<^verbatim>\<open>apply\<close>: the decision itself, on the row it meets.\<close>

definition settle_decision :: "bot_env \<Rightarrow> string \<Rightarrow> action_request \<Rightarrow> run_action \<Rightarrow> run_step_fn" where
  "settle_decision env user q a r db =
     (let desired = desired_status (aq_op q) in
      if ra_status a = desired \<or>
         (aq_op q = ''approve'' \<and> ra_status a \<in> {''executing'', ''succeeded'', ''failed'', ''unknown''})
      then Inr (r, db)
      else if ra_status a \<noteq> ''pending'' \<and> \<not> (aq_op q = ''revoke'' \<and> ra_status a = ''approved'')
      then Inl (suspended ''action decision already final'')
      else if aq_expires q \<noteq> 0 \<and> (aq_expires q * second \<le> now env \<or> ra_expires a < aq_expires q * second)
      then Inl (invalid_argument ''approval cannot extend action lifetime'')
      else
        let a1 = a\<lparr>ra_expires := (if aq_expires q \<noteq> 0 then aq_expires q * second else ra_expires a),
                   ra_status := desired, ra_approver := user\<rparr>;
            db1 = put_action a1 db
        in if r_status r = ''waiting_authorization'' \<and> r_stage r = ''pending_action''
           then let r1 = r\<lparr>r_status := ''running'', r_stage := ''action_decided'', r_waiting := []\<rparr>
                in Inr (r1, if r_executor r = ''builtin'' then queue_next env r1 ''execute'' db1 else db1)
           else Inr (r, db1))"

definition decide_action :: "bot_env \<Rightarrow> string \<Rightarrow> action_request \<Rightarrow> tool_ref \<Rightarrow> run_action \<Rightarrow> run_step_fn" where
  "decide_action env user q tool a r db =
     rbind (authority_fence env db r (ra_generation a) (ra_input_version a)) (\<lambda>_.
     rbind (current_action_tool db r tool) (\<lambda>s.
     if aq_generation q \<noteq> ra_generation a \<or> aq_input_version q \<noteq> ra_input_version a
     then Inl (superseded_by ''action version mismatch'')
     else if \<not> same_tool q a then Inl (denied ''action tool differs from exact authorization'')
     else
       rbind (same_parameters env q a s) (\<lambda>_.
       rbind (current_scope env db r a) (\<lambda>_.
       if ra_definition a \<noteq> tr_definition tool then Inl (denied ''action definition changed'')
       else settle_decision env user q a r db))))"

text \<open>
  One round of \<open>actionDecision\<close>: the rights of the user on the locked rows, then the receipt of an earlier
  decision with the key, or the decision with its own receipt. \<open>digest\<close> is the hash of the request.
\<close>

definition decision_key :: "string \<Rightarrow> action_request \<Rightarrow> string" where
  "decision_key user q = ''action-decision:'' @ user @ '':'' @ aq_key q"

definition decision_rights :: "bot_env \<Rightarrow> string \<Rightarrow> run_action \<Rightarrow> run \<Rightarrow> bot_db \<Rightarrow> err + unit" where
  "decision_rights env user a r db =
     rbind (participation_fence env db r) (\<lambda>_.
     rbind (sources_current env db r a) (\<lambda>_.
     rbind (definition_current env db r a) (\<lambda>_.
     rbind (run_member db (r_conv r) user) (\<lambda>_.
     rbind (if foreign_personal r user then
              if \<not> shared_with a user then Inl (denied ''private confirmation no longer shared with owner'')
              else private_confirmation_sources env db r
            else Inr ()) (\<lambda>_.
     rbind (of_option RecordNotFound (enabled_server db (ra_server a))) (\<lambda>s.
     ensure (owned_server s user) (denied ''action resource ownership changed'')))))))"

definition action_changed :: err where
  "action_changed = Plain ''action changed during decision authorization''"

definition decide_once ::
  "bot_env \<Rightarrow> run \<Rightarrow> string \<Rightarrow> string \<Rightarrow> action_request \<Rightarrow> tool_ref \<Rightarrow> string \<Rightarrow> bot_db \<Rightarrow> err + (run_action \<times> bot_db)" where
  "decide_once env checked i user q tool digest db =
     rbind (lock_run_conversation db (r_conv checked)) (\<lambda>_.
     rbind (lock_delegation_tree db checked) (\<lambda>_.
     rbind (of_option RecordNotFound (find (\<lambda>x. ia_id x = r_interaction checked) (b_interactions db))) (\<lambda>ia.
     rbind (get_run db (r_id checked)) (\<lambda>r.
     if r_version r \<noteq> r_version checked then Inl action_changed
     else
       rbind (of_option RecordNotFound (run_action_row db i (r_id r))) (\<lambda>a.
       rbind (decision_rights env user a r db) (\<lambda>_.
       case find_receipt db (r_id r) (decision_key user q) of
         Some p \<Rightarrow>
           if rc_hash p \<noteq> digest then Inl (Status AlreadyExists ''action decision key has different content'')
           else Inr (a, db)
       | None \<Rightarrow>
           if terminal_run r \<or> ia_status ia \<noteq> ''active''
           then Inl (suspended ''Run no longer accepts new action decisions'')
           else
             rbind (decide_action env user q tool a r db) (\<lambda>(r1, db1).
             rbind (commit_run env (r_stage r) r1 db1) (\<lambda>(r2, db2).
             rbind (put_receipt env (r_id r) (decision_key user q) digest db2) (\<lambda>db3.
             Inr ((case run_action_row db3 i (r_id r) of None \<Rightarrow> a | Some a1 \<Rightarrow> a1), db3))))))))))"

end
