(* ===== verification/Action_Service.thy ===== *)
theory Action_Service
  imports Action_Calls
begin

text \<open>
  The actions as the users and the executors of the service see them: \<open>publicAction\<close>,
  \<open>decorateActions\<close>, \<open>ownerActions\<close>, \<open>actionGrantAuthorization\<close> and \<open>ActionAuthorization\<close> of
  \<^verbatim>\<open>run/actions.go\<close>. A request is answered on one state of the tables; what other services say
  (\<open>service_checks\<close>, the membership of a conversation, the tools a server offers) is given. The call
  of an action itself is not part of its answer: \<open>Callable\<close> is where \<open>claim_action\<close> takes over.
\<close>

section \<open>Views\<close>

record public_action =
  pa_id :: string
  pa_run :: string
  pa_tool :: string
  pa_server :: string
  pa_risk :: string
  pa_target :: string
  pa_parameters :: string
  pa_status :: string
  pa_expires :: int
  pa_generation :: int
  pa_input_version :: int
  pa_approve :: bool
  pa_shared :: bool
  pa_share :: bool
  pa_result :: string

definition redacted_parameters :: string where
  "redacted_parameters = ''{\"redacted\":true}''"

definition shown_status :: "bot_env \<Rightarrow> run_action \<Rightarrow> string" where
  "shown_status env a =
     (if ra_status a \<in> {''pending'', ''approved''} \<and> ra_expires a \<le> now env then ''expired'' else ra_status a)"

text \<open>The three readers that see more than the bare action.\<close>

definition sources_valid :: "bot_env \<Rightarrow> bot_db \<Rightarrow> run_action \<Rightarrow> run \<Rightarrow> bool" where
  "sources_valid env db a r \<longleftrightarrow> is_ok (sources_current env db r a)"

definition runtime_reader :: "bot_env \<Rightarrow> service_checks \<Rightarrow> bot_db \<Rightarrow> run_action \<Rightarrow> string \<Rightarrow> run \<Rightarrow> bool" where
  "runtime_reader env sc db a user r \<longleftrightarrow> sources_valid env db a r \<and> ra_server a = ''runtime'' \<and>
     is_runtime_read_tool (ra_tool_name a) \<and> is_ok (sc_visible sc r user) \<and>
     is_ok (if r_visibility r \<noteq> ''personal'' then sc_share sc r else sc_authorize sc r)"

definition personal_requester :: "bot_env \<Rightarrow> service_checks \<Rightarrow> bot_db \<Rightarrow> run_action \<Rightarrow> string \<Rightarrow> run \<Rightarrow> bool" where
  "personal_requester env sc db a user r \<longleftrightarrow> sources_valid env db a r \<and> r_visibility r = ''personal'' \<and>
     r_personal_user r = Some user \<and> is_ok (sc_visible sc r user)"

definition confirming_owner :: "bot_env \<Rightarrow> service_checks \<Rightarrow> bot_db \<Rightarrow> run_action \<Rightarrow> string \<Rightarrow> run \<Rightarrow> bool" where
  "confirming_owner env sc db a user r \<longleftrightarrow>
     action_owner env db (ra_server a) user \<and> is_ok (action_disclosure env sc db r a user)"

definition run_living :: "run \<Rightarrow> bool" where
  "run_living r \<longleftrightarrow> \<not> terminal_run r \<and> r_status r \<noteq> ''stopping''"

definition shown_parameters :: "bot_env \<Rightarrow> run_action \<Rightarrow> string" where
  "shown_parameters env a =
     (case json_first env (ra_arguments a) of None \<Rightarrow> redacted_parameters | Some (v, rest) \<Rightarrow> json_encode env (redact env v))"

definition action_server :: "bot_db \<Rightarrow> run_action \<Rightarrow> mcp_server" where
  "action_server db a = (case find (\<lambda>s. ms_id s = ra_server a) (b_servers db) of None \<Rightarrow> no_server | Some s \<Rightarrow> s)"

definition cleaned_result :: "bot_env \<Rightarrow> mcp_server \<Rightarrow> string \<Rightarrow> string" where
  "cleaned_result env s text =
     (case json_first env text of
        Some (v, rest) \<Rightarrow> json_encode env (fold (\<lambda>x. redact_secret x env) (auth_secrets s) (redact env v))
      | None \<Rightarrow> fold (\<lambda>x. replace_all x redacted) (auth_secrets s) text)"

definition final_statuses :: "string list" where
  "final_statuses = [''succeeded'', ''failed'', ''unknown'', ''denied'', ''revoked'']"

definition bare_action :: "bot_env \<Rightarrow> run_action \<Rightarrow> public_action" where
  "bare_action env a =
     \<lparr>pa_id = ra_id a, pa_run = ra_run a, pa_tool = ra_tool_name a, pa_server = ra_server a, pa_risk = ra_risk a,
      pa_target = redacted, pa_parameters = redacted_parameters, pa_status = shown_status env a,
      pa_expires = unix (ra_expires a), pa_generation = ra_generation a, pa_input_version = ra_input_version a,
      pa_approve = False, pa_shared = (ra_shared a \<noteq> None), pa_share = False, pa_result = []\<rparr>"

definition view_of_run :: "bot_env \<Rightarrow> service_checks \<Rightarrow> bot_db \<Rightarrow> run_action \<Rightarrow> string \<Rightarrow> run \<Rightarrow> public_action" where
  "view_of_run env sc db a user r =
     (let runtime = runtime_reader env sc db a user r;
          personal = personal_requester env sc db a user r;
          owner = confirming_owner env sc db a user r;
          st = shown_status env a;
          full = (personal \<or> owner \<or> runtime);
          sees_result = ((personal \<or> (owner \<and> r_visibility r \<noteq> ''personal'') \<or> runtime) \<and> st \<in> set final_statuses)
      in (bare_action env a)
           \<lparr>pa_target := (if full then ra_target a else redacted),
            pa_parameters := (if full then shown_parameters env a else redacted_parameters),
            pa_approve := (owner \<and> st = ''pending'' \<and> run_living r),
            pa_result := (if \<not> sees_result then [] else if runtime then ra_result a
                          else cleaned_result env (action_server db a) (ra_result a)),
            pa_share := (personal \<and> st = ''pending'' \<and> run_living r \<and> is_ok (sc_authorize sc r) \<and>
                         is_ok (private_confirmation_sources env db r) \<and> is_ok (current_scope env db r a))\<rparr>)"

definition view_action :: "bot_env \<Rightarrow> service_checks \<Rightarrow> bot_db \<Rightarrow> string \<Rightarrow> run_action \<Rightarrow> public_action" where
  "view_action env sc db user a =
     (if ra_source_invalidated a then bare_action env a
      else case find_run db (ra_run a) of
        None \<Rightarrow> bare_action env a
      | Some r \<Rightarrow> view_of_run env sc db a user r)"

text \<open>The actions of a run, oldest first.\<close>

definition earlier_action :: "run_action \<Rightarrow> run_action \<Rightarrow> bool" where
  "earlier_action a b \<longleftrightarrow> ra_created a < ra_created b \<or> (ra_created a = ra_created b \<and> str_le (ra_id a) (ra_id b))"

definition list_actions :: "bot_env \<Rightarrow> service_checks \<Rightarrow> bot_db \<Rightarrow> string \<Rightarrow> string \<Rightarrow> public_action list" where
  "list_actions env sc db user rid =
     map (view_action env sc db user) (sort_by earlier_action (filter (\<lambda>a. ra_run a = rid) (b_actions db)))"

section \<open>The inbox of a tool's owner\<close>

definition inbox_row :: "bot_env \<Rightarrow> bot_db \<Rightarrow> string \<Rightarrow> string \<Rightarrow> string \<Rightarrow> string \<Rightarrow> run_action \<Rightarrow> bool" where
  "inbox_row env db user b0 cid rid a \<longleftrightarrow>
     ra_bot a = b0 \<and> now env < ra_expires a \<and> (rid \<noteq> [] \<longrightarrow> ra_run a = rid) \<and>
     (case find_run db (ra_run a) of None \<Rightarrow> False
      | Some r \<Rightarrow> r_conv r = cid \<and> (r_visibility r \<noteq> ''personal'' \<or> shared_with a user \<or> r_personal_user r = Some user)) \<and>
     (case enabled_server db (ra_server a) of None \<Rightarrow> False | Some s \<Rightarrow> owned_server s user)"

fun collect_views ::
  "bot_env \<Rightarrow> service_checks \<Rightarrow> bot_db \<Rightarrow> string \<Rightarrow> run_action list \<Rightarrow> public_action list \<Rightarrow> err + public_action list" where
  "collect_views env sc db user [] views = Inr views"
| "collect_views env sc db user (a # rows) views =
     (if length views = 100 then Inr views
      else case find_run db (ra_run a) of
        None \<Rightarrow> collect_views env sc db user rows views
      | Some r \<Rightarrow>
          rbind (sc_refresh sc r) (\<lambda>_.
          collect_views env sc db user rows
            (if is_ok (action_disclosure env sc db r a user) then views @ [view_action env sc db user a] else views)))"

definition owner_actions ::
  "bot_env \<Rightarrow> service_checks \<Rightarrow> (string \<Rightarrow> string \<Rightarrow> err + unit) \<Rightarrow> bot_db \<Rightarrow> string \<Rightarrow> string \<Rightarrow> string \<Rightarrow> string \<Rightarrow>
   err + public_action list" where
  "owner_actions env sc member db user b0 cid rid =
     rbind (member user cid) (\<lambda>_.
     collect_views env sc db user
       (sort_by (\<lambda>a b. earlier_action b a) (filter (inbox_row env db user b0 cid rid) (b_actions db))) [])"

section \<open>Standing permissions\<close>

record grant_view =
  gv_id :: string
  gv_bot :: string
  gv_conv :: string
  gv_server :: string
  gv_tool :: string
  gv_expires :: int
  gv_revoked :: bool

definition view_grant :: "action_grant \<Rightarrow> grant_view" where
  "view_grant g = \<lparr>gv_id = ag_id g, gv_bot = ag_bot g, gv_conv = ag_conv g, gv_server = ag_server g, gv_tool = ag_tool g,
     gv_expires = unix (ag_expires g), gv_revoked = (ag_revoked g \<noteq> None)\<rparr>"

definition owned_grant :: "bot_db \<Rightarrow> string \<Rightarrow> string \<Rightarrow> action_grant option" where
  "owned_grant db i user = find (\<lambda>g. ag_id g = i \<and> ag_owner g = user) (b_action_grants db)"

definition revoke_action_grant :: "bot_env \<Rightarrow> string \<Rightarrow> string \<Rightarrow> bot_db \<Rightarrow> err + (action_grant \<times> bot_db)" where
  "revoke_action_grant env user i db =
     (if \<not> valid_id env i then Inl (invalid_argument ''valid grant_id required'')
      else
        rbind (of_option RecordNotFound (owned_grant db i user)) (\<lambda>g.
        rbind (of_option RecordNotFound (enabled_server db (ag_server g))) (\<lambda>s.
        if \<not> owned_server s user then Inl (denied ''current resource owner required'')
        else if ag_revoked g \<noteq> None then Inr (g, db)
        else
          let g1 = g\<lparr>ag_revoked := Some (now env)\<rparr>
          in Inr (g1, db\<lparr>b_action_grants := update_where (\<lambda>x. ag_id x = i) (\<lambda>_. g1) (b_action_grants db)\<rparr>))))"

definition grant_lifetime :: int where
  "grant_lifetime = 30 * 24 * 60 * minute"

text \<open>The exact call, the binding and the owner as the only requester: no wildcard, no delegation.\<close>

definition insert_action_grant ::
  "bot_env \<Rightarrow> string \<Rightarrow> action_request \<Rightarrow> tool_ref \<Rightarrow> bot_db \<Rightarrow> err + (action_grant \<times> bot_db)" where
  "insert_action_grant env user q tool db =
     rbind (of_option RecordNotFound
       (find (\<lambda>b. bd_bot b = aq_bot q \<and> bd_conv b = aq_conv q \<and> bd_revoked b = None) (b_bindings db))) (\<lambda>b.
     rbind (of_option RecordNotFound (active_bot db (aq_bot q))) (\<lambda>bt.
     rbind (current_tool db \<lparr>ac_bot = aq_bot q, ac_conv = aq_conv q, ac_binding = bd_id b, ac_requester = [],
         ac_visibility = ''personal'', ac_grants = []\<rparr> tool) (\<lambda>s.
     if \<not> owned_server s user then Inl (denied ''resource ownership changed'')
     else
       rbind (canonical_arguments env (aq_arguments q) s) (\<lambda>(doc, digest).
       let (i, db1) = bot_id env db in
       rbind (run_member db1 (aq_conv q) user) (\<lambda>(m, role).
       if \<exists>x\<in>set (b_action_grants db1). ag_id x = i then Inl (Violation ''action_grants_pkey'')
       else
         let g = \<lparr>ag_id = i, ag_bot = aq_bot q, ag_conv = aq_conv q, ag_binding = bd_id b, ag_owner = user,
                   ag_requester = user, ag_member = m, ag_server = aq_server q, ag_tool = aq_tool q,
                   ag_definition = tr_definition tool, ag_parameters = digest, ag_bot_version = bt_version bt,
                   ag_binding_version = bd_version b, ag_expires = aq_expires q * second, ag_revoked = None,
                   ag_created = now env\<rparr>
         in Inr (g, db1\<lparr>b_action_grants := b_action_grants db1 @ [g]\<rparr>))))))"

definition create_action_grant ::
  "bot_env \<Rightarrow> (string \<Rightarrow> err + tool_ref list) \<Rightarrow> string \<Rightarrow> action_request \<Rightarrow> bot_db \<Rightarrow> err + (action_grant \<times> bot_db)" where
  "create_action_grant env discovered user q db =
     (if \<not> action_owner env db (aq_server q) user
      then Inl (denied ''only tool resource owner may grant scoped action permission'')
      else if aq_expires q * second \<le> now env \<or> now env + grant_lifetime < aq_expires q * second
      then Inl (invalid_argument ''action grant requires bounded expiry'')
      else rbind (discovered (aq_bot q)) (\<lambda>tools.
        case find (\<lambda>t. tr_server t = aq_server q \<and> tr_name t = aq_tool q) tools of
          None \<Rightarrow> Inl (invalid_argument ''grant requires assigned concrete write tool'')
        | Some t \<Rightarrow>
            if \<not> action_write (tr_risk t) then Inl (invalid_argument ''grant requires assigned concrete write tool'')
            else insert_action_grant env user q t db))"

section \<open>Requests\<close>

text \<open>\<open>decodeActionRequest\<close>: \<open>parse\<close> is the strict decoder, with whether anything follows the value.\<close>

definition decode_action_request ::
  "(string \<Rightarrow> (action_request \<times> bool) option) \<Rightarrow> string \<Rightarrow> err + action_request" where
  "decode_action_request parse body =
     (if length body > 65536 then Inl (invalid_argument ''action request too large'')
      else case parse body of
        None \<Rightarrow> Inl (invalid_argument ''invalid action request'')
      | Some (q, rest) \<Rightarrow>
          if rest then Inl (invalid_argument ''trailing action content'')
          else if length (aq_key q) > 256 \<or> length (aq_tool q) > 256
          then Inl (invalid_argument ''action identity too large'') else Inr q)"

datatype action_reply =
  Views "public_action list"
| View public_action
| Grant_View grant_view
| Grant_Views "grant_view list" "public_action list"
| Callable run_action tool_ref

definition grant_authorization ::
  "bot_env \<Rightarrow> service_checks \<Rightarrow> (string \<Rightarrow> string \<Rightarrow> err + unit) \<Rightarrow> (string \<Rightarrow> err + tool_ref list) \<Rightarrow> string \<Rightarrow>
   action_request \<Rightarrow> bot_db \<Rightarrow> err + (action_reply \<times> bot_db)" where
  "grant_authorization env sc member discovered user q db =
     (if aq_op q = ''revoke''
      then rbind (revoke_action_grant env user (aq_grant q) db) (\<lambda>(g, db1). Inr (Grant_View (view_grant g), db1))
      else if \<not> valid_id env (aq_bot q) \<or> \<not> valid_id env (aq_conv q)
      then Inl (invalid_argument ''valid bot and conversation required'')
      else
        rbind (member user (aq_conv q)) (\<lambda>_.
        if aq_op q = ''list'' then
          rbind (owner_actions env sc member db user (aq_bot q) (aq_conv q) []) (\<lambda>views.
          Inr (Grant_Views
            (map view_grant (sort_by (\<lambda>g h. ag_created g < ag_created h \<or> (ag_created g = ag_created h \<and> str_le (ag_id g) (ag_id h)))
              (filter (\<lambda>g. ag_bot g = aq_bot q \<and> ag_conv g = aq_conv q \<and> ag_owner g = user) (b_action_grants db)))) views, db))
        else if aq_op q \<noteq> ''grant''
        then Inl (denied ''only tool resource owner may grant scoped action permission'')
        else rbind (create_action_grant env discovered user q db) (\<lambda>(g, db1). Inr (Grant_View (view_grant g), db1))))"

text \<open>Who asks, and for which run.\<close>

definition request_scope :: "bot_env \<Rightarrow> service_checks \<Rightarrow> string \<Rightarrow> string \<Rightarrow> action_request \<Rightarrow> bot_db \<Rightarrow> err + run" where
  "request_scope env sc user executor q db =
     (let rid = (if executor = [] \<and> aq_run q = [] \<and> valid_id env (aq_action q) \<and>
                    aq_op q \<in> {''share_confirmation'', ''approve'', ''deny'', ''revoke''}
                 then rbind (of_option RecordNotFound (find_action db (aq_action q))) (\<lambda>a. Inr (ra_run a))
                 else Inr (aq_run q))
      in rbind rid (\<lambda>i.
         if \<not> valid_id env i then Inl (invalid_argument ''valid run_id required'')
         else rbind (get_run db i) (\<lambda>r.
           rbind (if executor \<noteq> [] then
                    if r_executor r \<noteq> ''third_party'' \<or> r_bot r \<noteq> executor then Inl (denied ''executor does not own Run'')
                    else if r_executor_status r \<noteq> ''accepted'' \<and> r_executor_status r \<noteq> ''stop_rejected''
                    then Inl (suspended ''executor must claim Run before resource actions'')
                    else ensure (aq_generation q = r_generation r \<and> aq_input_version q = r_input_version r)
                           (superseded_by ''stale executor action'')
                  else if \<not> foreign_personal r user then sc_visible sc r user
                  else ensure (aq_op q \<in> {''list'', ''approve'', ''deny'', ''revoke''}) (denied ''personal Run is not visible'')) (\<lambda>_.
           sc_refresh sc r))))"

text \<open>The action a request is about, which an executor has to name exactly.\<close>

definition request_action :: "bot_env \<Rightarrow> bool \<Rightarrow> action_request \<Rightarrow> run \<Rightarrow> bot_db \<Rightarrow> err + run_action" where
  "request_action env decision q r db =
     (if \<not> valid_id env (aq_action q) then Inl (invalid_argument ''valid action_id required'')
      else
        rbind (of_option RecordNotFound (run_action_row db (aq_action q) (r_id r))) (\<lambda>a.
        if decision then Inr a
        else if aq_generation q \<noteq> ra_generation a \<or> aq_input_version q \<noteq> ra_input_version a
        then Inl (superseded_by ''action version mismatch'')
        else if \<not> same_tool q a then Inl (denied ''action tool differs from exact authorization'')
        else rbind (same_parameters env q a no_server) (\<lambda>_. Inr a)))"

definition request_call ::
  "bot_env \<Rightarrow> service_checks \<Rightarrow> (string \<Rightarrow> err + tool_ref list) \<Rightarrow> action_request \<Rightarrow> run \<Rightarrow> bot_db \<Rightarrow>
   err + (action_reply \<times> bot_db)" where
  "request_call env sc discovered q r db =
     rbind (action_tool db discovered r (aq_server q) (aq_tool q)) (\<lambda>(t, s).
     if aq_key q = [] then Inl (invalid_argument ''action submission key required'')
     else
       rbind (change_lifecycle env r (r_generation r)
         (prepare_action env t (aq_arguments q) (aq_key q) (aq_expires q) (r_generation r) (r_input_version r)) db) (\<lambda>(r1, db1).
       rbind (of_option RecordNotFound (submitted_action db1 (r_id r) (aq_key q))) (\<lambda>a.
       Inr (View (view_action env sc db1 [] a), db1))))"

definition request_decision ::
  "bot_env \<Rightarrow> service_checks \<Rightarrow> (string \<Rightarrow> err + tool_ref list) \<Rightarrow> (action_request \<Rightarrow> string) \<Rightarrow> string \<Rightarrow>
   action_request \<Rightarrow> run_action \<Rightarrow> run \<Rightarrow> bot_db \<Rightarrow> err + (action_reply \<times> bot_db)" where
  "request_decision env sc discovered digest user q a r db =
     rbind (disclosure_access env sc db r a user) (\<lambda>_.
     if \<not> action_owner env db (ra_server a) user
     then Inl (denied ''only tool resource owner may authorize this action'')
     else if aq_op q \<notin> set decision_ops \<or> aq_key q = [] then Inl (invalid_argument ''invalid action decision'')
     else
       rbind (action_tool db discovered r (ra_server a) (ra_tool_name a)) (\<lambda>(t, s).
       rbind (decide_once env r (ra_id a) user q t (digest q) db) (\<lambda>(a1, db1).
       Inr (View (view_action env sc db1 user a1), db1))))"

definition action_authorization ::
  "bot_env \<Rightarrow> service_checks \<Rightarrow> (string \<Rightarrow> string \<Rightarrow> err + unit) \<Rightarrow> (string \<Rightarrow> err + tool_ref list) \<Rightarrow>
   (action_request \<Rightarrow> string) \<Rightarrow> string \<Rightarrow> string \<Rightarrow> action_request \<Rightarrow> bot_db \<Rightarrow> err + (action_reply \<times> bot_db)" where
  "action_authorization env sc member discovered digest user executor q db =
     (let executes = (executor \<noteq> []) in
      if executes \<and> aq_op q \<notin> {''request'', ''execute'', ''list''} then Inl (denied ''executor cannot approve actions'')
      else if \<not> executes \<and> aq_op q \<in> {''request'', ''execute''}
      then Inl (denied ''action invocation requires authenticated executor'')
      else if \<not> executes \<and> \<not> valid_id env user
      then Inl (Status Unauthenticated ''authenticated action principal required'')
      else if \<not> executes \<and> (aq_op q = ''grant'' \<or> (aq_op q = ''revoke'' \<and> aq_grant q \<noteq> []) \<or> (aq_op q = ''list'' \<and> aq_run q = []))
      then grant_authorization env sc member discovered user q db
      else
        rbind (request_scope env sc user executor q db) (\<lambda>r.
        if aq_op q = ''list'' then
          if \<not> executes \<and> foreign_personal r user
          then rbind (owner_actions env sc member db user (r_bot r) (r_conv r) (r_id r)) (\<lambda>views. Inr (Views views, db))
          else Inr (Views (list_actions env sc db user (r_id r)), db)
        else if executes \<and> (terminal_run r \<or> r_status r = ''stopping'')
        then Inl (suspended ''executor action authority ended'')
        else
          rbind (sc_authorize sc r) (\<lambda>_.
          if aq_op q = ''request'' then request_call env sc discovered q r db
          else
            rbind (request_action env (\<not> executes \<and> aq_op q \<in> set decision_ops) q r db) (\<lambda>a.
            if aq_op q = ''execute'' then
              if aq_key q = [] then Inl (invalid_argument ''execution submission key required'')
              else rbind (action_tool db discovered r (ra_server a) (ra_tool_name a)) (\<lambda>(t, s). Inr (Callable a t, db))
            else if aq_op q = ''share_confirmation'' then
              rbind (change_lifecycle env r 0 (share_confirmation env user a) db) (\<lambda>(r1, db1).
              rbind (of_option RecordNotFound (run_action_row db1 (ra_id a) (r_id r))) (\<lambda>a1.
              Inr (View (view_action env sc db1 user a1), db1)))
            else request_decision env sc discovered digest user q a r db))))"

end
