(* ===== verification/Run_Order.thy ===== *)
theory Run_Order
  imports Action_Service
begin

text \<open>
  The contract of everything that changes a run. \<open>life_step\<close> is the envelope of the life of a run that any
  callback stays in: its status moves along \<open>status_next\<close>, a final status is left no more, and its generation, the fencing
  token of its executor, only grows, by one at a time. The edges a transaction of each kind may take are those of
  \<open>life_move\<close> in \<open>Run_Moves\<close>. \<open>run_next\<close> is one accepted operation as a single row
  sees it, \<open>runs_next\<close> as the table sees it. The invariant of the tables is \<open>engine_inv\<close>: every row keeps the
  checks of its table, every delegated run stands after its delegator, every queued item refers to a
  version its run has reached, and the accepted inputs of a run are numbered without a gap. \<open>lawful_step\<close>
  is what the locale \<open>run_command\<close> asks of a callback, and the client's lemmas of the locale carry it
  through the transactions of \<open>change_with\<close> and \<open>report_once\<close>.
\<close>

section \<open>The life of a run\<close>

definition active_status :: "string \<Rightarrow> bool" where
  "active_status s \<longleftrightarrow> s \<in> {''accepted'', ''running'', ''waiting_input''}"

definition final_status :: "string \<Rightarrow> bool" where
  "final_status s \<longleftrightarrow> s \<in> {''succeeded'', ''failed'', ''stopped''}"

definition status_next :: "string \<Rightarrow> string \<Rightarrow> bool" where
  "status_next s s' \<longleftrightarrow> s' = s \<or> (active_status s \<and> s' \<in> set run_statuses) \<or>
     (s = ''waiting_authorization'' \<and> s' \<in> {''accepted'', ''running'', ''stopping'', ''stopped'', ''succeeded'', ''failed''}) \<or>
     (s = ''stopping'' \<and> s' \<in> {''running'', ''stopped'', ''succeeded'', ''failed''})"

inductive life_step :: "string \<times> int \<Rightarrow> string \<times> int \<Rightarrow> bool" where
  Moved: "status_next s s' \<Longrightarrow> life_step (s, g) (s', g)"
| Claimed: "s \<in> {''accepted'', ''running'', ''stopping''} \<Longrightarrow> life_step (s, g) (s, g + 1)"
| Reissued: "active_status s \<or> s = ''waiting_authorization'' \<Longrightarrow> life_step (s, g) (''accepted'', g + 1)"
| Parked: "active_status s \<or> s = ''waiting_authorization'' \<Longrightarrow> life_step (s, g) (''waiting_authorization'', g + 1)"

inductive_simps life_step_simps [simp]: "life_step (s, g) (s', g')"
inductive_cases life_stepE: "life_step l l'"

definition life :: "run \<Rightarrow> string \<times> int" where
  "life r = (r_status r, r_generation r)"

lemma final_terminal: "final_status (r_status r) = terminal_run r"
  by (auto simp: final_status_def terminal_run_def)

lemma life_step_refl: "life_step l l"
  by (cases l) (simp add: status_next_def)

text \<open>Nothing leaves a final status, and the generation never goes back.\<close>

lemma life_step_final: "life_step l l' \<Longrightarrow> final_status (fst l) \<Longrightarrow> l' = l"
  by (auto elim!: life_stepE simp: final_status_def status_next_def active_status_def)

lemma life_step_generation: "life_step l l' \<Longrightarrow> snd l \<le> snd l'"
  by (auto elim!: life_stepE)

lemma life_steps_final: "life_step\<^sup>*\<^sup>* l l' \<Longrightarrow> final_status (fst l) \<Longrightarrow> l' = l"
  by (induction rule: rtranclp_induct) (auto dest: life_step_final)

lemma life_steps_generation: "life_step\<^sup>*\<^sup>* l l' \<Longrightarrow> snd l \<le> snd l'"
  by (induction rule: rtranclp_induct) (auto dest: life_step_generation)

section \<open>Rows\<close>

definition key_of :: "run \<Rightarrow> run_key" where
  "key_of r = run_key.truncate r"

lemma key_of_id: "key_of r' = key_of r \<Longrightarrow> r_id r' = r_id r"
  by (simp add: key_of_def run_key.truncate_def)

lemma key_of_parent: "key_of r' = key_of r \<Longrightarrow> r_deleg_parent r' = r_deleg_parent r"
  by (simp add: key_of_def run_key.truncate_def)

lemmas key_simps = key_of_def run_key.truncate_def

definition run_next :: "run \<Rightarrow> run \<Rightarrow> bool" where
  "run_next r r' \<longleftrightarrow> key_of r' = key_of r \<and> r_version r \<le> r_version r' \<and> r_input_version r \<le> r_input_version r' \<and>
     life_step\<^sup>*\<^sup>* (life r) (life r')"

lemma run_next_refl [simp]: "run_next r r"
  by (simp add: run_next_def)

lemma run_next_trans: "run_next r s \<Longrightarrow> run_next s t \<Longrightarrow> run_next r t"
  unfolding run_next_def by (auto intro: rtranclp_trans)

lemma run_next_id: "run_next r r' \<Longrightarrow> r_id r' = r_id r"
  unfolding run_next_def by (elim conjE) (rule key_of_id)

definition runs_next :: "bot_db \<Rightarrow> bot_db \<Rightarrow> bool" where
  "runs_next db db' \<longleftrightarrow> (\<forall>i r. find_run db i = Some r \<longrightarrow> (\<exists>r'. find_run db' i = Some r' \<and> run_next r r'))"

lemma runs_nextD: "runs_next db db' \<Longrightarrow> find_run db i = Some r \<Longrightarrow> \<exists>r'. find_run db' i = Some r' \<and> run_next r r'"
  by (simp add: runs_next_def)

lemma runs_next_same: "b_runs db' = b_runs db \<Longrightarrow> runs_next db db'"
  by (simp add: runs_next_def find_run_def)

lemma runs_next_trans: "runs_next db1 db2 \<Longrightarrow> runs_next db2 db3 \<Longrightarrow> runs_next db1 db3"
  unfolding runs_next_def by (meson run_next_trans)

lemma find_run_id: "find_run db i = Some r \<Longrightarrow> r_id r = i"
  using find_run_SomeD by blast

lemma find_replace_same:
  "find (\<lambda>x. k x = k r) (update_where (\<lambda>x. k x = k r) (\<lambda>_. r) xs) = map_option (\<lambda>_. r) (find (\<lambda>x. k x = k r) xs)"
  by (induction xs) simp_all

lemma find_replace_other:
  "i \<noteq> k r \<Longrightarrow> find (\<lambda>x. k x = i) (update_where (\<lambda>x. k x = k r) (\<lambda>_. r) xs) = find (\<lambda>x. k x = i) xs"
  by (induction xs) auto

lemma find_put_run:
  "find_run (put_run r db) i = (if i = r_id r then map_option (\<lambda>_. r) (find_run db i) else find_run db i)"
  unfolding find_run_def put_run_def by (simp add: find_replace_same [where k = r_id] find_replace_other [where k = r_id])

text \<open>The other tables of a saved row, and what queueing leaves alone.\<close>

lemma put_run_frame [simp]:
  "b_work (put_run r db) = b_work db" "b_inputs (put_run r db) = b_inputs db"
  "map r_id (b_runs (put_run r db)) = map r_id (b_runs db)"
  by (simp_all add: put_run_def update_where_def)

lemma queue_run_frame [simp]:
  "b_runs (queue_run env r kind db) = b_runs db" "b_inputs (queue_run env r kind db) = b_inputs db"
  "find_run (queue_run env r kind db) i = find_run db i"
  by (simp_all add: queue_run_def put_work_def bot_id_def find_run_def)

lemma queue_next_frame [simp]:
  "b_runs (queue_next env r kind db) = b_runs db" "b_inputs (queue_next env r kind db) = b_inputs db"
  "find_run (queue_next env r kind db) i = find_run db i"
  by (simp_all add: queue_next_def)

lemma queued_work:
  "w \<in> set (b_work (queue_run env r kind db)) \<Longrightarrow>
     w \<in> set (b_work db) \<or> (w_run w = r_id r \<and> w_version w = r_version r \<and> w_kind w = kind)"
  by (auto simp: queue_run_def put_work_def bot_id_def split: if_splits)

text \<open>The queue only grows: new items stand at its end, under their own key and held by nobody.\<close>

definition idle :: "work_item \<Rightarrow> bool" where
  "idle w \<longleftrightarrow> w_lease w = None \<and> w_token w = None \<and> w_completed w = None \<and> w_generation w = 0"

definition work_appended :: "bot_db \<Rightarrow> bot_db \<Rightarrow> bool" where
  "work_appended db db' \<longleftrightarrow> (\<exists>ws. b_work db' = b_work db @ ws \<and> list_all idle ws) \<and>
     (distinct (map w_id (b_work db)) \<longrightarrow> distinct (map w_id (b_work db')))"

lemma work_appended_same: "b_work db' = b_work db \<Longrightarrow> work_appended db db'"
  by (simp add: work_appended_def)

lemma work_appended_trans: "work_appended db1 db2 \<Longrightarrow> work_appended db2 db3 \<Longrightarrow> work_appended db1 db3"
  unfolding work_appended_def by (elim conjE exE) (simp add: list_all_append)

lemma queue_run_appends: "work_appended db (queue_run env r kind db)"
  by (auto simp: queue_run_def put_work_def bot_id_def Let_def work_appended_def idle_def)

section \<open>The invariant of the tables\<close>

definition typed_runs :: "bot_db \<Rightarrow> bool" where
  "typed_runs db \<longleftrightarrow> (\<forall>i r. find_run db i = Some r \<longrightarrow> run_row_ok r)"

text \<open>\<open>place db i\<close> is the position of the row of a run; rows are only appended.\<close>

definition place :: "bot_db \<Rightarrow> string \<Rightarrow> nat" where
  "place db i = length (takeWhile (\<lambda>x. x \<noteq> i) (map r_id (b_runs db)))"

definition delegators_first :: "bot_db \<Rightarrow> bool" where
  "delegators_first db \<longleftrightarrow>
     (\<forall>i r p. find_run db i = Some r \<longrightarrow> r_deleg_parent r = Some p \<longrightarrow> find_run db p \<noteq> None \<and> place db p < place db i)"

definition work_reached :: "bot_db \<Rightarrow> bool" where
  "work_reached db \<longleftrightarrow>
     (\<forall>w\<in>set (b_work db). \<exists>r. find_run db (w_run w) = Some r \<and> w_version w \<le> r_version r)"

definition input_log :: "bot_db \<Rightarrow> run \<Rightarrow> bool" where
  "input_log db r \<longleftrightarrow> map in_version (inputs_of db (r_id r)) = [1..r_input_version r]"

definition inputs_numbered :: "bot_db \<Rightarrow> bool" where
  "inputs_numbered db \<longleftrightarrow> (\<forall>i r. find_run db i = Some r \<longrightarrow> input_log db r) \<and>
     (\<forall>x\<in>set (b_inputs db). find_run db (in_run x) \<noteq> None)"

definition engine_inv :: "bot_db \<Rightarrow> bool" where
  "engine_inv db \<longleftrightarrow> typed_runs db \<and> delegators_first db \<and> work_reached db \<and> inputs_numbered db \<and>
     distinct (map r_id (b_runs db))"

lemma same_ids_find:
  assumes "map r_id (b_runs db') = map r_id (b_runs db)"
  shows "find_run db' i = None \<longleftrightarrow> find_run db i = None" "place db' i = place db i"
proof -
  have "find_run d i = None \<longleftrightarrow> i \<notin> set (map r_id (b_runs d))" for d
    by (auto simp: find_run_def find_None_iff)
  then show "find_run db' i = None \<longleftrightarrow> find_run db i = None" using assms by metis
qed (simp add: place_def assms)

lemma find_run_member:
  assumes "engine_inv db" and "r \<in> set (b_runs db)"
  shows "find_run db (r_id r) = Some r"
  using assms find_unique_key [of r_id "b_runs db" r] by (simp add: engine_inv_def find_run_def)

lemma delegators_first_next:
  assumes "delegators_first db" and "map r_id (b_runs db') = map r_id (b_runs db)" and "runs_next db db'"
  shows "delegators_first db'"
  unfolding delegators_first_def
proof (intro allI impI)
  fix i r' p assume f: "find_run db' i = Some r'" and p: "r_deleg_parent r' = Some p"
  obtain r where r: "find_run db i = Some r" using same_ids_find(1) [OF assms(2), of i] f by auto
  then have "run_next r r'" using runs_nextD [OF assms(3) r] f by auto
  then have "r_deleg_parent r = Some p" using p key_of_parent unfolding run_next_def by metis
  then have "find_run db p \<noteq> None \<and> place db p < place db i" using assms(1) r unfolding delegators_first_def by blast
  then show "find_run db' p \<noteq> None \<and> place db' p < place db' i"
    using same_ids_find [OF assms(2)] by metis
qed

section \<open>Lawful callbacks\<close>

definition lawful_step :: "run \<Rightarrow> run \<Rightarrow> bot_db \<Rightarrow> bot_db \<Rightarrow> bool" where
  "lawful_step r r' db db' \<longleftrightarrow>
     key_of r' = key_of r \<and> r_version r' = r_version r \<and> r_input_version r \<le> r_input_version r' \<and>
     life_step\<^sup>*\<^sup>* (life r) (life r') \<and> (run_row_ok r \<longrightarrow> run_row_ok r') \<and>
     map r_id (b_runs db') = map r_id (b_runs db) \<and>
     (\<forall>i x. i \<noteq> r_id r \<longrightarrow> find_run db i = Some x \<longrightarrow>
        (\<exists>x'. find_run db' i = Some x' \<and> run_next x x' \<and> (run_row_ok x \<longrightarrow> run_row_ok x') \<and>
              (input_log db x \<longrightarrow> input_log db' x'))) \<and>
     (input_log db r \<longrightarrow> input_log db' r') \<and>
     (\<forall>x\<in>set (b_inputs db'). x \<in> set (b_inputs db) \<or> in_run x = r_id r) \<and>
     (\<forall>w\<in>set (b_work db'). w \<in> set (b_work db) \<or> (w_run w = r_id r \<and> w_version w \<le> r_version r + 1) \<or>
        (\<exists>x. w_run w \<noteq> r_id r \<and> find_run db' (w_run w) = Some x \<and> w_version w \<le> r_version x)) \<and>
     work_appended db db'"

text \<open>A callback that touches no other run and no input: what all but two of them are.\<close>

definition local_step :: "run \<Rightarrow> run \<Rightarrow> bot_db \<Rightarrow> bot_db \<Rightarrow> bool" where
  "local_step r r' db db' \<longleftrightarrow>
     key_of r' = key_of r \<and> r_version r' = r_version r \<and> r_input_version r' = r_input_version r \<and>
     life_step (life r) (life r') \<and> (run_row_ok r \<longrightarrow> run_row_ok r') \<and>
     b_runs db' = b_runs db \<and> b_inputs db' = b_inputs db \<and>
     (\<forall>w\<in>set (b_work db'). w \<in> set (b_work db) \<or> (w_run w = r_id r \<and> w_version w = r_version r + 1)) \<and>
     work_appended db db'"

lemma input_log_frame:
  "b_inputs db' = b_inputs db \<Longrightarrow> r_id r' = r_id r \<Longrightarrow> r_input_version r' = r_input_version r \<Longrightarrow>
     input_log db' r' = input_log db r"
  by (simp add: input_log_def inputs_of_def)

lemma local_lawful: "local_step r r' db db' \<Longrightarrow> lawful_step r r' db db'"
proof -
  assume l: "local_step r r' db db'"
  have f: "find_run db' i = find_run db i" for i using l by (simp add: local_step_def find_run_def)
  have i: "input_log db' x = input_log db x" for x using l by (intro input_log_frame) (auto simp: local_step_def)
  have k: "key_of r' = key_of r" using l by (simp add: local_step_def)
  have "input_log db' r' = input_log db r"
    using l key_of_id [OF k] by (intro input_log_frame) (auto simp: local_step_def)
  then show ?thesis using l unfolding lawful_step_def local_step_def by (auto simp: f i)
qed

lemma lawful_row:
  assumes "lawful_step r r' db db'"
  shows "key_of r' = key_of r" "r_version r' = r_version r" "r_input_version r \<le> r_input_version r'"
    "life_step\<^sup>*\<^sup>* (life r) (life r')" "run_row_ok r \<longrightarrow> run_row_ok r'"
    "map r_id (b_runs db') = map r_id (b_runs db)" "work_appended db db'"
  using assms unfolding lawful_step_def by - ((elim conjE, assumption)+)

lemma lawful_other:
  assumes "lawful_step r r' db db'" and "find_run db i = Some x" and "i \<noteq> r_id r"
  obtains x' where "find_run db' i = Some x'" "run_next x x'" "run_row_ok x \<longrightarrow> run_row_ok x'"
    "input_log db x \<longrightarrow> input_log db' x'"
  using assms unfolding lawful_step_def by blast

lemma lawful_inputs:
  assumes "lawful_step r r' db db'"
  shows "input_log db r \<longrightarrow> input_log db' r'" "\<forall>x\<in>set (b_inputs db'). x \<in> set (b_inputs db) \<or> in_run x = r_id r"
  using assms unfolding lawful_step_def by - ((elim conjE, assumption)+)

lemma lawful_work:
  assumes "lawful_step r r' db db'" and "w \<in> set (b_work db')"
  obtains "w \<in> set (b_work db)" | "w_run w = r_id r" "w_version w \<le> r_version r + 1" |
    x where "w_run w \<noteq> r_id r" "find_run db' (w_run w) = Some x" "w_version w \<le> r_version x"
  using assms unfolding lawful_step_def by blast

text \<open>Saving the changed row under its next version, with its notice, keeps the invariant.\<close>

lemma save_next:
  assumes inv: "engine_inv db" and r: "find_run db (r_id r) = Some r" and law: "lawful_step r r1 db db1"
    and k: "key_of r2 = key_of r1" and v: "r_version r2 = r_version r + 1" and l: "life r2 = life r1"
    and iv: "r_input_version r2 = r_input_version r1" and ok: "save_run r2 db1 = Inr db2"
    and db3_def: "db3 = queue_run env r2 kind db2"
  shows "engine_inv db3" "runs_next db db3" "find_run db3 (r_id r) = Some r2" "run_next r r2" "work_appended db db3"
proof -
  have db2: "db2 = put_run r2 db1" and row: "run_row_ok r2" using ok by (auto simp: save_run_def split: if_splits)
  have "b_work db2 = b_work db1" by (simp add: db2)
  then have "work_appended db1 db3" unfolding db3_def by (rule work_appended_trans [OF work_appended_same queue_run_appends])
  then show "work_appended db db3" by (rule work_appended_trans [OF lawful_row(7) [OF law]])
  have ids: "map r_id (b_runs db1) = map r_id (b_runs db)" and r1: "key_of r1 = key_of r" "r_input_version r \<le> r_input_version r1"
    "life_step\<^sup>*\<^sup>* (life r) (life r1)" using lawful_row [OF law] by auto
  have key: "key_of r2 = key_of r" using k r1 by simp
  then have id: "r_id r2 = r_id r" by (rule key_of_id)
  have f3: "find_run db3 i = (if i = r_id r then map_option (\<lambda>_. r2) (find_run db1 i) else find_run db1 i)" for i
    by (simp add: db3_def db2 find_put_run id)
  have ids3: "map r_id (b_runs db3) = map r_id (b_runs db)" by (simp add: db3_def db2 ids)
  have "find_run db1 (r_id r) \<noteq> None" using same_ids_find(1) [OF ids] r by simp
  then show own: "find_run db3 (r_id r) = Some r2" by (auto simp: f3)
  show next_r: "run_next r r2" using key v r1 iv l by (simp add: run_next_def)
  have others: "\<exists>x'. find_run db3 i = Some x' \<and> run_next x x' \<and> (run_row_ok x \<longrightarrow> run_row_ok x') \<and>
      (input_log db x \<longrightarrow> input_log db1 x')" if "i \<noteq> r_id r" "find_run db i = Some x" for i x
    using lawful_other [OF law that(2,1)] that(1) unfolding f3 by (metis (no_types))
  show nx: "runs_next db db3" unfolding runs_next_def
  proof (intro allI impI)
    fix i x assume x: "find_run db i = Some x"
    show "\<exists>x'. find_run db3 i = Some x' \<and> run_next x x'"
    proof (cases "i = r_id r")
      case True with x r own next_r show ?thesis by auto
    next
      case False with others [OF False x] show ?thesis by blast
    qed
  qed
  have in3: "b_inputs db3 = b_inputs db1" by (simp add: db3_def db2)
  have pre: "\<exists>x. find_run db i = Some x" if "find_run db3 i = Some x'" for i x'
    using same_ids_find(1) [OF ids3, of i] that by auto
  have rows: "run_row_ok x' \<and> input_log db3 x'" if f: "find_run db3 i = Some x'" for i x'
  proof (cases "i = r_id r")
    case True
    then have x': "x' = r2" using own f by simp
    have "input_log db r" using inv r by (auto simp: engine_inv_def inputs_numbered_def)
    then have "input_log db1 r1" using lawful_inputs(1) [OF law] by blast
    moreover have "input_log db3 r2 = input_log db1 r1"
      using id key_of_id [OF r1(1)] iv by (intro input_log_frame) (simp_all add: in3)
    ultimately show ?thesis using x' row by simp
  next
    case False
    obtain x where x: "find_run db i = Some x" using pre [OF f] by blast
    then have "run_row_ok x" "input_log db x" using inv by (auto simp: engine_inv_def typed_runs_def inputs_numbered_def)
    moreover have "input_log db3 x' = input_log db1 x'" by (intro input_log_frame) (simp_all add: in3)
    ultimately show ?thesis using others [OF False x] f by auto
  qed
  have work: "work_reached db3" unfolding work_reached_def
  proof
    fix w assume w: "w \<in> set (b_work db3)"
    then consider "w_run w = r_id r" "w_version w = r_version r2" | "w \<in> set (b_work db1)"
      using queued_work [of w env r2 kind db2] id by (auto simp: db3_def db2)
    then show "\<exists>x. find_run db3 (w_run w) = Some x \<and> w_version w \<le> r_version x"
    proof cases
      case 1 then show ?thesis using own by auto
    next
      case 2
      from lawful_work [OF law 2] show ?thesis
      proof cases
        case 1
        then obtain x where x: "find_run db (w_run w) = Some x" "w_version w \<le> r_version x"
          using inv by (auto simp: engine_inv_def work_reached_def)
        then obtain x' where "find_run db3 (w_run w) = Some x'" "run_next x x'" using runs_nextD [OF nx] by blast
        with x show ?thesis by (auto simp: run_next_def intro: order_trans)
      next
        case 2 then show ?thesis using own v by auto
      next
        case 3 then show ?thesis by (auto simp: f3)
      qed
    qed
  qed
  have "delegators_first db3" using delegators_first_next [OF _ ids3 nx] inv by (simp add: engine_inv_def)
  moreover have "inputs_numbered db3"
  proof -
    have "find_run db3 (in_run x) \<noteq> None" if "x \<in> set (b_inputs db3)" for x
    proof -
      have "x \<in> set (b_inputs db) \<or> in_run x = r_id r" using that lawful_inputs(2) [OF law] by (simp add: in3)
      then have "find_run db (in_run x) \<noteq> None" using inv r by (auto simp: engine_inv_def inputs_numbered_def)
      then show ?thesis using same_ids_find(1) [OF ids3] by simp
    qed
    with rows show ?thesis by (auto simp: inputs_numbered_def)
  qed
  ultimately show "engine_inv db3" using rows work inv ids3 by (auto simp: engine_inv_def typed_runs_def)
qed

text \<open>The invariant reads three tables.\<close>

lemma engine_inv_frame:
  assumes "b_runs db' = b_runs db" "b_work db' = b_work db" "b_inputs db' = b_inputs db"
  shows "engine_inv db' = engine_inv db" "runs_next db0 db' = runs_next db0 db"
proof -
  have f: "find_run db' i = find_run db i" "place db' i = place db i" for i using assms(1) by (simp_all add: find_run_def place_def)
  have i: "input_log db' x = input_log db x" for x by (intro input_log_frame) (simp_all add: assms(3))
  show "engine_inv db' = engine_inv db"
    by (simp add: engine_inv_def typed_runs_def delegators_first_def work_reached_def inputs_numbered_def f i assms)
  show "runs_next db0 db' = runs_next db0 db" by (simp add: runs_next_def f)
qed

end
