(* ===== verification/Run_Commands.thy ===== *)
theory Run_Commands
  imports Run_Order
begin

text \<open>
  The interface between the transactions of the run repository and the callbacks they are given.
  \<open>run_command\<close> states what a callback owes, its client lemmas what \<open>change_with\<close> then promises;
  \<open>lifecycle_command\<close> and \<open>worker_command\<close> are the contracts under the guards of \<open>change_lifecycle\<close>
  and \<open>change_run\<close>, each a weaker demand than the one before. Every callback of \<open>Run_Worker\<close> is an
  instance.
\<close>

section \<open>Fields of a row\<close>

lemma key_of_update [simp]:
  "key_of (r\<lparr>r_children := a1\<rparr>) = key_of r" "key_of (r\<lparr>r_deleg_input := a2\<rparr>) = key_of r"
  "key_of (r\<lparr>r_interaction_status := a3\<rparr>) = key_of r" "key_of (r\<lparr>r_controller := a3\<rparr>) = key_of r"
  "key_of (r\<lparr>r_controller_member := a4\<rparr>) = key_of r" "key_of (r\<lparr>r_controls := a1\<rparr>) = key_of r"
  "key_of (r\<lparr>r_memberships := a5\<rparr>) = key_of r" "key_of (r\<lparr>r_stop_status := a3\<rparr>) = key_of r"
  "key_of (r\<lparr>r_stream_status := a3\<rparr>) = key_of r" "key_of (r\<lparr>r_stop_reason := a3\<rparr>) = key_of r"
  "key_of (r\<lparr>r_stop_at := a6\<rparr>) = key_of r" "key_of (r\<lparr>r_revoked := a7\<rparr>) = key_of r"
  "key_of (r\<lparr>r_input_version := a2\<rparr>) = key_of r" "key_of (r\<lparr>r_applied_input := a2\<rparr>) = key_of r"
  "key_of (r\<lparr>r_inputs := a8\<rparr>) = key_of r" "key_of (r\<lparr>r_provenance := a9\<rparr>) = key_of r"
  "key_of (r\<lparr>r_invalidated := a7\<rparr>) = key_of r" "key_of (r\<lparr>r_version := a2\<rparr>) = key_of r"
  "key_of (r\<lparr>r_trajectory := a2\<rparr>) = key_of r" "key_of (r\<lparr>r_generation := a2\<rparr>) = key_of r"
  "key_of (r\<lparr>r_delivery_status := a3\<rparr>) = key_of r" "key_of (r\<lparr>r_executor_status := a3\<rparr>) = key_of r"
  "key_of (r\<lparr>r_sequence := a2\<rparr>) = key_of r" "key_of (r\<lparr>r_lease := a6\<rparr>) = key_of r"
  "key_of (r\<lparr>r_operation := a3\<rparr>) = key_of r" "key_of (r\<lparr>r_status := a3\<rparr>) = key_of r"
  "key_of (r\<lparr>r_stage := a3\<rparr>) = key_of r" "key_of (r\<lparr>r_waiting := a3\<rparr>) = key_of r"
  "key_of (r\<lparr>r_result_text := a3\<rparr>) = key_of r" "key_of (r\<lparr>r_result_type := a3\<rparr>) = key_of r"
  "key_of (r\<lparr>r_result_content := a3\<rparr>) = key_of r" "key_of (r\<lparr>r_output_status := a3\<rparr>) = key_of r"
  "key_of (r\<lparr>r_message := a4\<rparr>) = key_of r" "key_of (r\<lparr>r_error := a3\<rparr>) = key_of r"
  "key_of (r\<lparr>r_sources := a10\<rparr>) = key_of r" "key_of (r\<lparr>r_materials := a11\<rparr>) = key_of r"
  "key_of (r\<lparr>r_steps := a12\<rparr>) = key_of r" "key_of (r\<lparr>r_updated := a2\<rparr>) = key_of r"
  "key_of (r\<lparr>r_deleg_output := a2\<rparr>) = key_of r"
  by (simp_all add: key_simps)

lemma row_ok_other [simp]:
  "run_row_ok (r\<lparr>r_children := a0\<rparr>) = run_row_ok r"
  "run_row_ok (r\<lparr>r_deleg_input := a1\<rparr>) = run_row_ok r"
  "run_row_ok (r\<lparr>r_controller := a2\<rparr>) = run_row_ok r"
  "run_row_ok (r\<lparr>r_controller_member := a3\<rparr>) = run_row_ok r"
  "run_row_ok (r\<lparr>r_controls := a4\<rparr>) = run_row_ok r"
  "run_row_ok (r\<lparr>r_memberships := a5\<rparr>) = run_row_ok r"
  "run_row_ok (r\<lparr>r_stop_reason := a6\<rparr>) = run_row_ok r"
  "run_row_ok (r\<lparr>r_stop_at := a7\<rparr>) = run_row_ok r"
  "run_row_ok (r\<lparr>r_revoked := a8\<rparr>) = run_row_ok r"
  "run_row_ok (r\<lparr>r_inputs := a9\<rparr>) = run_row_ok r"
  "run_row_ok (r\<lparr>r_provenance := a10\<rparr>) = run_row_ok r"
  "run_row_ok (r\<lparr>r_invalidated := a11\<rparr>) = run_row_ok r"
  "run_row_ok (r\<lparr>r_generation := a12\<rparr>) = run_row_ok r"
  "run_row_ok (r\<lparr>r_sequence := a13\<rparr>) = run_row_ok r"
  "run_row_ok (r\<lparr>r_lease := a14\<rparr>) = run_row_ok r"
  "run_row_ok (r\<lparr>r_operation := a15\<rparr>) = run_row_ok r"
  "run_row_ok (r\<lparr>r_stage := a16\<rparr>) = run_row_ok r"
  "run_row_ok (r\<lparr>r_waiting := a17\<rparr>) = run_row_ok r"
  "run_row_ok (r\<lparr>r_result_text := a18\<rparr>) = run_row_ok r"
  "run_row_ok (r\<lparr>r_result_type := a19\<rparr>) = run_row_ok r"
  "run_row_ok (r\<lparr>r_result_content := a20\<rparr>) = run_row_ok r"
  "run_row_ok (r\<lparr>r_message := a21\<rparr>) = run_row_ok r"
  "run_row_ok (r\<lparr>r_error := a22\<rparr>) = run_row_ok r"
  "run_row_ok (r\<lparr>r_sources := a23\<rparr>) = run_row_ok r"
  "run_row_ok (r\<lparr>r_materials := a24\<rparr>) = run_row_ok r"
  "run_row_ok (r\<lparr>r_steps := a25\<rparr>) = run_row_ok r"
  "run_row_ok (r\<lparr>r_updated := a26\<rparr>) = run_row_ok r"
  "run_row_ok (r\<lparr>r_deleg_output := a27\<rparr>) = run_row_ok r"
  by (simp_all add: run_row_ok_def cong: option.case_cong)

text \<open>A checked column, on a row that keeps its checks.\<close>

lemma row_ok_column [simp]:
  "run_row_ok r \<Longrightarrow> run_row_ok (r\<lparr>r_status := x\<rparr>) \<longleftrightarrow> x \<in> set run_statuses"
  "run_row_ok r \<Longrightarrow> run_row_ok (r\<lparr>r_executor_status := x\<rparr>) \<longleftrightarrow> x \<in> set executor_statuses"
  "run_row_ok r \<Longrightarrow> run_row_ok (r\<lparr>r_stop_status := x\<rparr>) \<longleftrightarrow> x \<in> set stop_statuses"
  "run_row_ok r \<Longrightarrow> run_row_ok (r\<lparr>r_stream_status := x\<rparr>) \<longleftrightarrow> x = ''open'' \<or> x = ''closed''"
  "run_row_ok r \<Longrightarrow> run_row_ok (r\<lparr>r_output_status := x\<rparr>) \<longleftrightarrow> x \<in> {''none'', ''generated'', ''pending'', ''committed'', ''failed''}"
  "run_row_ok r \<Longrightarrow> run_row_ok (r\<lparr>r_delivery_status := x\<rparr>) \<longleftrightarrow> x \<in> {''pending'', ''delivered'', ''acknowledged''}"
  "run_row_ok r \<Longrightarrow> run_row_ok (r\<lparr>r_interaction_status := x\<rparr>) \<longleftrightarrow> x = ''active'' \<or> x = ''closed''"
  "run_row_ok r \<Longrightarrow> run_row_ok (r\<lparr>r_version := y\<rparr>) \<longleftrightarrow> 0 < y"
  "run_row_ok r \<Longrightarrow> run_row_ok (r\<lparr>r_trajectory := y\<rparr>) \<longleftrightarrow> 0 \<le> y"
  "run_row_ok r \<Longrightarrow> run_row_ok (r\<lparr>r_applied_input := y\<rparr>) \<longleftrightarrow> 0 \<le> y \<and> y \<le> r_input_version r"
  "run_row_ok r \<Longrightarrow> run_row_ok (r\<lparr>r_input_version := y\<rparr>) \<longleftrightarrow> 0 < y \<and> r_applied_input r \<le> y"
  by (simp_all add: run_row_ok_def conj_ac cong: option.case_cong)

lemma row_ok_bounds:
  "run_row_ok r \<Longrightarrow> 0 < r_version r \<and> 0 < r_input_version r \<and> 0 \<le> r_trajectory r \<and> 0 \<le> r_applied_input r \<and>
     r_applied_input r \<le> r_input_version r"
  by (simp add: run_row_ok_def)

lemma row_ok_next [simp]: "run_row_ok r \<Longrightarrow> 0 \<le> r_trajectory r + 1" "run_row_ok r \<Longrightarrow> 0 < r_version r + 1"
  by (simp_all add: run_row_ok_def)

lemma column_values [simp]:
  "''running'' \<in> set run_statuses" "''accepted'' \<in> set run_statuses" "''stopping'' \<in> set run_statuses"
  "''stopped'' \<in> set run_statuses" "''failed'' \<in> set run_statuses" "''succeeded'' \<in> set run_statuses"
  "''waiting_input'' \<in> set run_statuses" "''waiting_authorization'' \<in> set run_statuses"
  "''accepted'' \<in> set executor_statuses" "''lost'' \<in> set executor_statuses" "''stopped'' \<in> set executor_statuses"
  "''completed'' \<in> set executor_statuses" "''stop_rejected'' \<in> set executor_statuses" "''pending'' \<in> set executor_statuses"
  "''none'' \<in> set stop_statuses" "''requested'' \<in> set stop_statuses" "''confirmed'' \<in> set stop_statuses"
  "''rejected'' \<in> set stop_statuses" "''unknown'' \<in> set stop_statuses"
  by (simp_all add: run_statuses_def executor_statuses_def stop_statuses_def)

lemma active_not_terminal: "active_status (r_status r) \<Longrightarrow> \<not> terminal_run r"
  by (auto simp: active_status_def terminal_run_def)

lemma row_status: "run_row_ok r \<Longrightarrow> r_status r \<in> set run_statuses"
  by (simp add: run_row_ok_def)

lemma living_cases:
  assumes "run_row_ok r" and "\<not> terminal_run r"
  obtains "active_status (r_status r)" | "r_status r = ''waiting_authorization''" | "r_status r = ''stopping''"
  using row_status [OF assms(1)] assms(2) by (auto simp: run_statuses_def terminal_run_def active_status_def)

text \<open>The moves of a living run.\<close>

lemma status_next_same [simp]: "status_next s s"
  by (simp add: status_next_def)

lemma status_next_active: "active_status s \<Longrightarrow> s' \<in> set run_statuses \<Longrightarrow> status_next s s'"
  by (simp add: status_next_def)

lemma living_next:
  assumes "run_row_ok r" and "\<not> terminal_run r"
  shows "status_next (r_status r) ''failed''" "status_next (r_status r) ''succeeded''" "status_next (r_status r) ''stopped''"
    "status_next (r_status r) ''stopping''"
    "r_status r \<noteq> ''stopping'' \<Longrightarrow> status_next (r_status r) ''waiting_authorization''"
  by (rule living_cases [OF assms]; simp add: status_next_def)+

section \<open>Transactions\<close>

locale run_command =
  fixes fn :: run_step_fn and pre :: "run \<Rightarrow> bool"
  assumes lawful: "\<lbrakk>engine_inv db; find_run db (r_id r) = Some r; pre r; fn r db = Inr (r', db')\<rbrakk> \<Longrightarrow> lawful_step r r' db db'"

lemma finish_run_simps:
  "key_of (finish_run env before r) = key_of r" "life (finish_run env before r) = life r"
  "r_version (finish_run env before r) = r_version r + 1" "r_input_version (finish_run env before r) = r_input_version r"
  by (simp_all add: finish_run_def Let_def life_def)

lemma finish_run_ok: "run_row_ok r \<Longrightarrow> run_row_ok (finish_run env before r)"
  by (auto simp: finish_run_def Let_def run_row_ok_def split: option.splits)

lemma commit_ok: "run_row_ok r \<Longrightarrow> \<exists>s db'. commit_run env before r db = Inr (s, db')"
  by (simp add: commit_run_def save_run_def Let_def finish_run_ok)

lemma engine_row_ok: "engine_inv db \<Longrightarrow> find_run db i = Some r \<Longrightarrow> run_row_ok r"
  by (simp add: engine_inv_def typed_runs_def)

lemma put_receipt_frame:
  assumes "put_receipt env i key digest db = Inr db'"
  shows "b_runs db' = b_runs db" "b_work db' = b_work db" "b_inputs db' = b_inputs db"
  using assms by (auto simp: put_receipt_def bot_id_def split: if_splits)

text \<open>A command is answered by its receipt, or applied, committed and recorded.\<close>

lemma report_once_cases:
  assumes "report_once env checked key digest au fn db = Inr (p, db2)"
  shows "\<exists>r. find_run db (r_id checked) = Some r \<and> r_version r = r_version checked \<and> (db2 = db \<or>
      ((terminal_run r \<longrightarrow> au_stop_tree au) \<and> (\<exists>r1 db1 r2 db3. fn r db = Inr (r1, db1) \<and>
         commit_run env (r_stage r) r1 db1 = Inr (r2, db3) \<and> put_receipt env (r_id checked) key digest db3 = Inr db2)))"
proof -
  from assms obtain r where r: "find_run db (r_id checked) = Some r" and v: "r_version r = r_version checked"
    and m: "(case find_receipt db (r_id checked) key of
            Some q \<Rightarrow> if rc_hash q \<noteq> digest then Inl (Status AlreadyExists ''update key has different content'')
                else Inr (public_of r, db)
          | None \<Rightarrow>
                if ia_status (the (find (\<lambda>i. ia_id i = r_interaction r) (b_interactions db))) \<noteq> ''active''
                then Inl (suspended ''interaction is closed'')
                else if terminal_run r \<and> \<not> au_stop_tree au
                then Inl (suspended ''Run no longer accepts updates'')
                else rbind (fn r db) (\<lambda>(r1, db1).
                  if r_stage r = ''pending_action'' \<and> r_stage r1 \<noteq> ''pending_action'' \<and>
                     r_status r1 \<noteq> ''stopping'' \<and> r_status r1 \<noteq> ''stopped''
                  then Inl (suspended ''concrete action authorization required'')
                  else rbind (commit_run env (r_stage r) r1 db1) (\<lambda>(r2, db2).
                       rbind (put_receipt env (r_id checked) key digest db2) (\<lambda>db3.
                       Inr (public_of r2, db3))))) = Inr (p, db2)"
    by (auto simp: report_once_def rbind_eq_Inr Let_def split: option.splits if_splits)
  show ?thesis
  proof (cases "find_receipt db (r_id checked) key")
    case None
    then obtain r1 db1 where "terminal_run r \<longrightarrow> au_stop_tree au" "fn r db = Inr (r1, db1)"
      and k: "rbind (commit_run env (r_stage r) r1 db1) (\<lambda>(r2, db2).
                       rbind (put_receipt env (r_id checked) key digest db2) (\<lambda>db3.
                       Inr (public_of r2, db3))) = Inr (p, db2)"
      using m by (auto simp: rbind_eq_Inr split: if_splits)
    moreover have "\<exists>r2 db3. commit_run env (r_stage r) r1 db1 = Inr (r2, db3) \<and>
        put_receipt env (r_id checked) key digest db3 = Inr db2"
      using k by (auto simp: rbind_eq_Inr)
    ultimately show ?thesis using r v by blast
  next
    case (Some q)
    then show ?thesis using m r v by (auto split: if_splits)
  qed
qed

context run_command
begin

lemma commit_step:
  assumes inv: "engine_inv db" and r: "find_run db (r_id r) = Some r" and p: "pre r"
    and f: "fn r db = Inr (r1, db1)" and c: "commit_run env before r1 db1 = Inr (r2, db2)"
  shows "engine_inv db2 \<and> runs_next db db2 \<and> find_run db2 (r_id r) = Some r2 \<and> run_next r r2 \<and> work_appended db db2"
proof -
  note law = lawful [OF inv r p f]
  obtain db' where s: "save_run (finish_run env before r1) db1 = Inr db'"
    and r2: "r2 = finish_run env before r1" and db2: "db2 = queue_run env r2 ''updated'' db'"
    using c by (auto simp: commit_run_def Let_def rbind_eq_Inr)
  have "r_version r2 = r_version r + 1" using lawful_row(2) [OF law] by (simp add: r2 finish_run_simps)
  then show ?thesis
    using save_next [OF inv r law _ _ _ _ s [folded r2] db2] by (simp add: r2 finish_run_simps)
qed

lemma commit_typed:
  assumes inv: "engine_inv db" and r: "find_run db (r_id r) = Some r" and p: "pre r"
    and f: "fn r db = Inr (r1, db1)"
  shows "\<exists>r2 db2. commit_run env before r1 db1 = Inr (r2, db2)"
  using lawful_row(5) [OF lawful [OF inv r p f]] engine_row_ok [OF inv r] commit_ok by blast

lemma change_with_step:
  assumes inv: "engine_inv db" and c: "change_with env prior gen ex facts fn db = Inr (r2, db2)"
    and p: "\<And>r. \<lbrakk>run_row_ok r; terminal_run r \<longrightarrow> facts; ex \<longrightarrow> active_status (r_status r) \<or> terminal_run r\<rbrakk> \<Longrightarrow> pre r"
  shows "engine_inv db2 \<and> runs_next db db2 \<and> work_appended db db2"
proof -
  obtain r r1 db1 where r: "find_run db (r_id prior) = Some r"
    and t: "terminal_run r \<longrightarrow> facts" and e: "ex \<longrightarrow> r_status r \<noteq> ''stopping'' \<and> r_status r \<noteq> ''waiting_authorization''"
    and f: "fn r db = Inr (r1, db1)" and k: "commit_run env (r_stage r) r1 db1 = Inr (r2, db2)"
    using c by (auto simp: change_with_def rbind_eq_Inr get_run_def of_option_eq_Inr split: if_splits prod.splits)
  have i: "r_id r = r_id prior" using r by (rule find_run_id)
  have ok: "run_row_ok r" by (rule engine_row_ok [OF inv r])
  have "ex \<longrightarrow> active_status (r_status r) \<or> terminal_run r"
    using living_cases [OF ok] e by blast
  then have "pre r" using p ok t by blast
  then show ?thesis using commit_step [OF inv _ _ f k] r i by simp
qed

lemma report_once_step:
  assumes inv: "engine_inv db" and c: "report_once env checked key digest au fn db = Inr (p, db2)"
    and pr: "\<And>r. run_row_ok r \<Longrightarrow> terminal_run r \<longrightarrow> au_stop_tree au \<Longrightarrow> pre r"
  shows "engine_inv db2 \<and> runs_next db db2 \<and> work_appended db db2"
proof -
  obtain r where r: "find_run db (r_id checked) = Some r" and alt: "db2 = db \<or>
      ((terminal_run r \<longrightarrow> au_stop_tree au) \<and> (\<exists>r1 db1 r2 db3. fn r db = Inr (r1, db1) \<and>
         commit_run env (r_stage r) r1 db1 = Inr (r2, db3) \<and> put_receipt env (r_id checked) key digest db3 = Inr db2))"
    using report_once_cases [OF c] by blast
  have i: "r_id r = r_id checked" using r by (rule find_run_id)
  from alt show ?thesis
  proof
    assume "db2 = db" then show ?thesis using inv by (simp add: runs_next_same work_appended_same)
  next
    assume "(terminal_run r \<longrightarrow> au_stop_tree au) \<and> (\<exists>r1 db1 r2 db3. fn r db = Inr (r1, db1) \<and>
         commit_run env (r_stage r) r1 db1 = Inr (r2, db3) \<and> put_receipt env (r_id checked) key digest db3 = Inr db2)"
    then obtain r1 db1 r2 db3 where t: "terminal_run r \<longrightarrow> au_stop_tree au" and f: "fn r db = Inr (r1, db1)"
      and k: "commit_run env (r_stage r) r1 db1 = Inr (r2, db3)" and q: "put_receipt env (r_id checked) key digest db3 = Inr db2"
      by blast
    have "pre r" using pr engine_row_ok [OF inv r] t by blast
    then have s: "engine_inv db3 \<and> runs_next db db3 \<and> work_appended db db3" using commit_step [OF inv _ _ f k] r i by simp
    note fr = put_receipt_frame [OF q]
    show ?thesis using s engine_inv_frame [OF fr] by (simp add: work_appended_def fr)
  qed
qed

end

text \<open>
  The guards of \<open>change_lifecycle\<close> leave a living run, those of \<open>change_run\<close> an active one; a command that
  is lawful for any run is lawful for a living one, and so on.
\<close>

locale lifecycle_command = run_command fn "\<lambda>r. \<not> terminal_run r" for fn :: run_step_fn
begin

lemma change_lifecycle_step:
  assumes "engine_inv db" and "change_lifecycle env prior gen fn db = Inr (r2, db2)"
  shows "engine_inv db2 \<and> runs_next db db2 \<and> work_appended db db2"
  using change_with_step [OF assms(1) assms(2) [unfolded change_lifecycle_def]] by simp

end

locale worker_command = run_command fn "\<lambda>r. active_status (r_status r)" for fn :: run_step_fn
begin

lemma change_run_step:
  assumes "engine_inv db" and "change_run env prior gen fn db = Inr (r2, db2)"
  shows "engine_inv db2 \<and> runs_next db db2 \<and> work_appended db db2"
  using change_with_step [OF assms(1) assms(2) [unfolded change_run_def]] by simp

end

sublocale lifecycle_command \<subseteq> active: worker_command
  by unfold_locales (use lawful active_not_terminal in blast)

locale facts_command = run_command fn "\<lambda>r. True" for fn :: run_step_fn
begin

lemma change_facts_step:
  assumes "engine_inv db" and "change_action_facts env prior fn db = Inr (r2, db2)"
  shows "engine_inv db2 \<and> runs_next db db2 \<and> work_appended db db2"
  using change_with_step [OF assms(1) assms(2) [unfolded change_action_facts_def]] by simp

end

sublocale facts_command \<subseteq> living: lifecycle_command
  by unfold_locales (use lawful in blast)

section \<open>Blocks, calls and queued work\<close>

lemma append_run_block_frame:
  assumes "append_run_block env r kind body db = (r', db')"
  shows "r' = r\<lparr>r_trajectory := r_trajectory r + 1\<rparr>" "b_runs db' = b_runs db" "b_inputs db' = b_inputs db" "b_work db' = b_work db"
  using assms by (auto simp: append_run_block_def bot_id_def)

lemma settle_calls_frame [simp]:
  "b_runs (settle_calls env i st db) = b_runs db" "b_inputs (settle_calls env i st db) = b_inputs db"
  "b_work (settle_calls env i st db) = b_work db"
  by (simp_all add: settle_calls_def)

lemma queue_next_work:
  "w \<in> set (b_work (queue_next env r kind db)) \<Longrightarrow>
     w \<in> set (b_work db) \<or> (w_run w = r_id r \<and> w_version w = r_version r + 1 \<and> w_kind w = kind)"
  unfolding queue_next_def by (drule queued_work) auto

section \<open>Local steps\<close>

lemma local_stepI:
  assumes "key_of r' = key_of r" "r_version r' = r_version r" "r_input_version r' = r_input_version r"
    and "life_step (life r) (life r')" "run_row_ok r \<Longrightarrow> run_row_ok r'"
    and "b_runs db' = b_runs db" "b_inputs db' = b_inputs db" "b_work db' = b_work db"
  shows "local_step r r' db db'"
  using assms by (simp add: local_step_def work_appended_same)

lemma local_step_queue:
  assumes "local_step r r' db db'" and "r_id s = r_id r" and "r_version s = r_version r"
  shows "local_step r r' db (queue_next env s kind db')"
  using assms work_appended_trans [OF _ queue_run_appends]
  by (auto simp: local_step_def queue_next_def dest!: queued_work)

end
