(* ===== verification/Action_Laws.thy ===== *)
theory Action_Laws
  imports Run_Commands
begin

text \<open>
  What the transactions of an action do to its run: they are local, move the run along its life, and
  change one action. \<open>rebound\<close> is all that rebinding may change of an action.
\<close>

section \<open>Rows\<close>

lemma put_action_frame [simp]:
  "b_runs (put_action a db) = b_runs db" "b_inputs (put_action a db) = b_inputs db" "b_work (put_action a db) = b_work db"
  "b_receipts (put_action a db) = b_receipts db"
  by (simp_all add: put_action_def)

lemma insert_action_frame:
  assumes "insert_action a db = Inr db'"
  shows "b_runs db' = b_runs db" "b_inputs db' = b_inputs db" "b_work db' = b_work db" "b_receipts db' = b_receipts db"
    "b_actions db' = b_actions db @ [a]" "find_action db (ra_id a) = None" "submitted_action db (ra_run a) (ra_key a) = None"
  using assms by (auto simp: insert_action_def split: if_splits)

lemma park_pending_simps [simp]:
  "key_of (park_pending r) = key_of r" "r_version (park_pending r) = r_version r"
  "r_input_version (park_pending r) = r_input_version r" "life (park_pending r) = (''waiting_authorization'', r_generation r)"
  "run_row_ok r \<Longrightarrow> run_row_ok (park_pending r)"
  by (simp_all add: park_pending_def life_def)

lemma park_unknown_simps [simp]:
  "key_of (park_unknown r) = key_of r" "r_version (park_unknown r) = r_version r"
  "r_input_version (park_unknown r) = r_input_version r" "life (park_unknown r) = (''waiting_authorization'', r_generation r)"
  "run_row_ok r \<Longrightarrow> run_row_ok (park_unknown r)"
  by (simp_all add: park_unknown_def life_def)

lemma parking_step:
  assumes "run_row_ok r" "\<not> terminal_run r" "r_status r \<noteq> ''stopping''"
  shows "life_step (life r) (''waiting_authorization'', r_generation r)"
  using living_next(5) [OF assms(1,2)] assms(3) by (simp add: life_def)

section \<open>Fences\<close>

lemma authority_fenceD:
  assumes "authority_fence env db r gen input = Inr u"
  shows "\<not> terminal_run r" "r_status r \<noteq> ''stopping''" "\<not> r_revoked r" "r_generation r = gen" "r_input_version r = input"
    "participation_fence env db r = Inr ()"
  using assms by (auto simp: authority_fence_def rbind_eq_Inr split: if_splits)

lemma action_fenceD:
  assumes "action_fence env db r gen input = Inr u"
  shows "\<not> terminal_run r" "r_status r \<noteq> ''stopping''" "\<not> r_revoked r" "r_generation r = gen" "r_input_version r = input"
    "participation_fence env db r = Inr ()" "check_execution_lease env db r gen = Inr ()"
proof -
  obtain v where f: "authority_fence env db r gen input = Inr v" and l: "check_execution_lease env db r gen = Inr ()"
    using assms by (auto simp: action_fence_def rbind_eq_Inr)
  show "\<not> terminal_run r" "r_status r \<noteq> ''stopping''" "\<not> r_revoked r" "r_generation r = gen" "r_input_version r = input"
    "participation_fence env db r = Inr ()" by (rule authority_fenceD [OF f])+
  show "check_execution_lease env db r gen = Inr ()" by (rule l)
qed

section \<open>Rebinding\<close>

definition rebound :: "run_action \<Rightarrow> run_action \<Rightarrow> bool" where
  "rebound a a' \<longleftrightarrow> (\<exists>st g. a' = a\<lparr>ra_status := st, ra_generation := g\<rparr> \<and>
     (st = ra_status a \<or> (ra_status a \<in> {''pending'', ''approved''} \<and> st = ''expired'') \<or>
      (ra_status a = ''approved'' \<and> st = ''revoked'')))"

lemma withdrawn:
  assumes "withdraw_action env db r s (expire_action env a) = Inr a1"
  shows "\<exists>st. a1 = a\<lparr>ra_status := st\<rparr> \<and> (st = ra_status a \<or>
      (ra_status a \<in> {''pending'', ''approved''} \<and> st = ''expired'') \<or> (ra_status a = ''approved'' \<and> st = ''revoked''))"
proof (cases "ra_status a \<in> {''pending'', ''approved''} \<and> ra_expires a \<le> now env")
  case True
  then have "a1 = a\<lparr>ra_status := ''expired''\<rparr>" using assms by (simp add: expire_action_def withdraw_action_def)
  with True show ?thesis by blast
next
  case False
  then have e: "expire_action env a = a" unfolding expire_action_def by (rule if_not_P)
  have "a1 = a \<or> (ra_status a = ''approved'' \<and> a1 = a\<lparr>ra_status := ''revoked''\<rparr>)"
    using assms unfolding e by (auto simp: withdraw_action_def split: if_splits sum.splits)
  then show ?thesis
  proof
    assume "a1 = a"
    then have "a1 = a\<lparr>ra_status := ra_status a\<rparr>" by simp
    then show ?thesis by blast
  qed blast
qed

lemma rebind_cases:
  assumes "rebind_action env r a tool s digest db = Inr (a', r', db')"
  obtains "rebound a a'" "ra_generation a' = r_generation r" "ra_status a \<notin> {''executing'', ''unknown''}"
    "r' = r \<or> r' = park_pending r" "db' = (if a' = a then db else put_action a' db)" "same_scope a r"
    "same_definition a tool digest" "sources_current env db r a = Inr ()"
    "\<exists>doc. canonical_tool_arguments env (ra_arguments a) s tool = Inr (doc, digest)"
proof -
  from assms obtain a1 doc where src: "sources_current env db r a = Inr ()" and sc: "same_scope a r"
    and df: "same_definition a tool digest" and st: "ra_status a \<notin> {''executing'', ''unknown''}"
    and w: "withdraw_action env db r s (expire_action env a) = Inr a1"
    and cn: "canonical_tool_arguments env (ra_arguments a) s tool = Inr (doc, digest)"
    and a': "a' = a1\<lparr>ra_generation := r_generation r\<rparr>" and r': "r' = r \<or> r' = park_pending r"
    and db': "db' = (if a' = a then db else put_action a' db)"
    unfolding rebind_action_def by (auto simp: rbind_eq_Inr Let_def split: if_split_asm sum.splits prod.splits)
  obtain x where "a1 = a\<lparr>ra_status := x\<rparr>" and x: "x = ra_status a \<or>
      (ra_status a \<in> {''pending'', ''approved''} \<and> x = ''expired'') \<or> (ra_status a = ''approved'' \<and> x = ''revoked'')"
    using withdrawn [OF w] by blast
  then have "rebound a a'" using x unfolding rebound_def a' by blast
  moreover have "ra_generation a' = r_generation r" by (simp add: a')
  ultimately show thesis using that src sc df st r' db' cn by blast
qed

lemma rebind_frame:
  assumes "rebind_action env r a tool s digest db = Inr (a', r', db')"
  shows "r' = r \<or> r' = park_pending r" "b_runs db' = b_runs db" "b_inputs db' = b_inputs db" "b_work db' = b_work db"
    "b_receipts db' = b_receipts db"
  by (rule rebind_cases [OF assms]; simp)+

section \<open>The callbacks are local\<close>

lemma parked_local:
  assumes "run_row_ok r" "\<not> terminal_run r" "r_status r \<noteq> ''stopping''" "r' = r \<or> r' = park_pending r"
    and "b_runs db' = b_runs db" "b_inputs db' = b_inputs db" "b_work db' = b_work db"
  shows "local_step r r' db db'"
  using assms(4)
proof
  assume "r' = r"
  then show ?thesis using assms(5-7) by (intro local_stepI) (simp_all add: life_step_refl)
next
  assume "r' = park_pending r"
  then show ?thesis using parking_step [OF assms(1-3)] assms by (intro local_stepI) simp_all
qed

lemma bot_id_tables [simp]:
  "b_runs (snd (bot_id env db)) = b_runs db" "b_inputs (snd (bot_id env db)) = b_inputs db"
  "b_work (snd (bot_id env db)) = b_work db" "b_receipts (snd (bot_id env db)) = b_receipts db"
  "b_actions (snd (bot_id env db)) = b_actions db"
  by (simp_all add: bot_id_def)

lemma record_action_cases:
  assumes "record_action env tool s doc digest key expires r db = Inr (r', db')"
  obtains a where "insert_action a (snd (bot_id env db)) = Inr db'" "r' = (if ra_status a = ''pending'' then park_pending r else r)"
    "\<exists>target expiry member i. a = first_status env db r s (new_action env r tool doc digest target key expiry member i)"
proof -
  from assms obtain target expiry member
    where "insert_action (first_status env db r s (new_action env r tool doc digest target key expiry member
        (fst (bot_id env db)))) (snd (bot_id env db)) = Inr db'"
      and "r' = (if ra_status (first_status env db r s (new_action env r tool doc digest target key expiry member
        (fst (bot_id env db)))) = ''pending'' then park_pending r else r)"
    unfolding record_action_def Let_def case_prod_beta
    by (auto simp: rbind_eq_Inr of_option_eq_Inr simp del: insert_action_frame split: if_split_asm)
  then show thesis by (rule that) (intro exI, rule refl)
qed

lemma prepare_action_local:
  assumes ok: "run_row_ok r" and p: "prepare_action env tool arguments key expires gen input r db = Inr (r', db')"
  shows "local_step r r' db db'"
proof -
  obtain u s doc digest where f: "action_fence env db r gen input = Inr u"
    and m: "(case submitted_action db (r_id r) key of
       Some a \<Rightarrow> rbind (rebind_action env r a tool s digest db) (\<lambda>(a1, r1, db1). Inr (r1, db1))
     | None \<Rightarrow> record_action env tool s doc digest key expires r db) = Inr (r', db')"
    using p by (auto simp: prepare_action_def rbind_eq_Inr)
  note d = action_fenceD(1,2) [OF f]
  show ?thesis
  proof (cases "submitted_action db (r_id r) key")
    case (Some a)
    then obtain a1 where "rebind_action env r a tool s digest db = Inr (a1, r', db')" using m by (auto simp: rbind_eq_Inr)
    from rebind_frame [OF this] show ?thesis by (intro parked_local [OF ok d])
  next
    case None
    then have "record_action env tool s doc digest key expires r db = Inr (r', db')" using m by simp
    then obtain a where i: "insert_action a (snd (bot_id env db)) = Inr db'"
      and r': "r' = (if ra_status a = ''pending'' then park_pending r else r)"
      by (rule record_action_cases)
    note fr = insert_action_frame(1-3) [OF i]
    have "r' = r \<or> r' = park_pending r" using r' by simp
    then show ?thesis by (rule parked_local [OF ok d]) (simp_all add: fr)
  qed
qed

text \<open>A claim dispatches the rebound action, or leaves it as it is and replays.\<close>

lemma start_call_cases:
  assumes "start_call env s a r db = Inr (v, r', db')"
  obtains (replayed) answer where "v = Replayed answer" "r' = r" "db' = db" "ra_status a \<in> {''succeeded'', ''failed'', ''denied'', ''revoked''}"
  | (dispatched) a1 where "v = Dispatched a1" "a1 = a\<lparr>ra_status := ''executing'', ra_claimed := Some (now env)\<rparr>"
      "r' = r\<lparr>r_stage := ''tool''\<rparr>" "db' = put_action a1 db" "ra_status a = ''approved''" "now env < ra_expires a"
      "action_write (ra_risk a) \<longrightarrow> approval_current env db r a s = Inr ()"
  using assms unfolding start_call_def by (auto simp: rbind_eq_Inr Let_def split: if_split_asm)

lemma claim_call_cases:
  assumes "claim_call env i tool gen input r db = Inr (v, r', db')"
  obtains s a a1 r1 db1 where "action_fence env db r gen input = Inr ()" "current_action_tool db r tool = Inr s"
    "find_action db i = Some a" "rebind_action env r a tool s (ra_parameters a) db = Inr (a1, r1, db1)"
    "start_call env s a1 r1 db1 = Inr (v, r', db')"
  using assms unfolding claim_call_def by (auto simp: rbind_eq_Inr of_option_eq_Inr)

lemma claim_action_local:
  assumes ok: "run_row_ok r" and c: "claim_action env i tool gen input r db = Inr (r', db')"
  shows "local_step r r' db db'"
proof -
  obtain v where "claim_call env i tool gen input r db = Inr (v, r', db')"
    using c by (auto simp: claim_action_def map_sum_def split: sum.splits prod.splits)
  then obtain s a a1 r1 db1 where f: "action_fence env db r gen input = Inr ()"
    and b: "rebind_action env r a tool s (ra_parameters a) db = Inr (a1, r1, db1)"
    and st: "start_call env s a1 r1 db1 = Inr (v, r', db')"
    by (rule claim_call_cases)
  note d = action_fenceD(1,2) [OF f] and fr = rebind_frame [OF b]
  have l: "local_step r r1 db db1" by (rule parked_local [OF ok d fr(1,2,3,4)])
  from st show ?thesis
  proof (cases rule: start_call_cases)
    case replayed
    with l show ?thesis by simp
  next
    case (dispatched a2)
    with l show ?thesis by (auto simp: local_step_def life_def work_appended_def)
  qed
qed

lemma call_boundary_cases: "call_boundary env a tool r db = Inr (r', db') \<Longrightarrow> r' = r \<and> db' = db"
  by (auto simp: call_boundary_def rbind_eq_Inr split: option.splits if_split_asm)

lemma share_confirmation_cases:
  assumes "share_confirmation env user a r db = Inr (r', db')"
  obtains live own where "r' = r" "run_action_row db (ra_id a) (r_id r) = Some live" "ra_status live = ''pending''"
    "db' = put_action (live\<lparr>ra_shared := Some (now env), ra_shared_owner := own\<rparr>) db"
proof -
  from assms have "\<exists>live own. r' = r \<and> run_action_row db (ra_id a) (r_id r) = Some live \<and> ra_status live = ''pending'' \<and>
    db' = put_action (live\<lparr>ra_shared := Some (now env), ra_shared_owner := own\<rparr>) db"
    unfolding share_confirmation_def
    by (auto simp: rbind_eq_Inr of_option_eq_Inr split: if_split_asm)
  then show thesis using that by blast
qed

lemma accept_outcome_frame:
  assumes "accept_outcome env outcome a r db = Inr (a', r')"
  shows "key_of r' = key_of r" "r_version r' = r_version r" "r_input_version r' = r_input_version r" "life r' = life r"
    "run_row_ok r' = run_row_ok r" "\<exists>p. a' = a\<lparr>ra_provenance := p\<rparr>"
proof -
  have "(a' = a \<and> r' = r) \<or> (\<exists>ms ss vs. r' = r\<lparr>r_materials := ms, r_sources := ss, r_provenance := vs\<rparr> \<and>
      a' = a\<lparr>ra_provenance := vs\<rparr>)"
    using assms unfolding accept_outcome_def Let_def
    by (cases outcome) (auto simp: rbind_eq_Inr)
  then show "key_of r' = key_of r" "r_version r' = r_version r" "r_input_version r' = r_input_version r" "life r' = life r"
    "run_row_ok r' = run_row_ok r" "\<exists>p. a' = a\<lparr>ra_provenance := p\<rparr>"
    by (auto simp: life_def intro: exI [of _ "ra_provenance a"])
qed

lemma record_outcome_cases:
  assumes "record_outcome env a st result outcome r db = Inr (r', db')"
  obtains live a1 r1 where "run_action_row db (ra_id a) (r_id r) = Some live" "same_claim a live"
    "check_execution_lease env db r (ra_generation a) = Inr ()" "db' = put_action a1 db"
    "\<exists>p t. a1 = live\<lparr>ra_status := st, ra_completed := Some (now env), ra_provenance := p, ra_result := t\<rparr>"
    "key_of r1 = key_of r" "r_version r1 = r_version r" "r_input_version r1 = r_input_version r" "life r1 = life r"
    "run_row_ok r1 = run_row_ok r"
    "r' = (if st = ''unknown'' \<and> \<not> terminal_run r \<and> r_status r \<noteq> ''stopping'' then park_unknown r1 else r1)"
proof -
  from assms obtain live a1 r1 where row: "run_action_row db (ra_id a) (r_id r) = Some live" and cl: "same_claim a live"
    and le: "check_execution_lease env db r (ra_generation a) = Inr ()"
    and acc: "(if ra_source_invalidated live then Inr (live\<lparr>ra_status := st, ra_completed := Some (now env)\<rparr>, r)
       else rbind (accept_outcome env outcome (live\<lparr>ra_status := st, ra_completed := Some (now env)\<rparr>) r db)
         (\<lambda>(a1, r1). Inr (a1\<lparr>ra_result := result\<rparr>, r1))) = Inr (a1, r1)"
    and r': "r' = (if st = ''unknown'' \<and> \<not> terminal_run r \<and> r_status r \<noteq> ''stopping'' then park_unknown r1 else r1)"
    and db': "db' = put_action a1 db"
    unfolding record_outcome_def Let_def
    by (auto simp: rbind_eq_Inr of_option_eq_Inr split: if_split_asm)
  let ?l = "live\<lparr>ra_status := st, ra_completed := Some (now env)\<rparr>"
  have "(a1 = ?l \<and> r1 = r) \<or> (\<exists>a2. accept_outcome env outcome ?l r db = Inr (a2, r1) \<and> a1 = a2\<lparr>ra_result := result\<rparr>)"
    using acc by (auto simp: rbind_eq_Inr split: if_split_asm)
  then have "(\<exists>p t. a1 = ?l\<lparr>ra_provenance := p, ra_result := t\<rparr>) \<and> key_of r1 = key_of r \<and> r_version r1 = r_version r \<and>
    r_input_version r1 = r_input_version r \<and> life r1 = life r \<and> run_row_ok r1 = run_row_ok r"
  proof (elim disjE exE conjE)
    assume e: "a1 = ?l" "r1 = r"
    have "?l = ?l\<lparr>ra_provenance := ra_provenance live, ra_result := ra_result live\<rparr>" by simp
    then show ?thesis using e by blast
  next
    fix a2 assume e: "accept_outcome env outcome ?l r db = Inr (a2, r1)" "a1 = a2\<lparr>ra_result := result\<rparr>"
    note f = accept_outcome_frame [OF e(1)]
    from f(6) obtain p where "a2 = ?l\<lparr>ra_provenance := p\<rparr>" by blast
    then have "a1 = ?l\<lparr>ra_provenance := p, ra_result := result\<rparr>" using e(2) by simp
    then show ?thesis using f(1-5) by blast
  qed
  then show thesis using that row cl le db' r' by blast
qed

lemma record_outcome_local:
  assumes ok: "run_row_ok r" and c: "record_outcome env a st result outcome r db = Inr (r', db')"
  shows "local_step r r' db db'"
  using c
proof (cases rule: record_outcome_cases)
  case (1 live a1 r1)
  show ?thesis
  proof (cases "st = ''unknown'' \<and> \<not> terminal_run r \<and> r_status r \<noteq> ''stopping''")
    case True
    have "r_generation r1 = r_generation r" using 1(9) by (simp add: life_def)
    moreover have "r' = park_unknown r1" using 1(11) if_P [OF True] by metis
    moreover have "life_step (life r) (''waiting_authorization'', r_generation r)"
      using True by (intro parking_step [OF ok]) blast+
    ultimately show ?thesis using 1(4,6-8,10) ok by (intro local_stepI) simp_all
  next
    case False
    then have "r' = r1" using 1(11) if_not_P [OF False] by metis
    then show ?thesis using 1(4,6-10) ok by (intro local_stepI) (simp_all add: life_step_refl)
  qed
qed

lemma guard_off: "(if A then Inl e else X) = Inr y \<Longrightarrow> \<not> A"
  by (simp split: if_split_asm)

lemma settle_decision_cases:
  assumes "settle_decision env user q a r db = Inr (r', db')"
  obtains (again) "r' = r" "db' = db"
  | (decided) a1 where "ra_status a = ''pending'' \<or> (aq_op q = ''revoke'' \<and> ra_status a = ''approved'')"
      "\<exists>e. a1 = a\<lparr>ra_expires := e, ra_status := desired_status (aq_op q), ra_approver := user\<rparr> \<and> e \<le> ra_expires a"
      "r' = r \<or> (r_status r = ''waiting_authorization'' \<and>
         r' = r\<lparr>r_status := ''running'', r_stage := ''action_decided'', r_waiting := []\<rparr>)"
      "db' = put_action a1 db \<or> db' = queue_next env r' ''execute'' (put_action a1 db)"
proof -
  define e where "e = (if aq_expires q \<noteq> 0 then aq_expires q * second else ra_expires a)"
  define a1 where "a1 = a\<lparr>ra_expires := e, ra_status := desired_status (aq_op q), ra_approver := user\<rparr>"
  define r1 where "r1 = r\<lparr>r_status := ''running'', r_stage := ''action_decided'', r_waiting := []\<rparr>"
  define fin where "fin = (if r_status r = ''waiting_authorization'' \<and> r_stage r = ''pending_action''
      then Inr (r1, if r_executor r = ''builtin'' then queue_next env r1 ''execute'' (put_action a1 db) else put_action a1 db)
      else Inr (r, put_action a1 db) :: err + (run \<times> bot_db))"
  let ?again = "ra_status a = desired_status (aq_op q) \<or>
         (aq_op q = ''approve'' \<and> ra_status a \<in> {''executing'', ''succeeded'', ''failed'', ''unknown''})"
  let ?late = "ra_status a \<noteq> ''pending'' \<and> \<not> (aq_op q = ''revoke'' \<and> ra_status a = ''approved'')"
  let ?long = "aq_expires q \<noteq> 0 \<and> (aq_expires q * second \<le> now env \<or> ra_expires a < aq_expires q * second)"
  have m: "(if ?again then Inr (r, db) else if ?late then Inl (suspended ''action decision already final'')
      else if ?long then Inl (invalid_argument ''approval cannot extend action lifetime'') else fin) = Inr (r', db')"
    using assms unfolding settle_decision_def Let_def fin_def a1_def e_def r1_def .
  show thesis
  proof (cases ?again)
    case True
    then show thesis using m again unfolding if_P [OF True] by simp
  next
    case False
    note m1 = m [unfolded if_not_P [OF False]]
    have late: "\<not> ?late" by (rule guard_off [OF m1])
    note m2 = m1 [unfolded if_not_P [OF late]]
    have long: "\<not> ?long" by (rule guard_off [OF m2])
    note m3 = m2 [unfolded if_not_P [OF long]]
    have st: "ra_status a = ''pending'' \<or> (aq_op q = ''revoke'' \<and> ra_status a = ''approved'')" using late by blast
    have le: "e \<le> ra_expires a" using long by (auto simp: e_def)
    have n: "(r' = r \<or> (r_status r = ''waiting_authorization'' \<and> r' = r1)) \<and>
        (db' = put_action a1 db \<or> db' = queue_next env r' ''execute'' (put_action a1 db))"
    proof (cases "r_status r = ''waiting_authorization'' \<and> r_stage r = ''pending_action''")
      case True
      note m4 = m3 [unfolded fin_def if_P [OF True]]
      show ?thesis using m4 True by (cases "r_executor r = ''builtin''") auto
    next
      case False
      then show ?thesis using m3 [unfolded fin_def if_not_P [OF False]] by simp
    qed
    moreover have "\<exists>e. a1 = a\<lparr>ra_expires := e, ra_status := desired_status (aq_op q), ra_approver := user\<rparr> \<and> e \<le> ra_expires a"
      using le a1_def by blast
    ultimately show thesis using st n decided [of a1] unfolding r1_def by blast
  qed
qed

lemma decide_action_settles:
  assumes "decide_action env user q tool a r db = Inr (r', db')"
  shows "settle_decision env user q a r db = Inr (r', db')" "authority_fence env db r (ra_generation a) (ra_input_version a) = Inr ()"
    "current_scope env db r a = Inr ()" "ra_definition a = tr_definition tool"
    "\<exists>s. current_action_tool db r tool = Inr s \<and> same_parameters env q a s = Inr ()"
  using assms unfolding decide_action_def by (auto simp: rbind_eq_Inr split: if_split_asm)

lemma decide_action_local:
  assumes ok: "run_row_ok r" and c: "decide_action env user q tool a r db = Inr (r', db')"
  shows "local_step r r' db db'"
  using decide_action_settles(1) [OF c]
proof (cases rule: settle_decision_cases)
  case again
  then show ?thesis by (intro local_stepI) (simp_all add: life_step_refl)
next
  case (decided a1)
  have l: "local_step r r' db (put_action a1 db)"
  proof -
    from decided(3) show "local_step r r' db (put_action a1 db)"
    proof
    assume "r' = r" then show ?thesis by (intro local_stepI) (simp_all add: life_step_refl)
  next
    assume w: "r_status r = ''waiting_authorization'' \<and>
         r' = r\<lparr>r_status := ''running'', r_stage := ''action_decided'', r_waiting := []\<rparr>"
    then have "status_next (r_status r) ''running''" by (simp add: status_next_def)
    with w ok show ?thesis by (intro local_stepI) (simp_all add: life_def)
    qed
  qed
  have "r_id r' = r_id r" "r_version r' = r_version r" using decided(3) by auto
  with l decided(4) show ?thesis by (auto intro: local_step_queue)
qed

end
