(* ===== verification/Run_Callbacks.thy ===== *)
theory Run_Callbacks
  imports Action_Laws
begin

text \<open>
  Every callback of \<open>Run_Worker\<close> is lawful. \<open>worker_fn\<close> and \<open>lifecycle_fn\<close> name the callbacks that
  \<open>change_run\<close> and \<open>change_lifecycle\<close> are called with; the interpretations of the contracts of
  \<open>Run_Commands\<close> on them are what the properties of the engine rest on.
\<close>

section \<open>Execution\<close>

lemma append_block_frame:
  assumes "append_block env body p (r, db) = (r', db')"
  shows "r' = r\<lparr>r_trajectory := r_trajectory r + 1\<rparr>" "b_runs db' = b_runs db" "b_inputs db' = b_inputs db" "b_work db' = b_work db"
  using assms
  by (auto simp: append_block_def append_run_block_def bot_id_def)

text \<open>What appending the accepted inputs may do to a row and to the tables.\<close>

definition appended :: "run \<Rightarrow> bot_db \<Rightarrow> run \<Rightarrow> bot_db \<Rightarrow> bool" where
  "appended r db r' db' \<longleftrightarrow>
     key_of r' = key_of r \<and> r_version r' = r_version r \<and> r_input_version r' = r_input_version r \<and>
     life r' = life r \<and> (run_row_ok r \<longrightarrow> run_row_ok r') \<and>
     r_applied_input r \<le> r_applied_input r' \<and> r_trajectory r \<le> r_trajectory r' \<and>
     b_runs db' = b_runs db \<and> b_inputs db' = b_inputs db \<and> b_work db' = b_work db"

lemma appended_refl: "appended r db r db"
  by (simp add: appended_def)

lemma appended_trans: "appended r db s db1 \<Longrightarrow> appended s db1 t db2 \<Longrightarrow> appended r db t db2"
  by (auto simp: appended_def)

lemma appended_block:
  assumes "append_block env body p (r, db) = (r', db')"
  shows "appended r db r' db'"
  using append_block_frame [OF assms] by (auto simp: appended_def life_def dest: row_ok_bounds)

lemma appended_materials: "append_materials env ms (r, db) = (r', db') \<Longrightarrow> appended r db r' db'"
proof (induction ms arbitrary: r db)
  case Nil
  then show ?case by (simp add: append_materials_def appended_refl)
next
  case (Cons m ms)
  obtain r1 db1 where b: "append_block env (Material_Body m) (material_provenance [m]) (r, db) = (r1, db1)"
    by (metis surj_pair)
  from Cons.prems have "append_materials env ms (r1, db1) = (r', db')" by (simp add: append_materials_def b)
  from appended_trans [OF appended_block [OF b] Cons.IH [OF this]] show ?case .
qed

lemma appended_input:
  assumes "append_input env i (r, db) = Inr (r', db')" and "in_version i \<le> r_input_version r"
  shows "appended r db r' db' \<and> r_applied_input r' = r_applied_input r + 1"
proof -
  have v: "in_version i = r_applied_input r + 1" using assms(1) by (simp add: append_input_def split: if_splits)
  show ?thesis
  proof (cases "in_invalidated i")
    case True
    then have "r' = r\<lparr>r_applied_input := in_version i\<rparr>" "db' = db" using assms(1) v by (auto simp: append_input_def)
    then show ?thesis using v assms(2)
      by (auto simp: appended_def life_def dest: row_ok_bounds)
  next
    case False
    obtain r1 db1 where m: "append_materials env (in_materials i) (r, db) = (r1, db1)" by (metis surj_pair)
    obtain r2 db2 where b: "append_block env (Input_Body (in_version i) (in_requester i) (sender_kind r i)
        (in_source_message i) (in_content i)) (body_sources i) (r1, db1) = (r2, db2)" by (metis surj_pair)
    have r': "r' = r2\<lparr>r_applied_input := in_version i, r_waiting := []\<rparr>" "db' = db2"
      using assms(1) v False b [unfolded v] by (simp_all add: append_input_def m)
    have a: "appended r db r2 db2" using appended_trans [OF appended_materials [OF m] appended_block [OF b]] .
    then have le: "r_input_version r2 = r_input_version r" "r_applied_input r \<le> r_applied_input r2" by (auto simp: appended_def)
    then have "appended r db r' db'" using a v assms(2)
      by (auto simp: appended_def life_def r' dest: row_ok_bounds)
    then show ?thesis using v r' by simp
  qed
qed

lemma appended_inputs:
  assumes "append_inputs env r db = Inr (r', db')"
  shows "appended r db r' db'"
proof -
  have fold: "appended r0 db0 r' db'"
    if "rfold (append_input env) is (r0, db0) = Inr (r', db')" "\<forall>i\<in>set is. in_version i \<le> r_input_version r0" for "is" r0 db0
    using that
  proof (induction "is" arbitrary: r0 db0)
    case Nil
    then show ?case by (simp add: appended_refl)
  next
    case (Cons i "is")
    obtain r1 db1 where s: "append_input env i (r0, db0) = Inr (r1, db1)"
      and t: "rfold (append_input env) is (r1, db1) = Inr (r', db')"
      using Cons.prems(1) by (auto simp: rbind_eq_Inr)
    have a: "appended r0 db0 r1 db1" using appended_input [OF s] Cons.prems(2) by simp
    then have "r_input_version r1 = r_input_version r0" by (simp add: appended_def)
    then have "appended r1 db1 r' db'" using Cons.IH [OF t] Cons.prems(2) by simp
    with a show ?case by (rule appended_trans)
  qed
  show ?thesis
  proof (cases "\<exists>c\<in>set (b_calls db). mc_run c = r_id r \<and> mc_status c = ''requested''")
    case True
    then show ?thesis using assms by (simp add: append_inputs_def appended_refl)
  next
    case False
    then have "rfold (append_input env) (unapplied_inputs db r) (r, db) = Inr (r', db')"
      using assms by (simp only: append_inputs_def if_not_P [OF False] if_False)
    then show ?thesis by (rule fold) (simp add: unapplied_inputs_def)
  qed
qed

lemma appended_local: "appended r db r' db' \<Longrightarrow> local_step r r' db db'"
  by (auto simp: appended_def local_step_def life_step_refl work_appended_same)

lemma start_run_local:
  assumes "active_status (r_status r)" and "start_run env r db = Inr (r', db')"
  shows "local_step r r' db db'"
proof -
  let ?r1 = "r\<lparr>r_status := ''running'', r_stage := ''preparing'', r_delivery_status := ''acknowledged'',
                   r_executor_status := ''accepted''\<rparr>"
  obtain r2 db2 where b: "append_block env (Text_Body ''system'' (xc_system_prompt (r_config r))) [] (?r1, db) = (r2, db2)"
    by (metis surj_pair)
  have i: "append_inputs env r2 db2 = Inr (r', db')" using assms(2) b
    by (auto simp: start_run_def Let_def split: if_splits)
  have "appended ?r1 db r' db'" by (rule appended_trans [OF appended_block [OF b] appended_inputs [OF i]])
  then have a: "key_of r' = key_of r" "r_version r' = r_version r" "r_input_version r' = r_input_version r"
    "life r' = (''running'', r_generation r)" "run_row_ok r \<Longrightarrow> run_row_ok r'"
    "b_runs db' = b_runs db" "b_inputs db' = b_inputs db" "b_work db' = b_work db"
    by (simp_all add: appended_def life_def)
  have "life_step (life r) (life r')" using assms(1) unfolding a(4) by (simp add: life_def status_next_active)
  then show ?thesis by (intro local_stepI a) (simp_all add: a)
qed

lemma continue_run_local:
  assumes "active_status (r_status r)" and "continue_run r db = Inr (r', db')"
  shows "local_step r r' db db'"
  using assms by (cases "r_stage r = ''executor_lost''")
    (auto simp: continue_run_def Let_def life_def status_next_active intro!: local_stepI)

lemma wait_for_input_local: "wait_for_input env reason content r db = Inr (r', db') \<Longrightarrow> local_step r r' db db'"
  by (auto simp: wait_for_input_def append_run_block_def bot_id_def Let_def life_def intro!: local_stepI)

lemma queue_output_local: "queue_output env r db = Inr (r', db') \<Longrightarrow> local_step r r' db db'"
  by (auto simp: queue_output_def Let_def life_def intro!: local_step_queue local_stepI)

section \<open>Stopping\<close>

lemma request_run_stop_local:
  assumes ok: "run_row_ok r" and t: "\<not> terminal_run r" and s: "request_run_stop env reason r db = Inr (r', db')"
  shows "local_step r r' db db'"
proof -
  note nx = living_next [OF ok t]
  show ?thesis
  proof (cases "r_executor_status r = ''completed''")
    case True
    then show ?thesis using s nx
      by (auto simp: request_run_stop_def Let_def life_def split: option.splits if_splits intro!: local_stepI)
  next
    case c: False
    show ?thesis
    proof (cases "r_stop_status r = ''requested'' \<or> r_stop_status r = ''unknown''")
      case True
      then show ?thesis using s c nx
        by (auto simp: request_run_stop_def Let_def life_def split: if_splits intro!: local_stepI)
    next
      case False
      then show ?thesis using s c nx
        by (auto simp: request_run_stop_def Let_def life_def split: if_splits intro!: local_step_queue local_stepI)
    qed
  qed
qed

section \<open>Lifecycle\<close>

lemma fail_run_local:
  assumes "run_row_ok r" "\<not> terminal_run r" "fail_run env reason output r db = Inr (r', db')"
  shows "local_step r r' db db'"
  using assms living_next [OF assms(1,2)]
  by (auto simp: fail_run_def Let_def life_def split: if_splits intro!: local_stepI)

lemma commit_output_local:
  assumes "run_row_ok r" "\<not> terminal_run r" "commit_output msg r db = Inr (r', db')"
  shows "local_step r r' db db'"
  using assms living_next [OF assms(1,2)] by (auto simp: commit_output_def life_def intro!: local_stepI)

lemma commit_personal_local:
  assumes "run_row_ok r" "\<not> terminal_run r" "commit_personal env fence r db = Inr (r', db')"
  shows "local_step r r' db db'"
  using assms living_next [OF assms(1,2)]
  by (auto simp: commit_personal_def rbind_eq_Inr life_def intro!: local_stepI)

lemma confirm_builtin_stop_local:
  assumes "run_row_ok r" "\<not> terminal_run r" "confirm_builtin_stop env r db = Inr (r', db')"
  shows "local_step r r' db db'"
  using assms living_next [OF assms(1,2)]
  by (auto simp: confirm_builtin_stop_def Let_def life_def split: if_splits intro!: local_stepI)

lemma lose_executor_local:
  assumes "lose_executor env seen r db = Inr (r', db')"
  shows "local_step r r' db db'"
  using assms
  by (auto simp: lose_executor_def rbind_eq_Inr Let_def life_def split: if_splits sum.splits intro!: local_stepI)

lemma drop_controls_local: "drop_controls stale r db = Inr (r', db') \<Longrightarrow> local_step r r' db db'"
  by (auto simp: drop_controls_def Let_def life_def intro!: local_stepI)

lemma lose_controller_local:
  assumes "run_row_ok r" "\<not> terminal_run r" "lose_controller env reason r db = Inr (r', db')"
  shows "local_step r r' db db'"
proof (cases "r_status r = ''stopping''")
  case True
  then show ?thesis using assms by (auto simp: lose_controller_def life_step_refl intro!: local_stepI)
next
  case False
  have "active_status (r_status r) \<or> r_status r = ''waiting_authorization''"
    using living_cases [OF assms(1,2)] False by blast
  then show ?thesis using assms False living_next(5) [OF assms(1,2)]
    by (auto simp: lose_controller_def Let_def life_def split: if_splits intro!: local_step_queue local_stepI)
qed

lemma apply_authority_local:
  assumes ok: "run_row_ok r" and t: "\<not> terminal_run r" and a: "apply_authority env seen reason r db = Inr (r', db')"
  shows "local_step r r' db db'"
proof (cases "reason = ''controller_membership_lost''")
  case True
  then have "lose_controller env reason r db = Inr (r', db')" using a by (auto simp: apply_authority_def rbind_eq_Inr)
  then show ?thesis by (rule lose_controller_local [OF ok t])
next
  case False
  then have "request_run_stop env reason (r\<lparr>r_revoked := True\<rparr>) db = Inr (r', db')"
    using a by (auto simp: apply_authority_def rbind_eq_Inr)
  then have "local_step (r\<lparr>r_revoked := True\<rparr>) r' db db'"
    using ok t by (intro request_run_stop_local) (simp_all add: terminal_run_def)
  then show ?thesis by (simp add: local_step_def life_def)
qed

lemma unconfirmed_stop_local: "unconfirmed_stop env r db = Inr (r', db') \<Longrightarrow> local_step r r' db db'"
  by (auto simp: unconfirmed_stop_def life_def life_step_refl split: if_splits intro!: local_stepI)

lemma mark_delivered_local: "mark_delivered g v r db = Inr (r', db') \<Longrightarrow> local_step r r' db db'"
  by (auto simp: mark_delivered_def life_def life_step_refl split: if_splits intro!: local_stepI)

lemma undeliverable_local:
  assumes "run_row_ok r" "\<not> terminal_run r" "undeliverable env g reason r db = Inr (r', db')"
  shows "local_step r r' db db'"
  using assms request_run_stop_local by (auto simp: undeliverable_def split: if_splits)

lemma guarded_pair: "(if A then Inl e else Inr (if B then x else y, d)) = Inr (s, d') \<Longrightarrow> d' = d \<and> (s = y \<or> B \<and> s = x)"
  by (auto split: if_splits)

lemma recover_actions_local:
  assumes "run_row_ok r" "recover_actions env r db = Inr (r', db')"
  shows "local_step r r' db db'"
proof -
  let ?park = "r\<lparr>r_status := ''waiting_authorization'', r_stage := ''action_outcome_unknown'',
                          r_waiting := ''action_outcome_unknown'', r_stream_status := ''closed''\<rparr>"
  have d: "db' = db\<lparr>b_actions := map (recover_action env db r) (b_actions db)\<rparr>"
    and r: "r' = r \<or> (\<not> terminal_run r \<and> r_status r \<noteq> ''stopping'' \<and> r' = ?park)"
    using guarded_pair [OF assms(2) [unfolded recover_actions_def Let_def]] by blast+
  from r show ?thesis
  proof
    assume "r' = r"
    then show ?thesis by (intro local_stepI) (simp_all add: d life_step_refl)
  next
    assume p: "\<not> terminal_run r \<and> r_status r \<noteq> ''stopping'' \<and> r' = ?park"
    then have "status_next (r_status r) ''waiting_authorization''" using living_next(5) [OF assms(1)] by blast
    with p show ?thesis by (intro local_stepI) (simp_all add: d life_def)
  qed
qed

section \<open>The commands of the worker and of the monitor\<close>

datatype worker_cmd =
  Start | Continue | Append_Inputs | Wait_Input string string | Queue_Output
| Claim_Call string tool_ref int int | Check_Call run_action tool_ref

fun worker_fn :: "bot_env \<Rightarrow> worker_cmd \<Rightarrow> run_step_fn" where
  "worker_fn env Start = start_run env"
| "worker_fn env Continue = continue_run"
| "worker_fn env Append_Inputs = append_inputs env"
| "worker_fn env (Wait_Input reason content) = wait_for_input env reason content"
| "worker_fn env Queue_Output = queue_output env"
| "worker_fn env (Claim_Call i tool gen input) = claim_action env i tool gen input"
| "worker_fn env (Check_Call a tool) = call_boundary env a tool"

datatype lifecycle_cmd =
  Fail string bool | Confirm_Stop | Lose_Executor run | Drop_Controls "string list" | Authority run string
| Unconfirmed_Stop | Delivered int int | Undeliverable int string | Commit string | Commit_Personal "run \<Rightarrow> err + unit"
| Prepare_Call tool_ref string string int int int | Share_Call string run_action

fun lifecycle_fn :: "bot_env \<Rightarrow> lifecycle_cmd \<Rightarrow> run_step_fn" where
  "lifecycle_fn env (Fail reason output) = fail_run env reason output"
| "lifecycle_fn env Confirm_Stop = confirm_builtin_stop env"
| "lifecycle_fn env (Lose_Executor seen) = lose_executor env seen"
| "lifecycle_fn env (Drop_Controls stale) = drop_controls stale"
| "lifecycle_fn env (Authority seen reason) = apply_authority env seen reason"
| "lifecycle_fn env Unconfirmed_Stop = unconfirmed_stop env"
| "lifecycle_fn env (Delivered g v) = mark_delivered g v"
| "lifecycle_fn env (Undeliverable g reason) = undeliverable env g reason"
| "lifecycle_fn env (Commit msg) = commit_output msg"
| "lifecycle_fn env (Commit_Personal fence) = commit_personal env fence"
| "lifecycle_fn env (Prepare_Call tool arguments key expires gen input) = prepare_action env tool arguments key expires gen input"
| "lifecycle_fn env (Share_Call user a) = share_confirmation env user a"

text \<open>The facts about actions, which are recorded of a finished run too.\<close>

datatype facts_cmd = Recovery | Record_Call run_action bool "knowledge_outcome option" string

fun facts_fn :: "bot_env \<Rightarrow> facts_cmd \<Rightarrow> run_step_fn" where
  "facts_fn env Recovery = recover_actions env"
| "facts_fn env (Record_Call a call_failed outcome answer) =
     record_outcome env a (outcome_status a call_failed outcome) (outcome_result env a call_failed outcome answer) outcome"

lemma call_boundary_local: "call_boundary env a tool r db = Inr (r', db') \<Longrightarrow> local_step r r' db db'"
  by (drule call_boundary_cases) (simp add: local_lawful local_stepI life_step_refl)

lemma share_confirmation_local:
  assumes "share_confirmation env user a r db = Inr (r', db')"
  shows "local_step r r' db db'"
  by (rule share_confirmation_cases [OF assms]) (simp add: local_stepI life_step_refl)

lemma worker_fn_local:
  "run_row_ok r \<Longrightarrow> active_status (r_status r) \<Longrightarrow> worker_fn env c r db = Inr (r', db') \<Longrightarrow> local_step r r' db db'"
  by (cases c) (auto intro: start_run_local continue_run_local appended_local appended_inputs wait_for_input_local
      queue_output_local claim_action_local call_boundary_local)

lemma lifecycle_fn_local:
  "run_row_ok r \<Longrightarrow> \<not> terminal_run r \<Longrightarrow> lifecycle_fn env c r db = Inr (r', db') \<Longrightarrow> local_step r r' db db'"
  by (cases c) (auto intro: fail_run_local confirm_builtin_stop_local lose_executor_local drop_controls_local
      apply_authority_local unconfirmed_stop_local mark_delivered_local undeliverable_local commit_output_local
      commit_personal_local prepare_action_local share_confirmation_local)

lemma facts_fn_local: "run_row_ok r \<Longrightarrow> facts_fn env c r db = Inr (r', db') \<Longrightarrow> local_step r r' db db'"
  by (cases c) (auto intro: recover_actions_local record_outcome_local)

interpretation worker: worker_command "worker_fn env c" for env c
  by unfold_locales (blast intro: local_lawful worker_fn_local engine_row_ok)

interpretation lifecycle: lifecycle_command "lifecycle_fn env c" for env c
  by unfold_locales (blast intro: local_lawful lifecycle_fn_local engine_row_ok)

interpretation facts: facts_command "facts_fn env c" for env c
  by unfold_locales (blast intro: local_lawful facts_fn_local engine_row_ok)

interpretation decision: lifecycle_command "decide_action env user q tool a" for env user q tool a
  by unfold_locales (blast intro: local_lawful decide_action_local engine_row_ok)

text \<open>A decision is answered by its receipt, or applied, committed and recorded.\<close>

lemma decide_once_cases:
  assumes "decide_once env checked i user q tool digest db = Inr (a', db2)"
  obtains r a where "find_run db (r_id checked) = Some r" "run_action_row db i (r_id r) = Some a"
    "decision_rights env user a r db = Inr ()"
    "(db2 = db \<and> (\<exists>p. find_receipt db (r_id checked) (decision_key user q) = Some p \<and> rc_hash p = digest)) \<or>
     (\<not> terminal_run r \<and> find_receipt db (r_id checked) (decision_key user q) = None \<and>
      (\<exists>r1 db1 r2 db3. decide_action env user q tool a r db = Inr (r1, db1) \<and>
         commit_run env (r_stage r) r1 db1 = Inr (r2, db3) \<and> put_receipt env (r_id checked) (decision_key user q) digest db3 = Inr db2))"
proof -
  define answer where "answer (ia :: interaction) (r :: run) (a :: run_action) = (case find_receipt db (r_id r) (decision_key user q) of
         Some p \<Rightarrow>
           if rc_hash p \<noteq> digest then Inl (Status AlreadyExists ''action decision key has different content'')
           else Inr (a, db)
       | None \<Rightarrow>
           if terminal_run r \<or> ia_status ia \<noteq> ''active''
           then Inl (suspended ''Run no longer accepts new action decisions'')
           else
             rbind (decide_action env user q tool a r db) (\<lambda>(r1, db1).
             rbind (commit_run env (r_stage r) r1 db1) (\<lambda>(r2, db2).
             rbind (put_receipt env (r_id r) (decision_key user q) digest db2) (\<lambda>db3.
             Inr ((case run_action_row db3 i (r_id r) of None \<Rightarrow> a | Some a1 \<Rightarrow> a1), db3)))))" for ia :: interaction and r :: run and a :: run_action
  have "decide_once env checked i user q tool digest db =
     rbind (lock_run_conversation db (r_conv checked)) (\<lambda>_.
     rbind (lock_delegation_tree db checked) (\<lambda>_.
     rbind (of_option RecordNotFound (find (\<lambda>x. ia_id x = r_interaction checked) (b_interactions db))) (\<lambda>ia.
     rbind (of_option RecordNotFound (find_run db (r_id checked))) (\<lambda>r.
     if r_version r \<noteq> r_version checked then Inl action_changed
     else rbind (of_option RecordNotFound (run_action_row db i (r_id r))) (\<lambda>a.
       rbind (decision_rights env user a r db) (\<lambda>_. answer ia r a))))))"
    unfolding decide_once_def get_run_def answer_def by (rule refl)
  with assms obtain ia r a where r: "find_run db (r_id checked) = Some r" and a: "run_action_row db i (r_id r) = Some a"
    and rights: "decision_rights env user a r db = Inr ()" and m: "answer ia r a = Inr (a', db2)"
    by (auto simp: rbind_eq_Inr of_option_eq_Inr split: if_split_asm)
  note m = m [unfolded answer_def]
  have i: "r_id r = r_id checked" using r by (rule find_run_id)
  have "(db2 = db \<and> (\<exists>p. find_receipt db (r_id checked) (decision_key user q) = Some p \<and> rc_hash p = digest)) \<or>
     (\<not> terminal_run r \<and> find_receipt db (r_id checked) (decision_key user q) = None \<and>
      (\<exists>r1 db1 r2 db3. decide_action env user q tool a r db = Inr (r1, db1) \<and>
         commit_run env (r_stage r) r1 db1 = Inr (r2, db3) \<and> put_receipt env (r_id checked) (decision_key user q) digest db3 = Inr db2))"
  proof (cases "find_receipt db (r_id r) (decision_key user q)")
    case None
    then show ?thesis using m i by (auto simp: rbind_eq_Inr split: if_split_asm)
  next
    case (Some p)
    then show ?thesis using m i by (auto split: if_split_asm)
  qed
  then show thesis using that r a rights by blast
qed

lemma decide_once_step:
  assumes inv: "engine_inv db" and c: "decide_once env checked i user q tool digest db = Inr (a', db2)"
  shows "engine_inv db2 \<and> runs_next db db2 \<and> work_appended db db2"
  using c
proof (cases rule: decide_once_cases)
  case (1 r a)
  then have i: "find_run db (r_id r) = Some r" using find_run_id by metis
  from 1(4) show ?thesis
  proof (elim disjE exE conjE)
    assume "db2 = db" then show ?thesis using inv by (simp add: runs_next_same work_appended_same)
  next
    fix r1 db1 r2 db3
    assume t: "\<not> terminal_run r" and f: "decide_action env user q tool a r db = Inr (r1, db1)"
      and k: "commit_run env (r_stage r) r1 db1 = Inr (r2, db3)"
      and p: "put_receipt env (r_id checked) (decision_key user q) digest db3 = Inr db2"
    have s: "engine_inv db3 \<and> runs_next db db3 \<and> work_appended db db3" using decision.commit_step [OF inv i t f k] by simp
    note fr = put_receipt_frame [OF p]
    show ?thesis using s engine_inv_frame [OF fr] by (simp add: work_appended_def fr)
  qed
qed

text \<open>Standing permissions change no run.\<close>

lemma insert_action_grant_frame:
  assumes "insert_action_grant env user q tool db = Inr (g, db')"
  shows "b_runs db' = b_runs db" "b_inputs db' = b_inputs db" "b_work db' = b_work db" "b_receipts db' = b_receipts db"
    "b_actions db' = b_actions db"
  using assms unfolding insert_action_grant_def Let_def case_prod_beta
  by (auto simp: rbind_eq_Inr split: if_split_asm)

lemma revoke_action_grant_frame:
  assumes "revoke_action_grant env user i db = Inr (g, db')"
  shows "b_runs db' = b_runs db" "b_inputs db' = b_inputs db" "b_work db' = b_work db" "b_receipts db' = b_receipts db"
    "b_actions db' = b_actions db"
  using assms unfolding revoke_action_grant_def Let_def
  by (auto simp: rbind_eq_Inr split: if_split_asm)

end
