(* ===== verification/Run_Reports.thy ===== *)
theory Run_Reports
  imports Run_Callbacks
begin

text \<open>
  The callbacks of \<open>report_once\<close> are lawful: the transition an executor's report makes, and the user
  commands. Two of the commands reach beyond their own row: an accepted input is appended to the input
  log, and a stop walks down the delegation tree.
\<close>

section \<open>Executor reports\<close>

definition decoded :: "executor_update \<Rightarrow> bool" where
  "decoded u \<longleftrightarrow> (eu_type u = ''run.update'' \<longrightarrow> eu_status u \<in> set update_statuses)"

lemma normalize_keeps:
  "normalize_result env u = Inr v \<Longrightarrow> eu_type v = eu_type u \<and> eu_status v = eu_status u"
  by (auto simp: normalize_result_def normalize_text_def Let_def rbind_eq_Inr split: if_splits)

lemma decode_update_decoded:
  assumes "decode_update env parse body = Inr u"
  shows "decoded u"
proof (cases "eu_type u = ''run.update''")
  case True
  have "(\<exists>v. decode_run_update env v = Inr u) \<or> eu_type u \<in> {''run.delivery_ack'', ''run.heartbeat'', ''run.claim''}"
    using assms by (auto simp: decode_update_def split: option.splits if_splits)
  then obtain v where d: "decode_run_update env v = Inr u" using True by auto
  then have "eu_status v \<in> set update_statuses" by (auto simp: decode_run_update_def split: if_splits)
  moreover have "eu_status u = eu_status v"
    using d normalize_keeps by (auto simp: decode_run_update_def split: if_splits)
  ultimately show ?thesis by (simp add: decoded_def)
qed (simp add: decoded_def)

text \<open>Fields that no law speaks of can be set before a step.\<close>

lemma local_step_touch [simp]:
  "local_step (r\<lparr>r_lease := a\<rparr>) r' db db' = local_step r r' db db'"
  "local_step (r\<lparr>r_sequence := b\<rparr>) r' db db' = local_step r r' db db'"
  "local_step (r\<lparr>r_stage := c\<rparr>) r' db db' = local_step r r' db db'"
  "local_step (r\<lparr>r_operation := c\<rparr>) r' db db' = local_step r r' db db'"
  by (simp_all add: local_step_def life_def)

lemma guard_status:
  assumes "update_guard u r = Inr ()" "run_row_ok r" "\<not> terminal_run r" "\<not> stop_confirmation u"
  shows "active_status (r_status r) \<or> (r_status r = ''stopping'' \<and> (eu_status u = ''failed'' \<or> eu_status u = ''completed'' \<or>
    eu_status u = ''stopped'' \<or> eu_status u = ''stop_rejected''))"
  using assms living_cases [OF assms(2,3)] by (auto simp: update_guard_def split: if_splits)

lemma confirm_stop_local:
  assumes ok: "run_row_ok r" and t: "\<not> terminal_run r" and c: "confirm_stop u r = Inr r'"
  shows "local_step r r' db db"
proof -
  have n: "status_next (r_status r) ''stopped''" by (rule living_next(3) [OF ok t])
  have run: "r_status r \<noteq> ''waiting_authorization'' \<Longrightarrow> status_next (r_status r) ''running''"
    using living_cases [OF ok t] by (auto simp: status_next_def)
  show ?thesis
  proof (cases "eu_status u = ''stop_rejected''")
    case True
    then show ?thesis using c run
      by (auto simp: confirm_stop_def Let_def life_def split: if_splits intro!: local_stepI)
  next
    case False
    then show ?thesis using c n
      by (auto simp: confirm_stop_def Let_def life_def split: if_splits intro!: local_stepI)
  qed
qed

lemma complete_update_local:
  assumes s: "status_next (r_status r) ''running''" and c: "complete_update env u r db = Inr (r', db')"
  shows "local_step r r' db db'"
proof -
  define fin where "fin u1 = r\<lparr>r_invalidated := False, r_result_text := eu_result u1, r_result_type := eu_msg_type u1,
                   r_result_content := eu_content u1, r_executor_status := ''completed'', r_status := ''running'',
                   r_output_status := ''pending'', r_stage := ''pending''\<rparr>" for u1 :: executor_update
  have n: "\<not> (r_deleg_root r \<noteq> None \<and> length (eu_result u) + length (eu_content u) > 32768)"
    using c by (auto simp: complete_update_def)
  have "rbind (if eu_msg_type u = ''file'' then canonical_file env u r db else Inr u)
      (\<lambda>u1. Inr (fin u1, queue_next env (fin u1) ''output'' db)) = Inr (r', db')"
    using c unfolding complete_update_def Let_def fin_def if_not_P [OF n] .
  then obtain u1 where "(fin u1, queue_next env (fin u1) ''output'' db) = (r', db')" by (elim rbindE) blast
  then have r': "r' = r\<lparr>r_invalidated := False, r_result_text := eu_result u1, r_result_type := eu_msg_type u1,
                   r_result_content := eu_content u1, r_executor_status := ''completed'', r_status := ''running'',
                   r_output_status := ''pending'', r_stage := ''pending''\<rparr>"
    and db': "db' = queue_next env r' ''output'' db"
    by (auto simp: fin_def)
  have "local_step r r' db db" using s by (intro local_stepI) (simp_all add: r' life_def)
  then show ?thesis unfolding db' by (rule local_step_queue) (simp_all add: r')
qed

lemma business_update_local:
  assumes ok: "run_row_ok r" and t: "\<not> terminal_run r" and ty: "eu_type u = ''run.update''" and u: "decoded u"
    and b: "business_update env u r db = Inr (r', db')"
  shows "local_step r r' db db'"
proof -
  have g: "update_guard u r = Inr ()" using b by (auto simp: business_update_def rbind_eq_Inr)
  show ?thesis
  proof (cases "stop_confirmation u")
    case True
    then have "confirm_stop u (r\<lparr>r_sequence := eu_sequence u\<rparr>) = Inr r'" "db' = db"
      using b by (auto simp: business_update_def rbind_eq_Inr Let_def)
    then show ?thesis
      using confirm_stop_local [of "r\<lparr>r_sequence := eu_sequence u\<rparr>" u r' db] ok t by (simp add: terminal_run_def)
  next
    case False
    then have st: "eu_status u \<noteq> ''stopped''" "eu_status u \<noteq> ''stop_rejected''" using ty by (simp_all add: stop_confirmation_def)
    have whence: "active_status (r_status r) \<or> (r_status r = ''stopping'' \<and> (eu_status u = ''failed'' \<or> eu_status u = ''completed''))"
      using guard_status [OF g ok t False] st by blast
    define s where "s = r\<lparr>r_sequence := eu_sequence u, r_stage := (if eu_stage u \<noteq> [] then eu_stage u else eu_status u)\<rparr>"
    have touch: "local_step s r' db db' = local_step r r' db db'" and ss: "r_status s = r_status r" by (simp_all add: s_def)
    show ?thesis
    proof (cases "eu_status u = ''completed''")
      case True
      then have "complete_update env u s db = Inr (r', db')"
        using b False by (simp add: business_update_def g Let_def s_def)
      moreover have "status_next (r_status s) ''running''" using whence by (auto simp: ss status_next_def)
      ultimately show ?thesis using complete_update_local touch by blast
    next
      case c: False
      then have r': "r' = s\<lparr>r_status := eu_status u, r_waiting := eu_waiting u\<rparr>" "db' = db"
        using b False by (simp_all add: business_update_def g Let_def s_def)
      have mem: "eu_status u \<in> {''running'', ''waiting_input'', ''failed''}"
        using u ty c st by (auto simp: decoded_def update_statuses_def)
      then have rs: "eu_status u \<in> set run_statuses" by auto
      then have "status_next (r_status s) (eu_status u)" using whence c by (auto simp: ss status_next_def)
      then have "local_step s r' db db'" using rs by (intro local_stepI) (simp_all add: r' life_def)
      then show ?thesis using touch by simp
    qed
  qed
qed

lemma executor_apply_local:
  assumes ok: "run_row_ok r" and t: "\<not> terminal_run r" and u: "decoded u"
    and b: "executor_apply env u r db = Inr (r', db')"
  shows "local_step r r' db db'"
proof -
  define s where "s = (if eu_type u \<noteq> ''run.delivery_ack'' \<and> \<not> stop_confirmation u then r\<lparr>r_lease := Some (now env + minute)\<rparr> else r)"
  have touch: "local_step s r' db db' = local_step r r' db db'" by (simp add: s_def)
  have s: "run_row_ok s" "\<not> terminal_run s" using ok t by (simp_all add: s_def terminal_run_def)
  note b = b [unfolded executor_apply_def Let_def, folded s_def]
  consider "eu_type u = ''run.delivery_ack''" | "eu_type u = ''run.claim''" | "eu_type u = ''run.heartbeat''" |
    "eu_type u = ''run.update''" | "eu_type u \<notin> {''run.delivery_ack'', ''run.claim'', ''run.heartbeat'', ''run.update''}" by blast
  then have "local_step s r' db db'"
  proof cases
    case 1
    then show ?thesis using b by (auto simp: life_def intro!: local_stepI)
  next
    case 2
    then have r': "r' = s\<lparr>r_executor_status := ''accepted'', r_status := ''running'', r_stage := ''running''\<rparr>" "db' = db"
      and "r_status s \<noteq> ''stopping''" "r_status s \<noteq> ''waiting_authorization''"
      using b by (auto split: if_splits)
    then have "status_next (r_status s) ''running''" using living_cases [OF s] by (auto simp: status_next_def)
    then show ?thesis by (intro local_stepI) (simp_all add: r' life_def)
  next
    case 3
    then have "r' = s" "db' = db" using b by (auto split: if_splits)
    then show ?thesis by (intro local_stepI) (simp_all add: life_step_refl)
  next
    case 4
    then have "business_update env u s db = Inr (r', db')" using b by simp
    then show ?thesis by (rule business_update_local [OF s 4 u])
  next
    case 5
    then have "r' = s" "db' = db" using b by auto
    then show ?thesis by (intro local_stepI) (simp_all add: life_step_refl)
  qed
  then show ?thesis using touch by simp
qed

interpretation executor: run_command "executor_apply env u" "\<lambda>r. \<not> terminal_run r \<and> decoded u" for env u
  by unfold_locales (blast intro: local_lawful executor_apply_local engine_row_ok)

end
