(* ===== verification/Run_Stops.thy ===== *)
theory Run_Stops
  imports Run_Reports
begin

text \<open>
  Stopping a tree of delegated runs. Because a delegator stands before the runs it delegated, the walk
  never meets the row it started from, every row it changes has its delegator inside the tree, no row is
  overwritten with an older copy, and the depth given to the walk is enough.
\<close>

section \<open>The delegation tree\<close>

lemma stop_child_step:
  assumes inv: "engine_inv db" and c: "find_run db (r_id c) = Some c" and s: "stop_child env c db = Inr db'"
  shows "engine_inv db'" "runs_next db db'" "b_inputs db' = b_inputs db"
    "map r_id (b_runs db') = map r_id (b_runs db)" "\<forall>i. i \<noteq> r_id c \<longrightarrow> find_run db' i = find_run db i"
    "work_appended db db'"
proof -
  have ok: "run_row_ok c" by (rule engine_row_ok [OF inv c])
  have "engine_inv db' \<and> runs_next db db' \<and> b_inputs db' = b_inputs db \<and> map r_id (b_runs db') = map r_id (b_runs db) \<and>
    (\<forall>i. i \<noteq> r_id c \<longrightarrow> find_run db' i = find_run db i) \<and> work_appended db db'"
  proof (cases "terminal_run c")
    case True
    then show ?thesis using s inv by (simp add: stop_child_def runs_next_same work_appended_same)
  next
    case t: False
    define rejected where "rejected = c\<lparr>r_stop_status := ''rejected'', r_stop_reason := ''parent_requested''\<rparr>"
    define bump where "bump x = x\<lparr>r_version := r_version x + 1, r_updated := now env\<rparr>" for x :: run
    have "rbind (if \<not> ec_stop (r_caps c) then Inr (rejected, db) else request_run_stop env ''parent_requested'' c db)
        (\<lambda>(x, db1). rbind (save_run (bump x) db1) (\<lambda>db2. Inr (queue_run env (bump x) ''updated'' db2))) = Inr db'"
      using s unfolding stop_child_def if_not_P [OF t] rejected_def bump_def Let_def .
    then obtain x db1 where x: "(if \<not> ec_stop (r_caps c) then Inr (rejected, db)
        else request_run_stop env ''parent_requested'' c db) = Inr (x, db1)"
      and y: "rbind (save_run (bump x) db1) (\<lambda>db2. Inr (queue_run env (bump x) ''updated'' db2)) = Inr db'"
      by (elim rbindE) (auto split: prod.splits)
    obtain db2 where sv: "save_run (bump x) db1 = Inr db2" and db': "db' = queue_run env (bump x) ''updated'' db2"
      using y by (elim rbindE) simp
    have bump: "r_id (bump x) = r_id x" "key_of (bump x) = key_of x" "r_version (bump x) = r_version x + 1"
      "life (bump x) = life x" "r_input_version (bump x) = r_input_version x" by (simp_all add: bump_def life_def)
    have loc: "local_step c x db db1"
    proof (cases "ec_stop (r_caps c)")
      case True
      then show ?thesis using x request_run_stop_local [OF ok t] by simp
    next
      case False
      then have "x = rejected" "db1 = db" using x by simp_all
      then show ?thesis by (intro local_stepI) (simp_all add: rejected_def life_def life_step_refl)
    qed
    note law = local_lawful [OF loc]
    have fr: "b_runs db1 = b_runs db" "b_inputs db1 = b_inputs db" "r_id x = r_id c"
      using loc key_of_id [OF lawful_row(1) [OF law]] by (simp_all add: local_step_def)
    have f2: "db2 = put_run (bump x) db1"
      using sv by (auto simp: save_run_def split: if_splits)
    have other: "find_run db' i = find_run db i" if "i \<noteq> r_id c" for i
      using that by (simp add: db' f2 find_put_run bump fr(3)) (simp add: find_run_def fr(1))
    have fields: "b_inputs db' = b_inputs db" "map r_id (b_runs db') = map r_id (b_runs db)"
      using fr by (simp_all add: db' f2)
    have "r_version x = r_version c" by (rule lawful_row(2) [OF law])
    then show ?thesis using save_next [OF inv c law _ _ _ _ sv db'] other fields by (simp add: bump)
  qed
  then show "engine_inv db'" "runs_next db db'" "b_inputs db' = b_inputs db"
    "map r_id (b_runs db') = map r_id (b_runs db)" "\<forall>i. i \<noteq> r_id c \<longrightarrow> find_run db' i = find_run db i"
    "work_appended db db'" by blast+
qed

text \<open>Where a walk below \<open>pid\<close> may change a row.\<close>

definition below :: "bot_db \<Rightarrow> string \<Rightarrow> run \<Rightarrow> bool" where
  "below db pid x \<longleftrightarrow> (\<exists>p. r_deleg_parent x = Some p \<and> place db pid \<le> place db p)"

definition stops_to :: "bot_db \<Rightarrow> string \<Rightarrow> bot_db \<Rightarrow> bool" where
  "stops_to db pid db' \<longleftrightarrow> engine_inv db' \<and> runs_next db db' \<and> work_appended db db' \<and> b_inputs db' = b_inputs db \<and>
     map r_id (b_runs db') = map r_id (b_runs db) \<and>
     (\<forall>i x. find_run db i = Some x \<longrightarrow> \<not> below db pid x \<longrightarrow> find_run db' i = Some x)"

lemma children_of_member:
  assumes "engine_inv db" and "c \<in> set (children_of db pid)"
  shows "find_run db (r_id c) = Some c" "r_deleg_parent c = Some pid" "place db pid < place db (r_id c)"
proof -
  have c: "c \<in> set (b_runs db)" "r_deleg_parent c = Some pid" using assms(2) by (auto simp: children_of_def)
  then show f: "find_run db (r_id c) = Some c" "r_deleg_parent c = Some pid" using find_run_member [OF assms(1)] by auto
  then show "place db pid < place db (r_id c)" using assms(1) by (auto simp: engine_inv_def delegators_first_def)
qed

lemma children_distinct:
  assumes "engine_inv db"
  shows "distinct (map r_id (children_of db pid))"
  unfolding children_of_def using assms by (intro distinct_sort_by) (simp add: engine_inv_def distinct_map_filter)

lemma child_intact:
  assumes inv: "engine_inv db" and st: "stops_to db pid d" and c: "c \<in> set (children_of db pid)"
    and rec: "stops_to d (r_id c) d1" and x: "x \<in> set (children_of db pid)" "find_run d (r_id x) = Some x"
  shows "find_run d1 (r_id x) = Some x"
proof -
  have pl: "place d i = place db i" for i using st same_ids_find(2) unfolding stops_to_def by blast
  have "\<not> below d (r_id c) x"
    using children_of_member [OF inv x(1)] children_of_member(3) [OF inv c] by (auto simp: below_def pl)
  then show ?thesis using rec x(2) unfolding stops_to_def by blast
qed

text \<open>One child more: its own walk and then its stop.\<close>

lemma child_stopped:
  assumes inv: "engine_inv db" and st: "stops_to db pid d" and c: "c \<in> set (children_of db pid)"
    and dc: "find_run d (r_id c) = Some c" and rec: "stops_to d (r_id c) d1" and s: "stop_child env c d1 = Inr d2"
  shows "stops_to db pid d2"
    and "x \<in> set (children_of db pid) \<Longrightarrow> r_id x \<noteq> r_id c \<Longrightarrow> find_run d (r_id x) = Some x \<Longrightarrow> find_run d2 (r_id x) = Some x"
proof -
  note cm = children_of_member [OF inv c]
  note std = st [unfolded stops_to_def] and recd = rec [unfolded stops_to_def]
  have pl: "place d i = place db i" for i using std same_ids_find(2) by blast
  have inv1: "engine_inv d1" and ids1: "map r_id (b_runs d1) = map r_id (b_runs db)" using recd std by auto
  note sc = stop_child_step [OF inv1 child_intact [OF inv st c rec c dc] s]
  have un: "find_run d2 i = Some x" if x: "find_run db i = Some x" "\<not> below db pid x" for i x
  proof -
    have dx: "find_run d i = Some x" using std x by blast
    have "\<not> below d (r_id c) x" using x(2) cm(3) by (auto simp: below_def pl)
    then have d1x: "find_run d1 i = Some x" using recd dx by blast
    have "i \<noteq> r_id c" using x cm(1,2) by (auto simp: below_def)
    then show ?thesis using sc(5) d1x by simp
  qed
  show "stops_to db pid d2" unfolding stops_to_def using sc(1,2,3,4,6) recd std runs_next_trans work_appended_trans un by metis
  show "find_run d2 (r_id x) = Some x"
    if "x \<in> set (children_of db pid)" "r_id x \<noteq> r_id c" "find_run d (r_id x) = Some x"
    using child_intact [OF inv st c rec that(1,3)] sc(5) that(2) by simp
qed

text \<open>The children still to be visited, in the tables met on the way.\<close>

definition pending :: "bot_db \<Rightarrow> string \<Rightarrow> bot_db \<Rightarrow> run list \<Rightarrow> bool" where
  "pending db pid d cs \<longleftrightarrow> stops_to db pid d \<and> distinct (map r_id cs) \<and>
     (\<forall>c\<in>set cs. c \<in> set (children_of db pid) \<and> find_run d (r_id c) = Some c)"

lemma pending_start: "engine_inv db \<Longrightarrow> pending db pid db (children_of db pid)"
  using children_of_member(1) children_distinct by (simp add: pending_def stops_to_def runs_next_same work_appended_same)

lemma pending_next:
  assumes inv: "engine_inv db" and p: "pending db pid d (c # cs)" and rec: "stops_to d (r_id c) d1"
    and s: "stop_child env c d1 = Inr d2"
  shows "pending db pid d2 cs"
proof -
  have h: "stops_to db pid d" "c \<in> set (children_of db pid)" "find_run d (r_id c) = Some c"
    using p by (auto simp: pending_def)
  have "find_run d2 (r_id x) = Some x" if x: "x \<in> set cs" for x
  proof -
    have "r_id x \<noteq> r_id c" using p x by (auto simp: pending_def image_iff)
    moreover have "x \<in> set (children_of db pid)" "find_run d (r_id x) = Some x" using p x by (auto simp: pending_def)
    ultimately show ?thesis using child_stopped(2) [OF inv h rec s] by blast
  qed
  then show ?thesis using child_stopped(1) [OF inv h rec s] p by (simp add: pending_def)
qed

lemma stops_step:
  "engine_inv db \<Longrightarrow> request_delegated_stops env n pid db = Inr db' \<Longrightarrow> stops_to db pid db'"
proof (induction n arbitrary: pid db db')
  case (Suc n)
  note inv = Suc.prems(1)
  have "stops_to db pid d'" if "pending db pid d cs"
      "rfold (\<lambda>c d. rbind (request_delegated_stops env n (r_id c) d) (stop_child env c)) cs d = Inr d'" for cs d d'
    using that
  proof (induction cs arbitrary: d)
    case Nil
    then show ?case by (simp add: pending_def)
  next
    case (Cons c cs)
    obtain d1 d2 where r: "request_delegated_stops env n (r_id c) d = Inr d1" and s: "stop_child env c d1 = Inr d2"
      and rest: "rfold (\<lambda>c d. rbind (request_delegated_stops env n (r_id c) d) (stop_child env c)) cs d2 = Inr d'"
      using Cons.prems(2) by (auto simp: rbind_eq_Inr)
    have "engine_inv d" using Cons.prems(1) by (simp add: pending_def stops_to_def)
    from pending_next [OF inv Cons.prems(1) Suc.IH [OF this r] s] Cons.IH rest show ?case by blast
  qed
  from this [OF pending_start [OF inv]] Suc.prems(2) show ?case by simp
qed simp

text \<open>The walk always ends within the depth it is given, and nothing in it fails.\<close>

lemma request_run_stop_total: "\<exists>r' db'. request_run_stop env reason r db = Inr (r', db')"
  by (auto simp: request_run_stop_def Let_def split: option.splits)

lemma stop_child_total:
  assumes inv: "engine_inv db" and c: "find_run db (r_id c) = Some c"
  shows "\<exists>db'. stop_child env c db = Inr db'"
proof (cases "terminal_run c")
  case True
  then show ?thesis by (simp add: stop_child_def)
next
  case t: False
  have ok: "run_row_ok c" by (rule engine_row_ok [OF inv c])
  obtain x db1 where x: "request_run_stop env ''parent_requested'' c db = Inr (x, db1)" using request_run_stop_total by blast
  have okx: "run_row_ok x" using request_run_stop_local [OF ok t x] ok by (simp add: local_step_def)
  show ?thesis
    using row_ok_bounds [OF ok] row_ok_bounds [OF okx]
    by (cases "ec_stop (r_caps c)") (simp_all add: stop_child_def Let_def t x save_run_def ok okx)
qed

lemma stops_total:
  "engine_inv db \<Longrightarrow> length (b_runs db) < n + place db pid \<Longrightarrow> \<exists>db'. request_delegated_stops env n pid db = Inr db'"
proof (induction n arbitrary: pid db)
  case 0
  then have "place db pid \<le> length (b_runs db)" by (simp add: place_def length_takeWhile_le [of _ "map r_id (b_runs db)", simplified])
  with 0 show ?case by simp
next
  case (Suc n)
  note inv = Suc.prems(1)
  have "\<exists>d'. rfold (\<lambda>c d. rbind (request_delegated_stops env n (r_id c) d) (stop_child env c)) cs d = Inr d'"
    if "pending db pid d cs" for cs d
    using that
  proof (induction cs arbitrary: d)
    case (Cons c cs)
    then have h: "stops_to db pid d" "c \<in> set (children_of db pid)" "find_run d (r_id c) = Some c" by (auto simp: pending_def)
    then have dinv: "engine_inv d" and ids: "map r_id (b_runs d) = map r_id (b_runs db)" by (auto simp: stops_to_def)
    have "length (b_runs d) = length (b_runs db)" using arg_cong [OF ids, of length] by simp
    then have room: "length (b_runs d) < n + place d (r_id c)"
      using Suc.prems(2) children_of_member(3) [OF inv h(2)] same_ids_find(2) [OF ids] by simp
    obtain d1 where r: "request_delegated_stops env n (r_id c) d = Inr d1" using Suc.IH [OF dinv room] by blast
    note rec = stops_step [OF dinv r]
    have "find_run d1 (r_id c) = Some c" by (rule child_intact [OF inv h(1,2) rec h(2,3)])
    moreover have "engine_inv d1" using rec by (simp add: stops_to_def)
    ultimately obtain d2 where s: "stop_child env c d1 = Inr d2" using stop_child_total by blast
    from Cons.IH [OF pending_next [OF inv Cons.prems rec s]] show ?case by (simp add: r s)
  qed simp
  from this [OF pending_start [OF inv]] show ?case by simp
qed

end
