(* ===== verification/Run_User.thy ===== *)
theory Run_User
  imports Run_Stops "HOL-Library.Multiset"
begin

text \<open>
  The user commands are lawful. A stop leaves its own row to the commit that follows it; an accepted
  input continues the numbering of the input log; the others change their row alone.
\<close>

section \<open>Commands on one row\<close>

lemma wake_executor_local:
  assumes "wake_executor env op was r db = Inr (r', db')"
  shows "local_step r r' db db'"
  using assms
  by (auto simp: wake_executor_def Let_def life_def split: if_splits intro!: local_step_queue local_stepI)

lemma grant_control_local: "grant_control c r db = Inr (r', db') \<Longrightarrow> local_step r r' db db'"
  by (auto simp: grant_control_def rbind_eq_Inr Let_def life_def split: if_splits intro!: local_stepI)

lemma revoke_control_local: "revoke_control c r db = Inr (r', db') \<Longrightarrow> local_step r r' db db'"
  by (auto simp: revoke_control_def rbind_eq_Inr Let_def life_def intro!: local_stepI)

lemma local_step_trans:
  assumes a: "local_step r s db db1" and b: "b_runs db1 = b_runs db" and c: "local_step s t db1 db2"
    and same: "life s = life r \<or> life t = life s"
  shows "local_step r t db db2"
proof -
  have k: "key_of s = key_of r" "key_of t = key_of s" using a c by (simp_all add: local_step_def)
  have id: "r_id s = r_id r" by (rule key_of_id [OF k(1)])
  have l: "life_step (life r) (life t)" using same a c by (auto simp: local_step_def)
  have w: "\<forall>w\<in>set (b_work db2). w \<in> set (b_work db) \<or> w_run w = r_id r \<and> w_version w = r_version r + 1"
    using a c unfolding local_step_def id by fastforce
  show ?thesis using a c k l w b work_appended_trans [of db db1 db2] unfolding local_step_def by simp
qed

lemma take_over_local:
  assumes "take_over env user r db = Inr (r', db')"
  shows "local_step r r' db db'"
proof -
  obtain mid role where m: "run_member db (r_conv r) user = Inr (mid, role)"
    using assms by (auto simp: take_over_def rbind_eq_Inr)
  show ?thesis
  proof (cases "r_status r = ''waiting_authorization''")
    case False
    then show ?thesis using assms by (auto simp: take_over_def m life_def intro!: local_stepI)
  next
    case w: True
    have reissue: "life_step (''waiting_authorization'', g) (''accepted'', g + 1)" for g by simp
    have move: "status_next ''waiting_authorization'' ''accepted''" by (simp add: status_next_def)
    show ?thesis
    proof (cases "r_executor r = ''builtin''")
      case True
      then show ?thesis using assms w
        by (auto simp: take_over_def m Let_def life_def move intro!: local_step_queue local_stepI)
    next
      case False
      then show ?thesis using assms w
        by (auto simp: take_over_def m Let_def life_def reissue split: if_splits intro!: local_step_queue local_stepI)
    qed
  qed
qed

lemma resume_run_local:
  assumes "resume_run env r db = Inr (r', db')"
  shows "local_step r r' db db'"
proof -
  define s where "s = r\<lparr>r_generation := r_generation r + 1, r_sequence := 0, r_executor_status := ''pending'',
           r_status := ''accepted'', r_stage := ''resuming'', r_waiting := [], r_lease := None,
           r_stream_status := ''open''\<rparr>"
  have a: "active_status (r_status r)" and w: "wake_executor env ''resume'' (r_status r = ''waiting_input'') s db = Inr (r', db')"
    using assms by (auto simp: resume_run_def s_def active_status_def split: if_splits)
  have "life_step (life r) (life s)" using a by (simp add: life_def s_def)
  then have "local_step r s db db" by (intro local_stepI) (simp_all add: s_def)
  moreover have "life r' = life s" using w by (auto simp: wake_executor_def Let_def life_def split: if_splits)
  ultimately show ?thesis using local_step_trans [OF _ refl wake_executor_local [OF w]] by blast
qed

section \<open>Stopping\<close>

lemma stop_run_lawful:
  assumes inv: "engine_inv db" and r: "find_run db (r_id r) = Some r" and s: "stop_run env r db = Inr (r', db')"
  shows "lawful_step r r' db db'"
proof -
  obtain db1 where d: "request_delegated_stops env (stop_tree_depth db) (r_id r) db = Inr db1"
    and e: "(if terminal_run r then Inr (r\<lparr>r_stop_reason := ''user_requested''\<rparr>, db1)
     else if \<not> ec_stop (r_caps r)
     then Inr (r\<lparr>r_stop_status := ''rejected'', r_stop_reason := ''user_requested''\<rparr>, db1)
     else request_run_stop env ''user_requested'' r db1) = Inr (r', db')"
    using s by (auto simp: stop_run_def rbind_eq_Inr)
  note st = stops_step [OF inv d, unfolded stops_to_def]
  then have inv1: "engine_inv db1" and nx: "runs_next db db1" and ids: "map r_id (b_runs db1) = map r_id (b_runs db)"
    and inp: "b_inputs db1 = b_inputs db" and app: "work_appended db db1" by blast+
  have "\<not> below db (r_id r) r" using inv r unfolding below_def engine_inv_def delegators_first_def by force
  then have r1: "find_run db1 (r_id r) = Some r" using st r by blast
  have ok: "run_row_ok r" by (rule engine_row_ok [OF inv r])
  have loc: "local_step r r' db1 db'"
  proof (cases "terminal_run r \<or> \<not> ec_stop (r_caps r)")
    case True
    then show ?thesis using e by (auto simp: life_def split: if_splits intro!: local_stepI)
  next
    case False
    then show ?thesis using e request_run_stop_local [OF ok] by auto
  qed
  have f: "find_run db' i = find_run db1 i" for i using loc by (simp add: local_step_def find_run_def)
  have il: "input_log db' x = input_log db1 x" for x using loc by (intro input_log_frame) (simp_all add: local_step_def)
  note law = local_lawful [OF loc]
  have others: "\<exists>x'. find_run db' i = Some x' \<and> run_next x x' \<and> (run_row_ok x \<longrightarrow> run_row_ok x') \<and> (input_log db x \<longrightarrow> input_log db' x')"
    if x: "find_run db i = Some x" for i x
  proof -
    obtain x' where x': "find_run db1 i = Some x'" "run_next x x'" using runs_nextD [OF nx x] by blast
    then have "run_row_ok x'" "input_log db1 x'" using inv1 by (auto simp: engine_inv_def typed_runs_def inputs_numbered_def)
    with x' show ?thesis by (simp add: f il)
  qed
  have work: "w \<in> set (b_work db) \<or> (w_run w = r_id r \<and> w_version w \<le> r_version r + 1) \<or>
      (\<exists>x. w_run w \<noteq> r_id r \<and> find_run db' (w_run w) = Some x \<and> w_version w \<le> r_version x)"
    if w: "w \<in> set (b_work db')" for w
  proof -
    have "w \<in> set (b_work db1) \<or> (w_run w = r_id r \<and> w_version w = r_version r + 1)"
      using loc w by (auto simp: local_step_def)
    then show ?thesis
    proof
      assume "w \<in> set (b_work db1)"
      then obtain x where x: "find_run db1 (w_run w) = Some x" "w_version w \<le> r_version x"
        using inv1 by (auto simp: engine_inv_def work_reached_def)
      then show ?thesis using r1 by (cases "w_run w = r_id r") (auto simp: f)
    qed simp
  qed
  have "input_log db1 r" using inv1 r1 by (auto simp: engine_inv_def inputs_numbered_def)
  then have "input_log db' r'" using lawful_inputs(1) [OF law] by blast
  moreover have "b_inputs db' = b_inputs db" "map r_id (b_runs db') = map r_id (b_runs db)"
    using loc inp ids by (simp_all add: local_step_def)
  ultimately show ?thesis unfolding lawful_step_def
    using lawful_row [OF law] others work work_appended_trans [OF app] by auto
qed

section \<open>Accepted input\<close>

lemma sort_by_key: "map k (sort_by (\<lambda>x y. k x \<le> k y) xs) = sort (map k xs)" for k :: "'a \<Rightarrow> int"
proof -
  have ins: "map k (insert_by (\<lambda>x y. k x \<le> k y) x ys) = insort (k x) (map k ys)" for x ys
    by (induction ys) auto
  show ?thesis by (induction xs) (simp_all add: sort_by_def ins)
qed

lemma input_log_sorted: "input_log db r \<longleftrightarrow> sort (map in_version (filter (\<lambda>i. in_run i = r_id r) (b_inputs db))) = [1..r_input_version r]"
  by (simp add: input_log_def inputs_of_def sort_by_key)

text \<open>The next version closes the numbering.\<close>

lemma input_log_snoc:
  assumes l: "input_log db r" and v: "0 < r_input_version r" and i: "in_run i = r_id r" "in_version i = r_input_version r + 1"
    and s: "r_id s = r_id r" "r_input_version s = r_input_version r + 1" and d: "b_inputs db' = b_inputs db @ [i]"
  shows "input_log db' s"
proof -
  let ?xs = "map in_version (filter (\<lambda>i. in_run i = r_id r) (b_inputs db))"
  have "sort ?xs = [1..r_input_version r]" using l by (simp add: input_log_sorted)
  then have "mset ?xs = mset [1..r_input_version r]" by (metis mset_sort)
  moreover have "[1..r_input_version r + 1] = [1..r_input_version r] @ [r_input_version r + 1]"
    using v upto_rec2 [of 1 "r_input_version r + 1"] by simp
  ultimately have m: "mset [1..r_input_version r + 1] = mset (?xs @ [in_version i])" using i by simp
  have "sorted [1..r_input_version r + 1]" by (rule sorted_upto)
  then have "sort (?xs @ [in_version i]) = [1..r_input_version r + 1]" by (rule properties_for_sort [OF m])
  then show ?thesis using i by (simp add: input_log_sorted d s)
qed

lemma input_log_foreign:
  assumes "b_inputs db' = b_inputs db @ [i]" and "in_run i \<noteq> r_id x"
  shows "input_log db' x = input_log db x"
  using assms by (simp add: input_log_def inputs_of_def)

lemma reserve_input_row:
  "reserve_delegation_input db r n = Inr r' \<Longrightarrow> \<exists>b. r' = r\<lparr>r_deleg_input := b\<rparr>"
  unfolding reserve_delegation_input_def
  by (cases "r_deleg_root r") (auto split: if_splits intro: exI [of _ "r_deleg_input r"])

lemma take_input_lawful:
  assumes inv: "engine_inv db" and r: "find_run db (r_id r) = Some r" and t: "\<not> terminal_run r"
    and s: "take_input env user c ms sources r db = Inr (r', db')"
  shows "lawful_step r r' db db'"
proof -
  have ok: "run_row_ok r" by (rule engine_row_ok [OF inv r])
  note bd = row_ok_bounds [OF ok]
  let ?v = "r_input_version r + 1"
  define r1 where "r1 = r\<lparr>r_input_version := ?v, r_inputs := r_inputs r @
                   [\<lparr>is_version = ?v, is_content = None, is_requester = user, is_source_message = cc_source c,
                     is_sender_type = ''user'', is_messages = cc_messages c, is_files = cc_files c,
                     is_history_grant = cc_history_grant c, is_parent_run = None, is_origin = None\<rparr>]\<rparr>"
  define i where "i r2 = \<lparr>in_id = fresh env (b_next db), in_run = r_id r2, in_version = ?v, in_requester = user,
               in_source_message = cc_source c, in_edit_count = accepted_edit_count (cc_source c) ms,
               in_provenance = material_provenance ms, in_invalidated = False, in_key = cc_key c,
               in_content = cc_message c, in_hash = control_digest env c, in_materials = ms, in_sources = sources,
               in_created = now env\<rparr>" for r2 :: run
  define db1 where "db1 = db\<lparr>b_next := Suc (b_next db)\<rparr>"
  define taken where "taken r2 = (let r3 = r2\<lparr>r_provenance := r_provenance r2 @ material_provenance ms,
                       r_materials := r_materials r2 @ ms, r_sources := r_sources r2 @ sources\<rparr>
      in if r_status r = ''waiting_input''
         then r3\<lparr>r_status := ''running'', r_stage := ''input_received'', r_waiting := []\<rparr> else r3)" for r2 :: run
  have n: "\<not> ((r_status r \<noteq> ''accepted'' \<and> r_status r \<noteq> ''running'' \<and> r_status r \<noteq> ''waiting_input'') \<or>
         r_output_status r \<noteq> ''none'')"
  proof
    assume g: "(r_status r \<noteq> ''accepted'' \<and> r_status r \<noteq> ''running'' \<and> r_status r \<noteq> ''waiting_input'') \<or> r_output_status r \<noteq> ''none''"
    show False using s unfolding take_input_def if_P [OF g] by simp
  qed
  have "rbind (reserve_delegation_input db1 r1 (int (length (cc_message c)) + material_size env ms)) (\<lambda>r2.
      rbind (check_accepted_messages db1 r2 ms) (\<lambda>_.
      rbind (insert_input (i r2) db1) (\<lambda>db2.
        wake_executor env ''input'' (r_status r = ''waiting_input'') (taken r2) db2))) = Inr (r', db')"
    using s unfolding take_input_def if_not_P [OF n] bot_id_def Let_def prod.case r1_def i_def db1_def taken_def .
  then obtain r2 db2 where r2: "reserve_delegation_input db1 r1 (int (length (cc_message c)) + material_size env ms) = Inr r2"
    and db2: "insert_input (i r2) db1 = Inr db2"
    and w: "wake_executor env ''input'' (r_status r = ''waiting_input'') (taken r2) db2 = Inr (r', db')"
    by (elim rbindE) blast
  obtain b where b: "r2 = r1\<lparr>r_deleg_input := b\<rparr>" using reserve_input_row [OF r2] by blast
  have id: "r_id r2 = r_id r" by (simp add: b r1_def)
  have fr: "b_runs db2 = b_runs db" "b_work db2 = b_work db" "b_inputs db2 = b_inputs db @ [i r2]"
    using db2 by (auto simp: insert_input_def db1_def split: if_splits)
  have tk: "key_of (taken r2) = key_of r" "r_version (taken r2) = r_version r" "r_input_version (taken r2) = ?v"
    "run_row_ok (taken r2)" "r_id (taken r2) = r_id r"
    using ok bd by (simp_all add: taken_def Let_def b r1_def)
  have act: "active_status (r_status r)" using n by (simp add: active_status_def)
  have "status_next (r_status r) ''running''" using act by (simp add: status_next_active)
  then have "life_step (life r) (life (taken r2))"
    by (cases "r_status r = ''waiting_input''") (simp_all add: taken_def Let_def b r1_def life_def)
  moreover have same: "life r' = life (taken r2)"
    using w by (auto simp: wake_executor_def Let_def life_def split: if_splits)
  ultimately have lf: "life_step\<^sup>*\<^sup>* (life r) (life r')" by (simp add: r_into_rtranclp)
  note loc = wake_executor_local [OF w, unfolded local_step_def]
  have fi: "b_inputs db' = b_inputs db @ [i r2]" and runs: "b_runs db' = b_runs db" using loc fr by auto
  have app: "work_appended db db'" using loc work_appended_trans [OF work_appended_same [OF fr(2)]] by blast
  have r': "key_of r' = key_of r" "r_version r' = r_version r" "r_input_version r' = ?v" "run_row_ok r'"
    using loc tk by auto
  have f: "find_run db' j = find_run db j" for j using runs by (simp add: find_run_def)
  have "input_log db r" using inv r by (auto simp: engine_inv_def inputs_numbered_def)
  then have log: "input_log db' r'"
    using bd by (intro input_log_snoc [OF _ _ _ _ key_of_id [OF r'(1)] r'(3) fi]) (simp_all add: i_def id)
  have ilo: "input_log db' x = input_log db x" if "r_id x \<noteq> r_id r" for x
    using that by (intro input_log_foreign [OF fi]) (simp add: i_def id)
  have others: "\<exists>x'. find_run db' j = Some x' \<and> run_next x x' \<and> (run_row_ok x \<longrightarrow> run_row_ok x') \<and> (input_log db x \<longrightarrow> input_log db' x')"
    if j: "j \<noteq> r_id r" "find_run db j = Some x" for j x
    using j ilo [of x] find_run_id [OF j(2)] by (simp add: f)
  have "\<forall>x\<in>set (b_inputs db'). x \<in> set (b_inputs db) \<or> in_run x = r_id r" by (auto simp: fi i_def id)
  moreover have "\<forall>w\<in>set (b_work db'). w \<in> set (b_work db) \<or> (w_run w = r_id r \<and> w_version w \<le> r_version r + 1)"
    using loc fr tk by auto
  ultimately show ?thesis unfolding lawful_step_def
    using r' lf log others runs app by (auto simp: f)
qed

section \<open>Every command\<close>

lemma guardD: "(if A then Inl e else X) = Inr y \<Longrightarrow> X = Inr y"
  by (simp split: if_split_asm)

lemma control_apply_lawful:
  assumes inv: "engine_inv db" and r: "find_run db (r_id r) = Some r" and p: "cc_op c = ''stop'' \<or> \<not> terminal_run r"
    and s: "control_apply env user c ms sources r db = Inr (r', db')"
  shows "lawful_step r r' db db'"
proof -
  have cases: "(if cc_op c = ''grant_control'' then grant_control c r db
     else if cc_op c = ''revoke_control'' then revoke_control c r db
     else if cc_op c = ''takeover'' then take_over env user r db
     else if cc_op c = ''input'' then take_input env user c ms sources r db
     else if cc_op c = ''stop'' then stop_run env r db
     else if cc_op c = ''resume'' then resume_run env r db
     else wake_executor env (cc_op c) (r_status r = ''waiting_input'') r db) = Inr (r', db')"
    using s unfolding control_apply_def by (elim rbindE) (rule guardD [OF guardD [OF guardD [OF guardD]]])
  show ?thesis
  proof (cases "cc_op c = ''input'' \<or> cc_op c = ''stop''")
    case True
    then show ?thesis using cases p take_input_lawful [OF inv r] stop_run_lawful [OF inv r] by auto
  next
    case False
    then have "local_step r r' db db'"
      using cases grant_control_local revoke_control_local take_over_local resume_run_local wake_executor_local
      by (auto split: if_split_asm)
    then show ?thesis by (rule local_lawful)
  qed
qed

interpretation user: run_command "control_apply env user c ms sources" "\<lambda>r. cc_op c = ''stop'' \<or> \<not> terminal_run r"
  for env user c ms sources
  by unfold_locales (rule control_apply_lawful)

end
