(* ===== verification/Run_Engine.thy ===== *)
theory Run_Engine
  imports Run_User
begin

text \<open>
  The run engine as a state machine over a clock and the tables. \<open>engine_step\<close> has a rule for every
  transaction of the bot service that writes runs or their work: acceptance, the leases of the queue,
  the changes of a worker and of the lifecycle monitor, recovery, the reports of executors, the commands
  of users and the closing of an interaction, each over whatever row its caller read before. The
  invariant holds in every reachable state, and every step of the engine is a number of steps of each
  run's life.
\<close>

section \<open>Acceptance\<close>

text \<open>A candidate as the service builds it: the first version of its input, outside of any delegation tree.\<close>

definition candidate :: "run \<Rightarrow> bool" where
  "candidate r \<longleftrightarrow> r_input_version r = 1 \<and> r_deleg_root r = None"

definition engine_next :: "bot_db \<Rightarrow> bot_db \<Rightarrow> bool" where
  "engine_next db db' \<longleftrightarrow> engine_inv db' \<and> runs_next db db' \<and> work_appended db db'"

lemma engine_next_refl: "engine_inv db \<Longrightarrow> engine_next db db"
  by (simp add: engine_next_def runs_next_same work_appended_same)

lemma engine_next_trans: "engine_next db1 db2 \<Longrightarrow> engine_next db2 db3 \<Longrightarrow> engine_next db1 db3"
  unfolding engine_next_def using runs_next_trans work_appended_trans by blast

lemma engine_next_frame:
  assumes "engine_next db0 db" and "b_runs db' = b_runs db" "b_work db' = b_work db" "b_inputs db' = b_inputs db"
  shows "engine_next db0 db'"
  using assms engine_inv_frame [OF assms(2,3,4)] by (simp add: engine_next_def work_appended_def)

lemma accept_delegation_step:
  assumes inv: "engine_inv db" and a: "accept_delegation env c pid db = Inr (c', db')"
  shows "engine_next db db'" "\<exists>rt d. c' = c\<lparr>r_deleg_root := rt, r_deleg_depth := d\<rparr>"
proof -
  obtain parent where p: "find_run db pid = Some parent" using a by (auto simp: accept_delegation_def split: option.splits)
  define up where "up = parent\<lparr>r_children := r_children parent @ [r_id c]\<rparr>"
  define parent' where "parent' = parent\<lparr>r_children := r_children parent @ [r_id c], r_version := r_version parent + 1,
                                   r_updated := now env\<rparr>"
  have "\<exists>rt d db1. c' = c\<lparr>r_deleg_root := rt, r_deleg_depth := d\<rparr> \<and> save_run parent' db = Inr db1 \<and>
      db' = queue_run env parent' ''updated'' db1"
    using a unfolding accept_delegation_def p option.case Let_def parent'_def
    by (auto simp: rbind_eq_Inr split: option.splits if_splits)
  then obtain rt d db1 where c': "c' = c\<lparr>r_deleg_root := rt, r_deleg_depth := d\<rparr>"
    and s: "save_run parent' db = Inr db1" and d: "db' = queue_run env parent' ''updated'' db1" by blast
  have f: "find_run db (r_id parent) = Some parent" using p find_run_id by metis
  have "local_step parent up db db" by (intro local_stepI) (simp_all add: up_def life_def life_step_refl)
  from save_next [OF inv f local_lawful [OF this] _ _ _ _ s d] show "engine_next db db'"
    by (simp add: engine_next_def up_def parent'_def life_def)
  show "\<exists>rt d. c' = c\<lparr>r_deleg_root := rt, r_deleg_depth := d\<rparr>" using c' by blast
qed

text \<open>The rows of a new run.\<close>

lemma find_run_append:
  "find_run (db\<lparr>b_runs := b_runs db @ [r]\<rparr>) i =
     (case find_run db i of Some x \<Rightarrow> Some x | None \<Rightarrow> if r_id r = i then Some r else None)"
  by (simp add: find_run_def find_append split: option.split)

lemma place_append:
  "find_run db i \<noteq> None \<Longrightarrow> place (db\<lparr>b_runs := b_runs db @ [r]\<rparr>) i = place db i"
  "find_run db i \<noteq> None \<Longrightarrow> place db i < length (b_runs db)"
  "find_run db (r_id r) = None \<Longrightarrow> place (db\<lparr>b_runs := b_runs db @ [r]\<rparr>) (r_id r) = length (b_runs db)"
proof -
  have none: "find_run db i = None \<longleftrightarrow> i \<notin> set (map r_id (b_runs db))" for i
    by (auto simp: find_run_def find_None_iff)
  have tw: "i \<in> set xs \<Longrightarrow> takeWhile (\<lambda>x. x \<noteq> i) (xs @ ys) = takeWhile (\<lambda>x. x \<noteq> i) xs \<and>
      length (takeWhile (\<lambda>x. x \<noteq> i) xs) < length xs" for i :: string and xs ys
    by (induction xs) auto
  have tn: "i \<notin> set xs \<Longrightarrow> takeWhile (\<lambda>x. x \<noteq> i) (xs @ [i]) = xs" for i :: string and xs
    by (induction xs) auto
  show "find_run db i \<noteq> None \<Longrightarrow> place (db\<lparr>b_runs := b_runs db @ [r]\<rparr>) i = place db i"
    "find_run db i \<noteq> None \<Longrightarrow> place db i < length (b_runs db)"
    using tw [of i "map r_id (b_runs db)" "[r_id r]"] by (auto simp: none place_def)
  show "find_run db (r_id r) = None \<Longrightarrow> place (db\<lparr>b_runs := b_runs db @ [r]\<rparr>) (r_id r) = length (b_runs db)"
    using tn [of "r_id r" "map r_id (b_runs db)"] by (simp add: none place_def)
qed

lemma store_run_step:
  assumes inv: "engine_inv db" and c: "r_input_version r = 1" and s: "store_run env r input db = Inr db'"
  shows "engine_next db db'" "find_run db' (r_id r) = Some r"
proof -
  define i where "i db2 = \<lparr>in_id = fst (bot_id env db2), in_run = r_id r, in_version = 1, in_requester = r_requester r,
         in_source_message = r_source_message r,
         in_edit_count = accepted_edit_count (r_source_message r) (r_materials r), in_provenance = r_provenance r,
         in_invalidated = False, in_key = r_input_key r, in_content = input, in_hash = r_input_hash r,
         in_materials = r_materials r, in_sources = r_sources r, in_created = now env\<rparr>" for db2
  obtain db1 db2 db4 where d1: "(if r_parent r = None then insert_interaction env r db else Inr db) = Inr db1"
    and d2: "insert_run r db1 = Inr db2" and d4: "insert_input (i db2) (snd (bot_id env db2)) = Inr db4"
    and db': "db' = queue_run env r ''updated'' (queue_run env r (if r_executor r = ''third_party'' then ''deliver'' else ''execute'') db4)"
    using s unfolding store_run_def case_prod_beta i_def [symmetric] Let_def by (elim rbindE) simp
  have i: "in_run (i db2) = r_id r" "in_version (i db2) = 1" by (simp_all add: i_def)
  have d3: "b_runs (snd (bot_id env db2)) = b_runs db2" "b_work (snd (bot_id env db2)) = b_work db2"
    "b_inputs (snd (bot_id env db2)) = b_inputs db2" by (simp_all add: bot_id_def)
  have f1: "b_runs db1 = b_runs db" "b_work db1 = b_work db" "b_inputs db1 = b_inputs db"
    using d1 by (auto simp: insert_interaction_def split: if_splits)
  have new: "find_run db (r_id r) = None" and row: "run_row_ok r" and refs: "references_ok db1 r"
    and db2: "db2 = db1\<lparr>b_runs := b_runs db1 @ [r]\<rparr>"
    using d2 f1 by (auto simp: insert_run_def find_run_def split: if_splits)
  have f4: "b_runs db4 = b_runs db @ [r]" "b_work db4 = b_work db" "b_inputs db4 = b_inputs db @ [i db2]"
    using d4 d3 db2 f1 by (auto simp: insert_input_def split: if_splits)
  have runs: "b_runs db' = b_runs db @ [r]" and inputs: "b_inputs db' = b_inputs db @ [i db2]" by (simp_all add: db' f4)
  have app: "work_appended db db'" unfolding db'
    by (intro work_appended_trans [OF work_appended_trans [OF work_appended_same [OF f4(2)] queue_run_appends] queue_run_appends])
  have f: "find_run db' j = (case find_run db j of Some x \<Rightarrow> Some x | None \<Rightarrow> if r_id r = j then Some r else None)" for j
    using find_run_append [of db r j] runs by (simp add: find_run_def)
  show own: "find_run db' (r_id r) = Some r" by (simp add: f new)
  have pl: "place db' j = place (db\<lparr>b_runs := b_runs db @ [r]\<rparr>) j" for j by (simp add: place_def runs)
  have nx: "runs_next db db'" by (simp add: runs_next_def f)
  have old: "j \<noteq> r_id r \<Longrightarrow> find_run db' j = Some x \<Longrightarrow> find_run db j = Some x" for j x
    by (auto simp: f split: option.splits if_splits)
  have foreign: "in_run x \<noteq> r_id r" if "x \<in> set (b_inputs db)" for x
    using inv that new by (auto simp: engine_inv_def inputs_numbered_def)
  have log: "input_log db' x" if x: "find_run db' j = Some x" for j x
  proof (cases "j = r_id r")
    case True
    then have "x = r" using own x by simp
    moreover have "filter (\<lambda>i. in_run i = r_id r) (b_inputs db) = []" using foreign by (auto simp: filter_empty_conv)
    ultimately show ?thesis using i c by (simp add: input_log_sorted inputs)
  next
    case False
    have dx: "find_run db j = Some x" by (rule old [OF False x])
    then have "r_id x \<noteq> r_id r" using False find_run_id by metis
    then have "input_log db' x = input_log db x" using i by (intro input_log_foreign [OF inputs]) simp
    then show ?thesis using inv dx by (auto simp: engine_inv_def inputs_numbered_def)
  qed
  have "typed_runs db'"
  proof -
    have "run_row_ok x" if x: "find_run db' j = Some x" for j x
      using x own row old [OF _ x] engine_row_ok [OF inv] by (cases "j = r_id r") auto
    then show ?thesis by (simp add: typed_runs_def)
  qed
  moreover have "delegators_first db'" unfolding delegators_first_def
  proof (intro allI impI)
    fix j x p assume x: "find_run db' j = Some x" and p: "r_deleg_parent x = Some p"
    show "find_run db' p \<noteq> None \<and> place db' p < place db' j"
    proof (cases "j = r_id r")
      case True
      then have "x = r" using own x by simp
      then have "find_run db p \<noteq> None" using refs p f1 by (simp add: references_ok_def find_run_def)
      then show ?thesis using place_append(1) [of db p r] place_append(2) [of db p] place_append(3) [OF new] True by (auto simp: f pl)
    next
      case False
      have dx: "find_run db j = Some x" by (rule old [OF False x])
      then have "find_run db p \<noteq> None \<and> place db p < place db j"
        using inv p by (auto simp: engine_inv_def delegators_first_def)
      then show ?thesis using place_append(1) [of db p r] place_append(1) [of db j r] dx by (auto simp: f pl)
    qed
  qed
  moreover have "work_reached db'" unfolding work_reached_def
  proof
    fix w assume "w \<in> set (b_work db')"
    then have "w \<in> set (b_work db) \<or> (w_run w = r_id r \<and> w_version w = r_version r)"
      unfolding db' by (auto dest!: queued_work simp: f4)
    then show "\<exists>x. find_run db' (w_run w) = Some x \<and> w_version w \<le> r_version x"
    proof
      assume "w \<in> set (b_work db)"
      then show ?thesis using inv by (auto simp: engine_inv_def work_reached_def f split: option.splits)
    qed (simp add: own)
  qed
  moreover have "inputs_numbered db'"
    using log inv i own by (auto simp: inputs_numbered_def engine_inv_def inputs f split: option.splits)
  moreover have "distinct (map r_id (b_runs db'))"
    using inv new by (auto simp: engine_inv_def runs find_run_def find_None_iff)
  ultimately show "engine_next db db'" using nx app by (simp add: engine_next_def engine_inv_def)
qed

lemma accept_step:
  assumes inv: "engine_inv db" and c: "candidate r" and a: "accept_run env r input ms db = Inr (r', db')"
  shows "engine_next db db'"
proof -
  have "db' = db \<or> (\<exists>r1 db1. (case r_deleg_parent r of None \<Rightarrow> Inr (r, db) | Some p \<Rightarrow> accept_delegation env r p db) = Inr (r1, db1) \<and>
      store_run env r1 input db1 = Inr db')"
    using a unfolding accept_run_def by (auto simp: rbind_eq_Inr split: option.splits)
  then show ?thesis
  proof
    assume "db' = db" then show ?thesis using engine_next_refl [OF inv] by simp
  next
    assume "\<exists>r1 db1. (case r_deleg_parent r of None \<Rightarrow> Inr (r, db) | Some p \<Rightarrow> accept_delegation env r p db) = Inr (r1, db1) \<and>
      store_run env r1 input db1 = Inr db'"
    then obtain r1 db1 where d: "(case r_deleg_parent r of None \<Rightarrow> Inr (r, db) | Some p \<Rightarrow> accept_delegation env r p db) = Inr (r1, db1)"
      and s: "store_run env r1 input db1 = Inr db'" by blast
    have "engine_next db db1 \<and> r_input_version r1 = 1"
    proof (cases "r_deleg_parent r")
      case None
      then show ?thesis using d c engine_next_refl [OF inv] by (simp add: candidate_def)
    next
      case (Some p)
      then have "accept_delegation env r p db = Inr (r1, db1)" using d by simp
      from accept_delegation_step [OF inv this] show ?thesis using c by (auto simp: candidate_def)
    qed
    then have e: "engine_next db db1" and c1: "r_input_version r1 = 1" by simp_all
    have "engine_next db1 db'" using e c1 by (intro store_run_step(1) [OF _ _ s]) (simp_all add: engine_next_def)
    with e show ?thesis by (rule engine_next_trans)
  qed
qed

end
