(* ===== verification/Run_Leases.thy ===== *)
theory Run_Leases
  imports Run_Engine
begin

text \<open>
  The leases of the work queue and the closing of an interaction, the transactions of the run engine
  that have no callback. \<open>lease_inv\<close> is the invariant of the leases: at any time at most one worker
  holds executable work of a run, and no item carries a generation its run has not reached.
\<close>

section \<open>Work rows\<close>

text \<open>Transactions that rewrite queue rows in place.\<close>

definition rows_kept :: "bot_db \<Rightarrow> bot_db \<Rightarrow> bool" where
  "rows_kept db db' \<longleftrightarrow> b_runs db' = b_runs db \<and> b_inputs db' = b_inputs db \<and>
     (\<forall>w'\<in>set (b_work db'). \<exists>w\<in>set (b_work db). w_run w' = w_run w \<and> w_version w' = w_version w)"

lemma rows_kept_inv: "engine_inv db \<Longrightarrow> rows_kept db db' \<Longrightarrow> engine_inv db' \<and> runs_next db db'"
proof -
  assume inv: "engine_inv db" and k: "rows_kept db db'"
  have f: "find_run db' i = find_run db i" "place db' i = place db i" for i using k by (simp_all add: find_run_def place_def rows_kept_def)
  have i: "input_log db' x = input_log db x" for x by (intro input_log_frame) (use k in \<open>simp_all add: rows_kept_def\<close>)
  have "work_reached db'"
    using inv k by (fastforce simp: engine_inv_def work_reached_def rows_kept_def f)
  then show ?thesis using inv k
    by (simp add: engine_inv_def typed_runs_def delegators_first_def inputs_numbered_def f i rows_kept_def runs_next_same)
qed

lemma rows_kept_update:
  assumes "b_runs db' = b_runs db" "b_inputs db' = b_inputs db" "b_work db' = update_where P f (b_work db)"
    and "\<And>w. w \<in> set (b_work db) \<Longrightarrow> P w \<Longrightarrow> w_run (f w) = w_run w \<and> w_version (f w) = w_version w"
  shows "rows_kept db db'"
  using assms by (auto simp: rows_kept_def set_update_where)

section \<open>Leases\<close>

definition held :: "int \<Rightarrow> work_item \<Rightarrow> bool" where
  "held t w \<longleftrightarrow> w_completed w = None \<and> (case w_lease w of None \<Rightarrow> False | Some l \<Rightarrow> t < l)"

lemma live_lease_held: "live_lease env = held (now env)"
  by (simp add: live_lease_def held_def fun_eq_iff)

lemma held_before: "held t' w \<Longrightarrow> t \<le> t' \<Longrightarrow> held t w"
  by (auto simp: held_def split: option.splits)

definition rival :: "work_item \<Rightarrow> work_item \<Rightarrow> bool" where
  "rival x y \<longleftrightarrow> w_kind x = ''execute'' \<and> w_kind y = ''execute'' \<and> w_run x = w_run y \<and> w_id x \<noteq> w_id y"

definition lease_inv :: "int \<Rightarrow> bot_db \<Rightarrow> bool" where
  "lease_inv t db \<longleftrightarrow> distinct (map w_id (b_work db)) \<and>
     (\<forall>x\<in>set (b_work db). \<forall>y\<in>set (b_work db). rival x y \<longrightarrow> \<not> (held t x \<and> held t y)) \<and>
     (\<forall>x\<in>set (b_work db). w_generation x \<noteq> 0 \<longrightarrow>
        (\<exists>r. find_run db (w_run x) = Some r \<and> w_generation x \<le> r_generation r))"

lemma idle_not_held: "idle w \<Longrightarrow> \<not> held t w"
  by (simp add: idle_def held_def)

lemma run_next_generation: "run_next r r' \<Longrightarrow> r_generation r \<le> r_generation r'"
  unfolding run_next_def using life_steps_generation [of "life r" "life r'"] by (simp add: life_def)

lemma fenced_next:
  assumes "runs_next db db'" and "\<exists>r. find_run db i = Some r \<and> g \<le> r_generation r"
  shows "\<exists>r. find_run db' i = Some r \<and> g \<le> r_generation r"
  using assms runs_nextD [OF assms(1)] run_next_generation by (meson order_trans)

lemma lease_inv_rival:
  assumes "lease_inv t db" and "t \<le> t'" and "x \<in> set (b_work db)" "y \<in> set (b_work db)" "rival x y"
  shows "\<not> (held t' x \<and> held t' y)"
  using assms(1,3-5) held_before [OF _ assms(2)] unfolding lease_inv_def by blast

lemma lease_inv_appended:
  assumes inv: "lease_inv t db" and n: "runs_next db db'" and a: "work_appended db db'" and t: "t \<le> t'"
  shows "lease_inv t' db'"
proof -
  obtain ws where ws: "b_work db' = b_work db @ ws" "list_all idle ws" using a by (auto simp: work_appended_def)
  have new: "\<not> held t' w" "w_generation w = 0" if "w \<in> set ws" for w
    using ws(2) that idle_not_held by (auto simp: list_all_iff idle_def)
  have "distinct (map w_id (b_work db'))" using a inv by (simp add: work_appended_def lease_inv_def)
  moreover have "\<not> (held t' x \<and> held t' y)" if "x \<in> set (b_work db')" "y \<in> set (b_work db')" "rival x y" for x y
    using that new lease_inv_rival [OF inv t] by (auto simp: ws)
  moreover have "\<exists>r. find_run db' (w_run x) = Some r \<and> w_generation x \<le> r_generation r"
    if "x \<in> set (b_work db')" "w_generation x \<noteq> 0" for x
    using that new inv by (intro fenced_next [OF n]) (auto simp: ws lease_inv_def)
  ultimately show ?thesis by (simp add: lease_inv_def)
qed

text \<open>One row is rewritten, and it is held afterwards only if it has no held rival.\<close>

lemma lease_inv_update:
  assumes inv: "lease_inv t db" and n: "runs_next db db'" and t: "t \<le> t'"
    and w: "b_work db' = update_where P f (b_work db)" and key: "\<And>x. P x \<Longrightarrow> w_id x = k"
    and f: "\<And>x. x \<in> set (b_work db) \<Longrightarrow> P x \<Longrightarrow> w_id (f x) = w_id x \<and> w_run (f x) = w_run x \<and> w_kind (f x) = w_kind x"
    and h: "\<And>x y. \<lbrakk>x \<in> set (b_work db); P x; held t' (f x); y \<in> set (b_work db); rival x y\<rbrakk> \<Longrightarrow> \<not> held t' y"
    and g: "\<And>x. \<lbrakk>x \<in> set (b_work db); P x; w_generation (f x) \<noteq> 0; w_generation (f x) \<noteq> w_generation x\<rbrakk> \<Longrightarrow>
      \<exists>r. find_run db' (w_run x) = Some r \<and> w_generation (f x) \<le> r_generation r"
  shows "lease_inv t' db'"
proof -
  have ids: "map w_id (b_work db') = map w_id (b_work db)" using f by (simp add: w update_where_def)
  have free: "\<not> (held t' x \<and> held t' y)"
    if x: "x \<in> set (b_work db')" and y: "y \<in> set (b_work db')" and r: "rival x y" for x y
  proof -
    obtain x0 where x0: "x0 \<in> set (b_work db)" "x = (if P x0 then f x0 else x0)" using x w by (auto simp: update_where_def)
    obtain y0 where y0: "y0 \<in> set (b_work db)" "y = (if P y0 then f y0 else y0)" using y w by (auto simp: update_where_def)
    have r0: "rival x0 y0" "rival y0 x0" using r f x0 y0 by (auto simp: rival_def split: if_splits)
    then have "\<not> (P x0 \<and> P y0)" using key by (auto simp: rival_def)
    then consider "P x0" "\<not> P y0" | "\<not> P x0" "P y0" | "\<not> P x0" "\<not> P y0" by blast
    then show ?thesis
    proof cases
      case 1 then show ?thesis using h [OF x0(1) _ _ y0(1) r0(1)] x0 y0 by auto
    next
      case 2 then show ?thesis using h [OF y0(1) _ _ x0(1) r0(2)] x0 y0 by auto
    next
      case 3 then show ?thesis using lease_inv_rival [OF inv t x0(1) y0(1) r0(1)] x0(2) y0(2) by simp
    qed
  qed
  have fence: "\<exists>r. find_run db' (w_run x) = Some r \<and> w_generation x \<le> r_generation r"
    if x: "x \<in> set (b_work db')" "w_generation x \<noteq> 0" for x
  proof -
    obtain x0 where x0: "x0 \<in> set (b_work db)" "x = (if P x0 then f x0 else x0)" using x(1) w by (auto simp: update_where_def)
    have run: "w_run x = w_run x0" using x0 f by auto
    show ?thesis
    proof (cases "w_generation x = w_generation x0")
      case True
      then show ?thesis using inv x0(1) x(2) unfolding run by (intro fenced_next [OF n]) (auto simp: lease_inv_def)
    next
      case False
      then have "P x0" using x0(2) by (auto split: if_splits)
      then show ?thesis using g [OF x0(1)] False x0(2) x(2) unfolding run by simp
    qed
  qed
  show ?thesis unfolding lease_inv_def ids using inv free fence by (auto simp: lease_inv_def)
qed

section \<open>Taking, keeping and giving back work\<close>

lemma bot_id_frame:
  "b_runs (snd (bot_id env db)) = b_runs db" "b_work (snd (bot_id env db)) = b_work db"
  "b_inputs (snd (bot_id env db)) = b_inputs db"
  by (simp_all add: bot_id_def)

lemma put_item_frame: "b_runs (put_item w db) = b_runs db" "b_inputs (put_item w db) = b_inputs db"
  by (simp_all add: put_item_def)

definition lease_of :: "bot_env \<Rightarrow> bot_db \<Rightarrow> work_item \<Rightarrow> work_item" where
  "lease_of env db w =
     w\<lparr>w_token := Some (fst (bot_id env db)), w_lease := Some (now env + minute), w_attempts := w_attempts w + 1\<rparr>"

text \<open>What a claim does: it leases an eligible item, and starts a generation of an executable run.\<close>

lemma claim_cases:
  assumes "claim env kinds db = Inr (w', db')"
  obtains (plain) w where "w \<in> set (b_work db)" "eligible env db kinds w" "w' = lease_of env db w"
      "db' = put_item w' (snd (bot_id env db))"
  | (execute) w r db1 where "w \<in> set (b_work db)" "eligible env db kinds w" "w_kind w = ''execute''"
      "find_run db (w_run w) = Some r" "executable r"
      "save_run (begin_generation env r) (snd (bot_id env db)) = Inr db1"
      "w' = (lease_of env db w)\<lparr>w_generation := r_generation r + 1\<rparr>"
      "db' = put_item w' (queue_run env (begin_generation env r) ''updated'' db1)"
proof -
  obtain w ws where s: "sort_by older (filter (eligible env db kinds) (b_work db)) = w # ws"
    using assms by (auto simp: claim_def split: list.splits)
  have "w \<in> set (sort_by older (filter (eligible env db kinds) (b_work db)))" unfolding s by simp
  then have w: "w \<in> set (b_work db)" "eligible env db kinds w" by auto
  have c: "(if w_kind w = ''execute'' then
               rbind (claimed_run db w) (\<lambda>r.
                 if executable r then
                   rbind (save_run (begin_generation env r) (snd (bot_id env db))) (\<lambda>db1.
                        Inr ((lease_of env db w)\<lparr>w_generation := r_generation (begin_generation env r)\<rparr>,
                             put_item ((lease_of env db w)\<lparr>w_generation := r_generation (begin_generation env r)\<rparr>)
                               (queue_run env (begin_generation env r) ''updated'' db1)))
                 else Inr (lease_of env db w, put_item (lease_of env db w) (snd (bot_id env db))))
             else Inr (lease_of env db w, put_item (lease_of env db w) (snd (bot_id env db)))) = Inr (w', db')"
    using assms unfolding claim_def s list.case case_prod_beta Let_def lease_of_def .
  show thesis
  proof (cases "w_kind w = ''execute''")
    case False
    then have "w' = lease_of env db w" "db' = put_item w' (snd (bot_id env db))" using c by auto
    then show thesis by (rule plain [OF w])
  next
    case True
    then obtain r where r: "find_run db (w_run w) = Some r" and d: "(if executable r then
                   rbind (save_run (begin_generation env r) (snd (bot_id env db))) (\<lambda>db1.
                        Inr ((lease_of env db w)\<lparr>w_generation := r_generation (begin_generation env r)\<rparr>,
                             put_item ((lease_of env db w)\<lparr>w_generation := r_generation (begin_generation env r)\<rparr>)
                               (queue_run env (begin_generation env r) ''updated'' db1)))
                 else Inr (lease_of env db w, put_item (lease_of env db w) (snd (bot_id env db)))) = Inr (w', db')"
      using c by (auto simp: rbind_eq_Inr claimed_run_def get_run_def of_option_eq_Inr)
    show thesis
    proof (cases "executable r")
      case False
      then have "w' = lease_of env db w" "db' = put_item w' (snd (bot_id env db))" using d by auto
      then show thesis by (rule plain [OF w])
    next
      case e: True
      have g: "r_generation (begin_generation env r) = r_generation r + 1" by (simp add: begin_generation_def)
      show thesis using d e unfolding g by (auto simp: rbind_eq_Inr intro: execute [OF w True r e])
    qed
  qed
qed

lemma begin_generation_step:
  assumes inv: "engine_inv db" and f: "find_run db i = Some r" and e: "executable r"
    and s: "save_run (begin_generation env r) db0 = Inr db1"
    and fr: "b_runs db0 = b_runs db" "b_work db0 = b_work db" "b_inputs db0 = b_inputs db"
  shows "engine_next db (queue_run env (begin_generation env r) ''updated'' db1)"
    "find_run (queue_run env (begin_generation env r) ''updated'' db1) i = Some (begin_generation env r)"
proof -
  have i: "r_id r = i" by (rule find_run_id [OF f])
  define r1 where "r1 = r\<lparr>r_generation := r_generation r + 1, r_executor_status := r_executor_status (begin_generation env r)\<rparr>"
  have ok: "run_row_ok r" by (rule engine_row_ok [OF inv f])
  have es: "r_executor_status (begin_generation env r) \<in> set executor_statuses"
    using ok by (simp add: begin_generation_def run_row_ok_def)
  have "local_step r r1 db db0"
    using e es by (intro local_stepI) (auto simp: r1_def life_def executable_def fr)
  note law = local_lawful [OF this]
  have "key_of (begin_generation env r) = key_of r1" "r_version (begin_generation env r) = r_version r + 1"
    "life (begin_generation env r) = life r1" "r_input_version (begin_generation env r) = r_input_version r1"
    by (simp_all add: begin_generation_def r1_def life_def)
  from save_next [OF inv f [folded i] law this s refl]
  show "engine_next db (queue_run env (begin_generation env r) ''updated'' db1)"
    "find_run (queue_run env (begin_generation env r) ''updated'' db1) i = Some (begin_generation env r)"
    unfolding engine_next_def i by blast+
qed

lemma put_item_kept:
  assumes d: "distinct (map w_id (b_work db))" and w: "w \<in> set (b_work db)"
    and k: "w_id w' = w_id w" "w_run w' = w_run w" "w_version w' = w_version w"
  shows "rows_kept db (put_item w' db)"
proof (rule rows_kept_update)
  show "b_work (put_item w' db) = update_where (\<lambda>x. w_id x = w_id w') (\<lambda>_. w') (b_work db)" by (simp add: put_item_def)
  show "w_run w' = w_run x \<and> w_version w' = w_version x" if "x \<in> set (b_work db)" "w_id x = w_id w'" for x
    using that d w k by (metis distinct_map inj_on_def)
qed (simp_all add: put_item_frame)

lemma claim_step:
  assumes inv: "engine_inv db" and l: "lease_inv t db" and t: "t \<le> now env" and c: "claim env kinds db = Inr (w', db')"
  shows "engine_inv db' \<and> runs_next db db' \<and> lease_inv (now env) db'"
proof -
  have one: "engine_inv (put_item v d) \<and> runs_next db (put_item v d) \<and> lease_inv (now env) (put_item v d)"
    if w: "w \<in> set (b_work db)" "eligible env db kinds w" and n: "engine_next db d"
      and v: "v = (lease_of env db w)\<lparr>w_generation := g\<rparr>"
      and g: "g = w_generation w \<or> (\<exists>r. find_run d (w_run w) = Some r \<and> g \<le> r_generation r)" for w d v g
  proof -
    have nd: "engine_inv d" "runs_next db d" "work_appended db d" using n by (auto simp: engine_next_def)
    have ld: "lease_inv (now env) d" by (rule lease_inv_appended [OF l nd(2,3) t])
    then have dist: "distinct (map w_id (b_work d))" by (simp add: lease_inv_def)
    have wd: "w \<in> set (b_work d)" using w(1) nd(3) by (auto simp: work_appended_def)
    have vk: "w_id v = w_id w" "w_run v = w_run w" "w_kind v = w_kind w" "w_version v = w_version w" "w_generation v = g"
      by (simp_all add: v lease_of_def)
    have k: "rows_kept d (put_item v d)" by (rule put_item_kept [OF dist wd vk(1,2,4)])
    note kept = rows_kept_inv [OF nd(1) k]
    have same: "x = w" if "x \<in> set (b_work d)" "w_id x = w_id v" for x
      using that dist wd vk(1) by (metis distinct_map inj_on_def)
    have free: "\<not> held (now env) y" if y: "y \<in> set (b_work d)" and r: "rival w y" for y
    proof -
      have "y \<in> set (b_work db) \<or> idle y" using y nd(3) by (auto simp: work_appended_def list_all_iff)
      then show ?thesis using w(2) r idle_not_held by (auto simp: eligible_def rival_def live_lease_held)
    qed
    have "lease_inv (now env) (put_item v d)"
    proof (rule lease_inv_update [OF ld conjunct2 [OF kept] order_refl, where P = "\<lambda>x. w_id x = w_id v" and f = "\<lambda>_. v"])
      show "b_work (put_item v d) = update_where (\<lambda>x. w_id x = w_id v) (\<lambda>_. v) (b_work d)" by (simp add: put_item_def)
      show "w_id v = w_id x \<and> w_run v = w_run x \<and> w_kind v = w_kind x" if "x \<in> set (b_work d)" "w_id x = w_id v" for x
        using same [OF that] vk by simp
      show "\<not> held (now env) y" if "x \<in> set (b_work d)" "w_id x = w_id v" "y \<in> set (b_work d)" "rival x y" for x y
        using same [OF that(1,2)] free that(3,4) by blast
      show "\<exists>r. find_run (put_item v d) (w_run x) = Some r \<and> w_generation v \<le> r_generation r"
        if x: "x \<in> set (b_work d)" "w_id x = w_id v" "w_generation v \<noteq> w_generation x" for x
        using g x same [OF x(1,2)] vk(5) by (auto simp: put_item_def find_run_def)
    qed
    then show ?thesis using kept runs_next_trans [OF nd(2)] by blast
  qed
  from c show ?thesis
  proof (cases rule: claim_cases)
    case (plain w)
    have "engine_next db (snd (bot_id env db))"
      by (rule engine_next_frame [OF engine_next_refl [OF inv] bot_id_frame])
    moreover have "w' = (lease_of env db w)\<lparr>w_generation := w_generation w\<rparr>" by (simp add: plain(3) lease_of_def)
    ultimately show ?thesis using one [OF plain(1,2)] unfolding plain(4) by blast
  next
    case (execute w r db1)
    note b = begin_generation_step [OF inv execute(4,5,6) bot_id_frame]
    have "r_generation r + 1 \<le> r_generation (begin_generation env r)" by (simp add: begin_generation_def)
    with b(2) show ?thesis unfolding execute(8) by (intro one [OF execute(1,2) b(1) execute(7)]) blast
  qed
qed

text \<open>A worker that gives its lease back, or keeps it while it is alive.\<close>

lemma token_step:
  assumes inv: "engine_inv db" and l: "lease_inv t db" and t: "t \<le> t'"
    and fr: "b_runs db' = b_runs db" "b_inputs db' = b_inputs db"
    and w: "b_work db' = update_where P f (b_work db)" and key: "\<And>x. P x \<Longrightarrow> w_id x = k"
    and f: "\<And>x. w_id (f x) = w_id x \<and> w_run (f x) = w_run x \<and> w_kind (f x) = w_kind x \<and> w_version (f x) = w_version x \<and>
      w_generation (f x) = w_generation x"
    and h: "\<And>x. P x \<Longrightarrow> held t' (f x) \<Longrightarrow> held t' x"
  shows "engine_inv db' \<and> runs_next db db' \<and> lease_inv t' db'"
proof -
  have k: "rows_kept db db'" by (rule rows_kept_update [OF fr w]) (simp add: f)
  note kept = rows_kept_inv [OF inv k]
  have "lease_inv t' db'"
  proof (rule lease_inv_update [OF l conjunct2 [OF kept] t w key])
    show "\<not> held t' y" if x: "x \<in> set (b_work db)" "P x" "held t' (f x)" "y \<in> set (b_work db)" "rival x y" for x y
      using h [OF x(2,3)] lease_inv_rival [OF l t x(1,4,5)] by blast
  qed (simp_all add: f)
  then show ?thesis using kept by blast
qed

lemma renew_step:
  assumes "engine_inv db" "lease_inv t db" "t \<le> now env" "renew env item db = Inr db'"
  shows "engine_inv db' \<and> runs_next db db' \<and> lease_inv (now env) db'"
proof -
  have d: "db' = db\<lparr>b_work := update_where (\<lambda>w. owned item w \<and> live_lease env w)
             (\<lambda>w. w\<lparr>w_lease := Some (now env + minute)\<rparr>) (b_work db)\<rparr>"
    using assms(4) by (auto simp: renew_def split: if_splits)
  show ?thesis
    by (rule token_step [OF assms(1-3), where k = "w_id item" and P = "\<lambda>w. owned item w \<and> live_lease env w"
        and f = "\<lambda>w. w\<lparr>w_lease := Some (now env + minute)\<rparr>"])
      (auto simp: d owned_def live_lease_held)
qed

lemma complete_step:
  assumes "engine_inv db" "lease_inv t db" "t \<le> now env"
  shows "engine_inv (complete_work env item db) \<and> runs_next db (complete_work env item db) \<and>
     lease_inv (now env) (complete_work env item db)"
  by (rule token_step [OF assms, where k = "w_id item" and P = "owned item"
      and f = "\<lambda>w. w\<lparr>w_completed := Some (now env), w_lease := None, w_token := None\<rparr>"])
    (auto simp: complete_work_def owned_def held_def)

lemma retry_step:
  assumes "engine_inv db" "lease_inv t db" "t \<le> now env"
  shows "engine_inv (retry_work env item db) \<and> runs_next db (retry_work env item db) \<and>
     lease_inv (now env) (retry_work env item db)"
  by (rule token_step [OF assms, where k = "w_id item" and P = "owned item"
      and f = "\<lambda>w. w\<lparr>w_available := now env + min (w_attempts item) 30 * second, w_lease := None, w_token := None\<rparr>"])
    (auto simp: retry_work_def owned_def held_def)

section \<open>Closing an interaction\<close>

lemma close_one_step:
  assumes inv: "engine_inv db" and f: "find_run db (r_id r) = Some r" and c: "close_one env r db = Inr db'"
  shows "engine_next db db'" "i \<noteq> r_id r \<Longrightarrow> find_run db' i = find_run db i"
proof -
  define r1 where "r1 = r\<lparr>r_interaction_status := ''closed''\<rparr>"
  define r2 where "r2 = r\<lparr>r_interaction_status := ''closed'', r_updated := now env, r_version := r_version r + 1\<rparr>"
  obtain db1 where s: "save_run r2 db = Inr db1" and d: "db' = queue_run env r2 ''updated'' db1"
    using c by (auto simp: close_one_def Let_def rbind_eq_Inr r2_def)
  have "local_step r r1 db db" by (intro local_stepI) (simp_all add: r1_def life_def life_step_refl)
  from save_next [OF inv f local_lawful [OF this] _ _ _ _ s d] show "engine_next db db'"
    by (simp add: engine_next_def r1_def r2_def life_def)
  show "find_run db' i = find_run db i" if "i \<noteq> r_id r"
    using s that by (auto simp: d save_run_def find_put_run r2_def split: if_splits)
qed

lemma close_all_step:
  assumes "engine_next db0 db" "distinct (map r_id rs)" "\<forall>r\<in>set rs. find_run db (r_id r) = Some r"
    "rfold (close_one env) rs db = Inr db'"
  shows "engine_next db0 db'"
  using assms
proof (induction rs arbitrary: db)
  case (Cons r rs)
  obtain d where d: "close_one env r db = Inr d" and rest: "rfold (close_one env) rs d = Inr db'"
    using Cons.prems(4) by (auto simp: rbind_eq_Inr)
  have "engine_inv db" using Cons.prems(1) by (simp add: engine_next_def)
  note one = close_one_step [OF this _ d]
  have n: "engine_next db0 d" by (rule engine_next_trans [OF Cons.prems(1) one(1)]) (use Cons.prems(3) in simp)
  have "\<forall>x\<in>set rs. find_run d (r_id x) = Some x"
  proof
    fix x assume x: "x \<in> set rs"
    then have "r_id x \<noteq> r_id r" using Cons.prems(2) by (auto simp: image_iff)
    then have "find_run d (r_id x) = find_run db (r_id x)" by (intro one(2)) (use Cons.prems(3) in simp)
    then show "find_run d (r_id x) = Some x" using Cons.prems(3) x by simp
  qed
  then show ?case using Cons.IH [OF n _ _ rest] Cons.prems(2) by simp
qed simp

lemma close_interaction_step:
  assumes inv: "engine_inv db" and c: "close_interaction env checked key digest user db = Inr (p, db')"
  shows "engine_next db db'"
proof -
  obtain target where t: "find_run db (r_id checked) = Some target"
    using c by (auto simp: close_interaction_def rbind_eq_Inr split: option.splits)
  obtain ia where i: "find (\<lambda>i. ia_id i = r_interaction target) (b_interactions db) = Some ia"
    using c t by (auto simp: close_interaction_def rbind_eq_Inr split: option.splits)
  let ?d = "db\<lparr>b_interactions := update_where (\<lambda>i. ia_id i = ia_id ia)
               (\<lambda>i. i\<lparr>ia_status := ''closed'', ia_closed := Some (now env)\<rparr>) (b_interactions db)\<rparr>"
  have "db' = db \<or> (\<exists>db1. (if ia_status ia \<noteq> ''closed'' then rfold (close_one env) (interaction_runs db (ia_id ia)) ?d
      else Inr db) = Inr db1 \<and> put_receipt env (r_id checked) key digest db1 = Inr db')"
    using c by (auto simp: close_interaction_def t i rbind_eq_Inr split: option.splits if_split_asm)
  then show ?thesis
  proof (elim disjE exE conjE)
    assume "db' = db" then show ?thesis using engine_next_refl [OF inv] by simp
  next
    fix db1
    assume f: "(if ia_status ia \<noteq> ''closed'' then rfold (close_one env) (interaction_runs db (ia_id ia)) ?d else Inr db) = Inr db1"
      and p: "put_receipt env (r_id checked) key digest db1 = Inr db'"
    have "engine_next db db1"
    proof (cases "ia_status ia = ''closed''")
      case True
      then show ?thesis using f engine_next_refl [OF inv] by simp
    next
      case False
      have "engine_next db ?d" by (rule engine_next_frame [OF engine_next_refl [OF inv]]) simp_all
      then show ?thesis
      proof (rule close_all_step)
        show "distinct (map r_id (interaction_runs db (ia_id ia)))" unfolding interaction_runs_def
          using inv by (intro distinct_sort_by) (simp add: engine_inv_def distinct_map_filter)
        show "\<forall>r\<in>set (interaction_runs db (ia_id ia)). find_run ?d (r_id r) = Some r"
          using find_run_member [OF inv] by (auto simp: interaction_runs_def find_run_def)
        show "rfold (close_one env) (interaction_runs db (ia_id ia)) ?d = Inr db1" using f False by simp
      qed
    qed
    then show ?thesis by (rule engine_next_frame [OF _ put_receipt_frame [OF p]])
  qed
qed

end
