(* ===== verification/Run_System.thy ===== *)
theory Run_System
  imports Run_Leases
begin

text \<open>
  The run engine as one state machine. An \<open>engine_op\<close> is a transaction with the rows its caller read
  before; \<open>run_engine\<close> executes it, \<open>engine_step\<close> is a committed execution at a later time of the
  database's clock, and a failed transaction leaves the tables alone. The transactions are those of the
  repository, but for \<open>reconcile_authorizations\<close>, whose callback scrubs the text of revoked sources and is not
  modelled, and for what the agent's rounds write. Every reachable state keeps \<open>engine_inv\<close> and \<open>lease_inv\<close>.
\<close>

section \<open>Transactions\<close>

datatype engine_op =
  Accept run string "material list"
| Claim "string list"
| Renew work_item
| Complete work_item
| Retry work_item
| Work run int worker_cmd
| Lifecycle run int lifecycle_cmd
| Facts run facts_cmd
| Executor run string string executor_update
| Control run string string string control_command "material list" "json list"
| Close run string string string
| Decide run string string action_request tool_ref string
| Permit string action_request tool_ref
| Withdraw string string

fun run_engine :: "bot_env \<Rightarrow> engine_op \<Rightarrow> bot_db \<Rightarrow> err + bot_db" where
  "run_engine env (Accept r input ms) db = map_sum id snd (accept_run env r input ms db)"
| "run_engine env (Claim kinds) db = map_sum id snd (claim env kinds db)"
| "run_engine env (Renew item) db = renew env item db"
| "run_engine env (Complete item) db = Inr (complete_work env item db)"
| "run_engine env (Retry item) db = Inr (retry_work env item db)"
| "run_engine env (Work prior gen c) db = map_sum id snd (change_run env prior gen (worker_fn env c) db)"
| "run_engine env (Lifecycle prior gen c) db = map_sum id snd (change_lifecycle env prior gen (lifecycle_fn env c) db)"
| "run_engine env (Facts prior c) db = map_sum id snd (change_action_facts env prior (facts_fn env c) db)"
| "run_engine env (Executor checked key digest u) db =
     map_sum id snd (report_once env checked key digest (executor_authority u) (executor_apply env u) db)"
| "run_engine env (Control checked key digest user c ms sources) db =
     map_sum id snd (report_once env checked key digest (control_authority user c) (control_apply env user c ms sources) db)"
| "run_engine env (Close checked key digest user) db =
     map_sum id snd (close_interaction env checked key digest user db)"
| "run_engine env (Decide checked i user q tool digest) db = map_sum id snd (decide_once env checked i user q tool digest db)"
| "run_engine env (Permit user q tool) db = map_sum id snd (insert_action_grant env user q tool db)"
| "run_engine env (Withdraw user i) db = map_sum id snd (revoke_action_grant env user i db)"

text \<open>A submission starts with its first input, a report went through the decoder, a decision is one.\<close>

fun engine_op_ok :: "engine_op \<Rightarrow> bool" where
  "engine_op_ok (Accept r input ms) = candidate r"
| "engine_op_ok (Executor checked key digest u) = decoded u"
| "engine_op_ok (Decide checked i user q tool digest) = (aq_op q \<in> set decision_ops)"
| "engine_op_ok _ = True"

inductive engine_step :: "int \<times> bot_db \<Rightarrow> int \<times> bot_db \<Rightarrow> bool" where
  Commit: "\<lbrakk>t \<le> now env; engine_op_ok op; run_engine env op db = Inr db'\<rbrakk> \<Longrightarrow> engine_step (t, db) (now env, db')"
| Wait: "t \<le> t' \<Longrightarrow> engine_step (t, db) (t', db)"

inductive_cases engine_stepE: "engine_step (t, db) (t', db')"

abbreviation engine_steps :: "int \<times> bot_db \<Rightarrow> int \<times> bot_db \<Rightarrow> bool" where
  "engine_steps \<equiv> engine_step\<^sup>*\<^sup>*"

lemma map_sum_snd_Inr: "map_sum id snd x = Inr y \<longleftrightarrow> (\<exists>a. x = Inr (a, y))"
  by (cases x) auto

section \<open>The invariant of a reachable state\<close>

definition engine_ok :: "int \<times> bot_db \<Rightarrow> bool" where
  "engine_ok s \<longleftrightarrow> engine_inv (snd s) \<and> lease_inv (fst s) (snd s)"

lemma executor_authority_tree: "\<not> au_stop_tree (executor_authority u)"
  by (simp add: executor_authority_def)

lemma engine_next_ok:
  "engine_next db db' \<Longrightarrow> lease_inv t db \<Longrightarrow> t \<le> t' \<Longrightarrow> engine_inv db' \<and> runs_next db db' \<and> lease_inv t' db'"
  unfolding engine_next_def using lease_inv_appended by blast

lemma same_next:
  assumes "engine_inv db" and "b_runs db' = b_runs db" "b_inputs db' = b_inputs db" "b_work db' = b_work db"
  shows "engine_next db db'"
  using assms engine_inv_frame(1) [OF assms(2,4,3)]
  by (simp add: engine_next_def runs_next_same work_appended_same)

lemma run_engine_next:
  assumes ok: "engine_inv db" "lease_inv t db" and t: "t \<le> now env" and o: "engine_op_ok op"
    and r: "run_engine env op db = Inr db'"
  shows "engine_inv db' \<and> runs_next db db' \<and> lease_inv (now env) db'"
proof -
  have by_next: "engine_next db db' \<Longrightarrow> ?thesis" using engine_next_ok [OF _ ok(2) t] .
  show ?thesis
  proof (cases op)
    case (Accept x input ms)
    then obtain y where "accept_run env x input ms db = Inr (y, db')" using r by (auto simp: map_sum_snd_Inr)
    then show ?thesis using accept_step [OF ok(1)] o Accept by (intro by_next) simp
  next
    case (Claim kinds)
    then obtain w where "claim env kinds db = Inr (w, db')" using r by (auto simp: map_sum_snd_Inr)
    then show ?thesis by (rule claim_step [OF ok t])
  next
    case (Renew item)
    then show ?thesis using renew_step [OF ok t] r by simp
  next
    case (Complete item)
    then show ?thesis using complete_step [OF ok t] r by auto
  next
    case (Retry item)
    then show ?thesis using retry_step [OF ok t] r by auto
  next
    case (Work prior gen c)
    then obtain x where "change_run env prior gen (worker_fn env c) db = Inr (x, db')" using r by (auto simp: map_sum_snd_Inr)
    then show ?thesis using worker.change_run_step [OF ok(1)] by (intro by_next) (simp add: engine_next_def)
  next
    case (Lifecycle prior gen c)
    then obtain x where "change_lifecycle env prior gen (lifecycle_fn env c) db = Inr (x, db')" using r by (auto simp: map_sum_snd_Inr)
    then show ?thesis using lifecycle.change_lifecycle_step [OF ok(1)] by (intro by_next) (simp add: engine_next_def)
  next
    case (Facts prior c)
    then obtain x where "change_action_facts env prior (facts_fn env c) db = Inr (x, db')" using r by (auto simp: map_sum_snd_Inr)
    then show ?thesis using facts.change_facts_step [OF ok(1)] by (intro by_next) (simp add: engine_next_def)
  next
    case (Executor checked key digest u)
    then obtain p where "report_once env checked key digest (executor_authority u) (executor_apply env u) db = Inr (p, db')"
      using r by (auto simp: map_sum_snd_Inr)
    from executor.report_once_step [OF ok(1) this] show ?thesis
      using o Executor executor_authority_tree by (intro by_next) (simp add: engine_next_def)
  next
    case (Control checked key digest user c ms sources)
    then obtain p where "report_once env checked key digest (control_authority user c) (control_apply env user c ms sources) db = Inr (p, db')"
      using r by (auto simp: map_sum_snd_Inr)
    from user.report_once_step [OF ok(1) this] show ?thesis
      by (intro by_next) (auto simp: engine_next_def control_authority_def)
  next
    case (Close checked key digest user)
    then obtain p where "close_interaction env checked key digest user db = Inr (p, db')" using r by (auto simp: map_sum_snd_Inr)
    then show ?thesis using close_interaction_step [OF ok(1)] by (intro by_next)
  next
    case (Decide checked i user q tool digest)
    then obtain a where "decide_once env checked i user q tool digest db = Inr (a, db')" using r by (auto simp: map_sum_snd_Inr)
    then show ?thesis using decide_once_step [OF ok(1)] by (intro by_next) (simp add: engine_next_def)
  next
    case (Permit user q tool)
    then obtain g where "insert_action_grant env user q tool db = Inr (g, db')" using r by (auto simp: map_sum_snd_Inr)
    from insert_action_grant_frame [OF this] show ?thesis by (intro by_next same_next ok(1))
  next
    case (Withdraw user i)
    then obtain g where "revoke_action_grant env user i db = Inr (g, db')" using r by (auto simp: map_sum_snd_Inr)
    from revoke_action_grant_frame [OF this] show ?thesis by (intro by_next same_next ok(1))
  qed
qed

lemma engine_step_next:
  assumes "engine_ok s" and "engine_step s s'"
  shows "engine_ok s' \<and> runs_next (snd s) (snd s') \<and> fst s \<le> fst s'"
  using assms(2)
proof (cases rule: engine_step.cases)
  case (Commit t env op db db')
  have "engine_inv db" "lease_inv t db" using assms(1) Commit(1) by (simp_all add: engine_ok_def)
  note n = run_engine_next [OF this Commit(3,4,5)]
  show ?thesis unfolding Commit(1,2) engine_ok_def using n Commit(3) by simp
next
  case (Wait t t' db)
  have o: "engine_inv db" "lease_inv t db" using assms(1) Wait(1) by (simp_all add: engine_ok_def)
  have n: "runs_next db db" "work_appended db db" by (simp_all add: runs_next_same work_appended_same)
  show ?thesis unfolding Wait(1,2) engine_ok_def
    using o(1) n(1) lease_inv_appended [OF o(2) n Wait(3)] Wait(3) by simp
qed

lemma engine_steps_next:
  assumes "engine_steps s s'" and "engine_ok s"
  shows "engine_ok s' \<and> runs_next (snd s) (snd s') \<and> fst s \<le> fst s'"
  using assms
proof (induction rule: rtranclp_induct)
  case base
  then show ?case by (simp add: runs_next_same)
next
  case (step s1 s2)
  then have s1: "engine_ok s1" "runs_next (snd s) (snd s1)" "fst s \<le> fst s1" by simp_all
  note s2 = engine_step_next [OF s1(1) step(2)]
  then show ?case using runs_next_trans [OF s1(2)] s1(3) by auto
qed

text \<open>The row of a run across any number of steps.\<close>

lemma run_persists:
  assumes "engine_steps s s'" and "engine_ok s" and "find_run (snd s) i = Some r"
  obtains r' where "find_run (snd s') i = Some r'" "run_next r r'"
  using runs_nextD [OF _ assms(3), of "snd s'"] engine_steps_next [OF assms(1,2)] that by blast

end
