(* ===== verification/Run_Demo.thy ===== *)
theory Run_Demo
  imports Run_System Demo
begin

text \<open>
  A concrete bot service: user \<open>u1\<close> administers the group \<open>c2\<close>, to which the bot \<open>b1\<close> is bound, and has asked
  it for the built-in run \<open>r1\<close>, whose executable work \<open>w1\<close> waits in the queue; \<open>r2\<close> is a run that \<open>r1\<close>
  delegated. The properties of the engine are instantiated here.
\<close>

definition demo_bot_env :: bot_env where
  "demo_bot_env = env.extend demo_env
     \<lparr>fingerprint = (\<lambda>_. ''f''), material_size = (\<lambda>ms. int (length ms)), decode_text = (\<lambda>_. None), encode_text = tm_text,
      decode_file = (\<lambda>_. None), encode_file = fm_id, decode_custom = (\<lambda>_. None), encode_custom = xm_type,
      json_first = (\<lambda>_. None), json_any = (\<lambda>_. None), json_fields = (\<lambda>_. None), json_encode = (\<lambda>_. [])\<rparr>"

lemma demo_bot_env_simps [simp]:
  "now demo_bot_env = 100 * 1000000000" "fresh demo_bot_env = demo_fresh"
  by (simp_all add: demo_bot_env_def demo_env_def env.extend_def)

definition demo_key :: "string \<Rightarrow> string option \<Rightarrow> run_key" where
  "demo_key i p =
     \<lparr>r_id = i, r_interaction = ''i1'', r_parent = None, r_origin = None, r_activity = None, r_deleg_parent = p,
      r_deleg_root = p, r_deleg_depth = 0, r_source_generation = 0, r_source_input_version = 0, r_bot = ''b1'',
      r_conv = ''c2'', r_binding = ''bd1'', r_requester = ''u1'', r_visibility = ''conversation'', r_personal_user = None,
      r_grants = [], r_requester_member = Some ''c2u1'', r_bot_version = 1, r_binding_version = 1, r_input_key = ''k'',
      r_input_hash = ''f'', r_source_message = None, r_reply_to = None, r_history_grant = None, r_executor = ''builtin'',
      r_caps = \<lparr>ec_input_types = [], ec_input = True, ec_stop = True, ec_resume = True\<rparr>, r_trigger = ''explicit'',
      r_config = \<lparr>xc_assembly = ''a'', xc_system_prompt = ''p'', xc_revision = 1, xc_mode = [], xc_callback = [], xc_tools = []\<rparr>,
      r_created = 0\<rparr>"

definition demo_run :: "string \<Rightarrow> string option \<Rightarrow> run" where
  "demo_run i p = run_key.extend (demo_key i p)
     \<lparr>r_children = [], r_deleg_input = 0, r_deleg_output = 0, r_interaction_status = ''active'', r_controller = ''u1'',
      r_controller_member = Some ''c2u1'', r_controls = [], r_memberships = [], r_stop_status = ''none'',
      r_stream_status = ''open'', r_stop_reason = [], r_stop_at = None, r_revoked = False, r_input_version = 1,
      r_applied_input = 0, r_inputs = [], r_notice = ''n'', r_source_revision = 0, r_branch_version = 0, r_provenance = [],
      r_invalidated = False, r_version = 1, r_trajectory = 0, r_generation = 0, r_delivery_status = ''pending'',
      r_executor_status = ''pending'', r_sequence = 0, r_lease = None, r_operation = ''start'', r_status = ''accepted'',
      r_stage = ''accepted'', r_waiting = [], r_result_text = [], r_result_type = [], r_result_content = [],
      r_output_status = ''none'', r_message = None, r_error = [], r_sources = [], r_materials = [], r_steps = [],
      r_updated = 0\<rparr>"

definition demo_input :: "string \<Rightarrow> run_input" where
  "demo_input i = \<lparr>in_id = ''in-'' @ i, in_run = i, in_version = 1, in_requester = ''u1'', in_source_message = None,
     in_edit_count = 0, in_provenance = [], in_invalidated = False, in_key = ''k'', in_content = ''hello'', in_hash = ''f'',
     in_materials = [], in_sources = [], in_created = 0\<rparr>"

definition demo_work :: "string \<Rightarrow> string \<Rightarrow> work_item" where
  "demo_work i r = \<lparr>w_id = i, w_run = r, w_kind = ''execute'', w_version = 1, w_payload = Empty_Payload, w_attempts = 0,
     w_available = 0, w_lease = None, w_token = None, w_generation = 0, w_completed = None, w_created = 0\<rparr>"

definition demo_bot :: bot_row where
  "demo_bot = \<lparr>bt_id = ''b1'', bt_status = ''active'', bt_kind = ''builtin'', bt_revision = 1, bt_mode = [], bt_callback = [],
     bt_version = 1, bt_knowledge = False\<rparr>"

definition demo_binding :: binding_row where
  "demo_binding = \<lparr>bd_id = ''bd1'', bd_bot = ''b1'', bd_conv = ''c2'', bd_settings = [], bd_revoked = None, bd_start_seq = 0,
     bd_version = 1\<rparr>"

definition demo_interaction :: interaction where
  "demo_interaction = \<lparr>ia_id = ''i1'', ia_bot = ''b1'', ia_conv = ''c2'', ia_binding = ''bd1'', ia_requester = ''u1'',
     ia_visibility = ''conversation'', ia_personal_user = None, ia_status = ''active'', ia_closed = None\<rparr>"

definition demo_engine :: bot_db where
  "demo_engine = \<lparr>b_convs = [''c2''], b_members = [demo_member ''c2'' ''u1'' 1], b_messages = [], b_deletions = [],
     b_bindings = [demo_binding], b_history = [], b_submissions = [], b_bots = [demo_bot], b_file_grants = [], b_kb_grants = [], b_files = [],
     b_kbs = [], b_kb_links = [], b_docs = [], b_chunks = [], b_servers = [], b_assignments = [],
     b_runs = [demo_run ''r1'' None, demo_run ''r2'' (Some ''r1'')],
     b_interactions = [demo_interaction], b_inputs = [demo_input ''r1'', demo_input ''r2''], b_receipts = [], b_blocks = [], b_calls = [],
     b_actions = [], b_action_grants = [], b_work = [demo_work ''w1'' ''r1''], b_next = 0\<rparr>"

text \<open>The same service before anyone asked anything.\<close>

definition demo_start :: bot_db where
  "demo_start = demo_engine\<lparr>b_runs := [], b_interactions := [], b_inputs := [], b_work := []\<rparr>"

lemma demo_rows_ok:
  assumes "run_key.truncate r = demo_key ''r2'' (Some ''r1'')" "run_row_ok r" "r_version r = 1" "r_input_version r = 1"
  shows "engine_ok (0, demo_engine\<lparr>b_runs := [demo_run ''r1'' None, r]\<rparr>)" (is "engine_ok (0, ?db)")
  unfolding engine_ok_def engine_inv_def
proof (intro conjI; (simp only: fst_conv snd_conv)?)
  have k: "r_id r = ''r2''" "r_deleg_parent r = Some ''r1''"
    using arg_cong [OF assms(1), of r_id] arg_cong [OF assms(1), of r_deleg_parent]
    by (simp_all add: run_key.defs demo_key_def)
  have d: "r_id (demo_run i p) = i" "r_deleg_parent (demo_run i p) = p" "r_version (demo_run i p) = 1"
    "r_input_version (demo_run i p) = 1" for i p by (simp_all add: demo_run_def demo_key_def run_key.extend_def)
  note d = d k assms(3,4)
  have f: "find_run ?db i = (if i = ''r1'' then Some (demo_run ''r1'' None) else if i = ''r2'' then Some r else None)" for i
    by (simp add: find_run_def d)
  have ids: "map r_id (b_runs ?db) = [''r1'', ''r2'']" by (simp add: d)
  show "typed_runs ?db" using assms(2) by (auto simp: typed_runs_def f) code_simp
  show "delegators_first ?db" by (auto simp: delegators_first_def f d place_def ids split: if_splits)
  show "work_reached ?db" by (simp add: work_reached_def f d) (simp add: demo_engine_def demo_work_def d)
  show "inputs_numbered ?db"
    by (auto simp: inputs_numbered_def f d input_log_def split: if_splits)
      (auto simp: demo_engine_def demo_input_def inputs_of_def sort_by_def)
  show "distinct (map r_id (b_runs ?db))" unfolding ids by simp
  show "lease_inv 0 ?db" by (simp add: lease_inv_def demo_engine_def demo_work_def rival_def)
qed

lemma demo_engine_ok: "engine_ok (0, demo_engine)"
proof -
  have "run_row_ok (demo_run ''r2'' (Some ''r1''))" by code_simp
  moreover have "demo_engine\<lparr>b_runs := [demo_run ''r1'' None, demo_run ''r2'' (Some ''r1'')]\<rparr> = demo_engine"
    by (simp add: demo_engine_def)
  ultimately show ?thesis
    using demo_rows_ok [of "demo_run ''r2'' (Some ''r1'')"] by (simp add: demo_run_def run_key.defs)
qed

text \<open>The same service after \<open>r2\<close> was stopped; \<open>r1\<close> can still be claimed.\<close>

definition demo_ended :: run where
  "demo_ended = (demo_run ''r2'' (Some ''r1''))\<lparr>r_status := ''stopped'', r_stage := ''stopped'', r_stop_status := ''confirmed''\<rparr>"

definition demo_settled :: bot_db where
  "demo_settled = demo_engine\<lparr>b_runs := [demo_run ''r1'' None, demo_ended]\<rparr>"

lemma demo_settled_ok: "engine_ok (0, demo_settled)"
  unfolding demo_settled_def
proof (rule demo_rows_ok)
  show "run_row_ok demo_ended" by code_simp
qed (simp_all add: demo_ended_def demo_run_def run_key.defs)

lemma demo_settled_claim: "is_ok (claim demo_bot_env [''execute''] demo_settled)"
  by code_simp

text \<open>
  A worker claims \<open>w1\<close>, its lease runs out, and another worker claims the run a second time and starts it.
  The whole story is evaluated once.
\<close>

definition demo_later :: bot_env where
  "demo_later = demo_bot_env\<lparr>now := 200 * 1000000000\<rparr>"

definition demo_claimed :: "work_item \<times> bot_db" where
  "demo_claimed = result_of (claim demo_bot_env [''execute''] demo_engine)"

definition demo_reclaimed :: "work_item \<times> bot_db" where
  "demo_reclaimed = result_of (claim demo_later [''execute''] (snd demo_claimed))"

definition leased_by :: "bot_env \<Rightarrow> string \<Rightarrow> work_item \<Rightarrow> bool" where
  "leased_by env i w \<longleftrightarrow> w_kind w = ''execute'' \<and> w_run w = i \<and> live_lease env w"

definition told :: "err + (work_item \<times> bot_db) \<Rightarrow> bool" where
  "told c \<longleftrightarrow> (case c of Inl e \<Rightarrow> False | Inr (w, db) \<Rightarrow>
     leased_by demo_bot_env ''r1'' w \<and> (case b_work db of [] \<Rightarrow> False | x # xs \<Rightarrow> leased_by demo_bot_env ''r1'' x) \<and>
     map_option (\<lambda>r. (r_status r, r_generation r)) (find_run db ''r1'') = Some (''accepted'', 1) \<and>
     (case claim demo_later [''execute''] db of Inl e \<Rightarrow> False | Inr (v, db1) \<Rightarrow>
        w_generation v = 2 \<and> w_run v = ''r1'' \<and>
        is_ok (change_run demo_later (demo_run ''r1'' None) 2 (worker_fn demo_later Start) db1)))"

lemma demo_told: "told (claim demo_bot_env [''execute''] demo_engine)"
  by code_simp

lemma told_parts:
  assumes "told c"
  shows "c = Inr (fst (result_of c), snd (result_of c)) \<and> leased_by demo_bot_env ''r1'' (fst (result_of c)) \<and>
    leased_by demo_bot_env ''r1'' (hd (b_work (snd (result_of c)))) \<and>
    map_option (\<lambda>r. (r_status r, r_generation r)) (find_run (snd (result_of c)) ''r1'') = Some (''accepted'', 1) \<and>
    is_ok (claim demo_later [''execute''] (snd (result_of c))) \<and>
    w_generation (fst (result_of (claim demo_later [''execute''] (snd (result_of c))))) = 2 \<and>
    w_run (fst (result_of (claim demo_later [''execute''] (snd (result_of c))))) = ''r1'' \<and>
    is_ok (change_run demo_later (demo_run ''r1'' None) 2 (worker_fn demo_later Start)
      (snd (result_of (claim demo_later [''execute''] (snd (result_of c))))))"
proof (cases c)
  case (Inr x)
  obtain w db where x: "x = (w, db)" by (cases x)
  obtain y ys where "b_work db = y # ys" using assms by (cases "b_work db") (auto simp: told_def Inr x)
  moreover obtain v where "claim demo_later [''execute''] db = Inr v"
    using assms by (cases "claim demo_later [''execute''] db") (auto simp: told_def Inr x)
  ultimately show ?thesis using assms by (cases v) (simp add: told_def Inr x result_of_def)
qed (use assms in \<open>simp add: told_def\<close>)

lemmas demo_story = told_parts [OF demo_told, folded demo_claimed_def, folded demo_reclaimed_def]

lemma demo_claim:
  "claim demo_bot_env [''execute''] demo_engine = Inr (fst demo_claimed, snd demo_claimed)"
  "leased_by demo_bot_env ''r1'' (fst demo_claimed)" "leased_by demo_bot_env ''r1'' (hd (b_work (snd demo_claimed)))"
  "map_option (\<lambda>r. (r_status r, r_generation r)) (find_run (snd demo_claimed) ''r1'') = Some (''accepted'', 1)"
  using demo_story by blast+

lemma demo_reclaim:
  "claim demo_later [''execute''] (snd demo_claimed) = Inr (fst demo_reclaimed, snd demo_reclaimed)"
  "w_generation (fst demo_reclaimed) = 2" "w_run (fst demo_reclaimed) = ''r1''"
  "is_ok (change_run demo_later (demo_run ''r1'' None) 2 (worker_fn demo_later Start) (snd demo_reclaimed))"
  using demo_story is_ok_result [of "claim demo_later [''execute''] (snd demo_claimed)"]
  unfolding demo_reclaimed_def [symmetric] prod.collapse by blast+

end
