(* ===== verification/Run_Props.thy ===== *)
theory Run_Props
  imports Run_Demo
begin

text \<open>
  The properties of the run engine over its reachable states: what is final, who is fenced off, who holds
  a lease.
\<close>

lemma one_step: "engine_step s s' \<Longrightarrow> engine_steps s s'"
  by (rule r_into_rtranclp)

lemma demo_claim_step: "engine_steps (0, demo_engine) (100 * 1000000000, snd demo_claimed)"
  using engine_step.Commit [of 0 demo_bot_env "Claim [''execute'']" demo_engine "snd demo_claimed"] demo_claim(1)
  by (intro one_step) simp

lemma demo_find: "find_run demo_engine ''r1'' = Some (demo_run ''r1'' None)"
  by (simp add: find_run_def demo_engine_def demo_run_def demo_key_def run_key.extend_def)

section \<open>The end of a run\<close>

text \<open>C22: A run that succeeded, failed or was stopped keeps its status and its generation for ever: no later
  claim, report, command, recovery or closing of its interaction moves it.\<close>

theorem terminal_run_final:
  assumes "engine_ok s" and "engine_steps s s'" and "find_run (snd s) i = Some r" and "terminal_run r"
  shows "\<exists>r'. find_run (snd s') i = Some r' \<and> terminal_run r' \<and> r_status r' = r_status r \<and> r_generation r' = r_generation r"
proof -
  obtain r' where f: "find_run (snd s') i = Some r'" and n: "run_next r r'" by (rule run_persists [OF assms(2,1,3)])
  have "final_status (fst (life r))" using assms(4) by (simp add: life_def final_terminal)
  then have "life r' = life r" using n life_steps_final unfolding run_next_def by blast
  then show ?thesis using f assms(4) by (auto simp: life_def terminal_run_def)
qed

lemma demo_settled_find: "find_run demo_settled ''r2'' = Some demo_ended"
  by (simp add: find_run_def demo_settled_def demo_ended_def demo_run_def demo_key_def run_key.extend_def)

theorem terminal_run_final_witness:
  "is_ok (claim demo_bot_env [''execute''] demo_settled) \<and>
   map_option (\<lambda>r. (r_status r, r_generation r))
     (find_run (snd (result_of (claim demo_bot_env [''execute''] demo_settled))) ''r2'') = Some (''stopped'', 0)"
proof -
  obtain w db where c: "claim demo_bot_env [''execute''] demo_settled = Inr (w, db)"
    using demo_settled_claim by (cases "claim demo_bot_env [''execute''] demo_settled") auto
  have e: "r_status demo_ended = ''stopped''" "r_generation demo_ended = 0"
    by (simp_all add: demo_ended_def demo_run_def run_key.extend_def)
  have "engine_steps (0, demo_settled) (100 * 1000000000, db)"
    using engine_step.Commit [of 0 demo_bot_env "Claim [''execute'']" demo_settled db] c by (intro one_step) simp
  then have "\<exists>r'. find_run db ''r2'' = Some r' \<and> terminal_run r' \<and> r_status r' = ''stopped'' \<and> r_generation r' = 0"
    using terminal_run_final [OF demo_settled_ok, of "(100 * 1000000000, db)" "''r2''" demo_ended] demo_settled_find e
    by (simp add: terminal_run_def)
  then show ?thesis using c by (auto simp: result_of_def)
qed

section \<open>Fencing\<close>

lemma claimed_row:
  assumes "claim env kinds db = Inr (w, db')"
  shows "w \<in> set (b_work db')"
proof -
  have put: "v \<in> set (b_work (put_item v d))" if "x \<in> set (b_work d)" "w_id x = w_id v" for v x d
    using that by (auto simp: put_item_def set_update_where)
  from assms show ?thesis
  proof (cases rule: claim_cases)
    case (plain v)
    then show ?thesis using put [of v "snd (bot_id env db)" w] by (simp add: bot_id_frame lease_of_def)
  next
    case (execute v r db1)
    have "b_work db1 = b_work db" using execute(6) by (auto simp: save_run_def bot_id_frame split: if_splits)
    then have "v \<in> set (b_work (queue_run env (begin_generation env r) ''updated'' db1))"
      using execute(1) queue_run_appends [of db1 env "begin_generation env r" "''updated''"] by (auto simp: work_appended_def)
    then show ?thesis using put [of v _ w] by (simp add: execute(7,8) lease_of_def)
  qed
qed

lemma stale_change:
  assumes "find_run db (r_id prior) = Some r" and "0 < gen" and "gen < r_generation r"
  shows "\<not> is_ok (change_with env prior gen execution facts fn db)"
  using assms
  by (auto simp: change_with_def check_execution_lease_def rbind_eq_Inr is_ok_def get_run_def of_option_eq_Inr split: sum.splits)

lemma stale_report:
  assumes "find_run db (r_id prior) = Some r" and "0 < au_generation au" and "au_generation au < r_generation r"
  shows "\<not> is_ok (report_once env prior key digest au fn db)"
proof -
  have "\<not> is_ok (report_allowed env au r db)"
    using assms(2,3) by (auto simp: report_allowed_def rbind_eq_Inr is_ok_def ensure_def split: sum.splits if_splits)
  then show ?thesis
    using assms(1) by (auto simp: report_once_def rbind_eq_Inr is_ok_def split: sum.splits option.splits if_splits)
qed

text \<open>C2: Once a claim has started generation g of a run, no worker or executor of an earlier generation
  changes it, in any later state: every change under a lease of that generation, and every report with
  it, is refused.\<close>

theorem superseded_worker_fenced:
  assumes "engine_ok (t, db)" and "t \<le> now env" and "claim env kinds db = Inr (w, db')"
    and "engine_steps (now env, db') (t', db'')"
    and "0 < gen" and "gen < w_generation w" and "r_id prior = w_run w" and "au_generation au = gen"
  shows "\<not> is_ok (change_with env' prior gen execution facts fn db'') \<and>
    \<not> is_ok (report_once env' prior key digest au fn db'')"
proof -
  have ok: "engine_ok (now env, db')"
    using claim_step [OF _ _ assms(2,3)] assms(1) by (simp add: engine_ok_def)
  have "w \<in> set (b_work db')" by (rule claimed_row [OF assms(3)])
  then obtain r where r: "find_run db' (w_run w) = Some r" "w_generation w \<le> r_generation r"
    using ok assms(5,6) by (auto simp: engine_ok_def lease_inv_def)
  obtain r' where r': "find_run db'' (w_run w) = Some r'" "run_next r r'"
    using run_persists [OF assms(4) ok] r(1) by auto
  have "gen < r_generation r'" using assms(6) r(2) run_next_generation [OF r'(2)] by simp
  then show ?thesis using stale_change stale_report r'(1) assms(5,7,8) by metis
qed

lemma demo_claimed_ok: "engine_ok (100 * 1000000000, snd demo_claimed)"
  using engine_steps_next [OF demo_claim_step demo_engine_ok] by blast

theorem superseded_worker_fenced_witness:
  "w_generation (fst demo_reclaimed) = 2 \<and>
   \<not> is_ok (change_run demo_later (demo_run ''r1'' None) 1 (worker_fn demo_later Start) (snd demo_reclaimed)) \<and>
   is_ok (change_run demo_later (demo_run ''r1'' None) 2 (worker_fn demo_later Start) (snd demo_reclaimed))"
proof -
  note g = demo_reclaim(2) and r = demo_reclaim(3)
  have n: "now demo_later = 200 * 1000000000" by (simp add: demo_later_def)
  have a: "au_generation (executor_authority (\<lparr>eu_type = [], eu_run = [], eu_generation = 1, eu_input_version = 1, eu_sequence = 1,
    eu_key = [], eu_operation = [], eu_status = [], eu_stage = [], eu_result = [], eu_waiting = [], eu_msg_type = [], eu_content = []\<rparr>)) = 1"
    by (simp add: executor_authority_def)
  have "\<not> is_ok (change_run demo_later (demo_run ''r1'' None) 1 (worker_fn demo_later Start) (snd demo_reclaimed))"
    using superseded_worker_fenced [OF demo_claimed_ok _ demo_reclaim(1) rtranclp.rtrancl_refl, of 1 "demo_run ''r1'' None"] g r n a
    unfolding change_run_def by (simp add: demo_run_def demo_key_def run_key.extend_def)
  then show ?thesis using g demo_reclaim(4) by blast
qed

text \<open>C8: At any time at most one worker holds executable work of a run: two executable items of one run
  whose leases are both alive are the same item.\<close>

theorem one_live_execution:
  assumes "engine_ok s" and "engine_steps s (t, db)" and "t \<le> now env"
    and "x \<in> set (b_work db)" "y \<in> set (b_work db)" "w_kind x = ''execute''" "w_kind y = ''execute''" "w_run x = w_run y"
    and "live_lease env x" "live_lease env y"
  shows "x = y"
proof -
  have l: "lease_inv t db" using engine_steps_next [OF assms(2,1)] by (simp add: engine_ok_def)
  have "held t x" "held t y" using assms(9,10) held_before [OF _ assms(3)] by (simp_all add: live_lease_held)
  then have "\<not> rival x y" using l assms(4,5) by (auto simp: lease_inv_def)
  then have "w_id x = w_id y" using assms(6-8) by (simp add: rival_def)
  then show ?thesis using l assms(4,5) by (auto simp: lease_inv_def distinct_map inj_on_def)
qed

theorem one_live_execution_witness:
  "hd (b_work (snd demo_claimed)) = fst demo_claimed \<and> live_lease demo_bot_env (fst demo_claimed)"
proof
  have w: "fst demo_claimed \<in> set (b_work (snd demo_claimed))" by (rule claimed_row [OF demo_claim(1)])
  then have h: "hd (b_work (snd demo_claimed)) \<in> set (b_work (snd demo_claimed))" by (intro hd_in_set) auto
  note k = demo_claim(2,3) [unfolded leased_by_def]
  show live: "live_lease demo_bot_env (fst demo_claimed)" using k by blast
  show "hd (b_work (snd demo_claimed)) = fst demo_claimed"
    using one_live_execution [OF demo_engine_ok demo_claim_step _ h w, of demo_bot_env] k by simp
qed

end
