(* ===== verification/Run_Types.thy ===== *)
theory Run_Types
  imports Run_Props
begin

text \<open>
  The tables of the engine are well typed: from an empty service on, every reachable state keeps the
  invariant, and no command of the platform, of an executor or of a user can make a row that its table
  refuses.
\<close>

lemma empty_engine_ok:
  "b_runs db = [] \<Longrightarrow> b_work db = [] \<Longrightarrow> b_inputs db = [] \<Longrightarrow> engine_ok (t, db)"
  by (simp add: engine_ok_def engine_inv_def typed_runs_def delegators_first_def work_reached_def inputs_numbered_def
      lease_inv_def find_run_def)

text \<open>C14: In every state reachable from an empty service: every run keeps the checks of its table, a delegated
  run stands after its delegator, a queued item refers to a version its run has reached, the inputs of a
  run are numbered from 1 without a gap, and the leases are exclusive and fenced.\<close>

theorem reachable_invariant:
  assumes "b_runs db = []" "b_work db = []" "b_inputs db = []" and "engine_steps (t, db) (t', db')"
  shows "typed_runs db' \<and> delegators_first db' \<and> work_reached db' \<and> inputs_numbered db' \<and>
    distinct (map r_id (b_runs db')) \<and> lease_inv t' db'"
  using engine_steps_next [OF assms(4) empty_engine_ok [OF assms(1-3)]] by (simp add: engine_ok_def engine_inv_def)

definition demo_accepted :: "run \<times> bot_db" where
  "demo_accepted = result_of (accept_run demo_bot_env (demo_run ''r1'' None) ''hello'' [] demo_start)"

definition accepted_once :: "err + (run \<times> bot_db) \<Rightarrow> bool" where
  "accepted_once a \<longleftrightarrow> (case a of Inl e \<Rightarrow> False | Inr (r, db) \<Rightarrow>
     map r_id (b_runs db) = [''r1''] \<and> map in_version (b_inputs db) = [1] \<and> map w_kind (b_work db) = [''execute'', ''updated''])"

lemma demo_accepted_once: "accepted_once (accept_run demo_bot_env (demo_run ''r1'' None) ''hello'' [] demo_start)"
  by code_simp

lemma demo_accept:
  "accept_run demo_bot_env (demo_run ''r1'' None) ''hello'' [] demo_start = Inr (fst demo_accepted, snd demo_accepted)"
  "map r_id (b_runs (snd demo_accepted)) = [''r1'']" "map in_version (b_inputs (snd demo_accepted)) = [1]"
  "map w_kind (b_work (snd demo_accepted)) = [''execute'', ''updated'']"
  using demo_accepted_once unfolding demo_accepted_def
  by (cases "accept_run demo_bot_env (demo_run ''r1'' None) ''hello'' [] demo_start"; auto simp: accepted_once_def result_of_def)+

lemma demo_accept_steps: "engine_steps (0, demo_start) (100 * 1000000000, snd demo_accepted)"
proof -
  have "candidate (demo_run ''r1'' None)" by (simp add: candidate_def demo_run_def demo_key_def run_key.extend_def)
  then have "engine_steps (0, demo_start) (now demo_bot_env, snd demo_accepted)"
    using demo_accept(1) by (intro one_step Commit [where op = "Accept (demo_run ''r1'' None) ''hello'' []"]) simp_all
  then show ?thesis by simp
qed

theorem reachable_invariant_witness:
  "inputs_numbered (snd demo_accepted) \<and> lease_inv (100 * 1000000000) (snd demo_accepted) \<and>
   map r_id (b_runs (snd demo_accepted)) = [''r1''] \<and> map in_version (b_inputs (snd demo_accepted)) = [1] \<and>
   map w_kind (b_work (snd demo_accepted)) = [''execute'', ''updated'']"
proof -
  have "b_runs demo_start = []" "b_work demo_start = []" "b_inputs demo_start = []" by (simp_all add: demo_start_def)
  from reachable_invariant [OF this demo_accept_steps]
  have "inputs_numbered (snd demo_accepted)" "lease_inv (100 * 1000000000) (snd demo_accepted)" by simp_all
  then show ?thesis using demo_accept(2,3,4) by blast
qed

section \<open>Commands are well typed\<close>

text \<open>Preservation and progress: the row a lawful callback leaves is stored, whatever the stage before.\<close>

context run_command
begin

lemma progress:
  assumes inv: "engine_inv db" and r: "find_run db i = Some r" and p: "pre r" and f: "fn r db = Inr (r1, db1)"
  shows "run_row_ok r1 \<and> (\<exists>r2 db2. commit_run env before r1 db1 = Inr (r2, db2) \<and> run_row_ok r2)"
proof -
  have i: "find_run db (r_id r) = Some r" using r find_run_id by metis
  have ok: "run_row_ok r1" using lawful_row(5) [OF lawful [OF inv i p f]] engine_row_ok [OF inv r] by blast
  then show ?thesis using finish_run_ok [OF ok] by (simp add: commit_run_def save_run_def Let_def)
qed

end

text \<open>Every callback a transaction is given, and the runs its transaction lets it meet.\<close>

datatype run_cmd =
  Worker_Cmd worker_cmd | Lifecycle_Cmd lifecycle_cmd | Facts_Cmd facts_cmd | Report_Cmd executor_update
| User_Cmd string control_command "material list" "json list" | Decision_Cmd string action_request tool_ref run_action

fun run_cmd_fn :: "bot_env \<Rightarrow> run_cmd \<Rightarrow> run_step_fn" where
  "run_cmd_fn env (Worker_Cmd c) = worker_fn env c"
| "run_cmd_fn env (Lifecycle_Cmd c) = lifecycle_fn env c"
| "run_cmd_fn env (Facts_Cmd c) = facts_fn env c"
| "run_cmd_fn env (Report_Cmd u) = executor_apply env u"
| "run_cmd_fn env (User_Cmd user c ms sources) = control_apply env user c ms sources"
| "run_cmd_fn env (Decision_Cmd user q tool a) = decide_action env user q tool a"

fun run_cmd_pre :: "run_cmd \<Rightarrow> run \<Rightarrow> bool" where
  "run_cmd_pre (Worker_Cmd c) r = active_status (r_status r)"
| "run_cmd_pre (Lifecycle_Cmd c) r = (\<not> terminal_run r)"
| "run_cmd_pre (Facts_Cmd c) r = True"
| "run_cmd_pre (Report_Cmd u) r = (\<not> terminal_run r \<and> decoded u)"
| "run_cmd_pre (User_Cmd user c ms sources) r = (cc_op c = ''stop'' \<or> \<not> terminal_run r)"
| "run_cmd_pre (Decision_Cmd user q tool a) r = (\<not> terminal_run r)"

interpretation command: run_command "run_cmd_fn env c" "run_cmd_pre c" for env c
proof
  fix db r r' db'
  assume a: "engine_inv db" "find_run db (r_id r) = Some r" "run_cmd_pre c r" "run_cmd_fn env c r db = Inr (r', db')"
  show "lawful_step r r' db db'"
  proof (cases c)
    case (Worker_Cmd x)
    show ?thesis by (rule worker.lawful [OF a(1,2)]) (use a Worker_Cmd in simp_all)
  next
    case (Lifecycle_Cmd x)
    show ?thesis by (rule lifecycle.lawful [OF a(1,2)]) (use a Lifecycle_Cmd in simp_all)
  next
    case (Facts_Cmd x)
    show ?thesis by (rule facts.lawful [OF a(1,2)]) (use a Facts_Cmd in simp_all)
  next
    case (Report_Cmd u)
    show ?thesis by (rule executor.lawful [OF a(1,2)]) (use a Report_Cmd in simp_all)
  next
    case (User_Cmd user x ms sources)
    show ?thesis by (rule user.lawful [OF a(1,2)]) (use a User_Cmd in simp_all)
  next
    case (Decision_Cmd user q tool x)
    show ?thesis by (rule decision.lawful [OF a(1,2)]) (use a Decision_Cmd in simp_all)
  qed
qed

text \<open>C15: The callbacks are well typed: applied to a stored run that their transaction lets them meet, the
  commands of a worker, of the lifecycle monitor, of an executor and of a user, the calls of actions,
  their recovery and their decisions leave a row within the checks of its table, and the change that
  follows is stored and never refused by the database.\<close>

theorem commands_well_typed:
  assumes "engine_inv db" and "find_run db i = Some r" and "run_cmd_pre c r" and "run_cmd_fn env c r db = Inr (r1, db1)"
  shows "run_row_ok r1 \<and> (\<exists>r2 db2. commit_run env before r1 db1 = Inr (r2, db2) \<and> run_row_ok r2)"
  using assms by (rule command.progress)

theorem commands_well_typed_witness:
  "\<exists>r1 db1. start_run demo_bot_env (demo_run ''r1'' None) demo_engine = Inr (r1, db1) \<and> run_row_ok r1 \<and>
    is_ok (commit_run demo_bot_env ''accepted'' r1 db1) \<and> r_applied_input r1 = 1"
proof -
  define s where "s = result_of (start_run demo_bot_env (demo_run ''r1'' None) demo_engine)"
  have ok: "is_ok (start_run demo_bot_env (demo_run ''r1'' None) demo_engine)" by code_simp
  have s: "start_run demo_bot_env (demo_run ''r1'' None) demo_engine = Inr (fst s, snd s)"
    unfolding s_def prod.collapse using ok by (rule is_ok_result)
  have "engine_inv demo_engine" using demo_engine_ok by (simp add: engine_ok_def)
  moreover have "active_status (r_status (demo_run ''r1'' None))" by code_simp
  ultimately have "run_row_ok (fst s) \<and> is_ok (commit_run demo_bot_env ''accepted'' (fst s) (snd s))"
    using commands_well_typed [of demo_engine "''r1''" "demo_run ''r1'' None" "Worker_Cmd Start" demo_bot_env "fst s" "snd s"
        "''accepted''"] demo_find s by auto
  moreover have "r_applied_input (fst s) = 1" unfolding s_def by code_simp
  ultimately show ?thesis using s by blast
qed

end
