(* ===== verification/Run_Termination.thy ===== *)
theory Run_Termination
  imports Run_Types
begin

text \<open>
  The loops of the bot service end. The walks over continuation and delegation ancestors, written as
  the loops of the source, return on any tables, cyclic ones included; the walk up to a repeated bot
  and the recursive stop of a delegation tree return on the tables of the engine, and the stop reaches
  every delegated descendant.
\<close>

section \<open>Ancestors\<close>

lemma tree_loop_walk: "tree_loop db r seen cur = Some (tree_walk db r seen cur)"
proof (induction db r seen cur rule: tree_walk.induct)
  case (1 db r seen cur)
  show ?case
  proof (cases "r_id cur \<in> set seen")
    case True
    then show ?thesis by (simp add: tree_loop.simps [of db r seen cur] tree_walk.simps [of db r seen cur])
  next
    case False
    then show ?thesis using 1
      by (subst tree_loop.simps, subst tree_walk.simps) (simp split: option.split sum.split)
  qed
qed

lemma source_loop_walk: "source_loop env db seen child = Some (source_walk env db seen child)"
proof (induction env db seen child rule: source_walk.induct)
  case (1 env db seen child)
  show ?case using 1
    by (subst source_loop.simps, subst source_walk.simps) (simp split: option.split sum.split)
qed

lemma delegator_place:
  assumes "engine_inv db" and "find_run db i = Some r" and "r_deleg_parent r = Some p"
  obtains q where "find_run db p = Some q" "place db p < place db i"
proof -
  have "find_run db p \<noteq> None \<and> place db p < place db i"
    using assms unfolding engine_inv_def delegators_first_def by blast
  then show thesis using that by auto
qed

lemma repeats_ancestor_ends:
  assumes inv: "engine_inv db"
  shows "find_run db (r_id cur) = Some cur \<Longrightarrow> place db (r_id cur) < n \<Longrightarrow> repeats_ancestor n db b0 cur \<noteq> Inl diverges"
proof (induction n arbitrary: cur)
  case (Suc n)
  show ?case
  proof (cases "r_bot cur = b0 \<or> r_deleg_parent cur = None")
    case True
    then show ?thesis by (auto simp: diverges_def)
  next
    case False
    then obtain p where p: "r_deleg_parent cur = Some p" by blast
    obtain q where q: "find_run db p = Some q" "place db p < place db (r_id cur)"
      by (rule delegator_place [OF inv Suc.prems(1) p])
    have "r_id q = p" by (rule find_run_id [OF q(1)])
    then show ?thesis using Suc.IH [of q] Suc.prems(2) q False by (simp add: p get_run_def)
  qed
qed simp

text \<open>C23: The loops over ancestors always end. Whatever the tables hold, a cycle of continued or delegated
  runs included, the ancestry barrier and the authority of a delegation are answered; and the search
  for a repeated bot ends within the number of runs on the tables of the engine.\<close>

theorem ancestor_loops_end:
  "(\<exists>res. tree_loop db r [] r = Some res) \<and> (\<exists>res. source_loop env db [r_id r] r = Some res) \<and>
   (engine_inv db \<longrightarrow> find_run db i = Some cur \<longrightarrow> repeats_ancestor (Suc (length (b_runs db))) db b0 cur \<noteq> Inl diverges)"
proof (intro conjI impI)
  assume inv: "engine_inv db" and f: "find_run db i = Some cur"
  have i: "r_id cur = i" by (rule find_run_id [OF f])
  have "place db i \<le> length (b_runs db)"
    by (simp add: place_def length_takeWhile_le [of _ "map r_id (b_runs db)", simplified])
  then show "repeats_ancestor (Suc (length (b_runs db))) db b0 cur \<noteq> Inl diverges"
    using repeats_ancestor_ends [OF inv, of cur "Suc (length (b_runs db))" b0] f i by simp
qed (simp_all add: tree_loop_walk source_loop_walk)

text \<open>Two runs that delegate each other: the walk reports the cycle.\<close>

theorem ancestor_loops_end_witness:
  "(\<exists>res. tree_loop (demo_engine\<lparr>b_runs := [demo_run ''r1'' (Some ''r2''), demo_run ''r2'' (Some ''r1'')]\<rparr>)
      (demo_run ''r1'' (Some ''r2'')) [] (demo_run ''r1'' (Some ''r2'')) = Some res) \<and>
   \<not> is_ok (tree_walk (demo_engine\<lparr>b_runs := [demo_run ''r1'' (Some ''r2''), demo_run ''r2'' (Some ''r1'')]\<rparr>)
      (demo_run ''r1'' (Some ''r2'')) [] (demo_run ''r1'' (Some ''r2''))) \<and>
   repeats_ancestor (Suc (length (b_runs demo_engine))) demo_engine ''b9'' (demo_run ''r2'' (Some ''r1'')) \<noteq> Inl diverges"
proof -
  have c: "\<not> is_ok (tree_walk (demo_engine\<lparr>b_runs := [demo_run ''r1'' (Some ''r2''), demo_run ''r2'' (Some ''r1'')]\<rparr>)
      (demo_run ''r1'' (Some ''r2'')) [] (demo_run ''r1'' (Some ''r2'')))" by code_simp
  have f: "find_run demo_engine ''r2'' = Some (demo_run ''r2'' (Some ''r1''))"
    by (simp add: find_run_def demo_engine_def demo_run_def demo_key_def run_key.extend_def)
  have inv: "engine_inv demo_engine" using demo_engine_ok by (simp add: engine_ok_def)
  show ?thesis
    using ancestor_loops_end [of "demo_engine\<lparr>b_runs := [demo_run ''r1'' (Some ''r2''), demo_run ''r2'' (Some ''r1'')]\<rparr>"
        "demo_run ''r1'' (Some ''r2'')" demo_bot_env]
      ancestor_loops_end [of demo_engine "demo_run ''r2'' (Some ''r1'')" demo_bot_env "''r2''"] c f inv by blast
qed

section \<open>The stop of a delegation tree\<close>

text \<open>A run that needs no further stop: ended, done but for its output, or asked to stop.\<close>

definition halted :: "run \<Rightarrow> bool" where
  "halted r \<longleftrightarrow> terminal_run r \<or> r_executor_status r = ''completed'' \<or> r_stop_status r \<noteq> ''none''"

inductive descends :: "bot_db \<Rightarrow> string \<Rightarrow> string \<Rightarrow> bool" for db where
  Child: "find_run db i = Some r \<Longrightarrow> r_deleg_parent r = Some p \<Longrightarrow> descends db p i"
| Deeper: "descends db p j \<Longrightarrow> descends db j i \<Longrightarrow> descends db p i"

lemma request_run_stop_halts: "request_run_stop env reason r db = Inr (r', db') \<Longrightarrow> halted r'"
  by (auto simp: request_run_stop_def halted_def terminal_run_def Let_def split: option.splits if_splits)

lemma halted_bump [simp]: "halted (r\<lparr>r_version := v, r_updated := u\<rparr>) = halted r"
  by (simp add: halted_def terminal_run_def)

lemma stop_child_cases:
  assumes "stop_child env c db = Inr db'" and "\<not> terminal_run c"
  obtains x db1 db2 where "(if \<not> ec_stop (r_caps c)
      then Inr (c\<lparr>r_stop_status := ''rejected'', r_stop_reason := ''parent_requested''\<rparr>, db)
      else request_run_stop env ''parent_requested'' c db) = Inr (x, db1)"
    "save_run (x\<lparr>r_version := r_version x + 1, r_updated := now env\<rparr>) db1 = Inr db2"
    "db' = queue_run env (x\<lparr>r_version := r_version x + 1, r_updated := now env\<rparr>) ''updated'' db2"
proof -
  define bump where "bump x = x\<lparr>r_version := r_version x + 1, r_updated := now env\<rparr>" for x :: run
  have "rbind (if \<not> ec_stop (r_caps c) then Inr (c\<lparr>r_stop_status := ''rejected'', r_stop_reason := ''parent_requested''\<rparr>, db)
        else request_run_stop env ''parent_requested'' c db)
      (\<lambda>(x, db1). rbind (save_run (bump x) db1) (\<lambda>db2. Inr (queue_run env (bump x) ''updated'' db2))) = Inr db'"
    using assms(1) unfolding stop_child_def if_not_P [OF assms(2)] bump_def Let_def .
  then obtain x db1 where x: "(if \<not> ec_stop (r_caps c)
        then Inr (c\<lparr>r_stop_status := ''rejected'', r_stop_reason := ''parent_requested''\<rparr>, db)
        else request_run_stop env ''parent_requested'' c db) = Inr (x, db1)"
    and y: "rbind (save_run (bump x) db1) (\<lambda>db2. Inr (queue_run env (bump x) ''updated'' db2)) = Inr db'"
    by (elim rbindE) (auto split: prod.splits)
  obtain db2 where "save_run (bump x) db1 = Inr db2" "db' = queue_run env (bump x) ''updated'' db2"
    using y by (elim rbindE) simp
  with x show thesis using that unfolding bump_def by blast
qed

lemma stop_child_halts:
  assumes inv: "engine_inv db" and c: "find_run db (r_id c) = Some c" and s: "stop_child env c db = Inr db'"
  shows "\<exists>c'. find_run db' (r_id c) = Some c' \<and> halted c'"
proof (cases "terminal_run c")
  case True
  then show ?thesis using s c by (simp add: stop_child_def halted_def)
next
  case False
  note t = False
  obtain x db1 db2 where x: "(if \<not> ec_stop (r_caps c)
        then Inr (c\<lparr>r_stop_status := ''rejected'', r_stop_reason := ''parent_requested''\<rparr>, db)
        else request_run_stop env ''parent_requested'' c db) = Inr (x, db1)"
      and sv: "save_run (x\<lparr>r_version := r_version x + 1, r_updated := now env\<rparr>) db1 = Inr db2"
      and d: "db' = queue_run env (x\<lparr>r_version := r_version x + 1, r_updated := now env\<rparr>) ''updated'' db2"
    by (rule stop_child_cases [OF s t])
  have h: "halted x" using x request_run_stop_halts by (cases "ec_stop (r_caps c)") (auto simp: halted_def)
  obtain c' where "find_run db' (r_id c) = Some c'" using runs_nextD [OF stop_child_step(2) [OF inv c s] c] by blast
  moreover have "find_run db' i = (if i = r_id x then map_option (\<lambda>_. x\<lparr>r_version := r_version x + 1, r_updated := now env\<rparr>)
      (find_run db1 i) else find_run db1 i)" for i
    using sv by (auto simp: d save_run_def find_put_run split: if_splits)
  moreover have "r_id x = r_id c"
  proof -
    have "local_step c x db db1"
    proof (cases "ec_stop (r_caps c)")
      case True
      then show ?thesis using x request_run_stop_local [OF engine_row_ok [OF inv c] t] by simp
    next
      case False
      then have "x = c\<lparr>r_stop_status := ''rejected'', r_stop_reason := ''parent_requested''\<rparr>" "db1 = db" using x by simp_all
      then show ?thesis by (intro local_stepI) (simp_all add: life_def life_step_refl)
    qed
    then have k: "key_of x = key_of c" by (simp add: local_step_def)
    show ?thesis by (rule key_of_id [OF k])
  qed
  ultimately show ?thesis using h by auto
qed

text \<open>What one walk below a run does to halted rows, wherever they stand.\<close>

definition keeps_halted :: "bot_db \<Rightarrow> bot_db \<Rightarrow> bool" where
  "keeps_halted db db' \<longleftrightarrow>
     (\<forall>i x x'. find_run db i = Some x \<longrightarrow> halted x \<longrightarrow> find_run db' i = Some x' \<longrightarrow> halted x')"

lemma keeps_halted_refl: "keeps_halted db db"
  by (simp add: keeps_halted_def)

lemma keeps_halted_trans: "keeps_halted db1 db2 \<Longrightarrow> runs_next db1 db2 \<Longrightarrow> keeps_halted db2 db3 \<Longrightarrow> keeps_halted db1 db3"
  unfolding keeps_halted_def by (meson runs_nextD)

lemma stop_child_keeps:
  assumes "engine_inv db" and "find_run db (r_id c) = Some c" and "stop_child env c db = Inr db'"
  shows "keeps_halted db db'"
  unfolding keeps_halted_def
proof (intro allI impI)
  fix i x x' assume f: "find_run db i = Some x" "halted x" "find_run db' i = Some x'"
  show "halted x'"
  proof (cases "i = r_id c")
    case True
    then show ?thesis using stop_child_halts [OF assms] f(3) by auto
  next
    case False
    then show ?thesis using stop_child_step(5) [OF assms] f by simp
  qed
qed

text \<open>The rows below: every path to a descendant starts at a child.\<close>

lemma descends_first:
  "descends db p i \<Longrightarrow> \<exists>c. find_run db (r_id c) = Some c \<and> r_deleg_parent c = Some p \<and> (i = r_id c \<or> descends db (r_id c) i)"
proof (induction rule: descends.induct)
  case (Child i r p)
  then show ?case using find_run_id by blast
next
  case (Deeper p j i)
  then show ?case using descends.Deeper by blast
qed

lemma descends_found: "descends db p i \<Longrightarrow> \<exists>r. find_run db i = Some r"
  by (induction rule: descends.induct) auto

lemma descends_same:
  assumes "runs_next db db'" and "descends db p i"
  shows "descends db' p i"
  using assms(2)
proof (induction rule: descends.induct)
  case (Child i r p)
  then obtain r' where "find_run db' i = Some r'" "run_next r r'" using runs_nextD [OF assms(1)] by blast
  then show ?case using Child(2) key_of_parent unfolding run_next_def by (metis descends.Child)
qed (rule descends.Deeper)

definition all_below_halted :: "bot_db \<Rightarrow> string \<Rightarrow> bot_db \<Rightarrow> bool" where
  "all_below_halted db p db' \<longleftrightarrow> (\<forall>i x. descends db p i \<longrightarrow> find_run db' i = Some x \<longrightarrow> halted x)"

lemma stops_halt:
  "engine_inv db \<Longrightarrow> request_delegated_stops env n pid db = Inr db' \<Longrightarrow> keeps_halted db db' \<and> all_below_halted db pid db'"
proof (induction n arbitrary: pid db db')
  case (Suc n)
  note inv = Suc.prems(1)
  let ?f = "\<lambda>c d. rbind (request_delegated_stops env n (r_id c) d) (stop_child env c)"
  have loop: "keeps_halted d d' \<and> (\<forall>c\<in>set cs. \<forall>i x. (i = r_id c \<or> descends db (r_id c) i) \<longrightarrow> find_run d' i = Some x \<longrightarrow> halted x)"
    if "pending db pid d cs" "rfold ?f cs d = Inr d'" for cs d d'
    using that
  proof (induction cs arbitrary: d)
    case Nil
    then show ?case by (simp add: keeps_halted_refl)
  next
    case (Cons c cs)
    obtain d1 d2 where r: "request_delegated_stops env n (r_id c) d = Inr d1" and s: "stop_child env c d1 = Inr d2"
      and rest: "rfold ?f cs d2 = Inr d'"
      using Cons.prems(2) by (auto simp: rbind_eq_Inr)
    have h: "stops_to db pid d" "c \<in> set (children_of db pid)" "find_run d (r_id c) = Some c"
      using Cons.prems(1) by (auto simp: pending_def)
    then have dinv: "engine_inv d" and dn: "runs_next db d" by (auto simp: stops_to_def)
    note rec = stops_step [OF dinv r]
    have d1: "engine_inv d1" "runs_next d d1" using rec by (auto simp: stops_to_def)
    note IHr = Suc.IH [OF dinv r]
    have c1: "find_run d1 (r_id c) = Some c" by (rule child_intact [OF inv h(1,2) rec h(2,3)])
    note sc = stop_child_step [OF d1(1) c1 s]
    note ks = stop_child_keeps [OF d1(1) c1 s]
    note p2 = pending_next [OF inv Cons.prems(1) rec s]
    note IHc = Cons.IH [OF p2 rest]
    have d2n: "runs_next d d2" by (rule runs_next_trans [OF d1(2) sc(2)])
    have k2: "keeps_halted d d2" by (rule keeps_halted_trans [OF conjunct1 [OF IHr] d1(2) ks])
    have d2d: "runs_next db d2" using p2 by (simp add: pending_def stops_to_def)
    have kd: "keeps_halted d d'" by (rule keeps_halted_trans [OF k2 d2n conjunct1 [OF IHc]])
    have own: "halted x" if i: "i = r_id c \<or> descends db (r_id c) i" and x: "find_run d' i = Some x" for i x
    proof -
      obtain r0 where r0: "find_run db i = Some r0"
        using i children_of_member(1) [OF inv h(2)] descends_found by blast
      obtain x2 where x2: "find_run d2 i = Some x2" using runs_nextD [OF d2d r0] by blast
      have "halted x2"
        using i
      proof
        assume "i = r_id c" then show ?thesis using stop_child_halts [OF d1(1) c1 s] x2 by auto
      next
        assume "descends db (r_id c) i"
        then have dd: "descends d (r_id c) i" by (rule descends_same [OF dn])
        obtain x0 where x0: "find_run d i = Some x0" using runs_nextD [OF dn r0] by blast
        obtain x1 where x1: "find_run d1 i = Some x1" using runs_nextD [OF d1(2) x0] by blast
        have "halted x1" using IHr dd x1 unfolding all_below_halted_def by blast
        then show ?thesis using ks x1 x2 unfolding keeps_halted_def by blast
      qed
      then show ?thesis using IHc x2 x unfolding keeps_halted_def by blast
    qed
    have "\<forall>c'\<in>set (c # cs). \<forall>i x. (i = r_id c' \<or> descends db (r_id c') i) \<longrightarrow> find_run d' i = Some x \<longrightarrow> halted x"
      using own conjunct2 [OF IHc] unfolding list.set Ball_def insert_iff by blast
    with kd show ?case by blast
  qed
  from loop [OF pending_start [OF inv]] Suc.prems(2)
  have l: "keeps_halted db db'" "\<forall>c\<in>set (children_of db pid). \<forall>i x. (i = r_id c \<or> descends db (r_id c) i) \<longrightarrow>
      find_run db' i = Some x \<longrightarrow> halted x" by simp_all
  have "all_below_halted db pid db'" unfolding all_below_halted_def
  proof (intro allI impI)
    fix i x assume d: "descends db pid i" and x: "find_run db' i = Some x"
    obtain c where c: "find_run db (r_id c) = Some c" "r_deleg_parent c = Some pid" "i = r_id c \<or> descends db (r_id c) i"
      using descends_first [OF d] by blast
    have "c \<in> set (children_of db pid)" using find_run_SomeD [OF c(1)] c(2) by (simp add: children_of_def)
    then show "halted x" using l(2) c(3) x by blast
  qed
  with l(1) show ?case by blast
qed simp

text \<open>C13: Stopping a delegation tree ends within its bound, whatever the shape of the tree, and reaches every
  run delegated below the stopped one: when it returns, each descendant has ended, has only its output
  left to publish, or has been asked to stop.\<close>

theorem stop_reaches_descendants:
  assumes "engine_inv db"
  shows "\<exists>db'. request_delegated_stops env (stop_tree_depth db) i db = Inr db' \<and> engine_inv db' \<and>
    (\<forall>j x. descends db i j \<and> find_run db' j = Some x \<longrightarrow> halted x)"
proof -
  have "length (b_runs db) < stop_tree_depth db + place db i" by (simp add: stop_tree_depth_def)
  then obtain db' where s: "request_delegated_stops env (stop_tree_depth db) i db = Inr db'"
    using stops_total [OF assms] by blast
  then show ?thesis using stops_step [OF assms s] stops_halt [OF assms s]
    by (auto simp: stops_to_def all_below_halted_def)
qed

theorem stop_reaches_descendants_witness:
  "\<exists>db' x. request_delegated_stops demo_bot_env 3 ''r1'' demo_engine = Inr db' \<and>
     find_run db' ''r2'' = Some x \<and> halted x \<and> r_status x = ''stopping''"
proof -
  have inv: "engine_inv demo_engine" using demo_engine_ok by (simp add: engine_ok_def)
  have n: "stop_tree_depth demo_engine = 3" by (simp add: stop_tree_depth_def demo_engine_def)
  obtain db' where s: "request_delegated_stops demo_bot_env 3 ''r1'' demo_engine = Inr db'"
    and h: "\<forall>j x. descends demo_engine ''r1'' j \<and> find_run db' j = Some x \<longrightarrow> halted x"
    using stop_reaches_descendants [OF inv, of demo_bot_env "''r1''"] unfolding n by blast
  have f: "find_run demo_engine ''r2'' = Some (demo_run ''r2'' (Some ''r1''))"
    by (simp add: find_run_def demo_engine_def demo_run_def demo_key_def run_key.extend_def)
  have d: "descends demo_engine ''r1'' ''r2''"
    by (rule Child [OF f]) (simp add: demo_run_def demo_key_def run_key.extend_def)
  have "map_option r_status (case request_delegated_stops demo_bot_env 3 ''r1'' demo_engine of
      Inl e \<Rightarrow> None | Inr d \<Rightarrow> find_run d ''r2'') = Some ''stopping''" by code_simp
  then obtain x where "find_run db' ''r2'' = Some x" "r_status x = ''stopping''" by (auto simp: s)
  then show ?thesis using s h d by blast
qed

end
