(* ===== verification/Run_Moves.thy ===== *)
theory Run_Moves
  imports Run_Termination
begin

text \<open>
  The state machine of a run, edge by edge. A \<open>life_event\<close> is what a transaction does to the life of a run,
  \<open>life_move\<close> the edges it may take: which status it leaves, which it reaches, and whether it starts a new
  generation. \<open>rows_move\<close> is what a transaction does to all rows. A transaction moves the row it is about along
  the edges of its own event and leaves every other row where it is, but for the stop of a delegation tree, which
  takes the edges of a stop on the runs below. This theory holds the edges and the callbacks of the worker, the
  platform and the executor; \<open>Run_Life\<close> adds the commands of a user and puts the transactions together.
\<close>

section \<open>The edges\<close>

datatype life_event =
  Taken | Started | Asked | Failing | Published | Stop_Confirmed | Stop_Asked | Authority_Lost | Outcome_Unknown
| Executor_Claimed | Reported string | Input_Taken | Resumed | Taken_Over | Decided | Quiet

inductive life_move :: "life_event \<Rightarrow> string \<times> int \<Rightarrow> string \<times> int \<Rightarrow> bool" where
  Taken: "s \<in> {''accepted'', ''running'', ''stopping''} \<Longrightarrow> life_move Taken (s, g) (s, g + 1)"
| Started: "active_status s \<Longrightarrow> life_move Started (s, g) (''running'', g)"
| Asked: "active_status s \<Longrightarrow> life_move Asked (s, g) (''waiting_authorization'', g)"
| Failing: "\<not> final_status s \<Longrightarrow> life_move Failing (s, g) (''failed'', g)"
| Published: "\<not> final_status s \<Longrightarrow> life_move Published (s, g) (''succeeded'', g)"
| Stop_Confirmed: "life_move Stop_Confirmed (''stopping'', g) (''stopped'', g)"
| Stop_Asked: "\<not> final_status s \<Longrightarrow> s' \<in> {''stopping'', ''stopped'', ''succeeded'', ''failed''} \<Longrightarrow> life_move Stop_Asked (s, g) (s', g)"
| Authority_Stop: "life_move Stop_Asked (s, g) (s', g) \<Longrightarrow> life_move Authority_Lost (s, g) (s', g)"
| Authority_Park: "active_status s \<or> s = ''waiting_authorization'' \<Longrightarrow> g' \<in> {g, g + 1} \<Longrightarrow>
    life_move Authority_Lost (s, g) (''waiting_authorization'', g')"
| Outcome_Unknown: "active_status s \<Longrightarrow> life_move Outcome_Unknown (s, g) (''waiting_authorization'', g)"
| Executor_Claimed: "active_status s \<Longrightarrow> life_move Executor_Claimed (s, g) (''running'', g)"
| Progress: "s \<in> {''accepted'', ''running''} \<Longrightarrow> life_move (Reported ''running'') (s, g) (''running'', g)"
| Question: "active_status s \<Longrightarrow> life_move (Reported ''waiting_input'') (s, g) (''waiting_input'', g)"
| Completion: "s \<in> {''accepted'', ''running'', ''stopping''} \<Longrightarrow> life_move (Reported ''completed'') (s, g) (''running'', g)"
| Failure: "active_status s \<or> s = ''stopping'' \<Longrightarrow> life_move (Reported ''failed'') (s, g) (''failed'', g)"
| Stopped: "active_status s \<or> s = ''stopping'' \<Longrightarrow> life_move (Reported ''stopped'') (s, g) (''stopped'', g)"
| Stop_Rejected: "active_status s \<or> s = ''stopping'' \<Longrightarrow> life_move (Reported ''stop_rejected'') (s, g) (''running'', g)"
| Input_Taken: "life_move Input_Taken (''waiting_input'', g) (''running'', g)"
| Resumed: "active_status s \<Longrightarrow> life_move Resumed (s, g) (''accepted'', g + 1)"
| Taken_Over: "g' \<in> {g, g + 1} \<Longrightarrow> life_move Taken_Over (''waiting_authorization'', g) (''accepted'', g')"
| Decided: "life_move Decided (''waiting_authorization'', g) (''running'', g)"

inductive_simps stop_asked_iff: "life_move Stop_Asked (s, g) (s', g')"
inductive_cases leave_stopping: "life_move e (''stopping'', g) l"
inductive_cases leave_authorization: "life_move e (''waiting_authorization'', g) l"

lemma stop_asked_trans: "life_move Stop_Asked l m \<Longrightarrow> life_move Stop_Asked m n \<Longrightarrow> life_move Stop_Asked l n"
  by (cases l; cases m; cases n) (simp add: stop_asked_iff)

text \<open>Where a stopping run, and one that waits for an authorization, may go.\<close>

lemma stopping_ends:
  assumes "life_move e (''stopping'', g) (s', g')" and "s' \<noteq> ''stopping''"
  shows "final_status s' \<or> (s' = ''running'' \<and> g' = g \<and> e \<in> {Reported ''stop_rejected'', Reported ''completed''})"
  using assms by (cases rule: leave_stopping) (auto simp: active_status_def final_status_def stop_asked_iff)

lemma authorization_ends:
  assumes "life_move e (''waiting_authorization'', g) (s', g')" and "active_status s'"
  shows "(s' = ''running'' \<and> e = Decided) \<or> (s' = ''accepted'' \<and> e = Taken_Over)"
  using assms by (cases rule: leave_authorization) (auto simp: active_status_def stop_asked_iff)

section \<open>The event of a transaction\<close>

fun worker_event :: "worker_cmd \<Rightarrow> life_event" where
  "worker_event Start = Started"
| "worker_event Continue = Started"
| "worker_event (Claim_Call i tool gen input) = Asked"
| "worker_event _ = Quiet"

fun lifecycle_event :: "lifecycle_cmd \<Rightarrow> life_event" where
  "lifecycle_event (Fail reason outp) = Failing"
| "lifecycle_event Confirm_Stop = Stop_Confirmed"
| "lifecycle_event (Authority seen reason) = Authority_Lost"
| "lifecycle_event (Undeliverable gen reason) = Stop_Asked"
| "lifecycle_event (Commit msg) = Published"
| "lifecycle_event (Commit_Personal fence) = Published"
| "lifecycle_event (Prepare_Call tool arguments key expires gen input) = Asked"
| "lifecycle_event _ = Quiet"

definition executor_event :: "executor_update \<Rightarrow> life_event" where
  "executor_event u =
     (if eu_type u = ''run.claim'' then Executor_Claimed
      else if eu_type u = ''run.update'' then Reported (eu_status u) else Quiet)"

definition control_event :: "control_command \<Rightarrow> life_event" where
  "control_event c =
     (if cc_op c = ''takeover'' then Taken_Over else if cc_op c = ''input'' then Input_Taken
      else if cc_op c = ''stop'' then Stop_Asked else if cc_op c = ''resume'' then Resumed else Quiet)"

text \<open>A run with work of execution that is due and that no worker holds.\<close>

definition claimable :: "bot_env \<Rightarrow> bot_db \<Rightarrow> string list \<Rightarrow> run \<Rightarrow> bool" where
  "claimable env db kinds r \<longleftrightarrow>
     (\<exists>w\<in>set (b_work db). w_kind w = ''execute'' \<and> w_run w = r_id r \<and> eligible env db kinds w)"

text \<open>The event, and the rows a transaction is about.\<close>

fun event_of :: "engine_op \<Rightarrow> life_event" where
  "event_of (Claim kinds) = Taken"
| "event_of (Work prior gen c) = worker_event c"
| "event_of (Lifecycle prior gen c) = lifecycle_event c"
| "event_of (Facts prior c) = Outcome_Unknown"
| "event_of (Executor checked key digest u) = executor_event u"
| "event_of (Control checked key digest user c ms sources) = control_event c"
| "event_of (Decide checked i user q tool digest) = Decided"
| "event_of _ = Quiet"

fun concerns :: "bot_env \<Rightarrow> bot_db \<Rightarrow> engine_op \<Rightarrow> run \<Rightarrow> bool" where
  "concerns env db (Claim kinds) r \<longleftrightarrow> claimable env db kinds r"
| "concerns env db (Work prior gen c) r \<longleftrightarrow> r_id r = r_id prior"
| "concerns env db (Lifecycle prior gen c) r \<longleftrightarrow> r_id r = r_id prior"
| "concerns env db (Facts prior c) r \<longleftrightarrow> r_id r = r_id prior"
| "concerns env db (Executor checked key digest u) r \<longleftrightarrow> r_id r = r_id checked"
| "concerns env db (Control checked key digest user c ms sources) r \<longleftrightarrow>
     r_id r = r_id checked \<or> (cc_op c = ''stop'' \<and> descends db (r_id checked) (r_id r))"
| "concerns env db (Decide checked i user q tool digest) r \<longleftrightarrow> r_id r = r_id checked"
| "concerns env db _ r \<longleftrightarrow> False"

section \<open>Rows\<close>

definition rows_move :: "(run \<Rightarrow> bool) \<Rightarrow> life_event \<Rightarrow> bot_db \<Rightarrow> bot_db \<Rightarrow> bool" where
  "rows_move Q e db db' \<longleftrightarrow> (\<forall>i r r'. find_run db i = Some r \<longrightarrow> find_run db' i = Some r' \<longrightarrow>
     life r' = life r \<or> (Q r \<and> life_move e (life r) (life r')))"

lemma rows_move_same: "b_runs db' = b_runs db \<Longrightarrow> rows_move Q e db db'"
  by (simp add: rows_move_def find_run_def)

lemma rows_moveD:
  "rows_move Q e db db' \<Longrightarrow> find_run db i = Some r \<Longrightarrow> find_run db' i = Some r' \<Longrightarrow>
     life r' = life r \<or> (Q r \<and> life_move e (life r) (life r'))"
  by (simp add: rows_move_def)

lemma rows_move_cong: "b_runs db2 = b_runs db1 \<Longrightarrow> rows_move Q e db db2 = rows_move Q e db db1"
  by (simp add: rows_move_def find_run_def)

lemma rows_move_mono: "rows_move Q e db db' \<Longrightarrow> (\<And>r. Q r \<Longrightarrow> P r) \<Longrightarrow> rows_move P e db db'"
  unfolding rows_move_def by blast

lemma rows_move_queue [simp]: "rows_move Q e db (queue_run env r kind d) = rows_move Q e db d"
  by (rule rows_move_cong) simp

text \<open>The own row of a transaction, saved over rows that were or were not moved before.\<close>

lemma rows_move_put:
  assumes m: "rows_move Q e db db1" and r: "find_run db (r_id r) = Some r" and i: "r_id r1 = r_id r"
    and l: "life r1 = life r \<or> (Q r \<and> life_move e (life r) (life r1))"
  shows "rows_move Q e db (put_run r1 db1)"
  unfolding rows_move_def
proof (intro allI impI)
  fix j x x' assume x: "find_run db j = Some x" and x': "find_run (put_run r1 db1) j = Some x'"
  show "life x' = life x \<or> (Q x \<and> life_move e (life x) (life x'))"
  proof (cases "j = r_id r")
    case True
    then have "x' = r1" "x = r" using x x' r i by (auto simp: find_put_run)
    then show ?thesis using l by simp
  next
    case False
    then show ?thesis using x x' i rows_moveD [OF m] by (simp add: find_put_run)
  qed
qed

lemma save_run_Inr: "save_run r db = Inr db' \<Longrightarrow> db' = put_run r db"
  by (auto simp: save_run_def split: if_splits)

lemma commit_move:
  assumes m: "rows_move Q e db db1" and r: "find_run db (r_id r) = Some r" and i: "r_id r1 = r_id r"
    and l: "life r1 = life r \<or> (Q r \<and> life_move e (life r) (life r1))" and c: "commit_run env before r1 db1 = Inr (r2, db2)"
  shows "rows_move Q e db db2"
proof -
  let ?f = "finish_run env before r1"
  obtain db3 where "save_run ?f db1 = Inr db3" and d: "db2 = queue_run env ?f ''updated'' db3"
    using c by (auto simp: commit_run_def Let_def rbind_eq_Inr)
  then have "db3 = put_run ?f db1" using save_run_Inr by blast
  moreover have "r_id ?f = r_id r" using key_of_id [OF finish_run_simps(1)] i by metis
  ultimately show ?thesis using rows_move_put [OF m r, of ?f] l by (simp add: d finish_run_simps)
qed

text \<open>A callback, on the row it finds: it keeps the identity, and the row and the others move along the event.\<close>

definition callback_moves :: "(run \<Rightarrow> bool) \<Rightarrow> life_event \<Rightarrow> bot_db \<Rightarrow> run \<Rightarrow> run_step_fn \<Rightarrow> bool" where
  "callback_moves Q e db r fn \<longleftrightarrow> (\<forall>r1 db1. fn r db = Inr (r1, db1) \<longrightarrow> r_id r1 = r_id r \<and> rows_move Q e db db1 \<and>
     (life r1 = life r \<or> (Q r \<and> life_move e (life r) (life r1))))"

lemma local_moves:
  assumes "\<And>r1 db1. fn r db = Inr (r1, db1) \<Longrightarrow> local_step r r1 db db1"
    and "\<And>r1 db1. fn r db = Inr (r1, db1) \<Longrightarrow> life r1 = life r \<or> (Q r \<and> life_move e (life r) (life r1))"
  shows "callback_moves Q e db r fn"
  unfolding callback_moves_def
proof (intro allI impI conjI)
  fix r1 db1 assume f: "fn r db = Inr (r1, db1)"
  have l: "key_of r1 = key_of r" "b_runs db1 = b_runs db" using assms(1) [OF f] by (simp_all add: local_step_def)
  show "r_id r1 = r_id r" by (rule key_of_id [OF l(1)])
  show "rows_move Q e db db1" by (rule rows_move_same [OF l(2)])
  show "life r1 = life r \<or> (Q r \<and> life_move e (life r) (life r1))" by (rule assms(2) [OF f])
qed

lemma change_moves:
  assumes inv: "engine_inv db" and c: "change_with env prior gen ex facts fn db = Inr (r2, db2)"
    and m: "\<And>r. \<lbrakk>find_run db (r_id prior) = Some r; run_row_ok r; terminal_run r \<longrightarrow> facts;
        ex \<longrightarrow> active_status (r_status r) \<or> terminal_run r\<rbrakk> \<Longrightarrow> callback_moves Q e db r fn"
  shows "rows_move Q e db db2"
proof -
  obtain r r1 db1 where r: "find_run db (r_id prior) = Some r"
    and t: "terminal_run r \<longrightarrow> facts" and e: "ex \<longrightarrow> r_status r \<noteq> ''stopping'' \<and> r_status r \<noteq> ''waiting_authorization''"
    and f: "fn r db = Inr (r1, db1)" and k: "commit_run env (r_stage r) r1 db1 = Inr (r2, db2)"
    using c by (auto simp: change_with_def rbind_eq_Inr get_run_def of_option_eq_Inr split: if_splits prod.splits)
  have ok: "run_row_ok r" by (rule engine_row_ok [OF inv r])
  have "ex \<longrightarrow> active_status (r_status r) \<or> terminal_run r" using living_cases [OF ok] e by blast
  from m [OF r ok t this] f have a: "r_id r1 = r_id r" "rows_move Q e db db1"
    "life r1 = life r \<or> (Q r \<and> life_move e (life r) (life r1))" by (auto simp: callback_moves_def)
  have "find_run db (r_id r) = Some r" using r find_run_id [OF r] by simp
  from commit_move [OF a(2) this a(1,3) k] show ?thesis .
qed

lemma report_moves:
  assumes inv: "engine_inv db" and c: "report_once env checked key digest au fn db = Inr (p, db2)"
    and m: "\<And>r. \<lbrakk>find_run db (r_id checked) = Some r; run_row_ok r; terminal_run r \<longrightarrow> au_stop_tree au\<rbrakk> \<Longrightarrow>
        callback_moves Q e db r fn"
  shows "rows_move Q e db db2"
proof -
  obtain r where r: "find_run db (r_id checked) = Some r" and alt: "db2 = db \<or>
      ((terminal_run r \<longrightarrow> au_stop_tree au) \<and> (\<exists>r1 db1 r2 db3. fn r db = Inr (r1, db1) \<and>
         commit_run env (r_stage r) r1 db1 = Inr (r2, db3) \<and> put_receipt env (r_id checked) key digest db3 = Inr db2))"
    using report_once_cases [OF c] by blast
  from alt show ?thesis
  proof (elim disjE exE conjE)
    assume "db2 = db" then show ?thesis by (simp add: rows_move_same)
  next
    fix r1 db1 r2 db3
    assume t: "terminal_run r \<longrightarrow> au_stop_tree au" and f: "fn r db = Inr (r1, db1)"
      and k: "commit_run env (r_stage r) r1 db1 = Inr (r2, db3)" and q: "put_receipt env (r_id checked) key digest db3 = Inr db2"
    from m [OF r engine_row_ok [OF inv r] t] f have a: "r_id r1 = r_id r" "rows_move Q e db db1"
      "life r1 = life r \<or> (Q r \<and> life_move e (life r) (life r1))" by (auto simp: callback_moves_def)
    have "find_run db (r_id r) = Some r" using r find_run_id [OF r] by simp
    from commit_move [OF a(2) this a(1,3) k] show ?thesis by (simp add: rows_move_cong [OF put_receipt_frame(1) [OF q]])
  qed
qed

section \<open>Stops\<close>

lemma life_eq: "life r' = life r \<longleftrightarrow> r_status r' = r_status r \<and> r_generation r' = r_generation r"
  by (simp add: life_def)

lemma stop_moves:
  assumes "request_run_stop env reason r db = Inr (r', db')" and "\<not> terminal_run r"
  shows "life r' = life r \<or> life_move Stop_Asked (life r) (life r')"
  using assms final_terminal [of r]
  by (auto simp: request_run_stop_def Let_def life_def stop_asked_iff split: option.splits if_splits)

text \<open>A callback that touches only its own row, in the two facts the proofs below need.\<close>

lemma local_own:
  assumes "local_step r r' db db'"
  shows "r_id r' = r_id r" and "b_runs db' = b_runs db"
  using assms key_of_id [of r' r] unfolding local_step_def by blast+

text \<open>Moves of the rows of a set along the edges of a stop add up.\<close>

lemma stop_rows_trans:
  assumes a: "rows_move (\<lambda>r. D (r_id r)) Stop_Asked db1 db2" and n: "runs_next db1 db2"
    and b: "rows_move (\<lambda>r. D (r_id r)) Stop_Asked db2 db3"
  shows "rows_move (\<lambda>r. D (r_id r)) Stop_Asked db1 db3"
  unfolding rows_move_def
proof (intro allI impI)
  fix i r r3 assume r: "find_run db1 i = Some r" and r3: "find_run db3 i = Some r3"
  obtain r2 where r2: "find_run db2 i = Some r2" using runs_nextD [OF n r] by blast
  have d: "r_id r2 = r_id r" using find_run_id [OF r] find_run_id [OF r2] by simp
  note m1 = rows_moveD [OF a r r2] and m2 = rows_moveD [OF b r2 r3, unfolded d]
  show "life r3 = life r \<or> (D (r_id r) \<and> life_move Stop_Asked (life r) (life r3))"
    using m1
  proof
    assume e: "life r2 = life r"
    show ?thesis using m2 unfolding e .
  next
    assume m: "D (r_id r) \<and> life_move Stop_Asked (life r) (life r2)"
    from m2 show ?thesis
    proof
      assume e: "life r3 = life r2"
      show ?thesis using m unfolding e by blast
    next
      assume "D (r_id r) \<and> life_move Stop_Asked (life r2) (life r3)"
      then show ?thesis using m stop_asked_trans [of "life r" "life r2" "life r3"] by blast
    qed
  qed
qed

lemma stop_child_moves:
  assumes inv: "engine_inv db" and c: "find_run db (r_id c) = Some c" and D: "D (r_id c)"
    and s: "stop_child env c db = Inr db'"
  shows "rows_move (\<lambda>r. D (r_id r)) Stop_Asked db db'"
proof (cases "terminal_run c")
  case True
  then show ?thesis using s by (simp add: stop_child_def rows_move_same)
next
  case t: False
  have ok: "run_row_ok c" by (rule engine_row_ok [OF inv c])
  obtain x db1 db2 where x: "(if \<not> ec_stop (r_caps c)
        then Inr (c\<lparr>r_stop_status := ''rejected'', r_stop_reason := ''parent_requested''\<rparr>, db)
        else request_run_stop env ''parent_requested'' c db) = Inr (x, db1)"
      and sv: "save_run (x\<lparr>r_version := r_version x + 1, r_updated := now env\<rparr>) db1 = Inr db2"
      and d: "db' = queue_run env (x\<lparr>r_version := r_version x + 1, r_updated := now env\<rparr>) ''updated'' db2"
    by (rule stop_child_cases [OF s t])
  have x1: "r_id x = r_id c \<and> b_runs db1 = b_runs db \<and> (life x = life c \<or> life_move Stop_Asked (life c) (life x))"
  proof (cases "ec_stop (r_caps c)")
    case True
    then have q: "request_run_stop env ''parent_requested'' c db = Inr (x, db1)" using x by simp
    from local_own [OF request_run_stop_local [OF ok t q]] stop_moves [OF q t] show ?thesis by blast
  next
    case False
    then have "x = c\<lparr>r_stop_status := ''rejected'', r_stop_reason := ''parent_requested''\<rparr>" "db1 = db" using x by simp_all
    then show ?thesis by (simp add: life_def)
  qed
  define y where "y = x\<lparr>r_version := r_version x + 1, r_updated := now env\<rparr>"
  have y: "r_id y = r_id c" "life y = life x" using x1 by (simp_all add: y_def life_def)
  have "rows_move (\<lambda>r. D (r_id r)) Stop_Asked db (put_run y db1)"
  proof (rule rows_move_put [OF rows_move_same c y(1)])
    show "b_runs db1 = b_runs db" using x1 by blast
    show "life y = life c \<or> (D (r_id c) \<and> life_move Stop_Asked (life c) (life y))" using x1 D unfolding y(2) by blast
  qed
  then show ?thesis using save_run_Inr [OF sv] by (simp add: d y_def)
qed

text \<open>The walk stays below the run it starts at.\<close>

lemma descends_back:
  assumes n: "runs_next db d" and ids: "map r_id (b_runs d) = map r_id (b_runs db)" and p: "descends d p i"
  shows "descends db p i"
  using p
proof (induction rule: descends.induct)
  case (Child i r p)
  obtain x where x: "find_run db i = Some x" using same_ids_find(1) [OF ids, of i] Child(1) by auto
  obtain r' where "find_run d i = Some r'" and l: "run_next x r'" using runs_nextD [OF n x] by blast
  then have "r' = r" using Child(1) by simp
  then have "r_deleg_parent x = Some p" using l key_of_parent [of r x] Child(2) by (simp add: run_next_def)
  then show ?case by (rule descends.Child [OF x])
qed (rule descends.Deeper)

lemma stops_move:
  "engine_inv db \<Longrightarrow> request_delegated_stops env n pid db = Inr db' \<Longrightarrow>
     rows_move (\<lambda>r. descends db pid (r_id r)) Stop_Asked db db'"
proof (induction n arbitrary: pid db db')
  case (Suc n)
  note inv = Suc.prems(1)
  have "rows_move (\<lambda>r. descends db pid (r_id r)) Stop_Asked d d'" if "pending db pid d cs"
      "rfold (\<lambda>c d. rbind (request_delegated_stops env n (r_id c) d) (stop_child env c)) cs d = Inr d'" for cs d d'
    using that
  proof (induction cs arbitrary: d)
    case Nil
    then show ?case by (simp add: rows_move_same)
  next
    case (Cons c cs)
    obtain d1 d2 where r: "request_delegated_stops env n (r_id c) d = Inr d1" and s: "stop_child env c d1 = Inr d2"
      and rest: "rfold (\<lambda>c d. rbind (request_delegated_stops env n (r_id c) d) (stop_child env c)) cs d2 = Inr d'"
      using Cons.prems(2) by (auto simp: rbind_eq_Inr)
    have h: "stops_to db pid d" "c \<in> set (children_of db pid)" "find_run d (r_id c) = Some c"
      using Cons.prems(1) by (auto simp: pending_def)
    then have dinv: "engine_inv d" and dn: "runs_next db d" "map r_id (b_runs d) = map r_id (b_runs db)"
      by (simp_all add: stops_to_def)
    note rec = stops_step [OF dinv r]
    have d1: "engine_inv d1" "runs_next d d1" using rec by (auto simp: stops_to_def)
    have c1: "find_run d1 (r_id c) = Some c" by (rule child_intact [OF inv h(1,2) rec h(2,3)])
    have p: "descends db pid (r_id c)" using children_of_member(1,2) [OF inv h(2)] by (rule descends.Child)
    have "rows_move (\<lambda>r. descends d (r_id c) (r_id r)) Stop_Asked d d1" by (rule Suc.IH [OF dinv r])
    then have m1: "rows_move (\<lambda>r. descends db pid (r_id r)) Stop_Asked d d1"
      by (rule rows_move_mono) (rule descends.Deeper [OF p descends_back [OF dn]])
    note m2 = stop_child_moves [of d1 c "descends db pid", OF d1(1) c1 p s] and sc = stop_child_step [OF d1(1) c1 s]
    have d2: "rows_move (\<lambda>r. descends db pid (r_id r)) Stop_Asked d d2" by (rule stop_rows_trans [OF m1 d1(2) m2])
    show ?case
      by (rule stop_rows_trans [OF d2 runs_next_trans [OF d1(2) sc(2)] Cons.IH [OF pending_next [OF inv Cons.prems(1) rec s] rest]])
  qed
  from this [OF pending_start [OF inv]] Suc.prems(2) show ?case by simp
qed simp

section \<open>Callbacks\<close>

text \<open>What appending to the trajectory, queueing and waking leave of a row: its life.\<close>

lemma append_inputs_life: "append_inputs env r db = Inr (r', db') \<Longrightarrow> life r' = life r"
proof -
  have block: "life (fst (append_block env b p s)) = life (fst s)" for b p s
    by (cases s) (simp add: append_block_def append_run_block_def bot_id_def life_def)
  have materials: "life (fst (append_materials env ms s)) = life (fst s)" for ms s
    unfolding append_materials_def by (induction ms arbitrary: s) (simp_all add: block)
  have input: "life (fst t) = life (fst s)" if "append_input env i s = Inr t" for i s t
  proof (cases s)
    case (Pair x d)
    obtain x1 d1 where a: "append_block env (Input_Body (in_version i) (in_requester i) (sender_kind x i) (in_source_message i) (in_content i))
                  (body_sources i) (append_materials env (in_materials i) (x, d)) = (x1, d1)" by fastforce
    have "life x1 = life x" using block [of _ _ "append_materials env (in_materials i) (x, d)"] materials [of _ "(x, d)"] a by (metis fst_conv)
    then show ?thesis using that Pair a by (auto simp: append_input_def life_def split: if_splits)
  qed
  have all: "life (fst t) = life (fst s)" if "rfold (append_input env) is s = Inr t" for "is" s t
    using that by (induction "is" arbitrary: s) (auto simp: rbind_eq_Inr dest: input)
  assume "append_inputs env r db = Inr (r', db')"
  then show ?thesis using all [of "unapplied_inputs db r" "(r, db)" "(r', db')"] by (auto simp: append_inputs_def split: if_splits)
qed

lemma wake_life: "wake_executor env op w r db = Inr (r', db') \<Longrightarrow> life r' = life r"
  by (auto simp: wake_executor_def Let_def life_def split: if_splits)

lemma parked_moves:
  assumes "r' = r \<or> r' = park_pending r" and "run_row_ok r" and "\<not> terminal_run r" and "r_status r \<noteq> ''stopping''"
  shows "life r' = life r \<or> life_move Asked (life r) (life r')"
  using assms(1)
proof
  assume p: "r' = park_pending r"
  have "active_status (r_status r) \<or> r_status r = ''waiting_authorization''" using living_cases [OF assms(2,3)] assms(4) by blast
  then show ?thesis using life_move.Asked [of "r_status r" "r_generation r"] unfolding p park_pending_simps by (auto simp: life_def)
qed simp

lemma prepare_moves:
  assumes ok: "run_row_ok r" and p: "prepare_action env tool arguments key expires gen input r db = Inr (r', db')"
  shows "life r' = life r \<or> life_move Asked (life r) (life r')"
proof -
  obtain u s doc digest where f: "action_fence env db r gen input = Inr u"
    and m: "(case submitted_action db (r_id r) key of
       Some a \<Rightarrow> rbind (rebind_action env r a tool s digest db) (\<lambda>(a1, r1, db1). Inr (r1, db1))
     | None \<Rightarrow> record_action env tool s doc digest key expires r db) = Inr (r', db')"
    using p by (auto simp: prepare_action_def rbind_eq_Inr)
  have "r' = r \<or> r' = park_pending r"
  proof (cases "submitted_action db (r_id r) key")
    case (Some a)
    then obtain a1 where "rebind_action env r a tool s digest db = Inr (a1, r', db')" using m by (auto simp: rbind_eq_Inr)
    then show ?thesis by (rule rebind_frame(1))
  next
    case None
    then have "record_action env tool s doc digest key expires r db = Inr (r', db')" using m by simp
    then show ?thesis by (rule record_action_cases) simp
  qed
  then show ?thesis using parked_moves [OF _ ok] action_fenceD(1,2) [OF f] by blast
qed

lemma claim_action_moves:
  assumes ok: "run_row_ok r" and c: "claim_action env i tool gen input r db = Inr (r', db')"
  shows "life r' = life r \<or> life_move Asked (life r) (life r')"
proof -
  obtain v where "claim_call env i tool gen input r db = Inr (v, r', db')"
    using c by (auto simp: claim_action_def map_sum_def split: sum.splits prod.splits)
  then obtain s a a1 r1 db1 where f: "action_fence env db r gen input = Inr ()"
    and b: "rebind_action env r a tool s (ra_parameters a) db = Inr (a1, r1, db1)"
    and st: "start_call env s a1 r1 db1 = Inr (v, r', db')"
    by (rule claim_call_cases)
  have "life r' = life r1" using st by (cases rule: start_call_cases) (simp_all add: life_def)
  then show ?thesis using parked_moves [OF rebind_frame(1) [OF b] ok action_fenceD(1,2) [OF f]] by simp
qed

lemma outcome_moves:
  assumes ok: "run_row_ok r" and o: "record_outcome env a st result outcome r db = Inr (r', db')"
  shows "life r' = life r \<or> life_move Outcome_Unknown (life r) (life r')"
  using o
proof (cases rule: record_outcome_cases)
  case (1 live a1 r1)
  show ?thesis
  proof (cases "st = ''unknown'' \<and> \<not> terminal_run r \<and> r_status r \<noteq> ''stopping''")
    case True
    have "r' = park_unknown r1" using 1(11) if_P [OF True] by metis
    moreover have "r_generation r1 = r_generation r" using 1(9) by (simp add: life_def)
    ultimately have l: "life r' = (''waiting_authorization'', r_generation r)" by simp
    have "active_status (r_status r) \<or> r_status r = ''waiting_authorization''" using living_cases [OF ok] True by blast
    then show ?thesis unfolding l by (auto simp: life_def intro: life_move.Outcome_Unknown)
  next
    case False
    then have "r' = r1" using 1(11) if_not_P [OF False] by metis
    then show ?thesis using 1(9) by simp
  qed
qed

lemma recovery_moves:
  assumes ok: "run_row_ok r" and c: "recover_actions env r db = Inr (r', db')"
  shows "life r' = life r \<or> life_move Outcome_Unknown (life r) (life r')"
proof -
  let ?park = "r\<lparr>r_status := ''waiting_authorization'', r_stage := ''action_outcome_unknown'',
                          r_waiting := ''action_outcome_unknown'', r_stream_status := ''closed''\<rparr>"
  have "r' = r \<or> (\<not> terminal_run r \<and> r_status r \<noteq> ''stopping'' \<and> r' = ?park)"
    using guarded_pair [OF c [unfolded recover_actions_def Let_def]] by blast
  then show ?thesis
  proof
    assume p: "\<not> terminal_run r \<and> r_status r \<noteq> ''stopping'' \<and> r' = ?park"
    then have l: "life r' = (''waiting_authorization'', r_generation r)" by (simp add: life_def)
    have "active_status (r_status r) \<or> r_status r = ''waiting_authorization''" using living_cases [OF ok] p by blast
    then show ?thesis unfolding l by (auto simp: life_def intro: life_move.Outcome_Unknown)
  qed simp
qed

lemma worker_moves:
  assumes ok: "run_row_ok r" and a: "active_status (r_status r)" and c: "worker_fn env c r db = Inr (r', db')"
  shows "life r' = life r \<or> life_move (worker_event c) (life r) (life r')"
proof (cases c)
  case Start
  have started: "life_move Started (life r) (''running'', r_generation r)" using a by (simp add: life_def life_move.Started)
  obtain r2 db2 where b: "append_block env (Text_Body ''system'' (xc_system_prompt (r_config r))) []
      (r\<lparr>r_status := ''running'', r_stage := ''preparing'', r_delivery_status := ''acknowledged'', r_executor_status := ''accepted''\<rparr>, db) = (r2, db2)"
    by fastforce
  then have "life r2 = (''running'', r_generation r)"
    by (auto simp: append_block_def append_run_block_def bot_id_def life_def)
  moreover have "append_inputs env r2 db2 = Inr (r', db')"
    using c b Start by (auto simp: start_run_def Let_def split: if_splits)
  ultimately show ?thesis using append_inputs_life started Start by simp
next
  case Continue
  then have "life r' = (''running'', r_generation r)" using c by (auto simp: continue_run_def Let_def life_def split: if_splits)
  then show ?thesis using a Continue by (simp add: life_def life_move.Started)
next
  case Append_Inputs
  then show ?thesis using c append_inputs_life by simp
next
  case (Wait_Input reason content)
  then show ?thesis using c by (auto simp: wait_for_input_def append_run_block_def bot_id_def life_def)
next
  case Queue_Output
  then show ?thesis using c by (auto simp: queue_output_def Let_def life_def)
next
  case (Claim_Call i tool gen input)
  then show ?thesis using c claim_action_moves [OF ok] by simp
next
  case (Check_Call a tool)
  then show ?thesis using c call_boundary_cases [of env a tool r db r' db'] by simp
qed

lemma lose_controller_moves:
  assumes ok: "run_row_ok r" and t: "\<not> terminal_run r" and c: "lose_controller env reason r db = Inr (r', db')"
  shows "life r' = life r \<or> life_move Authority_Lost (life r) (life r')"
proof (cases "r_status r = ''stopping''")
  case True
  then show ?thesis using c by (simp add: lose_controller_def)
next
  case False
  then have "r_status r' = ''waiting_authorization'' \<and> r_generation r' \<in> {r_generation r, r_generation r + 1}"
    using c by (auto simp: lose_controller_def Let_def split: if_splits)
  moreover have "active_status (r_status r) \<or> r_status r = ''waiting_authorization''" using living_cases [OF ok t] False by blast
  ultimately show ?thesis using life_move.Authority_Park [of "r_status r" "r_generation r'" "r_generation r"] by (simp add: life_def)
qed

lemma authority_moves:
  assumes ok: "run_row_ok r" and t: "\<not> terminal_run r" and c: "apply_authority env seen reason r db = Inr (r', db')"
  shows "life r' = life r \<or> life_move Authority_Lost (life r) (life r')"
proof (cases "reason = ''controller_membership_lost''")
  case True
  then have "lose_controller env reason r db = Inr (r', db')" using c by (auto simp: apply_authority_def rbind_eq_Inr)
  then show ?thesis by (rule lose_controller_moves [OF ok t])
next
  case False
  then have q: "request_run_stop env reason (r\<lparr>r_revoked := True\<rparr>) db = Inr (r', db')"
    using c by (auto simp: apply_authority_def rbind_eq_Inr)
  have t': "\<not> terminal_run (r\<lparr>r_revoked := True\<rparr>)" using t by (simp add: terminal_run_def)
  have "life (r\<lparr>r_revoked := True\<rparr>) = life r" by (simp add: life_def)
  then have s: "life r' = life r \<or> life_move Stop_Asked (life r) (life r')" using stop_moves [OF q t'] by simp
  then show ?thesis
  proof
    assume m: "life_move Stop_Asked (life r) (life r')"
    then have "snd (life r') = snd (life r)" by (cases "life r"; cases "life r'") (simp add: stop_asked_iff)
    then show ?thesis using m life_move.Authority_Stop [of "fst (life r)" "snd (life r)" "fst (life r')"] by (metis prod.collapse)
  qed simp
qed

lemma lifecycle_moves:
  assumes ok: "run_row_ok r" and t: "\<not> terminal_run r" and c: "lifecycle_fn env c r db = Inr (r', db')"
  shows "life r' = life r \<or> life_move (lifecycle_event c) (life r) (life r')"
proof -
  have nf: "\<not> final_status (r_status r)" using t by (simp add: final_terminal)
  show ?thesis
  proof (cases c)
    case (Fail reason outp)
    then have "life r' = (''failed'', r_generation r)" using c by (auto simp: fail_run_def Let_def life_def split: if_splits)
    then show ?thesis using nf Fail by (simp add: life_def life_move.Failing)
  next
    case Confirm_Stop
    then show ?thesis using c by (auto simp: confirm_builtin_stop_def Let_def life_def life_move.Stop_Confirmed split: if_splits)
  next
    case (Lose_Executor seen)
    then show ?thesis using c by (auto simp: lose_executor_def Let_def rbind_eq_Inr life_def split: sum.splits if_splits)
  next
    case (Drop_Controls stale)
    then show ?thesis using c by (auto simp: drop_controls_def Let_def life_def)
  next
    case (Authority seen reason)
    then show ?thesis using c authority_moves [OF ok t] by simp
  next
    case Unconfirmed_Stop
    then show ?thesis using c by (auto simp: unconfirmed_stop_def life_def split: if_splits)
  next
    case (Delivered g v)
    then show ?thesis using c by (auto simp: mark_delivered_def life_def split: if_splits)
  next
    case (Undeliverable g reason)
    then have "request_run_stop env reason r db = Inr (r', db')" using c by (auto simp: undeliverable_def split: if_splits)
    then show ?thesis using stop_moves t Undeliverable by simp
  next
    case (Commit msg)
    then show ?thesis using c nf by (auto simp: commit_output_def life_def life_move.Published)
  next
    case (Commit_Personal fence)
    then show ?thesis using c nf by (auto simp: commit_personal_def rbind_eq_Inr life_def life_move.Published)
  next
    case (Prepare_Call tool arguments key expires gen input)
    then show ?thesis using c prepare_moves [OF ok] by simp
  next
    case (Share_Call u a)
    then have "r' = r" using c by (auto elim: share_confirmation_cases)
    then show ?thesis by simp
  qed
qed

lemma facts_moves:
  assumes "run_row_ok r" and "facts_fn env c r db = Inr (r', db')"
  shows "life r' = life r \<or> life_move Outcome_Unknown (life r) (life r')"
  using assms recovery_moves outcome_moves by (cases c) auto

lemma confirm_moves:
  assumes "confirm_stop u r = Inr r'" and "stop_confirmation u" and ok: "run_row_ok r" and t: "\<not> terminal_run r"
  shows "life r' = life r \<or> life_move (Reported (eu_status u)) (life r) (life r')"
proof (cases "r_status r = ''waiting_authorization''")
  case True
  then show ?thesis using assms(1) by (auto simp: confirm_stop_def Let_def life_def split: if_splits)
next
  case False
  then have "active_status (r_status r) \<or> r_status r = ''stopping''" using living_cases [OF ok t] by blast
  then show ?thesis using assms(1,2) False
    by (auto simp: confirm_stop_def Let_def life_def stop_confirmation_def life_move.Stopped life_move.Stop_Rejected split: if_splits)
qed

lemma business_moves:
  assumes ok: "run_row_ok r" and t: "\<not> terminal_run r" and ty: "eu_type u = ''run.update''" and u: "decoded u"
    and b: "business_update env u r db = Inr (r', db')"
  shows "life r' = life r \<or> life_move (Reported (eu_status u)) (life r) (life r')"
proof (cases "stop_confirmation u")
  case True
  let ?r1 = "r\<lparr>r_sequence := eu_sequence u\<rparr>"
  have "confirm_stop u ?r1 = Inr r'" using b True by (auto simp: business_update_def rbind_eq_Inr Let_def)
  moreover have "run_row_ok ?r1" "\<not> terminal_run ?r1" "life ?r1 = life r" using ok t by (simp_all add: terminal_run_def life_def)
  ultimately show ?thesis using confirm_moves [OF _ True] by metis
next
  case False
  have g: "update_guard u r = Inr ()" using b by (auto simp: business_update_def rbind_eq_Inr)
  have st: "eu_status u \<in> {''running'', ''waiting_input'', ''failed'', ''completed''}"
    using u ty False by (auto simp: decoded_def update_statuses_def stop_confirmation_def)
  have s: "r_status r = ''stopping'' \<longrightarrow> eu_status u \<in> {''failed'', ''completed''}" "r_status r \<noteq> ''waiting_authorization''"
    "r_status r = ''waiting_input'' \<longrightarrow> eu_status u \<in> {''waiting_input'', ''failed''}"
    using g False st by (auto simp: update_guard_def split: if_splits)
  have l: "life r' = (if eu_status u = ''completed'' then ''running'' else eu_status u, r_generation r)"
    using b False
    by (auto simp: business_update_def complete_update_def rbind_eq_Inr Let_def life_def split: if_splits)
  have w: "active_status (r_status r) \<or> r_status r = ''stopping''" using living_cases [OF ok t] s(2) by blast
  from st consider "eu_status u = ''running''" | "eu_status u = ''waiting_input''" | "eu_status u = ''failed''" | "eu_status u = ''completed''"
    by blast
  then have "life_move (Reported (eu_status u)) (r_status r, r_generation r) (life r')"
  proof cases
    case 1
    then show ?thesis using w s l by (auto simp: active_status_def intro!: life_move.Progress)
  next
    case 2
    then show ?thesis using w s l by (auto intro!: life_move.Question)
  next
    case 3
    then show ?thesis using w l by (auto intro!: life_move.Failure)
  next
    case 4
    then show ?thesis using w s l by (auto simp: active_status_def intro!: life_move.Completion)
  qed
  then show ?thesis by (simp add: life_def)
qed

lemma executor_moves:
  assumes ok: "run_row_ok r" and t: "\<not> terminal_run r" and u: "decoded u" and b: "executor_apply env u r db = Inr (r', db')"
  shows "life r' = life r \<or> life_move (executor_event u) (life r) (life r')"
proof -
  define s where "s = (if eu_type u \<noteq> ''run.delivery_ack'' \<and> \<not> stop_confirmation u then r\<lparr>r_lease := Some (now env + minute)\<rparr> else r)"
  have s: "run_row_ok s" "\<not> terminal_run s" "life s = life r" using ok t by (auto simp: s_def terminal_run_def life_def)
  note b = b [unfolded executor_apply_def Let_def s_def [symmetric]]
  consider "eu_type u = ''run.claim''" | "eu_type u = ''run.update''" | "eu_type u \<notin> {''run.claim'', ''run.update''}" by blast
  then show ?thesis
  proof cases
    case 1
    then have "r_status s \<noteq> ''stopping''" "r_status s \<noteq> ''waiting_authorization''" "life r' = (''running'', r_generation s)"
      using b by (auto simp: life_def split: if_splits)
    moreover have "active_status (r_status s)" using living_cases [OF s(1,2)] calculation(1,2) by blast
    ultimately show ?thesis using s(3) 1 life_move.Executor_Claimed [of "r_status s" "r_generation s"]
      by (simp add: executor_event_def life_def)
  next
    case 2
    then have "business_update env u s db = Inr (r', db')" using b by simp
    from business_moves [OF s(1,2) 2 u this] show ?thesis using s(3) 2 by (simp add: executor_event_def)
  next
    case 3
    then have "life r' = life s" using b by (auto simp: life_def split: if_splits)
    then show ?thesis using s(3) by simp
  qed
qed

end
