(* ===== verification/Run_Life.thy ===== *)
theory Run_Life
  imports Run_Moves
begin

text \<open>
  The state machine of a run, transaction by transaction: the moves of a user's commands, the transactions that move
  no run, and the theorem that every transaction of the engine follows the edges of its own event.
\<close>

section \<open>Commands of a user\<close>

lemma take_over_moves:
  assumes "take_over env u r db = Inr (r', db')"
  shows "life r' = life r \<or> life_move Taken_Over (life r) (life r')"
proof (cases "r_status r = ''waiting_authorization''")
  case False
  then show ?thesis using assms by (auto simp: take_over_def rbind_eq_Inr Let_def life_def)
next
  case True
  then have "r_status r' = ''accepted'' \<and> r_generation r' \<in> {r_generation r, r_generation r + 1}"
    using assms by (auto simp: take_over_def rbind_eq_Inr Let_def split: if_splits)
  then show ?thesis using True life_move.Taken_Over [of "r_generation r'" "r_generation r"] by (simp add: life_def)
qed

lemma insert_input_runs: "insert_input i db = Inr d \<Longrightarrow> b_runs d = b_runs db"
  by (auto simp: insert_input_def split: if_splits)

lemma take_input_moves:
  assumes "take_input env u c ms sources r db = Inr (r', db')"
  shows "b_runs db' = b_runs db" and "life r' = life r \<or> life_move Input_Taken (life r) (life r')"
proof -
  define v where "v = r_input_version r + 1"
  define taken where "taken r2 = (let r3 = r2\<lparr>r_provenance := r_provenance r2 @ material_provenance ms,
                       r_materials := r_materials r2 @ ms, r_sources := r_sources r2 @ sources\<rparr>
      in if r_status r = ''waiting_input''
         then r3\<lparr>r_status := ''running'', r_stage := ''input_received'', r_waiting := []\<rparr> else r3)" for r2 :: run
  obtain r1 db1 x n where r1: "r1 = r\<lparr>r_input_version := v, r_inputs := x\<rparr>" and db1: "db1 = snd (bot_id env db)"
    and k: "rbind (reserve_delegation_input db1 r1 n) (\<lambda>r2.
      rbind (check_accepted_messages db1 r2 ms) (\<lambda>_.
      rbind (insert_input \<lparr>in_id = fst (bot_id env db), in_run = r_id r2, in_version = v, in_requester = u,
               in_source_message = cc_source c, in_edit_count = accepted_edit_count (cc_source c) ms,
               in_provenance = material_provenance ms, in_invalidated = False, in_key = cc_key c,
               in_content = cc_message c, in_hash = control_digest env c, in_materials = ms, in_sources = sources,
               in_created = now env\<rparr> db1) (\<lambda>db2.
        wake_executor env ''input'' (r_status r = ''waiting_input'') (taken r2) db2))) = Inr (r', db')"
    using guardD [OF assms [unfolded take_input_def]] unfolding Let_def case_prod_beta v_def taken_def by blast
  obtain r2 db2 where r2: "reserve_delegation_input db1 r1 n = Inr r2" and i: "b_runs db2 = b_runs db1"
    and w: "wake_executor env ''input'' (r_status r = ''waiting_input'') (taken r2) db2 = Inr (r', db')"
    using k
  proof (elim rbindE, goal_cases)
    case (1 x2 u d)
    then have "b_runs d = b_runs db1" using insert_input_runs by blast
    then show ?case using 1 that by blast
  qed
  obtain b where b: "r2 = r1\<lparr>r_deleg_input := b\<rparr>" using reserve_input_row [OF r2] by blast
  show "b_runs db' = b_runs db" using w i db1 by (auto simp: wake_executor_def Let_def split: if_splits)
  have "life r' = life (taken r2)" by (rule wake_life [OF w])
  then show "life r' = life r \<or> life_move Input_Taken (life r) (life r')"
    by (cases "r_status r = ''waiting_input''") (simp_all add: taken_def Let_def b r1 life_def life_move.Input_Taken)
qed

lemma resume_moves:
  assumes "resume_run env r db = Inr (r', db')"
  shows "life_move Resumed (life r) (life r')"
proof -
  have a: "active_status (r_status r)"
    using assms by (auto simp: resume_run_def active_status_def split: if_splits)
  have "life r' = (''accepted'', r_generation r + 1)"
    using wake_life [OF guardD [OF assms [unfolded resume_run_def]]] by (simp add: life_def)
  then show ?thesis using life_move.Resumed [OF a] by (simp add: life_def)
qed

lemma request_run_stop_frame:
  assumes "request_run_stop env reason r db = Inr (r', db')"
  shows "b_runs db' = b_runs db \<and> r_id r' = r_id r"
  using assms by (auto simp: request_run_stop_def Let_def split: option.splits if_splits)

lemma stop_run_moves:
  assumes inv: "engine_inv db" and s: "stop_run env r db = Inr (r', db')"
  shows "r_id r' = r_id r \<and> rows_move (\<lambda>x. descends db (r_id r) (r_id x)) Stop_Asked db db' \<and>
     (life r' = life r \<or> life_move Stop_Asked (life r) (life r'))"
proof -
  obtain db1 where d: "request_delegated_stops env (stop_tree_depth db) (r_id r) db = Inr db1"
    and e: "(if terminal_run r then Inr (r\<lparr>r_stop_reason := ''user_requested''\<rparr>, db1)
     else if \<not> ec_stop (r_caps r)
     then Inr (r\<lparr>r_stop_status := ''rejected'', r_stop_reason := ''user_requested''\<rparr>, db1)
     else request_run_stop env ''user_requested'' r db1) = Inr (r', db')"
    by (rule rbindE [OF s [unfolded stop_run_def]])
  note m = stops_move [OF inv d]
  show ?thesis
  proof (cases "terminal_run r \<or> \<not> ec_stop (r_caps r)")
    case True
    then have "life r' = life r" "r_id r' = r_id r" "db' = db1" using e by (auto simp: life_def split: if_splits)
    then show ?thesis using m by simp
  next
    case False
    then have q: "request_run_stop env ''user_requested'' r db1 = Inr (r', db')" using e by simp
    have "b_runs db' = b_runs db1 \<and> r_id r' = r_id r \<and> (life r' = life r \<or> life_move Stop_Asked (life r) (life r'))"
      using request_run_stop_frame [OF q] stop_moves [OF q] False by blast
    then show ?thesis using m rows_move_cong [of db' db1] by blast
  qed
qed

text \<open>The branch of a command, behind its guards.\<close>

definition control_branch ::
  "bot_env \<Rightarrow> string \<Rightarrow> control_command \<Rightarrow> material list \<Rightarrow> json list \<Rightarrow> run_step_fn" where
  "control_branch env u c ms sources r db =
    (if cc_op c = ''grant_control'' then grant_control c r db
     else if cc_op c = ''revoke_control'' then revoke_control c r db
     else if cc_op c = ''takeover'' then take_over env u r db
     else if cc_op c = ''input'' then take_input env u c ms sources r db
     else if cc_op c = ''stop'' then stop_run env r db
     else if cc_op c = ''resume'' then resume_run env r db
     else wake_executor env (cc_op c) (r_status r = ''waiting_input'') r db)"

lemma control_apply_branch:
  assumes "control_apply env u c ms sources r db = Inr (r1, db1)"
  shows "control_branch env u c ms sources r db = Inr (r1, db1)"
  using assms unfolding control_apply_def control_branch_def
  by (elim rbindE) (rule guardD [OF guardD [OF guardD [OF guardD]]])

text \<open>The rows a command may move: its run, and for a stop the runs delegated below it.\<close>

abbreviation commanded :: "bot_db \<Rightarrow> run \<Rightarrow> control_command \<Rightarrow> run \<Rightarrow> bool" where
  "commanded db checked c r \<equiv> r_id r = r_id checked \<or> (cc_op c = ''stop'' \<and> descends db (r_id checked) (r_id r))"

lemma command_moves:
  assumes "cc_op c \<noteq> ''stop''" and "control_branch env u c ms sources r db = Inr (r1, db1)"
  shows "life r1 = life r \<or> life_move (control_event c) (life r) (life r1)"
proof -
  note b = assms(2) [unfolded control_branch_def] and e = control_event_def [of c]
  consider "cc_op c = ''grant_control''" | "cc_op c = ''revoke_control''" | "cc_op c = ''takeover''" | "cc_op c = ''input''"
    | "cc_op c = ''resume''" | "cc_op c \<notin> {''grant_control'', ''revoke_control'', ''takeover'', ''input'', ''stop'', ''resume''}"
    using assms(1) by blast
  then show ?thesis
  proof cases
    case 1
    then have "grant_control c r db = Inr (r1, db1)" using b by simp
    then show ?thesis by (auto simp: grant_control_def rbind_eq_Inr Let_def life_def split: if_splits)
  next
    case 2
    then have "revoke_control c r db = Inr (r1, db1)" using b by simp
    then show ?thesis by (auto simp: revoke_control_def rbind_eq_Inr life_def)
  next
    case 3
    then have "take_over env u r db = Inr (r1, db1)" "control_event c = Taken_Over" using b e by simp_all
    then show ?thesis using take_over_moves by simp
  next
    case 4
    then have "take_input env u c ms sources r db = Inr (r1, db1)" "control_event c = Input_Taken" using b e by simp_all
    then show ?thesis using take_input_moves(2) by simp
  next
    case 5
    then have "resume_run env r db = Inr (r1, db1)" "control_event c = Resumed" using b e by simp_all
    then show ?thesis using resume_moves by simp
  next
    case 6
    then have "wake_executor env (cc_op c) (r_status r = ''waiting_input'') r db = Inr (r1, db1)" using b by simp
    then show ?thesis using wake_life by simp
  qed
qed

lemma command_frame:
  assumes "cc_op c \<noteq> ''stop''" and "control_branch env u c ms sources r db = Inr (r1, db1)"
    and inv: "engine_inv db" and rr: "find_run db (r_id r) = Some r"
  shows "r_id r1 = r_id r \<and> b_runs db1 = b_runs db"
proof (cases "cc_op c = ''input''")
  case True
  then have i: "take_input env u c ms sources r db = Inr (r1, db1)" using assms(2) by (simp add: control_branch_def)
  have t: "\<not> terminal_run r" using i by (auto simp: take_input_def terminal_run_def split: if_splits)
  have "key_of r1 = key_of r" using take_input_lawful [OF inv rr t i] unfolding lawful_step_def by blast
  then show ?thesis using take_input_moves(1) [OF i] key_of_id by blast
next
  case False
  then have "local_step r r1 db db1"
    using assms(1,2) grant_control_local revoke_control_local take_over_local resume_run_local wake_executor_local
    unfolding control_branch_def by (auto split: if_split_asm)
  then show ?thesis using local_own by blast
qed

lemma control_moves:
  assumes inv: "engine_inv db" and r: "find_run db (r_id checked) = Some r"
  shows "callback_moves (commanded db checked c) (control_event c) db r (control_apply env u c ms sources)"
  unfolding callback_moves_def
proof (intro allI impI)
  fix r1 db1 assume s: "control_apply env u c ms sources r db = Inr (r1, db1)"
  have id: "r_id r = r_id checked" by (rule find_run_id [OF r])
  have rr: "find_run db (r_id r) = Some r" using r id by simp
  have b: "control_branch env u c ms sources r db = Inr (r1, db1)" by (rule control_apply_branch [OF s])
  show "r_id r1 = r_id r \<and> rows_move (commanded db checked c) (control_event c) db db1 \<and>
     (life r1 = life r \<or> (commanded db checked c r \<and> life_move (control_event c) (life r) (life r1)))"
  proof (cases "cc_op c = ''stop''")
    case True
    then have "stop_run env r db = Inr (r1, db1)" using b by (simp add: control_branch_def)
    note m = stop_run_moves [OF inv this, unfolded id]
    have e: "control_event c = Stop_Asked" using True by (simp add: control_event_def)
    have "rows_move (commanded db checked c) Stop_Asked db db1"
      using m by (elim conjE rows_move_mono) (simp add: True)
    then show ?thesis using m id unfolding e by simp
  next
    case False
    note f = command_frame [OF False b inv rr]
    have "rows_move (commanded db checked c) (control_event c) db db1" using f by (intro rows_move_same) blast
    then show ?thesis using f command_moves [OF False b] id by blast
  qed
qed

section \<open>Transactions that move no run\<close>

abbreviation rows_still :: "bot_db \<Rightarrow> bot_db \<Rightarrow> bool" where
  "rows_still \<equiv> rows_move (\<lambda>r. False) Quiet"

lemma still_moves: "rows_still db db' \<Longrightarrow> rows_move Q e db db'"
  unfolding rows_move_def by blast

lemma still_trans: "rows_still a b \<Longrightarrow> runs_next a b \<Longrightarrow> rows_still b c \<Longrightarrow> rows_still a c"
  unfolding rows_move_def by (metis runs_nextD)

lemma still_put:
  assumes "find_run db (r_id r) = Some r" and "r_id r1 = r_id r" and "life r1 = life r"
  shows "rows_still db (put_run r1 db)"
  using rows_move_put [OF rows_move_same assms(1,2)] assms(3) by simp

lemma close_all_still:
  assumes "engine_inv db" "distinct (map r_id rs)" "\<forall>r\<in>set rs. find_run db (r_id r) = Some r" "rfold (close_one env) rs db = Inr db'"
  shows "rows_still db db'"
  using assms
proof (induction rs arbitrary: db)
  case Nil
  then show ?case by (simp add: rows_move_same)
next
  case (Cons r rs)
  obtain d where d: "close_one env r db = Inr d" and rest: "rfold (close_one env) rs d = Inr db'"
    using Cons.prems(4) by (auto simp: rbind_eq_Inr)
  have f: "find_run db (r_id r) = Some r" using Cons.prems(3) by simp
  note one = close_one_step [OF Cons.prems(1) f d]
  have "rows_still db d"
    using d still_put [OF f, of "r\<lparr>r_interaction_status := ''closed'', r_updated := now env, r_version := r_version r + 1\<rparr>"]
    by (auto simp: close_one_def Let_def rbind_eq_Inr life_def dest!: save_run_Inr)
  moreover have "\<forall>x\<in>set rs. find_run d (r_id x) = Some x"
    using Cons.prems(2,3) one(2) by (auto simp: image_iff)
  then have "rows_still d db'" using Cons.IH [OF _ _ _ rest] one(1) Cons.prems(2) by (simp add: engine_next_def)
  ultimately show ?case using still_trans one(1) by (auto simp: engine_next_def)
qed

lemma close_still:
  assumes inv: "engine_inv db" and c: "close_interaction env checked key digest u db = Inr (p, db')"
  shows "rows_still db db'"
proof -
  obtain target where t: "find_run db (r_id checked) = Some target"
    using c by (auto simp: close_interaction_def rbind_eq_Inr split: option.splits)
  obtain ia where i: "find (\<lambda>i. ia_id i = r_interaction target) (b_interactions db) = Some ia"
    using c t by (auto simp: close_interaction_def rbind_eq_Inr split: option.splits)
  let ?d = "db\<lparr>b_interactions := update_where (\<lambda>i. ia_id i = ia_id ia)
               (\<lambda>i. i\<lparr>ia_status := ''closed'', ia_closed := Some (now env)\<rparr>) (b_interactions db)\<rparr>"
  have "db' = db \<or> (\<exists>db1. (if ia_status ia \<noteq> ''closed'' then rfold (close_one env) (interaction_runs db (ia_id ia)) ?d
      else Inr db) = Inr db1 \<and> put_receipt env (r_id checked) key digest db1 = Inr db')"
    using c by (auto simp: close_interaction_def t i rbind_eq_Inr split: option.splits if_split_asm)
  then show ?thesis
  proof (elim disjE exE conjE)
    assume "db' = db" then show ?thesis by (simp add: rows_move_same)
  next
    fix db1
    assume f: "(if ia_status ia \<noteq> ''closed'' then rfold (close_one env) (interaction_runs db (ia_id ia)) ?d else Inr db) = Inr db1"
      and p: "put_receipt env (r_id checked) key digest db1 = Inr db'"
    have "rows_still db db1"
    proof (cases "ia_status ia = ''closed''")
      case True
      then show ?thesis using f by (simp add: rows_move_same)
    next
      case False
      have "engine_inv ?d" using engine_inv_frame [of ?d db] inv by simp
      moreover have "distinct (map r_id (interaction_runs db (ia_id ia)))" unfolding interaction_runs_def
        using inv by (intro distinct_sort_by) (simp add: engine_inv_def distinct_map_filter)
      moreover have "\<forall>r\<in>set (interaction_runs db (ia_id ia)). find_run ?d (r_id r) = Some r"
        using find_run_member [OF inv] by (auto simp: interaction_runs_def find_run_def)
      ultimately have "rows_still ?d db1" using close_all_still f False by simp
      then show ?thesis by (simp add: rows_move_def find_run_def)
    qed
    then show ?thesis by (simp add: rows_move_cong [OF put_receipt_frame(1) [OF p]])
  qed
qed

lemma store_still:
  assumes s: "store_run env x input d0 = Inr d" and st: "rows_still db d0" and n: "runs_next db d0"
  shows "rows_still db d"
proof -
  have f: "find_run d i = Some y" if "find_run d0 i = Some y" for i y
    using s that unfolding store_run_def case_prod_beta Let_def
    by (elim rbindE) (auto simp: insert_interaction_def insert_run_def insert_input_def bot_id_def find_run_def find_append
        split: if_splits)
  show ?thesis unfolding rows_move_def
  proof (intro allI impI)
    fix i y y' assume y: "find_run db i = Some y" "find_run d i = Some y'"
    obtain z where z: "find_run d0 i = Some z" using runs_nextD [OF n y(1)] by blast
    then show "life y' = life y \<or> (False \<and> life_move Quiet (life y) (life y'))"
      using f [OF z] y rows_moveD [OF st y(1) z] by simp
  qed
qed

lemma parent_still:
  assumes ad: "accept_delegation env r p db = Inr (r1, db1)"
  shows "rows_still db db1"
proof -
  obtain up where up: "find_run db p = Some up" using ad by (auto simp: accept_delegation_def split: option.splits)
  define up' where "up' = up\<lparr>r_children := r_children up @ [r_id r], r_version := r_version up + 1, r_updated := now env\<rparr>"
  have "\<exists>d. save_run up' db = Inr d \<and> db1 = queue_run env up' ''updated'' d"
    using ad unfolding accept_delegation_def up option.case Let_def up'_def
    by (auto simp: rbind_eq_Inr split: option.splits if_splits)
  then obtain d where d: "save_run up' db = Inr d" "db1 = queue_run env up' ''updated'' d" by blast
  have "find_run db (r_id up) = Some up" using up find_run_id [OF up] by simp
  then have "rows_still db (put_run up' db)" by (rule still_put) (simp_all add: up'_def life_def)
  then show ?thesis using save_run_Inr [OF d(1)] d(2) by simp
qed

lemma accept_still:
  assumes inv: "engine_inv db" and a: "accept_run env r input ms db = Inr (r', db')"
  shows "rows_still db db'"
proof -
  have "db' = db \<or> (\<exists>r1 db1. (case r_deleg_parent r of None \<Rightarrow> Inr (r, db) | Some p \<Rightarrow> accept_delegation env r p db) = Inr (r1, db1) \<and>
      store_run env r1 input db1 = Inr db')"
    using a unfolding accept_run_def by (auto simp: rbind_eq_Inr split: option.splits)
  then show ?thesis
  proof (elim disjE exE conjE)
    assume "db' = db" then show ?thesis by (simp add: rows_move_same)
  next
    fix r1 db1
    assume d: "(case r_deleg_parent r of None \<Rightarrow> Inr (r, db) | Some p \<Rightarrow> accept_delegation env r p db) = Inr (r1, db1)"
      and s: "store_run env r1 input db1 = Inr db'"
    have "rows_still db db1 \<and> runs_next db db1"
    proof (cases "r_deleg_parent r")
      case None
      then show ?thesis using d by (simp add: rows_move_same runs_next_same)
    next
      case (Some p)
      then have ad: "accept_delegation env r p db = Inr (r1, db1)" using d by simp
      have "runs_next db db1" using accept_delegation_step(1) [OF inv ad] unfolding engine_next_def by blast
      then show ?thesis using parent_still [OF ad] by blast
    qed
    then show ?thesis using store_still [OF s] by blast
  qed
qed

lemma claim_moves:
  assumes "claim env kinds db = Inr (w, db')"
  shows "rows_move (claimable env db kinds) Taken db db'"
  using assms
proof (cases rule: claim_cases)
  case (plain v)
  then show ?thesis by (simp add: put_item_def bot_id_def rows_move_same)
next
  case (execute v r db1)
  have id: "r_id r = w_run v" using execute(4) by (rule find_run_id)
  then have f: "find_run db (r_id r) = Some r" using execute(4) by simp
  have q: "claimable env db kinds r" using execute(1-3) id unfolding claimable_def by auto
  define g where "g = begin_generation env r"
  have g: "r_id g = r_id r" "life g = (r_status r, r_generation r + 1)" by (simp_all add: g_def begin_generation_def life_def)
  have d: "db1 = put_run g (snd (bot_id env db))" using save_run_Inr [OF execute(6)] by (simp add: g_def)
  have "life_move Taken (life r) (life g)"
    using execute(5) life_move.Taken [of "r_status r" "r_generation r"] unfolding g(2) by (simp add: executable_def life_def)
  then have "rows_move (claimable env db kinds) Taken db db1" unfolding d
    by (intro rows_move_put [OF rows_move_same f g(1)]) (simp_all add: q)
  then show ?thesis using execute(8) by (simp add: put_item_def rows_move_def find_run_def queue_run_def put_work_def bot_id_def Let_def)
qed

lemma settled_moves:
  assumes "settle_decision env u q a r db = Inr (r', db')"
  shows "life r' = life r \<or> life_move Decided (life r) (life r')"
  using assms
proof (cases rule: settle_decision_cases)
  case (decided a1)
  from decided(3) show ?thesis by (auto simp: life_def life_move.Decided)
qed simp

lemma decide_moves:
  assumes inv: "engine_inv db" and c: "decide_once env checked i u q tool digest db = Inr (a', db2)"
  shows "rows_move (\<lambda>r. r_id r = r_id checked) Decided db db2"
  using c
proof (cases rule: decide_once_cases)
  case (1 r a)
  have id: "r_id r = r_id checked" and f: "find_run db (r_id r) = Some r" using 1(1) find_run_id by metis+
  from 1(4) show ?thesis
  proof (elim disjE exE conjE)
    assume "db2 = db" then show ?thesis by (simp add: rows_move_same)
  next
    fix r1 db1 r2 db3
    assume t: "\<not> terminal_run r" and d: "decide_action env u q tool a r db = Inr (r1, db1)"
      and k: "commit_run env (r_stage r) r1 db1 = Inr (r2, db3)"
      and p: "put_receipt env (r_id checked) (decision_key u q) digest db3 = Inr db2"
    note same = local_own [OF decide_action_local [OF engine_row_ok [OF inv 1(1)] d]]
    have "life r1 = life r \<or> (r_id r = r_id checked \<and> life_move Decided (life r) (life r1))"
      using settled_moves [OF decide_action_settles(1) [OF d]] id by blast
    from commit_move [where Q = "\<lambda>r. r_id r = r_id checked", OF rows_move_same [OF same(2)] f same(1) this k]
    have "rows_move (\<lambda>r. r_id r = r_id checked) Decided db db3" .
    then show ?thesis by (simp add: rows_move_cong [OF put_receipt_frame(1) [OF p]])
  qed
qed

section \<open>The transactions of the engine\<close>

lemma callback_local:
  assumes "\<And>r1 db1. fn r db = Inr (r1, db1) \<Longrightarrow> local_step r r1 db db1" and "Q r"
    and "\<And>r1 db1. fn r db = Inr (r1, db1) \<Longrightarrow> life r1 = life r \<or> life_move e (life r) (life r1)"
  shows "callback_moves Q e db r fn"
  using assms by (intro local_moves) blast+

lemma change_transaction_moves:
  assumes inv: "engine_inv db"
  shows "change_run env prior gen (worker_fn env w) db = Inr (x, db') \<Longrightarrow> rows_move (\<lambda>r. r_id r = r_id prior) (worker_event w) db db'"
    and "change_lifecycle env prior gen (lifecycle_fn env l) db = Inr (x, db') \<Longrightarrow>
       rows_move (\<lambda>r. r_id r = r_id prior) (lifecycle_event l) db db'"
    and "change_action_facts env prior (facts_fn env f) db = Inr (x, db') \<Longrightarrow>
       rows_move (\<lambda>r. r_id r = r_id prior) Outcome_Unknown db db'"
proof -
  assume c: "change_run env prior gen (worker_fn env w) db = Inr (x, db')"
  show "rows_move (\<lambda>r. r_id r = r_id prior) (worker_event w) db db'"
  proof (rule change_moves [OF inv c [unfolded change_run_def]])
    fix r assume r: "find_run db (r_id prior) = Some r" "run_row_ok r" "terminal_run r \<longrightarrow> False"
      "True \<longrightarrow> active_status (r_status r) \<or> terminal_run r"
    then have a: "active_status (r_status r)" by blast
    show "callback_moves (\<lambda>r. r_id r = r_id prior) (worker_event w) db r (worker_fn env w)"
      by (rule callback_local) (rule worker_fn_local [OF r(2) a] find_run_id [OF r(1)] worker_moves [OF r(2) a], assumption?)+
  qed
next
  assume c: "change_lifecycle env prior gen (lifecycle_fn env l) db = Inr (x, db')"
  show "rows_move (\<lambda>r. r_id r = r_id prior) (lifecycle_event l) db db'"
  proof (rule change_moves [OF inv c [unfolded change_lifecycle_def]])
    fix r assume r: "find_run db (r_id prior) = Some r" "run_row_ok r" "terminal_run r \<longrightarrow> False"
    then have t: "\<not> terminal_run r" by blast
    show "callback_moves (\<lambda>r. r_id r = r_id prior) (lifecycle_event l) db r (lifecycle_fn env l)"
      by (rule callback_local) (rule lifecycle_fn_local [OF r(2) t] find_run_id [OF r(1)] lifecycle_moves [OF r(2) t], assumption?)+
  qed
next
  assume c: "change_action_facts env prior (facts_fn env f) db = Inr (x, db')"
  show "rows_move (\<lambda>r. r_id r = r_id prior) Outcome_Unknown db db'"
  proof (rule change_moves [OF inv c [unfolded change_action_facts_def]])
    fix r assume r: "find_run db (r_id prior) = Some r" "run_row_ok r"
    show "callback_moves (\<lambda>r. r_id r = r_id prior) Outcome_Unknown db r (facts_fn env f)"
      by (rule callback_local) (rule facts_fn_local [OF r(2)] find_run_id [OF r(1)] facts_moves [OF r(2)], assumption?)+
  qed
qed

lemma report_transaction_moves:
  assumes inv: "engine_inv db"
  shows "decoded u \<Longrightarrow> report_once env checked key digest (executor_authority u) (executor_apply env u) db = Inr (p, db') \<Longrightarrow>
       rows_move (\<lambda>r. r_id r = r_id checked) (executor_event u) db db'"
    and "report_once env checked key digest (control_authority user c) (control_apply env user c ms sources) db = Inr (p, db') \<Longrightarrow>
       rows_move (commanded db checked c) (control_event c) db db'"
proof -
  assume u: "decoded u" and c: "report_once env checked key digest (executor_authority u) (executor_apply env u) db = Inr (p, db')"
  show "rows_move (\<lambda>r. r_id r = r_id checked) (executor_event u) db db'"
  proof (rule report_moves [OF inv c])
    fix r assume r: "find_run db (r_id checked) = Some r" "run_row_ok r" "terminal_run r \<longrightarrow> au_stop_tree (executor_authority u)"
    then have t: "\<not> terminal_run r" using executor_authority_tree by blast
    show "callback_moves (\<lambda>r. r_id r = r_id checked) (executor_event u) db r (executor_apply env u)"
      by (rule callback_local) (rule executor_apply_local [OF r(2) t u] find_run_id [OF r(1)] executor_moves [OF r(2) t u], assumption?)+
  qed
next
  assume c: "report_once env checked key digest (control_authority user c) (control_apply env user c ms sources) db = Inr (p, db')"
  show "rows_move (commanded db checked c) (control_event c) db db'"
    by (rule report_moves [OF inv c]) (rule control_moves [OF inv])
qed

lemma transaction_moves:
  assumes inv: "engine_inv db" and o: "engine_op_ok op" and r: "run_engine env op db = Inr db'"
  shows "rows_move (concerns env db op) (event_of op) db db'"
proof -
  have q: "rows_still db db' \<Longrightarrow> ?thesis" by (rule still_moves)
  note m = change_transaction_moves [OF inv] report_transaction_moves [OF inv]
  show ?thesis
  proof (cases op)
    case (Accept x input ms)
    then obtain y where "accept_run env x input ms db = Inr (y, db')" using r by (auto simp: map_sum_snd_Inr)
    then show ?thesis by (rule q [OF accept_still [OF inv]])
  next
    case (Claim kinds)
    then obtain w where "claim env kinds db = Inr (w, db')" using r by (auto simp: map_sum_snd_Inr)
    from claim_moves [OF this] show ?thesis unfolding Claim event_of.simps by (rule rows_move_mono) simp
  next
    case (Renew item)
    then have "renew env item db = Inr db'" using r by simp
    then have "b_runs db' = b_runs db" by (auto simp: renew_def split: if_splits)
    then show ?thesis by (rule rows_move_same)
  next
    case (Complete item)
    then have "b_runs db' = b_runs db" using r by (auto simp: complete_work_def)
    then show ?thesis by (rule rows_move_same)
  next
    case (Retry item)
    then have "b_runs db' = b_runs db" using r by (auto simp: retry_work_def)
    then show ?thesis by (rule rows_move_same)
  next
    case (Work prior gen c)
    then obtain x where "change_run env prior gen (worker_fn env c) db = Inr (x, db')" using r by (auto simp: map_sum_snd_Inr)
    from m(1) [OF this] show ?thesis unfolding Work event_of.simps by (rule rows_move_mono) simp
  next
    case (Lifecycle prior gen c)
    then obtain x where "change_lifecycle env prior gen (lifecycle_fn env c) db = Inr (x, db')" using r by (auto simp: map_sum_snd_Inr)
    from m(2) [OF this] show ?thesis unfolding Lifecycle event_of.simps by (rule rows_move_mono) simp
  next
    case (Facts prior c)
    then obtain x where "change_action_facts env prior (facts_fn env c) db = Inr (x, db')" using r by (auto simp: map_sum_snd_Inr)
    from m(3) [OF this] show ?thesis unfolding Facts event_of.simps by (rule rows_move_mono) simp
  next
    case (Executor checked key digest u)
    then obtain p where "report_once env checked key digest (executor_authority u) (executor_apply env u) db = Inr (p, db')"
      using r by (auto simp: map_sum_snd_Inr)
    from m(4) [OF _ this] o have "rows_move (\<lambda>r. r_id r = r_id checked) (executor_event u) db db'" unfolding Executor by simp
    then show ?thesis unfolding Executor event_of.simps by (rule rows_move_mono) simp
  next
    case (Control checked key digest user c ms sources)
    then obtain p where "report_once env checked key digest (control_authority user c) (control_apply env user c ms sources) db = Inr (p, db')"
      using r by (auto simp: map_sum_snd_Inr)
    from m(5) [OF this] show ?thesis unfolding Control event_of.simps by (rule rows_move_mono) simp
  next
    case (Close checked key digest user)
    then obtain p where "close_interaction env checked key digest user db = Inr (p, db')" using r by (auto simp: map_sum_snd_Inr)
    then show ?thesis by (rule q [OF close_still [OF inv]])
  next
    case (Decide checked i user q tool digest)
    then obtain a where "decide_once env checked i user q tool digest db = Inr (a, db')" using r by (auto simp: map_sum_snd_Inr)
    from decide_moves [OF inv this] show ?thesis unfolding Decide event_of.simps by (rule rows_move_mono) simp
  next
    case (Permit user q tool)
    then obtain g where "insert_action_grant env user q tool db = Inr (g, db')" using r by (auto simp: map_sum_snd_Inr)
    then show ?thesis by (rule rows_move_same [OF insert_action_grant_frame(1)])
  next
    case (Withdraw user i)
    then obtain g where "revoke_action_grant env user i db = Inr (g, db')" using r by (auto simp: map_sum_snd_Inr)
    then show ?thesis by (rule rows_move_same [OF revoke_action_grant_frame(1)])
  qed
qed

lemma reported_event: "event_of op = Reported st \<Longrightarrow> \<exists>checked key digest u. op = Executor checked key digest u \<and> eu_status u = st"
proof (induction op rule: event_of.induct)
  case (2 prior gen c)
  then show ?case by (cases c) simp_all
next
  case (3 prior gen c)
  then show ?case by (cases c) simp_all
next
  case (5 checked key digest u)
  then show ?case by (auto simp: executor_event_def split: if_splits)
next
  case (6 checked key digest user c ms sources)
  then show ?case by (auto simp: control_event_def split: if_splits)
qed simp_all

text \<open>C7: The engine refines the state machine of a run, transaction by transaction. A committed transaction of
  \<open>engine_op\<close> keeps the row of every run, and it leaves the status and the generation of a run alone unless the run is one the
  transaction is about and the change is an edge of the transaction's own event: a claim only starts a generation of
  a run with due work, an approval only wakes a run that waits for one, a command to stop only moves its run and the
  runs below it. So a stopping run never goes back to waiting or to accepted: it ends, or it runs again because
  its executor itself reported that it completed or that it rejected the stop. A run that waits for an
  authorization becomes active again only by a decision or by a takeover.\<close>

theorem transactions_follow_life:
  assumes "engine_ok (t, db)" and "t \<le> now env" and "engine_op_ok op" and "run_engine env op db = Inr db'"
    and "find_run db i = Some r"
  shows "\<exists>r'. find_run db' i = Some r' \<and>
     (life r' = life r \<or> (concerns env db op r \<and> life_move (event_of op) (life r) (life r'))) \<and>
     (r_status r = ''stopping'' \<and> r_status r' \<noteq> ''stopping'' \<longrightarrow>
        final_status (r_status r') \<or>
        (r_status r' = ''running'' \<and> r_generation r' = r_generation r \<and>
         (\<exists>checked key digest u. op = Executor checked key digest u \<and> eu_status u \<in> {''stop_rejected'', ''completed''}))) \<and>
     (r_status r = ''waiting_authorization'' \<and> active_status (r_status r') \<longrightarrow>
        (r_status r' = ''running'' \<and> event_of op = Decided) \<or> (r_status r' = ''accepted'' \<and> event_of op = Taken_Over))"
proof -
  have inv: "engine_inv db" "lease_inv t db" using assms(1) by (simp_all add: engine_ok_def)
  obtain r' where r': "find_run db' i = Some r'"
    using run_engine_next [OF inv assms(2-4)] runs_nextD [OF _ assms(5)] by blast
  note m = rows_moveD [OF transaction_moves [OF inv(1) assms(3,4)] assms(5) r']
  have "final_status (r_status r') \<or> (r_status r' = ''running'' \<and> r_generation r' = r_generation r \<and>
         (\<exists>checked key digest u. op = Executor checked key digest u \<and> eu_status u \<in> {''stop_rejected'', ''completed''}))"
    if "r_status r = ''stopping''" "r_status r' \<noteq> ''stopping''"
    using m
  proof
    assume "life r' = life r" then show ?thesis using that by (simp add: life_def)
  next
    assume "concerns env db op r \<and> life_move (event_of op) (life r) (life r')"
    then have "life_move (event_of op) (''stopping'', r_generation r) (r_status r', r_generation r')"
      using that(1) by (simp add: life_def)
    from stopping_ends [OF this that(2)] reported_event show ?thesis by blast
  qed
  moreover have "(r_status r' = ''running'' \<and> event_of op = Decided) \<or> (r_status r' = ''accepted'' \<and> event_of op = Taken_Over)"
    if "r_status r = ''waiting_authorization''" "active_status (r_status r')"
    using m
  proof
    assume "life r' = life r" then show ?thesis using that by (simp add: life_def active_status_def)
  next
    assume "concerns env db op r \<and> life_move (event_of op) (life r) (life r')"
    then have "life_move (event_of op) (''waiting_authorization'', r_generation r) (r_status r', r_generation r')"
      using that(1) by (simp add: life_def)
    from authorization_ends [OF this that(2)] show ?thesis .
  qed
  ultimately show ?thesis using r' m by blast
qed

text \<open>The claim of the example: the next generation of the run that has due work, and of no other run.\<close>

theorem transactions_follow_life_witness:
  "\<exists>r'. find_run (snd demo_claimed) ''r1'' = Some r' \<and> life r' = (''accepted'', 1) \<and>
     life_move (event_of (Claim [''execute''])) (''accepted'', 0) (life r')"
proof -
  have c: "run_engine demo_bot_env (Claim [''execute'']) demo_engine = Inr (snd demo_claimed)" using demo_claim(1) by simp
  have n: "(0::int) \<le> now demo_bot_env" by (simp add: demo_bot_env_def demo_env_def env.defs)
  from transactions_follow_life [OF demo_engine_ok n _ c, of "''r1''" "demo_run ''r1'' None"] demo_find
  obtain r' where r': "find_run (snd demo_claimed) ''r1'' = Some r'"
    and m: "life r' = life (demo_run ''r1'' None) \<or> life_move (event_of (Claim [''execute''])) (life (demo_run ''r1'' None)) (life r')"
    by auto
  have l: "life r' = (''accepted'', 1)" using demo_claim(4) r' by (simp add: life_def)
  have d: "life (demo_run ''r1'' None) = (''accepted'', 0)" by (simp add: life_def demo_run_def run_key.defs demo_key_def)
  from m have "life_move (event_of (Claim [''execute''])) (''accepted'', 0) (life r')" unfolding d using l by simp
  with r' l show ?thesis by blast
qed

end
