(* ===== verification/Run_Inputs.thy ===== *)
theory Run_Inputs
  imports Run_Types
begin

text \<open>
  What becomes of an accepted input: it is numbered when it is accepted, and the next change of the
  executor reads every input not yet read, in the order of acceptance and exactly once.
\<close>

fun input_read :: "block_body \<Rightarrow> int option" where
  "input_read (Input_Body v who kind src content) = Some v"
| "input_read _ = None"

definition reads :: "bot_db \<Rightarrow> string \<Rightarrow> int list" where
  "reads db i = List.map_filter (\<lambda>b. if tb_run b = i then input_read (tb_block b) else None) (b_blocks db)"

lemma append_block_reads:
  assumes "append_block env body p (r, db) = (r', db')"
  shows "reads db' (r_id r) = reads db (r_id r) @ (case input_read body of None \<Rightarrow> [] | Some v \<Rightarrow> [v])" "r_id r' = r_id r"
    "r_applied_input r' = r_applied_input r" "r_input_version r' = r_input_version r"
  using assms by (auto simp: append_block_def append_run_block_def bot_id_def reads_def List.map_filter_def split: option.splits)

lemma append_materials_reads:
  "append_materials env ms (r, db) = (r', db') \<Longrightarrow>
     reads db' (r_id r) = reads db (r_id r) \<and> r_id r' = r_id r \<and> r_applied_input r' = r_applied_input r \<and>
     r_input_version r' = r_input_version r"
proof (induction ms arbitrary: r db)
  case (Cons m ms)
  obtain r1 db1 where b: "append_block env (Material_Body m) (material_provenance [m]) (r, db) = (r1, db1)" by (metis surj_pair)
  note f = append_block_reads [OF b]
  have "append_materials env ms (r1, db1) = (r', db')" using Cons.prems by (simp add: append_materials_def b)
  from Cons.IH [OF this] show ?case by (simp add: f)
qed (simp add: append_materials_def)

lemma append_input_reads:
  assumes "in_version i = r_applied_input r + 1"
  shows "\<exists>r' db'. append_input env i (r, db) = Inr (r', db') \<and> r_id r' = r_id r \<and> r_applied_input r' = in_version i \<and>
    r_input_version r' = r_input_version r \<and>
    reads db' (r_id r) = reads db (r_id r) @ (if in_invalidated i then [] else [in_version i])"
proof (cases "in_invalidated i")
  case True
  then show ?thesis using assms by (simp add: append_input_def)
next
  case False
  obtain r1 db1 where m: "append_materials env (in_materials i) (r, db) = (r1, db1)" by (metis surj_pair)
  let ?body = "Input_Body (in_version i) (in_requester i) (sender_kind r i) (in_source_message i) (in_content i)"
  obtain r2 db2 where b: "append_block env ?body (body_sources i) (r1, db1) = (r2, db2)" by (metis surj_pair)
  note fm = append_materials_reads [OF m] and fb = append_block_reads [OF b]
  have "append_input env i (r, db) = Inr (r2\<lparr>r_applied_input := in_version i, r_waiting := []\<rparr>, db2)"
    unfolding append_input_def prod.case using assms False by (simp add: m b [unfolded assms])
  then show ?thesis using fm fb False by simp
qed

lemma append_all_reads:
  assumes "map in_version is = [r_applied_input r + 1..r_applied_input r + int (length is)]"
  shows "\<exists>r' db'. rfold (append_input env) is (r, db) = Inr (r', db') \<and> r_applied_input r' = r_applied_input r + int (length is) \<and>
    reads db' (r_id r) = reads db (r_id r) @ map in_version (filter (\<lambda>x. \<not> in_invalidated x) is)"
  using assms
proof (induction "is" arbitrary: r db)
  case (Cons i "is")
  have up: "[r_applied_input r + 1..r_applied_input r + int (length (i # is))] =
      (r_applied_input r + 1) # [r_applied_input r + 1 + 1..r_applied_input r + 1 + int (length is)]"
    using upto_rec1 [of "r_applied_input r + 1" "r_applied_input r + int (length (i # is))"] by (simp add: algebra_simps)
  have v: "in_version i = r_applied_input r + 1" and rest: "map in_version is = [r_applied_input r + 1 + 1..r_applied_input r + 1 + int (length is)]"
    using Cons.prems unfolding up by simp_all
  obtain r1 db1 where s: "append_input env i (r, db) = Inr (r1, db1)" "r_id r1 = r_id r" "r_applied_input r1 = in_version i"
    "reads db1 (r_id r) = reads db (r_id r) @ (if in_invalidated i then [] else [in_version i])"
    using append_input_reads [OF v] by blast
  have "map in_version is = [r_applied_input r1 + 1..r_applied_input r1 + int (length is)]" using rest s(3) v by simp
  from Cons.IH [OF this, of db1] s v show ?case by (auto simp: algebra_simps)
qed simp

lemma filter_upto: "0 \<le> a \<Longrightarrow> filter (\<lambda>v. a < v \<and> v \<le> n) [1..n] = [a + 1..n]" for a n :: int
proof (rule sorted_distinct_set_unique)
  show "sorted (filter (\<lambda>v. a < v \<and> v \<le> n) [1..n])" by (rule sorted_filter [of id, simplified]) simp
qed auto

lemma unapplied_versions:
  assumes inv: "engine_inv db" and r: "find_run db i = Some r"
  shows "map in_version (unapplied_inputs db r) = [r_applied_input r + 1..r_input_version r]"
proof -
  have "map in_version (inputs_of db (r_id r)) = [1..r_input_version r]"
    using inv r by (auto simp: engine_inv_def inputs_numbered_def input_log_def)
  moreover have "0 \<le> r_applied_input r" using row_ok_bounds [OF engine_row_ok [OF inv r]] by simp
  moreover have "map in_version (unapplied_inputs db r) =
      filter (\<lambda>v. r_applied_input r < v \<and> v \<le> r_input_version r) (map in_version (inputs_of db (r_id r)))"
    by (simp add: unapplied_inputs_def filter_map comp_def)
  ultimately show ?thesis by (simp add: filter_upto)
qed

text \<open>C16: The accepted inputs of a run are read exactly once and in order. When no model call is pending,
  taking up the inputs of a stored run succeeds, never finding a gap in the log; it appends one
  trajectory block for each input accepted since the last one read, in the order of their numbers
  and leaving out those whose source was withdrawn, and marks all of them as read.\<close>

theorem inputs_read_in_order:
  assumes "engine_inv db" and "find_run db i = Some r"
    and "\<not> (\<exists>c\<in>set (b_calls db). mc_run c = i \<and> mc_status c = ''requested'')"
  shows "\<exists>r' db'. append_inputs env r db = Inr (r', db') \<and> r_applied_input r' = r_input_version r \<and>
    map in_version (unapplied_inputs db r) = [r_applied_input r + 1..r_input_version r] \<and>
    reads db' i = reads db i @ map in_version (filter (\<lambda>x. \<not> in_invalidated x) (unapplied_inputs db r))"
proof -
  note v = unapplied_versions [OF assms(1,2)]
  have le: "r_applied_input r \<le> r_input_version r" using row_ok_bounds [OF engine_row_ok [OF assms(1,2)]] by simp
  have "int (length (unapplied_inputs db r)) = r_input_version r - r_applied_input r"
    using arg_cong [OF v, of length] le by simp
  then have "map in_version (unapplied_inputs db r) = [r_applied_input r + 1..r_applied_input r + int (length (unapplied_inputs db r))]"
    and e: "r_applied_input r + int (length (unapplied_inputs db r)) = r_input_version r" using v by simp_all
  from append_all_reads [OF this(1), of env db] obtain r' db' where
    "rfold (append_input env) (unapplied_inputs db r) (r, db) = Inr (r', db')" "r_applied_input r' = r_input_version r"
    "reads db' (r_id r) = reads db (r_id r) @ map in_version (filter (\<lambda>x. \<not> in_invalidated x) (unapplied_inputs db r))"
    unfolding e by blast
  moreover have "r_id r = i" by (rule find_run_id [OF assms(2)])
  ultimately show ?thesis using v unfolding append_inputs_def by (simp only: if_not_P [OF assms(3)]) blast
qed

theorem inputs_read_in_order_witness:
  "\<exists>r' db'. append_inputs demo_bot_env (demo_run ''r1'' None) demo_engine = Inr (r', db') \<and> r_applied_input r' = 1 \<and>
    reads db' ''r1'' = [1]"
proof -
  have inv: "engine_inv demo_engine" using demo_engine_ok by (simp add: engine_ok_def)
  have d: "\<not> (\<exists>c\<in>set (b_calls demo_engine). mc_run c = ''r1'' \<and> mc_status c = ''requested'')" by (simp add: demo_engine_def)
  have f: "r_input_version (demo_run ''r1'' None) = 1" "reads demo_engine ''r1'' = []"
    "map in_version (filter (\<lambda>x. \<not> in_invalidated x) (unapplied_inputs demo_engine (demo_run ''r1'' None))) = [1]"
    by code_simp+
  show ?thesis using inputs_read_in_order [OF inv demo_find d, of demo_bot_env] unfolding f by auto
qed

end
