(* ===== verification/Run_Logs.thy ===== *)
theory Run_Logs
  imports Run_System
begin

text \<open>
  What most transactions leave alone: \<open>logs\<close> is the table of receipts and the table of actions. The
  callbacks of workers, executors and users, apart from those that call actions, write neither.
\<close>

definition logs :: "bot_db \<Rightarrow> run_receipt list \<times> run_action list" where
  [simp]: "logs db = (b_receipts db, b_actions db)"

section \<open>Callbacks\<close>

lemma queue_logs [simp]:
  "b_receipts (queue_run env r kind db) = b_receipts db" "b_receipts (queue_next env r kind db) = b_receipts db"
  "b_actions (queue_run env r kind db) = b_actions db" "b_actions (queue_next env r kind db) = b_actions db"
  by (simp_all add: queue_next_def queue_run_def put_work_def bot_id_def)

lemma table_logs [simp]:
  "b_receipts (settle_calls env i st db) = b_receipts db" "b_actions (settle_calls env i st db) = b_actions db"
  "b_receipts (put_run r db) = b_receipts db" "b_actions (put_run r db) = b_actions db"
  "b_receipts (put_item w db) = b_receipts db" "b_actions (put_item w db) = b_actions db"
  "b_receipts (complete_work env w db) = b_receipts db" "b_actions (complete_work env w db) = b_actions db"
  "b_receipts (retry_work env w db) = b_receipts db" "b_actions (retry_work env w db) = b_actions db"
  by (simp_all add: settle_calls_def put_run_def put_item_def complete_work_def retry_work_def)

lemma run_block_logs [simp]:
  "b_receipts (snd (append_run_block env r kind body db)) = b_receipts db"
  "b_actions (snd (append_run_block env r kind body db)) = b_actions db"
  by (simp_all add: append_run_block_def bot_id_def)

lemma save_logs: "save_run r db = Inr db' \<Longrightarrow> logs db' = logs db"
  by (auto simp: save_run_def split: if_splits)

lemma block_logs: "append_block env body p (r, db) = (r', db') \<Longrightarrow> logs db' = logs db"
  by (auto simp: append_block_def append_run_block_def bot_id_def)

lemma materials_logs: "append_materials env ms (r, db) = (r', db') \<Longrightarrow> logs db' = logs db"
proof (induction ms arbitrary: r db)
  case (Cons m ms)
  obtain r1 db1 where b: "append_block env (Material_Body m) (material_provenance [m]) (r, db) = (r1, db1)" by (metis surj_pair)
  have "append_materials env ms (r1, db1) = (r', db')" using Cons.prems by (simp add: append_materials_def b)
  then show ?case using Cons.IH block_logs [OF b] by simp
qed (simp add: append_materials_def)

lemma input_logs: "append_input env i (r, db) = Inr (r', db') \<Longrightarrow> logs db' = logs db"
  unfolding append_input_def
  by (cases "append_materials env (in_materials i) (r, db)")
    (auto dest!: materials_logs block_logs split: if_splits prod.splits)

lemma inputs_logs: "append_inputs env r db = Inr (r', db') \<Longrightarrow> logs db' = logs db"
proof -
  have fold: "rfold (append_input env) is (r0, db0) = Inr (r', db') \<Longrightarrow> logs db' = logs db0" for "is" r0 db0
  proof (induction "is" arbitrary: r0 db0)
    case (Cons i "is")
    then obtain r1 db1 where "append_input env i (r0, db0) = Inr (r1, db1)" "rfold (append_input env) is (r1, db1) = Inr (r', db')"
      by (auto simp: rbind_eq_Inr)
    then show ?case using Cons.IH input_logs by metis
  qed simp
  show "append_inputs env r db = Inr (r', db') \<Longrightarrow> logs db' = logs db"
    using fold by (auto simp: append_inputs_def split: if_splits)
qed

lemma worker_logs:
  assumes "worker_fn env c r db = Inr (r', db')"
    and "\<And>i tool g n. c \<noteq> Claim_Call i tool g n"
  shows "logs db' = logs db"
proof (cases c)
  case Start
  let ?r1 = "r\<lparr>r_status := ''running'', r_stage := ''preparing'', r_delivery_status := ''acknowledged'',
                   r_executor_status := ''accepted''\<rparr>"
  obtain r2 db2 where b: "append_block env (Text_Body ''system'' (xc_system_prompt (r_config r))) [] (?r1, db) = (r2, db2)"
    by (metis surj_pair)
  have "append_inputs env r2 db2 = Inr (r', db')" using assms b by (auto simp: Start start_run_def Let_def split: if_splits)
  then show ?thesis using inputs_logs block_logs [OF b] by simp
next
  case Append_Inputs
  then show ?thesis using assms inputs_logs by simp
next
  case (Wait_Input reason content)
  then show ?thesis using assms(1) run_block_logs [of env "r\<lparr>r_waiting := reason\<rparr>" "''message''" "Text_Body ''tool'' content" db]
    by (auto simp: wait_for_input_def)
qed (use assms in \<open>auto simp: continue_run_def queue_output_def Let_def dest: call_boundary_cases\<close>)

lemma stop_logs: "request_run_stop env reason r db = Inr (r', db') \<Longrightarrow> logs db' = logs db"
  by (auto simp: request_run_stop_def Let_def split: if_splits option.splits)

lemma lose_logs: "lose_controller env reason r db = Inr (r', db') \<Longrightarrow> logs db' = logs db"
  by (auto simp: lose_controller_def Let_def split: if_splits)

fun calls_action :: "lifecycle_cmd \<Rightarrow> bool" where
  "calls_action (Prepare_Call tool arguments key expires gen input) = True"
| "calls_action (Share_Call user a) = True"
| "calls_action _ = False"

lemma lifecycle_logs: "lifecycle_fn env c r db = Inr (r', db') \<Longrightarrow> \<not> calls_action c \<Longrightarrow> logs db' = logs db"
  by (cases c) (auto simp: fail_run_def confirm_builtin_stop_def lose_executor_def drop_controls_def apply_authority_def
      unconfirmed_stop_def mark_delivered_def undeliverable_def commit_output_def commit_personal_def Let_def rbind_eq_Inr
      dest: stop_logs lose_logs split: if_splits sum.splits)

lemma complete_logs: "complete_update env u r db = Inr (r', db') \<Longrightarrow> logs db' = logs db"
  unfolding complete_update_def Let_def by (elim guardD [elim_format] rbindE) auto

lemma executor_logs: "executor_apply env u r db = Inr (r', db') \<Longrightarrow> logs db' = logs db"
  by (auto simp: executor_apply_def business_update_def Let_def rbind_eq_Inr dest: complete_logs split: if_splits)

lemma stop_child_logs: "stop_child env c db = Inr db' \<Longrightarrow> logs db' = logs db"
  by (auto simp: stop_child_def Let_def rbind_eq_Inr dest!: save_logs stop_logs split: if_splits)

lemma stops_logs: "request_delegated_stops env n i db = Inr db' \<Longrightarrow> logs db' = logs db"
proof (induction n arbitrary: i db db')
  case (Suc n)
  have "rfold (\<lambda>c d. rbind (request_delegated_stops env n (r_id c) d) (stop_child env c)) cs d = Inr db' \<Longrightarrow> logs db' = logs d"
    for cs d
  proof (induction cs arbitrary: d)
    case (Cons c cs)
    then obtain d1 d2 where d: "request_delegated_stops env n (r_id c) d = Inr d1" "stop_child env c d1 = Inr d2"
      "rfold (\<lambda>c d. rbind (request_delegated_stops env n (r_id c) d) (stop_child env c)) cs d2 = Inr db'"
      by (auto simp: rbind_eq_Inr)
    show ?case using Suc.IH [OF d(1)] stop_child_logs [OF d(2)] Cons.IH [OF d(3)] by simp
  qed simp
  then show ?case using Suc.prems by simp
qed simp

lemma wake_logs: "wake_executor env op w r db = Inr (r', db') \<Longrightarrow> logs db' = logs db"
  by (auto simp: wake_executor_def Let_def split: if_splits)

lemma take_input_logs: "take_input env user c ms sources r db = Inr (r', db') \<Longrightarrow> logs db' = logs db"
  unfolding take_input_def Let_def bot_id_def prod.case
  by (drule guardD, elim rbindE) (drule wake_logs, auto simp: insert_input_def split: if_splits)

lemma take_over_logs: "take_over env user r db = Inr (r', db') \<Longrightarrow> logs db' = logs db"
  by (auto simp: take_over_def Let_def rbind_eq_Inr dest: wake_logs split: if_splits)

lemma stop_run_logs: "stop_run env r db = Inr (r', db') \<Longrightarrow> logs db' = logs db"
  unfolding stop_run_def by (elim rbindE, drule stops_logs) (auto dest!: stop_logs split: if_splits)

lemma control_logs: "control_apply env user c ms sources r db = Inr (r', db') \<Longrightarrow> logs db' = logs db"
  unfolding control_apply_def
  by (elim rbindE, drule guardD [OF guardD [OF guardD [OF guardD]]])
    (auto simp: grant_control_def revoke_control_def resume_run_def rbind_eq_Inr Let_def
      dest: take_over_logs take_input_logs stop_run_logs wake_logs split: if_split_asm)

section \<open>Transactions\<close>

lemma commit_logs: "commit_run env before r db = Inr (r', db') \<Longrightarrow> logs db' = logs db"
  by (auto simp: commit_run_def Let_def rbind_eq_Inr dest: save_logs)

lemma close_all_logs: "rfold (close_one env) rs db = Inr db' \<Longrightarrow> logs db' = logs db"
proof (induction rs arbitrary: db)
  case (Cons r rs)
  then obtain d where d: "close_one env r db = Inr d" "rfold (close_one env) rs d = Inr db'" by (auto simp: rbind_eq_Inr)
  have "logs d = logs db" using d(1) by (auto simp: close_one_def Let_def rbind_eq_Inr dest: save_logs)
  then show ?case using Cons.IH [OF d(2)] by simp
qed simp

lemma claim_logs: "claim env kinds db = Inr (w, db') \<Longrightarrow> logs db' = logs db"
  by (erule claim_cases) (auto simp: bot_id_def dest: save_logs)

lemma delegation_logs: "accept_delegation env c pid db = Inr (c', db') \<Longrightarrow> logs db' = logs db"
  unfolding accept_delegation_def Let_def
  by (auto simp: rbind_eq_Inr dest!: save_logs split: option.splits if_splits)

lemma store_logs: "store_run env r input db = Inr db' \<Longrightarrow> logs db' = logs db"
  unfolding store_run_def case_prod_beta Let_def
  by (elim rbindE) (auto simp: insert_interaction_def insert_run_def insert_input_def bot_id_def split: if_splits)

lemma accept_logs: "accept_run env r input ms db = Inr (r', db') \<Longrightarrow> logs db' = logs db"
  unfolding accept_run_def
  by (auto simp: rbind_eq_Inr dest!: store_logs delegation_logs split: option.splits)

end
