(* ===== verification/Run_Receipts.thy ===== *)
theory Run_Receipts
  imports Run_Types Run_Logs
begin

text \<open>
  Exactly once: a command is remembered by its receipt, receipts are never dropped, and a command whose
  key is known changes nothing.
\<close>

section \<open>No callback writes a receipt\<close>

lemma prepare_receipts: "prepare_action env tool arguments key expires gen input r db = Inr (r', db') \<Longrightarrow> b_receipts db' = b_receipts db"
  unfolding prepare_action_def
  by (auto simp: rbind_eq_Inr split: option.splits dest!: rebind_frame(5) insert_action_frame(4) elim!: record_action_cases)

lemma claim_call_receipts: "claim_action env i tool gen input r db = Inr (r', db') \<Longrightarrow> b_receipts db' = b_receipts db"
  by (auto simp: claim_action_def map_sum_snd_Inr elim!: claim_call_cases start_call_cases dest!: rebind_frame(5))

lemma share_receipts: "share_confirmation env user a r db = Inr (r', db') \<Longrightarrow> b_receipts db' = b_receipts db"
  by (auto elim!: share_confirmation_cases)

lemma facts_receipts: "facts_fn env c r db = Inr (r', db') \<Longrightarrow> b_receipts db' = b_receipts db"
  by (cases c) (auto simp: recover_actions_def Let_def elim!: record_outcome_cases split: if_splits)

lemma settle_receipts: "decide_action env user q tool a r db = Inr (r', db') \<Longrightarrow> b_receipts db' = b_receipts db"
  by (drule decide_action_settles(1)) (auto elim!: settle_decision_cases)

lemma worker_receipts: "worker_fn env c r db = Inr (r', db') \<Longrightarrow> b_receipts db' = b_receipts db"
  by (cases "\<exists>i tool g n. c = Claim_Call i tool g n") (auto dest: claim_call_receipts worker_logs)

lemma lifecycle_receipts: "lifecycle_fn env c r db = Inr (r', db') \<Longrightarrow> b_receipts db' = b_receipts db"
proof (cases "calls_action c")
  case True
  then show "lifecycle_fn env c r db = Inr (r', db') \<Longrightarrow> b_receipts db' = b_receipts db"
    using prepare_receipts share_receipts by (cases c) simp_all
qed (auto dest: lifecycle_logs)

lemma executor_receipts: "executor_apply env u r db = Inr (r', db') \<Longrightarrow> b_receipts db' = b_receipts db"
  using executor_logs by simp

lemma control_receipts: "control_apply env user c ms sources r db = Inr (r', db') \<Longrightarrow> b_receipts db' = b_receipts db"
  using control_logs by simp

section \<open>Receipts are kept\<close>

definition receipts_kept :: "bot_db \<Rightarrow> bot_db \<Rightarrow> bool" where
  "receipts_kept db db' \<longleftrightarrow> (\<exists>xs. b_receipts db' = b_receipts db @ xs)"

lemma receipts_kept_same: "b_receipts db' = b_receipts db \<Longrightarrow> receipts_kept db db'"
  by (simp add: receipts_kept_def)

lemma receipts_kept_trans: "receipts_kept db1 db2 \<Longrightarrow> receipts_kept db2 db3 \<Longrightarrow> receipts_kept db1 db3"
  by (auto simp: receipts_kept_def)

lemma find_receipt_kept: "find_receipt db i key = Some p \<Longrightarrow> receipts_kept db db' \<Longrightarrow> find_receipt db' i key = Some p"
  by (auto simp: receipts_kept_def find_receipt_def find_append)

lemma put_receipt_kept: "put_receipt env i key digest db = Inr db' \<Longrightarrow> receipts_kept db db'"
  by (auto simp: put_receipt_def bot_id_def receipts_kept_def split: if_splits)

lemma put_receipt_found:
  assumes "find_receipt db i key = None" and "put_receipt env i key digest db = Inr db'"
  shows "\<exists>p. find_receipt db' i key = Some p \<and> rc_hash p = digest"
  using assms by (auto simp: put_receipt_def bot_id_def find_receipt_def find_append split: if_splits)

lemma change_receipts:
  assumes "change_with env prior gen ex facts fn db = Inr (r2, db2)"
    and "\<And>r r1 db1. fn r db = Inr (r1, db1) \<Longrightarrow> b_receipts db1 = b_receipts db"
  shows "receipts_kept db db2"
proof -
  obtain r r1 db1 where f: "fn r db = Inr (r1, db1)" and k: "commit_run env (r_stage r) r1 db1 = Inr (r2, db2)"
    using assms(1) by (auto simp: change_with_def rbind_eq_Inr split: if_splits prod.splits)
  show ?thesis using assms(2) [OF f] commit_logs [OF k] by (simp add: receipts_kept_same)
qed

lemma report_receipts:
  assumes "report_once env checked key digest au fn db = Inr (p, db2)"
    and "\<And>r r1 db1. fn r db = Inr (r1, db1) \<Longrightarrow> b_receipts db1 = b_receipts db"
  shows "receipts_kept db db2 \<and> (\<exists>p. find_receipt db2 (r_id checked) key = Some p \<and> rc_hash p = digest)"
proof (cases "find_receipt db (r_id checked) key")
  case (Some q)
  then have "db2 = db" "rc_hash q = digest"
    using assms(1) by (auto simp: report_once_def rbind_eq_Inr Let_def split: option.splits if_splits)
  then show ?thesis using Some by (simp add: receipts_kept_same)
next
  case None
  have ne: "db2 \<noteq> db \<or> db2 = db" by simp
  obtain r1 db1 r2 db3 r where f: "fn r db = Inr (r1, db1)" and k: "commit_run env (r_stage r) r1 db1 = Inr (r2, db3)"
    and q: "put_receipt env (r_id checked) key digest db3 = Inr db2"
    using assms(1) None by (auto simp: report_once_def rbind_eq_Inr Let_def split: option.splits if_splits)
  have e: "b_receipts db3 = b_receipts db" using assms(2) [OF f] commit_logs [OF k] by simp
  then have "receipts_kept db db2" using put_receipt_kept [OF q] by (simp add: receipts_kept_def)
  moreover have "find_receipt db3 (r_id checked) key = None" using None e by (simp add: find_receipt_def)
  ultimately show ?thesis using put_receipt_found [OF _ q] by blast
qed

lemma decide_receipts:
  assumes "decide_once env checked i user q tool digest db = Inr (a', db2)"
  shows "receipts_kept db db2 \<and> (\<exists>p. find_receipt db2 (r_id checked) (decision_key user q) = Some p \<and> rc_hash p = digest)"
  using assms
proof (cases rule: decide_once_cases)
  case (1 r a)
  from 1(4) show ?thesis
  proof (elim disjE exE conjE)
    fix p assume "db2 = db" "find_receipt db (r_id checked) (decision_key user q) = Some p" "rc_hash p = digest"
    then show ?thesis by (simp add: receipts_kept_same)
  next
    fix r1 db1 r2 db3
    assume n: "find_receipt db (r_id checked) (decision_key user q) = None" and f: "decide_action env user q tool a r db = Inr (r1, db1)"
      and k: "commit_run env (r_stage r) r1 db1 = Inr (r2, db3)"
      and q: "put_receipt env (r_id checked) (decision_key user q) digest db3 = Inr db2"
    have e: "b_receipts db3 = b_receipts db" using settle_receipts [OF f] commit_logs [OF k] by simp
    then have "receipts_kept db db2" using put_receipt_kept [OF q] by (simp add: receipts_kept_def)
    moreover have "find_receipt db3 (r_id checked) (decision_key user q) = None" using n e by (simp add: find_receipt_def)
    ultimately show ?thesis using put_receipt_found [OF _ q] by blast
  qed
qed

lemma close_receipts:
  assumes "close_interaction env checked key digest user db = Inr (p, db')"
  shows "receipts_kept db db' \<and> (\<exists>p. find_receipt db' (r_id checked) key = Some p \<and> rc_hash p = digest)"
proof (cases "find_receipt db (r_id checked) key")
  case (Some q)
  then have "db' = db" "rc_hash q = digest"
    using assms by (auto simp: close_interaction_def rbind_eq_Inr split: option.splits if_splits)
  then show ?thesis using Some by (simp add: receipts_kept_same)
next
  case None
  obtain db1 where e: "b_receipts db1 = b_receipts db" and q: "put_receipt env (r_id checked) key digest db1 = Inr db'"
    using assms None
    by (auto simp: close_interaction_def rbind_eq_Inr split: option.splits if_split_asm dest!: close_all_logs)
  have "find_receipt db1 (r_id checked) key = None" using None e by (simp add: find_receipt_def)
  moreover have "receipts_kept db db'" using put_receipt_kept [OF q] e by (simp add: receipts_kept_def)
  ultimately show ?thesis using put_receipt_found [OF _ q] by blast
qed

lemma run_engine_receipts:
  assumes "run_engine env op db = Inr db'"
  shows "receipts_kept db db'"
proof (cases op)
  case (Work prior gen c)
  then show ?thesis using assms change_receipts worker_receipts by (auto simp: map_sum_snd_Inr change_run_def)
next
  case (Lifecycle prior gen c)
  then show ?thesis using assms change_receipts lifecycle_receipts by (auto simp: map_sum_snd_Inr change_lifecycle_def)
next
  case (Facts prior c)
  then show ?thesis using assms change_receipts facts_receipts by (auto simp: map_sum_snd_Inr change_action_facts_def)
next
  case (Executor checked key digest u)
  then show ?thesis using assms report_receipts [OF _ executor_receipts] by (auto simp: map_sum_snd_Inr)
next
  case (Control checked key digest user c ms sources)
  then show ?thesis using assms report_receipts [OF _ control_receipts] by (auto simp: map_sum_snd_Inr)
next
  case (Close checked key digest user)
  then show ?thesis using assms close_receipts by (auto simp: map_sum_snd_Inr)
next
  case (Decide checked i user q tool digest)
  then show ?thesis using assms decide_receipts by (auto simp: map_sum_snd_Inr)
qed (use assms in \<open>auto simp: map_sum_snd_Inr renew_def dest!: accept_logs claim_logs insert_action_grant_frame(4)
  revoke_action_grant_frame(4) intro!: receipts_kept_same split: if_splits\<close>)

lemma engine_steps_receipts: "engine_steps s s' \<Longrightarrow> receipts_kept (snd s) (snd s')"
proof (induction rule: rtranclp_induct)
  case base
  then show ?case by (simp add: receipts_kept_same)
next
  case (step s1 s2)
  have "receipts_kept (snd s1) (snd s2)"
    using step(2) by (cases rule: engine_step.cases) (auto intro: run_engine_receipts receipts_kept_same)
  then show ?case using step.IH receipts_kept_trans by blast
qed

section \<open>Exactly once\<close>

text \<open>The identity of a command (its run and its key), and what it asks for (its digest).\<close>

fun command_of :: "engine_op \<Rightarrow> (string \<times> string \<times> string) option" where
  "command_of (Executor checked key digest u) = Some (r_id checked, key, digest)"
| "command_of (Control checked key digest user c ms sources) = Some (r_id checked, key, digest)"
| "command_of (Close checked key digest user) = Some (r_id checked, key, digest)"
| "command_of (Decide checked i user q tool digest) = Some (r_id checked, decision_key user q, digest)"
| "command_of _ = None"

lemma command_receipt:
  assumes "command_of op = Some (i, key, digest)" and "run_engine env op db = Inr db'"
  shows "\<exists>p. find_receipt db' i key = Some p \<and> rc_hash p = digest"
  using assms report_receipts [OF _ executor_receipts] report_receipts [OF _ control_receipts] close_receipts decide_receipts
  by (cases op) (auto simp: map_sum_snd_Inr)

lemma known_command:
  assumes "command_of op = Some (i, key, digest)" and "run_engine env op db = Inr db'" and "find_receipt db i key = Some p"
  shows "db' = db \<and> rc_hash p = digest"
  using assms
  by (cases op) (auto simp: map_sum_snd_Inr report_once_def close_interaction_def rbind_eq_Inr Let_def
      elim!: decide_once_cases split: option.splits if_splits)

text \<open>C3: A command is applied at most once. After a report of an executor, a command of a user, the decision of an
  action or the closing of an interaction has committed, any later command of the same run with the same key, sent however
  often and after whatever other transactions, either is refused or changes nothing at all, and it
  succeeds only when it asks for the same thing.\<close>

theorem commands_applied_once:
  assumes "run_engine env op db = Inr db1" and "command_of op = Some (i, key, digest)"
    and "engine_steps (now env, db1) (t, db2)"
    and "run_engine env' op' db2 = Inr db3" and "command_of op' = Some (i, key, digest')"
  shows "db3 = db2 \<and> digest' = digest"
proof -
  obtain p where p: "find_receipt db1 i key = Some p" "rc_hash p = digest" using command_receipt [OF assms(2,1)] by blast
  have "find_receipt db2 i key = Some p" using find_receipt_kept [OF p(1)] engine_steps_receipts [OF assms(3)] by simp
  then show ?thesis using known_command [OF assms(5,4)] p(2) by auto
qed

text \<open>A run that an executor reports as stopped, twice.\<close>

definition demo_stopping :: run where
  "demo_stopping = (demo_run ''r1'' None)\<lparr>r_status := ''stopping'', r_stop_status := ''requested'', r_generation := 1\<rparr>"

definition demo_report :: "int \<Rightarrow> engine_op" where
  "demo_report v = Executor (demo_stopping\<lparr>r_version := v\<rparr>) ''key'' ''digest''
     \<lparr>eu_type = ''run.update'', eu_run = ''r1'', eu_generation = 1, eu_input_version = 1, eu_sequence = 1, eu_key = ''k'',
      eu_operation = [], eu_status = ''stopped'', eu_stage = [], eu_result = [], eu_waiting = [], eu_msg_type = [],
      eu_content = []\<rparr>"

definition demo_small :: bot_db where
  "demo_small = demo_start\<lparr>b_runs := [demo_stopping], b_interactions := [demo_interaction]\<rparr>"

definition demo_stopped :: bot_db where
  "demo_stopped = result_of (run_engine demo_bot_env (demo_report 1) demo_small)"

definition stopped_once :: "err + bot_db \<Rightarrow> bool" where
  "stopped_once a \<longleftrightarrow> (case a of Inl e \<Rightarrow> False | Inr db \<Rightarrow>
     map_option r_status (find_run db ''r1'') = Some ''stopped'' \<and> is_ok (run_engine demo_bot_env (demo_report 2) db))"

lemma demo_stopped_once: "stopped_once (run_engine demo_bot_env (demo_report 1) demo_small)"
  by code_simp

theorem commands_applied_once_witness:
  "map_option r_status (find_run demo_stopped ''r1'') = Some ''stopped'' \<and>
   run_engine demo_bot_env (demo_report 2) demo_stopped = Inr demo_stopped"
proof -
  have a: "run_engine demo_bot_env (demo_report 1) demo_small = Inr demo_stopped"
    and c: "map_option r_status (find_run demo_stopped ''r1'') = Some ''stopped''"
    and again: "is_ok (run_engine demo_bot_env (demo_report 2) demo_stopped)"
    using demo_stopped_once unfolding demo_stopped_def
    by (cases "run_engine demo_bot_env (demo_report 1) demo_small"; simp add: stopped_once_def result_of_def)+
  define db where "db = result_of (run_engine demo_bot_env (demo_report 2) demo_stopped)"
  have b: "run_engine demo_bot_env (demo_report 2) demo_stopped = Inr db"
    unfolding db_def using again by (rule is_ok_result)
  have "command_of (demo_report v) = Some (''r1'', ''key'', ''digest'')" for v
    by (simp add: demo_report_def demo_stopping_def demo_run_def demo_key_def run_key.extend_def)
  then have "db = demo_stopped"
    using commands_applied_once [OF a _ rtranclp.rtrancl_refl b] by blast
  then show ?thesis using b c by simp
qed

end
