(* ===== verification/Run_Budget.thy ===== *)
theory Run_Budget
  imports Run_Types
begin

text \<open>
  The size of a delegation tree: its root and its depth are part of the identity of a run, only an
  acceptance adds a run, and it checks the budget under the barrier of the tree.
\<close>

definition keys_of :: "bot_db \<Rightarrow> run_key list" where
  "keys_of db = map key_of (b_runs db)"

definition tree_inv :: "bot_db \<Rightarrow> bool" where
  "tree_inv db \<longleftrightarrow> (\<forall>rt. length (filter (\<lambda>k. r_deleg_root k = Some rt) (keys_of db)) \<le> 8) \<and>
     (\<forall>k\<in>set (keys_of db). r_deleg_root k \<noteq> None \<longrightarrow> r_deleg_depth k \<le> 3)"

lemma key_of_root [simp]: "r_deleg_root (key_of r) = r_deleg_root r" "r_deleg_depth (key_of r) = r_deleg_depth r"
  by (simp_all add: key_simps)

text \<open>Rows keep their keys when the identifiers and the order of the rows stay.\<close>

lemma keys_same:
  assumes inv: "engine_inv db" "engine_inv db'" and n: "runs_next db db'" and ids: "map r_id (b_runs db') = map r_id (b_runs db)"
  shows "keys_of db' = keys_of db"
  unfolding keys_of_def
proof (rule nth_equalityI)
  have len: "length (b_runs db') = length (b_runs db)" using arg_cong [OF ids, of length] by simp
  then show "length (map key_of (b_runs db')) = length (map key_of (b_runs db))" by simp
  fix j assume "j < length (map key_of (b_runs db'))"
  then have j: "j < length (b_runs db)" "j < length (b_runs db')" using len by simp_all
  have f: "find_run db (r_id (b_runs db ! j)) = Some (b_runs db ! j)" "find_run db' (r_id (b_runs db' ! j)) = Some (b_runs db' ! j)"
    using find_run_member inv j by simp_all
  have "r_id (b_runs db' ! j) = r_id (b_runs db ! j)" using ids j by (metis nth_map)
  then have "run_next (b_runs db ! j) (b_runs db' ! j)" using runs_nextD [OF n f(1)] f(2) by auto
  then show "map key_of (b_runs db') ! j = map key_of (b_runs db) ! j" using j by (simp add: run_next_def)
qed

section \<open>Only acceptance adds a run\<close>

definition same_ids :: "bot_db \<Rightarrow> bot_db \<Rightarrow> bool" where
  "same_ids db db' \<longleftrightarrow> map r_id (b_runs db') = map r_id (b_runs db)"

lemma save_ids: "save_run r db = Inr db' \<Longrightarrow> same_ids db db'"
  by (auto simp: save_run_def same_ids_def split: if_splits)

lemma commit_ids: "commit_run env before r db = Inr (r', db') \<Longrightarrow> same_ids db db'"
  by (auto simp: commit_run_def Let_def rbind_eq_Inr same_ids_def dest!: save_ids)

context run_command
begin

lemma commit_same_ids:
  assumes "engine_inv db" and "find_run db (r_id r) = Some r" and "pre r"
    and "fn r db = Inr (r1, db1)" and "commit_run env before r1 db1 = Inr (r2, db2)"
  shows "same_ids db db2"
  using lawful_row(6) [OF lawful [OF assms(1-4)]] commit_ids [OF assms(5)] by (simp add: same_ids_def)

lemma change_with_ids:
  assumes inv: "engine_inv db" and c: "change_with env prior gen ex facts fn db = Inr (r2, db2)"
    and p: "\<And>r. \<lbrakk>run_row_ok r; terminal_run r \<longrightarrow> facts; ex \<longrightarrow> active_status (r_status r) \<or> terminal_run r\<rbrakk> \<Longrightarrow> pre r"
  shows "same_ids db db2"
proof -
  obtain r r1 db1 where r: "find_run db (r_id prior) = Some r"
    and t: "terminal_run r \<longrightarrow> facts" and e: "ex \<longrightarrow> r_status r \<noteq> ''stopping'' \<and> r_status r \<noteq> ''waiting_authorization''"
    and f: "fn r db = Inr (r1, db1)" and k: "commit_run env (r_stage r) r1 db1 = Inr (r2, db2)"
    using c by (auto simp: change_with_def rbind_eq_Inr get_run_def of_option_eq_Inr split: if_splits prod.splits)
  have ok: "run_row_ok r" by (rule engine_row_ok [OF inv r])
  have "ex \<longrightarrow> active_status (r_status r) \<or> terminal_run r" using living_cases [OF ok] e by blast
  then have "pre r" using p ok t by blast
  then show ?thesis using commit_same_ids [OF inv _ _ f k] r find_run_id [OF r] by simp
qed

lemma report_once_ids:
  assumes inv: "engine_inv db" and c: "report_once env checked key digest au fn db = Inr (p, db2)"
    and pr: "\<And>r. run_row_ok r \<Longrightarrow> terminal_run r \<longrightarrow> au_stop_tree au \<Longrightarrow> pre r"
  shows "same_ids db db2"
proof -
  obtain r where r: "find_run db (r_id checked) = Some r" and alt: "db2 = db \<or>
      ((terminal_run r \<longrightarrow> au_stop_tree au) \<and> (\<exists>r1 db1 r2 db3. fn r db = Inr (r1, db1) \<and>
         commit_run env (r_stage r) r1 db1 = Inr (r2, db3) \<and> put_receipt env (r_id checked) key digest db3 = Inr db2))"
    using report_once_cases [OF c] by blast
  from alt show ?thesis
  proof (elim disjE conjE exE)
    assume "db2 = db" then show ?thesis by (simp add: same_ids_def)
  next
    fix r1 db1 r2 db3
    assume t: "terminal_run r \<longrightarrow> au_stop_tree au" and f: "fn r db = Inr (r1, db1)"
      and k: "commit_run env (r_stage r) r1 db1 = Inr (r2, db3)" and q: "put_receipt env (r_id checked) key digest db3 = Inr db2"
    have "pre r" using pr engine_row_ok [OF inv r] t by blast
    then have "same_ids db db3" using commit_same_ids [OF inv _ _ f k] r find_run_id [OF r] by simp
    then show ?thesis using put_receipt_frame(1) [OF q] by (simp add: same_ids_def)
  qed
qed

end

lemma close_all_ids: "rfold (close_one env) rs db = Inr db' \<Longrightarrow> same_ids db db'"
proof (induction rs arbitrary: db)
  case (Cons r rs)
  then obtain d where d: "close_one env r db = Inr d" "rfold (close_one env) rs d = Inr db'" by (auto simp: rbind_eq_Inr)
  have "same_ids db d" using d(1) by (auto simp: close_one_def Let_def rbind_eq_Inr same_ids_def dest!: save_ids)
  then show ?case using Cons.IH [OF d(2)] by (simp add: same_ids_def)
qed (simp add: same_ids_def)

lemma close_ids: "close_interaction env checked key digest user db = Inr (p, db') \<Longrightarrow> same_ids db db'"
  by (auto simp: close_interaction_def rbind_eq_Inr same_ids_def split: option.splits if_split_asm
      dest!: close_all_ids put_receipt_frame(1))

lemma decide_ids:
  assumes inv: "engine_inv db" and c: "decide_once env checked i user q tool digest db = Inr (a', db2)"
  shows "same_ids db db2"
  using c
proof (cases rule: decide_once_cases)
  case (1 r a)
  then have i: "find_run db (r_id r) = Some r" using find_run_id by metis
  from 1(4) show ?thesis
  proof (elim disjE exE conjE)
    fix r1 db1 r2 db3
    assume t: "\<not> terminal_run r" and f: "decide_action env user q tool a r db = Inr (r1, db1)"
      and k: "commit_run env (r_stage r) r1 db1 = Inr (r2, db3)"
      and p: "put_receipt env (r_id checked) (decision_key user q) digest db3 = Inr db2"
    have "same_ids db db3" by (rule decision.commit_same_ids [OF inv i t f k])
    then show ?thesis using put_receipt_frame(1) [OF p] by (simp add: same_ids_def)
  qed (simp add: same_ids_def)
qed

lemma claim_ids: "claim env kinds db = Inr (w, db') \<Longrightarrow> same_ids db db'"
  by (erule claim_cases) (auto simp: same_ids_def put_item_frame bot_id_frame dest!: save_ids)

fun is_accept :: "engine_op \<Rightarrow> bool" where
  "is_accept (Accept r input ms) = True"
| "is_accept _ = False"

lemma run_engine_ids:
  assumes inv: "engine_inv db" and o: "engine_op_ok op" and a: "\<not> is_accept op" and r: "run_engine env op db = Inr db'"
  shows "same_ids db db'"
proof (cases op)
  case (Work prior gen c)
  then show ?thesis using r worker.change_with_ids [OF inv] by (fastforce simp: map_sum_snd_Inr change_run_def)
next
  case (Lifecycle prior gen c)
  then show ?thesis using r lifecycle.change_with_ids [OF inv] by (fastforce simp: map_sum_snd_Inr change_lifecycle_def)
next
  case (Facts prior c)
  then show ?thesis using r facts.change_with_ids [OF inv] by (fastforce simp: map_sum_snd_Inr change_action_facts_def)
next
  case (Executor checked key digest u)
  then obtain p where "report_once env checked key digest (executor_authority u) (executor_apply env u) db = Inr (p, db')"
    using r by (auto simp: map_sum_snd_Inr)
  then show ?thesis by (rule executor.report_once_ids [OF inv]) (use o Executor executor_authority_tree in auto)
next
  case (Control checked key digest user c ms sources)
  then obtain p where "report_once env checked key digest (control_authority user c) (control_apply env user c ms sources) db = Inr (p, db')"
    using r by (auto simp: map_sum_snd_Inr)
  then show ?thesis by (rule user.report_once_ids [OF inv]) (auto simp: control_authority_def)
next
  case (Close checked key digest user)
  then show ?thesis using r close_ids by (auto simp: map_sum_snd_Inr)
next
  case (Decide checked i user q tool digest)
  then obtain x where "decide_once env checked i user q tool digest db = Inr (x, db')" using r by (auto simp: map_sum_snd_Inr)
  then show ?thesis by (rule decide_ids [OF inv])
qed (use a r in \<open>auto simp: map_sum_snd_Inr renew_def complete_work_def retry_work_def same_ids_def
  dest!: claim_ids [unfolded same_ids_def] insert_action_grant_frame(1) revoke_action_grant_frame(1) split: if_splits\<close>)

section \<open>An acceptance checks the budget\<close>

lemma delegation_budget:
  assumes "accept_delegation env c pid db = Inr (c', db')"
  shows "\<exists>rt. r_deleg_root c' = Some rt \<and> r_deleg_depth c' \<le> 3 \<and>
    length (filter (\<lambda>k. r_deleg_root k = Some rt) (keys_of db)) < 8"
proof -
  obtain rt where c': "r_deleg_root c' = Some rt" and b: "within_budget db rt c'"
    using assms unfolding accept_delegation_def Let_def
    by (auto simp: rbind_eq_Inr split: option.splits if_splits)
  have "tree_count db rt = int (length (filter (\<lambda>k. r_deleg_root k = Some rt) (keys_of db)))"
    by (simp add: tree_count_def keys_of_def filter_map comp_def)
  then show ?thesis using b c'
    by (auto simp: within_budget_def delegation_depth_max_def delegation_count_max_def)
qed

lemma delegation_ids: "accept_delegation env c pid db = Inr (c', db') \<Longrightarrow> same_ids db db'"
  unfolding accept_delegation_def Let_def
  by (auto simp: rbind_eq_Inr same_ids_def dest!: save_ids split: option.splits if_splits)

lemma store_keys: "store_run env r input db = Inr db' \<Longrightarrow> keys_of db' = keys_of db @ [key_of r]"
  unfolding store_run_def case_prod_beta Let_def
  by (elim rbindE) (auto simp: insert_interaction_def insert_run_def insert_input_def bot_id_def keys_of_def split: if_splits)

lemma accept_tree:
  assumes inv: "engine_inv db" and t: "tree_inv db" and c: "candidate r" and a: "accept_run env r input ms db = Inr (r', db')"
  shows "tree_inv db'"
proof -
  have "db' = db \<or> (\<exists>r1 db1. (case r_deleg_parent r of None \<Rightarrow> Inr (r, db) | Some p \<Rightarrow> accept_delegation env r p db) = Inr (r1, db1) \<and>
      store_run env r1 input db1 = Inr db')"
    using a unfolding accept_run_def by (auto simp: rbind_eq_Inr split: option.splits)
  then show ?thesis
  proof (elim disjE exE conjE)
    assume "db' = db" then show ?thesis using t by simp
  next
    fix r1 db1
    assume d: "(case r_deleg_parent r of None \<Rightarrow> Inr (r, db) | Some p \<Rightarrow> accept_delegation env r p db) = Inr (r1, db1)"
      and s: "store_run env r1 input db1 = Inr db'"
    have k: "keys_of db1 = keys_of db \<and> (r_deleg_root r1 \<noteq> None \<longrightarrow> r_deleg_depth r1 \<le> 3 \<and>
        (\<forall>rt. r_deleg_root r1 = Some rt \<longrightarrow> length (filter (\<lambda>k. r_deleg_root k = Some rt) (keys_of db)) < 8))"
    proof (cases "r_deleg_parent r")
      case None
      then show ?thesis using d c by (simp add: candidate_def)
    next
      case (Some p)
      then have x: "accept_delegation env r p db = Inr (r1, db1)" using d by simp
      have "engine_next db db1" by (rule accept_delegation_step(1) [OF inv x])
      then have "keys_of db1 = keys_of db"
        using keys_same [OF inv] delegation_ids [OF x] by (auto simp: engine_next_def same_ids_def)
      then show ?thesis using delegation_budget [OF x] by auto
    qed
    then show ?thesis using t store_keys [OF s] by (auto simp: tree_inv_def)
  qed
qed

lemma engine_step_tree:
  assumes "engine_ok s" and "tree_inv (snd s)" and "engine_step s s'"
  shows "tree_inv (snd s')"
  using assms(3)
proof (cases rule: engine_step.cases)
  case (Commit t env op db db')
  have ok: "engine_ok (t, db)" "tree_inv db" using assms(1,2) Commit(1) by simp_all
  then have inv: "engine_inv db" by (simp add: engine_ok_def)
  have "tree_inv db'"
  proof (cases "is_accept op")
    case True
    then obtain r input ms where op: "op = Accept r input ms" by (cases op) auto
    then show ?thesis using accept_tree [OF inv ok(2)] Commit(4,5) by (auto simp: map_sum_snd_Inr)
  next
    case False
    have "engine_inv db' \<and> runs_next db db'"
      using run_engine_next [OF inv _ Commit(3,4,5)] ok(1) by (simp add: engine_ok_def)
    moreover have "same_ids db db'" by (rule run_engine_ids [OF inv Commit(4) False Commit(5)])
    ultimately have "keys_of db' = keys_of db" using keys_same [OF inv] by (simp add: same_ids_def)
    then show ?thesis using ok(2) by (simp add: tree_inv_def)
  qed
  then show ?thesis by (simp add: Commit(2))
qed (use assms(2) in simp)

lemma engine_steps_tree: "engine_steps s s' \<Longrightarrow> engine_ok s \<Longrightarrow> tree_inv (snd s) \<Longrightarrow> tree_inv (snd s')"
  by (induction rule: rtranclp_induct) (use engine_steps_next engine_step_tree in blast)+

text \<open>C9: Delegation stays bounded in every reachable state: from an empty service on, no delegation tree ever
  holds more than eight delegated runs and no run is delegated deeper than three levels, whatever the
  order in which delegations, retries and all other transactions are committed.\<close>

theorem delegation_trees_bounded:
  assumes "b_runs db = []" "b_work db = []" "b_inputs db = []" and "engine_steps (t, db) (t', db')"
  shows "tree_count db' rt \<le> 8 \<and> (\<forall>r \<in> set (b_runs db'). r_deleg_root r \<noteq> None \<longrightarrow> r_deleg_depth r \<le> 3)"
proof -
  have "tree_inv db" by (simp add: tree_inv_def keys_of_def assms(1))
  then have "tree_inv db'" using engine_steps_tree [OF assms(4) empty_engine_ok [OF assms(1-3)]] by simp
  then show ?thesis
    by (auto simp: tree_inv_def tree_count_def keys_of_def filter_map comp_def)
qed

theorem delegation_trees_bounded_witness:
  "tree_count (snd demo_accepted) ''r1'' \<le> 8 \<and> length (b_runs (snd demo_accepted)) = 1"
proof -
  have "b_runs demo_start = []" "b_work demo_start = []" "b_inputs demo_start = []" by (simp_all add: demo_start_def)
  from delegation_trees_bounded [OF this demo_accept_steps] have "tree_count (snd demo_accepted) ''r1'' \<le> 8" by blast
  moreover have "length (b_runs (snd demo_accepted)) = 1" using arg_cong [OF demo_accept(2), of length] by simp
  ultimately show ?thesis by blast
qed

end
