(* ===== verification/Action_Life.thy ===== *)
theory Action_Life
  imports Run_Logs
begin

text \<open>
  The life of an action across all transactions of the engine. \<open>call_next\<close> is the abstract life of one
  call (its first argument says whether a decision may be met); \<open>action_next\<close> says that a row moved along
  it and kept its identity, \<open>call_core\<close>: the run, the principal, the tool, the parameters' digest and the
  accepted input it was recorded for.
\<close>

section \<open>One call\<close>

definition call_next :: "bool \<Rightarrow> bool \<Rightarrow> string \<Rightarrow> string \<Rightarrow> bool" where
  "call_next decides writes st st' \<longleftrightarrow> st' = st \<or>
     (st = ''pending'' \<and> (st' \<in> {''denied'', ''revoked'', ''expired''} \<or> (decides \<and> st' = ''approved''))) \<or>
     (st = ''approved'' \<and> st' \<in> {''executing'', ''revoked'', ''expired''}) \<or>
     (st = ''executing'' \<and> (st' \<in> {''succeeded'', ''failed'', ''unknown''} \<or> (\<not> writes \<and> st' = ''approved'')))"

definition started :: "string \<Rightarrow> bool" where
  "started st \<longleftrightarrow> st \<in> {''executing'', ''succeeded'', ''failed'', ''unknown''}"

text \<open>Without a decision, an action that waits is not approved.\<close>

lemma undecided_steps: "(call_next False w)\<^sup>*\<^sup>* st st' \<Longrightarrow> st \<in> {''pending'', ''denied'', ''revoked'', ''expired''} \<Longrightarrow>
  st' \<in> {''pending'', ''denied'', ''revoked'', ''expired''}"
  by (induction rule: rtranclp_induct) (auto simp: call_next_def)

lemma call_next_refl [simp]: "call_next d w st st"
  by (simp add: call_next_def)

lemma call_next_started: "call_next d True st st' \<Longrightarrow> started st \<Longrightarrow> started st'"
  by (auto simp: call_next_def started_def)

lemma call_steps_started: "(call_next d True)\<^sup>*\<^sup>* st st' \<Longrightarrow> started st \<Longrightarrow> started st'"
  by (induction rule: rtranclp_induct) (auto dest: call_next_started)

definition call_core :: "run_action \<Rightarrow> run_action" where
  "call_core a = a\<lparr>ra_status := [], ra_generation := 0, ra_claimed := None, ra_completed := None, ra_result := [],
     ra_source_invalidated := False, ra_arguments := [], ra_provenance := [], ra_target := [], ra_approver := [],
     ra_expires := 0, ra_shared := None, ra_shared_owner := None\<rparr>"

lemma call_core_update [simp]:
  "call_core (a\<lparr>ra_status := x1\<rparr>) = call_core a" "call_core (a\<lparr>ra_generation := x2\<rparr>) = call_core a"
  "call_core (a\<lparr>ra_claimed := x3\<rparr>) = call_core a" "call_core (a\<lparr>ra_completed := x3\<rparr>) = call_core a"
  "call_core (a\<lparr>ra_result := x1\<rparr>) = call_core a" "call_core (a\<lparr>ra_provenance := x4\<rparr>) = call_core a"
  "call_core (a\<lparr>ra_approver := x1\<rparr>) = call_core a" "call_core (a\<lparr>ra_expires := x2\<rparr>) = call_core a"
  "call_core (a\<lparr>ra_shared := x3\<rparr>) = call_core a" "call_core (a\<lparr>ra_shared_owner := x5\<rparr>) = call_core a"
  by (simp_all add: call_core_def)

lemma call_core_sel: "ra_id (call_core a) = ra_id a" "ra_risk (call_core a) = ra_risk a" "ra_run (call_core a) = ra_run a"
  by (simp_all add: call_core_def)

lemma call_core_fields:
  assumes "call_core a' = call_core a"
  shows "ra_id a' = ra_id a \<and> ra_risk a' = ra_risk a \<and> ra_run a' = ra_run a"
proof (intro conjI)
  show "ra_id a' = ra_id a" using arg_cong [OF assms, of ra_id] unfolding call_core_sel .
  show "ra_risk a' = ra_risk a" using arg_cong [OF assms, of ra_risk] unfolding call_core_sel .
  show "ra_run a' = ra_run a" using arg_cong [OF assms, of ra_run] unfolding call_core_sel .
qed

definition action_next :: "bool \<Rightarrow> run_action \<Rightarrow> run_action \<Rightarrow> bool" where
  "action_next d a a' \<longleftrightarrow> call_core a' = call_core a \<and> (call_next d (is_write (ra_risk a)))\<^sup>*\<^sup>* (ra_status a) (ra_status a') \<and>
     ra_expires a' \<le> ra_expires a"

lemma action_next_refl [simp]: "action_next d a a"
  by (simp add: action_next_def)

lemma action_next_trans: "action_next d a b \<Longrightarrow> action_next d b c \<Longrightarrow> action_next d a c"
  using call_core_fields [of b a] by (auto simp: action_next_def)

lemma action_next_id: "action_next d a a' \<Longrightarrow> ra_id a' = ra_id a"
  unfolding action_next_def by (elim conjE) (drule call_core_fields, blast)

lemma rebound_next: "rebound a a' \<Longrightarrow> action_next d a a'"
  by (auto simp: rebound_def action_next_def call_next_def intro!: r_into_rtranclp)

section \<open>The table\<close>

definition keyed :: "bot_db \<Rightarrow> bool" where
  "keyed db \<longleftrightarrow> distinct (map ra_id (b_actions db))"

definition actions_next :: "bool \<Rightarrow> bot_db \<Rightarrow> bot_db \<Rightarrow> bool" where
  "actions_next d db db' \<longleftrightarrow> keyed db' \<and>
     (\<forall>i a. find_action db i = Some a \<longrightarrow> (\<exists>a'. find_action db' i = Some a' \<and> action_next d a a'))"

lemma find_action_id: "find_action db i = Some a \<Longrightarrow> ra_id a = i"
  using find_SomeD by (fastforce simp: find_action_def)

lemma keyed_find: "keyed db \<Longrightarrow> a \<in> set (b_actions db) \<Longrightarrow> find_action db (ra_id a) = Some a"
  by (simp add: keyed_def find_action_def find_unique_key)

lemma action_row_find:
  assumes "keyed db" and "run_action_row db i rid = Some a"
  shows "find_action db i = Some a"
proof -
  have "a \<in> set (b_actions db)" "ra_id a = i" using assms(2) by (auto simp: run_action_row_def find_Some_iff)
  then show ?thesis using keyed_find [OF assms(1)] by blast
qed

lemma actions_next_same: "b_actions db' = b_actions db \<Longrightarrow> keyed db \<Longrightarrow> actions_next d db db'"
  by (simp add: actions_next_def find_action_def keyed_def)

lemma actions_next_trans: "actions_next d db1 db2 \<Longrightarrow> actions_next d db2 db3 \<Longrightarrow> actions_next d db1 db3"
  unfolding actions_next_def by (meson action_next_trans)

lemma find_put_action:
  "find_action (put_action a db) i = (if i = ra_id a then map_option (\<lambda>_. a) (find_action db i) else find_action db i)"
  unfolding find_action_def put_action_def
  by (simp add: find_replace_same [where k = ra_id] find_replace_other [where k = ra_id])

lemma actions_next_put:
  assumes k: "keyed db" and a: "find_action db (ra_id a) = Some x" and n: "action_next d x a"
  shows "actions_next d db (put_action a db)"
proof -
  have "map ra_id (b_actions (put_action a db)) = map ra_id (b_actions db)"
    by (simp add: put_action_def update_where_def)
  then show ?thesis using assms by (auto simp: actions_next_def keyed_def find_put_action)
qed

lemma actions_next_append:
  assumes "keyed db" and "b_actions db' = b_actions db @ [a]" and "find_action db (ra_id a) = None"
  shows "actions_next d db db'"
proof -
  have "ra_id a \<notin> set (map ra_id (b_actions db))" using assms(3) by (auto simp: find_action_def find_None_iff)
  then show ?thesis using assms(1,2) by (auto simp: actions_next_def keyed_def find_action_def find_append)
qed

lemma find_map_key: "(\<And>x. k (f x) = k x) \<Longrightarrow> find (\<lambda>x. k x = i) (map f xs) = map_option f (find (\<lambda>x. k x = i) xs)"
  by (induction xs) simp_all

lemma actions_next_map:
  assumes k: "keyed db" and b: "b_actions db' = map f (b_actions db)" and n: "\<And>a. action_next d a (f a)"
  shows "actions_next d db db'"
proof -
  have id: "ra_id (f a) = ra_id a" for a using n by (rule action_next_id)
  have "find_action db' i = map_option f (find_action db i)" for i
    unfolding find_action_def b using id by (rule find_map_key)
  moreover have "map ra_id (b_actions db') = map ra_id (b_actions db)" by (simp add: b id)
  ultimately show ?thesis using k n by (auto simp: actions_next_def keyed_def)
qed

section \<open>Each callback\<close>

lemma rebind_actions:
  assumes k: "keyed db" and a: "find_action db (ra_id a) = Some a"
    and r: "rebind_action env r a tool s digest db = Inr (a', r', db')"
  shows "actions_next d db db'" "find_action db' (ra_id a) = Some a'" "action_next d a a'" "ra_id a' = ra_id a"
proof -
  have n: "action_next d a a'" and db': "db' = (if a' = a then db else put_action a' db)"
    using rebound_next by (auto intro: rebind_cases [OF r])
  have i: "ra_id a' = ra_id a" by (rule action_next_id [OF n])
  have "actions_next d db (put_action a' db)" by (rule actions_next_put [OF k _ n]) (simp add: i a)
  then show "actions_next d db db'" using actions_next_same [OF refl k] by (simp add: db')
  show "find_action db' (ra_id a) = Some a'" using a i by (simp add: db' find_put_action)
  show "action_next d a a'" by (rule n)
  show "ra_id a' = ra_id a" by (rule i)
qed

lemma submitted_find: "keyed db \<Longrightarrow> submitted_action db rid key = Some a \<Longrightarrow> find_action db (ra_id a) = Some a"
  by (rule keyed_find) (auto simp: submitted_action_def find_Some_iff)

lemma prepare_actions:
  assumes k: "keyed db" and p: "prepare_action env tool arguments key expires gen input r db = Inr (r', db')"
  shows "actions_next d db db'"
proof -
  obtain s doc digest where
    m: "(case submitted_action db (r_id r) key of
       Some a \<Rightarrow> rbind (rebind_action env r a tool s digest db) (\<lambda>(a1, r1, db1). Inr (r1, db1))
     | None \<Rightarrow> record_action env tool s doc digest key expires r db) = Inr (r', db')"
    using p by (auto simp: prepare_action_def rbind_eq_Inr)
  show ?thesis
  proof (cases "submitted_action db (r_id r) key")
    case (Some a)
    then obtain a1 where "rebind_action env r a tool s digest db = Inr (a1, r', db')" using m by (auto simp: rbind_eq_Inr)
    then show ?thesis by (rule rebind_actions(1) [OF k submitted_find [OF k Some]])
  next
    case None
    then have "record_action env tool s doc digest key expires r db = Inr (r', db')" using m by simp
    then obtain a where i: "insert_action a (snd (bot_id env db)) = Inr db'" by (rule record_action_cases)
    note f = insert_action_frame(5,6) [OF i]
    show ?thesis by (rule actions_next_append [OF k, of _ a]) (use f in \<open>simp_all add: find_action_def\<close>)
  qed
qed

lemma start_next:
  "ra_status a = ''approved'' \<Longrightarrow> action_next d a (a\<lparr>ra_status := ''executing'', ra_claimed := c\<rparr>)"
  by (auto simp: action_next_def call_next_def intro!: r_into_rtranclp)

lemma claim_call_actions:
  assumes k: "keyed db" and c: "claim_call env i tool gen input r db = Inr (v, r', db')"
  shows "actions_next d db db'"
  using c
proof (cases rule: claim_call_cases)
  case (1 s a a1 r1 db1)
  have a: "find_action db (ra_id a) = Some a" using 1(3) find_action_id by auto
  note b = rebind_actions [OF k a 1(4)]
  from 1(5) show ?thesis
  proof (cases rule: start_call_cases)
    case replayed
    then show ?thesis using b(1) by simp
  next
    case (dispatched a2)
    have "keyed db1" using b(1) by (simp add: actions_next_def)
    then have "actions_next d db1 db'"
      unfolding dispatched(4) using dispatched(2) start_next [OF dispatched(5)] b(2,4)
      by (intro actions_next_put [of _ _ a1]) simp_all
    then show ?thesis by (rule actions_next_trans [OF b(1)])
  qed
qed

lemma share_actions:
  assumes k: "keyed db" and s: "share_confirmation env user a r db = Inr (r', db')"
  shows "actions_next d db db'"
  using s
proof (cases rule: share_confirmation_cases)
  case (1 live own)
  have "find_action db (ra_id live) = Some live" using action_row_find [OF k 1(2)] find_action_id by auto
  then show ?thesis unfolding 1(4)
    by (intro actions_next_put [OF k, of _ live]) (simp_all add: action_next_def)
qed

lemma recover_next: "action_next d a (recover_action env db r a)"
  by (auto simp: recover_action_def action_next_def call_next_def intro!: r_into_rtranclp)

lemma record_next:
  assumes "ra_status live = ''executing''" and "st \<in> {''succeeded'', ''failed'', ''unknown''}"
  shows "action_next d live (live\<lparr>ra_status := st, ra_completed := c, ra_provenance := p, ra_result := t\<rparr>)"
  using assms by (auto simp: action_next_def call_next_def intro!: r_into_rtranclp)

lemma outcome_status_cases: "outcome_status a f k \<in> {''succeeded'', ''failed'', ''unknown''}"
  by (auto simp: outcome_status_def split: option.splits)

lemma facts_actions:
  assumes k: "keyed db" and f: "facts_fn env c r db = Inr (r', db')"
  shows "actions_next d db db'"
proof (cases c)
  case Recovery
  have "b_actions db' = map (recover_action env db r) (b_actions db)"
    using guarded_pair [OF f [unfolded Recovery facts_fn.simps recover_actions_def Let_def]] by auto
  then show ?thesis by (rule actions_next_map [OF k _ recover_next])
next
  case (Record_Call a failed outcome answer)
  from f [unfolded Record_Call facts_fn.simps] show ?thesis
  proof (cases rule: record_outcome_cases)
    case (1 live a1 r1)
    have live: "find_action db (ra_id live) = Some live" using action_row_find [OF k 1(1)] find_action_id by auto
    obtain p t where a1: "a1 = live\<lparr>ra_status := outcome_status a failed outcome, ra_completed := Some (now env),
        ra_provenance := p, ra_result := t\<rparr>" using 1(5) by blast
    have "ra_status live = ''executing''" using 1(2) by (simp add: same_claim_def)
    from record_next [OF this outcome_status_cases] have "action_next d live a1" unfolding a1 .
    then show ?thesis unfolding 1(4) using live by (intro actions_next_put [OF k, of _ live]) (simp_all add: a1)
  qed
qed

lemma decide_next:
  assumes "ra_status a = ''pending'' \<or> (op = ''revoke'' \<and> ra_status a = ''approved'')" and "op \<in> set decision_ops"
    and "e \<le> ra_expires a"
  shows "action_next True a (a\<lparr>ra_expires := e, ra_status := desired_status op, ra_approver := user\<rparr>)"
  using assms by (auto simp: action_next_def call_next_def desired_status_def decision_ops_def intro!: r_into_rtranclp)

lemma decide_actions:
  assumes k: "keyed db" and o: "aq_op q \<in> set decision_ops" and a: "find_action db (ra_id a) = Some a"
    and d: "decide_action env user q tool a r db = Inr (r', db')"
  shows "actions_next True db db'"
  using decide_action_settles(1) [OF d]
proof (cases rule: settle_decision_cases)
  case again
  then show ?thesis using k by (simp add: actions_next_same)
next
  case (decided a1)
  obtain e where a1: "a1 = a\<lparr>ra_expires := e, ra_status := desired_status (aq_op q), ra_approver := user\<rparr>" "e \<le> ra_expires a"
    using decided(2) by blast
  have n: "action_next True a a1" using decide_next [OF decided(1) o a1(2)] by (simp add: a1(1))
  have p: "actions_next True db (put_action a1 db)" by (rule actions_next_put [OF k _ n]) (simp add: a1 a)
  moreover have "b_actions db' = b_actions (put_action a1 db)" using decided(4) by auto
  ultimately show ?thesis by (simp add: actions_next_def find_action_def keyed_def)
qed

section \<open>Every transaction\<close>

lemma actions_next_cong: "actions_next d db db1 \<Longrightarrow> b_actions db' = b_actions db1 \<Longrightarrow> actions_next d db db'"
  by (simp add: actions_next_def find_action_def keyed_def)

lemma change_actions:
  assumes k: "keyed db" and c: "change_with env prior gen ex facts fn db = Inr (r2, db2)"
    and n: "\<And>r r1 db1. fn r db = Inr (r1, db1) \<Longrightarrow> actions_next d db db1"
  shows "actions_next d db db2"
proof -
  obtain r r1 db1 where f: "fn r db = Inr (r1, db1)" and k: "commit_run env (r_stage r) r1 db1 = Inr (r2, db2)"
    using c by (auto simp: change_with_def rbind_eq_Inr split: if_splits prod.splits)
  show ?thesis using n [OF f] commit_logs [OF k] by (auto intro: actions_next_cong)
qed

lemma report_actions:
  assumes k: "keyed db" and c: "report_once env checked key digest au fn db = Inr (p, db2)"
    and n: "\<And>r r1 db1. fn r db = Inr (r1, db1) \<Longrightarrow> logs db1 = logs db"
  shows "actions_next d db db2"
proof -
  have "b_actions db2 = b_actions db"
    using report_once_cases [OF c]
  proof (elim exE conjE disjE)
    fix r r1 db1 r2 db3
    assume f: "fn r db = Inr (r1, db1)" and c: "commit_run env (r_stage r) r1 db1 = Inr (r2, db3)"
      and q: "put_receipt env (r_id checked) key digest db3 = Inr db2"
    have "b_actions db2 = b_actions db3" using q by (auto simp: put_receipt_def bot_id_def split: if_splits)
    then show ?thesis using n [OF f] commit_logs [OF c] by simp
  qed simp
  then show ?thesis using k by (rule actions_next_same)
qed

lemma close_actions:
  "keyed db \<Longrightarrow> close_interaction env checked key digest user db = Inr (p, db') \<Longrightarrow> actions_next d db db'"
  by (rule actions_next_same)
    (auto simp: close_interaction_def put_receipt_def bot_id_def rbind_eq_Inr split: option.splits if_split_asm dest!: close_all_logs)

lemma decide_once_actions:
  assumes k: "keyed db" and o: "aq_op q \<in> set decision_ops" and d: "decide_once env checked i user q tool digest db = Inr (x, db2)"
  shows "actions_next True db db2"
  using d
proof (cases rule: decide_once_cases)
  case (1 r a)
  have a: "find_action db (ra_id a) = Some a" using action_row_find [OF k 1(2)] find_action_id by auto
  from 1(4) show ?thesis
  proof (elim disjE exE conjE)
    fix r1 db1 r2 db3
    assume f: "decide_action env user q tool a r db = Inr (r1, db1)" and c: "commit_run env (r_stage r) r1 db1 = Inr (r2, db3)"
      and q: "put_receipt env (r_id checked) (decision_key user q) digest db3 = Inr db2"
    have "b_actions db2 = b_actions db1"
      using q commit_logs [OF c] by (auto simp: put_receipt_def bot_id_def split: if_splits)
    then show ?thesis by (rule actions_next_cong [OF decide_actions [OF k o a f]])
  qed (simp add: k actions_next_same)
qed

lemma worker_actions:
  assumes k: "keyed db" and w: "worker_fn env c r db = Inr (r', db')"
  shows "actions_next d db db'"
proof (cases "\<exists>i tool g n. c = Claim_Call i tool g n")
  case True
  then show ?thesis using w claim_call_actions [OF k] by (auto simp: claim_action_def map_sum_snd_Inr)
next
  case False
  then have "logs db' = logs db" by (intro worker_logs [OF w]) blast
  then show ?thesis by (intro actions_next_same k) simp
qed

lemma lifecycle_actions:
  assumes k: "keyed db" and l: "lifecycle_fn env c r db = Inr (r', db')"
  shows "actions_next d db db'"
proof (cases "calls_action c")
  case True
  then show ?thesis using l prepare_actions [OF k] share_actions [OF k] by (cases c) simp_all
next
  case False
  then have "logs db' = logs db" by (rule lifecycle_logs [OF l])
  then show ?thesis by (intro actions_next_same k) simp
qed

lemma run_engine_actions:
  assumes k: "keyed db" and o: "engine_op_ok op" and d: "\<And>checked i user q tool digest. op = Decide checked i user q tool digest \<Longrightarrow> d"
    and r: "run_engine env op db = Inr db'"
  shows "actions_next d db db'"
proof (cases op)
  case (Work prior gen c)
  then show ?thesis using r change_actions [OF k _ worker_actions [OF k]] by (auto simp: map_sum_snd_Inr change_run_def)
next
  case (Lifecycle prior gen c)
  then show ?thesis using r change_actions [OF k _ lifecycle_actions [OF k]] by (auto simp: map_sum_snd_Inr change_lifecycle_def)
next
  case (Facts prior c)
  then show ?thesis using r change_actions [OF k _ facts_actions [OF k]] by (auto simp: map_sum_snd_Inr change_action_facts_def)
next
  case (Executor checked key digest u)
  then show ?thesis using r report_actions [OF k _ executor_logs] by (auto simp: map_sum_snd_Inr)
next
  case (Control checked key digest user c ms sources)
  then show ?thesis using r report_actions [OF k _ control_logs] by (auto simp: map_sum_snd_Inr)
next
  case (Close checked key digest user)
  then show ?thesis using r close_actions [OF k] by (auto simp: map_sum_snd_Inr)
next
  case (Decide checked i user q tool digest)
  then show ?thesis using r o d [OF Decide] decide_once_actions [OF k] by (auto simp: map_sum_snd_Inr)
qed (use r k in \<open>auto simp: map_sum_snd_Inr renew_def dest!: accept_logs claim_logs insert_action_grant_frame(5)
  revoke_action_grant_frame(5) intro!: actions_next_same split: if_splits\<close>)

lemma engine_steps_actions: "engine_steps s s' \<Longrightarrow> keyed (snd s) \<Longrightarrow> actions_next True (snd s) (snd s')"
proof (induction rule: rtranclp_induct)
  case base
  then show ?case by (simp add: actions_next_same)
next
  case (step s1 s2)
  then have n: "actions_next True (snd s) (snd s1)" by simp
  then have k: "keyed (snd s1)" by (simp add: actions_next_def)
  have "actions_next True (snd s1) (snd s2)"
    using step(2) k by (cases rule: engine_step.cases) (auto intro: run_engine_actions actions_next_same)
  then show ?case by (rule actions_next_trans [OF n])
qed

end
