(* ===== verification/Action_Props.thy ===== *)
theory Action_Props
  imports Action_Life Run_Demo
begin

text \<open>
  What the service promises about the calls a bot makes: a call that writes leaves the platform at most
  once and only with the authority of the owner of its tool, nobody else approves it, its recorded
  parameters hold no credential, and who may not see it is told nothing of it.
\<close>

section \<open>Dispatch\<close>

text \<open>The call a committed transaction lets out (\<open>invokeAction\<close> calls the tool after its claim committed).\<close>

definition dispatched :: "bot_env \<Rightarrow> engine_op \<Rightarrow> bot_db \<Rightarrow> run_action option" where
  "dispatched env op db =
     (case op of
        Work prior gen (Claim_Call i tool g input) \<Rightarrow>
          if \<not> is_ok (run_engine env op db) then None
          else (case find_run db (r_id prior) of None \<Rightarrow> None
                | Some r \<Rightarrow> (case claim_call env i tool g input r db of Inr (Dispatched a, r', db') \<Rightarrow> Some a | _ \<Rightarrow> None))
      | _ \<Rightarrow> None)"

lemma dispatch_cases:
  assumes d: "dispatched env op db = Some a" and r: "run_engine env op db = Inr db'"
  obtains prior gen i tool g input r r1 db1 where "op = Work prior gen (Claim_Call i tool g input)"
    "find_run db (r_id prior) = Some r" "claim_call env i tool g input r db = Inr (Dispatched a, r1, db1)"
    "b_actions db' = b_actions db1"
proof -
  obtain prior gen i tool g input where op: "op = Work prior gen (Claim_Call i tool g input)"
    using d by (auto simp: dispatched_def split: engine_op.splits worker_cmd.splits)
  obtain x r1 db1 where x: "find_run db (r_id prior) = Some x"
    and c: "claim_call env i tool g input x db = Inr (Dispatched a, r1, db1)"
    using d by (auto simp: dispatched_def op split: if_splits option.splits sum.splits invocation.splits prod.splits)
  obtain y where w: "change_with env prior gen True False (worker_fn env (Claim_Call i tool g input)) db = Inr (y, db')"
    using r by (auto simp: op map_sum_snd_Inr change_run_def)
  have f: "worker_fn env (Claim_Call i tool g input) x db = Inr (r1, db1)" using c by (simp add: claim_action_def)
  have "\<exists>y1. commit_run env (r_stage x) r1 db1 = Inr (y1, db')"
    using w x f by (auto simp: change_with_def rbind_eq_Inr get_run_def of_option_def split: if_splits option.splits)
  then have "b_actions db' = b_actions db1" using commit_logs by fastforce
  then show ?thesis using that op x c by blast
qed

lemma grant_principal_put [simp]: "grant_principal (put_action x db) = grant_principal db"
  by (simp add: fun_eq_iff grant_principal_def run_member_def member_row_def put_action_def)

lemma put_action_grants: "b_action_grants (put_action x db) = b_action_grants db"
  by (simp add: put_action_def)

lemma park_pending_sel:
  "r_requester (park_pending r) = r_requester r" "r_controller (park_pending r) = r_controller r"
  "r_controller_member (park_pending r) = r_controller_member r" "r_conv (park_pending r) = r_conv r"
  "r_bot (park_pending r) = r_bot r" "r_binding (park_pending r) = r_binding r"
  "r_bot_version (park_pending r) = r_bot_version r" "r_binding_version (park_pending r) = r_binding_version r"
  by (simp_all add: park_pending_def)

lemma parked_run:
  "grant_principal db g (park_pending r) = grant_principal db g r"
  "grant_covers g (park_pending r) server tool d p = grant_covers g r server tool d p"
  unfolding grant_principal_def grant_covers_def park_pending_sel by (rule refl)+

lemma approval_current_put [simp]: "approval_current env (put_action x db) r a s = approval_current env db r a s"
  unfolding approval_current_def grant_principal_put put_action_grants by (rule refl)

lemma approval_current_parked [simp]: "approval_current env db (park_pending r) a s = approval_current env db r a s"
  unfolding approval_current_def parked_run park_pending_sel by (rule refl)

text \<open>The row a dispatched call was (\<open>a0\<close>), and what was checked on it.\<close>

lemma dispatchedE:
  assumes k: "keyed db" and d: "dispatched env op db = Some a" and o: "run_engine env op db = Inr db'"
  obtains r s tool a0 where "find_action db (ra_id a) = Some a0" "ra_status a0 = ''approved''"
    "find_action db' (ra_id a) = Some a" "find_run db (ra_run a) = Some r"
    "a = a0\<lparr>ra_status := ''executing'', ra_generation := r_generation r, ra_claimed := Some (now env)\<rparr>"
    "action_fence env db r (r_generation r) (r_input_version r) = Inr ()" "current_action_tool db r tool = Inr s"
    "same_scope a0 r" "same_definition a0 tool (ra_parameters a0)" "now env < ra_expires a"
    "\<exists>doc. canonical_tool_arguments env (ra_arguments a) s tool = Inr (doc, ra_parameters a)"
    "action_write (ra_risk a) \<longrightarrow> approval_current env db r (a0\<lparr>ra_generation := r_generation r\<rparr>) s = Inr ()"
proof -
  obtain prior gen i tool g input r r1 db1 where op: "op = Work prior gen (Claim_Call i tool g input)"
    and r: "find_run db (r_id prior) = Some r" and c: "claim_call env i tool g input r db = Inr (Dispatched a, r1, db1)"
    and b: "b_actions db' = b_actions db1" by (rule dispatch_cases [OF d o])
  obtain s a0 a1 r2 db2 where f: "action_fence env db r g input = Inr ()" and t: "current_action_tool db r tool = Inr s"
    and a0: "find_action db i = Some a0" and bd: "rebind_action env r a0 tool s (ra_parameters a0) db = Inr (a1, r2, db2)"
    and st: "start_call env s a1 r2 db2 = Inr (Dispatched a, r1, db1)" by (rule claim_call_cases [OF c])
  have i: "ra_id a0 = i" by (rule find_action_id [OF a0])
  have k2: "keyed db2" and a1: "find_action db2 i = Some a1" "ra_id a1 = i"
    using rebind_actions(1) [OF k _ bd, where d = True] rebind_actions(2,4) [OF k _ bd] a0 i by (auto simp: actions_next_def)
  obtain rb: "rebound a0 a1" "ra_generation a1 = r_generation r" "same_scope a0 r"
    "same_definition a0 tool (ra_parameters a0)" "db2 = (if a1 = a0 then db else put_action a1 db)"
    "\<exists>doc. canonical_tool_arguments env (ra_arguments a0) s tool = Inr (doc, ra_parameters a0)"
    "r2 = r \<or> r2 = park_pending r"
    using bd by (rule rebind_cases) blast
  from st show ?thesis
  proof (cases rule: start_call_cases)
    case (dispatched a2)
    have a: "a = a1\<lparr>ra_status := ''executing'', ra_claimed := Some (now env)\<rparr>" using dispatched(1,2) by simp
    obtain st g' where x: "a1 = a0\<lparr>ra_status := st, ra_generation := g'\<rparr>" "st = ra_status a0 \<or> st \<noteq> ''approved''"
      using rb(1) unfolding rebound_def by (elim exE conjE) (rule that, assumption, auto)
    then have ap: "ra_status a0 = ''approved''" "a1 = a0\<lparr>ra_generation := r_generation r\<rparr>"
      using dispatched(5) rb(2) by auto
    have ia: "ra_id a = i" using a a1(2) by simp
    have "find_action db' i = find_action (put_action a db2) i" using b dispatched(1,4) by (simp add: find_action_def)
    also have "\<dots> = Some a" unfolding find_put_action ia using a1(1) by simp
    finally have row: "find_action db' i = Some a" .
    show ?thesis
    proof (rule that)
      show "find_action db (ra_id a) = Some a0" "ra_status a0 = ''approved''" using a0 i ap by (simp_all add: a)
      show "find_action db' (ra_id a) = Some a"
        using row ia by simp
      have "r_id r = r_id prior" using r by (rule find_run_id)
      then show "find_run db (ra_run a) = Some r" using r rb(3) by (simp add: a ap(2) same_scope_def)
      show "a = a0\<lparr>ra_status := ''executing'', ra_generation := r_generation r, ra_claimed := Some (now env)\<rparr>"
        by (simp add: a ap(2))
      show "action_fence env db r (r_generation r) (r_input_version r) = Inr ()" using f action_fenceD(4,5) [OF f] by simp
      show "current_action_tool db r tool = Inr s" "same_scope a0 r" "same_definition a0 tool (ra_parameters a0)"
        by (rule t rb(3) rb(4))+
      show "now env < ra_expires a" using dispatched(6) by (simp add: a)
      show "\<exists>doc. canonical_tool_arguments env (ra_arguments a) s tool = Inr (doc, ra_parameters a)"
        using rb(6) by (simp add: a ap(2))
      have "action_write (ra_risk a1) \<longrightarrow> approval_current env db2 r2 a1 s = Inr ()" by (rule dispatched(7))
      moreover have "approval_current env db2 r2 a1 s = approval_current env db r a1 s" using rb(5,7) by auto
      ultimately show "action_write (ra_risk a) \<longrightarrow> approval_current env db r (a0\<lparr>ra_generation := r_generation r\<rparr>) s = Inr ()"
        by (simp add: a ap(2))
    qed
  qed simp
qed

section \<open>A tool of the demo service\<close>

text \<open>
  User \<open>u1\<close> owns the server \<open>s1\<close>, whose tool \<open>transfer\<close> sends. The run \<open>r1\<close> has three calls of it: \<open>a1\<close> and
  \<open>a2\<close> are approved, \<open>a3\<close> waits.
\<close>

definition demo_call_env :: bot_env where
  "demo_call_env = demo_bot_env\<lparr>json_first := (\<lambda>s. if s = ''{}'' then Some (JObj [], False) else None)\<rparr>"

definition demo_tool :: tool_ref where
  "demo_tool = \<lparr>tr_server = ''s1'', tr_transport = ''http'', tr_url = ''u'', tr_name = ''transfer'', tr_definition = ''d'',
     tr_risk = ''send'', tr_target = ''to'', tr_share = True, tr_convs = [''c2'']\<rparr>"

definition demo_server :: mcp_server where
  "demo_server = \<lparr>ms_id = ''s1'', ms_owner_type = ''user'', ms_enabled = True, ms_transport = ''http'', ms_url = ''u'',
     ms_policies = Some [(''transfer'', \<lparr>tp_risk = ''send'', tp_target = ''to'', tp_share = True, tp_convs = [''c2'']\<rparr>)],
     ms_owner = Some ''u1'', ms_auth = Some (''key'', [])\<rparr>"

definition demo_action :: "string \<Rightarrow> string \<Rightarrow> string \<Rightarrow> run_action" where
  "demo_action i st approver = \<lparr>ra_id = i, ra_run = ''r1'', ra_status = st, ra_risk = ''send'', ra_generation = 1, ra_claimed = None,
     ra_completed = None, ra_result = [], ra_source_invalidated = False, ra_tool = Some demo_tool, ra_bot = ''b1'',
     ra_binding = ''bd1'', ra_requester = ''u1'', ra_controller = ''u1'', ra_controller_member = ''c2u1'', ra_server = ''s1'',
     ra_tool_name = ''transfer'', ra_definition = ''d'', ra_parameters = ''f'', ra_arguments = ''{}'', ra_provenance = [],
     ra_target = ''x'', ra_key = i, ra_input_version = 1, ra_approver = approver, ra_grant = None,
     ra_expires = 200 * 1000000000, ra_shared = None, ra_shared_owner = None, ra_created = 0\<rparr>"

definition demo_calls :: bot_db where
  "demo_calls = demo_engine\<lparr>b_runs := [(demo_run ''r1'' None)\<lparr>r_status := ''running'', r_stage := ''model'', r_generation := 1\<rparr>],
     b_work := [(demo_work ''w1'' ''r1'')\<lparr>w_lease := Some (150 * 1000000000), w_token := Some ''t'', w_generation := 1\<rparr>],
     b_servers := [demo_server], b_assignments := [\<lparr>ta_bot = ''b1'', ta_server = ''s1'', ta_enabled = True\<rparr>],
     b_actions := [demo_action ''a1'' ''approved'' ''u1'', demo_action ''a2'' ''approved'' ''u1'', demo_action ''a3'' ''pending'' []]\<rparr>"

definition demo_call :: "string \<Rightarrow> engine_op" where
  "demo_call i = Work (demo_run ''r1'' None) 1 (Claim_Call i demo_tool 1 1)"

definition demo_decision :: engine_op where
  "demo_decision = Decide (demo_run ''r1'' None) ''a3'' ''u1''
     \<lparr>aq_op = ''approve'', aq_run = ''r1'', aq_action = ''a3'', aq_grant = [], aq_bot = [], aq_conv = [], aq_server = ''s1'',
      aq_tool = [], aq_arguments = ''{}'', aq_generation = 1, aq_input_version = 1, aq_key = ''k1'', aq_expires = 0\<rparr> demo_tool ''h''"

lemma demo_calls_keyed: "keyed demo_calls"
  by code_simp

definition sent :: "run_action option \<Rightarrow> string \<Rightarrow> bool" where
  "sent x i \<longleftrightarrow> (case x of None \<Rightarrow> False | Some a \<Rightarrow> ra_id a = i \<and> ra_run a = ''r1'' \<and> is_write (ra_risk a) \<and> action_write (ra_risk a))"

definition two_calls :: bool where
  "two_calls \<longleftrightarrow> sent (dispatched demo_call_env (demo_call ''a1'') demo_calls) ''a1'' \<and>
     (case run_engine demo_call_env (demo_call ''a1'') demo_calls of Inl e \<Rightarrow> False
      | Inr db \<Rightarrow> is_ok (run_engine demo_call_env (demo_call ''a2'') db) \<and>
          sent (dispatched demo_call_env (demo_call ''a2'') db) ''a2'')"

lemma demo_two_calls: two_calls
  by code_simp

lemma sentE: "sent x i \<Longrightarrow> (\<And>a. x = Some a \<Longrightarrow> ra_id a = i \<Longrightarrow> ra_run a = ''r1'' \<Longrightarrow> is_write (ra_risk a) \<Longrightarrow> action_write (ra_risk a) \<Longrightarrow> P) \<Longrightarrow> P"
  by (auto simp: sent_def split: option.splits)

lemma demo_dispatches:
  obtains a b db1 db2 where "dispatched demo_call_env (demo_call ''a1'') demo_calls = Some a"
    "run_engine demo_call_env (demo_call ''a1'') demo_calls = Inr db1" "is_write (ra_risk a)" "action_write (ra_risk a)"
    "ra_run a = ''r1''" "run_engine demo_call_env (demo_call ''a2'') db1 = Inr db2"
    "dispatched demo_call_env (demo_call ''a2'') db1 = Some b"
  using demo_two_calls unfolding two_calls_def
  by (auto elim!: sentE split: sum.splits simp: is_ok_def)

definition approved_by :: "run_action option \<Rightarrow> string \<Rightarrow> bool" where
  "approved_by x user \<longleftrightarrow> (case x of None \<Rightarrow> False | Some a \<Rightarrow> ra_status a = ''approved'' \<and> ra_approver a = user)"

lemma demo_decided: "case run_engine demo_call_env demo_decision demo_calls of Inl e \<Rightarrow> False
  | Inr db \<Rightarrow> approved_by (find_action db ''a3'') ''u1''"
  by code_simp

section \<open>At most once\<close>

text \<open>C4: A call that writes leaves the platform at most once. Once a transaction has let it out, no worker's
  claim lets it out again: not after its answer was lost, its lease ran out, its run was taken over or
  recovered, its approval was repeated, or after any other transactions of anybody.\<close>

theorem write_dispatched_once:
  assumes "keyed db" and "dispatched env op db = Some a" and "is_write (ra_risk a)" and "run_engine env op db = Inr db1"
    and "engine_steps (now env, db1) (t, db2)" and "run_engine env' op' db2 = Inr db3"
    and "dispatched env' op' db2 = Some b"
  shows "ra_id b \<noteq> ra_id a"
proof
  assume same: "ra_id b = ra_id a"
  obtain a1 where a1: "find_action db1 (ra_id a) = Some a" "ra_status a = ''executing''"
    by (rule dispatchedE [OF assms(1,2,4)]) auto
  have k1: "keyed db1" using run_engine_actions [OF assms(1) _ _ assms(4), of True] assms(2)
    by (auto simp: actions_next_def dispatched_def split: engine_op.splits)
  have n: "actions_next True db1 db2" using engine_steps_actions [OF assms(5)] k1 by simp
  then obtain a2 where a2: "find_action db2 (ra_id a) = Some a2" "action_next True a a2"
    using a1(1) by (auto simp: actions_next_def)
  have "started (ra_status a2)"
    using call_steps_started a2(2) assms(3) a1(2) by (auto simp: action_next_def started_def)
  moreover have "keyed db2" using n by (simp add: actions_next_def)
  from dispatchedE [OF this assms(7,6)] have "ra_status a2 = ''approved''" using a2(1) same by (metis option.inject)
  ultimately show False by (simp add: started_def)
qed

theorem write_dispatched_once_witness:
  "\<exists>a b db1. dispatched demo_call_env (demo_call ''a1'') demo_calls = Some a \<and>
     run_engine demo_call_env (demo_call ''a1'') demo_calls = Inr db1 \<and>
     dispatched demo_call_env (demo_call ''a2'') db1 = Some b \<and> ra_id b \<noteq> ra_id a"
proof -
  obtain a b db1 db2 where d: "dispatched demo_call_env (demo_call ''a1'') demo_calls = Some a"
    "run_engine demo_call_env (demo_call ''a1'') demo_calls = Inr db1" "is_write (ra_risk a)"
    "run_engine demo_call_env (demo_call ''a2'') db1 = Inr db2" "dispatched demo_call_env (demo_call ''a2'') db1 = Some b"
    by (rule demo_dispatches) blast
  have "engine_steps (now demo_call_env, db1) (now demo_call_env, db1)" by simp
  from write_dispatched_once [OF demo_calls_keyed d(1,3,2) this d(4,5)] show ?thesis using d by blast
qed

section \<open>Authority\<close>

text \<open>C5: A call that writes leaves the platform only with the authority it was recorded with: its row was
  approved and has not expired, its tool is still an enabled server that belongs to the user who
  approved it, any standing permission it rests on is alive and names exactly this call in this
  conversation, its parameters are those the digest was taken of, and its run is not revoked, finished or
  stopping and still at the generation and the accepted input of the call.\<close>

theorem write_needs_approval:
  assumes "keyed db" and "dispatched env op db = Some a" and "action_write (ra_risk a)" and "run_engine env op db = Inr db'"
  shows "\<exists>r s tool a0 doc. find_run db (ra_run a) = Some r \<and> find_action db (ra_id a) = Some a0 \<and> ra_status a0 = ''approved'' \<and>
    now env < ra_expires a \<and> enabled_server db (ra_server a) = Some s \<and> owned_server s (ra_approver a) \<and>
    (\<forall>i. ra_grant a = Some i \<longrightarrow> (\<exists>g\<in>set (b_action_grants db). ag_id g = i \<and> live_grant env g \<and> ag_owner g = ra_approver a \<and>
       ag_conv g = r_conv r \<and> grant_covers g r (ra_server a) (ra_tool_name a) (ra_definition a) (ra_parameters a))) \<and>
    canonical_tool_arguments env (ra_arguments a) s tool = Inr (doc, ra_parameters a) \<and> ra_tool a = Some tool \<and>
    run_living r \<and> \<not> r_revoked r \<and> ra_generation a = r_generation r \<and> ra_input_version a = r_input_version r"
proof -
  obtain r s tool a0 doc where a0: "find_action db (ra_id a) = Some a0" "ra_status a0 = ''approved''"
    and r: "find_run db (ra_run a) = Some r"
    and a: "a = a0\<lparr>ra_status := ''executing'', ra_generation := r_generation r, ra_claimed := Some (now env)\<rparr>"
    and f: "action_fence env db r (r_generation r) (r_input_version r) = Inr ()" and t: "current_action_tool db r tool = Inr s"
    and sc: "same_scope a0 r" "same_definition a0 tool (ra_parameters a0)" and e: "now env < ra_expires a"
    and c: "canonical_tool_arguments env (ra_arguments a) s tool = Inr (doc, ra_parameters a)"
    and p: "action_write (ra_risk a) \<longrightarrow> approval_current env db r (a0\<lparr>ra_generation := r_generation r\<rparr>) s = Inr ()"
    by (rule dispatchedE [OF assms(1,2,4)]) blast
  have ap: "approval_current env db r (a0\<lparr>ra_generation := r_generation r\<rparr>) s = Inr ()" using p assms(3) by simp
  then have own: "owned_server s (ra_approver a)" by (auto simp: approval_current_def a split: if_splits)
  have srv: "enabled_server db (ra_server a) = Some s"
    using t own sc(2) by (auto simp: current_action_tool_def current_tool_def rbind_eq_Inr a no_server_def owned_server_def
        same_definition_def split: if_splits option.splits)
  have g: "\<exists>g\<in>set (b_action_grants db). ag_id g = i \<and> live_grant env g \<and> ag_owner g = ra_approver a \<and>
       ag_conv g = r_conv r \<and> grant_covers g r (ra_server a) (ra_tool_name a) (ra_definition a) (ra_parameters a)"
    if "ra_grant a = Some i" for i
  proof -
    have "ra_grant (a0\<lparr>ra_generation := r_generation r\<rparr>) = Some i" using that by (simp add: a)
    then obtain g where "find (\<lambda>g. ag_id g = i \<and> live_grant env g) (b_action_grants db) = Some g" and "ag_conv g = r_conv r"
      "ag_owner g = ra_approver a" "grant_covers g r (ra_server a) (ra_tool_name a) (ra_definition a) (ra_parameters a)"
      using ap by (auto simp: approval_current_def ensure_def a split: if_split_asm option.split_asm)
    then show ?thesis using find_SomeD by fastforce
  qed
  show ?thesis
    using a0 r e own srv g c sc action_fenceD(1-3) [OF f]
    by (intro exI conjI) (auto simp: a same_scope_def same_definition_def run_living_def)
qed

theorem write_needs_approval_witness:
  "\<exists>a s. dispatched demo_call_env (demo_call ''a1'') demo_calls = Some a \<and> enabled_server demo_calls (ra_server a) = Some s \<and>
     owned_server s (ra_approver a) \<and> now demo_call_env < ra_expires a"
proof -
  obtain a db1 where d: "dispatched demo_call_env (demo_call ''a1'') demo_calls = Some a"
    "run_engine demo_call_env (demo_call ''a1'') demo_calls = Inr db1" "action_write (ra_risk a)"
    by (rule demo_dispatches) blast
  from write_needs_approval [OF demo_calls_keyed d(1,3,2)] show ?thesis using d(1) by blast
qed

section \<open>Who approves\<close>

text \<open>C10: Nobody but the owner of its tool approves an action: a transaction that turns a waiting action into an
  approved one is the decision, to approve, of the user the tool's enabled server belongs to, who is a member
  of the conversation, and that user is recorded as the approver.\<close>

theorem only_owner_approves:
  assumes "keyed db" and "engine_op_ok op" and "run_engine env op db = Inr db'"
    and "find_action db i = Some a" and "ra_status a = ''pending''"
    and "find_action db' i = Some a'" and "ra_status a' = ''approved''"
  shows "\<exists>checked user q tool digest s r m. op = Decide checked i user q tool digest \<and> aq_op q = ''approve'' \<and>
    ra_approver a' = user \<and> enabled_server db (ra_server a) = Some s \<and> owned_server s user \<and>
    find_run db (ra_run a) = Some r \<and> run_member db (r_conv r) user = Inr m"
proof -
  have "\<exists>checked j user q tool digest. op = Decide checked j user q tool digest"
  proof (rule ccontr)
    assume "\<not> ?thesis"
    then have "actions_next False db db'" using run_engine_actions [OF assms(1,2) _ assms(3), of False] by blast
    then have "action_next False a a'" using assms(4,6) unfolding actions_next_def by (metis option.inject)
    then have "(call_next False (is_write (ra_risk a)))\<^sup>*\<^sup>* (ra_status a) (ra_status a')" by (simp add: action_next_def)
    from undecided_steps [OF this] show False using assms(5,7) by simp
  qed
  then obtain checked j user q tool digest where op: "op = Decide checked j user q tool digest" by blast
  then obtain x where "decide_once env checked j user q tool digest db = Inr (x, db')" using assms(3) by (auto simp: map_sum_snd_Inr)
  then show ?thesis
  proof (cases rule: decide_once_cases)
    case (1 r b)
    have b: "ra_id b = j" "find_action db j = Some b" "ra_run b = r_id r"
      using 1(2) action_row_find [OF assms(1) 1(2)] find_SomeD by (fastforce simp: run_action_row_def)+
    obtain r1 db1 r2 db3 where f: "decide_action env user q tool b r db = Inr (r1, db1)"
      and c: "commit_run env (r_stage r) r1 db1 = Inr (r2, db3)"
      and p: "put_receipt env (r_id checked) (decision_key user q) digest db3 = Inr db'"
      using 1(4) assms(4-7) by auto
    have e: "b_actions db' = b_actions db1"
      using p commit_logs [OF c] by (auto simp: put_receipt_def bot_id_def split: if_splits)
    have own: "\<exists>s. enabled_server db (ra_server b) = Some s \<and> owned_server s user" "is_ok (run_member db (r_conv r) user)"
      using 1(3) by (auto simp: decision_rights_def rbind_eq_Inr ensure_eq_Inr of_option_eq_Inr)
    from decide_action_settles(1) [OF f] show ?thesis
    proof (cases rule: settle_decision_cases)
      case again
      then show ?thesis using e assms(4-7) by (simp add: find_action_def)
    next
      case (decided a1)
      have a1: "ra_id a1 = j" "ra_status a1 = desired_status (aq_op q)" "ra_approver a1 = user" using decided(2) b(1) by auto
      have "find_action db' i = find_action (put_action a1 db) i" using decided(4) e by (auto simp: find_action_def)
      then have a': "i = j" "a' = a1" "a = b" using assms(4-7) b(2) a1(1) by (auto simp: find_put_action split: if_splits)
      have "aq_op q = ''approve''" using a'(2) a1(2) assms(7) by (auto simp: desired_status_def split: if_splits)
      moreover have "find_run db (ra_run a) = Some r" using 1(1) b(3) a'(3) find_run_id by metis
      ultimately show ?thesis using own a1 a' op by (auto simp: is_ok_def split: sum.splits)
    qed
  qed
qed

theorem only_owner_approves_witness:
  "\<exists>db a. run_engine demo_call_env demo_decision demo_calls = Inr db \<and> find_action db ''a3'' = Some a \<and>
     ra_approver a = ''u1'' \<and> owned_server demo_server ''u1''"
proof -
  obtain db where r: "run_engine demo_call_env demo_decision demo_calls = Inr db" "approved_by (find_action db ''a3'') ''u1''"
    using demo_decided by (cases "run_engine demo_call_env demo_decision demo_calls") auto
  obtain a where a: "find_action db ''a3'' = Some a" "ra_status a = ''approved''"
    using r(2) by (auto simp: approved_by_def split: option.splits)
  have o: "engine_op_ok demo_decision" by (simp add: demo_decision_def decision_ops_def)
  have p: "find_action demo_calls ''a3'' = Some (demo_action ''a3'' ''pending'' [])" by (simp add: demo_calls_def find_action_def demo_action_def)
  have w: "ra_status (demo_action ''a3'' ''pending'' []) = ''pending''" "ra_server (demo_action ''a3'' ''pending'' []) = ''s1''"
    by (simp_all add: demo_action_def)
  have srv: "enabled_server demo_calls ''s1'' = Some demo_server" by (simp add: demo_calls_def enabled_server_def demo_server_def)
  from only_owner_approves [OF demo_calls_keyed o r(1) p w(1) a] show ?thesis
    using r(1) a(1) srv w(2) by (auto simp: demo_decision_def)
qed

section \<open>What is recorded\<close>

text \<open>
  What a document holds is said by the decoder that reads it to its readers, \<open>json_first\<close>, and not by \<open>json_any\<close>,
  the one the check uses, which gives up on a number beyond \<^verbatim>\<open>float64\<close>: every part of the document, and
  every part of a document that stands, whole, in one of its strings, again and again, as long as the
  numbers of that document are plain (no exponent, at most 300 characters, hence within \<^verbatim>\<open>float64\<close>).
\<close>

fun plain_numbers :: "json \<Rightarrow> bool" where
  "plain_numbers (JNum l) \<longleftrightarrow> length l \<le> 300 \<and> CHR ''e'' \<notin> set l \<and> CHR ''E'' \<notin> set l"
| "plain_numbers (JArr vs) \<longleftrightarrow> list_all plain_numbers vs"
| "plain_numbers (JObj m) \<longleftrightarrow> list_all (\<lambda>(k, v). plain_numbers v) m"
| "plain_numbers _ \<longleftrightarrow> True"

inductive holds :: "bot_env \<Rightarrow> json \<Rightarrow> json \<Rightarrow> bool" for env v where
  Whole: "holds env v v"
| Field: "holds env v (JObj m) \<Longrightarrow> (k, w) \<in> set m \<Longrightarrow> holds env v w"
| Item: "holds env v (JArr ws) \<Longrightarrow> w \<in> set ws \<Longrightarrow> holds env v w"
| Encoded: "holds env v (JStr s) \<Longrightarrow> json_first env s = Some (w, False) \<Longrightarrow> plain_numbers w \<Longrightarrow> holds env v w"

text \<open>
  What the two decoders of \<^verbatim>\<open>encoding/json\<close> promise: a text that is one document with plain numbers is
  accepted by \<^verbatim>\<open>Unmarshal\<close> too, as the same document up to the form of its numbers, and the strings of a
  document have fewer characters than its text.
\<close>

fun same_shape :: "json \<Rightarrow> json \<Rightarrow> bool" where
  "same_shape (JNum l) (JNum k) \<longleftrightarrow> True"
| "same_shape (JArr vs) (JArr ws) \<longleftrightarrow> list_all2 same_shape vs ws"
| "same_shape (JObj m) (JObj n) \<longleftrightarrow> list_all2 (\<lambda>(k, v) (l, w). k = l \<and> same_shape v w) m n"
| "same_shape v w \<longleftrightarrow> v = w"

lemma same_shape_refl [simp]: "same_shape v v"
  by (induction v) (auto intro!: list.rel_refl_strong)

definition decoders_agree :: "bot_env \<Rightarrow> bool" where
  "decoders_agree env \<longleftrightarrow> (\<forall>s v. json_first env s = Some (v, False) \<longrightarrow> plain_numbers v \<longrightarrow>
     (\<exists>w. json_any env s = Some w \<and> same_shape v w \<and> text_size w < length (runes s)))"

lemma shape_contains_secret: "same_shape v w \<Longrightarrow> contains_secret env v = contains_secret env w"
proof (induction v w rule: same_shape.induct)
  case (2 vs ws)
  then have "list_all2 (\<lambda>v w. contains_secret env v = contains_secret env w) vs ws"
    by (fastforce simp: list_all2_iff dest: set_zip_leftD set_zip_rightD)
  then show ?case by (induction rule: list_all2_induct) auto
next
  case (3 m n)
  then have "list_all2 (\<lambda>(k, v) (l, w). k = l \<and> contains_secret env v = contains_secret env w) m n"
    by (fastforce simp: list_all2_iff dest: set_zip_leftD set_zip_rightD)
  then show ?case by (induction rule: list_all2_induct) auto
qed auto

lemma shape_value_contains: "same_shape v w \<Longrightarrow> value_contains x env v = value_contains x env w"
proof (induction v w rule: same_shape.induct)
  case (2 vs ws)
  then have "list_all2 (\<lambda>v w. value_contains x env v = value_contains x env w) vs ws"
    by (fastforce simp: list_all2_iff dest: set_zip_leftD set_zip_rightD)
  then show ?case by (induction rule: list_all2_induct) auto
next
  case (3 m n)
  then have "list_all2 (\<lambda>(k, v) (l, w). k = l \<and> value_contains x env v = value_contains x env w) m n"
    by (fastforce simp: list_all2_iff dest: set_zip_leftD set_zip_rightD)
  then show ?case by (induction rule: list_all2_induct) auto
qed auto

lemma encoded_nested:
  assumes "decoders_agree env" and "json_first env s = Some (v, False)" and "plain_numbers v"
  obtains w where "nested_any env s = Some w" "same_shape v w"
proof -
  obtain w where "json_any env s = Some w" "same_shape v w" "text_size w < length (runes s)"
    using assms unfolding decoders_agree_def by blast
  then show ?thesis by (intro that [of w]) (simp_all add: nested_any_def)
qed

lemma holds_no_secret: "holds env v w \<Longrightarrow> decoders_agree env \<Longrightarrow> \<not> contains_secret env v \<Longrightarrow> \<not> contains_secret env w"
proof (induction rule: holds.induct)
  case (Encoded s w)
  obtain w' where n: "nested_any env s = Some w'" "same_shape w w'" by (rule encoded_nested [OF Encoded(5,2,3)])
  then show ?case using Encoded(4) [OF Encoded(5,6)] shape_contains_secret [OF n(2)] by simp
qed (auto simp: list_ex_iff)

lemma holds_not_contains: "holds env v w \<Longrightarrow> decoders_agree env \<Longrightarrow> \<not> value_contains x env v \<Longrightarrow> \<not> value_contains x env w"
proof (induction rule: holds.induct)
  case (Encoded s w)
  obtain w' where n: "nested_any env s = Some w'" "same_shape w w'" by (rule encoded_nested [OF Encoded(5,2,3)])
  then show ?case using Encoded(4) [OF Encoded(5,6)] shape_value_contains [OF n(2)] by simp
qed (auto simp: list_ex_iff)

text \<open>C17: Accepted parameters hold no secret. Nowhere in a document that \<open>canonicalActionArguments\<close> accepts
  is there a field with the name of a secret, whatever the server, nor a field name or a text with
  one of the server's credentials in it; and nowhere in the documents that stand encoded in its strings,
  as long as their numbers are plain. (A number beyond \<^verbatim>\<open>float64\<close> in an encoded document hides it from the
  check: \<open>overflow_hides_secret\<close>.)\<close>

theorem accepted_parameters_clean:
  assumes "decoders_agree env" and "canonical_arguments env raw server = Inr (doc, digest)" and "holds env doc w"
  shows "(\<forall>m k v. w = JObj m \<and> (k, v) \<in> set m \<longrightarrow>
      \<not> secret_parameter k \<and> (\<forall>x\<in>set (auth_secrets server). \<not> sublist x k)) \<and>
    (\<forall>t. w = JStr t \<longrightarrow> (\<forall>x\<in>set (auth_secrets server). \<not> sublist x t))"
proof -
  have "\<not> contains_secret env doc" "x \<in> set (auth_secrets server) \<Longrightarrow> \<not> value_contains x env doc" for x
    using assms(2) by (auto simp: canonical_arguments_def list_ex_iff split: option.splits json.splits if_splits)
  then have "\<not> contains_secret env w" "x \<in> set (auth_secrets server) \<Longrightarrow> \<not> value_contains x env w" for x
    using holds_no_secret [OF assms(3,1)] holds_not_contains [OF assms(3,1)] by simp_all
  then show ?thesis by (fastforce simp: list_ex_iff)
qed

text \<open>A document with one encoded in its string, and decoders that read both.\<close>

definition demo_document :: json where
  "demo_document = JObj [(''to'', JStr ''x'')]"

definition demo_letter :: json where
  "demo_letter = JObj [(''note'', JStr ''{to:x}'')]"

definition demo_json_env :: bot_env where
  "demo_json_env = demo_bot_env\<lparr>
     json_first := (\<lambda>s. if s = ''{note:{to:x}}'' then Some (demo_letter, False)
                        else if s = ''{to:x}'' then Some (demo_document, False) else None),
     json_any := (\<lambda>s. if s = ''{note:{to:x}}'' then Some demo_letter else if s = ''{to:x}'' then Some demo_document else None)\<rparr>"

lemma demo_decoders: "decoders_agree demo_json_env"
proof -
  have "text_size demo_letter < length (runes ''{note:{to:x}}'')" "text_size demo_document < length (runes ''{to:x}'')"
    by code_simp+
  then have "(json_first demo_json_env s = Some (v, False)) \<longrightarrow>
      json_any demo_json_env s = Some v \<and> same_shape v v \<and> text_size v < length (runes s)" for s v
    by (auto simp: demo_json_env_def demo_letter_def demo_document_def)
  then show ?thesis unfolding decoders_agree_def by blast
qed

theorem accepted_parameters_clean_witness:
  "canonical_arguments demo_json_env ''{note:{to:x}}'' demo_server = Inr (demo_letter, ''f'') \<and>
   holds demo_json_env demo_letter demo_document \<and> \<not> secret_parameter ''to'' \<and> \<not> sublist ''key'' ''to''"
proof -
  have c: "canonical_arguments demo_json_env ''{note:{to:x}}'' demo_server = Inr (demo_letter, ''f'')" by code_simp
  have s: "holds demo_json_env demo_letter (JStr ''{to:x}'')"
    by (rule holds.Field [of _ _ "[(''note'', JStr ''{to:x}'')]" "''note''"]) (simp_all add: demo_letter_def holds.Whole)
  have h: "holds demo_json_env demo_letter demo_document"
    by (rule holds.Encoded [OF s]) (simp_all add: demo_json_env_def demo_document_def)
  have "''key'' \<in> set (auth_secrets demo_server)" by (simp add: auth_secrets_def demo_server_def)
  then show ?thesis using accepted_parameters_clean [OF demo_decoders c h] c h by (auto simp: demo_document_def)
qed

text \<open>The limit of the check: what \<^verbatim>\<open>Unmarshal\<close> refuses, it does not look into, whoever reads it later.\<close>

lemma overflow_hides_secret:
  assumes "json_first env raw = Some (JObj [(''note'', JStr s)], False)" and "json_any env s = None" and "auth_secrets server = []"
  shows "is_ok (canonical_arguments env raw server)"
proof -
  have n: "\<not> secret_parameter ''note''" by code_simp
  show ?thesis using assms n by (simp add: canonical_arguments_def nested_any_def is_ok_def)
qed

section \<open>What is shown\<close>

text \<open>Only the first value of a text is read: the rest of a text that begins with one is lost.\<close>

lemma redact_reads_first_value:
  assumes "json_first env ''12 Main Street'' = Some (JNum ''12'', True)" and "json_encode env (JNum ''12'') = ''12''"
  shows "redact env (JStr ''12 Main Street'') = JStr ''12''"
proof -
  have "text_size (JNum ''12'') < length (runes ''12 Main Street'')" by code_simp
  then have "nested env ''12 Main Street'' = Some (JNum ''12'')" using assms(1) by (simp add: nested_def)
  then show ?thesis using assms(2) by simp
qed

text \<open>The readers a view is complete for.\<close>

definition full_reader :: "bot_env \<Rightarrow> service_checks \<Rightarrow> bot_db \<Rightarrow> run_action \<Rightarrow> string \<Rightarrow> run \<Rightarrow> bool" where
  "full_reader env sc db a user r \<longleftrightarrow>
     runtime_reader env sc db a user r \<or> personal_requester env sc db a user r \<or> confirming_owner env sc db a user r"

text \<open>C18: A reader who is neither the owner of the tool, the personal requester nor a reader of a platform tool sees
  of an action only its identity and its status: the view does not depend on the parameters, the target or
  the result. Only the owner of the tool's enabled server, a member of the conversation, is offered the approval, while
  the action waits and has not expired and its run lives; a result is shown of a call that has ended only.\<close>

theorem views_by_role:
  assumes "find_run db (ra_run a) = Some r" and "\<not> ra_source_invalidated a"
  shows "(\<not> full_reader env sc db a user r \<longrightarrow>
      (\<forall>x y z. view_action env sc db user a = bare_action env (a\<lparr>ra_arguments := x, ra_target := y, ra_result := z\<rparr>))) \<and>
    (pa_approve (view_action env sc db user a) \<longrightarrow>
      (\<exists>s m. enabled_server db (ra_server a) = Some s \<and> owned_server s user \<and> run_member db (r_conv r) user = Inr m \<and>
         ra_status a = ''pending'' \<and> now env < ra_expires a \<and> run_living r)) \<and>
    (pa_result (view_action env sc db user a) \<noteq> [] \<longrightarrow> full_reader env sc db a user r \<and> ra_status a \<in> set final_statuses)"
proof (intro conjI impI)
  have v: "view_action env sc db user a = view_of_run env sc db a user r" using assms by (simp add: view_action_def)
  show "\<forall>x y z. view_action env sc db user a = bare_action env (a\<lparr>ra_arguments := x, ra_target := y, ra_result := z\<rparr>)"
    if "\<not> full_reader env sc db a user r"
    using that unfolding v by (simp add: full_reader_def view_of_run_def Let_def bare_action_def shown_status_def)
  show "\<exists>s m. enabled_server db (ra_server a) = Some s \<and> owned_server s user \<and> run_member db (r_conv r) user = Inr m \<and>
      ra_status a = ''pending'' \<and> now env < ra_expires a \<and> run_living r"
    if "pa_approve (view_action env sc db user a)"
  proof -
    have c: "confirming_owner env sc db a user r" "shown_status env a = ''pending''" "run_living r"
      using that unfolding v by (simp_all add: view_of_run_def Let_def)
    have "is_ok (disclosure_access env sc db r a user)"
      using c(1) by (auto simp: confirming_owner_def action_disclosure_def is_ok_def rbind_eq_Inr split: sum.splits)
    then obtain m where "run_member db (r_conv r) user = Inr m"
      by (auto simp: disclosure_access_def is_ok_def rbind_eq_Inr split: sum.splits)
    then show ?thesis using c
      by (auto simp: confirming_owner_def action_owner_def shown_status_def split: option.splits if_splits)
  qed
  assume res: "pa_result (view_action env sc db user a) \<noteq> []"
  then have "full_reader env sc db a user r" "shown_status env a \<in> set final_statuses"
    unfolding v by (auto simp: view_of_run_def Let_def bare_action_def full_reader_def split: if_splits)
  then show "full_reader env sc db a user r" "ra_status a \<in> set final_statuses"
    by (auto simp: shown_status_def final_statuses_def split: if_splits)
qed

definition demo_checks :: service_checks where
  "demo_checks = \<lparr>sc_refresh = Inr, sc_authorize = (\<lambda>_. Inr ()), sc_share = (\<lambda>_. Inr ()), sc_file = (\<lambda>_ _. Inr ()),
     sc_member = (\<lambda>_ _. Inr ()), sc_visible = (\<lambda>_ _. Inr ()), sc_state = (\<lambda>_. Inr [])\<rparr>"

definition demo_waiting :: run_action where
  "demo_waiting = demo_action ''a3'' ''pending'' []"

lemma demo_view: "pa_approve (view_action demo_call_env demo_checks demo_calls ''u1'' demo_waiting) \<and>
  \<not> full_reader demo_call_env demo_checks demo_calls demo_waiting ''u2'' (hd (b_runs demo_calls))"
  by code_simp

theorem views_by_role_witness:
  "pa_approve (view_action demo_call_env demo_checks demo_calls ''u1'' demo_waiting) \<and>
   (\<exists>s. enabled_server demo_calls ''s1'' = Some s \<and> owned_server s ''u1'') \<and>
   view_action demo_call_env demo_checks demo_calls ''u2'' demo_waiting =
     bare_action demo_call_env (demo_waiting\<lparr>ra_arguments := [], ra_target := [], ra_result := []\<rparr>)"
proof -
  have r: "find_run demo_calls (ra_run demo_waiting) = Some (hd (b_runs demo_calls))"
    by (simp add: find_run_def demo_calls_def demo_waiting_def demo_action_def demo_run_def demo_key_def run_key.extend_def)
  have n: "\<not> ra_source_invalidated demo_waiting" "ra_server demo_waiting = ''s1''" by (simp_all add: demo_waiting_def demo_action_def)
  from views_by_role [OF r n(1), of demo_call_env demo_checks] show ?thesis using demo_view n(2) by metis
qed

end
