(* ===== verification/Spec2Isabelle.thy ===== *)
theory Spec2Isabelle
  imports Submission Conversation_Bounds Change_Props Dispatch_Props Inbox_Retention Run_Life Run_Inputs
    Run_Receipts Run_Budget Action_Props
begin

text \<open>
  AIM is an instant messenger whose conversations have human members and bots. This development models the
  core of two of its services and the packages they share: the message service
  (\<^verbatim>\<open>app/message-service\<close>), which stores conversations, members and messages and tells every user's clients what
  changed, and the bot service (\<^verbatim>\<open>app/bot-service\<close>), which lets bots work on behalf of users: it accepts runs,
  leases them to workers and third-party executors, checks again and again what they may still rely on, and lets
  their tool calls out under the authority of the owners of the tools. Paths below are relative to \<^verbatim>\<open>src/\<close>.

  \<^bold>\<open>Conventions.\<close> Go's \<^verbatim>\<open>(value, error)\<close> is a sum \<open>err + 'a\<close>; a transaction is a function from the tables to
  an error or new tables, and an error leaves the tables as they were (\<open>Aim_Prelude\<close>, \<open>Op_System\<close>). Tables are
  records of row lists in insertion order, or maps where the code only looks up keys; a row is a record with the
  columns the code reads or writes. Integers are \<open>int\<close>; where the width matters the wrap-around is written out
  (\<open>wrap64\<close> for the backoff of the dispatcher and the expiry of a mute, \<open>fits\<close> for decoded numbers). Strings are byte
  strings; \<open>runes\<close> decodes UTF-8 as Go does. What lies outside the repository is a field of the environment records
  \<open>env\<close> and \<open>bot_env\<close> or an argument: the UUID syntax, a supply of fresh identities, the clock (\<^verbatim>\<open>NOW()\<close> and
  \<^verbatim>\<open>time.Now()\<close> of one transaction), configured windows and limits, the JSON codec, SHA-256 fingerprints, what the
  file and user services answer, Kafka's acceptance of a record, the tools a server offers, and
  \<open>service_checks\<close>, the answers other services give while an operation is authorized. Row and advisory locks serialize transactions and leave no
  trace in the tables: a transaction is one step of the models, and a row that a caller read before its transaction
  is an argument of it, so it may be stale.

  \<^bold>\<open>Shared packages.\<close> \<open>Sequence_Pos\<close> (\<^verbatim>\<open>pkg/sequence\<close>: positions within 53 bits; the locale \<open>seq_alloc\<close> is the contract
  of an allocator), \<open>Identity\<close> (\<^verbatim>\<open>pkg/identity\<close>), \<open>Biz_Errors\<close> (\<^verbatim>\<open>pkg/errors\<close>: codes and their gRPC and HTTP renderings),
  \<open>Json\<close> (JSON values, lexical numbers, the equality of submissions), \<open>Bot_Policy\<close> (\<^verbatim>\<open>pkg/botpolicy\<close>: binding settings and
  response rules), \<open>Resource_Grants\<close>, \<open>Source_Checks\<close>, \<open>Source_Fence\<close> (\<^verbatim>\<open>pkg/resourcegrant\<close>: grants, exact versions of
  knowledge, tool permissions, and everything an output rests on).

  \<^bold>\<open>Message service.\<close> \<open>Msg_Store\<close> holds its tables and the outbox, \<open>Message_View\<close> contents, previews and the client's view of a row.
  \<open>Messages\<close> is \<^verbatim>\<open>logic/messageservice\<close>: send, system send, edit, recall, delete. \<open>Message_Laws\<close>, \<open>Message_Tail\<close> and \<open>Message_Ops\<close>
  prove the store invariant \<open>db_inv\<close> and the conversation tail \<open>tail_inv\<close>; the effects of a send, an edit, a recall and a
  deletion are equations for the whole store;
  \<open>Submission\<close>, \<open>Message_Props\<close>, \<open>Change_Props\<close> state the properties. \<open>Conversations\<close> and \<open>Conversation_Admin\<close>
  are \<^verbatim>\<open>logic/conversationservice\<close>; \<open>Conversation_Laws\<close> to \<open>Conversation_Service\<close> prove that every request keeps \<open>chat_inv\<close>, and
  \<open>Conversation_Rank\<close>, \<open>Conversation_Props\<close>, \<open>Conversation_Effects\<close>, \<open>Conversation_Bounds\<close> are about ranks, ownership, read positions,
  removal, mutes and limits. \<open>Outbox_Dispatch\<close> is \<^verbatim>\<open>dispatcher/outbox_dispatcher.go\<close> with \<^verbatim>\<open>repo/outbox_repo.go\<close>: \<open>Dispatch_Order\<close> and
  \<open>Dispatch_Props\<close> show order, bounds and progress of a batch. \<open>Inbox\<close> is \<^verbatim>\<open>repo/inbox_repo.go\<close>, the per-user change stream
  fed from the outbox; \<open>Inbox_Laws\<close>, \<open>Inbox_Props\<close>, \<open>Inbox_Paging\<close>, \<open>Inbox_Client\<close>, \<open>Inbox_Retention\<close> show
  that redelivery is harmless, positions have no gap and paging misses nothing. \<open>op_system\<close> and \<open>op_log\<close> are the interface of a service to
  its clients, interpreted for each of these.

  \<^bold>\<open>Runs of the bot service.\<close> \<open>Bot_Store\<close> and \<open>Run_View\<close> are \<^verbatim>\<open>internal/model\<close>; \<open>run_row_ok\<close> are the checks of the table
  \<^verbatim>\<open>bot.runs\<close>. \<open>Run_Authority\<close> and \<open>Run_Sources\<close> (\<^verbatim>\<open>repo/run_repo.go\<close>, \<^verbatim>\<open>repo/delegation.go\<close>, \<^verbatim>\<open>repo/delegation_authority.go\<close>) say who may
  act on a run and what it may still rely on. \<open>Run_Repo\<close> has the transactions of \<^verbatim>\<open>RunRepo\<close>: the work queue with leases and generations,
  \<open>change_with\<close>, \<open>report_once\<close> with its receipts, closing and reconciliation; \<open>Run_Accept\<close> is admission and delegation. The callbacks the service
  passes to them are \<open>Run_Executor\<close> (\<^verbatim>\<open>run/executor.go\<close>, reports of third-party executors, and the stop of a delegation tree),
  \<open>Run_Control\<close> (commands of users) and \<open>Run_Worker\<close> (\<^verbatim>\<open>run/worker.go\<close>, \<^verbatim>\<open>run/authority.go\<close>, \<^verbatim>\<open>run/delivery.go\<close>, \<^verbatim>\<open>run/action_recovery.go\<close>).

  \<^bold>\<open>Tool calls.\<close> An action is the record of one exact call. \<open>Action_Args\<close> is what its parameters may be and what readers see of them
  (\<^verbatim>\<open>run/actions.go\<close>, \<^verbatim>\<open>run/knowledge_tools.go\<close>, \<^verbatim>\<open>run/reading_tools.go\<close>), \<open>Bot_Actions\<close> the authority a call rests on, \<open>Action_Calls\<close> its
  transactions (prepare, claim, the last check before the call, the receipt of its outcome, sharing and decision), \<open>Action_Service\<close> the views
  and requests. The call itself happens between two transactions; its outcome is an argument of the second.

  \<^bold>\<open>The engine.\<close> \<open>Run_Order\<close> defines the envelope of the life of a run (\<open>life_step\<close> over status and generation) and
  \<open>Run_Commands\<close> the locale \<open>run_command\<close> (with \<open>worker_command\<close>, \<open>lifecycle_command\<close>, \<open>facts_command\<close>): the law a callback keeps and what then
  holds of the transaction around it. \<open>Action_Laws\<close>, \<open>Run_Callbacks\<close>, \<open>Run_Reports\<close>, \<open>Run_Stops\<close> and \<open>Run_User\<close>
  interpret it for every callback. \<open>Run_Engine\<close>, \<open>Run_Leases\<close> and \<open>Run_System\<close> put the transactions together: \<open>engine_op\<close> is a
  transaction of the repository (every one but \<open>reconcile_authorizations\<close>, see below) with the rows its caller read, \<open>engine_step\<close> a committed one at a later time of the clock, and every reachable state keeps \<open>engine_ok\<close>.
  \<open>Run_Moves\<close> and \<open>Run_Life\<close> refine it to the state machine of a run, whose edges \<open>life_move\<close> are labelled with what a
  transaction does, and show which rows a transaction moves, along which edges. \<open>Run_Props\<close> (finality, fencing, leases), \<open>Run_Receipts\<close> (commands are applied once), \<open>Run_Budget\<close> (delegation trees),
  \<open>Run_Inputs\<close> (accepted inputs), \<open>Run_Types\<close> (preservation and progress of every command), \<open>Run_Termination\<close> (the walks) and, over the life of an action
  (\<open>Run_Logs\<close>, \<open>Action_Life\<close>), \<open>Action_Props\<close> state the properties. \<open>Demo\<close> and \<open>Run_Demo\<close> are the concrete services on which properties
  with hypotheses are instantiated.

  \<^bold>\<open>Bounds and fuel.\<close> The recursive stop of a delegation tree gets the depth \<open>stop_tree_depth\<close>, one more than the runs of the
  tables, and \<open>stop_reaches_descendants\<close> shows that it reaches every descendant, because a run is stored after its delegator.
  The walks over continuation and delegation ancestors that remember where they were (\<open>tree_walk\<close>, \<open>source_walk\<close>) end by the runs not yet seen; \<open>ancestor_loops_end\<close> shows
  that the loops as they are written (\<open>tree_loop\<close>, \<open>source_loop\<close>) return the same on any tables, and that the walk up to a repeated bot, \<open>repeats_ancestor\<close>, does not
  exhaust a fuel of one more than the runs of the tables. A document inside a string of a document is followed as long as it has fewer characters in its strings than its text, which a
  decoded value always has (\<open>text_size\<close>). The batch of the dispatcher, paging and retention recurse on lists or on a decreasing measure.

  \<^bold>\<open>Not modelled.\<close> The gateway, the realtime service, the user, file and knowledge base services and the LLM gateway: transport, sockets, object storage, parsers, vector search and
  adapters of model providers, apart from the rows and answers that authorization reads. Within the message service: search, broadcasts, bot bindings and the summaries of
  quoted messages. Within the bot service: the rounds with the language model and its agent library, context compaction, the execution of the reading tools, the triggering of
  response rules, \<^verbatim>\<open>Service.Accept\<close> (which collects what other services answer into the run and the
  materials that \<open>accept_run\<close> is given), administration of bots and tool servers, read-only queries, and the scrubbing of stored text after a source was revoked: the
  transaction around it is \<open>reconcile_authorizations\<close>, its callback is not modelled and it is no \<open>engine_op\<close>; later checks read the flags it leaves. Goroutines, tickers, metrics and logs have no counterpart.
\<close>

end
